(* ===== verification/Prelude.thy ===== *)
theory Prelude
  imports Main "HOL-Library.Multiset"
begin

text \<open>
  Shared vocabulary of the development: the collections of simplification facts the component
  theories extend, the JavaScript containers the dashboard uses (insertion-ordered \<open>Map\<close>,
  stable \<open>Array.prototype.sort\<close>), and the interfaces (locales) through which the components
  rely on them: consistent comparators, finite maps, and transition systems with an invariant.
\<close>

named_theorems js_defs
  \<open>definitions of the JavaScript run-time functions, for evaluation\<close>

named_theorems data_defs
  \<open>definitions of constants (labels, tables, demo data), for evaluation\<close>

subsection \<open>Options as nullable values\<close>

definition nullish :: "'a option \<Rightarrow> 'a \<Rightarrow> 'a" where
  [js_defs]: "nullish x d = (case x of None \<Rightarrow> d | Some v \<Rightarrow> v)"

lemma nullish_simps [simp]: "nullish None d = d" "nullish (Some v) d = v"
  by (simp_all add: nullish_def)

text \<open>The first element satisfying a predicate, as \<open>Array.prototype.find\<close>.\<close>

fun js_find :: "('a \<Rightarrow> bool) \<Rightarrow> 'a list \<Rightarrow> 'a option" where
  "js_find P [] = None"
| "js_find P (x # xs) = (if P x then Some x else js_find P xs)"

lemma js_find_eq_None [simp]: "js_find P xs = None \<longleftrightarrow> (\<forall>x\<in>set xs. \<not> P x)"
  by (induction xs) auto

lemma js_find_SomeD: "js_find P xs = Some x \<Longrightarrow> x \<in> set xs \<and> P x"
  by (induction xs) (auto split: if_splits)

lemma js_find_map: "js_find P (map f xs) = map_option f (js_find (P \<circ> f) xs)"
  by (induction xs) auto

lemma js_find_filter_hd:
  "js_find P xs = (case filter P xs of [] \<Rightarrow> None | x # _ \<Rightarrow> Some x)"
  by (induction xs) auto

subsection \<open>Insertion-ordered maps\<close>

text \<open>
  A JavaScript \<open>Map\<close> keeps its entries in the order in which the keys were first set; setting
  an existing key keeps its position.
\<close>

type_synonym ('k, 'v) jsmap = "('k \<times> 'v) list"

fun jm_get :: "('k, 'v) jsmap \<Rightarrow> 'k \<Rightarrow> 'v option" where
  "jm_get [] k = None"
| "jm_get ((k', v) # m) k = (if k' = k then Some v else jm_get m k)"

fun jm_set :: "'k \<Rightarrow> 'v \<Rightarrow> ('k, 'v) jsmap \<Rightarrow> ('k, 'v) jsmap" where
  "jm_set k v [] = [(k, v)]"
| "jm_set k v ((k', v') # m) = (if k' = k then (k, v) # m else (k', v') # jm_set k v m)"

fun jm_del :: "'k \<Rightarrow> ('k, 'v) jsmap \<Rightarrow> ('k, 'v) jsmap" where
  "jm_del k [] = []"
| "jm_del k ((k', v') # m) = (if k' = k then jm_del k m else (k', v') # jm_del k m)"

definition jm_has :: "('k, 'v) jsmap \<Rightarrow> 'k \<Rightarrow> bool" where
  [js_defs]: "jm_has m k \<longleftrightarrow> jm_get m k \<noteq> None"

definition jm_keys :: "('k, 'v) jsmap \<Rightarrow> 'k list" where
  [js_defs]: "jm_keys m = map fst m"

definition jm_values :: "('k, 'v) jsmap \<Rightarrow> 'v list" where
  [js_defs]: "jm_values m = map snd m"

text \<open>\<open>new Map(entries)\<close>: later entries overwrite earlier ones.\<close>

definition jm_of :: "('k \<times> 'v) list \<Rightarrow> ('k, 'v) jsmap" where
  [js_defs]: "jm_of kvs = foldl (\<lambda>m (k, v). jm_set k v m) [] kvs"

definition jm_wf :: "('k, 'v) jsmap \<Rightarrow> bool" where
  [js_defs]: "jm_wf m \<longleftrightarrow> distinct (map fst m)"

lemma jm_get_map_of: "jm_get m k = map_of m k"
  by (induction m) auto

lemma jm_get_set [simp]: "jm_get (jm_set k v m) k' = (if k = k' then Some v else jm_get m k')"
  by (induction m) auto

lemma jm_get_del [simp]: "jm_get (jm_del k m) k' = (if k = k' then None else jm_get m k')"
  by (induction m) auto

lemma keys_jm_set: "map fst (jm_set k v m) = (if k \<in> fst ` set m then map fst m else map fst m @ [k])"
  by (induction m) (simp_all, force)

lemma set_keys_jm_set [simp]: "fst ` set (jm_set k v m) = insert k (fst ` set m)"
  by (induction m) (simp_all add: insert_commute split: prod.splits, force)

lemma set_keys_jm_del [simp]: "fst ` set (jm_del k m) = fst ` set m - {k}"
  by (induction m) (force split: if_splits)+

lemma jm_get_None_iff: "jm_get m k = None \<longleftrightarrow> k \<notin> fst ` set m"
  by (simp add: jm_get_map_of map_of_eq_None_iff)

lemma jm_get_in_set: "jm_get m k = Some v \<Longrightarrow> (k, v) \<in> set m"
  by (induction m) (auto split: if_splits)

lemma jm_wf_in_set: "jm_wf m \<Longrightarrow> (k, v) \<in> set m \<Longrightarrow> jm_get m k = Some v"
  by (simp add: jm_wf_def jm_get_map_of)

lemma jm_wf_Nil [simp]: "jm_wf []"
  by (simp add: jm_wf_def)

lemma jm_wf_set [simp]: "jm_wf m \<Longrightarrow> jm_wf (jm_set k v m)"
  by (auto simp: jm_wf_def keys_jm_set)

lemma jm_wf_del [simp]: "jm_wf m \<Longrightarrow> jm_wf (jm_del k m)"
  by (induction m) (auto simp: jm_wf_def)

lemma jm_wf_foldl: "jm_wf m \<Longrightarrow> jm_wf (foldl (\<lambda>m (k, v). jm_set k v m) m kvs)"
  by (induction kvs arbitrary: m) auto

lemma jm_wf_of [simp]: "jm_wf (jm_of kvs)"
  by (simp add: jm_of_def jm_wf_foldl)

lemma jm_get_foldl:
  "jm_get (foldl (\<lambda>m (k, v). jm_set k v m) m kvs) k =
     (case map_of (rev kvs) k of None \<Rightarrow> jm_get m k | Some v \<Rightarrow> Some v)"
  by (induction kvs arbitrary: m) (auto simp: map_add_def split: option.splits)

lemma jm_get_of: "jm_get (jm_of kvs) k = map_of (rev kvs) k"
  by (simp add: jm_of_def jm_get_foldl split: option.splits)

lemma jm_has_of: "jm_has (jm_of kvs) k \<longleftrightarrow> k \<in> fst ` set kvs"
  by (auto simp: jm_has_def jm_get_of map_of_eq_None_iff)

text \<open>
  The interface the components use: a finite map with an invariant, in the style of an abstract
  data type. Its clients fold updates over a list; the lemmas of the locale say what such a fold
  computes, once.
\<close>

locale finite_store =
  fixes empty :: "'m"
    and put :: "'k \<Rightarrow> 'v \<Rightarrow> 'm \<Rightarrow> 'm"
    and remove :: "'k \<Rightarrow> 'm \<Rightarrow> 'm"
    and get :: "'m \<Rightarrow> 'k \<Rightarrow> 'v option"
    and invar :: "'m \<Rightarrow> bool"
  assumes get_empty: "get empty k = None"
    and get_put: "invar m \<Longrightarrow> get (put k v m) k' = (if k = k' then Some v else get m k')"
    and get_remove: "invar m \<Longrightarrow> get (remove k m) k' = (if k = k' then None else get m k')"
    and invar_empty: "invar empty"
    and invar_put: "invar m \<Longrightarrow> invar (put k v m)"
    and invar_remove: "invar m \<Longrightarrow> invar (remove k m)"
begin

lemma get_put_same: "invar m \<Longrightarrow> get (put k v m) k = Some v"
  by (simp add: get_put)

lemma get_put_other: "invar m \<Longrightarrow> k \<noteq> k' \<Longrightarrow> get (put k v m) k' = get m k'"
  by (simp add: get_put)

text \<open>Grouping: every element updates the entry of its own key, from what the entry held.\<close>

lemma fold_upd_invar:
  "invar m \<Longrightarrow> invar (foldl (\<lambda>m x. put (key x) (upd (get m (key x)) x) m) m xs)"
  by (induction xs arbitrary: m) (auto simp: invar_put)

lemma fold_upd_get:
  "invar m \<Longrightarrow>
   get (foldl (\<lambda>m x. put (key x) (upd (get m (key x)) x) m) m xs) k =
     foldl (\<lambda>r x. Some (upd r x)) (get m k) (filter (\<lambda>x. key x = k) xs)"
  by (induction xs arbitrary: m) (auto simp: invar_put get_put)

end

interpretation jm: finite_store "[]" jm_set jm_del jm_get jm_wf
  by unfold_locales auto

subsection \<open>Stable sorting with a comparator\<close>

text \<open>
  \<open>Array.prototype.sort(cmp)\<close> is required to be stable; with a consistent comparator its result
  is determined. Insertion from the right with \<open>cmp x y \<le> 0\<close> computes it.
\<close>

fun cmp_insert :: "('a \<Rightarrow> 'a \<Rightarrow> 'n::{zero,ord}) \<Rightarrow> 'a \<Rightarrow> 'a list \<Rightarrow> 'a list" where
  "cmp_insert cmp x [] = [x]"
| "cmp_insert cmp x (y # ys) = (if cmp x y \<le> 0 then x # y # ys else y # cmp_insert cmp x ys)"

definition js_sort :: "('a \<Rightarrow> 'a \<Rightarrow> 'n::{zero,ord}) \<Rightarrow> 'a list \<Rightarrow> 'a list" where
  [js_defs]: "js_sort cmp xs = foldr (cmp_insert cmp) xs []"

lemma mset_cmp_insert [simp]: "mset (cmp_insert cmp x ys) = add_mset x (mset ys)"
  by (induction ys) auto

lemma mset_js_sort [simp]: "mset (js_sort cmp xs) = mset xs"
  by (induction xs) (auto simp: js_sort_def)

lemma set_js_sort [simp]: "set (js_sort cmp xs) = set xs"
  by (metis mset_js_sort set_mset_mset)

lemma length_js_sort [simp]: "length (js_sort cmp xs) = length xs"
  by (metis mset_js_sort size_mset)

lemma distinct_js_sort [simp]: "distinct (js_sort cmp xs) = distinct xs"
  by (metis mset_js_sort mset_eq_imp_distinct_iff)

lemma js_sort_Nil [simp]: "js_sort cmp [] = []"
  by (simp add: js_sort_def)

lemma js_sort_Cons: "js_sort cmp (x # xs) = cmp_insert cmp x (js_sort cmp xs)"
  by (simp add: js_sort_def)

lemma js_sort_eq_Nil [simp]: "js_sort cmp xs = [] \<longleftrightarrow> xs = []"
  by (metis length_0_conv length_js_sort)

text \<open>
  A consistent comparator: the sign is antisymmetric and \<open>\<le> 0\<close> is transitive (it is then a total
  preorder). Sorting with it orders the array and keeps the order of equal elements.
\<close>

locale comparator =
  fixes cmp :: "'a \<Rightarrow> 'a \<Rightarrow> 'n::linordered_idom"
  assumes antisym_sign: "sgn (cmp x y) = - sgn (cmp y x)"
    and trans_le: "cmp x y \<le> 0 \<Longrightarrow> cmp y z \<le> 0 \<Longrightarrow> cmp x z \<le> 0"
begin

lemma le_total: "cmp x y \<le> 0 \<or> cmp y x \<le> 0"
  using antisym_sign [of x y] by (auto simp: sgn_if split: if_splits)

lemma eq_sym: "cmp x y = 0 \<Longrightarrow> cmp y x = 0"
  using antisym_sign [of x y] by (auto simp: sgn_if split: if_splits)

lemma gt_imp_le: "\<not> cmp x y \<le> 0 \<Longrightarrow> cmp y x \<le> 0"
  using le_total by blast

lemma le_antisym: "cmp x y \<le> 0 \<Longrightarrow> cmp y x \<le> 0 \<Longrightarrow> cmp x y = 0"
  using antisym_sign [of x y] by (auto simp: sgn_if split: if_splits)

lemma eq_trans: "cmp x y = 0 \<Longrightarrow> cmp y z = 0 \<Longrightarrow> cmp x z = 0"
  by (metis eq_sym le_antisym order_refl trans_le)

lemma sorted_insert:
  "sorted_wrt (\<lambda>x y. cmp x y \<le> 0) ys \<Longrightarrow> sorted_wrt (\<lambda>x y. cmp x y \<le> 0) (cmp_insert cmp x ys)"
proof (induction ys)
  case (Cons y ys)
  have set_ins: "set (cmp_insert cmp x ys) = insert x (set ys)"
    by (metis mset_cmp_insert set_mset_add_mset_insert set_mset_mset)
  from Cons show ?case
    by (auto simp: set_ins dest: trans_le gt_imp_le)
qed simp

lemma sorted_sort: "sorted_wrt (\<lambda>x y. cmp x y \<le> 0) (js_sort cmp xs)"
  by (induction xs) (auto simp: js_sort_Cons sorted_insert)

lemma filter_insert_eq:
  "filter (\<lambda>y. cmp z y = 0) (cmp_insert cmp x ys) =
     (if cmp z x = 0 then x # filter (\<lambda>y. cmp z y = 0) ys else filter (\<lambda>y. cmp z y = 0) ys)"
proof (induction ys)
  case (Cons y ys)
  have "\<not> cmp x y \<le> 0 \<Longrightarrow> cmp z x = 0 \<Longrightarrow> cmp z y \<noteq> 0"
    by (metis eq_sym eq_trans order_refl)
  with Cons show ?case by auto
qed simp

lemma sort_stable: "filter (\<lambda>y. cmp z y = 0) (js_sort cmp xs) = filter (\<lambda>y. cmp z y = 0) xs"
  by (induction xs) (simp_all add: js_sort_Cons filter_insert_eq)

lemma hd_sort_least:
  assumes "x \<in> set xs"
  shows "cmp (hd (js_sort cmp xs)) x \<le> 0"
proof -
  have ne: "js_sort cmp xs \<noteq> []" using assms by auto
  have refl: "cmp x x \<le> 0" for x using le_total by blast
  have "x \<in> set (js_sort cmp xs)" using assms by simp
  with ne sorted_sort [of xs] refl show ?thesis
    by (cases "js_sort cmp xs") auto
qed

lemma sort_sorted: "sorted_wrt (\<lambda>x y. cmp x y \<le> 0) xs \<Longrightarrow> js_sort cmp xs = xs"
proof (induction xs)
  case (Cons x xs)
  then show ?case by (cases xs) (auto simp: js_sort_Cons)
qed simp

end

text \<open>Comparing a numeric key gives a consistent comparator, ascending or descending.\<close>

lemma comparator_key: "comparator (\<lambda>x y. f x - f y :: 'n::linordered_idom)"
  by unfold_locales (auto simp: sgn_if)

lemma comparator_key_desc: "comparator (\<lambda>x y. f y - f x :: 'n::linordered_idom)"
  by unfold_locales (auto simp: sgn_if)

text \<open>Comparing by a key, and in the reverse order.\<close>

lemma comparator_on: "comparator f \<Longrightarrow> comparator (\<lambda>a b. f (g a) (g b))"
  unfolding comparator_def by blast

lemma comparator_swap: "comparator f \<Longrightarrow> comparator (\<lambda>a b. f b a)"
  unfolding comparator_def by metis

text \<open>Two comparators combined lexicographically: the second decides the ties of the first.\<close>

lemma comparator_lex:
  fixes f g :: "'a \<Rightarrow> 'a \<Rightarrow> 'n::linordered_idom"
  assumes f: "comparator f" and g: "comparator g"
  shows "comparator (\<lambda>x y. if f x y \<noteq> 0 then f x y else g x y)"
proof
  fix x y z
  show "sgn (if f x y \<noteq> 0 then f x y else g x y) = - sgn (if f y x \<noteq> 0 then f y x else g y x)"
    using comparator.antisym_sign [OF f, of x y] comparator.antisym_sign [OF g, of x y]
      comparator.eq_sym [OF f] by auto
  assume xy: "(if f x y \<noteq> 0 then f x y else g x y) \<le> 0"
    and yz: "(if f y z \<noteq> 0 then f y z else g y z) \<le> 0"
  then have fxy: "f x y \<le> 0" and fyz: "f y z \<le> 0" by (auto split: if_splits)
  then have fxz: "f x z \<le> 0" by (rule comparator.trans_le [OF f])
  show "(if f x z \<noteq> 0 then f x z else g x z) \<le> 0"
  proof (cases "f x z = 0")
    case True
    have "f z x \<le> 0" using True comparator.eq_sym [OF f] by simp
    then have "f y x \<le> 0" using fyz comparator.trans_le [OF f] by blast
    then have "f x y = 0" using fxy comparator.le_antisym [OF f] by blast
    moreover have "f z y \<le> 0"
      using \<open>f z x \<le> 0\<close> fxy comparator.trans_le [OF f] by blast
    then have "f y z = 0" using fyz comparator.le_antisym [OF f] by blast
    ultimately have "g x y \<le> 0" "g y z \<le> 0" using xy yz by auto
    then show ?thesis using True comparator.trans_le [OF g] by simp
  qed (use fxz in simp)
qed

text \<open>The first element of each key, in order: the effect of a \<open>seen\<close> set in a loop.\<close>

fun first_by :: "('a \<Rightarrow> 'k) \<Rightarrow> 'k list \<Rightarrow> 'a list \<Rightarrow> 'a list" where
  "first_by f seen [] = []"
| "first_by f seen (x # xs) =
     (if f x \<in> set seen then first_by f seen xs else x # first_by f (f x # seen) xs)"

lemma first_by_keys: "x \<in> set (first_by f seen xs) \<Longrightarrow> x \<in> set xs \<and> f x \<notin> set seen"
  by (induction f seen xs rule: first_by.induct) (auto split: if_splits)

lemma distinct_first_by: "distinct (map f (first_by f seen xs))"
  by (induction f seen xs rule: first_by.induct) (auto dest: first_by_keys)

lemma first_by_complete:
  "x \<in> set xs \<Longrightarrow> f x \<in> set seen \<or> f x \<in> f ` set (first_by f seen xs)"
  by (induction f seen xs rule: first_by.induct) auto

lemma first_by_sorted:
  assumes "sorted_wrt R xs" "x \<in> set (first_by f seen xs)" "y \<in> set xs" "f y = f x" "\<And>x. R x x"
  shows "R x y"
  using assms (1-4)
proof (induction f seen xs rule: first_by.induct)
  case (2 f seen z xs)
  show ?case
  proof (cases "x = z")
    case True
    with 2 assms (5) show ?thesis by auto
  next
    case False
    with "2.prems" have x: "x \<in> set (first_by f (if f z \<in> set seen then seen else f z # seen) xs)"
      by (auto split: if_splits)
    have "y \<noteq> z"
      using first_by_keys [OF x] first_by_keys [OF "2.prems" (2)] "2.prems" (4) by (auto split: if_splits)
    with x 2 show ?thesis by (auto split: if_splits)
  qed
qed simp

subsection \<open>Transition systems\<close>

text \<open>
  A component with state is a set of initial states and a step relation; an invariant is a
  predicate that holds initially and is kept by every step.
\<close>

inductive reach :: "('s \<Rightarrow> bool) \<Rightarrow> ('s \<Rightarrow> 's \<Rightarrow> bool) \<Rightarrow> 's \<Rightarrow> bool"
  for init :: "'s \<Rightarrow> bool" and step :: "'s \<Rightarrow> 's \<Rightarrow> bool" where
  reach_init: "init s \<Longrightarrow> reach init step s"
| reach_step: "reach init step s \<Longrightarrow> step s t \<Longrightarrow> reach init step t"

lemma reach_from: "reach (\<lambda>x. x = s0) step s \<Longrightarrow> init s0 \<Longrightarrow> reach init step s"
  by (induction rule: reach.induct) (auto intro: reach.intros)

locale invariant_system =
  fixes init :: "'s \<Rightarrow> bool" and step :: "'s \<Rightarrow> 's \<Rightarrow> bool" and inv :: "'s \<Rightarrow> bool"
  assumes init_inv: "init s \<Longrightarrow> inv s"
    and step_inv: "inv s \<Longrightarrow> step s t \<Longrightarrow> inv t"
begin

lemma reach_inv: "reach init step s \<Longrightarrow> inv s"
  by (induction rule: reach.induct) (auto intro: init_inv step_inv)

end

text \<open>A detailed system that follows an abstract one, step by step or standing still.\<close>

locale simulation =
  fixes init :: "'s \<Rightarrow> bool" and step :: "'s \<Rightarrow> 's \<Rightarrow> bool"
    and ainit :: "'a \<Rightarrow> bool" and astep :: "'a \<Rightarrow> 'a \<Rightarrow> bool" and absf :: "'s \<Rightarrow> 'a"
  assumes init_abs: "init s \<Longrightarrow> ainit (absf s)"
    and step_abs: "step s t \<Longrightarrow> absf t = absf s \<or> astep (absf s) (absf t)"
begin

lemma reach_abs: "reach init step s \<Longrightarrow> reach ainit astep (absf s)"
proof (induction rule: reach.induct)
  case (reach_init s)
  then show ?case by (intro reach.reach_init init_abs)
next
  case (reach_step s t)
  from step_abs [OF reach_step.hyps(2)] show ?case using reach_step.IH by (auto intro: reach.reach_step)
qed

end

end
