(* ===== verification/Js_Text.thy ===== *)
theory Js_Text
  imports Prelude
begin

text \<open>
  JavaScript strings. A string is its UTF-8 encoding, a list of bytes (\<open>char\<close>), so that literals
  of the source are literals here; characters outside ASCII that the user interface prints are
  named constants. Concatenation, comparison, splitting at an ASCII character and
  percent-encoding agree with the run time on this representation; indexing by code unit agrees
  on ASCII text, which is where the program does it.

  The theory ends with the percent-encoding codec (\<open>encodeURIComponent\<close>,
  \<open>decodeURIComponent\<close>) and the interface \<open>uri_codec\<close> through which routing and the API client
  rely on it.
\<close>

subsection \<open>Characters and searching\<close>

definition str_of_char :: "char \<Rightarrow> string" where
  [js_defs]: "str_of_char c = [c]"

definition em_dash :: string where
  [data_defs]: "em_dash = [CHR 0xE2, CHR 0x80, CHR 0x94]"

definition ellipsis :: string where
  [data_defs]: "ellipsis = [CHR 0xE2, CHR 0x80, CHR 0xA6]"

definition mid_dot :: string where
  [data_defs]: "mid_dot = [CHR 0xC2, CHR 0xB7]"

definition sigma_sign :: string where
  [data_defs]: "sigma_sign = [CHR 0xCF, CHR 0x83]"

definition times_sign :: string where
  [data_defs]: "times_sign = [CHR 0xC3, CHR 0x97]"

definition minus_sign :: string where
  [data_defs]: "minus_sign = [CHR 0xE2, CHR 0x88, CHR 0x92]"

fun starts_with :: "string \<Rightarrow> string \<Rightarrow> bool" where
  "starts_with s [] = True"
| "starts_with [] (p # ps) = False"
| "starts_with (c # cs) (p # ps) = (c = p \<and> starts_with cs ps)"

lemma starts_with_iff: "starts_with s p \<longleftrightarrow> (\<exists>r. s = p @ r)"
  by (induction s p rule: starts_with.induct) auto

lemma starts_with_append [simp]: "starts_with (p @ r) p"
  by (auto simp: starts_with_iff)

fun str_includes :: "string \<Rightarrow> string \<Rightarrow> bool" where
  "str_includes [] p = (p = [])"
| "str_includes (c # cs) p = (starts_with (c # cs) p \<or> str_includes cs p)"

lemma str_includes_iff: "str_includes s p \<longleftrightarrow> (\<exists>l r. s = l @ p @ r)"
proof (induction s)
  case (Cons c cs)
  show ?case
  proof
    assume "str_includes (c # cs) p"
    then show "\<exists>l r. c # cs = l @ p @ r"
      using Cons by (auto simp: starts_with_iff) (metis append_Cons append_Nil)+
  next
    assume "\<exists>l r. c # cs = l @ p @ r"
    then obtain l r where lr: "c # cs = l @ p @ r" by blast
    show "str_includes (c # cs) p"
    proof (cases l)
      case Nil
      with lr have "starts_with (c # cs) p" by (auto simp only: starts_with_iff append_Nil)
      then show ?thesis by simp
    next
      case (Cons a l')
      with lr \<open>str_includes cs p \<longleftrightarrow> _\<close> show ?thesis by auto
    qed
  qed
qed auto

subsection \<open>Splitting and joining\<close>

text \<open>\<open>s.split(c)\<close> for a one-character separator: always at least one piece.\<close>

fun str_split :: "char \<Rightarrow> string \<Rightarrow> string list" where
  "str_split d [] = [[]]"
| "str_split d (c # cs) =
     (if c = d then [] # str_split d cs
      else (case str_split d cs of [] \<Rightarrow> [[c]] | p # ps \<Rightarrow> (c # p) # ps))"

fun str_join :: "string \<Rightarrow> string list \<Rightarrow> string" where
  "str_join sep [] = []"
| "str_join sep [s] = s"
| "str_join sep (s # t # r) = s @ sep @ str_join sep (t # r)"

lemma str_split_ne [simp]: "str_split d s \<noteq> []"
  by (induction s) (auto split: list.splits)

lemma str_split_nosep: "d \<notin> set s \<Longrightarrow> str_split d s = [s]"
  by (induction s) auto

lemma str_split_append:
  "d \<notin> set p \<Longrightarrow> str_split d (p @ d # r) = p # str_split d r"
  by (induction p) auto

lemma str_join_split: "str_join [d] (str_split d s) = s"
proof (induction s)
  case (Cons c cs)
  obtain p ps where "str_split d cs = p # ps"
    by (cases "str_split d cs") auto
  with Cons show ?case by (cases ps) auto
qed simp

lemma str_split_pieces: "p \<in> set (str_split d s) \<Longrightarrow> d \<notin> set p"
  by (induction s arbitrary: p) (auto split: list.splits if_splits)

subsection \<open>Case, padding, trimming\<close>

definition upper_char :: "char \<Rightarrow> char" where
  [js_defs]: "upper_char c =
     (let n = of_char c :: nat in if 97 \<le> n \<and> n \<le> 122 then char_of (n - 32) else c)"

definition lower_char :: "char \<Rightarrow> char" where
  [js_defs]: "lower_char c =
     (let n = of_char c :: nat in if 65 \<le> n \<and> n \<le> 90 then char_of (n + 32) else c)"

definition to_upper :: "string \<Rightarrow> string" where
  [js_defs]: "to_upper s = map upper_char s"

definition to_lower :: "string \<Rightarrow> string" where
  [js_defs]: "to_lower s = map lower_char s"

lemma length_to_lower [simp]: "length (to_lower s) = length s"
  by (simp add: to_lower_def)

definition pad_start :: "nat \<Rightarrow> char \<Rightarrow> string \<Rightarrow> string" where
  [js_defs]: "pad_start n c s = replicate (n - length s) c @ s"

lemma length_pad_start: "length (pad_start n c s) = max n (length s)"
  by (simp add: pad_start_def)

definition is_space :: "char \<Rightarrow> bool" where
  [js_defs]: "is_space c \<longleftrightarrow> of_char c \<in> {9, 10, 11, 12, 13, 32 :: nat}"

definition trim :: "string \<Rightarrow> string" where
  [js_defs]: "trim s = rev (dropWhile is_space (rev (dropWhile is_space s)))"

lemma hd_dropWhile_space: "dropWhile is_space s = c # r \<Longrightarrow> \<not> is_space c"
  by (metis hd_dropWhile list.distinct(1) list.sel(1))

lemma dropWhile_twice: "dropWhile P (dropWhile P s) = dropWhile P s"
  by (induction s) auto

lemma trim_no_leading: "trim s = c # r \<Longrightarrow> \<not> is_space c"
proof -
  define t where "t = dropWhile is_space s"
  assume "trim s = c # r"
  then have eq: "rev (dropWhile is_space (rev t)) = c # r" by (simp add: trim_def t_def)
  obtain u where "t = rev (dropWhile is_space (rev t)) @ u"
    by (metis rev_append rev_rev_ident takeWhile_dropWhile_id)
  with eq have "t = c # r @ u" by simp
  then show ?thesis using hd_dropWhile_space [of s] by (simp add: t_def)
qed

lemma trim_trim [simp]: "trim (trim s) = trim s"
proof (cases "trim s")
  case Nil
  then show ?thesis by (simp only:) (simp add: trim_def)
next
  case (Cons c r)
  have "rev (trim s) = dropWhile is_space (rev (dropWhile is_space s))"
    by (simp add: trim_def)
  then have "dropWhile is_space (rev (trim s)) = rev (trim s)"
    by (simp add: dropWhile_twice)
  moreover have "dropWhile is_space (trim s) = trim s"
    using Cons trim_no_leading by auto
  ultimately show ?thesis by (simp add: trim_def [of "trim s"])
qed

subsection \<open>Decimal digits\<close>

definition digit_char :: "nat \<Rightarrow> char" where
  [js_defs]: "digit_char d = char_of (48 + d)"

fun nat_str :: "nat \<Rightarrow> string" where
  "nat_str n = (if n < 10 then [digit_char n] else nat_str (n div 10) @ [digit_char (n mod 10)])"

declare nat_str.simps [simp del]

definition int_str :: "int \<Rightarrow> string" where
  [js_defs]: "int_str i = (if i < 0 then ''-'' @ nat_str (nat (- i)) else nat_str (nat i))"

definition digit_val :: "char \<Rightarrow> nat option" where
  [js_defs]: "digit_val c =
     (let n = of_char c :: nat in if 48 \<le> n \<and> n \<le> 57 then Some (n - 48) else None)"

fun parse_nat :: "nat \<Rightarrow> string \<Rightarrow> nat option" where
  "parse_nat acc [] = Some acc"
| "parse_nat acc (c # cs) =
     (case digit_val c of None \<Rightarrow> None | Some d \<Rightarrow> parse_nat (10 * acc + d) cs)"

lemma digit_val_char [simp]: "d < 10 \<Longrightarrow> digit_val (digit_char d) = Some d"
  by (simp add: digit_val_def digit_char_def Let_def)

lemma parse_nat_append:
  "parse_nat acc (s @ t) = (case parse_nat acc s of None \<Rightarrow> None | Some a \<Rightarrow> parse_nat a t)"
  by (induction s arbitrary: acc) (auto split: option.splits)

lemma parse_nat_str: "parse_nat 0 (nat_str n) = Some n"
proof (induction n rule: nat_str.induct)
  case (1 n)
  then show ?case
    by (cases "n < 10")
      (simp_all add: nat_str.simps [of n] parse_nat_append)
qed

lemma nat_str_inject [simp]: "nat_str m = nat_str n \<longleftrightarrow> m = n"
  by (metis option.inject parse_nat_str)

lemma nat_str_ne [simp]: "nat_str n \<noteq> []"
  by (subst nat_str.simps) simp

lemma digit_char_not_sym:
  "d < 10 \<Longrightarrow> digit_char d = c \<Longrightarrow> 48 \<le> (of_char c :: nat) \<and> (of_char c :: nat) \<le> 57"
  by (auto simp: digit_char_def)

lemma nat_str_digits: "c \<in> set (nat_str n) \<Longrightarrow> 48 \<le> (of_char c :: nat) \<and> (of_char c :: nat) \<le> 57"
proof (induction n rule: nat_str.induct)
  case (1 n)
  show ?case
  proof (cases "n < 10")
    case True
    then show ?thesis
      using "1.prems" by (auto simp: nat_str.simps [of n] digit_char_def)
  next
    case False
    then show ?thesis
      using 1 by (auto simp: nat_str.simps [of n] digit_char_def)
  qed
qed

lemma int_str_inject [simp]: "int_str i = int_str j \<longleftrightarrow> i = j"
proof -
  have minus: "nat_str n \<noteq> CHR ''-'' # s" for n s
    using nat_str_digits [of "CHR ''-''" n] by auto
  show ?thesis
    using minus by (auto simp: int_str_def eq_commute [of "CHR ''-'' # _"])
qed

lemma int_str_ne [simp]: "int_str i \<noteq> []"
  by (simp add: int_str_def)

lemma int_str_chars: "c \<in> set (int_str i) \<Longrightarrow> c = CHR ''-'' \<or> (48 \<le> (of_char c :: nat) \<and> (of_char c :: nat) \<le> 57)"
  by (auto simp: int_str_def dest: nat_str_digits split: if_splits)

lemma int_str_no_colon [simp]: "CHR '':'' \<notin> set (int_str i)"
  using int_str_chars [of "CHR '':''" i] by auto

text \<open>A separator that does not occur in the first (last) part determines the parts.\<close>

lemma sep_first_inject:
  "d \<notin> set a \<Longrightarrow> d \<notin> set a' \<Longrightarrow> a @ d # r = a' @ d # r' \<longleftrightarrow> a = a' \<and> r = r'"
proof (induction a arbitrary: a')
  case Nil
  then show ?case by (cases a') auto
next
  case (Cons x a)
  then show ?case by (cases a') auto
qed

lemma sep_last_inject:
  assumes "d \<notin> set b" "d \<notin> set b'"
  shows "r @ d # b = r' @ d # b' \<longleftrightarrow> r = r' \<and> b = b'"
proof -
  have "r @ d # b = r' @ d # b' \<longleftrightarrow> rev b @ d # rev r = rev b' @ d # rev r'"
    by (metis append.assoc append_Cons append_Nil rev.simps(2) rev_append rev_rev_ident)
  also have "\<dots> \<longleftrightarrow> rev b = rev b' \<and> rev r = rev r'"
    using assms by (intro sep_first_inject) auto
  finally show ?thesis by auto
qed

subsection \<open>UTF-8\<close>

definition is_cont :: "char \<Rightarrow> bool" where
  [js_defs]: "is_cont c \<longleftrightarrow> 128 \<le> (of_char c :: nat) \<and> (of_char c :: nat) \<le> 191"

text \<open>
  Well-formed byte sequences (Unicode, table 3-7): no overlong forms, no surrogates, nothing
  beyond U+10FFFF. Every string value without lone surrogates is one of these.
\<close>

fun valid_utf8 :: "string \<Rightarrow> bool" where
  "valid_utf8 [] = True"
| "valid_utf8 (a # r) =
     (let n = (of_char a :: nat) in
      if n < 128 then valid_utf8 r
      else if 194 \<le> n \<and> n \<le> 223 then
        (case r of b # r' \<Rightarrow> is_cont b \<and> valid_utf8 r' | _ \<Rightarrow> False)
      else if 224 \<le> n \<and> n \<le> 239 then
        (case r of b # c # r' \<Rightarrow>
           is_cont b \<and> is_cont c \<and> (n = 224 \<longrightarrow> 160 \<le> (of_char b :: nat))
             \<and> (n = 237 \<longrightarrow> (of_char b :: nat) \<le> 159) \<and> valid_utf8 r'
         | _ \<Rightarrow> False)
      else if 240 \<le> n \<and> n \<le> 244 then
        (case r of b # c # d # r' \<Rightarrow>
           is_cont b \<and> is_cont c \<and> is_cont d \<and> (n = 240 \<longrightarrow> 144 \<le> (of_char b :: nat))
             \<and> (n = 244 \<longrightarrow> (of_char b :: nat) \<le> 143) \<and> valid_utf8 r'
         | _ \<Rightarrow> False)
      else False)"

lemma valid_utf8_ascii: "\<forall>c\<in>set s. (of_char c :: nat) < 128 \<Longrightarrow> valid_utf8 s"
  by (induction s) (auto simp: Let_def)

subsection \<open>Percent-encoding\<close>

definition uri_unreserved :: "char \<Rightarrow> bool" where
  [js_defs]: "uri_unreserved c \<longleftrightarrow>
     (let n = (of_char c :: nat) in
        (48 \<le> n \<and> n \<le> 57) \<or> (65 \<le> n \<and> n \<le> 90) \<or> (97 \<le> n \<and> n \<le> 122)
        \<or> n \<in> {33, 39, 40, 41, 42, 45, 46, 95, 126})"

definition hex_char :: "nat \<Rightarrow> char" where
  [js_defs]: "hex_char d = (if d < 10 then char_of (48 + d) else char_of (55 + d))"

definition hex_val :: "char \<Rightarrow> nat option" where
  [js_defs]: "hex_val c =
     (let n = (of_char c :: nat) in
        if 48 \<le> n \<and> n \<le> 57 then Some (n - 48)
        else if 65 \<le> n \<and> n \<le> 70 then Some (n - 55)
        else if 97 \<le> n \<and> n \<le> 102 then Some (n - 87)
        else None)"

definition enc_byte :: "char \<Rightarrow> string" where
  [js_defs]: "enc_byte c =
     (if uri_unreserved c then [c]
      else [CHR ''%'', hex_char (of_char c div 16), hex_char (of_char c mod 16)])"

definition encodeURIComponent :: "string \<Rightarrow> string" where
  [js_defs]: "encodeURIComponent s = concat (map enc_byte s)"

fun pct_decode :: "string \<Rightarrow> string option" where
  "pct_decode [] = Some []"
| "pct_decode (c # r) =
     (if c = CHR ''%'' then
        (case r of h # l # r' \<Rightarrow>
           (case (hex_val h, hex_val l) of
              (Some a, Some b) \<Rightarrow> map_option (Cons (char_of (16 * a + b))) (pct_decode r')
            | _ \<Rightarrow> None)
         | _ \<Rightarrow> None)
      else map_option (Cons c) (pct_decode r))"

text \<open>\<open>None\<close> is the \<open>URIError\<close> the run time throws.\<close>

definition decodeURIComponent :: "string \<Rightarrow> string option" where
  [js_defs]: "decodeURIComponent s =
     (case pct_decode s of None \<Rightarrow> None | Some b \<Rightarrow> if valid_utf8 b then Some b else None)"

lemma hex_val_char [simp]: "d < 16 \<Longrightarrow> hex_val (hex_char d) = Some d"
  by (auto simp: hex_val_def hex_char_def Let_def)

lemma of_char_less_256: "(of_char c :: nat) < 256"
  by (cases c) (simp add: of_char_of)

lemma of_char_div_16: "(of_char c :: nat) div 16 < 16"
  using of_char_less_256 [of c] by presburger

lemma pct_decode_enc_byte: "pct_decode (enc_byte c @ r) = map_option (Cons c) (pct_decode r)"
proof (cases "uri_unreserved c")
  case True
  then have "c \<noteq> CHR ''%''" by (auto simp: uri_unreserved_def Let_def)
  with True show ?thesis by (simp add: enc_byte_def)
next
  case False
  have "(of_char c :: nat) div 16 < 16" by (rule of_char_div_16)
  with False show ?thesis by (simp add: enc_byte_def)
qed

lemma pct_decode_encode: "pct_decode (encodeURIComponent s) = Some s"
  by (induction s) (simp_all add: encodeURIComponent_def pct_decode_enc_byte)

lemma decode_encode: "valid_utf8 s \<Longrightarrow> decodeURIComponent (encodeURIComponent s) = Some s"
  by (simp add: decodeURIComponent_def pct_decode_encode)

lemma decode_valid: "decodeURIComponent s = Some t \<Longrightarrow> valid_utf8 t"
  by (auto simp: decodeURIComponent_def split: option.splits if_splits)

lemma decode_nonempty: "decodeURIComponent s = Some t \<Longrightarrow> s \<noteq> [] \<Longrightarrow> t \<noteq> []"
  by (cases s) (auto simp: decodeURIComponent_def split: option.splits if_splits list.splits)

lemma encodeURIComponent_inject [simp]:
  "encodeURIComponent s = encodeURIComponent t \<longleftrightarrow> s = t"
  by (metis option.inject pct_decode_encode)

lemma encodeURIComponent_Nil [simp]: "encodeURIComponent s = [] \<longleftrightarrow> s = []"
  by (cases s) (auto simp: encodeURIComponent_def enc_byte_def)

lemma hex_char_unreserved: "d < 16 \<Longrightarrow> uri_unreserved (hex_char d)"
  by (auto simp: hex_char_def uri_unreserved_def Let_def)

lemma enc_byte_chars: "x \<in> set (enc_byte c) \<Longrightarrow> uri_unreserved x \<or> x = CHR ''%''"
  using hex_char_unreserved [OF of_char_div_16 [of c]]
    hex_char_unreserved [of "of_char c mod 16"]
  by (auto simp: enc_byte_def split: if_splits)

lemma encodeURIComponent_chars:
  "x \<in> set (encodeURIComponent s) \<Longrightarrow> uri_unreserved x \<or> x = CHR ''%''"
  by (auto simp: encodeURIComponent_def dest: enc_byte_chars)

lemma encodeURIComponent_no_slash: "CHR ''/'' \<notin> set (encodeURIComponent s)"
  using encodeURIComponent_chars [of "CHR ''/''" s] by (auto simp: uri_unreserved_def)

definition seg_path :: "(string \<Rightarrow> string) \<Rightarrow> string list \<Rightarrow> string" where
  [js_defs]: "seg_path enc vs = concat (map (\<lambda>v. CHR ''/'' # enc v) vs)"

text \<open>
  What clients of the codec rely on: values can be placed in one path segment and recovered, and
  an empty value is the only one with an empty encoding.
\<close>

locale uri_codec =
  fixes enc :: "string \<Rightarrow> string"
    and dec :: "string \<Rightarrow> string option"
    and ok :: "string \<Rightarrow> bool"
  assumes dec_enc: "ok s \<Longrightarrow> dec (enc s) = Some s"
    and enc_no_slash: "CHR ''/'' \<notin> set (enc s)"
    and enc_empty: "enc s = [] \<longleftrightarrow> s = []"
begin

text \<open>A path built from encoded, non-empty segments splits back into them.\<close>

lemma split_seg_path:
  "str_split (CHR ''/'') (p @ seg_path enc vs) = p # map enc vs" if "CHR ''/'' \<notin> set p"
  using that
proof (induction vs arbitrary: p)
  case Nil
  then show ?case by (simp add: seg_path_def str_split_nosep)
next
  case (Cons v vs)
  have "seg_path enc (v # vs) = CHR ''/'' # enc v @ seg_path enc vs" by (simp add: seg_path_def)
  with Cons enc_no_slash show ?case by (simp add: str_split_append)
qed

lemma decode_segments:
  assumes "\<forall>v\<in>set vs. ok v \<and> v \<noteq> []"
  shows "those (map dec (filter (\<lambda>s. s \<noteq> []) (str_split (CHR ''/'') (seg_path enc vs)))) = Some vs"
proof -
  have "str_split (CHR ''/'') (seg_path enc vs) = [] # map enc vs"
    using split_seg_path [of "[]" vs] by simp
  moreover have "filter (\<lambda>s. s \<noteq> []) (map enc vs) = map enc vs"
    using assms by (auto simp: enc_empty)
  moreover have "those (map dec (map enc vs)) = Some vs"
    using assms by (induction vs) (auto simp: dec_enc)
  ultimately show ?thesis by simp
qed

end

interpretation uri: uri_codec encodeURIComponent decodeURIComponent valid_utf8
  by unfold_locales (auto simp: decode_encode encodeURIComponent_no_slash)

end
