(* ===== verification/Js_Num.thy ===== *)
theory Js_Num
  imports Complex_Main Js_Text
begin

text \<open>
  JavaScript numbers and dates. Finite numbers are rationals (the arithmetic of the source is
  read exactly; binary rounding is not modelled), with the three special values where the code
  tests for them. \<open>Math.round\<close>, \<open>toFixed\<close> and the UTC calendar follow ECMA-262; what depends on the
  user's locale or time zone is a field of \<open>host\<close>.
\<close>

subsection \<open>Numbers\<close>

datatype jsnum = Fin rat | PosInf | NegInf | NotANumber

definition is_finite :: "jsnum \<Rightarrow> bool" where
  [js_defs]: "is_finite x \<longleftrightarrow> (case x of Fin _ \<Rightarrow> True | _ \<Rightarrow> False)"

definition math_round :: "rat \<Rightarrow> int" where
  [js_defs]: "math_round x = \<lfloor>x + 1 / 2\<rfloor>"

lemma math_round_of_int [simp]: "math_round (of_int i) = i"
proof -
  have "\<lfloor>of_int i + (1 / 2 :: rat)\<rfloor> = i" by (simp add: floor_eq_iff)
  then show ?thesis by (simp add: math_round_def)
qed

lemma math_round_bounds: "of_int (math_round x) \<le> x + 1 / 2" "x - 1 / 2 < of_int (math_round x)"
  using of_int_floor_le [of "x + 1 / 2"] floor_correct [of "x + 1 / 2"]
  by (auto simp: math_round_def)

lemma math_round_mono: "x \<le> y \<Longrightarrow> math_round x \<le> math_round y"
  by (simp add: math_round_def floor_mono)

lemma math_round_nonneg: "0 \<le> x \<Longrightarrow> 0 \<le> math_round x"
  by (simp add: math_round_def)

text \<open>
  \<open>x.toFixed(d)\<close>: the integer \<open>n\<close> nearest to \<open>x * 10^d\<close>, the larger one on a tie, printed with
  \<open>d\<close> decimals; a negative argument prints the sign and formats its absolute value.
\<close>

definition fixed_units :: "nat \<Rightarrow> rat \<Rightarrow> nat" where
  [js_defs]: "fixed_units d x = nat (math_round (x * 10 ^ d))"

definition fixed_digits :: "nat \<Rightarrow> nat \<Rightarrow> string" where
  [js_defs]: "fixed_digits d n =
     (if d = 0 then nat_str n
      else nat_str (n div 10 ^ d) @ ''.'' @ pad_start d (CHR ''0'') (nat_str (n mod 10 ^ d)))"

definition to_fixed :: "nat \<Rightarrow> rat \<Rightarrow> string" where
  [js_defs]: "to_fixed d x =
     (if x < 0 then ''-'' @ fixed_digits d (fixed_units d (- x))
      else fixed_digits d (fixed_units d x))"

lemma fixed_units_error:
  assumes "0 \<le> x"
  shows "\<bar>of_nat (fixed_units d x) / 10 ^ d - x\<bar> \<le> 1 / (2 * 10 ^ d)"
proof -
  let ?y = "x * 10 ^ d"
  have pos: "(0::rat) < 10 ^ d" by simp
  have "0 \<le> math_round ?y" using assms by (simp add: math_round_nonneg)
  then have n: "of_nat (fixed_units d x) = (of_int (math_round ?y) :: rat)"
    by (simp add: fixed_units_def)
  have "\<bar>of_int (math_round ?y) - ?y\<bar> \<le> 1 / 2"
    using math_round_bounds [of ?y] by linarith
  then have "\<bar>of_int (math_round ?y) - ?y\<bar> / 10 ^ d \<le> (1 / 2) / 10 ^ d"
    using pos by (intro divide_right_mono) auto
  moreover have "of_int (math_round ?y) / 10 ^ d - x = (of_int (math_round ?y) - ?y) / 10 ^ d"
    by (simp add: diff_divide_distrib)
  then have "\<bar>of_int (math_round ?y) - ?y\<bar> / 10 ^ d = \<bar>of_int (math_round ?y) / 10 ^ d - x\<bar>"
    by (simp add: abs_divide)
  ultimately show ?thesis by (simp add: n)
qed

text \<open>A number printed with its shortest representation, for values that are tenths.\<close>

definition tenths_str :: "nat \<Rightarrow> string" where
  [js_defs]: "tenths_str k =
     nat_str (k div 10) @ (if k mod 10 = 0 then [] else ''.'' @ [digit_char (k mod 10)])"

subsection \<open>Dates\<close>

definition ms_per_day :: int where
  [js_defs]: "ms_per_day = 86400000"

definition day_of :: "int \<Rightarrow> int" where
  [js_defs]: "day_of t = t div ms_per_day"

text \<open>The number of the first day of a year (ECMA-262, \<open>DayFromYear\<close>).\<close>

definition day_from_year :: "int \<Rightarrow> int" where
  [js_defs]: "day_from_year y =
     365 * (y - 1970) + (y - 1969) div 4 - (y - 1901) div 100 + (y - 1601) div 400"

text \<open>
  \<open>YearFromTime\<close> is the largest year that starts no later than the day. The estimate is off by at
  most one year, and the comparison with \<open>day_from_year\<close> corrects it.
\<close>

definition year_estimate :: "int \<Rightarrow> int" where
  [js_defs]: "year_estimate d = 1970 + (400 * d) div 146097"

definition year_from_day :: "int \<Rightarrow> int" where
  [js_defs]: "year_from_day d =
     (let e = year_estimate d in
      if day_from_year (e + 1) \<le> d then e + 1
      else if d < day_from_year e then e - 1 else e)"

lemma div_numeral_bounds: "n * (k div n) \<le> k \<and> k < n * (k div n) + n" if "0 < n" for k n :: int
proof -
  have "k = n * (k div n) + k mod n" by simp
  moreover have "0 \<le> k mod n" "k mod n < n" using that by auto
  ultimately show ?thesis by linarith
qed

lemma div_less_iff_int: "k div n < m \<longleftrightarrow> k < m * n" if n: "0 < n" for k m n :: int
proof -
  have "m \<le> k div n \<longleftrightarrow> m * n \<le> k"
  proof
    assume "m \<le> k div n"
    then have "m * n \<le> (k div n) * n" using n by (simp add: mult_right_mono)
    also have "\<dots> \<le> k" using div_numeral_bounds [OF n, of k] by (simp add: mult.commute)
    finally show "m * n \<le> k" .
  next
    assume "m * n \<le> k"
    then have "m * n div n \<le> k div n" using n by (rule zdiv_mono1)
    then show "m \<le> k div n" using n by simp
  qed
  then show ?thesis by linarith
qed

lemma day_from_year_bounds:
  "146097 * (y - 1970) - 506 \<le> 400 * day_from_year y"
  "400 * day_from_year y \<le> 146097 * (y - 1970) + 589"
proof -
  define a b c where "a = (y - 1969) div 4" and "b = (y - 1901) div 100" and "c = (y - 1601) div 400"
  have bounds: "4 * a \<le> y - 1969" "y - 1969 < 4 * a + 4" "100 * b \<le> y - 1901"
    "y - 1901 < 100 * b + 100" "400 * c \<le> y - 1601" "y - 1601 < 400 * c + 400"
    using div_numeral_bounds [of 4 "y - 1969"] div_numeral_bounds [of 100 "y - 1901"]
      div_numeral_bounds [of 400 "y - 1601"]
    unfolding a_def b_def c_def by simp_all
  have dfy: "day_from_year y = 365 * (y - 1970) + a - b + c"
    by (simp add: day_from_year_def a_def b_def c_def)
  show "146097 * (y - 1970) - 506 \<le> 400 * day_from_year y"
    unfolding dfy using bounds by (simp add: algebra_simps)
  show "400 * day_from_year y \<le> 146097 * (y - 1970) + 589"
    unfolding dfy using bounds by (simp add: algebra_simps)
qed

lemma year_estimate_bounds:
  "146097 * (year_estimate d - 1970) \<le> 400 * d"
  "400 * d < 146097 * (year_estimate d - 1970) + 146097"
  using div_numeral_bounds [of 146097 "400 * d"] by (simp_all add: year_estimate_def)

lemma year_from_day_correct:
  "day_from_year (year_from_day d) \<le> d \<and> d < day_from_year (year_from_day d + 1)"
proof -
  define e where "e = year_estimate d"
  note e = year_estimate_bounds [of d, folded e_def]
  have lo: "day_from_year (e - 1) \<le> d"
    using e day_from_year_bounds (2) [of "e - 1"] by (simp add: algebra_simps)
  have hi: "d < day_from_year (e + 2)"
    using e day_from_year_bounds (1) [of "e + 2"] by (simp add: algebra_simps)
  show ?thesis
    using lo hi by (auto simp: year_from_day_def Let_def e_def [symmetric] add.commute)
qed

definition days_in_year :: "int \<Rightarrow> int" where
  [js_defs]: "days_in_year y = day_from_year (y + 1) - day_from_year y"

definition leap_day :: "int \<Rightarrow> int" where
  [js_defs]: "leap_day y = days_in_year y - 365"

lemma div_succ_diff: "(k + 1) div n - k div n = (if n dvd k + 1 then 1 else 0)"
  if n: "0 < n" for k n :: int
proof -
  have m: "0 \<le> k mod n" "k mod n < n" using n by auto
  have k: "k + 1 = (k mod n + 1) + k div n * n" by simp
  have q: "(k + 1) div n = (k mod n + 1) div n + k div n"
    using n by (subst k, subst div_mult_self1) auto
  have "n dvd k + 1 \<longleftrightarrow> n dvd k mod n + 1"
    by (subst k, subst dvd_add_left_iff) auto
  moreover have "(k mod n + 1) div n = (if n dvd k mod n + 1 then 1 else 0)"
  proof (cases "k mod n + 1 = n")
    case True
    then show ?thesis using n by simp
  next
    case False
    then have "k mod n + 1 < n" "0 < k mod n + 1" using m by auto
    then show ?thesis by (simp add: div_pos_pos_trivial zdvd_not_zless)
  qed
  ultimately show ?thesis using q by simp
qed

lemma leap_day_range: "leap_day y = 0 \<or> leap_day y = 1"
proof -
  have d4: "4 dvd y - 1968" if "100 dvd y - 1900"
  proof -
    from that obtain k where "y - 1900 = 100 * k" by blast
    then have "y - 1968 = 4 * (25 * k - 17)" by simp
    then show ?thesis by (simp only: dvd_triv_left)
  qed
  have d100: "100 dvd y - 1900" if "400 dvd y - 1600"
  proof -
    from that obtain k where "y - 1600 = 400 * k" by blast
    then have "y - 1900 = 100 * (4 * k - 3)" by simp
    then show ?thesis by (simp only: dvd_triv_left)
  qed
  define i :: "bool \<Rightarrow> int" where "i b = (if b then 1 else 0)" for b
  have "(y - 1968) div 4 - (y - 1969) div 4 = i (4 dvd y - 1968)"
    using div_succ_diff [of 4 "y - 1969"] by (simp add: i_def)
  moreover have "(y - 1900) div 100 - (y - 1901) div 100 = i (100 dvd y - 1900)"
    using div_succ_diff [of 100 "y - 1901"] by (simp add: i_def)
  moreover have "(y - 1600) div 400 - (y - 1601) div 400 = i (400 dvd y - 1600)"
    using div_succ_diff [of 400 "y - 1601"] by (simp add: i_def)
  moreover have "leap_day y = ((y - 1968) div 4 - (y - 1969) div 4)
      - ((y - 1900) div 100 - (y - 1901) div 100) + ((y - 1600) div 400 - (y - 1601) div 400)"
    by (simp add: leap_day_def days_in_year_def day_from_year_def)
  ultimately have "leap_day y = i (4 dvd y - 1968) - i (100 dvd y - 1900) + i (400 dvd y - 1600)"
    by simp
  then show ?thesis using d4 d100 by (simp add: i_def)
qed

text \<open>\<open>MonthFromTime\<close> and \<open>DateFromTime\<close>, from the day within the year; months count from 0.\<close>

definition month_of_day :: "int \<Rightarrow> int \<Rightarrow> int" where
  [js_defs]: "month_of_day l n =
     (if n < 31 then 0 else if n < 59 + l then 1 else if n < 90 + l then 2
      else if n < 120 + l then 3 else if n < 151 + l then 4 else if n < 181 + l then 5
      else if n < 212 + l then 6 else if n < 243 + l then 7 else if n < 273 + l then 8
      else if n < 304 + l then 9 else if n < 334 + l then 10 else 11)"

definition month_start :: "int \<Rightarrow> int \<Rightarrow> int" where
  [js_defs]: "month_start l m =
     (if m = 0 then 0 else if m = 1 then 31 else if m = 2 then 59 + l else if m = 3 then 90 + l
      else if m = 4 then 120 + l else if m = 5 then 151 + l else if m = 6 then 181 + l
      else if m = 7 then 212 + l else if m = 8 then 243 + l else if m = 9 then 273 + l
      else if m = 10 then 304 + l else 334 + l)"

definition day_in_year :: "int \<Rightarrow> int" where
  [js_defs]: "day_in_year t = day_of t - day_from_year (year_from_day (day_of t))"

definition get_utc_month :: "int \<Rightarrow> int" where
  [js_defs]: "get_utc_month t =
     month_of_day (leap_day (year_from_day (day_of t))) (day_in_year t)"

definition get_utc_date :: "int \<Rightarrow> int" where
  [js_defs]: "get_utc_date t =
     day_in_year t - month_start (leap_day (year_from_day (day_of t))) (get_utc_month t) + 1"

definition get_utc_day :: "int \<Rightarrow> int" where
  [js_defs]: "get_utc_day t = (day_of t + 4) mod 7"

lemma get_utc_month_range: "0 \<le> get_utc_month t" "get_utc_month t \<le> 11"
  by (auto simp: get_utc_month_def month_of_day_def)

lemma month_start_of_day:
  "month_start l (month_of_day l n) =
     (if n < 31 then 0 else if n < 59 + l then 31 else if n < 90 + l then 59 + l
      else if n < 120 + l then 90 + l else if n < 151 + l then 120 + l
      else if n < 181 + l then 151 + l else if n < 212 + l then 181 + l
      else if n < 243 + l then 212 + l else if n < 273 + l then 243 + l
      else if n < 304 + l then 273 + l else if n < 334 + l then 304 + l else 334 + l)"
  by (simp add: month_of_day_def month_start_def)

lemma date_in_month:
  assumes "l = 0 \<or> l = 1" "0 \<le> n" "n < 365 + l"
  shows "0 \<le> n - month_start l (month_of_day l n) \<and> n - month_start l (month_of_day l n) \<le> 30"
  proof -
  have "l = 0 \<Longrightarrow> ?thesis" unfolding month_start_of_day using assms by simp
  moreover have "l = 1 \<Longrightarrow> ?thesis" unfolding month_start_of_day using assms by simp
  ultimately show ?thesis using assms by blast
qed

lemma get_utc_date_range: "1 \<le> get_utc_date t" "get_utc_date t \<le> 31"
proof -
  let ?y = "year_from_day (day_of t)"
  have "0 \<le> day_in_year t" "day_in_year t < 365 + leap_day ?y"
    using year_from_day_correct [of "day_of t"]
    by (auto simp: day_in_year_def leap_day_def days_in_year_def)
  from date_in_month [OF leap_day_range this]
  show "1 \<le> get_utc_date t" "get_utc_date t \<le> 31"
    by (auto simp: get_utc_date_def get_utc_month_def)
qed

lemma get_utc_day_range: "0 \<le> get_utc_day t" "get_utc_day t < 7"
  by (auto simp: get_utc_day_def)

subsection \<open>The host environment\<close>

text \<open>
  What the browser decides: number and date formatting in the user's locale, and the local hour
  of an instant (an hour of the day).
\<close>

record host =
  loc_number :: "rat \<Rightarrow> string"
  loc_date :: "int \<Rightarrow> string"
  loc_time :: "int \<Rightarrow> string"
  loc_day_utc :: "int \<Rightarrow> string"
  loc_day_time :: "int \<Rightarrow> string"
  local_hours :: "int \<Rightarrow> nat"
  date_parse :: "string \<Rightarrow> int option"

end
