(* ===== verification/Api_Types.thy ===== *)
theory Api_Types
  imports Js_Num
begin

text \<open>
  The data of the dashboard: the interfaces under \<open>common/interfaces\<close>, \<open>common/ids\<close> and the
  \<open>interfaces\<close> directories of the modules, as records with the fields of the source (prefixed,
  since field names are global here), and its string unions as datatypes. Instants, counts and
  token numbers are integers, amounts and rates rationals; \<open>T | null\<close> and optional fields are
  options. A callback stored in a record is the value of type \<open>'e\<close> it would fire.
\<close>

type_synonym TraceId = string
type_synonym SpanId = string
type_synonym UserId = string
type_synonym WorkspaceId = string
type_synonym SessionId = string

subsection \<open>Severities\<close>

datatype Severity = Info | Warning | Critical

record severity_style =
  sev_color :: string
  sev_tint :: string
  sev_border :: string
  sev_rank :: int

definition SEVERITY_META :: "Severity \<Rightarrow> severity_style" where
  [data_defs]: "SEVERITY_META s = (case s of
     Critical \<Rightarrow> \<lparr>sev_color = ''var(--error)'',
       sev_tint = ''color-mix(in srgb, var(--error) 14%, transparent)'',
       sev_border = ''color-mix(in srgb, var(--error) 42%, transparent)'', sev_rank = 3\<rparr>
   | Warning \<Rightarrow> \<lparr>sev_color = ''var(--warning)'',
       sev_tint = ''color-mix(in srgb, var(--warning) 14%, transparent)'',
       sev_border = ''color-mix(in srgb, var(--warning) 42%, transparent)'', sev_rank = 2\<rparr>
   | Info \<Rightarrow> \<lparr>sev_color = ''var(--muted-foreground)'',
       sev_tint = ''color-mix(in srgb, var(--muted-foreground) 16%, transparent)'',
       sev_border = ''color-mix(in srgb, var(--muted-foreground) 42%, transparent)'', sev_rank = 1\<rparr>)"

abbreviation rank :: "Severity \<Rightarrow> int" where
  "rank s \<equiv> sev_rank (SEVERITY_META s)"

lemma rank_simps [simp]: "rank Critical = 3" "rank Warning = 2" "rank Info = 1"
  by (simp_all add: SEVERITY_META_def)

lemma rank_inj [simp]: "rank s = rank t \<longleftrightarrow> s = t"
  by (cases s; cases t) auto

lemma rank_range: "1 \<le> rank s" "rank s \<le> 3"
  by (cases s; simp)+

text \<open>Severities are ordered by their rank, so that the library's order lemmas apply.\<close>

instantiation Severity :: linorder
begin

definition less_eq_Severity :: "Severity \<Rightarrow> Severity \<Rightarrow> bool" where
  "less_eq_Severity s t \<longleftrightarrow> rank s \<le> rank t"

definition less_Severity :: "Severity \<Rightarrow> Severity \<Rightarrow> bool" where
  "less_Severity s t \<longleftrightarrow> rank s < rank t"

instance
  by standard (auto simp: less_eq_Severity_def less_Severity_def)

end

subsection \<open>Shared shapes\<close>

record SetupIssue =
  si_code :: string
  si_severity :: Severity
  si_message :: string

record AvailableTool =
  at_name :: string
  at_description :: string
  at_used :: bool

record CostPoint =
  cp_label :: string
  cp_value :: rat

record LatencyPoint =
  lp_label :: string
  lp_p50 :: "rat option"
  lp_p95 :: "rat option"
  lp_p99 :: "rat option"

record ErrorPoint =
  ep_label :: string
  ep_errors :: int
  ep_total :: int

record 'e ChartMarker =
  cm_index :: nat
  cm_color :: string
  cm_label :: "string option"
  cm_onClick :: "'e option"

record 'a PaginatedResponse =
  pr_items :: "'a list"
  pr_total :: int
  pr_page :: int
  pr_page_size :: int

record APIClientConfig =
  cfg_baseUrl :: string
  cfg_apiKey :: string
  cfg_timeoutMs :: "int option"
  cfg_workspaceId :: "string option"

subsection \<open>Overview metrics\<close>

datatype DeltaTone = Good | Bad | Neutral

record Kpi =
  kpi_value :: rat
  kpi_delta :: jsnum
  kpi_delta_type :: DeltaTone

record KpiSet =
  ks_cost :: Kpi
  ks_runs :: Kpi
  ks_latency_p95 :: Kpi
  ks_error_rate :: Kpi

record CostBucket =
  cb_bucket_ms :: int
  cb_value :: rat

record LatencyBucket =
  lb_bucket_ms :: int
  lb_p50 :: "rat option"
  lb_p95 :: "rat option"
  lb_p99 :: "rat option"

record TokenBucket =
  tb_bucket_ms :: int
  tb_input_tokens :: int
  tb_output_tokens :: int

record ErrorBucket =
  eb_bucket_ms :: int
  eb_errors :: int
  eb_total :: int

record WorkflowCost =
  wc_name :: string
  wc_cost :: rat
  wc_calls :: int
  wc_trend :: "int list"

record FailureRow =
  fr_workflow :: string
  fr_count :: int
  fr_pct :: rat

datatype AnomalyMetric = Cost | ErrorRate | Runs
datatype AnomalyScope = WorkspaceScope | WorkflowScope
datatype AnomalyDirection = Spike | Drop

record VersionChange =
  vc_workflow :: string
  vc_version :: string
  vc_first_seen_ms :: int

record Anomaly =
  an_metric :: AnomalyMetric
  an_scope :: AnomalyScope
  an_workflow :: string
  an_bucket_ms :: int
  an_observed :: rat
  an_expected :: rat
  an_deviation :: rat
  an_score :: rat
  an_direction :: AnomalyDirection
  an_severity :: Severity
  an_summary :: string
  an_version_change :: "VersionChange option"

record SetupCheck = SetupIssue +
  sc_spans :: int
  sc_share :: rat
  sc_example_trace_id :: string

datatype run_status = Completed | Failed

record ActivityItem =
  ai_id :: TraceId
  ai_workflow :: string
  ai_status :: run_status
  ai_time :: string
  ai_latency :: rat
  ai_msg :: "string option"

subsection \<open>Presentation rows\<close>

record KpiItem =
  ki_label :: string
  ki_value :: string
  ki_delta :: "string option"
  ki_deltaTone :: "DeltaTone option"
  ki_sparkData :: "rat option list option"
  ki_sparkColor :: "string option"
  ki_hint :: "string option"

record RunRow =
  rr_id :: string
  rr_name :: "string option"
  rr_status :: run_status
  rr_time :: string
  rr_duration :: rat
  rr_cost :: rat
  rr_err :: "string option"
  rr_version :: "string option"

subsection \<open>Usage\<close>

record ModelCost =
  mc_name :: string
  mc_cost :: rat
  mc_calls :: int
  mc_input_tokens :: int
  mc_output_tokens :: int

record UserUsage =
  uu_user_id :: string
  uu_cost :: rat
  uu_cost_prev :: rat
  uu_runs :: int
  uu_runs_prev :: int
  uu_trend :: "rat list"

record WorkflowUsage =
  wu_name :: string
  wu_model :: string
  wu_cost :: rat
  wu_cost_prev :: rat
  wu_runs :: int
  wu_runs_prev :: int

record AttributeUsage =
  au_value :: string
  au_cost :: rat
  au_calls :: int
  au_runs :: int
  au_input_tokens :: int
  au_output_tokens :: int

record DailySeriesPoint =
  ds_label :: string
  ds_cost :: rat
  ds_runs :: int

record TokenSeriesPoint =
  ts_label :: string
  ts_input :: int
  ts_output :: int
  ts_runs :: int

record ModelSummary =
  ms_name :: string
  ms_cost :: rat
  ms_runs :: int
  ms_inputTokens :: int
  ms_outputTokens :: int
  ms_color :: string

record WorkflowSummary =
  ws_name :: string
  ws_cost :: rat
  ws_costPrev :: rat
  ws_runs :: int
  ws_runsPrev :: int
  ws_avg :: rat
  ws_model :: string

record UserSummary =
  us_id :: UserId
  us_name :: string
  us_cost :: rat
  us_costPrev :: rat
  us_runs :: int
  us_runsPrev :: int
  us_avg :: rat
  us_trend :: "rat list"

record AttributeSummary =
  as_name :: string
  as_cost :: rat
  as_costPrev :: rat
  as_runs :: int
  as_runsPrev :: int
  as_avg :: rat

record usage_range =
  ur_label :: string
  ur_start :: string
  ur_end :: string
  ur_days :: int

record UsageData =
  ud_range :: usage_range
  ud_totalCost :: rat
  ud_totalCostPrev :: rat
  ud_totalRuns :: int
  ud_totalRunsPrev :: int
  ud_dailySeries :: "DailySeriesPoint list"
  ud_tokenSeries :: "TokenSeriesPoint list"
  ud_users :: "UserSummary list"
  ud_workflows :: "WorkflowSummary list"
  ud_models :: "ModelSummary list"

subsection \<open>Workflows\<close>

record Workflow =
  wf_name :: string
  wf_calls :: int
  wf_cost :: rat
  wf_avg_latency_ms :: rat
  wf_error_rate :: rat
  wf_trend :: "int list"
  wf_last_trace_id :: string

record WorkflowDetail =
  wd_name :: string
  wd_calls :: int
  wd_cost :: rat
  wd_avg_latency_ms :: rat
  wd_p95_latency_ms :: "rat option"
  wd_error_rate :: rat
  wd_input_tokens :: int
  wd_output_tokens :: int
  wd_model :: string
  wd_provider :: string
  wd_tools :: "AvailableTool list"
  wd_last_trace_id :: string

record WorkflowMeta =
  wm_description :: string
  wm_model :: string
  wm_provider :: string
  wm_version :: string
  wm_temperature :: rat
  wm_maxTokens :: int
  wm_timeout :: string
  wm_retries :: int
  wm_endpoint :: string

record WorkflowVersion =
  wv_version :: string
  wv_first_seen_ms :: int
  wv_last_seen_ms :: int
  wv_calls :: int
  wv_cost :: rat
  wv_cost_per_run :: rat
  wv_p95_latency_ms :: "rat option"
  wv_error_rate :: rat
  wv_tokens_per_run :: rat

subsection \<open>Traces\<close>

datatype span_kind = KAgent | KLlm | KTool | KChain | KRetriever | KEmbedding

record Span =
  sp_trace_id :: TraceId
  sp_span_id :: SpanId
  sp_parent_span_id :: SpanId
  sp_name :: string
  sp_start_time_ms :: int
  sp_end_time_ms :: int
  sp_duration_ms :: int
  sp_model :: string
  sp_finish_reason :: string
  sp_input_tokens :: int
  sp_output_tokens :: int
  sp_cost_usd :: rat
  sp_subtree_cost_usd :: rat
  sp_subtree_input_tokens :: int
  sp_subtree_output_tokens :: int
  sp_user_id :: UserId
  sp_model_normalized :: string
  sp_schema_version :: int
  sp_error_type :: string
  sp_error_message :: string
  sp_kind :: "span_kind option"
  sp_input :: "string option"
  sp_output :: "string option"
  sp_available_tools :: "AvailableTool list option"
  sp_setup_issues :: "SetupIssue list option"

record Trace =
  tr_trace_id :: TraceId
  tr_name :: string
  tr_start_time_ms :: int
  tr_end_time_ms :: int
  tr_duration_ms :: int
  tr_user_id :: UserId
  tr_span_count :: int
  tr_has_error :: bool
  tr_total_cost_usd :: rat
  tr_workflow_version :: "string option"

record LiveTrace = Trace +
  lt_spans :: "Span list"

record TraceFilter =
  tf_user_id :: "string option"
  tf_model :: "string option"
  tf_workflow :: "string option"
  tf_version :: "string option"
  tf_range :: "string option"
  tf_has_error :: "bool option"
  tf_start_after :: "string option"
  tf_start_before :: "string option"
  tf_page :: "int option"
  tf_page_size :: "int option"

datatype span_type = TAgent | TLlm | TTool | TChain | TRetriever | TEmbedding | TInternal

datatype span_status = SpanOk | SpanFailed

record TraceError =
  te_type :: string
  te_message :: string
  te_code :: string
  te_stack :: string

record SpanDetail =
  sd_id :: SpanId
  sd_name :: string
  sd_type :: span_type
  sd_start :: int
  sd_duration :: int
  sd_depth :: nat
  sd_cost :: rat
  sd_subtreeCost :: "rat option"
  sd_childCount :: "nat option"
  sd_tokens :: int
  sd_subtreeTokens :: "int option"
  sd_inputTokens :: "int option"
  sd_outputTokens :: "int option"
  sd_status :: span_status
  sd_error :: "TraceError option"
  sd_input :: "string option"
  sd_output :: "string option"
  sd_availableTools :: "AvailableTool list option"
  sd_setupIssues :: "SetupIssue list option"
  sd_attributes :: "(string \<times> string) list"

record TraceDetail =
  td_id :: TraceId
  td_workflow :: string
  td_status :: run_status
  td_duration :: int
  td_totalCost :: rat
  td_inputTokens :: int
  td_outputTokens :: int
  td_model :: string
  td_spans :: "SpanDetail list"
  td_error :: "TraceError option"
  td_output :: "string option"
  td_version :: "string option"
  td_startedAt :: "string option"
  td_endedAt :: "string option"
  td_cachedTokens :: "int option"
  td_provider :: "string option"
  td_user :: "string option"
  td_sessionId :: "SessionId option"
  td_environment :: "string option"
  td_region :: "string option"
  td_sdk :: "string option"
  td_input :: "string option"
  td_tags :: "string list option"

subsection \<open>Workspaces and keys\<close>

datatype workspace_env = Production | Development | Staging

record Workspace =
  wk_id :: WorkspaceId
  wk_name :: string
  wk_slug :: string
  wk_role :: string
  wk_members :: int
  wk_env :: workspace_env

record CreateWorkspaceInput =
  cwi_name :: string
  cwi_slug :: string
  cwi_env :: workspace_env

datatype member_role = OwnerRole | MemberRole

record WorkspaceMember =
  wmb_user_id :: string
  wmb_email :: string
  wmb_role :: member_role
  wmb_joined_at :: string

record WorkspaceInvite =
  wi_id :: string
  wi_workspace_id :: string
  wi_email :: string
  wi_role :: member_role
  wi_invited_by :: string
  wi_created_at :: string
  wi_expires_at :: string

record CreatedInvite = WorkspaceInvite +
  ci_token :: string
  ci_email_sent :: bool

record ApiKeyRecord =
  ak_id :: string
  ak_workspace_id :: string
  ak_created_by :: string
  ak_name :: string
  ak_prefix :: string
  ak_created_at :: string
  ak_last_used_at :: "string option"
  ak_revoked_at :: "string option"

record CreatedApiKey =
  ck_key :: ApiKeyRecord
  ck_token :: string

record InvitePreview =
  ip_workspace_name :: string
  ip_invited_by_email :: string
  ip_email :: string
  ip_expires_at :: string

end
