(* ===== verification/Routing.thy ===== *)
theory Routing
  imports Api_Types
begin

text \<open>
  Navigation state and its URLs (\<open>modules/shell/routing.ts\<close>, \<open>modules/shell/ids\<close>) and the extension
  points of the application (\<open>extensions.ts\<close>). A view is a string, as in the code; the selection
  is a string-keyed object. Percent-encoding is used through the \<open>uri_codec\<close> interface.
\<close>

type_synonym ViewId = string

definition VIEW_IDS :: "ViewId list" where
  [data_defs]: "VIEW_IDS = [''overview'', ''workflows'', ''compare'', ''trace'', ''usage'', ''keys'',
     ''settings'', ''users'', ''user'']"

type_synonym selection = "(string, string) jsmap"

subsection \<open>Extensions (extensions.ts)\<close>

text \<open>The rendered components and icons an embedding application supplies are not represented.\<close>

record ExtensionPage =
  xp_id :: string
  xp_label :: string
  xp_requiresWorkspace :: bool

record SettingsSection =
  xs_id :: string
  xs_label :: string

record AuthAppearance =
  aa_tagline :: "string option"
  aa_footer :: "string option"
  aa_forgotPasswordHref :: "string option"

record DashboardExtensions =
  de_authAppearance :: "AuthAppearance option"
  de_authRoutes :: "string list"
  de_pages :: "ExtensionPage list"
  de_settingsSections :: "SettingsSection list"
  de_ingestEndpoint :: "string option"

definition EMPTY_EXTENSIONS :: DashboardExtensions where
  [data_defs]: "EMPTY_EXTENSIONS = \<lparr>de_authAppearance = None, de_authRoutes = [], de_pages = [],
     de_settingsSections = [], de_ingestEndpoint = None\<rparr>"

definition is_lower :: "char \<Rightarrow> bool" where
  "is_lower c \<longleftrightarrow> (let n = (of_char c :: nat) in 97 \<le> n \<and> n \<le> 122)"

definition is_slug_char :: "char \<Rightarrow> bool" where
  "is_slug_char c \<longleftrightarrow> is_lower c \<or> (let n = (of_char c :: nat) in 48 \<le> n \<and> n \<le> 57) \<or> c = CHR ''-''"

text \<open>The pattern \<open>^extension:[a-z][a-z0-9-]*$\<close>.\<close>

definition extension_id_ok :: "string \<Rightarrow> bool" where
  "extension_id_ok s \<longleftrightarrow> starts_with s ''extension:'' \<and>
     (case drop 10 s of [] \<Rightarrow> False | c # cs \<Rightarrow> is_lower c \<and> (\<forall>d\<in>set cs. is_slug_char d))"

text \<open>One list of entries: \<open>Inl\<close> carries the message of the thrown error.\<close>

fun validate_entries :: "string list \<Rightarrow> string list \<Rightarrow> string + unit" where
  "validate_entries ids [] = Inr ()"
| "validate_entries ids (e # es) =
     (if \<not> extension_id_ok e \<or> e \<in> set ids
      then Inl (''Invalid or duplicate extension id: '' @ e)
      else validate_entries (e # ids) es)"

definition validateExtensions :: "DashboardExtensions \<Rightarrow> string + unit" where
  "validateExtensions x =
     (case validate_entries [] (map xp_id (de_pages x)) of
        Inl e \<Rightarrow> Inl e
      | Inr _ \<Rightarrow> validate_entries [] (map xs_id (de_settingsSections x)))"

lemma validate_entries_ok:
  "validate_entries ids es = Inr () \<longleftrightarrow>
     (\<forall>e\<in>set es. extension_id_ok e \<and> e \<notin> set ids) \<and> distinct es"
  by (induction ids es rule: validate_entries.induct) auto

lemma validate_ok_nil:
  "validate_entries [] es = Inr () \<longleftrightarrow> (\<forall>e\<in>set es. extension_id_ok e) \<and> distinct es"
  by (simp add: validate_entries_ok)

lemma validate_entries_error:
  "validate_entries ids es = Inl msg \<Longrightarrow>
     \<exists>e\<in>set es. msg = ''Invalid or duplicate extension id: '' @ e \<and>
       (\<not> extension_id_ok e \<or> count_list ids e + count_list es e > 1)"
proof (induction ids es rule: validate_entries.induct)
  case (2 ids e es)
  show ?case
  proof (cases "\<not> extension_id_ok e \<or> e \<in> set ids")
    case True
    then have "\<not> extension_id_ok e \<or> count_list ids e > 0" by (auto simp: neq0_conv [symmetric] count_list_0_iff simp del: neq0_conv)
    with True 2 (2) show ?thesis by auto
  next
    case False
    with 2 obtain d where "d \<in> set es" "msg = ''Invalid or duplicate extension id: '' @ d"
      "\<not> extension_id_ok d \<or> count_list (e # ids) d + count_list es d > 1" by auto
    then show ?thesis by (intro bexI [of _ d]) (auto split: if_splits)
  qed
qed simp

lemma extension_id_split: "extension_id_ok e \<Longrightarrow> e = ''extension:'' @ drop 10 e \<and> drop 10 e \<noteq> []"
  by (auto simp: extension_id_ok_def starts_with_iff split: list.splits)

subsection \<open>States and paths (routing.ts)\<close>

record NavState =
  nav_view :: ViewId
  nav_selected :: selection

text \<open>A property of the selection object; a missing one is falsy, like the empty string.\<close>

definition sel :: "selection \<Rightarrow> string \<Rightarrow> string" where
  "sel s k = nullish (jm_get s k) []"

definition stateToPath :: "ViewId \<Rightarrow> selection \<Rightarrow> ExtensionPage list \<Rightarrow> string" where
  "stateToPath view selected pages =
     (let enc = encodeURIComponent; s = sel selected in
      if \<exists>p\<in>set pages. xp_id p = view then ''/extensions/'' @ drop 10 view
      else if view = ''overview'' then ''/''
      else if view = ''workflows'' then
        (if s ''workflow'' \<noteq> [] then ''/workflows/'' @ enc (s ''workflow'') else ''/workflows'')
      else if view = ''compare'' then
        (if s ''workflow'' \<noteq> [] \<and> s ''base'' \<noteq> [] \<and> s ''candidate'' \<noteq> []
         then ''/workflows/'' @ enc (s ''workflow'') @ ''/compare/'' @ enc (s ''base'') @ ''/''
              @ enc (s ''candidate'')
         else if s ''workflow'' \<noteq> [] then ''/workflows/'' @ enc (s ''workflow'') else ''/workflows'')
      else if view = ''trace'' then
        (if s ''traceId'' \<noteq> [] then ''/traces/'' @ enc (s ''traceId'') else ''/traces'')
      else if view = ''usage'' then ''/usage''
      else if view = ''users'' then ''/clients''
      else if view = ''user'' then
        (if s ''user'' \<noteq> [] then ''/clients/'' @ enc (s ''user'') else ''/clients'')
      else if view = ''keys'' then ''/api-keys''
      else if view = ''settings'' then ''/settings''
      else ''/'')"

definition seg_at :: "string list \<Rightarrow> nat \<Rightarrow> string" where
  "seg_at seg i = (if i < length seg then seg ! i else [])"

definition nav :: "ViewId \<Rightarrow> selection \<Rightarrow> NavState" where
  "nav v s = \<lparr>nav_view = v, nav_selected = s\<rparr>"

definition segments_to_state :: "string list \<Rightarrow> NavState option" where
  "segments_to_state seg =
     (if seg = [] then Some (nav ''overview'' [])
      else let s0 = seg_at seg 0 in
        if s0 = ''workflows'' then
          (if seg_at seg 2 = ''compare'' \<and> seg_at seg 3 \<noteq> [] \<and> seg_at seg 4 \<noteq> []
           then Some (nav ''compare'' [(''workflow'', seg_at seg 1), (''base'', seg_at seg 3),
                  (''candidate'', seg_at seg 4)])
           else if seg_at seg 1 \<noteq> [] then Some (nav ''workflows'' [(''workflow'', seg_at seg 1)])
           else Some (nav ''workflows'' []))
        else if s0 = ''traces'' then
          (if seg_at seg 1 \<noteq> [] then Some (nav ''trace'' [(''traceId'', seg_at seg 1)])
           else Some (nav ''trace'' []))
        else if s0 = ''usage'' then Some (nav ''usage'' [])
        else if s0 = ''clients'' \<or> s0 = ''users'' then
          (if seg_at seg 1 \<noteq> [] then Some (nav ''user'' [(''user'', seg_at seg 1)])
           else Some (nav ''users'' []))
        else if s0 = ''api-keys'' then Some (nav ''keys'' [])
        else if s0 = ''settings'' then Some (nav ''settings'' [])
        else None)"

definition path_segments :: "string \<Rightarrow> string list option" where
  "path_segments pathname =
     those (map decodeURIComponent (filter (\<lambda>s. s \<noteq> []) (str_split (CHR ''/'') pathname)))"

definition pathToState :: "string \<Rightarrow> ExtensionPage list \<Rightarrow> NavState option" where
  "pathToState pathname pages =
     (case js_find (\<lambda>p. pathname = ''/extensions/'' @ drop 10 (xp_id p)) pages of
        Some p \<Rightarrow> Some (nav (xp_id p) [])
      | None \<Rightarrow>
          (case path_segments pathname of None \<Rightarrow> None | Some seg \<Rightarrow> segments_to_state seg))"

text \<open>
  The state a URL keeps: only the selection its view shows, and views that lack theirs fall back
  to the list they belong to.
\<close>

definition canon_nav :: "ViewId \<Rightarrow> selection \<Rightarrow> ExtensionPage list \<Rightarrow> NavState" where
  "canon_nav view selected pages =
     (let s = sel selected;
          workflows = (if s ''workflow'' \<noteq> [] then nav ''workflows'' [(''workflow'', s ''workflow'')]
                       else nav ''workflows'' []) in
      if \<exists>p\<in>set pages. xp_id p = view then nav view []
      else if view = ''workflows'' then workflows
      else if view = ''compare'' then
        (if s ''workflow'' \<noteq> [] \<and> s ''base'' \<noteq> [] \<and> s ''candidate'' \<noteq> []
         then nav ''compare'' [(''workflow'', s ''workflow''), (''base'', s ''base''),
                (''candidate'', s ''candidate'')]
         else workflows)
      else if view = ''trace'' then
        (if s ''traceId'' \<noteq> [] then nav ''trace'' [(''traceId'', s ''traceId'')] else nav ''trace'' [])
      else if view = ''user'' then
        (if s ''user'' \<noteq> [] then nav ''user'' [(''user'', s ''user'')] else nav ''users'' [])
      else if view \<in> {''usage'', ''users'', ''keys'', ''settings''} then nav view []
      else nav ''overview'' [])"

subsection \<open>Paths as encoded segments\<close>

lemma enc_fixed: "\<forall>c\<in>set s. uri_unreserved c \<Longrightarrow> encodeURIComponent s = s"
  by (induction s) (auto simp: encodeURIComponent_def enc_byte_def)

lemma enc_names:
  "encodeURIComponent ''workflows'' = ''workflows''" "encodeURIComponent ''compare'' = ''compare''"
  "encodeURIComponent ''traces'' = ''traces''" "encodeURIComponent ''usage'' = ''usage''"
  "encodeURIComponent ''clients'' = ''clients''" "encodeURIComponent ''api-keys'' = ''api-keys''"
  "encodeURIComponent ''settings'' = ''settings''"
  by (simp_all add: enc_fixed uri_unreserved_def)

abbreviation segs :: "string list \<Rightarrow> string" where
  "segs vs \<equiv> seg_path encodeURIComponent vs"

lemma names_utf8 [simp]:
  "valid_utf8 ''workflows''" "valid_utf8 ''compare''" "valid_utf8 ''traces''" "valid_utf8 ''usage''"
  "valid_utf8 ''clients''" "valid_utf8 ''api-keys''" "valid_utf8 ''settings''"
  by (simp_all add: valid_utf8_ascii)

lemma path_segments_segs:
  "\<forall>v\<in>set vs. valid_utf8 v \<and> v \<noteq> [] \<Longrightarrow> path_segments (segs vs) = Some vs"
  unfolding path_segments_def by (rule uri.decode_segments)

text \<open>The segments of the path of a state without an extension page.\<close>

definition state_segments :: "ViewId \<Rightarrow> selection \<Rightarrow> string list" where
  "state_segments view selected =
     (let s = sel selected;
          workflows = (if s ''workflow'' \<noteq> [] then [''workflows'', s ''workflow''] else [''workflows'']) in
      if view = ''workflows'' then workflows
      else if view = ''compare'' then
        (if s ''workflow'' \<noteq> [] \<and> s ''base'' \<noteq> [] \<and> s ''candidate'' \<noteq> []
         then [''workflows'', s ''workflow'', ''compare'', s ''base'', s ''candidate'']
         else workflows)
      else if view = ''trace'' then (if s ''traceId'' \<noteq> [] then [''traces'', s ''traceId''] else [''traces''])
      else if view = ''usage'' then [''usage'']
      else if view = ''users'' then [''clients'']
      else if view = ''user'' then (if s ''user'' \<noteq> [] then [''clients'', s ''user''] else [''clients''])
      else if view = ''keys'' then [''api-keys'']
      else if view = ''settings'' then [''settings'']
      else [])"

lemma stateToPath_segs:
  assumes "\<not> (\<exists>p\<in>set pages. xp_id p = view)"
  shows "stateToPath view selected pages =
    (if state_segments view selected = [] then ''/'' else segs (state_segments view selected))"
  using assms by (simp add: stateToPath_def state_segments_def Let_def seg_path_def enc_names)

lemma segments_to_state_simps:
  "segments_to_state [] = Some (nav ''overview'' [])"
  "segments_to_state [''workflows''] = Some (nav ''workflows'' [])"
  "w \<noteq> [] \<Longrightarrow> segments_to_state [''workflows'', w] = Some (nav ''workflows'' [(''workflow'', w)])"
  "b \<noteq> [] \<Longrightarrow> c \<noteq> [] \<Longrightarrow> segments_to_state [''workflows'', w, ''compare'', b, c] =
     Some (nav ''compare'' [(''workflow'', w), (''base'', b), (''candidate'', c)])"
  "segments_to_state [''traces''] = Some (nav ''trace'' [])"
  "w \<noteq> [] \<Longrightarrow> segments_to_state [''traces'', w] = Some (nav ''trace'' [(''traceId'', w)])"
  "segments_to_state [''usage''] = Some (nav ''usage'' [])"
  "segments_to_state [''clients''] = Some (nav ''users'' [])"
  "w \<noteq> [] \<Longrightarrow> segments_to_state [''clients'', w] = Some (nav ''user'' [(''user'', w)])"
  "segments_to_state [''api-keys''] = Some (nav ''keys'' [])"
  "segments_to_state [''settings''] = Some (nav ''settings'' [])"
  by (simp_all add: segments_to_state_def seg_at_def)

lemma segments_to_state_segs:
  "segments_to_state (state_segments view selected) = Some (canon_nav view selected [])"
  unfolding state_segments_def canon_nav_def Let_def
  by (simp add: segments_to_state_simps cong: if_cong split del: if_split) (simp add: segments_to_state_simps)

definition selection_ok :: "selection \<Rightarrow> bool" where
  "selection_ok s \<longleftrightarrow> (\<forall>(k, v)\<in>set s. valid_utf8 v)"

lemma selection_ok_sel: "selection_ok s \<Longrightarrow> valid_utf8 (sel s k)"
  by (cases "jm_get s k") (auto simp: selection_ok_def sel_def dest: jm_get_in_set)

lemma state_segments_ok:
  "selection_ok selected \<Longrightarrow> v \<in> set (state_segments view selected) \<Longrightarrow> valid_utf8 v \<and> v \<noteq> []"
  by (auto simp: state_segments_def Let_def selection_ok_sel split: if_splits)

lemma path_segments_root: "path_segments ''/'' = Some []"
  by (simp add: path_segments_def)

lemma state_segments_hd: "hd (state_segments view selected) \<noteq> ''extensions''"
  if "state_segments view selected \<noteq> []"
  using that by (simp add: state_segments_def Let_def split: if_splits)

lemma not_extension_path:
  assumes "vs \<noteq> []" "hd vs \<noteq> ''extensions''"
  shows "segs vs \<noteq> ''/extensions/'' @ x"
proof
  assume eq: "segs vs = ''/extensions/'' @ x"
  have "str_split (CHR ''/'') (segs vs) = [] # map encodeURIComponent vs"
    using uri.split_seg_path [of "[]" vs] by simp
  moreover have "str_split (CHR ''/'') (''/extensions/'' @ x) = [] # ''extensions'' # str_split (CHR ''/'') x"
    using str_split_append [of "CHR ''/''" "''extensions''" x] by simp
  ultimately have "encodeURIComponent (hd vs) = ''extensions''"
    using eq assms (1) by (cases vs) auto
  also have "\<dots> = encodeURIComponent ''extensions''" by (simp add: enc_fixed uri_unreserved_def)
  finally show False using assms (2) by simp
qed

definition pages_ok :: "ExtensionPage list \<Rightarrow> bool" where
  "pages_ok pages \<longleftrightarrow> validate_entries [] (map xp_id pages) = Inr ()"

lemma pages_ok_id: "pages_ok pages \<Longrightarrow> p \<in> set pages \<Longrightarrow> xp_id p = ''extension:'' @ drop 10 (xp_id p)"
  unfolding pages_ok_def validate_entries_ok
  by (rule conjunct1 [OF extension_id_split]) simp

lemma canon_nav_no_page:
  "\<not> (\<exists>p\<in>set pages. xp_id p = view) \<Longrightarrow> canon_nav view selected pages = canon_nav view selected []"
  by (simp add: canon_nav_def)

lemma path_round_trip:
  assumes "pages_ok pages" "selection_ok selected"
  shows "pathToState (stateToPath view selected pages) pages = Some (canon_nav view selected pages)"
proof (cases "\<exists>p\<in>set pages. xp_id p = view")
  case True
  let ?P = "\<lambda>p. ''/extensions/'' @ drop 10 view = ''/extensions/'' @ drop 10 (xp_id p)"
  from True have "js_find ?P pages \<noteq> None" by auto
  then obtain p where p: "js_find ?P pages = Some p" unfolding not_None_eq by (elim exE)
  from js_find_SomeD [OF p] have "p \<in> set pages" "drop 10 (xp_id p) = drop 10 view" by auto
  moreover from True obtain q where "q \<in> set pages" "xp_id q = view" by auto
  ultimately have "xp_id p = view" using pages_ok_id [OF assms (1)] by metis
  with True p show ?thesis by (simp add: pathToState_def stateToPath_def canon_nav_def)
next
  case False
  let ?vs = "state_segments view selected"
  have path: "stateToPath view selected pages = (if ?vs = [] then ''/'' else segs ?vs)"
    using False by (rule stateToPath_segs)
  have "path_segments (stateToPath view selected pages) = Some ?vs"
    unfolding path using path_segments_segs [of ?vs] state_segments_ok [OF assms (2)]
    by (auto simp: path_segments_root)
  moreover have "stateToPath view selected pages \<noteq> ''/extensions/'' @ x" for x
    unfolding path using not_extension_path [of ?vs] state_segments_hd by auto
  then have "js_find (\<lambda>p. stateToPath view selected pages = ''/extensions/'' @ drop 10 (xp_id p)) pages = None"
    by simp
  ultimately show ?thesis
    unfolding pathToState_def canon_nav_no_page [OF False] by (simp only: option.case segments_to_state_segs)
qed

subsection \<open>States read from a path are canonical\<close>

lemma canon_nav_simps:
  "canon_nav ''overview'' [] [] = nav ''overview'' []"
  "canon_nav ''workflows'' [] [] = nav ''workflows'' []"
  "w \<noteq> [] \<Longrightarrow> canon_nav ''workflows'' [(''workflow'', w)] [] = nav ''workflows'' [(''workflow'', w)]"
  "w \<noteq> [] \<Longrightarrow> b \<noteq> [] \<Longrightarrow> c \<noteq> [] \<Longrightarrow>
     canon_nav ''compare'' [(''workflow'', w), (''base'', b), (''candidate'', c)] [] =
     nav ''compare'' [(''workflow'', w), (''base'', b), (''candidate'', c)]"
  "canon_nav ''trace'' [] [] = nav ''trace'' []"
  "w \<noteq> [] \<Longrightarrow> canon_nav ''trace'' [(''traceId'', w)] [] = nav ''trace'' [(''traceId'', w)]"
  "canon_nav ''usage'' [] [] = nav ''usage'' []"
  "canon_nav ''users'' [] [] = nav ''users'' []"
  "w \<noteq> [] \<Longrightarrow> canon_nav ''user'' [(''user'', w)] [] = nav ''user'' [(''user'', w)]"
  "canon_nav ''keys'' [] [] = nav ''keys'' []"
  "canon_nav ''settings'' [] [] = nav ''settings'' []"
  by (simp_all add: canon_nav_def sel_def)

definition canonical :: "NavState \<Rightarrow> bool" where
  "canonical n \<longleftrightarrow> canon_nav (nav_view n) (nav_selected n) [] = n \<and> selection_ok (nav_selected n)
     \<and> nav_view n \<in> set VIEW_IDS"

lemma canonical_navI:
  "canon_nav v s [] = nav v s \<Longrightarrow> selection_ok s \<Longrightarrow> v \<in> set VIEW_IDS \<Longrightarrow> canonical (nav v s)"
  by (simp add: canonical_def nav_def)

lemma seg_at_ok: "\<forall>s\<in>set seg. valid_utf8 s \<and> s \<noteq> [] \<Longrightarrow> valid_utf8 (seg_at seg i)"
  by (simp add: seg_at_def)

lemma seg_at_ne: "seg_at seg j \<noteq> [] \<Longrightarrow> i < j \<Longrightarrow> \<forall>s\<in>set seg. valid_utf8 s \<and> s \<noteq> [] \<Longrightarrow> seg_at seg i \<noteq> []"
  by (simp add: seg_at_def split: if_splits)

lemma if_Some_eq: "(if P then Some a else x) = Some b \<longleftrightarrow> P \<and> a = b \<or> \<not> P \<and> x = Some b"
  by simp

lemma if_nested_eq: "(if P then (if Q then x else y) else z) = Some b \<longleftrightarrow>
    P \<and> (if Q then x else y) = Some b \<or> \<not> P \<and> z = Some b"
  by simp

lemma segments_to_state_canonical:
  assumes ok: "\<forall>s\<in>set seg. valid_utf8 s \<and> s \<noteq> []" and st: "segments_to_state seg = Some n"
  shows "canonical n"
proof -
  have u: "valid_utf8 (seg_at seg i)" for i using ok by (rule seg_at_ok)
  have cmp: "seg_at seg 3 \<noteq> [] \<Longrightarrow> seg_at seg 1 \<noteq> []" using seg_at_ne [of seg 3 1] ok by simp
  have S: "canonical (nav ''compare'' [(''workflow'', seg_at seg 1), (''base'', seg_at seg 3),
      (''candidate'', seg_at seg 4)])" if "seg_at seg 3 \<noteq> []" "seg_at seg 4 \<noteq> []"
    using that cmp u by (intro canonical_navI) (simp_all add: canon_nav_simps selection_ok_def VIEW_IDS_def)
  have W: "canonical (nav ''workflows'' [(''workflow'', seg_at seg 1)])"
    "canonical (nav ''trace'' [(''traceId'', seg_at seg 1)])" "canonical (nav ''user'' [(''user'', seg_at seg 1)])"
    if "seg_at seg 1 \<noteq> []"
    using that u by (intro canonical_navI; simp add: canon_nav_simps selection_ok_def VIEW_IDS_def)+
  have E: "canonical (nav ''overview'' [])" "canonical (nav ''workflows'' [])" "canonical (nav ''trace'' [])"
    "canonical (nav ''usage'' [])" "canonical (nav ''users'' [])" "canonical (nav ''keys'' [])"
    "canonical (nav ''settings'' [])"
    by (intro canonical_navI; simp add: canon_nav_simps selection_ok_def VIEW_IDS_def)+
  show ?thesis
    using st unfolding segments_to_state_def Let_def if_nested_eq if_Some_eq option.inject
    by (elim disjE conjE; (hypsubst)?; simp only: S W E option.distinct simp_thms)
qed

lemma those_SomeD: "those xs = Some ys \<Longrightarrow> y \<in> set ys \<Longrightarrow> Some y \<in> set xs"
  by (induction xs arbitrary: ys) (auto split: option.splits)

lemma canon_nav_page: "p \<in> set pages \<Longrightarrow> canon_nav (xp_id p) selected pages = nav (xp_id p) []"
  unfolding canon_nav_def Let_def by (rule if_P) (rule bexI, rule refl)

lemma path_segments_ok: "path_segments p = Some seg \<Longrightarrow> s \<in> set seg \<Longrightarrow> valid_utf8 s \<and> s \<noteq> []"
  unfolding path_segments_def
  by (drule (1) those_SomeD) (auto dest: decode_valid [OF sym] decode_nonempty [OF sym])

lemma view_not_page: "pages_ok pages \<Longrightarrow> v \<in> set VIEW_IDS \<Longrightarrow> \<not> (\<exists>p\<in>set pages. xp_id p = v)"
proof
  assume "pages_ok pages" "v \<in> set VIEW_IDS" "\<exists>p\<in>set pages. xp_id p = v"
  then have "v = ''extension:'' @ drop 10 v" using pages_ok_id by blast
  then have "take 9 v = ''extension''" by (rule ssubst) simp
  with \<open>v \<in> set VIEW_IDS\<close> show False by (auto simp: VIEW_IDS_def)
qed

lemma path_state_canonical:
  assumes "pages_ok pages" "pathToState path pages = Some n"
  shows "canon_nav (nav_view n) (nav_selected n) pages = n \<and> selection_ok (nav_selected n)"
proof (cases "js_find (\<lambda>p. path = ''/extensions/'' @ drop 10 (xp_id p)) pages")
  case (Some p)
  then have "p \<in> set pages" by (rule conjunct1 [OF js_find_SomeD])
  moreover have "n = nav (xp_id p) []" using assms (2) unfolding pathToState_def Some by simp
  ultimately show ?thesis using canon_nav_page by (simp add: nav_def selection_ok_def)
next
  case None
  then obtain seg where seg: "path_segments path = Some seg" "segments_to_state seg = Some n"
    using assms (2) unfolding pathToState_def None by (auto split: option.splits)
  have "canonical n" using segments_to_state_canonical path_segments_ok [OF seg(1)] seg(2) by blast
  then show ?thesis
    using canon_nav_no_page [OF view_not_page [OF assms (1)]] by (simp add: canonical_def)
qed

subsection \<open>Properties\<close>

text \<open>C7. Reading back the URL of a navigation state gives that state, reduced to what its view shows:
  a page of an extension keeps no selection, a comparison without both versions falls back to its
  workflow, and every name survives its percent-encoding.\<close>

theorem pathToState_stateToPath:
  assumes "pages_ok pages" "selection_ok selected"
  shows "pathToState (stateToPath view selected pages) pages = Some (canon_nav view selected pages)"
  using assms by (rule path_round_trip)

definition demo_pages :: "ExtensionPage list" where
  "demo_pages = [\<lparr>xp_id = ''extension:billing'', xp_label = ''Billing'', xp_requiresWorkspace = False\<rparr>]"

lemma demo_pages_ok: "pages_ok demo_pages"
  by code_simp

theorem pathToState_stateToPath_witness:
  "pathToState (stateToPath ''compare'' [(''workflow'', ''a/b''), (''base'', ''v 1''), (''candidate'', ''v2'')]
       demo_pages) demo_pages
     = Some (nav ''compare'' [(''workflow'', ''a/b''), (''base'', ''v 1''), (''candidate'', ''v2'')])"
proof -
  let ?s = "[(''workflow'', ''a/b''), (''base'', ''v 1''), (''candidate'', ''v2'')]"
  have "selection_ok ?s" by (simp add: selection_ok_def valid_utf8_ascii)
  from pathToState_stateToPath [OF demo_pages_ok this, of "''compare''"] show ?thesis
    by (simp add: canon_nav_def demo_pages_def sel_def)
qed

text \<open>A state read from a URL is stable: writing its URL and reading that again gives the same
  state, so the address bar and the state of the dashboard agree after the first read.\<close>

theorem pathToState_stable:
  assumes "pages_ok pages" "pathToState path pages = Some n"
  shows "pathToState (stateToPath (nav_view n) (nav_selected n) pages) pages = Some n"
  using path_round_trip [OF assms (1)] path_state_canonical [OF assms] by simp

theorem pathToState_stable_witness:
  "pathToState (stateToPath ''user'' [(''user'', ''a b'')] demo_pages) demo_pages = Some (nav ''user'' [(''user'', ''a b'')])"
proof -
  have "pathToState ''/users/a%20b/x'' demo_pages = Some (nav ''user'' [(''user'', ''a b'')])"
    by code_simp
  from pathToState_stable [OF demo_pages_ok this] show ?thesis by (simp add: nav_def)
qed

text \<open>A set of extensions is accepted exactly when every page and every settings section has a
  well-formed identifier and no two of the same list share one; otherwise the error names an entry
  that is malformed or repeated.\<close>

theorem validateExtensions_spec:
  "(validateExtensions x = Inr () \<longleftrightarrow>
     (\<forall>e \<in> set (map xp_id (de_pages x)) \<union> set (map xs_id (de_settingsSections x)). extension_id_ok e)
     \<and> distinct (map xp_id (de_pages x)) \<and> distinct (map xs_id (de_settingsSections x)))
   \<and> (validateExtensions x = Inl msg \<longrightarrow>
     (\<exists>ids \<in> {map xp_id (de_pages x), map xs_id (de_settingsSections x)}. \<exists>e \<in> set ids.
        msg = ''Invalid or duplicate extension id: '' @ e \<and> (\<not> extension_id_ok e \<or> count_list ids e > 1)))"
proof -
  have bad: "validate_entries [] ids = Inl msg \<Longrightarrow> \<exists>e \<in> set ids.
        msg = ''Invalid or duplicate extension id: '' @ e \<and> (\<not> extension_id_ok e \<or> count_list ids e > 1)" for ids
    using validate_entries_error [of "[]" ids msg] by simp
  show ?thesis
  proof (cases "validate_entries [] (map xp_id (de_pages x))")
    case (Inl e)
    then have "validate_entries [] (map xp_id (de_pages x)) \<noteq> Inr ()" by simp
    then show ?thesis
      using bad [of "map xp_id (de_pages x)"] Inl
      unfolding validateExtensions_def validate_ok_nil by (simp only: sum.case sum.distinct) blast
  next
    case (Inr u)
    then have "validate_entries [] (map xp_id (de_pages x)) = Inr ()" by simp
    then show ?thesis
      using bad [of "map xs_id (de_settingsSections x)"] Inr
      unfolding validateExtensions_def validate_ok_nil by (simp only: sum.case validate_ok_nil) blast
  qed
qed

theorem validateExtensions_spec_witness:
  "validateExtensions (EMPTY_EXTENSIONS\<lparr>de_pages := demo_pages @ demo_pages\<rparr>)
     = Inl ''Invalid or duplicate extension id: extension:billing''"
proof -
  let ?x = "EMPTY_EXTENSIONS\<lparr>de_pages := demo_pages @ demo_pages\<rparr>"
  have "\<not> distinct (map xp_id (de_pages ?x))" by (simp add: demo_pages_def)
  then have "validateExtensions ?x \<noteq> Inr ()" using validateExtensions_spec [of ?x "[]"] by blast
  then obtain msg where m: "validateExtensions ?x = Inl msg" by (cases "validateExtensions ?x") auto
  moreover have "\<forall>ids \<in> {map xp_id (de_pages ?x), map xs_id (de_settingsSections ?x)}. set ids \<subseteq> {''extension:billing''}"
    by (simp add: demo_pages_def EMPTY_EXTENSIONS_def)
  ultimately have "msg = ''Invalid or duplicate extension id: '' @ ''extension:billing''"
    using validateExtensions_spec [of ?x msg] by blast
  with m show ?thesis by simp
qed

end
