(* ===== verification/Json_Text.thy ===== *)
theory Json_Text
  imports Js_Num
begin

text \<open>
  Pretty-printing of the JSON found in recorded inputs and outputs
  (\<open>modules/trace-inspector/utils/prettifyMaybeJson.ts\<close>). \<open>JSON.parse\<close> and the indented \<open>JSON.stringify\<close>,
  whose treatment of numbers is that of the engine, are parameters: \<open>None\<close> is a thrown \<open>SyntaxError\<close>.
\<close>

subsection \<open>Definitions\<close>

datatype json = JNull | JBool bool | JNum rat | JStr string | JArr "json list" | JObj "(string \<times> json) list"

definition is_open :: "char \<Rightarrow> bool" where
  "is_open c \<longleftrightarrow> c = CHR ''{'' \<or> c = CHR ''[''"

definition is_close :: "char \<Rightarrow> bool" where
  "is_close c \<longleftrightarrow> c = CHR ''}'' \<or> c = CHR '']''"

definition slice :: "nat \<Rightarrow> nat \<Rightarrow> string \<Rightarrow> string" where
  "slice a b s = take (b - a) (drop a s)"

text \<open>The loop of \<open>findBalancedEnd\<close> from index \<open>i\<close>, with its three local variables.\<close>

function balanced_loop :: "string \<Rightarrow> nat \<Rightarrow> int \<Rightarrow> bool \<Rightarrow> bool \<Rightarrow> nat option" where
  "balanced_loop tx i depth inString escaped =
     (if i < length tx then
        (let ch = tx ! i in
         if inString then
           (if escaped then balanced_loop tx (i + 1) depth True False
            else if ch = CHR 0x5C then balanced_loop tx (i + 1) depth True True
            else if ch = CHR 0x22 then balanced_loop tx (i + 1) depth False False
            else balanced_loop tx (i + 1) depth True False)
         else if ch = CHR 0x22 then balanced_loop tx (i + 1) depth True escaped
         else if is_open ch then balanced_loop tx (i + 1) (depth + 1) False escaped
         else if is_close ch then
           (if depth - 1 = 0 then Some i else balanced_loop tx (i + 1) (depth - 1) False escaped)
         else balanced_loop tx (i + 1) depth False escaped)
      else None)"
  by pat_completeness auto
termination by (relation "measure (\<lambda>(tx, i, _). length tx - i)") auto

declare balanced_loop.simps [simp del]

definition findBalancedEnd :: "string \<Rightarrow> nat \<Rightarrow> nat option" where
  "findBalancedEnd tx start = balanced_loop tx start 0 False False"

fun is_scalar :: "json \<Rightarrow> bool" where
  "is_scalar (JArr vs) = False"
| "is_scalar (JObj kvs) = False"
| "is_scalar v = True"

text \<open>A one-element array of a scalar reads as prose, like a citation.\<close>

definition isScalarRef :: "json \<Rightarrow> bool" where
  "isScalarRef v = (case v of JArr [x] \<Rightarrow> is_scalar x | _ \<Rightarrow> False)"

definition prettifyGroup :: "(string \<Rightarrow> json option) \<Rightarrow> (json \<Rightarrow> string) \<Rightarrow> string \<Rightarrow> string" where
  "prettifyGroup parse stringify grp =
     (case parse grp of None \<Rightarrow> grp | Some v \<Rightarrow> if isScalarRef v then grp else stringify v)"

text \<open>One character of the scan: the bracket depth, whether a string literal is open, whether the last
  character of the literal was a backslash.\<close>

fun jstep :: "int \<times> bool \<times> bool \<Rightarrow> char \<Rightarrow> int \<times> bool \<times> bool" where
  "jstep (d, q, e) c =
     (if q then (if e then (d, True, False) else if c = CHR 0x5C then (d, True, True)
                 else if c = CHR 0x22 then (d, False, False) else (d, True, False))
      else if c = CHR 0x22 then (d, True, e)
      else if is_open c then (d + 1, False, e)
      else if is_close c then (d - 1, False, e)
      else (d, False, e))"

declare jstep.simps [simp del]

lemma brackets_quote [simp]: "\<not> is_open (CHR 0x22)" "\<not> is_close (CHR 0x22)" "is_close c \<Longrightarrow> \<not> is_open c"
  by (auto simp: is_open_def is_close_def)

lemma balanced_loop_step:
  "balanced_loop tx i d q e =
     (if i < length tx then
        (if \<not> q \<and> is_close (tx ! i) \<and> d = 1 then Some i
         else case jstep (d, q, e) (tx ! i) of (d', q', e') \<Rightarrow> balanced_loop tx (i + 1) d' q' e')
      else None)"
  by (subst balanced_loop.simps) (auto simp: Let_def jstep.simps)

lemma balanced_loop_bounds: "balanced_loop tx i d q e = Some j \<Longrightarrow> i \<le> j \<and> j < length tx"
proof (induction "length tx - i" arbitrary: i d q e rule: less_induct)
  case less
  show ?case
  proof (cases "i < length tx \<and> \<not> (\<not> q \<and> is_close (tx ! i) \<and> d = 1)")
    case True
    obtain d' q' e' where "jstep (d, q, e) (tx ! i) = (d', q', e')" using prod_cases3 by blast
    with True less.prems have "balanced_loop tx (Suc i) d' q' e' = Some j"
      by (auto simp: balanced_loop_step [of tx i d q e])
    with less.hyps [of "Suc i"] True show ?thesis by fastforce
  next
    case False
    with less.prems show ?thesis by (auto simp: balanced_loop_step [of tx i] split: if_splits)
  qed
qed

function prettify_loop :: "(string \<Rightarrow> string) \<Rightarrow> string \<Rightarrow> nat \<Rightarrow> nat \<Rightarrow> string \<Rightarrow> string" where
  "prettify_loop grp tx i lst out =
     (if i < length tx then
        (if \<not> is_open (tx ! i) then prettify_loop grp tx (i + 1) lst out
         else (case findBalancedEnd tx i of
                 None \<Rightarrow> out @ drop lst tx
               | Some e \<Rightarrow> prettify_loop grp tx (e + 1) (e + 1)
                   (out @ slice lst i tx @ grp (slice i (e + 1) tx))))
      else out @ drop lst tx)"
  by pat_completeness auto
termination
proof (relation "measure (\<lambda>(_, tx, i, _). length tx - i)", goal_cases)
  case (3 grp tx i lst out e)
  then have "i \<le> e \<and> e < length tx" by (auto simp: findBalancedEnd_def dest: balanced_loop_bounds)
  then show ?case by auto
qed auto

declare prettify_loop.simps [simp del]

definition prettifyMaybeJson :: "(string \<Rightarrow> json option) \<Rightarrow> (json \<Rightarrow> string) \<Rightarrow> string \<Rightarrow> string" where
  "prettifyMaybeJson parse stringify tx = prettify_loop (prettifyGroup parse stringify) tx 0 0 []"

subsection \<open>Balanced groups\<close>

text \<open>The bracket depth after a prefix, outside string literals.\<close>

definition depth_of :: "string \<Rightarrow> int" where
  "depth_of xs = fst (foldl jstep (0, False, False) xs)"

text \<open>The first position at which the depth returns to zero.\<close>

fun bal :: "int \<times> bool \<times> bool \<Rightarrow> string \<Rightarrow> nat option" where
  "bal st [] = None"
| "bal st (c # cs) = (if fst (jstep st c) = 0 then Some 0 else map_option Suc (bal (jstep st c) cs))"

lemma bal_Some_iff:
  "bal st xs = Some n \<longleftrightarrow> n < length xs \<and> fst (foldl jstep st (take (Suc n) xs)) = 0
     \<and> (\<forall>k<n. fst (foldl jstep st (take (Suc k) xs)) \<noteq> 0)"
proof (induction xs arbitrary: st n)
  case (Cons c cs)
  show ?case
    by (cases n) (auto simp: Cons.IH less_Suc_eq_0_disj all_conj_distrib)
qed simp

lemma depth_zero_step:
  "d > 0 \<Longrightarrow> fst (jstep (d, q, e) c) = 0 \<longleftrightarrow> \<not> q \<and> is_close c \<and> d = 1"
  by (auto simp: jstep.simps)

lemma depth_nonneg_step: "d > 0 \<Longrightarrow> fst (jstep (d, q, e) c) \<ge> 0"
  by (auto simp: jstep.simps)

lemma balanced_loop_bal:
  "d > 0 \<Longrightarrow> balanced_loop tx i d q e = map_option (\<lambda>n. n + i) (bal (d, q, e) (drop i tx))"
proof (induction "length tx - i" arbitrary: i d q e rule: less_induct)
  case less
  show ?case
  proof (cases "i < length tx")
    case True
    then have drop: "drop i tx = tx ! i # drop (Suc i) tx" by (simp add: Cons_nth_drop_Suc)
    obtain d' q' e' where st: "jstep (d, q, e) (tx ! i) = (d', q', e')" using prod_cases3 by blast
    have "balanced_loop tx (Suc i) d' q' e' = map_option (\<lambda>n. n + Suc i) (bal (d', q', e') (drop (Suc i) tx))"
      if "d' \<noteq> 0" using less.hyps [of "Suc i" d'] True that depth_nonneg_step [OF less.prems, of q e "tx ! i"] st
      by simp
    then show ?thesis
      using True drop st depth_zero_step [OF less.prems, of q e "tx ! i"]
      by (auto simp: balanced_loop_step [of tx i d q e] option.map_comp comp_def)
  next
    case False
    then show ?thesis by (simp add: balanced_loop_step [of tx i])
  qed
qed

lemma jstep_open: "is_open c \<Longrightarrow> jstep (0, False, False) c = (1, False, False)"
  by (auto simp: jstep.simps is_open_def)

lemma findBalancedEnd_bal:
  assumes "i < length tx" "is_open (tx ! i)"
  shows "findBalancedEnd tx i = map_option (\<lambda>n. n + i) (bal (0, False, False) (drop i tx))"
proof -
  have "drop i tx = tx ! i # drop (Suc i) tx" using assms (1) by (simp add: Cons_nth_drop_Suc)
  then show ?thesis
    using assms by (simp add: findBalancedEnd_def balanced_loop_step [of tx i] jstep_open balanced_loop_bal
        option.map_comp comp_def)
qed

subsection \<open>The segments of a text\<close>

text \<open>Plain characters and closed groups (marked \<open>True\<close>); from the first group that never closes on, the
  rest of the text is plain.\<close>

function segments :: "string \<Rightarrow> (bool \<times> string) list" where
  "segments [] = []"
| "segments (c # cs) =
     (if \<not> is_open c then (False, [c]) # segments cs
      else (case bal (0, False, False) (c # cs) of
              None \<Rightarrow> [(False, c # cs)]
            | Some n \<Rightarrow> (True, take (Suc n) (c # cs)) # segments (drop (Suc n) (c # cs))))"
  by pat_completeness auto
termination by (relation "measure length") auto

definition render :: "(string \<Rightarrow> string) \<Rightarrow> (bool \<times> string) list \<Rightarrow> string" where
  "render g segs = concat (map (\<lambda>(grp, s). if grp then g s else s) segs)"

lemma render_simps [simp]: "render g [] = []" "render g ((b, s) # segs) = (if b then g s else s) @ render g segs"
  by (simp_all add: render_def)

lemma segments_concat: "concat (map snd (segments tx)) = tx"
proof (induction tx rule: segments.induct)
  case (2 c cs)
  then show ?case by (auto split: option.splits)
qed simp

lemma slice_snoc: "a \<le> i \<Longrightarrow> i < length tx \<Longrightarrow> slice a (Suc i) tx = slice a i tx @ [tx ! i]"
  by (simp add: slice_def Suc_diff_le take_Suc_conv_app_nth)

lemma slice_drop: "a \<le> i \<Longrightarrow> slice a i tx @ drop i tx = drop a tx"
  by (metis append_take_drop_id drop_drop le_add_diff_inverse2 slice_def)

lemma prettify_loop_render:
  "lst \<le> i \<Longrightarrow> i \<le> length tx \<Longrightarrow>
     prettify_loop g tx i lst out = out @ slice lst i tx @ render g (segments (drop i tx))"
proof (induction "length tx - i" arbitrary: i lst out rule: less_induct)
  case less
  show ?case
  proof (cases "i < length tx")
    case True
    then have drop: "drop i tx = tx ! i # drop (Suc i) tx" by (simp add: Cons_nth_drop_Suc)
    show ?thesis
    proof (cases "is_open (tx ! i)")
      case False
      then show ?thesis
        using True drop less.hyps [of "Suc i" lst out] less.prems
        by (simp add: prettify_loop.simps [of g tx i] slice_snoc)
    next
      case opn: True
      note e = findBalancedEnd_bal [OF True opn]
      show ?thesis
      proof (cases "bal (0, False, False) (drop i tx)")
        case None
        have "drop lst tx = slice lst i tx @ drop i tx"
          using slice_drop [OF less.prems (1)] by simp
        then show ?thesis
          using None opn e True drop by (simp add: prettify_loop.simps [of g tx i])
      next
        case (Some n)
        then have n: "n < length (drop i tx)" by (simp add: bal_Some_iff)
        have "prettify_loop g tx (n + i + 1) (n + i + 1) (out @ slice lst i tx @ g (take (Suc n) (drop i tx)))
            = (out @ slice lst i tx @ g (take (Suc n) (drop i tx))) @ slice (n + i + 1) (n + i + 1) tx
              @ render g (segments (drop (n + i + 1) tx))"
          using n by (intro less.hyps) auto
        moreover have "segments (drop i tx) =
            (True, take (Suc n) (drop i tx)) # segments (drop (n + i + 1) tx)"
          using Some opn drop by (simp add: ac_simps)
        ultimately show ?thesis
          using True opn Some e by (simp add: prettify_loop.simps [of g tx i] slice_def)
      qed
    qed
  next
    case False
    with less.prems have "drop lst tx = slice lst i tx" by (simp add: slice_def)
    then show ?thesis using False by (simp add: prettify_loop.simps [of g tx i])
  qed
qed

lemma prettifyMaybeJson_render:
  "prettifyMaybeJson parse stringify tx = render (prettifyGroup parse stringify) (segments tx)"
  by (simp add: prettifyMaybeJson_def prettify_loop_render slice_def)

text \<open>A group: it opens with a bracket and its depth returns to zero for the first time at its end.\<close>

definition balanced_group :: "string \<Rightarrow> bool" where
  "balanced_group s \<longleftrightarrow> s \<noteq> [] \<and> is_open (hd s) \<and> depth_of s = 0 \<and>
     (\<forall>k<length s - 1. depth_of (take (Suc k) s) \<noteq> 0)"

lemma segments_group: "(True, s) \<in> set (segments tx) \<Longrightarrow> balanced_group s"
proof (induction tx rule: segments.induct)
  case (2 c cs)
  consider (rest) "(True, s) \<in> set (segments cs)" "\<not> is_open c"
    | (grp) n where "is_open c" "bal (0, False, False) (c # cs) = Some n" "s = take (Suc n) (c # cs)"
    | (later) n where "is_open c" "bal (0, False, False) (c # cs) = Some n" "(True, s) \<in> set (segments (drop (Suc n) (c # cs)))"
    using 2(3) by (auto split: if_splits option.splits simp del: bal.simps)
  then show ?case
  proof cases
    case grp
    then show ?thesis
      unfolding bal_Some_iff balanced_group_def depth_of_def by (auto simp: min_def)
  qed (use 2(1,2) in \<open>auto simp del: bal.simps\<close>)
qed simp

subsection \<open>Properties\<close>

text \<open>The search for the end of a bracketed group finds the first position at which the brackets outside
  string literals balance, and fails exactly when there is none.\<close>

theorem findBalancedEnd_first:
  assumes "i < length tx" "is_open (tx ! i)"
  shows "findBalancedEnd tx i = Some j \<longleftrightarrow>
    i \<le> j \<and> j < length tx \<and> depth_of (slice i (Suc j) tx) = 0 \<and>
    (\<forall>k. i \<le> k \<and> k < j \<longrightarrow> depth_of (slice i (Suc k) tx) \<noteq> 0)"
proof -
  have eq: "findBalancedEnd tx i = Some j \<longleftrightarrow> i \<le> j \<and> bal (0, False, False) (drop i tx) = Some (j - i)"
    by (auto simp: findBalancedEnd_bal [OF assms])
  have "(\<forall>k<j - i. depth_of (take (Suc k) (drop i tx)) \<noteq> 0) \<longleftrightarrow>
      (\<forall>k. i \<le> k \<and> k < j \<longrightarrow> depth_of (take (Suc (k - i)) (drop i tx)) \<noteq> 0)" (is "?L \<longleftrightarrow> ?R")
  proof
    assume ?R
    show ?L
    proof (intro allI impI)
      fix k
      assume "k < j - i"
      with \<open>?R\<close> [rule_format, of "k + i"] show "depth_of (take (Suc k) (drop i tx)) \<noteq> 0" by simp
    qed
  qed (auto simp: diff_less_mono)
  then show ?thesis
    unfolding eq bal_Some_iff depth_of_def [symmetric] by (auto simp: slice_def Suc_diff_le)
qed

theorem findBalancedEnd_first_witness:
  "findBalancedEnd ''x[a{}] y'' 1 = Some 5"
proof -
  have h: "1 < length ''x[a{}] y''" "is_open (''x[a{}] y'' ! 1)" by (simp_all add: is_open_def)
  have "\<forall>k. 1 \<le> k \<and> k < (5::nat) \<longrightarrow> k \<in> {1, 2, 3, 4}" by auto
  then show ?thesis
    unfolding findBalancedEnd_first [OF h]
    by (auto simp: slice_def depth_of_def jstep.simps is_open_def is_close_def eval_nat_numeral)
qed

text \<open>C35. Pretty-printing splits the text, without loss, into plain text and balanced bracket groups; it
  keeps the plain text and replaces each group by its own rendering.\<close>

theorem prettifyMaybeJson_segments:
  "prettifyMaybeJson parse stringify tx =
     concat (map (\<lambda>(grp, s). if grp then prettifyGroup parse stringify s else s) (segments tx)) \<and>
   concat (map snd (segments tx)) = tx \<and>
   (\<forall>s. (True, s) \<in> set (segments tx) \<longrightarrow> balanced_group s)"
  using prettifyMaybeJson_render segments_concat segments_group by (simp add: render_def)

theorem prettifyMaybeJson_segments_witness:
  "\<forall>parse stringify. prettifyMaybeJson parse stringify ''a[1]'' = CHR ''a'' # prettifyGroup parse stringify ''[1]''"
proof (intro allI)
  fix parse stringify
  have "segments ''a[1]'' = [(False, ''a''), (True, ''[1]'')]" by code_simp
  then show "prettifyMaybeJson parse stringify ''a[1]'' = CHR ''a'' # prettifyGroup parse stringify ''[1]''"
    using prettifyMaybeJson_segments [of parse stringify "''a[1]''"] by simp
qed

text \<open>Text passes through unchanged when none of its bracket groups is JSON; in particular text without
  brackets, and text whose first bracket never closes.\<close>

theorem prettifyMaybeJson_unchanged:
  assumes "\<forall>s. (True, s) \<in> set (segments tx) \<longrightarrow> parse s = None"
  shows "prettifyMaybeJson parse stringify tx = tx"
proof -
  have "map (\<lambda>(grp, s). if grp then prettifyGroup parse stringify s else s) (segments tx) = map snd (segments tx)"
    using assms by (auto simp: prettifyGroup_def split: option.splits)
  then show ?thesis unfolding prettifyMaybeJson_render render_def by (simp only: segments_concat)
qed

theorem prettifyMaybeJson_unchanged_witness:
  "\<forall>parse stringify. prettifyMaybeJson parse stringify ''see [1, 2'' = ''see [1, 2''"
proof (intro allI)
  fix parse stringify
  have "segments ''see [1, 2'' = [(False, ''s''), (False, ''e''), (False, ''e''), (False, '' ''), (False, ''[1, 2'')]"
    by code_simp
  then show "prettifyMaybeJson parse stringify ''see [1, 2'' = ''see [1, 2''"
    by (intro prettifyMaybeJson_unchanged) simp
qed

end
