(* ===== verification/Api_Client.thy ===== *)
theory Api_Client
  imports Routing Json_Text
begin

text \<open>
  The API clients (\<open>common/api\<close>) and the calls that need no session (\<open>modules/auth/api.ts\<close>,
  \<open>modules/invites/api.ts\<close>). A method of a client is the request it sends; the network is a parameter \<open>fetch\<close>
  that maps a request to a response or to a rejection (\<open>Inl\<close>, with a message when the rejection is
  an \<open>Error\<close>). Payloads are JSON values; a body that is not JSON is \<open>None\<close>. The path of a request is the one the
  \<open>URL\<close> constructor leaves after resolving dot segments.
\<close>

subsection \<open>Requests, responses and errors (client.ts)\<close>

definition API_VERSION :: string where
  [data_defs]: "API_VERSION = ''v1''"

definition apiBaseUrl :: "string option \<Rightarrow> string \<Rightarrow> string" where
  "apiBaseUrl envUrl origin = (case envUrl of None \<Rightarrow> origin | Some u \<Rightarrow> if u = [] then origin else u)"

record http_request =
  hr_method :: string
  hr_base :: string
  hr_path :: string
  hr_query :: "(string, string) jsmap"
  hr_headers :: "(string, string) jsmap"
  hr_body :: "json option"
  hr_timeout :: "int option"

record http_response =
  rs_status :: int
  rs_json :: "json option"

definition rs_ok :: "http_response \<Rightarrow> bool" where
  "rs_ok r \<longleftrightarrow> 200 \<le> rs_status r \<and> rs_status r \<le> 299"

type_synonym fetch = "http_request \<Rightarrow> string option + http_response"

datatype api_error =
    APIError string int json
  | NetworkError string
  | ConfigError string
  | AuthError string int
  | BodyError

fun error_status :: "api_error \<Rightarrow> int" where
  "error_status (APIError m s c) = s"
| "error_status (AuthError m s) = s"
| "error_status _ = 0"

fun isNotFound :: "api_error \<Rightarrow> bool" where
  "isNotFound (APIError m s c) = (s = 404)"
| "isNotFound _ = False"

fun isUnauthorized :: "api_error \<Rightarrow> bool" where
  "isUnauthorized (APIError m s c) = (s = 401)"
| "isUnauthorized _ = False"

fun isServerError :: "api_error \<Rightarrow> bool" where
  "isServerError (APIError m s c) = (s \<ge> 500)"
| "isServerError _ = False"

fun isRetryable :: "api_error \<Rightarrow> bool" where
  "isRetryable (APIError m s c) = (s = 429 \<or> s \<ge> 500)"
| "isRetryable _ = False"

subsection \<open>The base client\<close>

definition new_client :: "APIClientConfig \<Rightarrow> api_error + APIClientConfig" where
  "new_client config =
     (if cfg_baseUrl config = [] then Inl (ConfigError ''baseUrl is required'')
      else if cfg_apiKey config = [] then Inl (ConfigError ''apiKey is required'')
      else Inr config)"

text \<open>
  The path state of the \<open>URL\<close> parser: a segment \<open>.\<close> is dropped and \<open>..\<close> removes the segment before it; as the last
  segment either leaves an empty one. The first argument holds the segments so far, last first.
\<close>

fun dot_segments :: "string list \<Rightarrow> string list \<Rightarrow> string list" where
  "dot_segments acc [] = rev acc"
| "dot_segments acc [s] =
     (if s = ''..'' then rev ([] # tl acc) else if s = ''.'' then rev ([] # acc) else rev (s # acc))"
| "dot_segments acc (s # t # rest) =
     (if s = ''..'' then dot_segments (tl acc) (t # rest)
      else if s = ''.'' then dot_segments acc (t # rest)
      else dot_segments (s # acc) (t # rest))"

definition url_path :: "string \<Rightarrow> string" where
  "url_path p = CHR ''/'' # str_join ''/'' (dot_segments [] (str_split (CHR ''/'') (drop 1 p)))"

definition versioned :: "string \<Rightarrow> string" where
  "versioned path = url_path (''/'' @ API_VERSION @ path)"

text \<open>Parameters that are \<open>undefined\<close> are left out; \<open>searchParams.set\<close> replaces an existing value.\<close>

definition query_of :: "(string \<times> string option) list \<Rightarrow> (string, string) jsmap" where
  "query_of params =
     foldl (\<lambda>q (k, v). case v of None \<Rightarrow> q | Some x \<Rightarrow> jm_set k x q) [] params"

definition auth_headers :: "APIClientConfig \<Rightarrow> (string, string) jsmap \<Rightarrow> (string, string) jsmap" where
  "auth_headers c extra =
     foldl (\<lambda>m (k, v). jm_set k v m) [(''Authorization'', ''Bearer '' @ cfg_apiKey c)] extra"

definition timeout_of :: "APIClientConfig \<Rightarrow> int" where
  "timeout_of c = nullish (cfg_timeoutMs c) 10000"

definition client_get :: "APIClientConfig \<Rightarrow> string \<Rightarrow> (string \<times> string option) list \<Rightarrow> http_request" where
  "client_get c path params =
     (let q = query_of params;
          q' = (case cfg_workspaceId c of
                  None \<Rightarrow> q
                | Some w \<Rightarrow> if w \<noteq> [] \<and> \<not> jm_has q ''workspace_id'' then jm_set ''workspace_id'' w q else q) in
      \<lparr>hr_method = ''GET'', hr_base = cfg_baseUrl c, hr_path = versioned path, hr_query = q',
       hr_headers = auth_headers c [], hr_body = None, hr_timeout = Some (timeout_of c)\<rparr>)"

definition client_post :: "APIClientConfig \<Rightarrow> string \<Rightarrow> json \<Rightarrow> http_request" where
  "client_post c path body =
     \<lparr>hr_method = ''POST'', hr_base = cfg_baseUrl c, hr_path = versioned path, hr_query = [],
      hr_headers = auth_headers c [(''Content-Type'', ''application/json'')], hr_body = Some body,
      hr_timeout = Some (timeout_of c)\<rparr>"

definition client_delete :: "APIClientConfig \<Rightarrow> string \<Rightarrow> http_request" where
  "client_delete c path =
     \<lparr>hr_method = ''DELETE'', hr_base = cfg_baseUrl c, hr_path = versioned path, hr_query = [],
      hr_headers = auth_headers c [], hr_body = None, hr_timeout = Some (timeout_of c)\<rparr>"

text \<open>A property of a JSON value: absent on scalars, and reading one of \<open>null\<close> throws (\<open>None\<close>).\<close>

fun json_field :: "json \<Rightarrow> string \<Rightarrow> json option option" where
  "json_field JNull k = None"
| "json_field (JObj kvs) k = Some (map_of (rev kvs) k)"
| "json_field _ k = Some None"

fun json_truthy :: "json option \<Rightarrow> bool" where
  "json_truthy None = False"
| "json_truthy (Some JNull) = False"
| "json_truthy (Some (JBool b)) = b"
| "json_truthy (Some (JNum n)) = (n \<noteq> 0)"
| "json_truthy (Some (JStr s)) = (s \<noteq> [])"
| "json_truthy (Some _) = True"

text \<open>The code and message of a failed response: the defaults, overridden by what its body carries.\<close>

definition error_fields :: "http_response \<Rightarrow> json \<times> string" where
  "error_fields r =
     (let code = JStr ''UNKNOWN_ERROR''; message = ''Request failed with status '' @ int_str (rs_status r) in
      case rs_json r of
        None \<Rightarrow> (code, message)
      | Some j \<Rightarrow>
          (case json_field j ''code'' of
             None \<Rightarrow> (code, message)
           | Some c \<Rightarrow>
               (if json_truthy c then the c else code,
                case json_field j ''message'' of Some (Some (JStr m)) \<Rightarrow> m | _ \<Rightarrow> message)))"

definition request :: "fetch \<Rightarrow> http_request \<Rightarrow> api_error + json option" where
  "request fetch req =
     (case fetch req of
        Inl err \<Rightarrow> Inl (NetworkError (nullish err ''Network request failed''))
      | Inr r \<Rightarrow>
          if \<not> rs_ok r then (let (code, message) = error_fields r in Inl (APIError message (rs_status r) code))
          else if rs_status r = 204 then Inr None
          else (case rs_json r of None \<Rightarrow> Inl BodyError | Some j \<Rightarrow> Inr (Some j)))"

subsection \<open>Metrics (metrics.ts)\<close>

definition getKpis :: "APIClientConfig \<Rightarrow> string \<Rightarrow> string option \<Rightarrow> http_request" where
  "getKpis c rng userId =
     client_get c ''/metrics/kpis'' [(''range'', Some rng), (''user_id'', userId)]"

definition getCostSeries :: "APIClientConfig \<Rightarrow> string \<Rightarrow> string option \<Rightarrow> string option \<Rightarrow> string option \<Rightarrow> http_request" where
  "getCostSeries c rng workflow userId version =
     client_get c ''/metrics/cost-series'' [(''range'', Some rng), (''workflow'', workflow), (''user_id'', userId), (''version'', version)]"

definition getLatencySeries :: "APIClientConfig \<Rightarrow> string \<Rightarrow> string option \<Rightarrow> string option \<Rightarrow> http_request" where
  "getLatencySeries c rng workflow version =
     client_get c ''/metrics/latency-series'' [(''range'', Some rng), (''workflow'', workflow), (''version'', version)]"

definition getErrorSeries :: "APIClientConfig \<Rightarrow> string \<Rightarrow> string option \<Rightarrow> string option \<Rightarrow> string option \<Rightarrow> http_request" where
  "getErrorSeries c rng workflow userId version =
     client_get c ''/metrics/error-series'' [(''range'', Some rng), (''workflow'', workflow), (''user_id'', userId), (''version'', version)]"

definition getTopWorkflows :: "APIClientConfig \<Rightarrow> string \<Rightarrow> http_request" where
  "getTopWorkflows c rng =
     client_get c ''/metrics/top-workflows'' [(''range'', Some rng)]"

definition getWorkflows :: "APIClientConfig \<Rightarrow> string \<Rightarrow> http_request" where
  "getWorkflows c rng =
     client_get c ''/metrics/workflows'' [(''range'', Some rng)]"

definition getWorkflowDetail :: "APIClientConfig \<Rightarrow> string \<Rightarrow> string \<Rightarrow> http_request" where
  "getWorkflowDetail c name rng =
     client_get c (''/metrics/workflows/'' @ encodeURIComponent name) [(''range'', Some rng)]"

definition getWorkflowVersions :: "APIClientConfig \<Rightarrow> string \<Rightarrow> string \<Rightarrow> http_request" where
  "getWorkflowVersions c name rng =
     client_get c (''/metrics/workflows/'' @ encodeURIComponent name @ ''/versions'') [(''range'', Some rng)]"

definition getFailures :: "APIClientConfig \<Rightarrow> string \<Rightarrow> http_request" where
  "getFailures c rng =
     client_get c ''/metrics/failures'' [(''range'', Some rng)]"

definition getAnomalies :: "APIClientConfig \<Rightarrow> string \<Rightarrow> string option \<Rightarrow> string option \<Rightarrow> http_request" where
  "getAnomalies c rng metric min_severity =
     client_get c ''/metrics/anomalies'' [(''range'', Some rng), (''metric'', metric), (''min_severity'', min_severity)]"

definition getSetupChecks :: "APIClientConfig \<Rightarrow> string \<Rightarrow> http_request" where
  "getSetupChecks c rng =
     client_get c ''/metrics/setup-checks'' [(''range'', Some rng)]"

definition getTokenSeries :: "APIClientConfig \<Rightarrow> string \<Rightarrow> string option \<Rightarrow> string option \<Rightarrow> string option \<Rightarrow> http_request" where
  "getTokenSeries c rng userId workflow version =
     client_get c ''/metrics/token-series'' [(''range'', Some rng), (''user_id'', userId), (''workflow'', workflow), (''version'', version)]"

definition getModelCosts :: "APIClientConfig \<Rightarrow> string \<Rightarrow> string option \<Rightarrow> http_request" where
  "getModelCosts c rng userId =
     client_get c ''/metrics/model-costs'' [(''range'', Some rng), (''user_id'', userId)]"

definition getUserUsage :: "APIClientConfig \<Rightarrow> string \<Rightarrow> string option \<Rightarrow> http_request" where
  "getUserUsage c rng userId =
     client_get c ''/metrics/usage-users'' [(''range'', Some rng), (''user_id'', userId)]"

definition getWorkflowUsage :: "APIClientConfig \<Rightarrow> string \<Rightarrow> string option \<Rightarrow> http_request" where
  "getWorkflowUsage c rng userId =
     client_get c ''/metrics/usage-workflows'' [(''range'', Some rng), (''user_id'', userId)]"

definition getAttributeKeys :: "APIClientConfig \<Rightarrow> string \<Rightarrow> http_request" where
  "getAttributeKeys c rng =
     client_get c ''/metrics/attribute-keys'' [(''range'', Some rng)]"

definition getUsageByAttribute :: "APIClientConfig \<Rightarrow> string \<Rightarrow> string \<Rightarrow> http_request" where
  "getUsageByAttribute c rng key =
     client_get c ''/metrics/usage-by-attribute'' [(''range'', Some rng), (''key'', Some key)]"

subsection \<open>Traces, users, keys and workspaces\<close>

definition bool_str :: "bool \<Rightarrow> string" where
  "bool_str b = (if b then ''true'' else ''false'')"

definition listTraces :: "APIClientConfig \<Rightarrow> TraceFilter \<Rightarrow> http_request" where
  "listTraces c f =
     client_get c ''/traces''
       [(''user_id'', tf_user_id f), (''model'', tf_model f), (''workflow'', tf_workflow f),
        (''version'', tf_version f), (''range'', tf_range f), (''has_error'', map_option bool_str (tf_has_error f)),
        (''start_after'', tf_start_after f), (''start_before'', tf_start_before f),
        (''page'', map_option int_str (tf_page f)), (''page_size'', map_option int_str (tf_page_size f))]"

definition getTrace :: "APIClientConfig \<Rightarrow> string \<Rightarrow> http_request" where
  "getTrace c tid = client_get c (''/traces/'' @ encodeURIComponent tid) []"

definition listUsers :: "APIClientConfig \<Rightarrow> http_request" where
  "listUsers c = client_get c ''/users'' []"

definition changePassword :: "APIClientConfig \<Rightarrow> string \<Rightarrow> string \<Rightarrow> http_request" where
  "changePassword c currentPassword newPassword =
     client_post c ''/auth/password''
       (JObj [(''current_password'', JStr currentPassword), (''new_password'', JStr newPassword)])"

text \<open>The new session token, read from the response of \<open>changePassword\<close>; \<open>None\<close> is \<open>undefined\<close>, and
  destructuring a missing body throws.\<close>

definition changePassword_token :: "api_error + json option \<Rightarrow> api_error + json option" where
  "changePassword_token res =
     (case res of
        Inl e \<Rightarrow> Inl e
      | Inr None \<Rightarrow> Inl BodyError
      | Inr (Some j) \<Rightarrow> (case json_field j ''token'' of None \<Rightarrow> Inl BodyError | Some t \<Rightarrow> Inr t))"

definition keys_list :: "APIClientConfig \<Rightarrow> string \<Rightarrow> http_request" where
  "keys_list c w = client_get c (''/workspaces/'' @ encodeURIComponent w @ ''/api-keys'') []"

definition keys_create :: "APIClientConfig \<Rightarrow> string \<Rightarrow> string \<Rightarrow> http_request" where
  "keys_create c w name =
     client_post c (''/workspaces/'' @ encodeURIComponent w @ ''/api-keys'') (JObj [(''name'', JStr name)])"

definition keys_revoke :: "APIClientConfig \<Rightarrow> string \<Rightarrow> string \<Rightarrow> http_request" where
  "keys_revoke c w k =
     client_delete c (''/workspaces/'' @ encodeURIComponent w @ ''/api-keys/'' @ encodeURIComponent k)"

definition inviteLink :: "string \<Rightarrow> string \<Rightarrow> string" where
  "inviteLink token origin = origin @ ''/invite/'' @ encodeURIComponent token"

definition workspaces_list :: "APIClientConfig \<Rightarrow> http_request" where
  "workspaces_list c = client_get c ''/workspaces'' []"

fun env_str :: "workspace_env \<Rightarrow> string" where
  "env_str Production = ''production''"
| "env_str Development = ''development''"
| "env_str Staging = ''staging''"

definition workspaces_create :: "APIClientConfig \<Rightarrow> CreateWorkspaceInput \<Rightarrow> http_request" where
  "workspaces_create c inp =
     client_post c ''/workspaces''
       (JObj [(''name'', JStr (cwi_name inp)), (''slug'', JStr (cwi_slug inp)), (''env'', JStr (env_str (cwi_env inp)))])"

definition workspaces_remove :: "APIClientConfig \<Rightarrow> string \<Rightarrow> http_request" where
  "workspaces_remove c w = client_delete c (''/workspaces/'' @ encodeURIComponent w)"

definition workspaces_members :: "APIClientConfig \<Rightarrow> string \<Rightarrow> http_request" where
  "workspaces_members c w = client_get c (''/workspaces/'' @ encodeURIComponent w @ ''/members'') []"

definition workspaces_removeMember :: "APIClientConfig \<Rightarrow> string \<Rightarrow> string \<Rightarrow> http_request" where
  "workspaces_removeMember c w u =
     client_delete c (''/workspaces/'' @ encodeURIComponent w @ ''/members/'' @ encodeURIComponent u)"

definition workspaces_invites :: "APIClientConfig \<Rightarrow> string \<Rightarrow> http_request" where
  "workspaces_invites c w = client_get c (''/workspaces/'' @ encodeURIComponent w @ ''/invites'') []"

definition workspaces_invite :: "APIClientConfig \<Rightarrow> string \<Rightarrow> string \<Rightarrow> http_request" where
  "workspaces_invite c w email =
     client_post c (''/workspaces/'' @ encodeURIComponent w @ ''/invites'') (JObj [(''email'', JStr email)])"

definition workspaces_revokeInvite :: "APIClientConfig \<Rightarrow> string \<Rightarrow> string \<Rightarrow> http_request" where
  "workspaces_revokeInvite c w i =
     client_delete c (''/workspaces/'' @ encodeURIComponent w @ ''/invites/'' @ encodeURIComponent i)"

definition workspaces_acceptInvite :: "APIClientConfig \<Rightarrow> string \<Rightarrow> http_request" where
  "workspaces_acceptInvite c token =
     client_post c (''/invites/'' @ encodeURIComponent token @ ''/accept'') (JObj [])"

subsection \<open>Calls without a session (auth/api.ts, invites/api.ts)\<close>

record LoginRequest =
  lr_email :: string
  lr_password :: string
  lr_extensions :: "(string \<times> string) list option"

record RegisterResult =
  rg_token :: "json option"
  rg_confirmationRequired :: bool

definition GENERIC_ERROR :: string where
  [data_defs]: "GENERIC_ERROR = ''Something went wrong. Please try again.''"

fun error_message :: "api_error \<Rightarrow> string" where
  "error_message (APIError m s c) = m"
| "error_message (NetworkError m) = m"
| "error_message (ConfigError m) = m"
| "error_message (AuthError m s) = m"
| "error_message BodyError = ''Unexpected end of JSON input''"

text \<open>\<open>None\<close> is a thrown value that is not an \<open>Error\<close>.\<close>

definition requestErrorMessage :: "api_error option \<Rightarrow> (int \<times> string) list \<Rightarrow> string option \<Rightarrow> string" where
  "requestErrorMessage err byStatus fallback =
     (let status = (case err of None \<Rightarrow> 0 | Some e \<Rightarrow> error_status e) in
      case map_of byStatus status of
        Some m \<Rightarrow> m
      | None \<Rightarrow>
          (case fallback of
             Some f \<Rightarrow> f
           | None \<Rightarrow> (case err of None \<Rightarrow> GENERIC_ERROR | Some e \<Rightarrow> error_message e)))"

text \<open>A rejected \<open>fetch\<close> is not caught here: it surfaces with its own message. The \<open>message\<close> of a body is a string,
  as its type says.\<close>

definition publicRequest :: "fetch \<Rightarrow> string \<Rightarrow> string \<Rightarrow> http_request \<Rightarrow> string \<Rightarrow> api_error + http_response" where
  "publicRequest fetch base path init failureLabel =
     (case fetch (init\<lparr>hr_base := base, hr_path := url_path path\<rparr>) of
        Inl err \<Rightarrow> Inl (NetworkError (nullish err []))
      | Inr r \<Rightarrow>
          if \<not> rs_ok r then
            (let message = failureLabel @ '' ('' @ int_str (rs_status r) @ '')'' in
             Inl (AuthError
               (case rs_json r of
                  None \<Rightarrow> message
                | Some j \<Rightarrow> (case json_field j ''message'' of Some (Some (JStr m)) \<Rightarrow> if m \<noteq> [] then m else message
                    | _ \<Rightarrow> message))
               (rs_status r)))
          else Inr r)"

definition blank_request :: http_request where
  "blank_request = \<lparr>hr_method = ''GET'', hr_base = [], hr_path = [], hr_query = [], hr_headers = [],
     hr_body = None, hr_timeout = None\<rparr>"

definition credentials_body :: "LoginRequest \<Rightarrow> json" where
  "credentials_body req =
     JObj ([(''email'', JStr (lr_email req)), (''password'', JStr (lr_password req))] @
       (case lr_extensions req of None \<Rightarrow> [] | Some xs \<Rightarrow> [(''extensions'', JObj (map (\<lambda>(k, v). (k, JStr v)) xs))]))"

text \<open>The request that reaches \<open>fetch\<close>.\<close>

definition credentials_request :: "string \<Rightarrow> string \<Rightarrow> LoginRequest \<Rightarrow> http_request" where
  "credentials_request base path req =
     blank_request\<lparr>hr_method := ''POST'', hr_headers := [(''Content-Type'', ''application/json'')],
       hr_body := Some (credentials_body req), hr_base := base, hr_path := url_path path\<rparr>"

definition postCredentials :: "fetch \<Rightarrow> string \<Rightarrow> string \<Rightarrow> LoginRequest \<Rightarrow> string \<Rightarrow> api_error + http_response" where
  "postCredentials fetch base path req failureLabel =
     publicRequest fetch base path
       (blank_request\<lparr>hr_method := ''POST'', hr_headers := [(''Content-Type'', ''application/json'')],
          hr_body := Some (credentials_body req)\<rparr>) failureLabel"

definition loginUser :: "fetch \<Rightarrow> string \<Rightarrow> LoginRequest \<Rightarrow> api_error + json" where
  "loginUser fetch base req =
     (case postCredentials fetch base ''/v1/auth/login'' req ''Login failed'' of
        Inl e \<Rightarrow> Inl e
      | Inr r \<Rightarrow> (case rs_json r of None \<Rightarrow> Inl BodyError | Some j \<Rightarrow> Inr j))"

definition registerUser :: "fetch \<Rightarrow> string \<Rightarrow> LoginRequest \<Rightarrow> api_error + RegisterResult" where
  "registerUser fetch base req =
     (case postCredentials fetch base ''/v1/auth/register'' req ''Sign up failed'' of
        Inl e \<Rightarrow> Inl e
      | Inr r \<Rightarrow>
          if rs_status r = 202 then Inr \<lparr>rg_token = None, rg_confirmationRequired = True\<rparr>
          else (case rs_json r of
                  None \<Rightarrow> Inl BodyError
                | Some j \<Rightarrow> (case json_field j ''token'' of
                    None \<Rightarrow> Inl BodyError
                  | Some t \<Rightarrow> Inr \<lparr>rg_token = t, rg_confirmationRequired = False\<rparr>)))"

definition previewInvite :: "fetch \<Rightarrow> string \<Rightarrow> string \<Rightarrow> api_error + json" where
  "previewInvite fetch base token =
     (case publicRequest fetch base (''/v1/invites/'' @ encodeURIComponent token) blank_request ''Could not load invite'' of
        Inl e \<Rightarrow> Inl e
      | Inr r \<Rightarrow> (case rs_json r of None \<Rightarrow> Inl BodyError | Some j \<Rightarrow> Inr j))"

subsection \<open>Paths\<close>

definition dotted :: "string \<Rightarrow> bool" where
  "dotted s \<longleftrightarrow> s = ''.'' \<or> s = ''..''"

lemma dot_segments_plain: "\<forall>s\<in>set ss. \<not> dotted s \<Longrightarrow> dot_segments acc ss = rev acc @ ss"
  by (induction acc ss rule: dot_segments.induct) (auto simp: dotted_def)

lemma enc_dotted: "dotted (encodeURIComponent s) \<longleftrightarrow> dotted s"
proof -
  have "encodeURIComponent ''.'' = ''.''" "encodeURIComponent ''..'' = ''..''"
    by (simp_all add: enc_fixed uri_unreserved_def)
  then show ?thesis unfolding dotted_def by (metis encodeURIComponent_inject)
qed

lemma str_join_segs: "str_join ''/'' (p # map encodeURIComponent vs) = p @ segs vs"
  by (induction vs arbitrary: p) (simp_all add: seg_path_def)

lemma enc_fixed_more:
  "encodeURIComponent ''v1'' = ''v1''" "encodeURIComponent ''api-keys'' = ''api-keys''"
  "encodeURIComponent ''workspaces'' = ''workspaces''" "encodeURIComponent ''members'' = ''members''"
  "encodeURIComponent ''invites'' = ''invites''" "encodeURIComponent ''accept'' = ''accept''"
  "encodeURIComponent ''metrics'' = ''metrics''" "encodeURIComponent ''versions'' = ''versions''"
  "encodeURIComponent ''workflows'' = ''workflows''" "encodeURIComponent ''traces'' = ''traces''"
  by (simp_all add: enc_fixed uri_unreserved_def)

lemma versioned_segs:
  assumes "vs \<noteq> []" "\<forall>v\<in>set vs. \<not> dotted v"
  shows "versioned (segs vs) = segs (''v1'' # vs)"
proof -
  have "str_split (CHR ''/'') (''v1'' @ segs vs) = ''v1'' # map encodeURIComponent vs"
    by (rule uri.split_seg_path) simp
  moreover have "dot_segments [] (''v1'' # map encodeURIComponent vs) = ''v1'' # map encodeURIComponent vs"
    using assms (2) by (subst dot_segments_plain) (auto simp: enc_dotted, simp add: dotted_def)
  ultimately have "versioned (segs vs) = CHR ''/'' # str_join ''/'' (''v1'' # map encodeURIComponent vs)"
    by (simp add: versioned_def url_path_def API_VERSION_def)
  then show ?thesis unfolding str_join_segs by (simp add: seg_path_def enc_fixed_more)
qed

text \<open>The requests whose path names a resource, with the segments they mean.\<close>

lemma resource_paths:
  "\<not> dotted w \<Longrightarrow> hr_path (keys_list c w) = segs [''v1'', ''workspaces'', w, ''api-keys'']"
  "\<not> dotted w \<Longrightarrow> hr_path (keys_create c w n) = segs [''v1'', ''workspaces'', w, ''api-keys'']"
  "\<not> dotted w \<Longrightarrow> \<not> dotted k \<Longrightarrow> hr_path (keys_revoke c w k) = segs [''v1'', ''workspaces'', w, ''api-keys'', k]"
  "\<not> dotted w \<Longrightarrow> hr_path (workspaces_remove c w) = segs [''v1'', ''workspaces'', w]"
  "\<not> dotted w \<Longrightarrow> \<not> dotted k \<Longrightarrow> hr_path (workspaces_removeMember c w k) = segs [''v1'', ''workspaces'', w, ''members'', k]"
  "\<not> dotted w \<Longrightarrow> \<not> dotted k \<Longrightarrow> hr_path (workspaces_revokeInvite c w k) = segs [''v1'', ''workspaces'', w, ''invites'', k]"
  "\<not> dotted w \<Longrightarrow> hr_path (workspaces_acceptInvite c w) = segs [''v1'', ''invites'', w, ''accept'']"
  "\<not> dotted w \<Longrightarrow> hr_path (getTrace c w) = segs [''v1'', ''traces'', w]"
  "\<not> dotted w \<Longrightarrow> hr_path (getWorkflowDetail c w rng) = segs [''v1'', ''metrics'', ''workflows'', w]"
  "\<not> dotted w \<Longrightarrow> hr_path (getWorkflowVersions c w rng) = segs [''v1'', ''metrics'', ''workflows'', w, ''versions'']"
  unfolding keys_list_def keys_create_def keys_revoke_def workspaces_remove_def workspaces_removeMember_def
    workspaces_revokeInvite_def workspaces_acceptInvite_def getTrace_def getWorkflowDetail_def getWorkflowVersions_def
    client_get_def client_post_def client_delete_def Let_def
  using versioned_segs [of "[''workspaces'', w, ''api-keys'']"] versioned_segs [of "[''workspaces'', w, ''api-keys'', k]"]
    versioned_segs [of "[''workspaces'', w]"] versioned_segs [of "[''workspaces'', w, ''members'', k]"]
    versioned_segs [of "[''workspaces'', w, ''invites'', k]"] versioned_segs [of "[''invites'', w, ''accept'']"]
    versioned_segs [of "[''traces'', w]"] versioned_segs [of "[''metrics'', ''workflows'', w]"]
    versioned_segs [of "[''metrics'', ''workflows'', w, ''versions'']"]
  by (simp_all add: seg_path_def enc_fixed_more dotted_def)

lemma segs_inject: "segs vs = segs ws \<longleftrightarrow> vs = ws"
proof
  assume "segs vs = segs ws"
  then have "map encodeURIComponent vs = map encodeURIComponent ws"
    using uri.split_seg_path [of "[]" vs] uri.split_seg_path [of "[]" ws] by simp
  then show "vs = ws" by (rule map_injective) (simp add: inj_def)
qed simp

subsection \<open>Queries and headers\<close>

lemma jm_wf_query_fold:
  "jm_wf q0 \<Longrightarrow> jm_wf (foldl (\<lambda>q (k, v). case v of None \<Rightarrow> q | Some x \<Rightarrow> jm_set k x q) q0 ps)"
  by (induction ps arbitrary: q0) (auto split: option.splits)

lemma query_of_wf: "jm_wf (query_of ps)"
  by (simp add: query_of_def jm_wf_query_fold)

subsection \<open>Properties\<close>

text \<open>Every read of a client that has a workspace is scoped: the query carries \<open>workspace_id\<close> exactly once,
  with the client's workspace unless the caller named one; without a workspace nothing is added.\<close>

theorem client_get_scope:
  "jm_wf (hr_query (client_get c path params)) \<and>
   jm_get (hr_query (client_get c path params)) ''workspace_id'' =
     (case jm_get (query_of params) ''workspace_id'' of
        Some w \<Rightarrow> Some w
      | None \<Rightarrow> (case cfg_workspaceId c of None \<Rightarrow> None | Some w \<Rightarrow> if w = [] then None else Some w)) \<and>
   (k \<noteq> ''workspace_id'' \<longrightarrow>
     jm_get (hr_query (client_get c path params)) k = jm_get (query_of params) k)"
  using query_of_wf by (auto simp: client_get_def Let_def jm_has_def split: option.splits)

definition sample_client :: APIClientConfig where
  "sample_client = \<lparr>cfg_baseUrl = ''https://api'', cfg_apiKey = ''k'', cfg_timeoutMs = None, cfg_workspaceId = Some ''w1''\<rparr>"

theorem client_get_scope_witness:
  "jm_get (hr_query (getKpis sample_client ''7d'' None)) ''range'' = Some ''7d''"
  using client_get_scope [of sample_client "''/metrics/kpis''" "[(''range'', Some ''7d''), (''user_id'', None)]" "''range''"]
  by (simp add: getKpis_def query_of_def)

text \<open>Every request of a client carries its key as a bearer token, and a request with a body declares it
  as JSON.\<close>

theorem client_requests_authorized:
  "list_all (\<lambda>r. jm_get (hr_headers r) ''Authorization'' = Some (''Bearer '' @ cfg_apiKey c) \<and>
      (hr_body r \<noteq> None \<longleftrightarrow> jm_get (hr_headers r) ''Content-Type'' = Some ''application/json'') \<and>
      hr_base r = cfg_baseUrl c)
     [client_get c path params, client_post c path body, client_delete c path]"
  by (simp add: client_get_def client_post_def client_delete_def auth_headers_def Let_def)

text \<open>C38. Identifiers stay inside their path segment: whatever a workspace, key, member, invite, trace or
  workflow is called, unless it is a dot segment, the request names exactly that resource, and
  requests for different resources have different paths.\<close>

theorem resource_paths_injective:
  assumes "\<not> dotted w" "\<not> dotted k" "\<not> dotted w'" "\<not> dotted k'"
  shows "(hr_path (keys_revoke c w k) = hr_path (keys_revoke c w' k') \<longleftrightarrow> w = w' \<and> k = k') \<and>
    (hr_path (workspaces_removeMember c w k) = hr_path (workspaces_removeMember c w' k') \<longleftrightarrow> w = w' \<and> k = k') \<and>
    (hr_path (workspaces_revokeInvite c w k) = hr_path (workspaces_revokeInvite c w' k') \<longleftrightarrow> w = w' \<and> k = k') \<and>
    (hr_path (workspaces_remove c w) = hr_path (workspaces_remove c w') \<longleftrightarrow> w = w') \<and>
    hr_path (workspaces_remove c w) \<noteq> hr_path (keys_revoke c w' k') \<and>
    hr_path (workspaces_remove c w) \<noteq> hr_path (workspaces_removeMember c w' k') \<and>
    hr_path (keys_revoke c w k) \<noteq> hr_path (workspaces_removeMember c w' k') \<and>
    (hr_path (getTrace c w) = hr_path (getTrace c w') \<longleftrightarrow> w = w') \<and>
    (hr_path (getWorkflowDetail c w rng) = hr_path (getWorkflowDetail c w' rng) \<longleftrightarrow> w = w')"
  using assms by (simp add: resource_paths segs_inject)

theorem resource_paths_injective_witness:
  "hr_path (keys_revoke sample_client ''a/b'' ''c'') \<noteq> hr_path (keys_revoke sample_client ''a'' ''b/c'')"
  using resource_paths_injective [of "''a/b''" "''c''" "''a''" "''b/c''" sample_client] by (simp add: dotted_def)

text \<open>A dot segment escapes: a workspace, trace or key identified as \<open>..\<close> passes the encoding unchanged and the
  URL parser removes the segment before it, so the request goes to another endpoint.\<close>

theorem dot_identifier_escapes:
  "hr_path (workspaces_remove c ''..'') = ''/v1/'' \<and> hr_path (getTrace c ''..'') = ''/v1/'' \<and>
   hr_path (keys_revoke c ''w'' ''..'') = hr_path (workspaces_remove c ''w'') @ ''/''"
  by (simp add: workspaces_remove_def getTrace_def keys_revoke_def client_get_def client_delete_def versioned_def
      url_path_def API_VERSION_def enc_fixed uri_unreserved_def Let_def)

text \<open>A registration either yields the token of the new account or asks for a confirmation, never both:
  exactly the status \<open>202\<close> withholds the token; a refusal carries the status and the server's message, or the
  label of the operation.\<close>

theorem registerUser_outcome:
  "case postCredentials fetch base ''/v1/auth/register'' req ''Sign up failed'' of
     Inl e \<Rightarrow> registerUser fetch base req = Inl e
   | Inr r \<Rightarrow> rs_ok r \<and>
       (rs_status r = 202 \<longleftrightarrow> registerUser fetch base req = Inr \<lparr>rg_token = None, rg_confirmationRequired = True\<rparr>) \<and>
       (\<forall>t. registerUser fetch base req = Inr \<lparr>rg_token = t, rg_confirmationRequired = False\<rparr> \<longrightarrow>
          rs_status r \<noteq> 202 \<and> (\<exists>j. rs_json r = Some j \<and> json_field j ''token'' = Some t))"
  unfolding registerUser_def postCredentials_def publicRequest_def
  by (auto simp: Let_def split: sum.split option.split if_splits)

theorem registerUser_outcome_witness:
  "registerUser (\<lambda>_. Inr \<lparr>rs_status = 202, rs_json = None\<rparr>) ''b'' \<lparr>lr_email = ''e'', lr_password = ''p'', lr_extensions = None\<rparr>
     = Inr \<lparr>rg_token = None, rg_confirmationRequired = True\<rparr>"
  using registerUser_outcome [of "\<lambda>_. Inr \<lparr>rs_status = 202, rs_json = None\<rparr>" "''b''"
      "\<lparr>lr_email = ''e'', lr_password = ''p'', lr_extensions = None\<rparr>"]
  by (simp add: postCredentials_def publicRequest_def rs_ok_def)

end
