(* ===== verification/Session.thy ===== *)
theory Session
  imports Api_Client
begin

text \<open>
  Sessions: what is kept in the browser's storage (\<open>modules/auth/auth.ts\<close>, \<open>modules/invites/pending.ts\<close>), the
  root component with its handlers (\<open>App.tsx\<close>) and the providers around the dashboard
  (\<open>QueryProvider.tsx\<close>, \<open>APIProvider.tsx\<close>). The two storages are string maps used through the \<open>finite_store\<close>
  interface; \<open>br_ok\<close> is false where storage access throws.
\<close>

subsection \<open>Storage\<close>

definition TOKEN_KEY :: string where [data_defs]: "TOKEN_KEY = ''tracium_token''"
definition EMAIL_KEY :: string where [data_defs]: "EMAIL_KEY = ''tracium_email''"
definition REDIRECT_KEY :: string where [data_defs]: "REDIRECT_KEY = ''tracium_redirect''"
definition WORKSPACE_KEY :: string where [data_defs]: "WORKSPACE_KEY = ''tracium_ws''"
definition VIEW_KEY :: string where [data_defs]: "VIEW_KEY = ''tracium_view''"
definition RANGE_KEY :: string where [data_defs]: "RANGE_KEY = ''tracium_range''"
definition INVITE_KEY :: string where [data_defs]: "INVITE_KEY = ''tracium_invite''"

lemma storage_keys_distinct [simp]:
  "distinct [TOKEN_KEY, EMAIL_KEY, REDIRECT_KEY, WORKSPACE_KEY, VIEW_KEY, RANGE_KEY, INVITE_KEY]"
  by (simp add: TOKEN_KEY_def EMAIL_KEY_def REDIRECT_KEY_def WORKSPACE_KEY_def VIEW_KEY_def RANGE_KEY_def INVITE_KEY_def)

lemma storage_key_neqs [simp]:
  "TOKEN_KEY \<noteq> EMAIL_KEY" "TOKEN_KEY \<noteq> WORKSPACE_KEY" "TOKEN_KEY \<noteq> VIEW_KEY" "TOKEN_KEY \<noteq> INVITE_KEY" "TOKEN_KEY \<noteq> RANGE_KEY"
  "EMAIL_KEY \<noteq> TOKEN_KEY" "EMAIL_KEY \<noteq> WORKSPACE_KEY" "EMAIL_KEY \<noteq> VIEW_KEY" "EMAIL_KEY \<noteq> INVITE_KEY" "EMAIL_KEY \<noteq> RANGE_KEY"
  "WORKSPACE_KEY \<noteq> TOKEN_KEY" "WORKSPACE_KEY \<noteq> EMAIL_KEY" "WORKSPACE_KEY \<noteq> VIEW_KEY" "WORKSPACE_KEY \<noteq> INVITE_KEY"
  "VIEW_KEY \<noteq> TOKEN_KEY" "VIEW_KEY \<noteq> EMAIL_KEY" "VIEW_KEY \<noteq> WORKSPACE_KEY" "VIEW_KEY \<noteq> INVITE_KEY" "VIEW_KEY \<noteq> RANGE_KEY"
  "INVITE_KEY \<noteq> TOKEN_KEY" "INVITE_KEY \<noteq> EMAIL_KEY" "INVITE_KEY \<noteq> WORKSPACE_KEY" "INVITE_KEY \<noteq> VIEW_KEY"
  "RANGE_KEY \<noteq> TOKEN_KEY" "RANGE_KEY \<noteq> VIEW_KEY" "RANGE_KEY \<noteq> WORKSPACE_KEY" "WORKSPACE_KEY \<noteq> RANGE_KEY"
  by (simp_all add: TOKEN_KEY_def EMAIL_KEY_def WORKSPACE_KEY_def VIEW_KEY_def RANGE_KEY_def INVITE_KEY_def)

record browser =
  br_local :: "(string, string) jsmap"
  br_session :: "(string, string) jsmap"
  br_ok :: bool

text \<open>\<open>None\<close> is a thrown exception.\<close>

definition get_item :: "string \<Rightarrow> browser \<Rightarrow> string option option" where
  "get_item k b = (if br_ok b then Some (jm_get (br_local b) k) else None)"

definition set_item :: "string \<Rightarrow> string \<Rightarrow> browser \<Rightarrow> browser option" where
  "set_item k v b = (if br_ok b then Some (b\<lparr>br_local := jm_set k v (br_local b)\<rparr>) else None)"

definition remove_item :: "string \<Rightarrow> browser \<Rightarrow> browser option" where
  "remove_item k b = (if br_ok b then Some (b\<lparr>br_local := jm_del k (br_local b)\<rparr>) else None)"

subsection \<open>Sessions and accounts (auth.ts)\<close>

definition storeSession :: "string \<Rightarrow> string \<Rightarrow> browser \<Rightarrow> browser option" where
  "storeSession token email b = Option.bind (set_item TOKEN_KEY token b) (set_item EMAIL_KEY email)"

definition readInitialToken :: "browser \<Rightarrow> string option option" where
  "readInitialToken b = get_item TOKEN_KEY b"

record Account =
  ac_email :: string
  ac_name :: string
  ac_initials :: string

text \<open>The bytes of the first character of a string.\<close>

definition first_char :: "string \<Rightarrow> string" where
  "first_char s =
     (case s of [] \<Rightarrow> []
      | c # _ \<Rightarrow> let n = (of_char c :: nat) in take (if n < 192 then 1 else if n < 224 then 2 else if n < 240 then 3 else 4) s)"

definition first_two :: "string \<Rightarrow> string" where
  "first_two s = first_char s @ first_char (drop (length (first_char s)) s)"

fun split_words :: "string \<Rightarrow> string \<Rightarrow> string list" where
  "split_words acc [] = (if acc = [] then [] else [acc])"
| "split_words acc (c # cs) =
     (if c = CHR ''.'' \<or> c = CHR ''_'' \<or> c = CHR ''-'' then (if acc = [] then [] else [acc]) @ split_words [] cs
      else split_words (acc @ [c]) cs)"

text \<open>The local part of an address split at runs of dots, underscores and hyphens; case conversion is
  that of ASCII letters.\<close>

definition accountFromEmail :: "string \<Rightarrow> Account" where
  "accountFromEmail email =
     (let local = hd (str_split (CHR ''@'') email);
          words = split_words [] local;
          name = (if words \<noteq> []
                  then str_join '' '' (map (\<lambda>w. to_upper (first_char w) @ drop (length (first_char w)) w) words)
                  else email);
          initials = to_upper (if length words \<ge> 2 then first_char (words ! 0) @ first_char (words ! 1) else first_two local) in
      \<lparr>ac_email = email, ac_name = name, ac_initials = (if initials = [] then em_dash else initials)\<rparr>)"

definition readAccount :: "browser \<Rightarrow> Account option option" where
  "readAccount b =
     map_option (\<lambda>e. case e of None \<Rightarrow> None | Some email \<Rightarrow> if email = [] then None else Some (accountFromEmail email))
       (get_item EMAIL_KEY b)"

subsection \<open>Pending invites (pending.ts)\<close>

text \<open>The pattern \<open>^\/invite\/([^/]+)\/?$\<close>.\<close>

definition inviteTokenFromPath :: "string \<Rightarrow> string option" where
  "inviteTokenFromPath pathname =
     (if starts_with pathname ''/invite/'' then
        (let r = drop 8 pathname;
             t = (if r \<noteq> [] \<and> last r = CHR ''/'' then butlast r else r) in
         if t \<noteq> [] \<and> CHR ''/'' \<notin> set t then decodeURIComponent t else None)
      else None)"

text \<open>A read of the pending invite may store it, so it returns the browser too.\<close>

definition readPendingInvite :: "string \<Rightarrow> browser \<Rightarrow> string option \<times> browser" where
  "readPendingInvite pathname b =
     (let fromPath = inviteTokenFromPath pathname in
      if fromPath \<noteq> None \<and> fromPath \<noteq> Some [] then
        (case set_item INVITE_KEY (the fromPath) b of None \<Rightarrow> (fromPath, b) | Some b' \<Rightarrow> (fromPath, b'))
      else (case get_item INVITE_KEY b of None \<Rightarrow> (fromPath, b) | Some t \<Rightarrow> (t, b)))"

definition clearPendingInvite :: "browser \<Rightarrow> browser" where
  "clearPendingInvite b = (case remove_item INVITE_KEY b of None \<Rightarrow> b | Some b' \<Rightarrow> b')"

subsection \<open>The root component (App.tsx)\<close>

record app =
  ap_token :: "string option"
  ap_invite :: "string option"
  ap_browser :: browser

text \<open>The first render; \<open>None\<close> when reading the token throws.\<close>

definition app_init :: "string \<Rightarrow> browser \<Rightarrow> app option" where
  "app_init pathname b =
     map_option (\<lambda>t. let (inv, b') = readPendingInvite pathname b in
         \<lparr>ap_token = t, ap_invite = inv, ap_browser = b'\<rparr>) (readInitialToken b)"

definition leaveInvite :: "app \<Rightarrow> app" where
  "leaveInvite a = a\<lparr>ap_browser := clearPendingInvite (ap_browser a), ap_invite := None\<rparr>"

text \<open>A handler that throws leaves what it did before the exception.\<close>

definition handleInviteAccepted :: "string \<Rightarrow> app \<Rightarrow> app" where
  "handleInviteAccepted w a =
     (case set_item WORKSPACE_KEY w (ap_browser a) of
        None \<Rightarrow> a
      | Some b1 \<Rightarrow>
          (case set_item VIEW_KEY ''overview'' b1 of
             None \<Rightarrow> a\<lparr>ap_browser := b1\<rparr>
           | Some b2 \<Rightarrow> leaveInvite (a\<lparr>ap_browser := b2\<rparr>)))"

definition handleLogin :: "string \<Rightarrow> string \<Rightarrow> app \<Rightarrow> app" where
  "handleLogin newToken email a =
     (case storeSession newToken email (ap_browser a) of
        None \<Rightarrow> a
      | Some b \<Rightarrow> a\<lparr>ap_browser := b, ap_token := Some newToken\<rparr>)"

definition handleLogout :: "app \<Rightarrow> app" where
  "handleLogout a =
     (case Option.bind (Option.bind (remove_item TOKEN_KEY (ap_browser a)) (remove_item EMAIL_KEY)) (remove_item WORKSPACE_KEY) of
        None \<Rightarrow> a
      | Some b \<Rightarrow> a\<lparr>ap_browser := b, ap_token := None\<rparr>)"

text \<open>\<open>onSessionRenewed\<close>: a new token for the stored address.\<close>

definition handleSessionRenewed :: "string \<Rightarrow> app \<Rightarrow> app" where
  "handleSessionRenewed newToken a =
     (case get_item EMAIL_KEY (ap_browser a) of None \<Rightarrow> a | Some e \<Rightarrow> handleLogin newToken (nullish e []) a)"

definition truthy_str :: "string option \<Rightarrow> bool" where
  "truthy_str x \<longleftrightarrow> x \<noteq> None \<and> x \<noteq> Some []"

datatype screen =
    LoginScreen
  | SignupScreen
  | InviteLoggedOut string
  | ExtensionAuth string
  | RedirectToLogin
  | InviteSession string string string
  | DashboardScreen string

text \<open>
  What is rendered at a path. Route matching is the router's; \<open>matches pattern path\<close> is a parameter. The catch-all
  comes last whatever the order of the routes.
\<close>

definition app_screen :: "(string \<Rightarrow> string \<Rightarrow> bool) \<Rightarrow> DashboardExtensions \<Rightarrow> string \<Rightarrow> app \<Rightarrow> screen" where
  "app_screen matches ext path a =
     (if \<not> truthy_str (ap_token a) then
        (if matches ''/login'' path then LoginScreen
         else if matches ''/signup'' path then SignupScreen
         else if truthy_str (ap_invite a) \<and> matches ''/invite/:token'' path then InviteLoggedOut (the (ap_invite a))
         else (case js_find (\<lambda>r. matches r path) (de_authRoutes ext) of
                 Some r \<Rightarrow> ExtensionAuth r
               | None \<Rightarrow> RedirectToLogin))
      else if truthy_str (ap_invite a) then
        InviteSession (the (ap_invite a)) (the (ap_token a))
          (nullish (jm_get (br_local (ap_browser a)) EMAIL_KEY) [])
      else DashboardScreen (the (ap_token a)))"

text \<open>The effect of the catch-all of logged-out visitors: remember the link they tried to open.\<close>

definition requireAuthRedirect :: "string \<Rightarrow> browser \<Rightarrow> browser" where
  "requireAuthRedirect pathname b =
     (if pathname \<noteq> ''/login'' \<and> pathname \<noteq> ''/signup'' \<and> \<not> starts_with pathname ''/invite/''
      then b\<lparr>br_session := jm_set REDIRECT_KEY pathname (br_session b)\<rparr> else b)"

subsection \<open>Providers\<close>

definition query_retry :: "nat \<Rightarrow> api_error \<Rightarrow> bool" where
  "query_retry failureCount e = (if isUnauthorized e then False else failureCount < 1)"

text \<open>The error hook of both caches.\<close>

definition handleError :: "api_error \<Rightarrow> app \<Rightarrow> app" where
  "handleError e a = (if isUnauthorized e then handleLogout a else a)"

text \<open>The configuration the API clients are built with, and the error of a hook outside the provider.\<close>

definition scopedConfig :: "APIClientConfig \<Rightarrow> string option \<Rightarrow> APIClientConfig" where
  "scopedConfig config workspaceId = config\<lparr>cfg_workspaceId := workspaceId\<rparr>"

definition useAPIClient :: "APIClientConfig option \<Rightarrow> string + APIClientConfig" where
  "useAPIClient ctx =
     (case ctx of None \<Rightarrow> Inl ''useAPIClient must be used within APIProvider'' | Some c \<Rightarrow> Inr c)"

subsection \<open>The session as a state machine\<close>

inductive app_step :: "app \<Rightarrow> app \<Rightarrow> bool" where
  step_login: "app_step a (handleLogin t e a)"
| step_logout: "app_step a (handleLogout a)"
| step_renewed: "app_step a (handleSessionRenewed t a)"
| step_accepted: "app_step a (handleInviteAccepted w a)"
| step_leave: "app_step a (leaveInvite a)"
| step_error: "app_step a (handleError err a)"

inductive_cases app_stepE: "app_step a a'"

text \<open>What is in memory is what is stored, while storage works.\<close>

definition synced :: "app \<Rightarrow> bool" where
  "synced a \<longleftrightarrow> br_ok (ap_browser a) \<and>
     ap_token a = jm_get (br_local (ap_browser a)) TOKEN_KEY \<and>
     ap_invite a = jm_get (br_local (ap_browser a)) INVITE_KEY"

definition app_start :: "app \<Rightarrow> bool" where
  "app_start a \<longleftrightarrow> (\<exists>path b. br_ok b \<and> inviteTokenFromPath path \<noteq> Some [] \<and> app_init path b = Some a)"

lemmas storage_ops = get_item_def set_item_def remove_item_def

lemma readPendingInvite_ok:
  "br_ok b \<Longrightarrow> readPendingInvite path b =
     (if inviteTokenFromPath path \<noteq> None \<and> inviteTokenFromPath path \<noteq> Some []
      then (inviteTokenFromPath path, b\<lparr>br_local := jm_set INVITE_KEY (the (inviteTokenFromPath path)) (br_local b)\<rparr>)
      else (jm_get (br_local b) INVITE_KEY, b))"
  by (simp add: readPendingInvite_def storage_ops Let_def)

lemma handlers_ok:
  "br_ok (ap_browser a) \<Longrightarrow> handleLogin t e a = a\<lparr>ap_browser := ap_browser a
     \<lparr>br_local := jm_set EMAIL_KEY e (jm_set TOKEN_KEY t (br_local (ap_browser a)))\<rparr>, ap_token := Some t\<rparr>"
  "br_ok (ap_browser a) \<Longrightarrow> handleLogout a = a\<lparr>ap_browser := ap_browser a
     \<lparr>br_local := jm_del WORKSPACE_KEY (jm_del EMAIL_KEY (jm_del TOKEN_KEY (br_local (ap_browser a))))\<rparr>, ap_token := None\<rparr>"
  "br_ok (ap_browser a) \<Longrightarrow> leaveInvite a = a\<lparr>ap_browser := ap_browser a
     \<lparr>br_local := jm_del INVITE_KEY (br_local (ap_browser a))\<rparr>, ap_invite := None\<rparr>"
  "br_ok (ap_browser a) \<Longrightarrow> handleInviteAccepted w a = a\<lparr>ap_browser := ap_browser a
     \<lparr>br_local := jm_del INVITE_KEY (jm_set VIEW_KEY ''overview'' (jm_set WORKSPACE_KEY w (br_local (ap_browser a))))\<rparr>, ap_invite := None\<rparr>"
  by (simp_all add: handleLogin_def storeSession_def handleLogout_def leaveInvite_def clearPendingInvite_def
      handleInviteAccepted_def storage_ops)

lemma renewed_ok:
  "br_ok (ap_browser a) \<Longrightarrow>
     handleSessionRenewed t a = handleLogin t (nullish (jm_get (br_local (ap_browser a)) EMAIL_KEY) []) a"
  by (simp add: handleSessionRenewed_def storage_ops)

interpretation app_sys: invariant_system app_start app_step synced
proof
  show "app_start a \<Longrightarrow> synced a" for a
    by (auto simp: app_start_def app_init_def readInitialToken_def storage_ops readPendingInvite_ok synced_def
        split: if_splits)
  show "synced a \<Longrightarrow> app_step a a' \<Longrightarrow> synced a'" for a a'
    by (erule app_stepE) (auto simp: synced_def handlers_ok renewed_ok handleError_def)
qed

subsection \<open>The abstract session\<close>

text \<open>What the application promises: nobody or somebody is signed in, and an invite may be pending.\<close>

datatype abs_session = SignedOut | SignedIn string string

definition abs_app :: "app \<Rightarrow> abs_session \<times> string option" where
  "abs_app a =
     (case ap_token a of
        None \<Rightarrow> SignedOut
      | Some t \<Rightarrow> SignedIn t (nullish (jm_get (br_local (ap_browser a)) EMAIL_KEY) []),
      ap_invite a)"

subsection \<open>Properties\<close>

text \<open>C1. The handlers of the root component implement the abstract session: a login signs in with the given
  token and address, a logout or a \<open>401\<close> signs out, a renewed token keeps the address, and accepting or leaving
  an invite ends it without touching the session.\<close>

theorem session_refinement:
  assumes "br_ok (ap_browser a)"
  shows "abs_app (handleLogin t e a) = (SignedIn t e, snd (abs_app a)) \<and>
    abs_app (handleLogout a) = (SignedOut, snd (abs_app a)) \<and>
    (fst (abs_app a) = SignedIn t' e' \<longrightarrow> abs_app (handleSessionRenewed t a) = (SignedIn t e', snd (abs_app a))) \<and>
    abs_app (handleInviteAccepted w a) = (fst (abs_app a), None) \<and>
    abs_app (leaveInvite a) = (fst (abs_app a), None) \<and>
    abs_app (handleError err a) = (if isUnauthorized err then (SignedOut, snd (abs_app a)) else abs_app a)"
  using assms by (auto simp: abs_app_def handlers_ok renewed_ok handleError_def split: option.splits)

definition fresh_browser :: browser where
  "fresh_browser = \<lparr>br_local = [], br_session = [], br_ok = True\<rparr>"

definition fresh_app :: app where
  "fresh_app = \<lparr>ap_token = None, ap_invite = None, ap_browser = fresh_browser\<rparr>"

theorem session_refinement_witness:
  "abs_app (handleSessionRenewed ''t2'' (handleLogin ''t1'' ''a@b'' fresh_app)) = (SignedIn ''t2'' ''a@b'', None)"
proof -
  have "br_ok (ap_browser (handleLogin ''t1'' ''a@b'' fresh_app))" "br_ok (ap_browser fresh_app)"
    by (simp_all add: fresh_app_def fresh_browser_def handleLogin_def storeSession_def storage_ops)
  moreover have "fst (abs_app (handleLogin ''t1'' ''a@b'' fresh_app)) = SignedIn ''t1'' ''a@b''"
    "snd (abs_app (handleLogin ''t1'' ''a@b'' fresh_app)) = None"
    by (simp_all add: session_refinement [OF calculation(2)]) (simp add: abs_app_def fresh_app_def)
  ultimately show ?thesis
    using session_refinement [of "handleLogin ''t1'' ''a@b'' fresh_app" _ _ "''t1''" "''a@b''"] by simp
qed

text \<open>C2. In every state the application can reach, reloading the page at an ordinary path restores it: the
  token and the pending invite in memory are those of the storage.\<close>

theorem session_survives_reload:
  assumes "reach app_start app_step a" "inviteTokenFromPath path = None"
  shows "app_init path (ap_browser a) = Some a"
proof -
  have "synced a" using assms (1) by (rule app_sys.reach_inv)
  then show ?thesis
    using assms (2) by (simp add: synced_def app_init_def readInitialToken_def storage_ops readPendingInvite_ok)
qed

lemma fresh_reach: "reach app_start app_step fresh_app"
  by (rule reach_init)
    (auto simp: app_start_def app_init_def readInitialToken_def storage_ops readPendingInvite_def fresh_app_def
      fresh_browser_def inviteTokenFromPath_def intro!: exI [of _ "''/''"] exI [of _ fresh_browser])

theorem session_survives_reload_witness:
  "app_init ''/usage'' (ap_browser (handleLogin ''t'' ''e'' fresh_app)) = Some (handleLogin ''t'' ''e'' fresh_app)"
  by (rule session_survives_reload [OF reach_step [OF fresh_reach step_login]]) (simp add: inviteTokenFromPath_def)

text \<open>C3. The dashboard is shown only to a signed-in visitor without a pending invite, with the stored token;
  a logout leaves neither token, address nor workspace behind and shows no screen of a session.\<close>

theorem dashboard_needs_session:
  assumes "reach app_start app_step a"
  shows "(app_screen matches ext path a = DashboardScreen t \<longrightarrow>
      t \<noteq> [] \<and> jm_get (br_local (ap_browser a)) TOKEN_KEY = Some t \<and> \<not> truthy_str (ap_invite a)) \<and>
    list_all (\<lambda>k. jm_get (br_local (ap_browser (handleLogout a))) k = None) [TOKEN_KEY, EMAIL_KEY, WORKSPACE_KEY] \<and>
    (\<forall>i t' e. app_screen matches ext path (handleLogout a) \<notin> {DashboardScreen t, InviteSession i t' e})"
proof -
  have "synced a" using assms by (rule app_sys.reach_inv)
  then show ?thesis
    by (auto simp: synced_def app_screen_def truthy_str_def handlers_ok split: option.splits)
qed

theorem dashboard_needs_session_witness:
  "app_screen (=) EMPTY_EXTENSIONS ''/'' (handleLogout (handleLogin ''t'' ''e'' fresh_app)) \<noteq> DashboardScreen ''t''"
  using dashboard_needs_session [OF reach_step [OF fresh_reach step_login]] by blast

text \<open>The link of an invite leads back to its token: the path of \<open>inviteLink\<close> is recognised, with or without a
  trailing slash, and yields the token it was made from.\<close>

theorem inviteLink_roundtrip:
  assumes "token \<noteq> []" "valid_utf8 token"
  shows "inviteLink token origin = origin @ path \<longrightarrow>
    inviteTokenFromPath path = Some token \<and> inviteTokenFromPath (path @ ''/'') = Some token"
proof
  assume "inviteLink token origin = origin @ path"
  then have path: "path = ''/invite/'' @ encodeURIComponent token" by (simp add: inviteLink_def)
  have "encodeURIComponent token \<noteq> []" "CHR ''/'' \<notin> set (encodeURIComponent token)"
    using assms uri.enc_no_slash uri.enc_empty by auto
  moreover from this have "last (encodeURIComponent token) \<noteq> CHR ''/''" by (metis last_in_set)
  ultimately show "inviteTokenFromPath path = Some token \<and> inviteTokenFromPath (path @ ''/'') = Some token"
    using decode_encode [OF assms (2)] by (simp add: inviteTokenFromPath_def path)
qed

theorem inviteLink_roundtrip_witness: "inviteTokenFromPath ''/invite/a%2Fb'' = Some ''a/b''"
proof -
  have "inviteLink ''a/b'' ''https://x'' = ''https://x'' @ ''/invite/a%2Fb''" by code_simp
  then show ?thesis using inviteLink_roundtrip [of "''a/b''" "''https://x''" "''/invite/a%2Fb''"]
    by (simp add: valid_utf8_ascii)
qed

text \<open>C25. The retry rule stops the query library: of a query, let \<open>os\<close> be the outcomes of its requests in the order the library sends
  them, asking the rule after each failure with the number of failures before it, and sending another request exactly when
  it says so. Then a request that succeeds or finds the session expired is the only one, and any other failure is followed by
  one more request and no third.\<close>

theorem query_attempts_bounded:
  assumes "os \<noteq> []" "\<And>i. Suc i < length os \<Longrightarrow> \<exists>e. os ! i = Inl e \<and> query_retry i e"
    and "\<And>e. last os = Inl e \<Longrightarrow> \<not> query_retry (length os - 1) e"
  shows "length os = (case hd os of Inr v \<Rightarrow> 1 | Inl e \<Rightarrow> if isUnauthorized e then 1 else 2)"
proof (cases os)
  case (Cons x xs)
  show ?thesis
  proof (cases xs)
    case Nil
    then show ?thesis using Cons assms(3) by (auto simp: query_retry_def split: sum.split if_splits)
  next
    fix y ys
    assume xs: "xs = y # ys"
    then have "ys = []" using assms(2) [of 1] Cons by (cases ys) (auto simp: query_retry_def split: if_splits)
    then show ?thesis using assms(2) [of 0] Cons xs by (auto simp: query_retry_def split: if_splits)
  qed
qed (use assms(1) in simp)

theorem query_attempts_bounded_witness:
  "length [Inl (NetworkError ''offline''), Inr (1 :: nat)] = (2 :: nat)"
proof -
  let ?os = "[Inl (NetworkError ''offline''), Inr (1 :: nat)]"
  have "length ?os = (case hd ?os of Inr v \<Rightarrow> 1 | Inl e \<Rightarrow> if isUnauthorized e then 1 else 2)"
  proof (rule query_attempts_bounded)
    fix i
    assume "Suc i < length ?os"
    then have "i = 0" by simp
    then show "\<exists>e. ?os ! i = Inl e \<and> query_retry i e" by (simp add: query_retry_def)
  qed simp_all
  then show ?thesis by simp
qed



end
