(* ===== verification/Query_Hooks.thy ===== *)
theory Query_Hooks
  imports Session
begin

text \<open>
  The data hooks of the dashboard: for each the key its result is cached under, the request it sends
  and whether it runs (\<open>useMetrics.ts\<close>, \<open>useUsage.ts\<close>, \<open>useClientDetail.ts\<close>, \<open>useWorkflowDetail.ts\<close>, \<open>useWorkflows.ts\<close>,
  \<open>useTrace.ts\<close>, \<open>useWorkspaces.ts\<close>, \<open>useApiKeys.ts\<close>, \<open>SettingsPage.tsx\<close>). The cache itself is the query library's; the locale
  \<open>keyed_requests\<close> states what makes sharing it safe, and is interpreted for the hooks.
\<close>

subsection \<open>Queries\<close>

record query =
  q_key :: "string option list"
  q_request :: http_request
  q_enabled :: bool
  q_staleTime :: int
  q_refetch :: "int option"

definition plain_query :: "string option list \<Rightarrow> http_request \<Rightarrow> bool \<Rightarrow> query" where
  "plain_query key req enabled =
     \<lparr>q_key = key, q_request = req, q_enabled = enabled, q_staleTime = 30000, q_refetch = None\<rparr>"

definition no_filter :: TraceFilter where
  "no_filter = \<lparr>tf_user_id = None, tf_model = None, tf_workflow = None, tf_version = None, tf_range = None,
     tf_has_error = None, tf_start_after = None, tf_start_before = None, tf_page = None, tf_page_size = None\<rparr>"

text \<open>What a page reads of a query.\<close>

record 'a fetched =
  fe_data :: "'a option"
  fe_isLoading :: bool
  fe_isError :: bool
  fe_isSuccess :: bool
  fe_dataUpdatedAt :: int

subsection \<open>Overview (useMetrics.ts)\<close>

definition useKpis :: "APIClientConfig \<Rightarrow> string \<Rightarrow> query" where
  "useKpis c rng =
     plain_query [Some ''overview'', Some ''kpis'', cfg_workspaceId c, Some rng] (getKpis c rng None) True"

definition useCostSeries :: "APIClientConfig \<Rightarrow> string \<Rightarrow> query" where
  "useCostSeries c rng =
     plain_query [Some ''overview'', Some ''cost-series'', cfg_workspaceId c, Some rng] (getCostSeries c rng None None None) True"

definition useLatencySeries :: "APIClientConfig \<Rightarrow> string \<Rightarrow> query" where
  "useLatencySeries c rng =
     plain_query [Some ''overview'', Some ''latency-series'', cfg_workspaceId c, Some rng] (getLatencySeries c rng None None) True"

definition useErrorSeries :: "APIClientConfig \<Rightarrow> string \<Rightarrow> query" where
  "useErrorSeries c rng =
     plain_query [Some ''overview'', Some ''error-series'', cfg_workspaceId c, Some rng] (getErrorSeries c rng None None None) True"

definition useTopWorkflows :: "APIClientConfig \<Rightarrow> string \<Rightarrow> query" where
  "useTopWorkflows c rng =
     plain_query [Some ''overview'', Some ''top-workflows'', cfg_workspaceId c, Some rng] (getTopWorkflows c rng) True"

definition useFailures :: "APIClientConfig \<Rightarrow> string \<Rightarrow> query" where
  "useFailures c rng =
     plain_query [Some ''overview'', Some ''failures'', cfg_workspaceId c, Some rng] (getFailures c rng) True"

definition useAnomalies :: "APIClientConfig \<Rightarrow> string \<Rightarrow> query" where
  "useAnomalies c rng =
     plain_query [Some ''overview'', Some ''anomalies'', cfg_workspaceId c, Some rng] (getAnomalies c rng None None) (rng \<noteq> ''24h'')"

definition useSetupChecks :: "APIClientConfig \<Rightarrow> query" where
  "useSetupChecks c =
     plain_query [Some ''overview'', Some ''setup-checks'', cfg_workspaceId c] (getSetupChecks c ''24h'') True"

definition useRecentActivity :: "APIClientConfig \<Rightarrow> query" where
  "useRecentActivity c =
     plain_query [Some ''overview'', Some ''recent-activity'', cfg_workspaceId c]
       (listTraces c (no_filter\<lparr>tf_page_size := Some 15\<rparr>)) True \<lparr>q_refetch := Some 5000\<rparr>"

subsection \<open>Usage and clients (useUsage.ts, useClientDetail.ts)\<close>

definition useModelCosts :: "APIClientConfig \<Rightarrow> string \<Rightarrow> query" where
  "useModelCosts c rng =
     plain_query [Some ''usage'', Some ''model-costs'', cfg_workspaceId c, Some rng] (getModelCosts c rng None) True"

definition useTokenSeries :: "APIClientConfig \<Rightarrow> string \<Rightarrow> query" where
  "useTokenSeries c rng =
     plain_query [Some ''usage'', Some ''token-series'', cfg_workspaceId c, Some rng] (getTokenSeries c rng None None None) True"

definition useUserUsage :: "APIClientConfig \<Rightarrow> string \<Rightarrow> query" where
  "useUserUsage c rng =
     plain_query [Some ''usage'', Some ''users'', cfg_workspaceId c, Some rng] (getUserUsage c rng None) True"

definition useWorkflowUsage :: "APIClientConfig \<Rightarrow> string \<Rightarrow> query" where
  "useWorkflowUsage c rng =
     plain_query [Some ''usage'', Some ''workflows'', cfg_workspaceId c, Some rng] (getWorkflowUsage c rng None) True"

definition useAttributeKeys :: "APIClientConfig \<Rightarrow> string \<Rightarrow> bool \<Rightarrow> query" where
  "useAttributeKeys c rng enabled =
     plain_query [Some ''usage'', Some ''attribute-keys'', cfg_workspaceId c, Some rng] (getAttributeKeys c rng) enabled"

definition useAttributeUsage :: "APIClientConfig \<Rightarrow> string \<Rightarrow> string \<Rightarrow> query" where
  "useAttributeUsage c rng key =
     plain_query [Some ''usage'', Some ''attribute-usage'', cfg_workspaceId c, Some rng, Some key] (getUsageByAttribute c rng key) (key \<noteq> [])"

definition CLIENT_TRACES_PAGE_SIZE :: int where
  [data_defs]: "CLIENT_TRACES_PAGE_SIZE = 15"

definition useClientKpis :: "APIClientConfig \<Rightarrow> string \<Rightarrow> string \<Rightarrow> query" where
  "useClientKpis c userId rng =
     plain_query [Some ''clients'', Some ''kpis'', cfg_workspaceId c, Some userId, Some rng] (getKpis c rng (Some userId)) (userId \<noteq> [])"

definition useClientCostSeries :: "APIClientConfig \<Rightarrow> string \<Rightarrow> string \<Rightarrow> query" where
  "useClientCostSeries c userId rng =
     plain_query [Some ''clients'', Some ''cost-series'', cfg_workspaceId c, Some userId, Some rng] (getCostSeries c rng None (Some userId) None) (userId \<noteq> [])"

definition useClientErrorSeries :: "APIClientConfig \<Rightarrow> string \<Rightarrow> string \<Rightarrow> query" where
  "useClientErrorSeries c userId rng =
     plain_query [Some ''clients'', Some ''error-series'', cfg_workspaceId c, Some userId, Some rng] (getErrorSeries c rng None (Some userId) None) (userId \<noteq> [])"

definition useClientModelCosts :: "APIClientConfig \<Rightarrow> string \<Rightarrow> string \<Rightarrow> query" where
  "useClientModelCosts c userId rng =
     plain_query [Some ''clients'', Some ''model-costs'', cfg_workspaceId c, Some userId, Some rng] (getModelCosts c rng (Some userId)) (userId \<noteq> [])"

definition useClientWorkflowUsage :: "APIClientConfig \<Rightarrow> string \<Rightarrow> string \<Rightarrow> query" where
  "useClientWorkflowUsage c userId rng =
     plain_query [Some ''clients'', Some ''workflows'', cfg_workspaceId c, Some userId, Some rng] (getWorkflowUsage c rng (Some userId)) (userId \<noteq> [])"

definition useClientTraces :: "APIClientConfig \<Rightarrow> string \<Rightarrow> string \<Rightarrow> query" where
  "useClientTraces c userId rng =
     plain_query [Some ''clients'', Some ''traces'', cfg_workspaceId c, Some userId, Some rng] (listTraces c (no_filter\<lparr>tf_user_id := Some userId, tf_range := Some rng, tf_page_size := Some CLIENT_TRACES_PAGE_SIZE\<rparr>)) (userId \<noteq> [])"

subsection \<open>Workflows (useWorkflows.ts, useWorkflowDetail.ts)\<close>

definition WORKFLOWS_REFRESH_MS :: int where
  [data_defs]: "WORKFLOWS_REFRESH_MS = 60000"

definition DETAIL_REFRESH_MS :: int where
  [data_defs]: "DETAIL_REFRESH_MS = 60000"

definition WORKFLOW_RUNS_PAGE_SIZE :: int where
  [data_defs]: "WORKFLOW_RUNS_PAGE_SIZE = 10"

definition detail_query :: "string option list \<Rightarrow> http_request \<Rightarrow> bool \<Rightarrow> query" where
  "detail_query key req enabled =
     \<lparr>q_key = key, q_request = req, q_enabled = enabled, q_staleTime = DETAIL_REFRESH_MS, q_refetch = Some DETAIL_REFRESH_MS\<rparr>"

text \<open>The previous result stays on screen while a new one loads only if it is of the same workflow and
  workspace.\<close>

definition detail_placeholder :: "string option \<Rightarrow> string \<Rightarrow> ('d \<times> string option list) option \<Rightarrow> 'd option" where
  "detail_placeholder workspaceId name previous =
     (case previous of
        None \<Rightarrow> None
      | Some (d, key) \<Rightarrow>
          if 3 < length key \<and> key ! 2 = workspaceId \<and> key ! 3 = Some name then Some d else None)"

definition useWorkflows :: "APIClientConfig \<Rightarrow> string \<Rightarrow> query" where
  "useWorkflows c rng =
     plain_query [Some ''workflows'', Some ''list'', cfg_workspaceId c, Some rng] (getWorkflows c rng) True
       \<lparr>q_staleTime := WORKFLOWS_REFRESH_MS, q_refetch := Some WORKFLOWS_REFRESH_MS\<rparr>"

definition useWorkflowDetail :: "APIClientConfig \<Rightarrow> string \<Rightarrow> string \<Rightarrow> query" where
  "useWorkflowDetail c name rng =
     detail_query [Some ''workflows'', Some ''detail'', cfg_workspaceId c, Some name, Some rng] (getWorkflowDetail c name rng) True"

definition useWorkflowVersions :: "APIClientConfig \<Rightarrow> string \<Rightarrow> string \<Rightarrow> query" where
  "useWorkflowVersions c name rng =
     detail_query [Some ''workflows'', Some ''versions'', cfg_workspaceId c, Some name, Some rng] (getWorkflowVersions c name rng) True"

definition useWorkflowTokenSeries :: "APIClientConfig \<Rightarrow> string \<Rightarrow> string \<Rightarrow> bool \<Rightarrow> string option \<Rightarrow> query" where
  "useWorkflowTokenSeries c name rng enabled version =
     detail_query [Some ''workflows'', Some ''token-series'', cfg_workspaceId c, Some name, Some rng, version] (getTokenSeries c rng None (Some name) version) enabled"

definition useWorkflowCostSeries :: "APIClientConfig \<Rightarrow> string \<Rightarrow> string \<Rightarrow> bool \<Rightarrow> string option \<Rightarrow> query" where
  "useWorkflowCostSeries c name rng enabled version =
     detail_query [Some ''workflows'', Some ''cost-series'', cfg_workspaceId c, Some name, Some rng, version] (getCostSeries c rng (Some name) None version) enabled"

definition useWorkflowLatencySeries :: "APIClientConfig \<Rightarrow> string \<Rightarrow> string \<Rightarrow> bool \<Rightarrow> string option \<Rightarrow> query" where
  "useWorkflowLatencySeries c name rng enabled version =
     detail_query [Some ''workflows'', Some ''latency-series'', cfg_workspaceId c, Some name, Some rng, version] (getLatencySeries c rng (Some name) version) enabled"

definition useWorkflowErrorSeries :: "APIClientConfig \<Rightarrow> string \<Rightarrow> string \<Rightarrow> bool \<Rightarrow> string option \<Rightarrow> query" where
  "useWorkflowErrorSeries c name rng enabled version =
     detail_query [Some ''workflows'', Some ''error-series'', cfg_workspaceId c, Some name, Some rng, version] (getErrorSeries c rng (Some name) None version) enabled"

definition useWorkflowRuns :: "APIClientConfig \<Rightarrow> string \<Rightarrow> string \<Rightarrow> bool \<Rightarrow> string option \<Rightarrow> query" where
  "useWorkflowRuns c name rng enabled version =
     detail_query [Some ''workflows'', Some ''runs'', cfg_workspaceId c, Some name, Some rng, version] (listTraces c (no_filter\<lparr>tf_workflow := Some name, tf_version := version, tf_range := Some rng, tf_page_size := Some WORKFLOW_RUNS_PAGE_SIZE\<rparr>)) enabled"

subsection \<open>Traces, workspaces and keys\<close>

definition useTrace :: "APIClientConfig \<Rightarrow> string \<Rightarrow> query" where
  "useTrace c tid = plain_query [Some ''trace'', cfg_workspaceId c, Some tid] (getTrace c tid) (tid \<noteq> [])"

definition useWorkspaces :: "APIClientConfig \<Rightarrow> bool \<Rightarrow> query" where
  "useWorkspaces c enabled =
     plain_query [Some ''workspaces''] (workspaces_list c) enabled \<lparr>q_staleTime := 60000\<rparr>"

text \<open>What the mutations of \<open>useWorkspaces\<close> do to the cached list once the server has answered.\<close>

definition created_workspace :: "Workspace \<Rightarrow> Workspace list option \<Rightarrow> Workspace list" where
  "created_workspace w prev = nullish prev [] @ [w]"

definition deleted_workspace :: "string \<Rightarrow> Workspace list option \<Rightarrow> Workspace list" where
  "deleted_workspace i prev = filter (\<lambda>w. wk_id w \<noteq> i) (nullish prev [])"

definition keysKey :: "string option \<Rightarrow> string option list" where
  "keysKey workspaceId = [Some ''api-keys'', workspaceId]"

definition useApiKeys :: "APIClientConfig \<Rightarrow> string option \<Rightarrow> query" where
  "useApiKeys c workspaceId =
     plain_query (keysKey workspaceId) (keys_list c (nullish workspaceId [])) (workspaceId \<noteq> None \<and> workspaceId \<noteq> Some [])"

text \<open>Creating and revoking keys refetches the list of their workspace: the queries they invalidate.\<close>

definition keys_invalidated :: "string option \<Rightarrow> string option list \<Rightarrow> bool" where
  "keys_invalidated workspaceId key \<longleftrightarrow> take 2 key = keysKey workspaceId"

text \<open>The queries of the members' section of the settings (\<open>SettingsPage.tsx\<close>).\<close>

definition isOwner :: "(string \<Rightarrow> string) \<Rightarrow> Workspace \<Rightarrow> bool" where
  "isOwner lower ws \<longleftrightarrow> lower (wk_role ws) = ''owner''"

definition members_query :: "APIClientConfig \<Rightarrow> Workspace \<Rightarrow> query" where
  "members_query c ws = plain_query [Some ''workspace-members'', Some (wk_id ws)] (workspaces_members c (wk_id ws)) True"

definition invites_query :: "(string \<Rightarrow> string) \<Rightarrow> APIClientConfig \<Rightarrow> Workspace \<Rightarrow> query" where
  "invites_query lower c ws =
     plain_query [Some ''workspace-invites'', Some (wk_id ws)] (workspaces_invites c (wk_id ws)) (isOwner lower ws)"

subsection \<open>Sharing a cache\<close>

text \<open>
  Results are cached by key and shared by everything that asks with the same key. That is safe when the
  key alone determines the request, or what of the request matters (\<open>essence\<close>).
\<close>

locale keyed_requests =
  fixes queries :: "'q set" and key :: "'q \<Rightarrow> 'k" and req :: "'q \<Rightarrow> 'r" and essence :: "'q \<Rightarrow> 'e" and dec :: "'k \<Rightarrow> 'e option"
  assumes dec_key: "q \<in> queries \<Longrightarrow> dec (key q) = Some (essence q)"
begin

lemma key_determines: "q \<in> queries \<Longrightarrow> p \<in> queries \<Longrightarrow> key q = key p \<Longrightarrow> essence q = essence p"
  using dec_key [of q] dec_key [of p] by simp

text \<open>A cache filled by running queries against a server: the entry of a query's key is the server's answer to a
  request that is the query's own in all that matters.\<close>

lemma cache_sound:
  assumes "set qs \<subseteq> queries" "q \<in> queries"
    and "jm_get (foldl (\<lambda>m p. jm_set (key p) (serve (req p)) m) [] qs) (key q) = Some d"
  shows "\<exists>p\<in>set qs. d = serve (req p) \<and> key p = key q \<and> essence p = essence q"
proof -
  have "jm_get (foldl (\<lambda>m p. jm_set (key p) (serve (req p)) m) m qs) k = Some d \<Longrightarrow>
      jm_get m k = Some d \<or> (\<exists>p\<in>set qs. key p = k \<and> d = serve (req p))" for m k
    by (induction qs arbitrary: m) (fastforce split: if_splits)+
  from this [OF assms (3)] obtain p where "p \<in> set qs" "key p = key q" "d = serve (req p)" by auto
  with assms (1,2) key_determines show ?thesis by (metis subsetD)
qed

end

text \<open>All queries a dashboard with one session can hold, in every workspace. The workspace of the page may be another one than that of
  the clients, which follow it only after the render.\<close>

inductive dash_query :: "APIClientConfig \<Rightarrow> query \<Rightarrow> bool" for c :: APIClientConfig where
  "dash_query c (useKpis (c\<lparr>cfg_workspaceId := w\<rparr>) rng)"
| "dash_query c (useCostSeries (c\<lparr>cfg_workspaceId := w\<rparr>) rng)"
| "dash_query c (useLatencySeries (c\<lparr>cfg_workspaceId := w\<rparr>) rng)"
| "dash_query c (useErrorSeries (c\<lparr>cfg_workspaceId := w\<rparr>) rng)"
| "dash_query c (useTopWorkflows (c\<lparr>cfg_workspaceId := w\<rparr>) rng)"
| "dash_query c (useFailures (c\<lparr>cfg_workspaceId := w\<rparr>) rng)"
| "dash_query c (useAnomalies (c\<lparr>cfg_workspaceId := w\<rparr>) rng)"
| "dash_query c (useSetupChecks (c\<lparr>cfg_workspaceId := w\<rparr>))"
| "dash_query c (useModelCosts (c\<lparr>cfg_workspaceId := w\<rparr>) rng)"
| "dash_query c (useTokenSeries (c\<lparr>cfg_workspaceId := w\<rparr>) rng)"
| "dash_query c (useUserUsage (c\<lparr>cfg_workspaceId := w\<rparr>) rng)"
| "dash_query c (useWorkflowUsage (c\<lparr>cfg_workspaceId := w\<rparr>) rng)"
| "dash_query c (useAttributeKeys (c\<lparr>cfg_workspaceId := w\<rparr>) rng enabled)"
| "dash_query c (useAttributeUsage (c\<lparr>cfg_workspaceId := w\<rparr>) rng key)"
| "dash_query c (useClientKpis (c\<lparr>cfg_workspaceId := w\<rparr>) userId rng)"
| "dash_query c (useClientCostSeries (c\<lparr>cfg_workspaceId := w\<rparr>) userId rng)"
| "dash_query c (useClientErrorSeries (c\<lparr>cfg_workspaceId := w\<rparr>) userId rng)"
| "dash_query c (useClientModelCosts (c\<lparr>cfg_workspaceId := w\<rparr>) userId rng)"
| "dash_query c (useClientWorkflowUsage (c\<lparr>cfg_workspaceId := w\<rparr>) userId rng)"
| "dash_query c (useClientTraces (c\<lparr>cfg_workspaceId := w\<rparr>) userId rng)"
| "dash_query c (useWorkflowDetail (c\<lparr>cfg_workspaceId := w\<rparr>) name rng)"
| "dash_query c (useWorkflowVersions (c\<lparr>cfg_workspaceId := w\<rparr>) name rng)"
| "dash_query c (useWorkflowTokenSeries (c\<lparr>cfg_workspaceId := w\<rparr>) name rng enabled version)"
| "dash_query c (useWorkflowCostSeries (c\<lparr>cfg_workspaceId := w\<rparr>) name rng enabled version)"
| "dash_query c (useWorkflowLatencySeries (c\<lparr>cfg_workspaceId := w\<rparr>) name rng enabled version)"
| "dash_query c (useWorkflowErrorSeries (c\<lparr>cfg_workspaceId := w\<rparr>) name rng enabled version)"
| "dash_query c (useWorkflowRuns (c\<lparr>cfg_workspaceId := w\<rparr>) name rng enabled version)"
| "dash_query c (useRecentActivity (c\<lparr>cfg_workspaceId := w\<rparr>))"
| "dash_query c (useWorkflows (c\<lparr>cfg_workspaceId := w\<rparr>) rng)"
| "dash_query c (useTrace (c\<lparr>cfg_workspaceId := w\<rparr>) tid)"
| "dash_query c (useApiKeys (c\<lparr>cfg_workspaceId := w\<rparr>) v)"
| "dash_query c (useWorkspaces (c\<lparr>cfg_workspaceId := w\<rparr>) enabled)"
| "dash_query c (members_query (c\<lparr>cfg_workspaceId := w\<rparr>) ws)"
| "dash_query c (invites_query lower (c\<lparr>cfg_workspaceId := w\<rparr>) ws)"

text \<open>The lists that are not scoped by the parameter \<open>workspace_id\<close>: that of the workspaces, and those whose path names their workspace. Of their
  requests all but this parameter matters.\<close>

definition unscoped_key :: "string option list \<Rightarrow> bool" where
  "unscoped_key k \<longleftrightarrow> hd k \<in> {Some ''workspaces'', Some ''api-keys'', Some ''workspace-members'', Some ''workspace-invites''}"

definition without_scope :: "http_request \<Rightarrow> http_request" where
  "without_scope r = r\<lparr>hr_query := jm_del ''workspace_id'' (hr_query r)\<rparr>"

definition query_essence :: "query \<Rightarrow> http_request" where
  "query_essence q = (if unscoped_key (q_key q) then without_scope (q_request q) else q_request q)"

lemma without_scope_get [simp]:
  "without_scope (client_get (c\<lparr>cfg_workspaceId := w\<rparr>) path []) = client_get (c\<lparr>cfg_workspaceId := None\<rparr>) path []"
  by (simp add: without_scope_def client_get_def query_of_def jm_has_def auth_headers_def timeout_of_def Let_def split: option.split)

text \<open>The request a key stands for, in all that matters.\<close>

definition key_request :: "APIClientConfig \<Rightarrow> string option list \<Rightarrow> http_request option" where
  "key_request base k =
     (let s = k ! 0; t = k ! 1; u = k ! 2 in
      if length k = 1 then Some (workspaces_list (base\<lparr>cfg_workspaceId := None\<rparr>))
      else if length k = 2 then
        (let c = base\<lparr>cfg_workspaceId := None\<rparr> in
         if s = Some ''api-keys'' then Some (keys_list c (nullish t []))
         else if s = Some ''workspace-members'' then Some (workspaces_members c (nullish t []))
         else Some (workspaces_invites c (nullish t [])))
      else if length k = 3 then
        (if s = Some ''trace'' then map_option (getTrace (base\<lparr>cfg_workspaceId := t\<rparr>)) u
         else if s = Some ''overview'' \<and> t = Some ''setup-checks'' then Some (getSetupChecks (base\<lparr>cfg_workspaceId := u\<rparr>) ''24h'')
         else if s = Some ''overview'' \<and> t = Some ''recent-activity''
           then Some (listTraces (base\<lparr>cfg_workspaceId := u\<rparr>) (no_filter\<lparr>tf_page_size := Some 15\<rparr>))
         else None)
      else (let c = base\<lparr>cfg_workspaceId := u\<rparr> in
          case drop 3 k of
            [Some rng] \<Rightarrow>
              if s = Some ''overview'' \<and> t = Some ''kpis'' then Some (getKpis c rng None)
              else if s = Some ''overview'' \<and> t = Some ''cost-series'' then Some (getCostSeries c rng None None None)
              else if s = Some ''overview'' \<and> t = Some ''latency-series'' then Some (getLatencySeries c rng None None)
              else if s = Some ''overview'' \<and> t = Some ''error-series'' then Some (getErrorSeries c rng None None None)
              else if s = Some ''overview'' \<and> t = Some ''top-workflows'' then Some (getTopWorkflows c rng)
              else if s = Some ''overview'' \<and> t = Some ''failures'' then Some (getFailures c rng)
              else if s = Some ''overview'' \<and> t = Some ''anomalies'' then Some (getAnomalies c rng None None)
              else if s = Some ''usage'' \<and> t = Some ''model-costs'' then Some (getModelCosts c rng None)
              else if s = Some ''usage'' \<and> t = Some ''token-series'' then Some (getTokenSeries c rng None None None)
              else if s = Some ''usage'' \<and> t = Some ''users'' then Some (getUserUsage c rng None)
              else if s = Some ''usage'' \<and> t = Some ''workflows'' then Some (getWorkflowUsage c rng None)
              else if s = Some ''usage'' \<and> t = Some ''attribute-keys'' then Some (getAttributeKeys c rng)
              else if s = Some ''workflows'' \<and> t = Some ''list'' then Some (getWorkflows c rng)
              else None
          | [Some a, Some b] \<Rightarrow>
              if s = Some ''usage'' \<and> t = Some ''attribute-usage'' then Some (getUsageByAttribute c a b)
              else if s = Some ''clients'' \<and> t = Some ''kpis'' then Some (getKpis c b (Some a))
              else if s = Some ''clients'' \<and> t = Some ''cost-series'' then Some (getCostSeries c b None (Some a) None)
              else if s = Some ''clients'' \<and> t = Some ''error-series'' then Some (getErrorSeries c b None (Some a) None)
              else if s = Some ''clients'' \<and> t = Some ''model-costs'' then Some (getModelCosts c b (Some a))
              else if s = Some ''clients'' \<and> t = Some ''workflows'' then Some (getWorkflowUsage c b (Some a))
              else if s = Some ''clients'' \<and> t = Some ''traces'' then Some (listTraces c (no_filter\<lparr>tf_user_id := Some a, tf_range := Some b, tf_page_size := Some CLIENT_TRACES_PAGE_SIZE\<rparr>))
              else if s = Some ''workflows'' \<and> t = Some ''detail'' then Some (getWorkflowDetail c a b)
              else if s = Some ''workflows'' \<and> t = Some ''versions'' then Some (getWorkflowVersions c a b)
              else None
          | [Some name, Some rng, version] \<Rightarrow>
              if s = Some ''workflows'' \<and> t = Some ''token-series'' then Some (getTokenSeries c rng None (Some name) version)
              else if s = Some ''workflows'' \<and> t = Some ''cost-series'' then Some (getCostSeries c rng (Some name) None version)
              else if s = Some ''workflows'' \<and> t = Some ''latency-series'' then Some (getLatencySeries c rng (Some name) version)
              else if s = Some ''workflows'' \<and> t = Some ''error-series'' then Some (getErrorSeries c rng (Some name) None version)
              else if s = Some ''workflows'' \<and> t = Some ''runs'' then Some (listTraces c (no_filter\<lparr>tf_workflow := Some name, tf_version := version, tf_range := Some rng, tf_page_size := Some WORKFLOW_RUNS_PAGE_SIZE\<rparr>))
              else None
          | _ \<Rightarrow> None))"

lemmas hook_defs = useKpis_def useCostSeries_def useLatencySeries_def useErrorSeries_def useTopWorkflows_def
  useFailures_def useAnomalies_def useSetupChecks_def useRecentActivity_def useModelCosts_def useTokenSeries_def
  useUserUsage_def useWorkflowUsage_def useAttributeKeys_def useAttributeUsage_def useClientKpis_def
  useClientCostSeries_def useClientErrorSeries_def useClientModelCosts_def useClientWorkflowUsage_def
  useClientTraces_def useWorkflows_def useWorkflowDetail_def useWorkflowVersions_def useWorkflowTokenSeries_def
  useWorkflowCostSeries_def useWorkflowLatencySeries_def useWorkflowErrorSeries_def useWorkflowRuns_def
  useTrace_def useWorkspaces_def useApiKeys_def members_query_def invites_query_def
  plain_query_def detail_query_def keysKey_def

lemma key_request_hook: "dash_query c q \<Longrightarrow> key_request c (q_key q) = Some (query_essence q)"
  by (induction rule: dash_query.induct)
    (simp_all add: hook_defs key_request_def query_essence_def unscoped_key_def workspaces_list_def keys_list_def
      workspaces_members_def workspaces_invites_def)

interpretation dash: keyed_requests "{q. dash_query c q}" q_key q_request query_essence "key_request c" for c
  by unfold_locales (simp add: key_request_hook)

subsection \<open>Properties\<close>

text \<open>C11. A cached answer is the answer to the request made: in one session, whatever queries filled the cache, in whatever workspaces,
  the entry under a query's key is the server's answer to that query's request. The exceptions are the list of the workspaces and the lists
  of the keys, members and invites of a workspace: for these the request answered may differ, in the parameter \<open>workspace_id\<close> only.\<close>

theorem query_cache_sound:
  assumes "\<forall>p \<in> set qs. dash_query c p" "dash_query c q"
    and "jm_get (foldl (\<lambda>m p. jm_set (q_key p) (serve (q_request p)) m) [] qs) (q_key q) = Some d"
  shows "\<exists>p\<in>set qs. d = serve (q_request p) \<and>
    (if hd (q_key q) \<in> {Some ''workspaces'', Some ''api-keys'', Some ''workspace-members'', Some ''workspace-invites''}
     then (q_request p)\<lparr>hr_query := jm_del ''workspace_id'' (hr_query (q_request p))\<rparr> =
       (q_request q)\<lparr>hr_query := jm_del ''workspace_id'' (hr_query (q_request q))\<rparr>
     else q_request p = q_request q)"
proof -
  obtain p where "p \<in> set qs" "d = serve (q_request p)" "q_key p = q_key q" "query_essence p = query_essence q"
    using dash.cache_sound [of qs c q serve d] assms by auto
  then show ?thesis by (intro bexI [of _ p]) (auto simp: query_essence_def unscoped_key_def without_scope_def)
qed

theorem query_cache_sound_witness:
  "jm_get (foldl (\<lambda>m p. jm_set (q_key p) (hr_query (q_request p)) m) []
      [useKpis (sample_client\<lparr>cfg_workspaceId := Some ''w1''\<rparr>) ''7d'', useKpis (sample_client\<lparr>cfg_workspaceId := Some ''w2''\<rparr>) ''7d''])
      (q_key (useKpis (sample_client\<lparr>cfg_workspaceId := Some ''w1''\<rparr>) ''7d''))
     = Some (hr_query (q_request (useKpis (sample_client\<lparr>cfg_workspaceId := Some ''w1''\<rparr>) ''7d'')))"
proof -
  let ?q = "\<lambda>w. useKpis (sample_client\<lparr>cfg_workspaceId := Some w\<rparr>) ''7d''"
  have dq: "dash_query sample_client (?q w)" for w by (rule dash_query.intros)
  have "\<exists>d. jm_get (foldl (\<lambda>m p. jm_set (q_key p) (hr_query (q_request p)) m) [] [?q ''w1'', ?q ''w2'']) (q_key (?q ''w1'')) = Some d"
    by simp
  then obtain d where d: "jm_get (foldl (\<lambda>m p. jm_set (q_key p) (hr_query (q_request p)) m) [] [?q ''w1'', ?q ''w2'']) (q_key (?q ''w1'')) = Some d" ..
  from query_cache_sound [OF _ dq this] dq have "d = hr_query (q_request (?q ''w1''))" by (auto simp: useKpis_def plain_query_def)
  with d show ?thesis by simp
qed

text \<open>While a workflow's data reloads, the page keeps showing the previous result only if that was of the
  same workflow in the same workspace; a range or version change keeps it.\<close>

theorem detail_placeholder_same_workflow:
  "detail_placeholder w name (Some (d, q_key (useWorkflowCostSeries c name' rng en v))) = Some d \<longleftrightarrow>
     cfg_workspaceId c = w \<and> name' = name"
  by (auto simp: detail_placeholder_def useWorkflowCostSeries_def detail_query_def)

text \<open>The list of workspaces is the one query whose key leaves out the workspace although its request
  carries it: after a switch the same key stands for a different request.\<close>

theorem workspaces_key_unscoped:
  "q_key (useWorkspaces (c\<lparr>cfg_workspaceId := Some ''a''\<rparr>) en) = q_key (useWorkspaces (c\<lparr>cfg_workspaceId := Some ''b''\<rparr>) en) \<and>
   q_request (useWorkspaces (c\<lparr>cfg_workspaceId := Some ''a''\<rparr>) en) \<noteq> q_request (useWorkspaces (c\<lparr>cfg_workspaceId := Some ''b''\<rparr>) en)"
  by (simp add: useWorkspaces_def plain_query_def workspaces_list_def client_get_def query_of_def jm_has_def Let_def)

text \<open>No query runs without the identifier it needs: an empty client, trace, attribute or workspace
  disables it, and anomalies are not requested for a day.\<close>

theorem queries_guarded:
  "\<not> q_enabled (useClientKpis c [] rng) \<and> \<not> q_enabled (useClientCostSeries c [] rng) \<and> \<not> q_enabled (useClientErrorSeries c [] rng) \<and>
   \<not> q_enabled (useClientModelCosts c [] rng) \<and> \<not> q_enabled (useClientWorkflowUsage c [] rng) \<and> \<not> q_enabled (useClientTraces c [] rng) \<and>
   \<not> q_enabled (useTrace c []) \<and> \<not> q_enabled (useAttributeUsage c rng []) \<and> \<not> q_enabled (useApiKeys c None) \<and>
   \<not> q_enabled (useApiKeys c (Some [])) \<and> (q_enabled (useAnomalies c rng) \<longleftrightarrow> rng \<noteq> ''24h'')"
  by (simp add: hook_defs)

end
