(* ===== verification/Ui_Hooks.thy ===== *)
theory Ui_Hooks
  imports Js_Text
begin

text \<open>
  The shared interaction helpers: the clipboard hook (\<open>common/hooks/useCopy.ts\<close>) as a state machine with
  its timer, the keyboard handler of modal dialogs (\<open>common/utils/dialog.ts\<close>), and the hooks on outside
  clicks, media queries and element sizes. Elements of the document are values of a type
  parameter; what the browser does by itself is stated where a property needs it.
\<close>

subsection \<open>Copying to the clipboard (useCopy.ts)\<close>

datatype CopyStatus = Idle | Copied | CopyFailed

record copy_state =
  cs_status :: CopyStatus
  cs_timer :: "int option"

text \<open>
  \<open>setStatus\<close> and the effect that follows it. A state equal to the current one does not re-render, so the
  effect of \<open>[status]\<close> does not run again; any other first clears the pending timer.
\<close>

definition set_copy_status :: "CopyStatus \<Rightarrow> int \<Rightarrow> copy_state \<Rightarrow> copy_state" where
  "set_copy_status v now st =
     (if v = cs_status st then st
      else \<lparr>cs_status = v, cs_timer = (if v \<noteq> Copied then None else Some (now + 2000))\<rparr>)"

definition copy_init :: copy_state where
  "copy_init = \<lparr>cs_status = Idle, cs_timer = None\<rparr>"

text \<open>The end of an attempt: the clipboard may be missing, and a write may be rejected.\<close>

definition copy :: "bool \<Rightarrow> bool \<Rightarrow> int \<Rightarrow> copy_state \<Rightarrow> copy_state" where
  "copy available writes now st =
     set_copy_status (if available \<and> writes then Copied else CopyFailed) now st"

definition copy_timer :: "int \<Rightarrow> copy_state \<Rightarrow> copy_state" where
  "copy_timer now st =
     (case cs_timer st of
        None \<Rightarrow> st
      | Some due \<Rightarrow> if due \<le> now then set_copy_status Idle now st else st)"

inductive copy_step :: "copy_state \<Rightarrow> copy_state \<Rightarrow> bool" where
  attempt: "copy_step st (copy available writes now st)"
| timeout: "copy_step st (copy_timer now st)"

inductive_cases copy_stepE: "copy_step st st'"

definition copy_inv :: "copy_state \<Rightarrow> bool" where
  "copy_inv st \<longleftrightarrow> (cs_timer st \<noteq> None \<longleftrightarrow> cs_status st = Copied)"

lemma set_copy_status_inv: "copy_inv st \<Longrightarrow> copy_inv (set_copy_status v now st)"
  by (auto simp: copy_inv_def set_copy_status_def)

interpretation copying: invariant_system "\<lambda>st. st = copy_init" copy_step copy_inv
proof
  show "s = copy_init \<Longrightarrow> copy_inv s" for s by (simp add: copy_inv_def copy_init_def)
  show "copy_inv s \<Longrightarrow> copy_step s t \<Longrightarrow> copy_inv t" for s t
    by (auto simp: copy_def copy_timer_def set_copy_status_inv elim!: copy_stepE split: option.splits)
qed

subsection \<open>Modal dialogs (dialog.ts)\<close>

datatype 'e key_effect = CloseDialog | FocusOn 'e | BrowserDefault

text \<open>The focusable elements of the container are listed in document order.\<close>

definition handleDialogKeyDown :: "string \<Rightarrow> bool \<Rightarrow> 'e list \<Rightarrow> 'e \<Rightarrow> 'e key_effect" where
  "handleDialogKeyDown key shift items active =
     (if key = ''Escape'' then CloseDialog
      else if key \<noteq> ''Tab'' then BrowserDefault
      else if items = [] then BrowserDefault
      else if shift \<and> active = hd items then FocusOn (last items)
      else if \<not> shift \<and> active = last items then FocusOn (hd items)
      else BrowserDefault)"

text \<open>Where focus is after a Tab: the handler's choice, or the browser's next element in document order.\<close>

definition tab_focus :: "bool \<Rightarrow> 'e list \<Rightarrow> nat \<Rightarrow> 'e option" where
  "tab_focus shift items i =
     (case handleDialogKeyDown ''Tab'' shift items (items ! i) of
        FocusOn e \<Rightarrow> Some e
      | CloseDialog \<Rightarrow> None
      | BrowserDefault \<Rightarrow>
          (let j = (if shift then int i - 1 else int i + 1) in
           if 0 \<le> j \<and> j < int (length items) then Some (items ! nat j) else None))"

subsection \<open>Other hooks\<close>

text \<open>Whether a press closes an open popover: outside of it, when it is mounted.\<close>

definition useClickOutside :: "('e \<Rightarrow> 'e \<Rightarrow> bool) \<Rightarrow> 'e option \<Rightarrow> bool \<Rightarrow> 'e \<Rightarrow> bool" where
  "useClickOutside contains ref opened target \<longleftrightarrow>
     opened \<and> (case ref of None \<Rightarrow> False | Some r \<Rightarrow> \<not> contains r target)"

definition BREAKPOINTS_mobile :: nat where
  [data_defs]: "BREAKPOINTS_mobile = 900"

definition BREAKPOINTS_tablet :: nat where
  [data_defs]: "BREAKPOINTS_tablet = 1100"

definition useMediaQuery :: "(string \<Rightarrow> bool) option \<Rightarrow> string \<Rightarrow> bool" where
  "useMediaQuery matchMedia query = (case matchMedia of None \<Rightarrow> False | Some m \<Rightarrow> m query)"

definition useMaxWidth :: "(string \<Rightarrow> bool) option \<Rightarrow> nat \<Rightarrow> bool" where
  "useMaxWidth matchMedia maxWidth = useMediaQuery matchMedia (''(max-width: '' @ nat_str maxWidth @ ''px)'')"

text \<open>The width after a list of observations: the last one, 600 before the first.\<close>

definition useResize :: "int list \<Rightarrow> int" where
  "useResize widths = foldl (\<lambda>_ e. e) 600 widths"

subsection \<open>Properties\<close>

text \<open>In every state the copy button can reach, a timer is pending exactly while it reads \<open>copied\<close>; the
  timer then returns it to idle, and a failure is shown until the next attempt.\<close>

theorem copy_status_clears:
  assumes "reach (\<lambda>st. st = copy_init) copy_step st"
  shows "(cs_timer st \<noteq> None \<longleftrightarrow> cs_status st = Copied) \<and>
    (\<forall>due now. cs_timer st = Some due \<and> due \<le> now \<longrightarrow> copy_timer now st = copy_init) \<and>
    (cs_status st = CopyFailed \<longrightarrow> copy_timer now st = st)"
proof -
  have "copy_inv st" using assms by (rule copying.reach_inv)
  then show ?thesis
    by (auto simp: copy_inv_def copy_timer_def set_copy_status_def copy_init_def split: option.splits)
qed

theorem copy_status_clears_witness:
  "copy_timer 2500 (copy True True 100 copy_init) = copy_init"
proof -
  have "reach (\<lambda>st. st = copy_init) copy_step (copy True True 100 copy_init)"
    by (rule reach_step, rule reach_init, rule refl, rule copy_step.attempt)
  from copy_status_clears [OF this] show ?thesis
    by (simp add: copy_def set_copy_status_def copy_init_def)
qed

text \<open>Tab cannot leave an open dialog: from its \<open>i\<close>-th focusable element focus moves to the next, from the
  last to the first, and backwards with Shift.\<close>

theorem dialog_focus_trap:
  assumes "distinct items" "i < length items"
  shows "tab_focus False items i = Some (items ! ((i + 1) mod length items)) \<and>
    tab_focus True items i = Some (items ! ((i + length items - 1) mod length items))"
proof -
  let ?n = "length items"
  have ne: "items \<noteq> []" using assms (2) by auto
  have last: "items ! i = last items \<longleftrightarrow> i = ?n - 1"
    using assms ne by (simp add: last_conv_nth nth_eq_iff_index_eq)
  have first: "items ! i = hd items \<longleftrightarrow> i = 0"
    using assms ne nth_eq_iff_index_eq [OF assms (1), of i 0] by (simp add: hd_conv_nth)
  have "tab_focus False items i = Some (items ! ((i + 1) mod ?n))"
  proof (cases "i = ?n - 1")
    case True
    then have "Suc i = ?n" using assms (2) by simp
    with True last ne show ?thesis by (simp add: tab_focus_def handleDialogKeyDown_def hd_conv_nth)
  next
    case False
    with assms (2) have "Suc i < ?n" by simp
    with False last ne show ?thesis by (simp add: tab_focus_def handleDialogKeyDown_def nat_add_distrib)
  qed
  moreover have "tab_focus True items i = Some (items ! ((i + ?n - 1) mod ?n))"
  proof (cases i)
    case 0
    with first ne show ?thesis by (simp add: tab_focus_def handleDialogKeyDown_def last_conv_nth)
  next
    case (Suc m)
    then have "(i + ?n - 1) mod ?n = m" using assms (2) by simp
    with Suc first ne assms (2) show ?thesis
      by (simp add: tab_focus_def handleDialogKeyDown_def Let_def)
  qed
  ultimately show ?thesis ..
qed

theorem dialog_focus_trap_witness: "tab_focus False [''a'', ''b''] 1 = Some ''a'' \<and> tab_focus True [''a'', ''b''] 0 = Some ''b''"
  using dialog_focus_trap [of "[''a'', ''b'']" 1] dialog_focus_trap [of "[''a'', ''b'']" 0] by simp

end
