(* ===== verification/Shell.thy ===== *)
theory Shell
  imports Query_Hooks Ui_Hooks
begin

text \<open>
  The shell of the dashboard: the navigation state and its mirror in the browser history
  (\<open>modules/shell/Dashboard/Dashboard.tsx\<close>), the workspace shown and the one requests are scoped to, the page a view
  renders, the command palette, the workspace switcher, the top bar and the sidebar.

  A handler runs and then the component renders once: \<open>commit\<close> is the effects of that render. An assignment to
  state marks what the history effect depends on as changed (\<open>db_dirty\<close>); as React compares by identity, a new
  selection object counts as a change even with the same entries.
\<close>

subsection \<open>Browser history\<close>

record hist_entry =
  he_state :: "NavState option"
  he_path :: string

record history =
  hi_past :: "hist_entry list"
  hi_now :: hist_entry
  hi_future :: "hist_entry list"

text \<open>The \<open>URL\<close> parser resolves dot segments of the path it is given.\<close>

definition pushState :: "NavState \<Rightarrow> string \<Rightarrow> history \<Rightarrow> history" where
  "pushState s path h =
     \<lparr>hi_past = hi_now h # hi_past h, hi_now = \<lparr>he_state = Some s, he_path = url_path path\<rparr>, hi_future = []\<rparr>"

definition replaceState :: "NavState \<Rightarrow> string \<Rightarrow> history \<Rightarrow> history" where
  "replaceState s path h = h\<lparr>hi_now := \<lparr>he_state = Some s, he_path = url_path path\<rparr>\<rparr>"

definition go_back :: "history \<Rightarrow> history option" where
  "go_back h =
     (case hi_past h of
        [] \<Rightarrow> None
      | e # es \<Rightarrow> Some \<lparr>hi_past = es, hi_now = e, hi_future = hi_now h # hi_future h\<rparr>)"

definition go_forward :: "history \<Rightarrow> history option" where
  "go_forward h =
     (case hi_future h of
        [] \<Rightarrow> None
      | e # es \<Rightarrow> Some \<lparr>hi_past = hi_now h # hi_past h, hi_now = e, hi_future = es\<rparr>)"

subsection \<open>State of the dashboard\<close>

record dash =
  db_embedded :: bool
  db_pages :: "ExtensionPage list"
  db_view :: ViewId
  db_range :: string
  db_selected :: selection
  db_workspaces :: "Workspace list"
  db_selectedWorkspaceId :: "string option"
  db_apiWorkspace :: "string option"
  db_cmdOpen :: bool
  db_navOpen :: bool
  db_createWsIntent :: bool
  db_histInit :: bool
  db_dirty :: bool
  db_history :: history
  db_browser :: browser

definition VIEWS_WITH_RANGE :: "ViewId list" where
  [data_defs]: "VIEWS_WITH_RANGE = [''overview'', ''workflows'', ''compare'', ''usage'', ''users'', ''user'']"

text \<open>Where the dashboard starts; \<open>None\<close> when reading the storage throws.\<close>

definition stored_view :: "ExtensionPage list \<Rightarrow> string option \<Rightarrow> NavState" where
  "stored_view pages stored =
     (case stored of
        None \<Rightarrow> nav ''overview'' []
      | Some v \<Rightarrow> nav (if v \<noteq> [] \<and> ((\<exists>p\<in>set pages. xp_id p = v) \<or> v \<in> set VIEW_IDS) then v else ''overview'') [])"

definition computeInitialNav :: "bool \<Rightarrow> ExtensionPage list \<Rightarrow> string \<Rightarrow> browser \<Rightarrow> NavState option" where
  "computeInitialNav persist pages pathname b =
     (if \<not> persist then Some (nav ''overview'' [])
      else case pathToState pathname pages of
        Some n \<Rightarrow> Some n
      | None \<Rightarrow>
          if \<not> br_ok b then None
          else case jm_get (br_session b) REDIRECT_KEY of
            Some r \<Rightarrow> (case (if r = [] then None else pathToState r pages) of
                Some n \<Rightarrow> Some n
              | None \<Rightarrow> Some (stored_view pages (jm_get (br_local b) VIEW_KEY)))
          | None \<Rightarrow> Some (stored_view pages (jm_get (br_local b) VIEW_KEY)))"

definition createDemoWorkspace :: "string \<Rightarrow> Workspace" where
  "createDemoWorkspace random36 = \<lparr>wk_id = ''demo-'' @ take 8 (drop 2 random36), wk_name = ''Demo'', wk_slug = ''demo'',
     wk_role = ''Owner'', wk_members = 1, wk_env = Production\<rparr>"

text \<open>The first render: an error of the extensions or of the storage is thrown.\<close>

definition dash_init ::
  "bool \<Rightarrow> DashboardExtensions \<Rightarrow> string \<Rightarrow> history \<Rightarrow> browser \<Rightarrow> (string option) + dash" where
  "dash_init embedded ext random36 h b =
     (case validateExtensions ext of
        Inl e \<Rightarrow> Inl (Some e)
      | Inr _ \<Rightarrow>
        (let pages = de_pages ext; persist = \<not> embedded in
         case computeInitialNav persist pages (he_path (hi_now h)) b of
           None \<Rightarrow> Inl None
         | Some n \<Rightarrow>
             if persist \<and> \<not> br_ok b then Inl None
             else Inr \<lparr>db_embedded = embedded, db_pages = pages, db_view = nav_view n,
               db_range = nullish (if persist then jm_get (br_local b) RANGE_KEY else None) ''7d'',
               db_selected = nav_selected n,
               db_workspaces = (if persist then [] else [createDemoWorkspace random36]),
               db_selectedWorkspaceId = (if persist then jm_get (br_local b) WORKSPACE_KEY else None),
               db_apiWorkspace = None, db_cmdOpen = False, db_navOpen = False, db_createWsIntent = False,
               db_histInit = False, db_dirty = True, db_history = h, db_browser = b\<rparr>))"

text \<open>The workspace shown: the selected one while it exists, else the first.\<close>

definition pick_workspace :: "string option \<Rightarrow> Workspace list \<Rightarrow> Workspace option" where
  "pick_workspace selectedId workspaces =
     (case js_find (\<lambda>w. Some (wk_id w) = selectedId) workspaces of
        Some w \<Rightarrow> Some w
      | None \<Rightarrow> (case workspaces of [] \<Rightarrow> None | w # _ \<Rightarrow> Some w))"

definition workspace :: "dash \<Rightarrow> Workspace option" where
  "workspace d = pick_workspace (db_selectedWorkspaceId d) (db_workspaces d)"

subsection \<open>Handlers\<close>

definition setViewRaw :: "ViewId \<Rightarrow> dash \<Rightarrow> dash" where
  "setViewRaw v d = d\<lparr>db_view := v, db_dirty := db_dirty d \<or> v \<noteq> db_view d\<rparr>"

definition setSelected :: "(selection \<Rightarrow> selection) \<Rightarrow> dash \<Rightarrow> dash" where
  "setSelected f d = d\<lparr>db_selected := f (db_selected d), db_dirty := True\<rparr>"

text \<open>A write to the storage, as the last thing a handler does: a thrown error leaves the state set before it.\<close>

definition persist_item :: "string \<Rightarrow> string \<Rightarrow> dash \<Rightarrow> dash" where
  "persist_item k v d =
     (if db_embedded d then d
      else case set_item k v (db_browser d) of None \<Rightarrow> d | Some b \<Rightarrow> d\<lparr>db_browser := b\<rparr>)"

definition setView :: "ViewId \<Rightarrow> dash \<Rightarrow> dash" where
  "setView v d =
     (let d1 = setViewRaw v d;
          d2 = (if v \<noteq> ''settings'' then d1\<lparr>db_createWsIntent := False\<rparr> else d1) in
      persist_item VIEW_KEY v d2)"

definition setRange :: "string \<Rightarrow> dash \<Rightarrow> dash" where
  "setRange r d = persist_item RANGE_KEY r (d\<lparr>db_range := r\<rparr>)"

definition selectWorkspace :: "Workspace \<Rightarrow> dash \<Rightarrow> dash" where
  "selectWorkspace ws d = persist_item WORKSPACE_KEY (wk_id ws) (d\<lparr>db_selectedWorkspaceId := Some (wk_id ws)\<rparr>)"

definition goCreateWorkspace :: "dash \<Rightarrow> dash" where
  "goCreateWorkspace d = setView ''settings'' (d\<lparr>db_createWsIntent := True\<rparr>)"

text \<open>The answer of the server to a created workspace: the cached list grows and the new workspace is selected.\<close>

definition createWorkspace :: "Workspace \<Rightarrow> dash \<Rightarrow> dash" where
  "createWorkspace ws d =
     (let d1 = selectWorkspace ws (if db_embedded d then d
        else d\<lparr>db_workspaces := created_workspace ws (Some (db_workspaces d))\<rparr>) in
      if db_embedded d \<or> br_ok (db_browser d) then d1\<lparr>db_createWsIntent := False\<rparr> else d1)"

definition deleteWorkspace :: "string \<Rightarrow> dash \<Rightarrow> dash" where
  "deleteWorkspace i d =
     (if db_embedded d then d else d\<lparr>db_workspaces := deleted_workspace i (Some (db_workspaces d))\<rparr>)"

definition dash_onKey :: "bool \<Rightarrow> string \<Rightarrow> dash \<Rightarrow> dash" where
  "dash_onKey meta_or_ctrl key d =
     (if \<not> db_embedded d \<and> meta_or_ctrl \<and> key = ''k'' then d\<lparr>db_cmdOpen := True\<rparr> else d)"

text \<open>The effect that mirrors navigation onto the history.\<close>

definition mirror :: "dash \<Rightarrow> dash" where
  "mirror d =
     (if db_embedded d then d
      else
        (let entry = nav (db_view d) (db_selected d);
             path = stateToPath (db_view d) (db_selected d) (db_pages d);
             h = (if db_histInit d \<and> path \<noteq> he_path (hi_now (db_history d))
                  then pushState entry path (db_history d) else replaceState entry path (db_history d));
             b = (if db_histInit d \<or> \<not> br_ok (db_browser d) then db_browser d
                  else db_browser d\<lparr>br_session := jm_del REDIRECT_KEY (br_session (db_browser d))\<rparr>) in
         d\<lparr>db_history := h, db_browser := b, db_histInit := True\<rparr>))"

definition scope_api :: "dash \<Rightarrow> dash" where
  "scope_api d = (if db_embedded d then d else d\<lparr>db_apiWorkspace := map_option wk_id (workspace d)\<rparr>)"

definition commit :: "dash \<Rightarrow> dash" where
  "commit d = (let d1 = scope_api d in if db_dirty d1 then (mirror d1)\<lparr>db_dirty := False\<rparr> else d1)"

text \<open>The listener of \<open>popstate\<close>: our own entries carry the state, others are read from the path. A storage that throws
  ends the listener before the last line.\<close>

definition onPop :: "dash \<Rightarrow> dash" where
  "onPop d =
     (if db_embedded d then d
      else case (case he_state (hi_now (db_history d)) of
            Some n \<Rightarrow> if nav_view n \<noteq> [] then Some n else pathToState (he_path (hi_now (db_history d))) (db_pages d)
          | None \<Rightarrow> pathToState (he_path (hi_now (db_history d))) (db_pages d)) of
        None \<Rightarrow> d
      | Some n \<Rightarrow>
          (let d1 = setSelected (\<lambda>_. nav_selected n) (setViewRaw (nav_view n) d) in
           case set_item VIEW_KEY (nav_view n) (db_browser d1) of
             None \<Rightarrow> d1
           | Some b \<Rightarrow>
               (let d2 = d1\<lparr>db_browser := b\<rparr> in
                if nav_view n \<noteq> ''settings'' then d2\<lparr>db_createWsIntent := False\<rparr> else d2)))"

definition press_back :: "dash \<Rightarrow> dash" where
  "press_back d = (case go_back (db_history d) of None \<Rightarrow> d | Some h \<Rightarrow> commit (onPop (d\<lparr>db_history := h\<rparr>)))"

definition press_forward :: "dash \<Rightarrow> dash" where
  "press_forward d = (case go_forward (db_history d) of None \<Rightarrow> d | Some h \<Rightarrow> commit (onPop (d\<lparr>db_history := h\<rparr>)))"

subsection \<open>Breadcrumb and commands\<close>

record BreadcrumbItem =
  bc_label :: string
  bc_onClick :: "(dash \<Rightarrow> dash) option"

definition crumb :: "string \<Rightarrow> BreadcrumbItem" where
  "crumb l = \<lparr>bc_label = l, bc_onClick = None\<rparr>"

definition link_crumb :: "string \<Rightarrow> (dash \<Rightarrow> dash) \<Rightarrow> BreadcrumbItem" where
  "link_crumb l f = \<lparr>bc_label = l, bc_onClick = Some f\<rparr>"

definition without :: "string list \<Rightarrow> selection \<Rightarrow> selection" where
  "without ks s = foldl (\<lambda>s k. jm_del k s) s ks"

definition breadcrumb :: "dash \<Rightarrow> BreadcrumbItem list" where
  "breadcrumb d =
     (let view = db_view d; selected = db_selected d; workflow = sel selected ''workflow'' in
      case js_find (\<lambda>p. xp_id p = view) (db_pages d) of
        Some page \<Rightarrow> [crumb (xp_label page)]
      | None \<Rightarrow>
          if view = ''trace'' then
            [link_crumb ''Overview'' (setView ''overview''), crumb (nullish (jm_get selected ''traceId'') ''Trace'')]
          else if view = ''workflows'' then
            (if workflow \<noteq> []
             then [link_crumb ''Workflows'' (setView ''workflows'' \<circ> setSelected (without [''workflow''])), crumb workflow]
             else [crumb ''Workflows''])
          else if view = ''compare'' then
            [link_crumb ''Workflows'' (setView ''workflows'' \<circ> setSelected (without [''workflow'', ''base'', ''candidate'']))]
            @ (if workflow \<noteq> []
               then [link_crumb workflow (setView ''workflows'' \<circ> setSelected (without [''base'', ''candidate'']))] else [])
            @ [crumb ''Compare'']
          else if view = ''usage'' then [crumb ''Usage'']
          else if view = ''users'' then [crumb ''Clients'']
          else if view = ''user'' then
            [link_crumb ''Clients'' (setView ''users''),
             crumb (if sel selected ''user'' \<noteq> [] then sel selected ''user'' else ''Client detail'')]
          else if view = ''keys'' then [link_crumb ''Settings'' (setView ''settings''), crumb ''API Keys'']
          else if view = ''settings'' then [crumb ''Settings'']
          else [crumb ''Overview''])"

record CommandAction =
  ca_view :: "string option"
  ca_trace :: "string option"
  ca_workflow :: "string option"

definition handleCommandSelect :: "CommandAction option \<Rightarrow> dash \<Rightarrow> dash" where
  "handleCommandSelect action d =
     (case action of
        None \<Rightarrow> d
      | Some a \<Rightarrow>
          if ca_view a = Some ''trace'' then
            setView ''trace'' (if truthy_str (ca_trace a)
              then setSelected (jm_set ''traceId'' (the (ca_trace a))) d else d)
          else if ca_view a = Some ''workflow-detail'' then
            setView ''workflows'' (if truthy_str (ca_workflow a)
              then setSelected (jm_set ''workflow'' (the (ca_workflow a))) d else d)
          else if truthy_str (ca_view a) then setView (the (ca_view a)) d else d)"

subsection \<open>The page of a view\<close>

datatype page =
    LoadingWorkspaces
  | WorkspacesFailed
  | CreateFirstWorkspace
  | ExtensionPageShown string
  | OverviewPg
  | WorkflowDetailPg string
  | WorkflowsPg
  | ComparePg string string string
  | NothingToCompare
  | TracePg string
  | DemoTracePg
  | NoTrace
  | UsagePg
  | KeysPg
  | SettingsPg
  | UsersPg
  | UserPg string

text \<open>The elements the body renders, in the order of the code. The flags are those of the workspace query.\<close>

definition dash_body :: "bool \<Rightarrow> bool \<Rightarrow> dash \<Rightarrow> page list" where
  "dash_body wsLoading wsError d =
     (let view = db_view d; s = sel (db_selected d); activePage = js_find (\<lambda>p. xp_id p = view) (db_pages d) in
      if workspace d = None \<and> view \<noteq> ''settings'' \<and> (case activePage of None \<Rightarrow> True | Some p \<Rightarrow> xp_requiresWorkspace p)
      then [if wsLoading then LoadingWorkspaces else if wsError then WorkspacesFailed else CreateFirstWorkspace]
      else concat
        [case activePage of None \<Rightarrow> [] | Some p \<Rightarrow> [ExtensionPageShown (xp_id p)],
         if view = ''overview'' then [OverviewPg] else [],
         if view = ''workflows'' then [if s ''workflow'' \<noteq> [] then WorkflowDetailPg (s ''workflow'') else WorkflowsPg] else [],
         if view = ''compare'' then
           [if s ''workflow'' \<noteq> [] \<and> s ''base'' \<noteq> [] \<and> s ''candidate'' \<noteq> [] \<and> \<not> db_embedded d
            then ComparePg (s ''workflow'') (s ''base'') (s ''candidate'') else NothingToCompare] else [],
         if view = ''trace'' then
           [if db_embedded d then DemoTracePg else if s ''traceId'' \<noteq> [] then TracePg (s ''traceId'') else NoTrace] else [],
         if view = ''usage'' then [UsagePg] else [],
         if view = ''keys'' then [KeysPg] else [],
         if view = ''settings'' then [SettingsPg] else [],
         if view = ''users'' then [UsersPg] else [],
         if view = ''user'' then [UserPg (s ''user'')] else []])"

subsection \<open>The command palette (CommandPalette.tsx)\<close>

record CmdItemData =
  ci_label :: string
  ci_action :: CommandAction

definition to_view :: "string \<Rightarrow> CommandAction" where
  "to_view v = \<lparr>ca_view = Some v, ca_trace = None, ca_workflow = None\<rparr>"

definition CMD_ITEMS :: "CmdItemData list" where
  [data_defs]: "CMD_ITEMS =
     [\<lparr>ci_label = ''Overview'', ci_action = to_view ''overview''\<rparr>,
      \<lparr>ci_label = ''Workflows'', ci_action = to_view ''workflows''\<rparr>,
      \<lparr>ci_label = ''Usage'', ci_action = to_view ''usage''\<rparr>,
      \<lparr>ci_label = ''Clients'', ci_action = to_view ''users''\<rparr>,
      \<lparr>ci_label = ''API Keys'', ci_action = to_view ''keys''\<rparr>,
      \<lparr>ci_label = ''Settings'', ci_action = to_view ''settings''\<rparr>]"

record palette =
  pa_query :: string
  pa_idx :: int

definition palette_init :: palette where
  "palette_init = \<lparr>pa_query = [], pa_idx = 0\<rparr>"

text \<open>\<open>lower\<close> is \<open>toLowerCase\<close> on a query of any script; the labels are ASCII.\<close>

definition cmd_filtered :: "(string \<Rightarrow> string) \<Rightarrow> string \<Rightarrow> CmdItemData list" where
  "cmd_filtered lower query =
     (if trim query = [] then CMD_ITEMS
      else filter (\<lambda>i. str_includes (to_lower (ci_label i)) (lower query)) CMD_ITEMS)"

definition palette_type :: "string \<Rightarrow> palette \<Rightarrow> palette" where
  "palette_type q p = \<lparr>pa_query = q, pa_idx = 0\<rparr>"

definition palette_hover :: "int \<Rightarrow> palette \<Rightarrow> palette" where
  "palette_hover i p = p\<lparr>pa_idx := i\<rparr>"

text \<open>A chosen command runs and the palette closes, unless the command navigates and the storage throws.\<close>

definition storage_works :: "dash \<Rightarrow> bool" where
  "storage_works d \<longleftrightarrow> db_embedded d \<or> br_ok (db_browser d)"

definition choose_action :: "CommandAction option \<Rightarrow> dash \<Rightarrow> dash" where
  "choose_action action d =
     (let d1 = handleCommandSelect action d;
          navigates = (case action of None \<Rightarrow> False | Some a \<Rightarrow> truthy_str (ca_view a)) in
      if navigates \<and> \<not> storage_works d then d1 else d1\<lparr>db_cmdOpen := False\<rparr>)"

definition item_at :: "'a list \<Rightarrow> int \<Rightarrow> 'a option" where
  "item_at xs i = (if 0 \<le> i \<and> i < int (length xs) then Some (xs ! nat i) else None)"

definition palette_key :: "(string \<Rightarrow> string) \<Rightarrow> string \<Rightarrow> palette \<times> dash \<Rightarrow> palette \<times> dash" where
  "palette_key lower key = (\<lambda>(p, d).
     (let filtered = cmd_filtered lower (pa_query p) in
      if key = ''ArrowDown'' then (p\<lparr>pa_idx := min (pa_idx p + 1) (int (length filtered) - 1)\<rparr>, d)
      else if key = ''ArrowUp'' then (p\<lparr>pa_idx := max (pa_idx p - 1) 0\<rparr>, d)
      else if key = ''Enter'' then (p, choose_action (map_option ci_action (item_at filtered (pa_idx p))) d)
      else (p, d)))"

subsection \<open>The workspace switcher (WorkspaceSwitcher.tsx)\<close>

fun ENV_COLOR :: "workspace_env \<Rightarrow> string" where
  "ENV_COLOR Production = ''var(--accent)''"
| "ENV_COLOR Development = ''var(--info)''"
| "ENV_COLOR Staging = ''var(--warning)''"

fun ENV_LABEL :: "workspace_env \<Rightarrow> string" where
  "ENV_LABEL Production = ''prod''"
| "ENV_LABEL Development = ''dev''"
| "ENV_LABEL Staging = ''stg''"

record switcher_row =
  sr_workspace :: Workspace
  sr_active :: bool
  sr_members :: string
  sr_deletable :: bool

definition switcher_rows :: "Workspace option \<Rightarrow> Workspace list \<Rightarrow> switcher_row list" where
  "switcher_rows current workspaces = map (\<lambda>ws.
     \<lparr>sr_workspace = ws,
      sr_active = (case current of None \<Rightarrow> False | Some c \<Rightarrow> wk_id ws = wk_id c),
      sr_members = wk_role ws @ '' '' @ mid_dot @ '' '' @ int_str (wk_members ws) @ '' '' @
        (if wk_members ws = 1 then ''member'' else ''members''),
      sr_deletable = (to_lower (wk_role ws) = ''owner'')\<rparr>) workspaces"

text \<open>A confirmed deletion; the answer of the server is \<open>ok\<close>. The second component is the alert shown.\<close>

definition switcher_delete :: "bool \<Rightarrow> bool \<Rightarrow> Workspace \<Rightarrow> dash \<Rightarrow> dash \<times> string option" where
  "switcher_delete confirmed ok ws d =
     (if \<not> confirmed then (d, None)
      else if ok \<or> db_embedded d then (deleteWorkspace (wk_id ws) d, None)
      else (d, Some (''Could not delete '' @ wk_name ws @ ''. Please try again.'')))"

subsection \<open>The top bar and the sidebar (TopBar.tsx, Sidebar.tsx)\<close>

definition RANGES :: "string list" where
  [data_defs]: "RANGES = [''24h'', ''7d'', ''30d'', ''90d'', ''1y'']"

definition showRange :: "dash \<Rightarrow> bool" where
  "showRange d \<longleftrightarrow> db_view d \<in> set VIEWS_WITH_RANGE"

definition NAV_ITEMS :: "(string \<times> string) list" where
  [data_defs]: "NAV_ITEMS = [(''overview'', ''Overview''), (''workflows'', ''Workflows''), (''usage'', ''Usage''),
     (''users'', ''Clients''), (''keys'', ''API Keys'')]"

record nav_row =
  nr_id :: string
  nr_label :: string
  nr_active :: bool

definition nav_rows :: "ExtensionPage list \<Rightarrow> ViewId \<Rightarrow> nav_row list" where
  "nav_rows pages currentView = map (\<lambda>(i, l).
     \<lparr>nr_id = i, nr_label = l,
      nr_active = (currentView = i \<or> (currentView = ''trace'' \<or> currentView = ''compare'') \<and> i = ''workflows'')\<rparr>)
     (NAV_ITEMS @ map (\<lambda>p. (xp_id p, xp_label p)) pages)"

definition sidebar_navigate :: "bool \<Rightarrow> ViewId \<Rightarrow> dash \<Rightarrow> dash" where
  "sidebar_navigate mobile v d = (let d1 = setView v d in if mobile \<and> storage_works d then d1\<lparr>db_navOpen := False\<rparr> else d1)"

text \<open>Preferences of the sidebar, with the theme of the document. A storage that throws stops a toggle where it is.\<close>

record sidebar =
  sb_theme :: "string option"
  sb_docTheme :: "string option"
  sb_collapsedPref :: bool
  sb_stars :: "rat option"

definition THEME_KEY :: string where [data_defs]: "THEME_KEY = ''tracium_theme''"
definition SIDEBAR_KEY :: string where [data_defs]: "SIDEBAR_KEY = ''tracium_sidebar''"

definition sidebar_init :: "bool \<Rightarrow> string option \<Rightarrow> browser \<Rightarrow> sidebar option" where
  "sidebar_init embedded docTheme b =
     (if \<not> embedded \<and> \<not> br_ok b then None
      else Some \<lparr>sb_theme = docTheme, sb_docTheme = docTheme,
        sb_collapsedPref = (\<not> embedded \<and> jm_get (br_local b) SIDEBAR_KEY = Some ''collapsed''), sb_stars = None\<rparr>)"

definition toggleTheme :: "sidebar \<times> browser \<Rightarrow> sidebar \<times> browser" where
  "toggleTheme = (\<lambda>(s, b).
     (let nxt = (if sb_theme s = Some ''light'' then ''dark'' else ''light''); s1 = s\<lparr>sb_docTheme := Some nxt\<rparr> in
      case set_item THEME_KEY nxt b of None \<Rightarrow> (s1, b) | Some b' \<Rightarrow> (s1\<lparr>sb_theme := Some nxt\<rparr>, b')))"

definition toggleCollapsed :: "bool \<Rightarrow> sidebar \<times> browser \<Rightarrow> sidebar \<times> browser" where
  "toggleCollapsed embedded = (\<lambda>(s, b).
     (let flip = s\<lparr>sb_collapsedPref := \<not> sb_collapsedPref s\<rparr> in
      if embedded then (flip, b)
      else case set_item SIDEBAR_KEY (if sb_collapsedPref s then ''expanded'' else ''collapsed'') b of
        None \<Rightarrow> (s, b) | Some b' \<Rightarrow> (flip, b')))"

definition collapsed :: "bool \<Rightarrow> sidebar \<Rightarrow> bool" where
  "collapsed mobile s \<longleftrightarrow> sb_collapsedPref s \<and> \<not> mobile"

text \<open>The star count is shown when the answer carries a number.\<close>

definition set_stars :: "json option \<Rightarrow> sidebar \<Rightarrow> sidebar" where
  "set_stars answer s =
     (case answer of
        None \<Rightarrow> s
      | Some j \<Rightarrow> (case json_field j ''stargazers_count'' of
          Some (Some (JNum n)) \<Rightarrow> s\<lparr>sb_stars := Some n\<rparr>
        | _ \<Rightarrow> s))"

subsection \<open>The dashboard as a transition system\<close>

text \<open>What a visitor can do on a page: every handler the shell passes to its pages and bars.\<close>

inductive dash_handler :: "dash \<Rightarrow> dash \<Rightarrow> bool" where
  on_view: "dash_handler d (setView v d)"
| on_select: "dash_handler d (setSelected f d)"
| on_navigate: "dash_handler d (setView v (setSelected f d))"
| on_range: "dash_handler d (setRange r d)"
| on_workspace: "dash_handler d (selectWorkspace ws d)"
| on_create_intent: "dash_handler d (goCreateWorkspace d)"
| on_created: "dash_handler d (createWorkspace ws d)"
| on_deleted: "dash_handler d (deleteWorkspace i d)"
| on_key: "dash_handler d (dash_onKey m k d)"
| on_command: "dash_handler d (choose_action a d)"
| on_sidebar: "dash_handler d (sidebar_navigate m v d)"
| on_palette: "dash_handler d (d\<lparr>db_cmdOpen := c\<rparr>)"
| on_drawer: "dash_handler d (d\<lparr>db_navOpen := n\<rparr>)"
| on_refetched: "\<not> db_embedded d \<Longrightarrow> dash_handler d (d\<lparr>db_workspaces := ws\<rparr>)"

inductive dash_step :: "dash \<Rightarrow> dash \<Rightarrow> bool" where
  step_handler: "dash_handler d d' \<Longrightarrow> dash_step d (commit d')"
| step_back: "dash_step d (press_back d)"
| step_forward: "dash_step d (press_forward d)"
| step_preference: "k \<in> {THEME_KEY, SIDEBAR_KEY} \<Longrightarrow> dash_step d (persist_item k v d)"

inductive_cases dash_handlerE: "dash_handler d d'"
inductive_cases dash_stepE: "dash_step d d'"

lemmas dash_handler_defs = setView_def setViewRaw_def setSelected_def setRange_def selectWorkspace_def goCreateWorkspace_def
  createWorkspace_def deleteWorkspace_def dash_onKey_def choose_action_def handleCommandSelect_def sidebar_navigate_def
  persist_item_def storage_ops Let_def

text \<open>What no handler touches.\<close>

definition undisturbed :: "dash \<Rightarrow> dash \<Rightarrow> bool" where
  "undisturbed d d' \<longleftrightarrow> db_embedded d' = db_embedded d \<and> db_pages d' = db_pages d \<and> db_history d' = db_history d \<and>
    db_histInit d' = db_histInit d \<and> db_apiWorkspace d' = db_apiWorkspace d \<and>
    br_ok (db_browser d') = br_ok (db_browser d) \<and> br_session (db_browser d') = br_session (db_browser d) \<and>
    (db_embedded d \<longrightarrow> db_browser d' = db_browser d) \<and>
    (db_dirty d' \<or> db_dirty d' = db_dirty d \<and> db_view d' = db_view d \<and> db_selected d' = db_selected d)"

lemma undisturbed_refl: "undisturbed d d" and undisturbed_trans: "undisturbed d e \<Longrightarrow> undisturbed e f \<Longrightarrow> undisturbed d f"
  by (auto simp: undisturbed_def)

lemma undisturbed_set:
  "undisturbed d (d\<lparr>db_cmdOpen := c\<rparr>)" "undisturbed d (d\<lparr>db_navOpen := n\<rparr>)" "undisturbed d (d\<lparr>db_workspaces := ws\<rparr>)"
  "undisturbed d (d\<lparr>db_createWsIntent := c\<rparr>)" "undisturbed d (setRange r d)" "undisturbed d (setView v d)"
  "undisturbed d (setSelected f d)" "undisturbed d (selectWorkspace w d)" "undisturbed d (deleteWorkspace i d)"
  by (simp_all add: undisturbed_def setRange_def setView_def setViewRaw_def setSelected_def selectWorkspace_def deleteWorkspace_def
      persist_item_def storage_ops Let_def split: option.split)

lemma undisturbed_created: "undisturbed d (createWorkspace ws d)"
  unfolding createWorkspace_def Let_def
  by (auto split: option.splits intro: undisturbed_refl undisturbed_trans [OF undisturbed_trans] undisturbed_set)

lemma undisturbed_command: "undisturbed d (handleCommandSelect a d)"
  by (auto simp: handleCommandSelect_def Let_def intro: undisturbed_refl undisturbed_trans undisturbed_set split: option.splits)

lemma handler_undisturbed: "dash_handler d d' \<Longrightarrow> undisturbed d d'"
  by (induction rule: dash_handler.induct)
    (simp_all add: undisturbed_set undisturbed_created undisturbed_refl undisturbed_command goCreateWorkspace_def dash_onKey_def
      choose_action_def sidebar_navigate_def Let_def undisturbed_trans [OF undisturbed_set(7) undisturbed_set(6)]
      undisturbed_trans [OF undisturbed_set(4) undisturbed_set(6)] undisturbed_trans [OF undisturbed_set(6) undisturbed_set(2)]
      undisturbed_trans [OF undisturbed_command undisturbed_set(1)])

lemmas handler_frame = handler_undisturbed [unfolded undisturbed_def]

lemma workspace_cong:
  "db_workspaces d' = db_workspaces d \<Longrightarrow> db_selectedWorkspaceId d' = db_selectedWorkspaceId d \<Longrightarrow> workspace d' = workspace d"
  by (simp add: workspace_def)

lemma mirror_frame [simp]:
  "db_embedded (mirror d) = db_embedded d" "db_pages (mirror d) = db_pages d" "db_view (mirror d) = db_view d"
  "db_selected (mirror d) = db_selected d" "db_workspaces (mirror d) = db_workspaces d"
  "db_selectedWorkspaceId (mirror d) = db_selectedWorkspaceId d" "db_apiWorkspace (mirror d) = db_apiWorkspace d"
  "db_dirty (mirror d) = db_dirty d" "workspace (mirror d) = workspace d" "br_ok (db_browser (mirror d)) = br_ok (db_browser d)"
  by (simp_all add: mirror_def workspace_def Let_def)

lemma scope_api_frame [simp]:
  "db_embedded (scope_api d) = db_embedded d" "db_pages (scope_api d) = db_pages d" "db_view (scope_api d) = db_view d"
  "db_selected (scope_api d) = db_selected d" "db_dirty (scope_api d) = db_dirty d" "db_history (scope_api d) = db_history d"
  "db_histInit (scope_api d) = db_histInit d" "workspace (scope_api d) = workspace d" "db_browser (scope_api d) = db_browser d"
  by (simp_all add: scope_api_def workspace_def)

lemma workspace_dirty [simp]: "workspace (d\<lparr>db_dirty := x\<rparr>) = workspace d" "workspace (d\<lparr>db_apiWorkspace := y\<rparr>) = workspace d"
  by (simp_all add: workspace_def)

lemma commit_frame [simp]:
  "db_embedded (commit d) = db_embedded d" "db_pages (commit d) = db_pages d" "db_view (commit d) = db_view d"
  "db_selected (commit d) = db_selected d" "workspace (commit d) = workspace d" "\<not> db_dirty (commit d)"
  "br_ok (db_browser (commit d)) = br_ok (db_browser d)"
  by (simp_all add: commit_def Let_def)

subsection \<open>History\<close>

text \<open>An entry of ours is at the path of its state. Another entry may be at any path: one that the dashboard does not understand, such as
  that of the login page the visitor came from, is foreign to it.\<close>

definition nav_path :: "ExtensionPage list \<Rightarrow> NavState \<Rightarrow> string" where
  "nav_path pages n = url_path (stateToPath (nav_view n) (nav_selected n) pages)"

definition entry_ok :: "ExtensionPage list \<Rightarrow> hist_entry \<Rightarrow> bool" where
  "entry_ok pages e \<longleftrightarrow> (case he_state e of Some n \<Rightarrow> he_path e = nav_path pages n | None \<Rightarrow> True)"

definition foreign_entry :: "ExtensionPage list \<Rightarrow> hist_entry \<Rightarrow> bool" where
  "foreign_entry pages e \<longleftrightarrow> he_state e = None \<and> pathToState (he_path e) pages = None"

definition entries :: "dash \<Rightarrow> hist_entry list" where
  "entries d = hi_now (db_history d) # hi_past (db_history d) @ hi_future (db_history d)"

definition foreign_entries :: "dash \<Rightarrow> hist_entry set" where
  "foreign_entries d = {e \<in> set (entries d). foreign_entry (db_pages d) e}"

definition nav_of :: "dash \<Rightarrow> NavState" where
  "nav_of d = nav (db_view d) (db_selected d)"

definition mirrored :: "dash \<Rightarrow> bool" where
  "mirrored d \<longleftrightarrow> \<not> db_embedded d \<and> pages_ok (db_pages d) \<and> db_histInit d \<and> \<not> db_dirty d \<and>
     (he_state (hi_now (db_history d)) = Some (nav_of d) \<or> foreign_entry (db_pages d) (hi_now (db_history d))) \<and>
     db_apiWorkspace d = map_option wk_id (workspace d) \<and> list_all (entry_ok (db_pages d)) (entries d)"

definition tracked :: "dash \<Rightarrow> bool" where
  "tracked d \<longleftrightarrow> mirrored d \<and> he_state (hi_now (db_history d)) = Some (nav_of d)"

text \<open>A dashboard that has just been opened: rendered once, in any history whose marked entries come from dashboards before it.\<close>

definition dash_start :: "dash \<Rightarrow> bool" where
  "dash_start d \<longleftrightarrow> (\<exists>ext r h b d0. dash_init False ext r h b = Inr d0 \<and> d = commit d0 \<and>
     list_all (entry_ok (de_pages ext)) (hi_past h @ hi_future h))"

lemma tracked_mirrored: "tracked d \<Longrightarrow> mirrored d"
  by (simp add: tracked_def)

lemma nav_simps [simp]: "nav_view (nav v s) = v" "nav_selected (nav v s) = s"
  by (simp_all add: nav_def)

lemma nav_of_commit [simp]: "nav_of (commit d) = nav_of d"
  by (simp add: nav_of_def)

lemma commit_tracks:
  assumes "\<not> db_embedded d" "pages_ok (db_pages d)" "db_dirty d"
    and "list_all (entry_ok (db_pages d)) (hi_past (db_history d) @ hi_future (db_history d))"
    and "db_histInit d \<longrightarrow> entry_ok (db_pages d) (hi_now (db_history d))"
  shows "tracked (commit d)"
  using assms
  by (auto simp: tracked_def mirrored_def entries_def commit_def Let_def scope_api_def mirror_def pushState_def
      replaceState_def entry_ok_def nav_path_def nav_of_def workspace_def)

lemma commit_clean: "\<not> db_dirty d \<Longrightarrow> commit d = scope_api d"
  by (simp add: commit_def Let_def)

lemma nav_of_scope_api [simp]: "nav_of (scope_api d) = nav_of d"
  by (simp add: nav_of_def)

lemma root_parses:
  assumes "pages_ok pages"
  shows "pathToState (nav_path pages (nav [] s)) pages \<noteq> None"
proof -
  have "\<not> (\<exists>p\<in>set pages. xp_id p = [])" using pages_ok_id [OF assms] by fastforce
  then have "nav_path pages (nav [] s) = ''/''" by (simp add: nav_path_def stateToPath_def Let_def url_path_def)
  then show ?thesis by (simp add: pathToState_def path_segments_root segments_to_state_simps split: option.splits)
qed

text \<open>The state a \<open>popstate\<close> finds in an entry the dashboard understands.\<close>

lemma onPop_ok:
  assumes "\<not> db_embedded d" "pages_ok (db_pages d)" "entry_ok (db_pages d) (hi_now (db_history d))"
    and "\<not> foreign_entry (db_pages d) (hi_now (db_history d))"
  obtains n where "db_view (onPop d) = nav_view n" "db_selected (onPop d) = nav_selected n" "db_dirty (onPop d)"
    "db_embedded (onPop d) = db_embedded d" "db_pages (onPop d) = db_pages d" "db_history (onPop d) = db_history d"
    "db_histInit (onPop d) = db_histInit d"
    "\<And>m. he_state (hi_now (db_history d)) = Some m \<Longrightarrow> nav_view m \<noteq> [] \<Longrightarrow> n = m"
proof -
  let ?e = "hi_now (db_history d)"
  let ?s = "case he_state ?e of
            Some n \<Rightarrow> if nav_view n \<noteq> [] then Some n else pathToState (he_path ?e) (db_pages d)
          | None \<Rightarrow> pathToState (he_path ?e) (db_pages d)"
  have "?s \<noteq> None"
    using assms(3,4) root_parses [OF assms(2)] by (auto simp: entry_ok_def foreign_entry_def nav_def split: option.splits)
      (metis (full_types) NavState.surjective old.unit.exhaust option.distinct(1))
  then obtain n where n: "?s = Some n" by (elim not_None_eq [THEN iffD1, THEN exE])
  then have "nav_view m \<noteq> [] \<Longrightarrow> n = m" if "he_state ?e = Some m" for m using that by simp
  with n assms(1) that [of n] show thesis
    by (auto simp: onPop_def Let_def setSelected_def setViewRaw_def storage_ops split: option.splits)
qed

lemma onPop_own:
  "\<not> db_embedded d \<Longrightarrow> he_state (hi_now (db_history d)) = Some n \<Longrightarrow> nav_view n \<noteq> [] \<Longrightarrow>
     db_view (onPop d) = nav_view n \<and> db_selected (onPop d) = nav_selected n"
  by (simp add: onPop_def Let_def setSelected_def setViewRaw_def storage_ops)

lemma onPop_foreign: "foreign_entry (db_pages d) (hi_now (db_history d)) \<Longrightarrow> onPop d = d"
  by (simp add: foreign_entry_def onPop_def)

lemma go_entries:
  "go_back (db_history d) = Some h \<Longrightarrow> set (hi_now h # hi_past h @ hi_future h) = set (entries d)"
  "go_forward (db_history d) = Some h \<Longrightarrow> set (hi_now h # hi_past h @ hi_future h) = set (entries d)"
  by (auto simp: go_back_def go_forward_def entries_def split: list.splits)

lemma press_mirrors:
  assumes "mirrored d" "set (hi_now h # hi_past h @ hi_future h) = set (entries d)"
  shows "mirrored (commit (onPop (d\<lparr>db_history := h\<rparr>)))"
proof -
  let ?d = "d\<lparr>db_history := h\<rparr>"
  have ok: "list_all (entry_ok (db_pages d)) (hi_now h # hi_past h @ hi_future h)"
    using assms unfolding mirrored_def list_all_iff by metis
  show ?thesis
  proof (cases "foreign_entry (db_pages ?d) (hi_now (db_history ?d))")
    case True
    moreover have "commit ?d = scope_api ?d" using assms(1) by (simp add: mirrored_def commit_clean)
    ultimately show ?thesis using ok assms(1)
      by (simp add: onPop_foreign mirrored_def entries_def scope_api_def workspace_def)
  next
    case False
    from ok assms(1) have "\<not> db_embedded ?d" "pages_ok (db_pages ?d)" "entry_ok (db_pages ?d) (hi_now (db_history ?d))"
      by (simp_all add: mirrored_def)
    then obtain "db_dirty (onPop ?d)" "db_embedded (onPop ?d) = db_embedded d" "db_pages (onPop ?d) = db_pages d"
      "db_history (onPop ?d) = h" using False by (rule onPop_ok) auto
    with ok assms(1) show ?thesis by (intro tracked_mirrored commit_tracks) (simp_all add: mirrored_def)
  qed
qed

lemma handler_tracks:
  assumes "mirrored d" "dash_handler d d'" "db_dirty d'"
  shows "tracked (commit d')"
  using handler_frame [OF assms(2)] assms(1,3) by (intro commit_tracks) (auto simp: mirrored_def entries_def)

lemma step_mirrors:
  assumes "mirrored d" "dash_step d d'"
  shows "mirrored d'"
  using assms(2)
proof cases
  case (step_handler d1)
  note fr = handler_frame [OF step_handler(2)]
  show ?thesis
  proof (cases "db_dirty d1")
    case True
    then show ?thesis unfolding step_handler(1) using handler_tracks assms(1) step_handler(2) by (blast intro: tracked_mirrored)
  next
    case False
    then show ?thesis using fr assms(1) unfolding step_handler(1)
      by (auto simp: mirrored_def entries_def commit_clean nav_of_def scope_api_def)
  qed
next
  case step_back
  then show ?thesis using assms(1) press_mirrors [OF assms(1) go_entries(1)]
    by (simp add: press_back_def split: option.split)
next
  case step_forward
  then show ?thesis using assms(1) press_mirrors [OF assms(1) go_entries(2)]
    by (simp add: press_forward_def split: option.split)
next
  case (step_preference k v)
  then show ?thesis using assms(1)
    by (auto simp: mirrored_def entries_def persist_item_def nav_of_def workspace_def split: option.splits)
qed

text \<open>No step adds a foreign entry.\<close>

lemma commit_foreign: "foreign_entries (commit d) \<subseteq> foreign_entries d"
  by (auto simp: foreign_entries_def entries_def foreign_entry_def commit_def Let_def mirror_def pushState_def replaceState_def)

lemma foreign_entries_cong:
  "db_pages d' = db_pages d \<Longrightarrow> set (entries d') = set (entries d) \<Longrightarrow> foreign_entries d' = foreign_entries d"
  by (simp add: foreign_entries_def)

lemma onPop_entries [simp]: "db_pages (onPop d) = db_pages d" "entries (onPop d) = entries d"
  by (auto simp: onPop_def entries_def Let_def setSelected_def setViewRaw_def storage_ops split: option.splits)

lemma press_foreign:
  assumes "set (hi_now h # hi_past h @ hi_future h) = set (entries d)"
  shows "foreign_entries (commit (onPop (d\<lparr>db_history := h\<rparr>))) \<subseteq> foreign_entries d"
proof -
  have "set (entries (onPop (d\<lparr>db_history := h\<rparr>))) = set (entries d)"
    unfolding onPop_entries using assms by (simp add: entries_def)
  then have "foreign_entries (onPop (d\<lparr>db_history := h\<rparr>)) = foreign_entries d" by (intro foreign_entries_cong) simp_all
  then show ?thesis using commit_foreign [of "onPop (d\<lparr>db_history := h\<rparr>)"] by simp
qed

lemma step_foreign:
  assumes "dash_step d d'"
  shows "foreign_entries d' \<subseteq> foreign_entries d"
  using assms
proof cases
  case (step_handler d1)
  then have "foreign_entries d1 = foreign_entries d"
    using handler_frame [OF step_handler(2)] by (intro foreign_entries_cong) (simp_all add: entries_def)
  then show ?thesis unfolding step_handler(1) using commit_foreign by blast
next
  case step_back
  then show ?thesis using press_foreign [OF go_entries(1)] by (simp add: press_back_def split: option.split)
next
  case step_forward
  then show ?thesis using press_foreign [OF go_entries(2)] by (simp add: press_forward_def split: option.split)
next
  case (step_preference k v)
  then have "foreign_entries d' = foreign_entries d"
    by (intro foreign_entries_cong) (auto simp: persist_item_def entries_def split: option.splits)
  then show ?thesis by simp
qed

lemma dash_init_ok:
  assumes "dash_init False ext r h b = Inr d"
  shows "\<not> db_embedded d \<and> pages_ok (de_pages ext) \<and> db_pages d = de_pages ext \<and> db_dirty d \<and> \<not> db_histInit d \<and>
    db_history d = h \<and> db_browser d = b \<and> br_ok b"
  using assms by (auto simp: dash_init_def Let_def validateExtensions_def pages_ok_def split: sum.splits option.splits if_splits)

interpretation dash_sys: invariant_system dash_start dash_step mirrored
proof
  show "dash_start d \<Longrightarrow> mirrored d" for d
    by (auto simp: dash_start_def dest!: dash_init_ok intro!: tracked_mirrored commit_tracks)
  show "mirrored d \<Longrightarrow> dash_step d d' \<Longrightarrow> mirrored d'" for d d' by (rule step_mirrors)
qed

interpretation opened: invariant_system "\<lambda>d. d = d0" dash_step "\<lambda>d. foreign_entries d \<subseteq> foreign_entries d0" for d0
  by unfold_locales (auto dest: step_foreign)

subsection \<open>Pages and workspaces\<close>

lemma js_find_unique: "distinct (map f xs) \<Longrightarrow> x \<in> set xs \<Longrightarrow> js_find (\<lambda>y. f y = f x) xs = Some x"
  by (induction xs) auto

lemma js_find_last: "\<forall>x\<in>set xs. \<not> P x \<Longrightarrow> P y \<Longrightarrow> js_find P (xs @ [y]) = Some y"
  by (induction xs) auto

lemma pick_workspace_spec:
  "pick_workspace i ws = None \<longleftrightarrow> ws = []"
  "pick_workspace i ws = Some w \<Longrightarrow> w \<in> set ws"
  "pick_workspace i ws = Some w \<Longrightarrow> \<exists>v\<in>set ws. Some (wk_id v) = i \<Longrightarrow> Some (wk_id w) = i"
  by (auto simp: pick_workspace_def split: option.splits list.splits dest: js_find_SomeD)

definition valid_view :: "ExtensionPage list \<Rightarrow> ViewId \<Rightarrow> bool" where
  "valid_view pages v \<longleftrightarrow> v \<in> set VIEW_IDS \<or> (\<exists>p\<in>set pages. xp_id p = v)"

lemma segments_view: "segments_to_state seg = Some n \<Longrightarrow> nav_view n \<in> set VIEW_IDS"
  by (auto simp: segments_to_state_def VIEW_IDS_def Let_def split: if_splits)

lemma pathToState_valid: "pathToState p pages = Some n \<Longrightarrow> valid_view pages (nav_view n)"
  using segments_view
  by (auto simp: pathToState_def valid_view_def split: option.splits dest: js_find_SomeD)

lemma stored_view_valid: "valid_view pages (nav_view (stored_view pages s))"
  by (auto simp: stored_view_def valid_view_def VIEW_IDS_def split: option.splits)

lemma overview_valid: "valid_view pages ''overview''"
  by (simp add: valid_view_def VIEW_IDS_def)

lemma computeInitialNav_valid: "computeInitialNav persist pages p b = Some n \<Longrightarrow> valid_view pages (nav_view n)"
  using pathToState_valid stored_view_valid overview_valid
  by (auto simp: computeInitialNav_def split: option.splits if_splits)

lemma js_find_never [simp]: "js_find (\<lambda>x. False) xs = None"
  by simp

lemma login_unparsed: "pathToState ''/login'' pages = None"
proof -
  have "path_segments ''/login'' = Some [''login'']" by code_simp
  then show ?thesis by (simp add: pathToState_def segments_to_state_def seg_at_def)
qed

lemma dash_body_page:
  assumes "pages_ok (db_pages d)" "valid_view (db_pages d) (db_view d)"
  shows "length (dash_body l e d) = 1"
proof (cases "\<exists>p\<in>set (db_pages d). xp_id p = db_view d")
  case True
  then have "js_find (\<lambda>p. xp_id p = db_view d) (db_pages d) \<noteq> None" by auto
  then obtain p where "js_find (\<lambda>p. xp_id p = db_view d) (db_pages d) = Some p" by (elim not_None_eq [THEN iffD1, THEN exE])
  moreover have "db_view d \<notin> set VIEW_IDS" using True view_not_page [OF assms(1)] by blast
  ultimately show ?thesis by (auto simp: dash_body_def Let_def VIEW_IDS_def)
next
  case False
  then have "js_find (\<lambda>p. xp_id p = db_view d) (db_pages d) = None" "db_view d \<in> set VIEW_IDS"
    using assms(2) by (auto simp: valid_view_def)
  then show ?thesis by (auto simp: dash_body_def Let_def VIEW_IDS_def simp del: js_find_eq_None)
qed

subsection \<open>Properties\<close>

text \<open>C4. After a dashboard was opened in any history, the current entry holds the state shown and its address is the path of that
  state, unless Back or Forward led to an entry that was there before and is none of the dashboard's views, such as the login
  page; then the next change of the view or the selection puts the address right. Every other entry of the dashboard is at the
  path of the state it holds, and the API clients are scoped to the workspace shown.\<close>

theorem dashboard_history:
  assumes "dash_start d0" "reach (\<lambda>x. x = d0) dash_step d"
  shows "(if foreign_entry (db_pages d) (hi_now (db_history d)) then hi_now (db_history d) \<in> set (entries d0)
      else he_state (hi_now (db_history d)) = Some (nav (db_view d) (db_selected d)) \<and>
        he_path (hi_now (db_history d)) = url_path (stateToPath (db_view d) (db_selected d) (db_pages d))) \<and>
    (dash_handler d d' \<and> nav_of d' \<noteq> nav_of d \<longrightarrow> he_state (hi_now (db_history (commit d'))) = Some (nav (db_view d') (db_selected d')) \<and>
       he_path (hi_now (db_history (commit d'))) = url_path (stateToPath (db_view d') (db_selected d') (db_pages d'))) \<and>
    (\<forall>e \<in> set (entries d). \<forall>n. he_state e = Some n \<longrightarrow>
       he_path e = url_path (stateToPath (nav_view n) (nav_selected n) (db_pages d))) \<and>
    db_apiWorkspace d = map_option wk_id (workspace d)"
proof -
  have m: "mirrored d" using dash_sys.reach_inv [of d] reach_from [OF assms(2)] assms(1) by blast
  have "foreign_entries d \<subseteq> foreign_entries d0" using assms(2) by (rule opened.reach_inv)
  then have f: "foreign_entry (db_pages d) (hi_now (db_history d)) \<longrightarrow> hi_now (db_history d) \<in> set (entries d0)"
    by (auto simp: foreign_entries_def entries_def)
  have at: "he_path (hi_now (db_history u)) = url_path (stateToPath (db_view u) (db_selected u) (db_pages u))"
    if "mirrored u" "he_state (hi_now (db_history u)) = Some (nav_of u)" for u
    using that by (auto simp: mirrored_def entries_def entry_ok_def nav_path_def nav_of_def)
  have t: "tracked (commit d')" if "dash_handler d d'" "nav_of d' \<noteq> nav_of d"
    using handler_frame [OF that(1)] that m by (intro handler_tracks) (auto simp: nav_of_def mirrored_def)
  show ?thesis using m f at [OF m] t at [OF tracked_mirrored [OF t]]
    by (auto simp: tracked_def mirrored_def entries_def entry_ok_def list_all_iff nav_path_def nav_of_def split: option.splits)
qed

definition fresh_history :: "string \<Rightarrow> history" where
  "fresh_history p = \<lparr>hi_past = [], hi_now = \<lparr>he_state = None, he_path = p\<rparr>, hi_future = []\<rparr>"

definition demo_dash :: dash where
  "demo_dash = \<lparr>db_embedded = False, db_pages = [], db_view = ''workflows'', db_range = ''7d'',
     db_selected = [(''workflow'', ''bot'')], db_workspaces = [], db_selectedWorkspaceId = None, db_apiWorkspace = None,
     db_cmdOpen = False, db_navOpen = False, db_createWsIntent = False, db_histInit = False, db_dirty = True,
     db_history = fresh_history ''/workflows/bot'', db_browser = fresh_browser\<rparr>"

lemma demo_dash_simps [simp]:
  "db_view demo_dash = ''workflows''" "db_selected demo_dash = [(''workflow'', ''bot'')]" "db_pages demo_dash = []"
  "db_embedded demo_dash = False" "db_browser demo_dash = fresh_browser"
  by (simp_all add: demo_dash_def)

lemma demo_dash_init: "dash_init False EMPTY_EXTENSIONS r (fresh_history ''/workflows/bot'') fresh_browser = Inr demo_dash"
proof -
  have "pathToState ''/workflows/bot'' [] = Some (nav ''workflows'' [(''workflow'', ''bot'')])" by code_simp
  then show ?thesis
    by (simp add: dash_init_def EMPTY_EXTENSIONS_def validateExtensions_def computeInitialNav_def fresh_history_def
        fresh_browser_def demo_dash_def)
qed

lemma demo_dash_start: "dash_start (commit demo_dash)"
  unfolding dash_start_def by (intro exI conjI) (rule demo_dash_init, rule refl, simp add: fresh_history_def)

lemma demo_dash_tracked: "tracked (commit demo_dash)"
  by (intro commit_tracks) (simp_all add: demo_dash_def fresh_history_def pages_ok_def)

lemma setView_simps [simp]:
  "db_view (setView v d) = v" "db_selected (setView v d) = db_selected d" "db_pages (setView v d) = db_pages d"
  "db_embedded (setView v d) = db_embedded d" "db_history (setView v d) = db_history d"
  "db_histInit (setView v d) = db_histInit d" "db_dirty (setView v d) = (db_dirty d \<or> v \<noteq> db_view d)"
  "workspace (setView v d) = workspace d"
  by (simp_all add: setView_def setViewRaw_def persist_item_def Let_def workspace_def split: option.splits)

lemma setSelected_simps [simp]:
  "db_view (setSelected f d) = db_view d" "db_selected (setSelected f d) = f (db_selected d)"
  "db_pages (setSelected f d) = db_pages d" "db_embedded (setSelected f d) = db_embedded d"
  "db_history (setSelected f d) = db_history d" "db_histInit (setSelected f d) = db_histInit d" "db_dirty (setSelected f d)"
  by (simp_all add: setSelected_def)

theorem dashboard_history_witness:
  "he_path (hi_now (db_history (commit (setView ''usage'' (commit demo_dash))))) = ''/usage''"
proof -
  have usage: "url_path (stateToPath ''usage'' [(''workflow'', ''bot'')] []) = ''/usage''" by code_simp
  have "reach (\<lambda>x. x = commit demo_dash) dash_step (commit demo_dash)" by (rule reach_init) (rule refl)
  then have "reach (\<lambda>x. x = commit demo_dash) dash_step (commit (setView ''usage'' (commit demo_dash)))"
    by (rule reach_step) (rule step_handler, rule on_view)
  moreover have "\<not> foreign_entry (db_pages demo_dash) (hi_now (db_history (commit (setView ''usage'' (commit demo_dash)))))"
    by (simp add: foreign_entry_def commit_def Let_def mirror_def pushState_def replaceState_def)
  ultimately have "he_path (hi_now (db_history (commit (setView ''usage'' (commit demo_dash))))) =
    url_path (stateToPath ''usage'' (db_selected demo_dash) (db_pages demo_dash))"
    using dashboard_history [OF demo_dash_start] by simp
  with usage show ?thesis by simp
qed

text \<open>Back onto a foreign entry changes the address and nothing else: after signing up from the login page, Back shows the
  address of the login page over the dashboard.\<close>

lemma back_to_foreign:
  assumes "mirrored d" "hi_past (db_history d) = e # es" "foreign_entry (db_pages d) e"
  shows "he_path (hi_now (db_history (press_back d))) = he_path e \<and> nav_of (press_back d) = nav_of d"
proof -
  let ?d = "d\<lparr>db_history := \<lparr>hi_past = es, hi_now = e, hi_future = hi_now (db_history d) # hi_future (db_history d)\<rparr>\<rparr>"
  have "press_back d = commit ?d" using assms(2,3) by (simp add: press_back_def go_back_def onPop_foreign)
  also have "\<dots> = scope_api ?d" using assms(1) by (simp add: mirrored_def commit_clean)
  finally show ?thesis by (simp add: nav_of_def)
qed


text \<open>C24. A dashboard opens on a view it knows, whatever the address, the stored view and the kept path hold, and renders exactly one
  page for it, with and without workspaces; so does every other known view.\<close>

theorem dashboard_renders_one_page:
  "(dash_init embedded ext r h b = Inr d \<longrightarrow>
      (db_view d \<in> set VIEW_IDS \<or> (\<exists>p\<in>set (de_pages ext). xp_id p = db_view d)) \<and>
      length (dash_body l e (d\<lparr>db_workspaces := ws\<rparr>)) = 1) \<and>
   (pages_ok (db_pages d') \<and> (db_view d' \<in> set VIEW_IDS \<or> (\<exists>p\<in>set (db_pages d'). xp_id p = db_view d')) \<longrightarrow>
     length (dash_body l e d') = 1)"
proof (intro conjI impI)
  assume i: "dash_init embedded ext r h b = Inr d"
  then have p: "pages_ok (db_pages d)" "db_pages d = de_pages ext"
    by (auto simp: dash_init_def Let_def validateExtensions_def pages_ok_def split: sum.splits option.splits if_splits)
  have v: "valid_view (db_pages d) (db_view d)" using i computeInitialNav_valid
    by (fastforce simp: dash_init_def Let_def split: sum.splits option.splits if_splits)
  then show "db_view d \<in> set VIEW_IDS \<or> (\<exists>p\<in>set (de_pages ext). xp_id p = db_view d)"
    unfolding p(2) valid_view_def .
  show "length (dash_body l e (d\<lparr>db_workspaces := ws\<rparr>)) = 1" using p(1) v by (intro dash_body_page) simp_all
qed (simp add: dash_body_page valid_view_def)

text \<open>The embedded preview never touches the storage, the history or the scope of the API clients: no handler does,
  and neither do the effects of a render.\<close>

theorem embedded_isolated:
  assumes "db_embedded d" "dash_handler d d'"
  shows "db_embedded (commit d') \<and> db_browser (commit d') = db_browser d \<and> db_history (commit d') = db_history d \<and>
    db_apiWorkspace (commit d') = db_apiWorkspace d"
  using handler_frame [OF assms(2)] assms(1) by (simp add: commit_def Let_def scope_api_def mirror_def)



theorem dashboard_renders_one_page_witness:
  "db_view demo_dash \<in> set VIEW_IDS \<and> length (dash_body False False (demo_dash\<lparr>db_workspaces := []\<rparr>)) = 1"
  using dashboard_renders_one_page [of False EMPTY_EXTENSIONS "[]" "fresh_history ''/workflows/bot''" fresh_browser demo_dash
      False False "[]"] demo_dash_init by (simp add: EMPTY_EXTENSIONS_def)

theorem embedded_isolated_witness:
  "db_browser (commit (setView ''usage'' (demo_dash\<lparr>db_embedded := True\<rparr>))) = fresh_browser"
  using embedded_isolated [OF _ on_view, of "demo_dash\<lparr>db_embedded := True\<rparr>" "''usage''"] by simp

text \<open>C13. A link opened while logged out is opened after the login: the path is kept over the redirect and the login, the
  dashboard starts in its state with its address, and the kept path is dropped.\<close>

theorem deep_link_survives_login:
  assumes "pathToState p (de_pages ext) = Some n" "validateExtensions ext = Inr ()"
    and "p \<noteq> ''/login''" "p \<noteq> ''/signup''" "\<not> starts_with p ''/invite/''" "p \<noteq> []"
    and "br_ok (ap_browser a)" "he_path (hi_now h) = ''/login''"
  shows "\<exists>d. dash_init False ext r h (ap_browser (handleLogin t e
      (a\<lparr>ap_browser := requireAuthRedirect p (ap_browser a)\<rparr>))) = Inr d \<and>
    nav_of (commit d) = n \<and> he_path (hi_now (db_history (commit d))) = nav_path (de_pages ext) n \<and>
    jm_get (br_session (db_browser (commit d))) REDIRECT_KEY = None"
proof -
  define b where "b = ap_browser (handleLogin t e (a\<lparr>ap_browser := requireAuthRedirect p (ap_browser a)\<rparr>))"
  have b: "br_ok b" "jm_get (br_session b) REDIRECT_KEY = Some p"
    using assms(3-7) by (simp_all add: b_def requireAuthRedirect_def handlers_ok)
  then have "computeInitialNav True (de_pages ext) (he_path (hi_now h)) b = Some n"
    using assms(1,6) by (simp add: computeInitialNav_def assms(8) login_unparsed)
  then obtain d where d: "dash_init False ext r h b = Inr d" "db_view d = nav_view n" "db_selected d = nav_selected n"
    using assms(2) b(1) by (simp add: dash_init_def)
  note i = dash_init_ok [OF d(1)]
  have "he_path (hi_now (db_history (commit d))) = nav_path (de_pages ext) n"
    "jm_get (br_session (db_browser (commit d))) REDIRECT_KEY = None"
    using i d(2,3) by (simp_all add: commit_def Let_def mirror_def replaceState_def nav_path_def)
  moreover have "nav_of (commit d) = n" using d(2,3) by (simp add: nav_of_def nav_def)
  ultimately show ?thesis using d(1) unfolding b_def by blast
qed

theorem deep_link_survives_login_witness:
  "\<exists>d. dash_init False EMPTY_EXTENSIONS [] (fresh_history ''/login'') (ap_browser (handleLogin ''t'' ''e''
      (fresh_app\<lparr>ap_browser := requireAuthRedirect ''/workflows/bot'' (ap_browser fresh_app)\<rparr>))) = Inr d \<and>
    nav_of (commit d) = nav ''workflows'' [(''workflow'', ''bot'')]"
proof -
  have "pathToState ''/workflows/bot'' (de_pages EMPTY_EXTENSIONS) = Some (nav ''workflows'' [(''workflow'', ''bot'')])"
    "validateExtensions EMPTY_EXTENSIONS = Inr ()" by code_simp+
  from deep_link_survives_login [OF this, of fresh_app "fresh_history ''/login''" "[]" "''t''" "''e''"] show ?thesis
    by (auto simp: fresh_app_def fresh_browser_def fresh_history_def)
qed

lemma created_workspace_shown:
  assumes "\<not> db_embedded d" "br_ok (db_browser d)" "wk_id ws \<notin> wk_id ` set (db_workspaces d)"
  shows "workspace (createWorkspace ws d) = Some ws"
proof -
  have "js_find (\<lambda>w. Some (wk_id w) = Some (wk_id ws)) (db_workspaces d @ [ws]) = Some ws"
    using assms(3) by (intro js_find_last) (auto simp: image_iff)
  then show ?thesis
    using assms(1,2) by (simp add: dash_handler_defs created_workspace_def workspace_def pick_workspace_def)
qed

text \<open>C36. Requests follow the workspace: a created workspace is shown, stored and put into the query of the reads that
  follow, whatever was selected before; a deleted one is not shown again.\<close>

theorem workspace_followed:
  assumes "\<not> db_embedded d" "br_ok (db_browser d)" "wk_id ws \<noteq> []" "wk_id ws \<notin> wk_id ` set (db_workspaces d)"
    and "jm_get (query_of params) ''workspace_id'' = None"
  shows "workspace (createWorkspace ws d) = Some ws \<and>
    jm_get (br_local (db_browser (commit (createWorkspace ws d)))) WORKSPACE_KEY = Some (wk_id ws) \<and>
    jm_get (hr_query (client_get (scopedConfig cfg (db_apiWorkspace (commit (createWorkspace ws d)))) path params))
      ''workspace_id'' = Some (wk_id ws) \<and>
    map_option wk_id (workspace (deleteWorkspace i d)) \<noteq> Some i"
proof (intro conjI)
  let ?d = "createWorkspace ws d"
  show w: "workspace ?d = Some ws" using assms(1,2,4) by (rule created_workspace_shown)
  have "jm_get (br_local (db_browser ?d)) WORKSPACE_KEY = Some (wk_id ws)"
    using assms(1,2) by (simp add: dash_handler_defs)
  then show "jm_get (br_local (db_browser (commit ?d))) WORKSPACE_KEY = Some (wk_id ws)"
    by (simp add: commit_def Let_def mirror_def)
  have "\<not> db_embedded ?d" using assms(1,2) by (simp add: dash_handler_defs)
  then have "db_apiWorkspace (commit ?d) = Some (wk_id ws)" using w by (simp add: commit_def Let_def scope_api_def)
  then show "jm_get (hr_query (client_get (scopedConfig cfg (db_apiWorkspace (commit ?d))) path params)) ''workspace_id''
      = Some (wk_id ws)"
    using assms(3,5) query_of_wf [of params] by (simp add: client_get_def scopedConfig_def Let_def jm_has_def)
  show "map_option wk_id (workspace (deleteWorkspace i d)) \<noteq> Some i"
    using assms(1) pick_workspace_spec(2)
    by (fastforce simp: deleteWorkspace_def deleted_workspace_def workspace_def)
qed

definition demo_ws :: Workspace where
  "demo_ws = \<lparr>wk_id = ''w1'', wk_name = ''One'', wk_slug = ''one'', wk_role = ''Owner'', wk_members = 1, wk_env = Staging\<rparr>"

theorem workspace_followed_witness: "workspace (createWorkspace demo_ws demo_dash) = Some demo_ws"
proof -
  have "\<not> db_embedded demo_dash" "br_ok (db_browser demo_dash)" "wk_id demo_ws \<noteq> []"
    "wk_id demo_ws \<notin> wk_id ` set (db_workspaces demo_dash)" "jm_get (query_of []) ''workspace_id'' = None"
    by (simp_all add: fresh_browser_def demo_ws_def demo_dash_def query_of_def)
  from workspace_followed [OF this] show ?thesis by blast
qed

text \<open>A view of the dashboard that is none of an extension.\<close>

definition plain_view :: "ViewId \<Rightarrow> dash \<Rightarrow> bool" where
  "plain_view v d \<longleftrightarrow> workspace d \<noteq> None \<and> js_find (\<lambda>p. xp_id p = v) (db_pages d) = None"

lemma setSelected_plain [simp]:
  "workspace (setSelected f d) = workspace d" "db_pages (setSelected f d) = db_pages d" "db_embedded (setSelected f d) = db_embedded d"
  "db_selected (setSelected f d) = f (db_selected d)"
  by (simp_all add: workspace_def setSelected_def)

lemma plain_viewD:
  assumes "plain_view v d"
  shows "workspace d \<noteq> None" "js_find (\<lambda>p. xp_id p = v) (db_pages d) = None"
  using assms unfolding plain_view_def by (rule conjunct1, rule conjunct2)

definition palette_ok :: "(string \<Rightarrow> string) \<Rightarrow> palette \<Rightarrow> bool" where
  "palette_ok lower p \<longleftrightarrow> cmd_filtered lower (pa_query p) = [] \<or>
     0 \<le> pa_idx p \<and> pa_idx p < int (length (cmd_filtered lower (pa_query p)))"

lemma cmd_filtered_subset: "set (cmd_filtered lower q) \<subseteq> set CMD_ITEMS"
  by (auto simp: cmd_filtered_def)

lemma cmd_item_runs:
  assumes "i \<in> set CMD_ITEMS"
  shows "ca_view (ci_action i) = Some (db_view (handleCommandSelect (Some (ci_action i)) d)) \<and>
    db_view (handleCommandSelect (Some (ci_action i)) d) \<in> set VIEW_IDS"
proof -
  obtain v where "ci_action i = to_view v" "v \<in> {''overview'', ''workflows'', ''usage'', ''users'', ''keys'', ''settings''}"
    using assms by (auto simp: CMD_ITEMS_def)
  then show ?thesis by (auto simp: to_view_def handleCommandSelect_def truthy_str_def VIEW_IDS_def)
qed

lemma palette_key_ok: "palette_ok lower p \<Longrightarrow> palette_ok lower (fst (palette_key lower key (p, d)))"
  by (auto simp: palette_ok_def palette_key_def Let_def)

text \<open>In the command palette the highlighted row exists whenever a row is listed, so Enter opens the highlighted
  view and, where the storage works, closes the palette; with nothing listed Enter only closes it.\<close>

theorem palette_selects:
  "palette_ok lower palette_init \<and> palette_ok lower (palette_type q p) \<and>
   (palette_ok lower p \<longrightarrow>
      palette_ok lower (fst (palette_key lower key (p, d))) \<and>
      (let d' = snd (palette_key lower ''Enter'' (p, d)); rows = cmd_filtered lower (pa_query p) in
       (storage_works d \<longrightarrow> \<not> db_cmdOpen d') \<and>
       (if rows = [] then d' = d\<lparr>db_cmdOpen := False\<rparr>
        else ca_view (ci_action (rows ! nat (pa_idx p))) = Some (db_view d') \<and> db_view d' \<in> set VIEW_IDS)))"
proof (intro conjI impI)
  show "palette_ok lower palette_init" "palette_ok lower (palette_type q p)"
    by (simp_all add: palette_ok_def palette_init_def palette_type_def)
  assume p: "palette_ok lower p"
  then show "palette_ok lower (fst (palette_key lower key (p, d)))" by (rule palette_key_ok)
  define rows where "rows = cmd_filtered lower (pa_query p)"
  have enter: "snd (palette_key lower ''Enter'' (p, d)) = choose_action (map_option ci_action (item_at rows (pa_idx p))) d"
    by (simp add: palette_key_def rows_def Let_def)
  show "let d' = snd (palette_key lower ''Enter'' (p, d)); rows = cmd_filtered lower (pa_query p) in
       (storage_works d \<longrightarrow> \<not> db_cmdOpen d') \<and>
       (if rows = [] then d' = d\<lparr>db_cmdOpen := False\<rparr>
        else ca_view (ci_action (rows ! nat (pa_idx p))) = Some (db_view d') \<and> db_view d' \<in> set VIEW_IDS)"
  proof (cases "rows = []")
    case True
    then have "item_at rows (pa_idx p) = None" by (simp add: item_at_def)
    with True show ?thesis unfolding enter rows_def [symmetric] Let_def
      by (simp add: choose_action_def handleCommandSelect_def)
  next
    case False
    then have i: "0 \<le> pa_idx p" "pa_idx p < int (length rows)" using p by (simp_all add: palette_ok_def rows_def)
    then have "rows ! nat (pa_idx p) \<in> set rows" by (intro nth_mem) (simp add: nat_less_iff)
    then have "rows ! nat (pa_idx p) \<in> set CMD_ITEMS" using cmd_filtered_subset unfolding rows_def by (rule rev_subsetD)
    from cmd_item_runs [OF this, of d] show ?thesis unfolding enter rows_def [symmetric] Let_def
      using False i by (simp add: item_at_def choose_action_def Let_def)
  qed
qed

theorem palette_selects_witness:
  "db_view (snd (palette_key to_lower ''Enter'' (palette_init, demo_dash))) = ''overview''"
  using palette_selects [of to_lower "[]" palette_init "[]" demo_dash]
  by (simp add: Let_def palette_init_def cmd_filtered_def trim_def CMD_ITEMS_def to_view_def)

end
