(* ===== verification/Formatters.thy ===== *)
theory Formatters
  imports Api_Types
begin

text \<open>
  The presentation helpers under \<open>common/utils\<close>: money, token, percentage and duration
  formatting, relative times, ranges, deltas, and the mapping from time buckets to chart points.
\<close>

subsection \<open>Number formatting (formatters.ts)\<close>

definition fmtCost :: "rat \<Rightarrow> string" where
  "fmtCost usd =
     (if usd = 0 then ''$0.00''
      else if usd < 1 / 1000 then ''< $0.001''
      else if usd < 1 / 100 then ''$'' @ to_fixed 4 usd
      else ''$'' @ to_fixed 2 usd)"

definition fmtTokens :: "rat \<Rightarrow> string" where
  "fmtTokens n =
     (if n < 1000 then int_str (math_round n)
      else if n < 1000000 then to_fixed 1 (n / 1000) @ ''k''
      else to_fixed 1 (n / 1000000) @ ''M'')"

definition fmtNum :: "host \<Rightarrow> rat \<Rightarrow> string" where
  "fmtNum h n = loc_number h n"

definition plural :: "host \<Rightarrow> rat \<Rightarrow> string \<Rightarrow> string" where
  "plural h n noun = fmtNum h n @ '' '' @ noun @ (if n = 1 then [] else ''s'')"

definition fmtPct :: "rat \<Rightarrow> string" where
  "fmtPct n =
     (if n < 1 / 100 \<and> n > 0 then ''<0.01'' else to_fixed (if n < 10 then 2 else 1) n) @ ''%''"

definition fmtMs :: "rat \<Rightarrow> string" where
  "fmtMs n = (if n \<ge> 1000 then to_fixed 2 (n / 1000) @ ''s'' else int_str (math_round n) @ ''ms'')"

definition fmtDelta :: "jsnum \<Rightarrow> string" where
  "fmtDelta fraction =
     (case fraction of
        Fin f \<Rightarrow>
          (let tenths = nat (math_round (\<bar>f\<bar> * 1000)) in
           if tenths = 0 then ''0%''
           else (if f > 0 then ''+'' else ''-'') @ tenths_str tenths @ ''%'')
      | _ \<Rightarrow> em_dash)"

lemma math_round_eq_0: "0 \<le> x \<Longrightarrow> math_round x = 0 \<longleftrightarrow> x < 1 / 2"
  by (auto simp: math_round_def floor_eq_iff)

lemma fmtDelta_zero_iff: "fmtDelta (Fin f) = ''0%'' \<longleftrightarrow> \<bar>f\<bar> < 1 / 2000"
proof -
  have "nat (math_round (\<bar>f\<bar> * 1000)) = 0 \<longleftrightarrow> \<bar>f\<bar> < 1 / 2000"
    using math_round_eq_0 [of "\<bar>f\<bar> * 1000"] math_round_nonneg [of "\<bar>f\<bar> * 1000"] by auto
  then show ?thesis by (auto simp: fmtDelta_def Let_def)
qed

lemma fmtDelta_sign:
  assumes "1 / 2000 \<le> \<bar>f\<bar>"
  shows "starts_with (fmtDelta (Fin f)) ''+'' \<longleftrightarrow> f > 0"
    and "starts_with (fmtDelta (Fin f)) ''-'' \<longleftrightarrow> f < 0"
  using assms fmtDelta_zero_iff [of f] by (auto simp: fmtDelta_def Let_def split: if_splits)

subsection \<open>Relative and absolute times (time.ts)\<close>

definition relativeTime :: "int \<Rightarrow> int \<Rightarrow> string" where
  "relativeTime ms now =
     (let s = max 0 ((now - ms) div 1000) in
      if s < 10 then ''just now''
      else if s < 60 then int_str s @ ''s ago''
      else let m = s div 60 in
        if m < 60 then int_str m @ ''m ago''
        else let hr = m div 60 in
          if hr < 24 then int_str hr @ ''h ago''
          else int_str (hr div 24) @ ''d ago'')"

definition formatDate :: "host \<Rightarrow> string \<Rightarrow> string" where
  "formatDate h isostr = (case date_parse h isostr of None \<Rightarrow> em_dash | Some t \<Rightarrow> loc_date h t)"

definition formatDateTime :: "host \<Rightarrow> int \<Rightarrow> string" where
  "formatDateTime h ms = loc_date h ms @ '' '' @ mid_dot @ '' '' @ loc_time h ms"

text \<open>The unit and the whole number of units a relative time shows.\<close>

datatype age = JustNow | Seconds int | Minutes int | Hours int | Days int

definition age_of :: "int \<Rightarrow> age" where
  "age_of s = (if s < 10 then JustNow else if s < 60 then Seconds s
     else if s < 3600 then Minutes (s div 60) else if s < 86400 then Hours (s div 3600)
     else Days (s div 86400))"

fun age_str :: "age \<Rightarrow> string" where
  "age_str JustNow = ''just now''"
| "age_str (Seconds n) = int_str n @ ''s ago''"
| "age_str (Minutes n) = int_str n @ ''m ago''"
| "age_str (Hours n) = int_str n @ ''h ago''"
| "age_str (Days n) = int_str n @ ''d ago''"

lemma relativeTime_age: "relativeTime ms now = age_str (age_of (max 0 ((now - ms) div 1000)))"
proof -
  define s where "s = max 0 ((now - ms) div 1000)"
  have m: "s div 60 div 60 = s div 3600" and d: "s div 3600 div 24 = s div 86400"
    by (simp_all flip: zdiv_zmult2_eq)
  have lt: "s div 60 < 60 \<longleftrightarrow> s < 3600" by (simp add: div_less_iff_int)
  have lt': "s div 3600 < 24 \<longleftrightarrow> s < 86400" by (simp add: div_less_iff_int)
  show ?thesis
    by (auto simp: relativeTime_def Let_def s_def [symmetric] age_of_def m d lt lt')
qed

subsection \<open>Ranges (ranges.ts)\<close>

definition LONG_RANGES :: "string list" where
  [data_defs]: "LONG_RANGES = [''90d'', ''1y'']"

definition isLongRange :: "string \<Rightarrow> bool" where
  "isLongRange rng \<longleftrightarrow> rng \<in> set LONG_RANGES"

definition RANGE_LABEL :: "(string, string) jsmap" where
  [data_defs]: "RANGE_LABEL =
     [(''24h'', ''last 24 hours''), (''7d'', ''last 7 days''), (''30d'', ''last 30 days''),
      (''90d'', ''last 90 days''), (''1y'', ''last year'')]"

definition rangeLabel :: "string \<Rightarrow> string" where
  "rangeLabel rng = nullish (jm_get RANGE_LABEL rng) (nullish (jm_get RANGE_LABEL ''7d'') [])"

definition periodLabel :: "string \<Rightarrow> string" where
  "periodLabel rng =
     (let label = rangeLabel rng in to_upper (take 1 label) @ drop 1 label)"

subsection \<open>Deltas (deltas.ts)\<close>

record delta_parts =
  dp_delta :: string
  dp_deltaTone :: DeltaTone
  dp_hint :: string

definition deltaParts :: "Kpi \<Rightarrow> delta_parts" where
  "deltaParts k =
     (if kpi_delta_type k = Neutral
      then \<lparr>dp_delta = [], dp_deltaTone = Neutral, dp_hint = ''no change''\<rparr>
      else \<lparr>dp_delta = fmtDelta (kpi_delta k), dp_deltaTone = kpi_delta_type k,
            dp_hint = ''vs prev period''\<rparr>)"

subsection \<open>Time buckets (buckets.ts)\<close>

definition WEEKDAYS :: "string list" where
  [data_defs]: "WEEKDAYS = [''Sun'', ''Mon'', ''Tue'', ''Wed'', ''Thu'', ''Fri'', ''Sat'']"

definition bucketLabel :: "host \<Rightarrow> int \<Rightarrow> string \<Rightarrow> string" where
  "bucketLabel h ms rng =
     (if rng = ''24h'' then pad_start 2 (CHR ''0'') (nat_str (local_hours h ms)) @ '':00''
      else let day = int_str (get_utc_month ms + 1) @ ''/'' @ int_str (get_utc_date ms) in
        if rng = ''7d'' then WEEKDAYS ! nat (get_utc_day ms) @ '' '' @ day else day)"

definition toCostPoints :: "host \<Rightarrow> CostBucket list \<Rightarrow> string \<Rightarrow> CostPoint list" where
  "toCostPoints h buckets rng =
     map (\<lambda>b. \<lparr>cp_label = bucketLabel h (cb_bucket_ms b) rng, cp_value = cb_value b\<rparr>) buckets"

definition toSeconds :: "rat option \<Rightarrow> rat option" where
  "toSeconds ms = (case ms of None \<Rightarrow> None | Some v \<Rightarrow> Some (v / 1000))"

definition toLatencyPoints :: "host \<Rightarrow> LatencyBucket list \<Rightarrow> string \<Rightarrow> LatencyPoint list" where
  "toLatencyPoints h buckets rng =
     map (\<lambda>b. \<lparr>lp_label = bucketLabel h (lb_bucket_ms b) rng, lp_p50 = toSeconds (lb_p50 b),
                lp_p95 = toSeconds (lb_p95 b), lp_p99 = toSeconds (lb_p99 b)\<rparr>) buckets"

definition toErrorPoints :: "host \<Rightarrow> ErrorBucket list \<Rightarrow> string \<Rightarrow> ErrorPoint list" where
  "toErrorPoints h buckets rng =
     map (\<lambda>b. \<lparr>ep_label = bucketLabel h (eb_bucket_ms b) rng, ep_errors = eb_errors b,
                ep_total = eb_total b\<rparr>) buckets"

text \<open>The weekday table is never indexed outside its seven entries.\<close>

lemma weekday_index: "nat (get_utc_day ms) < length WEEKDAYS"
  using get_utc_day_range [of ms] by (simp add: WEEKDAYS_def)

lemma utc_date_reconstructs:
  "day_of t = day_from_year (year_from_day (day_of t))
     + month_start (leap_day (year_from_day (day_of t))) (get_utc_month t) + get_utc_date t - 1"
  by (simp add: get_utc_date_def day_in_year_def)

subsection \<open>Properties\<close>

text \<open>A formatted change reads \<open>0%\<close> exactly when it rounds to zero tenths of a percent; otherwise it
  carries the sign of the change, and a change that is not a finite number reads as a dash.\<close>

theorem fmtDelta_reads:
  "(fmtDelta (Fin f) = ''0%'' \<longleftrightarrow> \<bar>f\<bar> < 1 / 2000)
   \<and> (1 / 2000 \<le> \<bar>f\<bar> \<longrightarrow>
        (starts_with (fmtDelta (Fin f)) ''+'' \<longleftrightarrow> f > 0)
        \<and> (starts_with (fmtDelta (Fin f)) ''-'' \<longleftrightarrow> f < 0))
   \<and> (\<not> is_finite x \<longrightarrow> fmtDelta x = em_dash)"
  using fmtDelta_zero_iff [of f] fmtDelta_sign [of f]
  by (auto simp: is_finite_def fmtDelta_def split: jsnum.splits)

theorem fmtDelta_reads_witness:
  "fmtDelta (Fin (-1 / 10)) \<noteq> ''0%'' \<and> starts_with (fmtDelta (Fin (-1 / 10))) ''-''
   \<and> fmtDelta NotANumber = em_dash"
  using fmtDelta_reads [of "-1 / 10" NotANumber] by (simp add: is_finite_def)

text \<open>Costs of a tenth of a cent and more are printed with two or four decimals, and the printed
  amount is within half a unit of the last printed digit.\<close>

theorem fmtCost_accurate:
  assumes "1 / 1000 \<le> usd"
  shows "\<exists>n d. fmtCost usd = ''$'' @ fixed_digits d n
     \<and> d = (if usd < 1 / 100 then 4 else 2)
     \<and> \<bar>of_nat n / 10 ^ d - usd\<bar> \<le> 1 / (2 * 10 ^ d)"
proof -
  let ?d = "if usd < 1 / 100 then 4 else 2 :: nat"
  have "0 \<le> usd" "usd \<noteq> 0" "\<not> usd < 0" using assms by auto
  then have "fmtCost usd = ''$'' @ fixed_digits ?d (fixed_units ?d usd)"
    using assms by (simp add: fmtCost_def to_fixed_def)
  with fixed_units_error [OF \<open>0 \<le> usd\<close>, of ?d] show ?thesis by blast
qed

theorem fmtCost_accurate_witness:
  "\<exists>n d. fmtCost (1 / 8) = ''$'' @ fixed_digits d n
     \<and> d = (if (1 / 8 :: rat) < 1 / 100 then 4 else 2)
     \<and> \<bar>of_nat n / 10 ^ d - (1 / 8 :: rat)\<bar> \<le> 1 / (2 * 10 ^ d)"
  by (rule fmtCost_accurate) simp

text \<open>A relative time is the age in the largest unit of which at least one whole has passed
  (anything under ten seconds, or in the future, is now), rounded down.\<close>

theorem relativeTime_largest_unit:
  "relativeTime ms now = age_str (age_of (max 0 ((now - ms) div 1000)))"
  by (rule relativeTime_age)

text \<open>The label of a daily bucket is the UTC calendar date of its day: a month and a day of the
  month that, with the year, give back the bucket's day number.\<close>

theorem bucketLabel_utc_date:
  assumes "rng \<noteq> ''24h''" "rng \<noteq> ''7d''"
  shows "\<exists>y m d. bucketLabel h ms rng = int_str m @ ''/'' @ int_str d
     \<and> 1 \<le> m \<and> m \<le> 12 \<and> 1 \<le> d \<and> d \<le> 31
     \<and> day_from_year y \<le> day_of ms \<and> day_of ms < day_from_year (y + 1)
     \<and> day_of ms = day_from_year y + month_start (leap_day y) (m - 1) + d - 1"
proof (intro exI conjI)
  let ?y = "year_from_day (day_of ms)"
  show "bucketLabel h ms rng = int_str (get_utc_month ms + 1) @ ''/'' @ int_str (get_utc_date ms)"
    using assms by (simp add: bucketLabel_def Let_def)
  show "day_from_year ?y \<le> day_of ms" "day_of ms < day_from_year (?y + 1)"
    using year_from_day_correct by auto
  show "day_of ms = day_from_year ?y
      + month_start (leap_day ?y) (get_utc_month ms + 1 - 1) + get_utc_date ms - 1"
    using utc_date_reconstructs [of ms] by simp
qed (use get_utc_month_range [of ms] get_utc_date_range [of ms] in auto)

theorem bucketLabel_utc_date_witness:
  "\<exists>y m d. bucketLabel \<lparr>loc_number = \<lambda>_. [], loc_date = \<lambda>_. [], loc_time = \<lambda>_. [],
       loc_day_utc = \<lambda>_. [], loc_day_time = \<lambda>_. [], local_hours = \<lambda>_. 0, date_parse = \<lambda>_. None\<rparr>
       1713225600000 ''30d'' = int_str m @ ''/'' @ int_str d
     \<and> 1 \<le> m \<and> m \<le> 12 \<and> 1 \<le> d \<and> d \<le> 31
     \<and> day_from_year y \<le> day_of 1713225600000 \<and> day_of 1713225600000 < day_from_year (y + 1)
     \<and> day_of 1713225600000 = day_from_year y + month_start (leap_day y) (m - 1) + d - 1"
  by (rule bucketLabel_utc_date) simp_all

end
