(* ===== verification/Traces.thy ===== *)
theory Traces
  imports Formatters
begin

text \<open>
  The trace explorer: the conversion of an API trace, a flat list of spans linked by parent
  identifiers, into the depth-annotated pre-order list the timeline shows
  (\<open>modules/trace-explorer/utils/toTraceView.ts\<close>), and the row of a trace in a list of runs
  (\<open>toRunRow.ts\<close>). The closure \<open>visit\<close>, which recurses over the children of a span and mutates
  \<open>seen\<close> and \<open>ordered\<close>, is a recursion on the list of spans still to visit, with both in its state.
\<close>

subsection \<open>Spans\<close>

definition isLlmSpan :: "Span \<Rightarrow> bool" where
  "isLlmSpan s \<longleftrightarrow> sp_model s \<noteq> [] \<or> sp_input_tokens s > 0 \<or> sp_output_tokens s > 0"

fun kind_type :: "span_kind \<Rightarrow> span_type" where
  "kind_type KAgent = TAgent"
| "kind_type KLlm = TLlm"
| "kind_type KTool = TTool"
| "kind_type KChain = TChain"
| "kind_type KRetriever = TRetriever"
| "kind_type KEmbedding = TEmbedding"

definition spanType :: "Span \<Rightarrow> bool \<Rightarrow> Span option \<Rightarrow> span_type" where
  "spanType s isRoot parent =
     (case sp_kind s of
        Some k \<Rightarrow> kind_type k
      | None \<Rightarrow>
          if isRoot then TAgent
          else if isLlmSpan s then TLlm
          else (case parent of
                  None \<Rightarrow> TInternal
                | Some p \<Rightarrow> if isLlmSpan p then TTool else TInternal))"

definition spanAttributes :: "Span \<Rightarrow> (string \<times> string) list" where
  "spanAttributes s =
     filter (\<lambda>(k, v). v \<noteq> [])
       [(''llm.model'', sp_model s), (''llm.model_normalized'', sp_model_normalized s),
        (''finish_reason'', sp_finish_reason s)]"

subsection \<open>The tree of a trace\<close>

definition by_id :: "Span list \<Rightarrow> (string, Span) jsmap" where
  "by_id spans = jm_of (map (\<lambda>s. (sp_span_id s, s)) spans)"

definition isRoot :: "Span list \<Rightarrow> Span \<Rightarrow> bool" where
  "isRoot spans s \<longleftrightarrow> sp_parent_span_id s = [] \<or> \<not> jm_has (by_id spans) (sp_parent_span_id s)"

text \<open>The key a span is grouped under: its parent's identifier, or the empty string for a root.\<close>

definition group_key :: "Span list \<Rightarrow> Span \<Rightarrow> string" where
  "group_key spans s = (if isRoot spans s then [] else sp_parent_span_id s)"

definition by_start :: "Span \<Rightarrow> Span \<Rightarrow> int" where
  "by_start a b = sp_start_time_ms a - sp_start_time_ms b"

definition childrenOf :: "Span list \<Rightarrow> (string, Span list) jsmap" where
  "childrenOf spans =
     map (\<lambda>(k, group). (k, js_sort by_start group))
       (foldl (\<lambda>m s. jm_set (group_key spans s) (nullish (jm_get m (group_key spans s)) [] @ [s]) m)
          [] spans)"

definition children :: "(string, Span list) jsmap \<Rightarrow> string \<Rightarrow> Span list" where
  "children ch k = nullish (jm_get ch k) []"

text \<open>The identifiers seen so far, and the spans emitted so far with their depth.\<close>

type_synonym visit_state = "string list \<times> (Span \<times> nat) list"

text \<open>\<open>visit\<close> on each span of a list in turn, at one depth.\<close>

function visit_list :: "(string, Span list) jsmap \<Rightarrow> Span list \<Rightarrow> nat \<Rightarrow> visit_state \<Rightarrow> visit_state" where
  "visit_list ch [] depth (seen, ordered) = (seen, ordered)"
| "visit_list ch (s # rest) depth (seen, ordered) =
     (if sp_span_id s \<in> set seen then visit_list ch rest depth (seen, ordered)
      else visit_list ch rest depth
             (visit_list ch (children ch (sp_span_id s)) (depth + 1)
                (sp_span_id s # seen, ordered @ [(s, depth)])))"
  by pat_completeness auto

lemma visit_list_seen_dom:
  "visit_list_dom (ch, ss, depth, st) \<Longrightarrow> set (fst st) \<subseteq> set (fst (visit_list ch ss depth st))"
proof (induction ch ss depth st rule: visit_list.pinduct)
  case (2 ch s rest depth seen ordered)
  then show ?case
    by (cases "visit_list ch (children ch (sp_span_id s)) (depth + 1)
          (sp_span_id s # seen, ordered @ [(s, depth)])") (fastforce simp: visit_list.psimps)
qed (simp add: visit_list.psimps)

definition unseen :: "(string, Span list) jsmap \<Rightarrow> string list \<Rightarrow> nat" where
  "unseen ch seen = card (fst ` set ch - set seen)"

lemma unseen_mono: "set seen \<subseteq> set seen' \<Longrightarrow> unseen ch seen' \<le> unseen ch seen"
  unfolding unseen_def by (rule card_mono) auto

lemma unseen_less: "k \<in> fst ` set ch \<Longrightarrow> k \<notin> set seen \<Longrightarrow> unseen ch (k # seen) < unseen ch seen"
  unfolding unseen_def by (rule psubset_card_mono) auto

lemma children_no_key: "k \<notin> fst ` set ch \<Longrightarrow> children ch k = []"
  by (simp add: children_def jm_get_None_iff [THEN iffD2])

termination visit_list
proof (relation "(\<lambda>(ch, ss, d, seen, ord). unseen ch seen) <*mlex*> measure (\<lambda>(ch, ss, d, st). length ss)",
    goal_cases)
  case 1
  show ?case by (simp add: wf_mlex)
next
  case (2 ch s rest depth seen ordered)
  then show ?case by (simp add: mlex_prod_def)
next
  case (3 ch s rest depth seen ordered)
  then show ?case
    using unseen_less [of "sp_span_id s" ch seen] unseen_mono [of seen "sp_span_id s # seen" ch]
      children_no_key [of "sp_span_id s" ch]
    by (cases "sp_span_id s \<in> fst ` set ch") (auto simp: mlex_prod_def le_less)
next
  case (4 ch s rest depth seen ordered)
  obtain seen' ord' where r: "visit_list ch (children ch (sp_span_id s)) (depth + 1)
      (sp_span_id s # seen, ordered @ [(s, depth)]) = (seen', ord')" by force
  have "set seen \<subseteq> set seen'" using visit_list_seen_dom [OF 4(2)] r by auto
  then show ?case using unseen_mono [of seen seen' ch] r by (auto simp: mlex_prod_def le_less)
qed

definition visit :: "(string, Span list) jsmap \<Rightarrow> Span \<Rightarrow> nat \<Rightarrow> visit_state \<Rightarrow> visit_state" where
  "visit ch s depth st = visit_list ch [s] depth st"

definition ordered_spans :: "Span list \<Rightarrow> (Span \<times> nat) list" where
  "ordered_spans spans =
     (let ch = childrenOf spans;
          st = foldl (\<lambda>st r. visit ch r 0 st) ([], []) (children ch []) in
      snd (foldl (\<lambda>st s. visit ch s 0 st) st spans))"

subsection \<open>The view of a trace\<close>

text \<open>The truthiness of an optional string.\<close>

definition truthy :: "string option \<Rightarrow> bool" where
  "truthy x \<longleftrightarrow> x \<noteq> None \<and> x \<noteq> Some []"

definition str_or :: "string \<Rightarrow> string \<Rightarrow> string" where
  "str_or a b = (if a \<noteq> [] then a else b)"

definition span_error :: "Span \<Rightarrow> TraceError option" where
  "span_error s =
     (if sp_error_type s \<noteq> [] \<or> sp_error_message s \<noteq> []
      then Some \<lparr>te_type = str_or (sp_error_type s) ''error'', te_message = str_or (sp_error_message s) [],
                 te_code = [], te_stack = []\<rparr>
      else None)"

definition to_span_detail :: "LiveTrace \<Rightarrow> Span \<times> nat \<Rightarrow> SpanDetail" where
  "to_span_detail trace entry =
     (let (s, depth) = entry; spans = lt_spans trace in
      \<lparr>sd_id = sp_span_id s,
       sd_name = sp_name s,
       sd_type = spanType s (isRoot spans s) (jm_get (by_id spans) (sp_parent_span_id s)),
       sd_start = sp_start_time_ms s - tr_start_time_ms trace,
       sd_duration = sp_duration_ms s,
       sd_depth = depth,
       sd_cost = sp_cost_usd s,
       sd_subtreeCost = Some (sp_subtree_cost_usd s),
       sd_childCount = Some (length (children (childrenOf spans) (sp_span_id s))),
       sd_tokens = sp_input_tokens s + sp_output_tokens s,
       sd_subtreeTokens = Some (sp_subtree_input_tokens s + sp_subtree_output_tokens s),
       sd_inputTokens = Some (sp_input_tokens s),
       sd_outputTokens = Some (sp_output_tokens s),
       sd_status = (if sp_error_type s \<noteq> [] \<or> sp_error_message s \<noteq> [] then SpanFailed else SpanOk),
       sd_error = span_error s,
       sd_input = sp_input s,
       sd_output = sp_output s,
       sd_availableTools = sp_available_tools s,
       sd_setupIssues = sp_setup_issues s,
       sd_attributes = spanAttributes s\<rparr>)"

text \<open>The first recorded content: the root's own, or that of the first span of a list with some.\<close>

definition recorded :: "(Span \<Rightarrow> string option) \<Rightarrow> Span option \<Rightarrow> Span list \<Rightarrow> string option" where
  "recorded f rt spans =
     (let own = Option.bind rt f in
      if truthy own then own else Option.bind (js_find (\<lambda>s. truthy (f s)) spans) f)"

definition toTraceView :: "host \<Rightarrow> LiveTrace \<Rightarrow> TraceDetail" where
  "toTraceView h trace =
     (let live = lt_spans trace;
          spans = map (to_span_detail trace) (ordered_spans live);
          rt = js_find (isRoot live) live;
          byStart = js_sort by_start live;
          traceInput = recorded sp_input rt byStart;
          traceOutput = recorded sp_output rt (rev byStart) in
      \<lparr>td_id = tr_trace_id trace,
       td_workflow = str_or (tr_name trace) ''Untitled trace'',
       td_status = (if tr_has_error trace then Failed else Completed),
       td_duration = tr_duration_ms trace,
       td_totalCost = tr_total_cost_usd trace,
       td_inputTokens = foldl (\<lambda>sum s. sum + sp_input_tokens s) 0 live,
       td_outputTokens = foldl (\<lambda>sum s. sum + sp_output_tokens s) 0 live,
       td_model = str_join '', '' (first_by (\<lambda>m. m) [] (filter (\<lambda>m. m \<noteq> []) (map sp_model live))),
       td_spans = spans,
       td_error = Option.bind (js_find (\<lambda>s. sd_error s \<noteq> None) spans) sd_error,
       td_output = traceOutput,
       td_version = None,
       td_startedAt = Some (formatDateTime h (tr_start_time_ms trace)),
       td_endedAt = Some (formatDateTime h (tr_end_time_ms trace)),
       td_cachedTokens = None,
       td_provider = None,
       td_user = (if tr_user_id trace = [] then None else Some (tr_user_id trace)),
       td_sessionId = None,
       td_environment = None,
       td_region = None,
       td_sdk = None,
       td_input = traceInput,
       td_tags = None\<rparr>)"

text \<open>The row of a trace in a list of runs.\<close>

definition toRunRow :: "int \<Rightarrow> 'a Trace_scheme \<Rightarrow> RunRow" where
  "toRunRow now t =
     \<lparr>rr_id = tr_trace_id t,
      rr_name = None,
      rr_status = (if tr_has_error t then Failed else Completed),
      rr_time = relativeTime (tr_start_time_ms t) now,
      rr_duration = of_int (tr_duration_ms t),
      rr_cost = tr_total_cost_usd t,
      rr_err = None,
      rr_version = tr_workflow_version t\<rparr>"

subsection \<open>What a visit emits\<close>

abbreviation ids :: "(Span \<times> nat) list \<Rightarrow> string list" where
  "ids xs \<equiv> map (\<lambda>(s, d). sp_span_id s) xs"

text \<open>
  A pre-order forest at depth \<open>d\<close> whose trees start at spans of \<open>A\<close>: every entry is followed by the
  forest of its own children, one level deeper.
\<close>

inductive forest :: "(string, Span list) jsmap \<Rightarrow> nat \<Rightarrow> Span set \<Rightarrow> (Span \<times> nat) list \<Rightarrow> bool"
  for ch :: "(string, Span list) jsmap" where
  forest_Nil: "forest ch d A []"
| forest_Cons: "s \<in> A \<Longrightarrow> forest ch (Suc d) (set (children ch (sp_span_id s))) sub \<Longrightarrow>
    forest ch d A rest \<Longrightarrow> forest ch d A ((s, d) # sub @ rest)"

lemma forest_mono: "forest ch d A xs \<Longrightarrow> A \<subseteq> B \<Longrightarrow> forest ch d B xs"
  by (induction rule: forest.induct) (auto intro: forest.intros)

lemma forest_append: "forest ch d A xs \<Longrightarrow> forest ch d A ys \<Longrightarrow> forest ch d A (xs @ ys)"
proof (induction rule: forest.induct)
  case (forest_Cons s A d sub rest)
  then show ?case using forest.forest_Cons [of s A ch d sub "rest @ ys"] by simp
qed simp

lemma forest_depth: "forest ch d A xs \<Longrightarrow> (s, e) \<in> set xs \<Longrightarrow> d \<le> e"
  by (induction arbitrary: s e rule: forest.induct) fastforce+

lemma forest_top: "forest ch d A xs \<Longrightarrow> (s, d) \<in> set xs \<Longrightarrow> s \<in> A"
  by (induction rule: forest.induct) (auto dest: forest_depth)

text \<open>Every deeper entry follows its parent, with nothing but the parent's subtree in between.\<close>

lemma forest_parent:
  assumes "forest ch d A xs" "xs = before @ (s, e) # rest" "d < e"
  shows "\<exists>pre p mid. before = pre @ (p, e - 1) # mid \<and> s \<in> set (children ch (sp_span_id p))
    \<and> (\<forall>(q, k)\<in>set mid. e \<le> k)"
  using assms
proof (induction arbitrary: before s e rest rule: forest.induct)
  case (forest_Cons r A d sub tail)
  then obtain b where b: "before = (r, d) # b" by (cases before) auto
  with forest_Cons.prems (1) have eq: "sub @ tail = b @ (s, e) # rest" by simp
  then consider (sub) mid where "sub = b @ (s, e) # mid" | (tail) us where "b = sub @ us" "tail = us @ (s, e) # rest"
    unfolding append_eq_append_conv2 by (auto simp: append_eq_Cons_conv)
  then show ?case
  proof cases
    case sub
    show ?thesis
    proof (cases "e = Suc d")
      case True
      then have "(s, Suc d) \<in> set sub" "\<forall>(q, k)\<in>set b. e \<le> k"
        using sub forest_depth [OF forest_Cons.hyps (2)] by auto
      with True show ?thesis
        using forest_top [OF forest_Cons.hyps (2)] b by (intro exI [of _ "[]"]) auto
    next
      case False
      with forest_Cons.prems (2) have "Suc d < e" by simp
      from forest_Cons.IH (1) [OF sub this] show ?thesis unfolding b by (metis append_Cons)
    qed
  next
    case tail
    from forest_Cons.IH (2) [OF tail(2) forest_Cons.prems (2)] show ?thesis
      unfolding b tail(1) by (metis append_Cons append_assoc)
  qed
qed simp

text \<open>
  A visit emits a forest of new spans, records exactly their identifiers, and leaves no child of an
  emitted span unseen.
\<close>

definition emits :: "(string, Span list) jsmap \<Rightarrow> Span list \<Rightarrow> nat \<Rightarrow> visit_state \<Rightarrow> (Span \<times> nat) list \<Rightarrow> bool" where
  "emits ch ss d st app \<longleftrightarrow>
     visit_list ch ss d st = (rev (ids app) @ fst st, snd st @ app) \<and>
     forest ch d (set ss) app \<and> distinct (ids app) \<and> set (ids app) \<inter> set (fst st) = {} \<and>
     sp_span_id ` set ss \<subseteq> set (ids app) \<union> set (fst st) \<and>
     (\<forall>(s, e)\<in>set app. sp_span_id ` set (children ch (sp_span_id s)) \<subseteq> set (ids app) \<union> set (fst st))"

lemma emits_list: "emits ch ss d st app \<Longrightarrow> sp_span_id ` set ss \<subseteq> set (ids app) \<union> set (fst st)"
  unfolding emits_def by (elim conjE)

lemma emits_closed:
  "emits ch ss d st app \<Longrightarrow> (x, e) \<in> set app \<Longrightarrow>
     sp_span_id ` set (children ch (sp_span_id x)) \<subseteq> set (ids app) \<union> set (fst st)"
  unfolding emits_def by (elim conjE) (drule (1) bspec, simp only: prod.case)

lemma visit_list_emits: "\<exists>app. emits ch ss d st app"
proof (induction ch ss d st rule: visit_list.induct)
  case (1 ch d seen ord)
  show ?case by (rule exI [of _ "[]"]) (simp add: emits_def forest_Nil)
next
  case (2 ch s rest d seen ord)
  show ?case
  proof (cases "sp_span_id s \<in> set seen")
    case True
    with 2(1) obtain app where "emits ch rest d (seen, ord) app" by auto
    with True have "emits ch (s # rest) d (seen, ord) app"
      unfolding emits_def by (auto intro: forest_mono)
    then show ?thesis ..
  next
    case False
    let ?st1 = "(sp_span_id s # seen, ord @ [(s, d)])"
    from 2(2) [OF False] obtain a where a: "emits ch (children ch (sp_span_id s)) (d + 1) ?st1 a" by auto
    then have st2: "visit_list ch (children ch (sp_span_id s)) (d + 1) ?st1 =
        (rev (ids a) @ sp_span_id s # seen, (ord @ [(s, d)]) @ a)" by (simp add: emits_def)
    from 2(3) [OF False] obtain b
      where b: "emits ch rest d (rev (ids a) @ sp_span_id s # seen, (ord @ [(s, d)]) @ a) b"
      unfolding st2 by auto
    have "forest ch d (set (s # rest)) ((s, d) # a @ b)"
      using a b by (intro forest_Cons) (auto simp: emits_def intro: forest_mono)
    moreover have "visit_list ch (s # rest) d (seen, ord) = (rev (ids ((s, d) # a @ b)) @ seen, ord @ (s, d) # a @ b)"
      using b False st2 by (simp add: emits_def)
    moreover have "distinct (ids a)" "set (ids a) \<inter> insert (sp_span_id s) (set seen) = {}"
        "distinct (ids b)" "set (ids b) \<inter> (set (ids a) \<union> insert (sp_span_id s) (set seen)) = {}"
      using a b by (simp_all add: emits_def)
    with False have "distinct (ids ((s, d) # a @ b))" "set (ids ((s, d) # a @ b)) \<inter> set seen = {}"
      by (simp_all only: list.map map_append prod.case distinct.simps distinct_append set_append list.set) blast+
    moreover have "sp_span_id ` set (s # rest) \<subseteq> set (ids ((s, d) # a @ b)) \<union> set seen"
      using b unfolding emits_def by auto
    moreover have "sp_span_id ` set (children ch (sp_span_id x)) \<subseteq> set (ids ((s, d) # a @ b)) \<union> set seen"
      if "(x, e) \<in> set ((s, d) # a @ b)" for x e
    proof -
      let ?C = "sp_span_id ` set (children ch (sp_span_id x))"
      from that consider "x = s" | "(x, e) \<in> set a" | "(x, e) \<in> set b" by auto
      then have "?C \<subseteq> set (ids a) \<union> insert (sp_span_id s) (set seen) \<or>
          ?C \<subseteq> set (ids b) \<union> (set (ids a) \<union> insert (sp_span_id s) (set seen))"
        using emits_list [OF a] emits_closed [OF a, of x e] emits_closed [OF b, of x e] by cases simp_all
      then show ?thesis by (simp only: list.map map_append prod.case set_append list.set) blast
    qed
    ultimately have "emits ch (s # rest) d (seen, ord) ((s, d) # a @ b)"
      unfolding emits_def by (simp only: fst_conv snd_conv) blast
    then show ?thesis ..
  qed
qed

subsection \<open>The order of the spans\<close>

lemma jm_get_map_values: "jm_get (map (\<lambda>(k, v). (k, f v)) m) k = map_option f (jm_get m k)"
  by (induction m) auto

lemma foldl_snoc: "foldl (\<lambda>r x. Some (nullish r [] @ [x])) r xs = (if xs = [] then r else Some (nullish r [] @ xs))"
  by (induction xs arbitrary: r) auto

lemma children_childrenOf:
  "children (childrenOf spans) k = js_sort by_start (filter (\<lambda>s. group_key spans s = k) spans)"
  using jm.fold_upd_get [of "[]" "group_key spans" "\<lambda>r s. nullish r [] @ [s]" spans k]
  by (cases "filter (\<lambda>s. group_key spans s = k) spans = []")
    (simp_all add: children_def childrenOf_def jm_get_map_values foldl_snoc)

lemma child_iff: "s \<in> set (children (childrenOf spans) k) \<longleftrightarrow> s \<in> set spans \<and> group_key spans s = k"
  by (auto simp: children_childrenOf)

lemma visit_list_append: "visit_list ch (xs @ ys) d st = visit_list ch ys d (visit_list ch xs d st)"
  by (induction ch xs d st rule: visit_list.induct) auto

lemma foldl_visit: "foldl (\<lambda>st s. visit ch s d st) st ss = visit_list ch ss d st"
proof (induction ss arbitrary: st)
  case Nil
  then show ?case by (cases st) simp
next
  case (Cons s ss)
  then show ?case using visit_list_append [of ch "[s]" ss d st] by (simp add: visit_def)
qed

lemma ordered_spans_emits:
  "\<exists>app1 app2. emits (childrenOf spans) (children (childrenOf spans) []) 0 ([], []) app1 \<and>
     emits (childrenOf spans) spans 0 (rev (ids app1), app1) app2 \<and>
     ordered_spans spans = app1 @ app2"
proof -
  obtain app1 where 1: "emits (childrenOf spans) (children (childrenOf spans) []) 0 ([], []) app1"
    using visit_list_emits by blast
  obtain app2 where 2: "emits (childrenOf spans) spans 0 (rev (ids app1), app1) app2"
    using visit_list_emits by blast
  have "ordered_spans spans = app1 @ app2"
    using 1 2 by (simp add: ordered_spans_def Let_def foldl_visit emits_def)
  with 1 2 show ?thesis by blast
qed

lemma forest_spans: "forest (childrenOf spans) d A xs \<Longrightarrow> A \<subseteq> set spans \<Longrightarrow> fst ` set xs \<subseteq> set spans"
proof (induction rule: forest.induct)
  case (forest_Cons s A d sub rest)
  have "set (children (childrenOf spans) (sp_span_id s)) \<subseteq> set spans" by (auto simp: child_iff)
  with forest_Cons show ?case by auto
qed simp

lemma ordered_forest:
  "forest (childrenOf spans) 0 (set spans) (ordered_spans spans)"
proof -
  obtain a b where *: "emits (childrenOf spans) (children (childrenOf spans) []) 0 ([], []) a"
    "emits (childrenOf spans) spans 0 (rev (ids a), a) b" "ordered_spans spans = a @ b"
    using ordered_spans_emits by blast
  have "set (children (childrenOf spans) []) \<subseteq> set spans" by (auto simp: child_iff)
  with * show ?thesis by (auto simp: emits_def intro!: forest_append intro: forest_mono)
qed

lemma ordered_ids: "distinct (ids (ordered_spans spans)) \<and> set (ids (ordered_spans spans)) = sp_span_id ` set spans"
proof -
  obtain a b where *: "emits (childrenOf spans) (children (childrenOf spans) []) 0 ([], []) a"
    "emits (childrenOf spans) spans 0 (rev (ids a), a) b" "ordered_spans spans = a @ b"
    using ordered_spans_emits by blast
  then have "distinct (ids (a @ b))" "sp_span_id ` set spans \<subseteq> set (ids (a @ b))"
    unfolding emits_def by (simp_all only: fst_conv map_append distinct_append set_append set_rev) blast+
  moreover have "set (ids (a @ b)) \<subseteq> sp_span_id ` set spans"
    using forest_spans [OF ordered_forest [of spans]] * (3) by (auto simp: case_prod_unfold)
  ultimately show ?thesis using * (3) by auto
qed

lemma group_key_parent: "group_key spans s = k \<Longrightarrow> k \<noteq> [] \<Longrightarrow> sp_parent_span_id s = k \<and> \<not> isRoot spans s"
  by (auto simp: group_key_def split: if_splits)

lemma group_key_root: "group_key spans s = [] \<longleftrightarrow> isRoot spans s"
  by (auto simp: group_key_def isRoot_def)

lemma ordered_parent:
  assumes "i < length (ordered_spans spans)" "ordered_spans spans ! i = (s, e)" "0 < e"
  shows "\<exists>j p. j < i \<and> ordered_spans spans ! j = (p, e - 1) \<and> group_key spans s = sp_span_id p \<and>
    (\<forall>k. j < k \<and> k < i \<longrightarrow> e \<le> snd (ordered_spans spans ! k))"
proof -
  let ?xs = "ordered_spans spans"
  have split: "?xs = take i ?xs @ (s, e) # drop (Suc i) ?xs" using id_take_nth_drop assms by metis
  from forest_parent [OF ordered_forest split assms (3)]
  obtain pre p mid where *: "take i ?xs = pre @ (p, e - 1) # mid" "s \<in> set (children (childrenOf spans) (sp_span_id p))"
    "\<forall>(q, k)\<in>set mid. e \<le> k" by blast
  have len: "length pre < i" "i = length pre + Suc (length mid)"
    using arg_cong [OF * (1), of length] assms (1) by simp_all
  have nth: "?xs ! k = (pre @ (p, e - 1) # mid) ! k" if "k < i" for k using * (1) that by (metis nth_take)
  have "e \<le> snd (?xs ! k)" if "length pre < k" "k < i" for k
  proof -
    have "?xs ! k = mid ! (k - length pre - 1)" using nth [OF that (2)] that (1) by (simp add: nth_append nth_Cons')
    moreover have "mid ! (k - length pre - 1) \<in> set mid" using that len by (intro nth_mem) simp
    ultimately show ?thesis using * (3) by auto
  qed
  then show ?thesis
    using len nth [of "length pre"] * (2) by (intro exI [of _ "length pre"] exI [of _ p]) (simp add: child_iff)
qed

text \<open>The spans whose chain of parents ends at a root; the others hang on a cycle of parent links.\<close>

inductive rooted :: "Span list \<Rightarrow> Span \<Rightarrow> bool" for spans :: "Span list" where
  rooted_root: "s \<in> set spans \<Longrightarrow> isRoot spans s \<Longrightarrow> rooted spans s"
| rooted_child: "rooted spans p \<Longrightarrow> s \<in> set spans \<Longrightarrow> sp_parent_span_id s = sp_span_id p \<Longrightarrow> rooted spans s"

lemma rooted_seen:
  assumes a: "emits (childrenOf spans) (children (childrenOf spans) []) 0 ([], []) a"
    and "distinct (map sp_span_id spans)" "rooted spans s"
  shows "sp_span_id s \<in> set (ids a)"
  using assms (3)
proof (induction rule: rooted.induct)
  case (rooted_root s)
  then have "s \<in> set (children (childrenOf spans) [])" by (simp add: child_iff group_key_root)
  then show ?case using emits_list [OF a] by auto
next
  case (rooted_child p s)
  show ?case
  proof (cases "isRoot spans s")
    case True
    then have "s \<in> set (children (childrenOf spans) [])" using rooted_child by (simp add: child_iff group_key_root)
    then show ?thesis using emits_list [OF a] by auto
  next
    case False
    obtain q e where q: "(q, e) \<in> set a" "sp_span_id q = sp_span_id p" using rooted_child by auto
    have "s \<in> set (children (childrenOf spans) (sp_span_id q))"
      using False q rooted_child by (simp add: child_iff group_key_def)
    then show ?thesis using emits_closed [OF a q(1)] by auto
  qed
qed

lemma ordered_depth_zero:
  assumes ok: "distinct (map sp_span_id spans)" "[] \<notin> sp_span_id ` set spans"
    and s: "(s, e) \<in> set (ordered_spans spans)" "rooted spans s"
  shows "e = 0 \<longleftrightarrow> isRoot spans s"
proof
  assume "isRoot spans s"
  show "e = 0"
  proof (rule ccontr)
    assume "e \<noteq> 0"
    obtain i where i: "i < length (ordered_spans spans)" "ordered_spans spans ! i = (s, e)"
      using s(1) by (auto simp: in_set_conv_nth)
    from ordered_parent [OF this] \<open>e \<noteq> 0\<close> obtain j p where
      "j < i" "ordered_spans spans ! j = (p, e - 1)" "group_key spans s = sp_span_id p" by auto
    moreover from this i(1) have "p \<in> set spans"
      using forest_spans [OF ordered_forest [of spans]] nth_mem [of j "ordered_spans spans"] by force
    ultimately show False using ok(2) \<open>isRoot spans s\<close> by (auto simp: group_key_def)
  qed
next
  assume "e = 0"
  obtain a b where *: "emits (childrenOf spans) (children (childrenOf spans) []) 0 ([], []) a"
    "emits (childrenOf spans) spans 0 (rev (ids a), a) b" "ordered_spans spans = a @ b"
    using ordered_spans_emits by blast
  have seen: "sp_span_id s \<in> set (ids a)" using rooted_seen * (1) ok(1) s(2) by blast
  moreover have "set (ids b) \<inter> set (ids a) = {}" using * (2) by (simp add: emits_def)
  ultimately have "sp_span_id s \<notin> set (ids b)" by blast
  then have "(s, e) \<notin> set b" by force
  then have "(s, e) \<in> set a" using s(1) * (3) by simp
  moreover have "forest (childrenOf spans) 0 (set (children (childrenOf spans) [])) a"
    using * (1) by (simp add: emits_def)
  ultimately have "s \<in> set (children (childrenOf spans) [])"
    using forest_top \<open>e = 0\<close> by blast
  then show "isRoot spans s" by (simp add: child_iff group_key_root)
qed

lemma td_spans_toTraceView: "td_spans (toTraceView h t) = map (to_span_detail t) (ordered_spans (lt_spans t))"
  by (simp add: toTraceView_def Let_def)

lemma sd_of_entry [simp]:
  "sd_id (to_span_detail t (s, d)) = sp_span_id s" "sd_depth (to_span_detail t (s, d)) = d"
  by (simp_all add: to_span_detail_def Let_def)

lemma sd_id_entry: "sd_id (to_span_detail t x) = (case x of (s, d) \<Rightarrow> sp_span_id s)"
  "sd_depth (to_span_detail t x) = snd x"
  by (cases x, simp)+

interpretation start: comparator by_start
  unfolding by_start_def by (rule comparator_key)

lemma js_find_first:
  "sorted_wrt R xs \<Longrightarrow> js_find P xs = Some x \<Longrightarrow> y \<in> set xs \<Longrightarrow> P y \<Longrightarrow> R x x \<Longrightarrow> R x y"
  by (induction xs) (auto split: if_splits dest: js_find_SomeD)

lemma recorded_None: "recorded f rt xs = None \<Longrightarrow> s \<in> set xs \<Longrightarrow> \<not> truthy (f s)"
  by (cases "js_find (\<lambda>s. truthy (f s)) xs")
    (auto simp: recorded_def Let_def split: if_splits dest!: js_find_SomeD, auto simp: truthy_def)

lemma recorded_Some:
  assumes "recorded f rt xs = Some x" "set_option rt \<subseteq> set xs" "sorted_wrt R xs" "\<And>x. R x x"
  shows "x \<noteq> [] \<and> (\<exists>s\<in>set xs. f s = Some x \<and>
    (rt = Some s \<or> \<not> truthy (Option.bind rt f) \<and> (\<forall>u\<in>set xs. truthy (f u) \<longrightarrow> R s u)))"
proof (cases "truthy (Option.bind rt f)")
  case True
  then show ?thesis using assms (1,2) by (cases rt) (auto simp: recorded_def Let_def truthy_def)
next
  case False
  then obtain s where "js_find (\<lambda>s. truthy (f s)) xs = Some s" "f s = Some x"
    using assms (1) by (auto simp: recorded_def bind_eq_Some_conv)
  then show ?thesis
    using js_find_first [OF assms (3) _ _ _ assms (4)] False
    by (intro conjI bexI [of _ s]) (auto dest!: js_find_SomeD simp: truthy_def)
qed

subsection \<open>Properties\<close>

text \<open>A small trace: a root, a child listed before it, and two spans that are each other's parent.\<close>

definition mk_span :: "string \<Rightarrow> string \<Rightarrow> int \<Rightarrow> string option \<Rightarrow> Span" where
  "mk_span i parent start content =
     \<lparr>sp_trace_id = ''t'', sp_span_id = i, sp_parent_span_id = parent, sp_name = i, sp_start_time_ms = start,
      sp_end_time_ms = start + 5, sp_duration_ms = 5, sp_model = [], sp_finish_reason = [],
      sp_input_tokens = 0, sp_output_tokens = 0, sp_cost_usd = 0, sp_subtree_cost_usd = 0,
      sp_subtree_input_tokens = 0, sp_subtree_output_tokens = 0, sp_user_id = [], sp_model_normalized = [],
      sp_schema_version = 1, sp_error_type = [], sp_error_message = [], sp_kind = None,
      sp_input = content, sp_output = content, sp_available_tools = None, sp_setup_issues = None\<rparr>"

definition sample_trace :: LiveTrace where
  "sample_trace =
     \<lparr>tr_trace_id = ''t'', tr_name = ''n'', tr_start_time_ms = 0, tr_end_time_ms = 9, tr_duration_ms = 9,
      tr_user_id = [], tr_span_count = 4, tr_has_error = False, tr_total_cost_usd = 0, tr_workflow_version = None,
      lt_spans = [mk_span ''b'' ''a'' 3 (Some ''q''), mk_span ''a'' [] 3 None, mk_span ''c'' ''d'' 1 (Some ''p''),
        mk_span ''d'' ''c'' 2 None]\<rparr>"

lemma sample_ordered:
  "map (\<lambda>(s, d). (sp_span_id s, d)) (ordered_spans (lt_spans sample_trace)) =
     [(''a'', 0), (''b'', 1), (''c'', 0), (''d'', 1)]"
  by code_simp

lemma sample_rows:
  "map (\<lambda>d. (sd_id d, sd_depth d)) (td_spans (toTraceView h sample_trace)) = [(''a'', 0), (''b'', 1), (''c'', 0), (''d'', 1)]"
  using sample_ordered by (simp add: td_spans_toTraceView sd_id_entry comp_def case_prod_unfold)

lemma sample_row1:
  "length (td_spans (toTraceView h sample_trace)) = 4" "sd_depth (td_spans (toTraceView h sample_trace) ! 1) = 1"
  "sd_id (td_spans (toTraceView h sample_trace) ! 1) = ''b''"
  using sample_rows [of h] by (auto simp: map_eq_Cons_conv)

lemma sample_ids:
  "distinct (map sp_span_id (lt_spans sample_trace))" "[] \<notin> sp_span_id ` set (lt_spans sample_trace)"
  by (simp_all add: sample_trace_def mk_span_def)

lemma sample_roots:
  "isRoot (lt_spans sample_trace) (mk_span ''a'' [] 3 None)"
  "\<not> isRoot (lt_spans sample_trace) (mk_span ''b'' ''a'' 3 (Some ''q''))"
  "js_find (isRoot (lt_spans sample_trace)) (lt_spans sample_trace) = Some (mk_span ''a'' [] 3 None)"
  by code_simp+

text \<open>C9. The view of a trace lists every span exactly once: the identifiers of its rows are distinct
  and are those of the spans of the trace, also when parent links form a cycle or an identifier repeats.\<close>

theorem toTraceView_spans_once:
  "distinct (map sd_id (td_spans (toTraceView h t))) \<and>
   set (map sd_id (td_spans (toTraceView h t))) = set (map sp_span_id (lt_spans t))"
  using ordered_ids [of "lt_spans t"]
  by (simp add: td_spans_toTraceView sd_id_entry [abs_def] comp_def)

text \<open>A row below the top level has its parent's row above it, one
  level up, and every row in between is deeper than that parent, that is, belongs to its subtree.\<close>

lemma row_parent_above:
  assumes "[] \<notin> sp_span_id ` set (lt_spans t)"
    and "i < length (td_spans (toTraceView h t))" "0 < sd_depth (td_spans (toTraceView h t) ! i)"
  shows "\<exists>j s p. j < i \<and> s \<in> set (lt_spans t) \<and> p \<in> set (lt_spans t) \<and> sp_parent_span_id s = sp_span_id p \<and>
    sd_id (td_spans (toTraceView h t) ! i) = sp_span_id s \<and> sd_id (td_spans (toTraceView h t) ! j) = sp_span_id p \<and>
    sd_depth (td_spans (toTraceView h t) ! i) = Suc (sd_depth (td_spans (toTraceView h t) ! j)) \<and>
    (\<forall>k. j < k \<and> k < i \<longrightarrow> sd_depth (td_spans (toTraceView h t) ! j) < sd_depth (td_spans (toTraceView h t) ! k))"
proof -
  let ?xs = "ordered_spans (lt_spans t)"
  have i: "i < length ?xs" using assms (2) by (simp add: td_spans_toTraceView)
  obtain s e where se: "?xs ! i = (s, e)" by force
  have e: "0 < e" using assms (3) i se by (simp add: td_spans_toTraceView)
  from ordered_parent [OF i se e] obtain j p where j: "j < i" "?xs ! j = (p, e - 1)"
    "group_key (lt_spans t) s = sp_span_id p" "\<forall>k. j < k \<and> k < i \<longrightarrow> e \<le> snd (?xs ! k)" by blast
  have mem: "s \<in> set (lt_spans t)" "p \<in> set (lt_spans t)"
    using forest_spans [OF ordered_forest [of "lt_spans t"]] nth_mem [OF i] nth_mem [of j ?xs] i j(1,2) se
    by force+
  with assms (1) have "sp_span_id p \<noteq> []" by (metis image_eqI)
  from group_key_parent [OF j(3) this] have "sp_parent_span_id s = sp_span_id p" ..
  then show ?thesis
    using j i e se mem by (intro exI [of _ j] exI [of _ s] exI [of _ p])
      (auto simp: td_spans_toTraceView sd_id_entry Suc_le_eq)
qed

text \<open>When span identifiers are non-empty and distinct, a span that hangs on a root is shown at the
  top level exactly when it is itself a root: only spans caught in a cycle of parent links start
  trees of their own.\<close>

lemma row_top_level:
  assumes "distinct (map sp_span_id (lt_spans t))" "[] \<notin> sp_span_id ` set (lt_spans t)"
    and "rooted (lt_spans t) s" "d \<in> set (td_spans (toTraceView h t))" "sd_id d = sp_span_id s"
  shows "sd_depth d = 0 \<longleftrightarrow> isRoot (lt_spans t) s"
proof -
  obtain q e where q: "(q, e) \<in> set (ordered_spans (lt_spans t))" "d = to_span_detail t (q, e)"
    using assms (4) by (auto simp: td_spans_toTraceView)
  have "s \<in> set (lt_spans t)" using assms (3) by cases auto
  moreover have "q \<in> set (lt_spans t)"
    using forest_spans [OF ordered_forest [of "lt_spans t"]] q(1) by force
  ultimately have "q = s" using assms (1,5) q(2) by (auto simp: distinct_map dest: inj_onD)
  then show ?thesis using ordered_depth_zero [OF assms (1,2)] q assms (3) by simp
qed

text \<open>C8. When span identifiers are non-empty and distinct, the rows are in tree pre-order: a root is at the top level, and any other
  span has the row of its parent above it, one level up, with only rows of the parent's subtree in between. The exception is a span
  whose chain of parents runs into a cycle, which may start a tree of its own.\<close>

theorem toTraceView_parent_above:
  assumes "distinct (map sp_span_id (lt_spans t))" "[] \<notin> sp_span_id ` set (lt_spans t)"
    and "i < length (td_spans (toTraceView h t))" "s \<in> set (lt_spans t)" "sd_id (td_spans (toTraceView h t) ! i) = sp_span_id s"
  shows "if isRoot (lt_spans t) s then sd_depth (td_spans (toTraceView h t) ! i) = 0
    else (\<exists>j p. j < i \<and> p \<in> set (lt_spans t) \<and> sp_parent_span_id s = sp_span_id p \<and>
        sd_id (td_spans (toTraceView h t) ! j) = sp_span_id p \<and>
        sd_depth (td_spans (toTraceView h t) ! i) = Suc (sd_depth (td_spans (toTraceView h t) ! j)) \<and>
        (\<forall>k. j < k \<and> k < i \<longrightarrow> sd_depth (td_spans (toTraceView h t) ! j) < sd_depth (td_spans (toTraceView h t) ! k))) \<or>
      \<not> rooted (lt_spans t) s \<and> sd_depth (td_spans (toTraceView h t) ! i) = 0"
proof -
  let ?d = "td_spans (toTraceView h t) ! i"
  have top: "rooted (lt_spans t) s \<Longrightarrow> sd_depth ?d = 0 \<longleftrightarrow> isRoot (lt_spans t) s"
    using row_top_level [OF assms(1,2) _ nth_mem [OF assms(3)] assms(5)] by blast
  show ?thesis
  proof (cases "sd_depth ?d = 0")
    case True
    then show ?thesis using top by auto
  next
    case False
    then have "\<not> isRoot (lt_spans t) s" using top rooted_root [OF assms(4)] by auto
    moreover obtain j u p where j: "j < i" "u \<in> set (lt_spans t)" "p \<in> set (lt_spans t)" "sp_parent_span_id u = sp_span_id p"
      "sd_id ?d = sp_span_id u" "sd_id (td_spans (toTraceView h t) ! j) = sp_span_id p"
      "sd_depth ?d = Suc (sd_depth (td_spans (toTraceView h t) ! j))"
      "\<forall>k. j < k \<and> k < i \<longrightarrow> sd_depth (td_spans (toTraceView h t) ! j) < sd_depth (td_spans (toTraceView h t) ! k)"
      using row_parent_above [OF assms(2,3)] False by blast
    moreover have "u = s" using assms(1,4,5) j(2,5) by (auto simp: distinct_map dest: inj_onD)
    ultimately show ?thesis by auto
  qed
qed

theorem toTraceView_parent_above_witness:
  "\<forall>h. sd_depth (td_spans (toTraceView h sample_trace) ! 1) = Suc (sd_depth (td_spans (toTraceView h sample_trace) ! 0)) \<and>
     sd_id (td_spans (toTraceView h sample_trace) ! 0) = ''a''"
proof
  fix h
  let ?b = "mk_span ''b'' ''a'' 3 (Some ''q'')"
  have "?b \<in> set (lt_spans sample_trace)" "sd_id (td_spans (toTraceView h sample_trace) ! 1) = sp_span_id ?b"
    "1 < length (td_spans (toTraceView h sample_trace))"
    using sample_row1 [of h] by (simp_all add: sample_trace_def mk_span_def)
  from toTraceView_parent_above [OF sample_ids this(3,1,2)] sample_roots(2) sample_row1(2) [of h]
  show "sd_depth (td_spans (toTraceView h sample_trace) ! 1) = Suc (sd_depth (td_spans (toTraceView h sample_trace) ! 0)) \<and>
     sd_id (td_spans (toTraceView h sample_trace) ! 0) = ''a''"
    by (auto simp: mk_span_def)
qed

text \<open>The input of a trace is the content its first root recorded, and for a root without content
  the input of an earliest span that recorded one; it is absent exactly when no span recorded any.\<close>

theorem toTraceView_input:
  "case td_input (toTraceView h t) of
     None \<Rightarrow> \<forall>s\<in>set (lt_spans t). \<not> truthy (sp_input s)
   | Some x \<Rightarrow> x \<noteq> [] \<and> (\<exists>s\<in>set (lt_spans t). sp_input s = Some x \<and>
       (js_find (isRoot (lt_spans t)) (lt_spans t) = Some s \<or>
        \<not> truthy (Option.bind (js_find (isRoot (lt_spans t)) (lt_spans t)) sp_input) \<and>
        (\<forall>u\<in>set (lt_spans t). truthy (sp_input u) \<longrightarrow> sp_start_time_ms s \<le> sp_start_time_ms u)))"
proof -
  let ?rt = "js_find (isRoot (lt_spans t)) (lt_spans t)" and ?xs = "js_sort by_start (lt_spans t)"
  have rt: "set_option ?rt \<subseteq> set ?xs" by (auto dest: js_find_SomeD)
  have inp: "td_input (toTraceView h t) = recorded sp_input ?rt ?xs" by (simp add: toTraceView_def Let_def)
  show ?thesis
    using recorded_None [of sp_input ?rt ?xs] recorded_Some [OF _ rt start.sorted_sort, of sp_input]
    unfolding inp by (auto split: option.split simp: by_start_def)
qed

theorem toTraceView_input_witness: "\<forall>h. td_input (toTraceView h sample_trace) = Some ''p''"
proof
  fix h
  show "td_input (toTraceView h sample_trace) = Some ''p''"
    using toTraceView_input [of sample_trace h] unfolding sample_roots(3)
    by (simp add: sample_trace_def mk_span_def truthy_def split: option.splits)
qed

text \<open>The output of a trace is the content its first root recorded, and for a root without content
  the output of a latest span that recorded one; it is absent exactly when no span recorded any.\<close>

theorem toTraceView_output:
  "case td_output (toTraceView h t) of
     None \<Rightarrow> \<forall>s\<in>set (lt_spans t). \<not> truthy (sp_output s)
   | Some x \<Rightarrow> x \<noteq> [] \<and> (\<exists>s\<in>set (lt_spans t). sp_output s = Some x \<and>
       (js_find (isRoot (lt_spans t)) (lt_spans t) = Some s \<or>
        \<not> truthy (Option.bind (js_find (isRoot (lt_spans t)) (lt_spans t)) sp_output) \<and>
        (\<forall>u\<in>set (lt_spans t). truthy (sp_output u) \<longrightarrow> sp_start_time_ms u \<le> sp_start_time_ms s)))"
proof -
  let ?rt = "js_find (isRoot (lt_spans t)) (lt_spans t)" and ?xs = "rev (js_sort by_start (lt_spans t))"
  have rt: "set_option ?rt \<subseteq> set ?xs" by (auto dest: js_find_SomeD)
  have out: "td_output (toTraceView h t) = recorded sp_output ?rt ?xs" by (simp add: toTraceView_def Let_def)
  have sorted: "sorted_wrt (\<lambda>x y. by_start y x \<le> 0) ?xs" using start.sorted_sort by (simp add: sorted_wrt_rev)
  show ?thesis
    using recorded_None [of sp_output ?rt ?xs] recorded_Some [OF _ rt sorted, of sp_output]
    unfolding out by (auto split: option.split simp: by_start_def)
qed

theorem toTraceView_output_witness: "\<forall>h. td_output (toTraceView h sample_trace) = Some ''q''"
proof
  fix h
  show "td_output (toTraceView h sample_trace) = Some ''q''"
    using toTraceView_output [of sample_trace h] unfolding sample_roots(3)
    by (simp add: sample_trace_def mk_span_def truthy_def split: option.splits)
qed

end
