(* ===== verification/Demo_Trace.thy ===== *)
theory Demo_Trace
  imports Js_Text Api_Types
begin

text \<open>
  The trace of the demo mode (\<open>modules/trace-inspector/data.ts\<close>), one definition per span.
\<close>

definition mk_tool :: "string \<Rightarrow> string \<Rightarrow> bool \<Rightarrow> AvailableTool" where
  [data_defs]: "mk_tool n d u = \<lparr>at_name = n, at_description = d, at_used = u\<rparr>"

definition demo_span_s1 :: SpanDetail where
  [data_defs]: \<open>demo_span_s1 =
     \<lparr>sd_id = ''s1'', sd_name = ''rewrite-message'', sd_type = TAgent, sd_start = 0,
         sd_duration = 4823, sd_depth = 0,
      sd_cost = 0, sd_subtreeCost = Some (12 / 10000), sd_childCount = Some (6), sd_tokens = 0,
         sd_subtreeTokens = None,
      sd_inputTokens = Some (0), sd_outputTokens = Some (0), sd_status = SpanFailed,
      sd_error = Some (\<lparr>te_type = ''WorkflowRunError'',
         te_message = ''Workflow aborted: the retry LLM call failed and no fallback was configured.'',
         te_code = [], te_stack = []\<rparr>),
      sd_input = Some (''Rewrite draft for audience internal-slack, max 60 words.''),
      sd_output = Some ((''(failed '' @ em_dash @ '' rate_limit_exceeded on retry)'')),
      sd_availableTools = None,
      sd_setupIssues = None,
      sd_attributes =
       [(''workflow.version'', ''v2.4.1''),
        (''user.id'', ''user_38291''),
        (''tags'', ''retry,high-latency'')]\<rparr>\<close>

definition demo_span_s2 :: SpanDetail where
  [data_defs]: \<open>demo_span_s2 =
     \<lparr>sd_id = ''s2'', sd_name = ''load-context'', sd_type = TTool, sd_start = 12, sd_duration = 284,
         sd_depth = 1,
      sd_cost = 0, sd_subtreeCost = None, sd_childCount = None, sd_tokens = 0, sd_subtreeTokens = None,
      sd_inputTokens = None, sd_outputTokens = None, sd_status = SpanOk,
      sd_error = None,
      sd_input = Some (''{ "thread_id": "th_9822" }''),
      sd_output = Some (''{ "rows": 14, "bytes": 8822 }''),
      sd_availableTools = None,
      sd_setupIssues = None,
      sd_attributes =
       [(''tool.name'', ''load-context''),
        (''db.system'', ''postgres''),
        (''rows'', ''14'')]\<rparr>\<close>

definition demo_span_s3 :: SpanDetail where
  [data_defs]: \<open>demo_span_s3 =
     \<lparr>sd_id = ''s3'', sd_name = ''fetch-thread-history'', sd_type = TTool, sd_start = 298,
         sd_duration = 412, sd_depth = 1,
      sd_cost = 0, sd_subtreeCost = None, sd_childCount = None, sd_tokens = 0, sd_subtreeTokens = None,
      sd_inputTokens = None, sd_outputTokens = None, sd_status = SpanOk,
      sd_error = None,
      sd_input = Some (''{ "thread_id": "th_9822", "limit": 50 }''),
      sd_output = Some (''{ "messages": 42, "truncated": false }''),
      sd_availableTools = None,
      sd_setupIssues = None,
      sd_attributes =
       [(''tool.name'', ''slack.history''),
        (''http.status'', ''200''),
        (''items'', ''42'')]\<rparr>\<close>

definition demo_span_s4 :: SpanDetail where
  [data_defs]: \<open>demo_span_s4 =
     \<lparr>sd_id = ''s4'', sd_name = ''build-prompt'', sd_type = TInternal, sd_start = 714,
         sd_duration = 18, sd_depth = 1,
      sd_cost = 0, sd_subtreeCost = None, sd_childCount = None, sd_tokens = 0, sd_subtreeTokens = None,
      sd_inputTokens = None, sd_outputTokens = None, sd_status = SpanOk,
      sd_error = None,
      sd_input = Some (''template=rewrite.v3''),
      sd_output = Some (''prompt_tokens=3420''),
      sd_availableTools = None,
      sd_setupIssues = None,
      sd_attributes =
       [(''prompt.template'', ''rewrite.v3''),
        (''context.tokens'', ''2890'')]\<rparr>\<close>

definition demo_span_s5 :: SpanDetail where
  [data_defs]: \<open>demo_span_s5 =
     \<lparr>sd_id = ''s5'', sd_name = ''llm.complete'', sd_type = TLlm, sd_start = 732, sd_duration = 2104,
         sd_depth = 1,
      sd_cost = 8 / 10000, sd_subtreeCost = None, sd_childCount = None, sd_tokens = 2410,
         sd_subtreeTokens = None,
      sd_inputTokens = Some (2282), sd_outputTokens = Some (128), sd_status = SpanOk,
      sd_error = None,
      sd_input = Some ((''System: You are a professional tone rewriter...'' @ [CHR 0x0A]
         @ ''User: Rewrite: 'hey team...'' @ [CHR 0x27])),
      sd_output = Some ((''Team '' @ em_dash
         @ '' the current timeline is significantly longer than expected, and it's creating friction.'')),
      sd_availableTools = Some ([
        mk_tool ''tone.classify'' ''Returns a softmax over five tone labels (formal, casual, urgent, frustrated, neutral).'' True,
        mk_tool ''style_guide.fetch'' ''Retrieves the workspace's writing style guide entries by audience tag.'' False,
        mk_tool ''draft.refine'' ''One-shot LLM refinement pass on a candidate draft against a target tone.'' False,
        mk_tool ''users.lookup'' ''Resolves a Slack user ID to a profile (name, role, timezone) for personalisation.'' False,
        mk_tool ''memory.recall'' ''Searches long-term workflow memory for prior interactions with this user.'' False,
        mk_tool ''rate_limit.check'' ''Returns the user's remaining rewrite quota and reset time.'' False,
        mk_tool ''links.expand'' ''Resolves shortened URLs in the source message to their full targets.'' False]),
      sd_setupIssues = None,
      sd_attributes =
       [(''llm.model'', ''claude-haiku-4-5''),
        (''llm.provider'', ''anthropic''),
        (''llm.temperature'', ''0.3''),
        (''llm.max_tokens'', ''512''),
        (''usage.input_tokens'', ''2282''),
        (''usage.output_tokens'', ''128''),
        (''usage.cache_read'', ''1280'')]\<rparr>\<close>

definition demo_span_s6 :: SpanDetail where
  [data_defs]: \<open>demo_span_s6 =
     \<lparr>sd_id = ''s6'', sd_name = ''validate-output'', sd_type = TInternal, sd_start = 2836,
         sd_duration = 42, sd_depth = 1,
      sd_cost = 0, sd_subtreeCost = None, sd_childCount = None, sd_tokens = 0, sd_subtreeTokens = None,
      sd_inputTokens = None, sd_outputTokens = None, sd_status = SpanOk,
      sd_error = None,
      sd_input = Some ((''text=Team '' @ em_dash @ '' the current timeline...'')),
      sd_output = Some (''valid=true''),
      sd_availableTools = None,
      sd_setupIssues = None,
      sd_attributes =
       [(''check'', ''word-count''),
        (''max_words'', ''60''),
        (''actual_words'', ''18'')]\<rparr>\<close>

definition demo_span_s7 :: SpanDetail where
  [data_defs]: \<open>demo_span_s7 =
     \<lparr>sd_id = ''s7'', sd_name = ''llm.complete (retry)'', sd_type = TLlm, sd_start = 2878,
         sd_duration = 1920, sd_depth = 1,
      sd_cost = 4 / 10000, sd_subtreeCost = None, sd_childCount = None, sd_tokens = 1138,
         sd_subtreeTokens = None,
      sd_inputTokens = Some (1138), sd_outputTokens = Some (0), sd_status = SpanFailed,
      sd_error = Some (\<lparr>te_type = ''rate_limit_exceeded'',
         te_message = ''Rate limit of 40 requests per minute exceeded for model claude-haiku-4-5. Retry after 23 seconds.'', te_code = ''429'', te_stack = []\<rparr>),
      sd_input = Some ((''System: Refine previous output for stricter tone match...'' @ [CHR 0x0A]
         @ ''User: (abbreviated)'')),
      sd_output = Some ((''(no output '' @ em_dash @ '' 429 rate_limit_exceeded)'')),
      sd_availableTools = Some ([
        mk_tool ''style_guide.fetch'' ''Retrieves the workspace's writing style guide entries by audience tag.'' False,
        mk_tool ''draft.refine'' ''One-shot LLM refinement pass on a candidate draft against a target tone.'' False,
        mk_tool ''memory.recall'' ''Searches long-term workflow memory for prior interactions with this user.'' False]),
      sd_setupIssues = None,
      sd_attributes =
       [(''llm.model'', ''claude-haiku-4-5''),
        (''llm.provider'', ''anthropic''),
        (''retry.attempt'', ''2''),
        (''retry.reason'', ''validation_softfail'')]\<rparr>\<close>

definition TRACE_DETAIL :: TraceDetail where
  [data_defs]: \<open>TRACE_DETAIL =
     \<lparr>td_id = ''t_a9f2_eb7c'', td_workflow = ''rewrite-message'', td_status = Failed,
         td_duration = 4823, td_totalCost = 12 / 10000,
      td_inputTokens = 3420, td_outputTokens = 128, td_model = ''claude-haiku-4-5'',
      td_spans = [demo_span_s1, demo_span_s2, demo_span_s3, demo_span_s4, demo_span_s5, demo_span_s6,
         demo_span_s7],
      td_error = Some (\<lparr>te_type = ''rate_limit_exceeded'',
         te_message = ''Rate limit of 40 requests per minute exceeded for model claude-haiku-4-5. Retry after 23 seconds.'', te_code = ''429'', te_stack = (''RateLimitError: 429 rate_limit_exceeded'' @ [CHR 0x0A] @ ''  at Anthropic.request (anthropic-sdk/dist/core.js:214:23)'' @ [CHR 0x0A] @ ''  at Anthropic.messages.create (anthropic-sdk/dist/resources/messages.js:48:17)'' @ [CHR 0x0A] @ ''  at async rewriteMessage (src/workflows/rewrite-message.ts:82:20)'' @ [CHR 0x0A] @ ''  at async Workflow.run (tracium/runtime.ts:341:14)'')\<rparr>),
      td_output = None,
      td_version = Some (''v2.4.1''), td_startedAt = Some ((''Apr 18, 2026 '' @ mid_dot @ '' 7:41:17 AM'')),
      td_endedAt = Some ((''Apr 18, 2026 '' @ mid_dot @ '' 7:41:22 AM'')), td_cachedTokens = Some (1280),
         td_provider = Some (''anthropic''), td_user = Some (''user_38291''),
      td_sessionId = Some (''sess_xv2h81''), td_environment = Some (''production''),
         td_region = Some (''us-east-1''), td_sdk = Some (''tracium-node @ 0.8.2''),
      td_input = Some ((''{'' @ [CHR 0x0A] @ ''  "thread_id": "th_9822",'' @ [CHR 0x0A]
         @ ''  "message": "Can you tone this down and make it more professional?",'' @ [CHR 0x0A]
         @ ''  "draft": "hey team '' @ em_dash @ '' this is taking forever and it's kinda ridiculous",''
         @ [CHR 0x0A] @ ''  "audience": "internal-slack",'' @ [CHR 0x0A] @ ''  "max_words": 60''
         @ [CHR 0x0A] @ ''}'')),
      td_tags = Some ([''retry'', ''high-latency'', ''slack-integration''])\<rparr>\<close>

lemmas demo_spans = demo_span_s1_def demo_span_s2_def demo_span_s3_def demo_span_s4_def demo_span_s5_def
  demo_span_s6_def demo_span_s7_def

lemma demo_rows:
  "map (\<lambda>s. (sd_id s, sd_depth s, sd_childCount s)) (td_spans TRACE_DETAIL) =
     [(''s1'', 0, Some 6), (''s2'', 1, None), (''s3'', 1, None), (''s4'', 1, None), (''s5'', 1, None),
      (''s6'', 1, None), (''s7'', 1, None)]"
  by (simp add: TRACE_DETAIL_def demo_spans)

text \<open>The totals of the demo trace are the sums over its spans: tokens in and out, cost, and the number
  of children of its root; its error is that of a failed span.\<close>

theorem demo_trace_consistent:
  "td_inputTokens TRACE_DETAIL = (\<Sum>s\<leftarrow>td_spans TRACE_DETAIL. nullish (sd_inputTokens s) 0) \<and>
   td_outputTokens TRACE_DETAIL = (\<Sum>s\<leftarrow>td_spans TRACE_DETAIL. nullish (sd_outputTokens s) 0) \<and>
   td_totalCost TRACE_DETAIL = (\<Sum>s\<leftarrow>td_spans TRACE_DETAIL. sd_cost s) \<and>
   sd_childCount (hd (td_spans TRACE_DETAIL)) =
     Some (length (filter (\<lambda>s. sd_depth s = 1) (td_spans TRACE_DETAIL))) \<and>
   (\<exists>s \<in> set (td_spans TRACE_DETAIL). sd_status s = SpanFailed \<and>
      sd_error s = map_option (\<lambda>e. e\<lparr>te_stack := []\<rparr>) (td_error TRACE_DETAIL))"
  by (simp add: TRACE_DETAIL_def demo_spans)

end
