(* ===== verification/Trace_View.thy ===== *)
theory Trace_View
  imports Traces Demo_Trace Ui_Hooks
begin

text \<open>
  The trace inspector (\<open>modules/trace-inspector/components/TraceView.tsx\<close>): the state of the page, its
  handlers, the rows of the timeline and what each row and the span inspector show. Layout and
  styling are not represented; colours that carry meaning are.
\<close>

subsection \<open>Spans in the timeline\<close>

datatype TabId = TabTimeline | TabInput | TabOutput | TabMetadata | TabRaw

definition right_arrow :: string where
  [data_defs]: "right_arrow = [CHR 0xE2, CHR 0x86, CHR 0x92]"

definition TICKS :: nat where
  [data_defs]: "TICKS = 5"

fun TYPE_COLORS :: "span_type \<Rightarrow> string" where
  "TYPE_COLORS TAgent = ''var(--foreground)''"
| "TYPE_COLORS TLlm = ''var(--accent)''"
| "TYPE_COLORS TTool = ''#7aa5ff''"
| "TYPE_COLORS TChain = ''#a78bfa''"
| "TYPE_COLORS TRetriever = ''#5ec5a8''"
| "TYPE_COLORS TEmbedding = ''#e0a458''"
| "TYPE_COLORS TInternal = ''var(--muted)''"

definition isParentSpan :: "SpanDetail \<Rightarrow> bool" where
  "isParentSpan s \<longleftrightarrow> nullish (sd_childCount s) 0 > 0"

definition displayCost :: "SpanDetail \<Rightarrow> rat" where
  "displayCost s = nullish (sd_subtreeCost s) (sd_cost s)"

definition displayTokens :: "SpanDetail \<Rightarrow> int" where
  "displayTokens s = nullish (sd_subtreeTokens s) (sd_tokens s)"

definition spanColor :: "SpanDetail \<Rightarrow> string" where
  "spanColor s =
     (if sd_status s = SpanFailed then ''var(--error)''
      else if sd_type s = TAgent \<or> sd_type s = TInternal then ''var(--muted)''
      else TYPE_COLORS (sd_type s))"

subsection \<open>State of the page\<close>

record trace_view_state =
  tv_active :: string
  tv_tab :: TabId
  tv_collapsed :: "string set"

definition firstFailed :: "TraceDetail \<Rightarrow> SpanDetail option" where
  "firstFailed t = js_find (\<lambda>s. sd_status s = SpanFailed) (td_spans t)"

definition trace_view_init :: "TraceDetail \<Rightarrow> trace_view_state" where
  "trace_view_init t =
     \<lparr>tv_active = (case firstFailed t of
          Some s \<Rightarrow> sd_id s
        | None \<Rightarrow> (case td_spans t of [] \<Rightarrow> [] | s # _ \<Rightarrow> sd_id s)),
      tv_tab = TabTimeline, tv_collapsed = {}\<rparr>"

definition toggleCollapse :: "string \<Rightarrow> trace_view_state \<Rightarrow> trace_view_state" where
  "toggleCollapse i st =
     st\<lparr>tv_collapsed := (if i \<in> tv_collapsed st then tv_collapsed st - {i} else insert i (tv_collapsed st))\<rparr>"

text \<open>
  The loop of \<open>revealSpan\<close> over the rows above the target, nearest first: it collects each row shallower
  than the last one collected and stops at the top level.
\<close>

fun collect_ancestors :: "SpanDetail list \<Rightarrow> nat \<Rightarrow> string list" where
  "collect_ancestors [] depth = []"
| "collect_ancestors (s # ups) depth =
     (if depth = 0 then []
      else if sd_depth s < depth then sd_id s # collect_ancestors ups (sd_depth s)
      else collect_ancestors ups depth)"

fun find_index :: "('a \<Rightarrow> bool) \<Rightarrow> 'a list \<Rightarrow> nat option" where
  "find_index P [] = None"
| "find_index P (x # xs) = (if P x then Some 0 else map_option Suc (find_index P xs))"

definition revealSpan :: "TraceDetail \<Rightarrow> string \<Rightarrow> trace_view_state \<Rightarrow> trace_view_state" where
  "revealSpan t i st =
     (let st' = (case find_index (\<lambda>s. sd_id s = i) (td_spans t) of
            None \<Rightarrow> st
          | Some idx \<Rightarrow>
              (let ancestors = collect_ancestors (rev (take idx (td_spans t))) (sd_depth (td_spans t ! idx)) in
               if ancestors = [] then st
               else st\<lparr>tv_collapsed := tv_collapsed st - set ancestors\<rparr>)) in
      st'\<lparr>tv_active := i, tv_tab := TabTimeline\<rparr>)"

definition setActiveSpanId :: "string \<Rightarrow> trace_view_state \<Rightarrow> trace_view_state" where
  "setActiveSpanId i st = st\<lparr>tv_active := i\<rparr>"

definition setTab :: "TabId \<Rightarrow> trace_view_state \<Rightarrow> trace_view_state" where
  "setTab tb st = st\<lparr>tv_tab := tb\<rparr>"

text \<open>The loop of \<open>visibleSpans\<close>; its second argument is \<open>hideBelow\<close>.\<close>

fun visible_loop :: "string set \<Rightarrow> nat option \<Rightarrow> SpanDetail list \<Rightarrow> SpanDetail list" where
  "visible_loop collapsed hide [] = []"
| "visible_loop collapsed hide (s # rest) =
     (if (case hide of None \<Rightarrow> False | Some d \<Rightarrow> sd_depth s > d) then visible_loop collapsed hide rest
      else s # visible_loop collapsed
             (if sd_id s \<in> collapsed \<and> isParentSpan s then Some (sd_depth s) else None) rest)"

definition visibleSpans :: "SpanDetail list \<Rightarrow> string set \<Rightarrow> SpanDetail list" where
  "visibleSpans spans collapsed = visible_loop collapsed None spans"

subsection \<open>What the page shows\<close>

text \<open>A zero-duration trace uses one millisecond, so that the timeline never divides by zero.\<close>

definition totalDuration :: "TraceDetail \<Rightarrow> int" where
  "totalDuration t = (if td_duration t = 0 then 1 else td_duration t)"

definition activeSpan :: "TraceDetail \<Rightarrow> trace_view_state \<Rightarrow> SpanDetail option" where
  "activeSpan t st = js_find (\<lambda>s. sd_id s = tv_active st) (td_spans t)"

definition failedCount :: "TraceDetail \<Rightarrow> nat" where
  "failedCount t = length (filter (\<lambda>s. sd_status s = SpanFailed) (td_spans t))"

definition tickValues :: "TraceDetail \<Rightarrow> rat list" where
  "tickValues t = map (\<lambda>i. of_int (totalDuration t) / of_nat TICKS * of_nat i) [0..<TICKS + 1]"

definition subtitle :: "TraceDetail \<Rightarrow> (string \<times> bool) list" where
  "subtitle t =
     filter (\<lambda>(text, mono). text \<noteq> [])
       [(nullish (td_version t) [], False), (td_model t, True), (nullish (td_environment t) [], False)]"

definition trace_tabs :: "(TabId \<times> string) list" where
  [data_defs]: "trace_tabs = [(TabTimeline, ''Timeline''), (TabInput, ''Input''), (TabOutput, ''Output''),
     (TabMetadata, ''Metadata''), (TabRaw, ''Raw JSON'')]"

text \<open>The heading: breadcrumb, title, times and the client; the share button reports the copy of the link.\<close>

record trace_heading =
  th_breadcrumb :: "string list"
  th_status :: run_status
  th_subtitle :: "(string \<times> bool) list"
  th_title :: string
  th_times :: "string option"
  th_client :: "string option"
  th_share :: string

definition share_label :: "CopyStatus \<Rightarrow> string" where
  "share_label c = (case c of Copied \<Rightarrow> ''Link copied'' | CopyFailed \<Rightarrow> ''Copy failed'' | Idle \<Rightarrow> ''Share'')"

definition trace_heading_of :: "TraceDetail \<Rightarrow> CopyStatus \<Rightarrow> trace_heading" where
  "trace_heading_of t shared =
     \<lparr>th_breadcrumb = [''Workflows'', td_workflow t, td_id t],
      th_status = td_status t,
      th_subtitle = subtitle t,
      th_title = td_workflow t,
      th_times =
        (if truthy (td_startedAt t)
         then Some (nullish (td_startedAt t) [] @
           (if truthy (td_endedAt t) then '' '' @ right_arrow @ '' '' @ nullish (td_endedAt t) [] else []))
         else None),
      th_client = (if truthy (td_user t) then td_user t else None),
      th_share = share_label shared\<rparr>"

text \<open>The tiles under the title: label, value and the line under it.\<close>

definition trace_tiles :: "host \<Rightarrow> TraceDetail \<Rightarrow> (string \<times> string \<times> string option) list" where
  "trace_tiles h t =
     [(''Duration'', fmtMs (of_int (td_duration t)), None),
      (''Total cost'', fmtCost (td_totalCost t), None),
      (''Input tokens'', fmtNum h (of_int (td_inputTokens t)),
         map_option (\<lambda>c. fmtNum h (of_int c) @ '' cached'') (td_cachedTokens t)),
      (''Output tokens'', fmtNum h (of_int (td_outputTokens t)), None),
      (''Spans'', nat_str (length (td_spans t)), Some (nat_str (failedCount t) @ '' failed'')),
      (''Model'', str_or (td_model t) em_dash, td_provider t)]"

record error_banner =
  eb_title :: string
  eb_message :: string
  eb_jump :: "string option"

text \<open>The banner of a failed trace; the button jumps to the first failed span.\<close>

definition trace_error_banner :: "TraceDetail \<Rightarrow> error_banner option" where
  "trace_error_banner t =
     map_option (\<lambda>e. \<lparr>eb_title = (if te_code e \<noteq> [] then ''HTTP '' @ te_code e @ '' '' @ mid_dot @ '' '' else []) @ te_type e,
                     eb_message = te_message e, eb_jump = map_option sd_id (firstFailed t)\<rparr>)
       (td_error t)"

definition trace_content :: "TraceDetail \<Rightarrow> TabId \<Rightarrow> string" where
  "trace_content t tb =
     (case tb of
        TabInput \<Rightarrow> str_or (nullish (td_input t) []) ''No input recorded for this trace.''
      | TabOutput \<Rightarrow> str_or (nullish (td_output t) [])
          (if td_status t = Failed then ''No output. The trace failed before completion.''
           else ''No output recorded for this trace.'')
      | _ \<Rightarrow> [])"

definition trace_metadata :: "TraceDetail \<Rightarrow> (string \<times> string option) list" where
  "trace_metadata t =
     [(''trace.id'', Some (td_id t)), (''workflow'', Some (td_workflow t)), (''workflow.version'', td_version t),
      (''session.id'', td_sessionId t), (''user.id'', td_user t), (''started_at'', td_startedAt t),
      (''ended_at'', td_endedAt t), (''duration'', Some (fmtMs (of_int (td_duration t)))),
      (''llm.model'', Some (td_model t)), (''llm.provider'', td_provider t), (''environment'', td_environment t),
      (''region'', td_region t), (''sdk'', td_sdk t)]"

definition trace_tags :: "TraceDetail \<Rightarrow> string list" where
  "trace_tags t = nullish (td_tags t) []"

subsection \<open>Rows and inspector\<close>

text \<open>The most severe issue, the first of them on a tie.\<close>

definition worse_issue :: "SetupIssue \<Rightarrow> SetupIssue \<Rightarrow> SetupIssue" where
  "worse_issue a b = (if rank (si_severity b) > rank (si_severity a) then b else a)"

definition worstIssue :: "SpanDetail \<Rightarrow> SetupIssue option" where
  "worstIssue s =
     (case nullish (sd_setupIssues s) [] of [] \<Rightarrow> None | i # rest \<Rightarrow> Some (foldl worse_issue i rest))"

record row_toggle =
  rt_expanded :: bool
  rt_label :: string
  rt_title :: string

record SpanRow =
  row_color :: string
  row_left :: rat
  row_width :: rat
  row_branch :: bool
  row_issue :: "(string \<times> string) option"
  row_duration :: string
  row_tokens :: string
  row_cost :: string
  row_subtree :: "string option"
  row_bar_label :: "string option"
  row_tog :: "row_toggle option"

definition spanRow :: "host \<Rightarrow> SpanDetail \<Rightarrow> bool \<Rightarrow> int \<Rightarrow> SpanRow" where
  "spanRow h s isCollapsed tot =
     (let leftPct = of_int (sd_start s) / of_int tot * 100;
          widthPct = max (4 / 10) (of_int (sd_duration s) / of_int tot * 100);
          isParent = isParentSpan s;
          rowCost = displayCost s;
          rowTokens = displayTokens s;
          n = of_nat (nullish (sd_childCount s) 0) in
      \<lparr>row_color = spanColor s,
       row_left = leftPct,
       row_width = widthPct,
       row_branch = (\<not> isParent \<and> sd_depth s > 0),
       row_issue = map_option (\<lambda>i. (sev_color (SEVERITY_META (si_severity i)),
           plural h (of_nat (length (nullish (sd_setupIssues s) []))) ''setup issue'')) (worstIssue s),
       row_duration = fmtMs (of_int (sd_duration s)),
       row_tokens = (if rowTokens > 0 then fmtNum h (of_int rowTokens) else em_dash),
       row_cost = (if rowCost > 0 then fmtCost rowCost else em_dash),
       row_subtree = (if isParent then Some (''Subtree total over '' @ plural h n ''child span'') else None),
       row_bar_label = (if widthPct > 14 then Some (fmtMs (of_int (sd_duration s))) else None),
       row_tog = (if isParent
         then Some \<lparr>rt_expanded = (\<not> isCollapsed),
                    rt_label = (if isCollapsed then ''Expand'' else ''Collapse'') @ '' '' @ sd_name s,
                    rt_title = (if isCollapsed then ''Show '' @ plural h n ''hidden child span''
                                else ''Hide child spans'')\<rparr>
         else None)\<rparr>)"

definition timeline_rows :: "host \<Rightarrow> TraceDetail \<Rightarrow> trace_view_state \<Rightarrow> SpanRow list" where
  "timeline_rows h t st =
     map (\<lambda>s. spanRow h s (sd_id s \<in> tv_collapsed st) (totalDuration t)) (visibleSpans (td_spans t) (tv_collapsed st))"

text \<open>The marks of the time axis, in percent of the width, and the line under the timeline.\<close>

definition tick_marks :: "TraceDetail \<Rightarrow> (rat \<times> string) list" where
  "tick_marks t = map (\<lambda>v. (v / of_int (totalDuration t) * 100, fmtMs v)) (tickValues t)"

definition timeline_legend :: "(string \<times> string) list" where
  [data_defs]: "timeline_legend = [(TYPE_COLORS TLlm, ''LLM''), (TYPE_COLORS TTool, ''Tool''),
     (TYPE_COLORS TChain, ''Chain''), (TYPE_COLORS TRetriever, ''Retriever''),
     (TYPE_COLORS TEmbedding, ''Embedding''), (TYPE_COLORS TInternal, ''Internal''), (''var(--error)'', ''Failed'')]"

definition timeline_total :: "TraceDetail \<Rightarrow> string" where
  "timeline_total t = nat_str (length (td_spans t)) @ '' spans '' @ mid_dot @ '' '' @ fmtMs (of_int (totalDuration t)) @ '' total''"

record span_inspector =
  ins_type :: span_type
  ins_name :: string
  ins_id :: string
  ins_status :: run_status
  ins_duration :: string
  ins_start :: string
  ins_cost_label :: string
  ins_cost :: string
  ins_cost_note :: "string option"
  ins_issues :: "SetupIssue list"
  ins_error :: "(string \<times> string) option"
  ins_input :: "string option"
  ins_output :: "string option"
  ins_tools :: "AvailableTool list"
  ins_attributes :: "(string \<times> string) list"

definition issue_order :: "SetupIssue \<Rightarrow> SetupIssue \<Rightarrow> int" where
  "issue_order a b = rank (si_severity b) - rank (si_severity a)"

definition SpanInspector :: "host \<Rightarrow> SpanDetail \<Rightarrow> span_inspector" where
  "SpanInspector h s =
     (let isParent = isParentSpan s; cost = displayCost s in
      \<lparr>ins_type = sd_type s,
       ins_name = sd_name s,
       ins_id = sd_id s,
       ins_status = (if sd_status s = SpanOk then Completed else Failed),
       ins_duration = fmtMs (of_int (sd_duration s)),
       ins_start = ''starts at +'' @ fmtMs (of_int (sd_start s)),
       ins_cost_label = (if isParent then ''Cost (subtree)'' else ''Cost''),
       ins_cost = (if cost > 0 then fmtCost cost else em_dash),
       ins_cost_note =
         (if isParent
          then Some ((if sd_cost s > 0 then fmtCost (sd_cost s) @ '' self '' @ mid_dot @ '' '' else [])
                     @ plural h (of_nat (nullish (sd_childCount s) 0)) ''child span'')
          else (case sd_inputTokens s of
                  None \<Rightarrow> None
                | Some n \<Rightarrow>
                    if sd_tokens s > 0
                    then Some (fmtNum h (of_int n) @ '' in'' @
                      (case sd_outputTokens s of
                         None \<Rightarrow> []
                       | Some m \<Rightarrow> if m = 0 then [] else '' '' @ mid_dot @ '' '' @ fmtNum h (of_int m) @ '' out''))
                    else None)),
       ins_issues = js_sort issue_order (nullish (sd_setupIssues s) []),
       ins_error = map_option (\<lambda>e. (if te_code e \<noteq> [] then ''Error '' @ mid_dot @ '' HTTP '' @ te_code e else ''Error'',
           te_type e @ (if te_message e \<noteq> [] then '' '' @ mid_dot @ '' '' else []) @ te_message e)) (sd_error s),
       ins_input = (if truthy (sd_input s) then sd_input s else None),
       ins_output = (if truthy (sd_output s) then sd_output s else None),
       ins_tools = nullish (sd_availableTools s) [],
       ins_attributes = sd_attributes s\<rparr>)"

text \<open>The list of the tools a span could call, with its \<open>Used\<close>/\<open>All\<close> switch.\<close>

definition AvailableToolsList :: "AvailableTool list \<Rightarrow> bool \<Rightarrow> string \<times> AvailableTool list" where
  "AvailableToolsList tools showAll =
     (nat_str (length (filter at_used tools)) @ '' of '' @ nat_str (length tools) @ '' used'',
      if showAll then tools else filter at_used tools)"

subsection \<open>Visible rows\<close>

text \<open>
  In a pre-order list a row is below another when every row after that one, up to and including it,
  is deeper.
\<close>

definition below :: "SpanDetail list \<Rightarrow> nat \<Rightarrow> nat \<Rightarrow> bool" where
  "below xs j i \<longleftrightarrow> j < i \<and> (\<forall>k. j < k \<and> k \<le> i \<longrightarrow> sd_depth (xs ! j) < sd_depth (xs ! k))"

definition hidden :: "SpanDetail list \<Rightarrow> string set \<Rightarrow> nat \<Rightarrow> bool" where
  "hidden xs c i \<longleftrightarrow> (\<exists>j. below xs j i \<and> sd_id (xs ! j) \<in> c \<and> isParentSpan (xs ! j))"

text \<open>The same with a row above the list, at the depth \<open>visible_loop\<close> carries.\<close>

definition hid :: "string set \<Rightarrow> nat option \<Rightarrow> SpanDetail list \<Rightarrow> nat \<Rightarrow> bool" where
  "hid c hide xs i \<longleftrightarrow> hidden xs c i \<or> (\<exists>d. hide = Some d \<and> (\<forall>k\<le>i. d < sd_depth (xs ! k)))"

lemma all_nat_cases: "(\<forall>k. Q k) \<longleftrightarrow> Q 0 \<and> (\<forall>k. Q (Suc k))"
  by (metis nat.exhaust)

lemma below_Cons_Suc: "below (x # xs) (Suc j) (Suc i) \<longleftrightarrow> below xs j i"
  unfolding below_def by (subst all_nat_cases) simp

lemma below_Cons_0: "below (x # xs) 0 (Suc i) \<longleftrightarrow> (\<forall>k\<le>i. sd_depth x < sd_depth (xs ! k))"
  unfolding below_def by (subst all_nat_cases) simp

lemma hidden_Cons:
  "hidden (x # xs) c (Suc i) \<longleftrightarrow>
     hidden xs c i \<or> sd_id x \<in> c \<and> isParentSpan x \<and> (\<forall>k\<le>i. sd_depth x < sd_depth (xs ! k))"
proof -
  have "hidden (x # xs) c (Suc i) \<longleftrightarrow> (\<exists>j. below (x # xs) (Suc j) (Suc i) \<and> sd_id (xs ! j) \<in> c \<and> isParentSpan (xs ! j))
      \<or> below (x # xs) 0 (Suc i) \<and> sd_id x \<in> c \<and> isParentSpan x"
    unfolding hidden_def by (metis nth_Cons_0 nth_Cons_Suc not0_implies_Suc)
  then show ?thesis unfolding below_Cons_Suc below_Cons_0 hidden_def by blast
qed

lemma hidden_0 [simp]: "\<not> hidden xs c 0"
  by (simp add: hidden_def below_def)

lemma all_le_Suc:
  "(\<forall>k\<le>Suc i. d < sd_depth ((x # xs) ! k)) \<longleftrightarrow> d < sd_depth x \<and> (\<forall>k\<le>i. d < sd_depth (xs ! k))"
  by (subst all_nat_cases) simp

lemma visible_loop_nths: "visible_loop c hide xs = nths xs {i. \<not> hid c hide xs i}"
proof (induction xs arbitrary: hide)
  case (Cons x xs)
  let ?skip = "case hide of None \<Rightarrow> False | Some d \<Rightarrow> sd_depth x > d"
  let ?hide = "if sd_id x \<in> c \<and> isParentSpan x then Some (sd_depth x) else None"
  have 0: "hid c hide (x # xs) 0 \<longleftrightarrow> ?skip" by (auto simp: hid_def split: option.splits)
  have S: "hid c hide (x # xs) (Suc i) \<longleftrightarrow> hid c (if ?skip then hide else ?hide) xs i" for i
  proof -
    have "hid c hide (x # xs) (Suc i) \<longleftrightarrow> hidden (x # xs) c (Suc i) \<or>
        (\<exists>d. hide = Some d \<and> d < sd_depth x \<and> (\<forall>k\<le>i. d < sd_depth (xs ! k)))"
      unfolding hid_def all_le_Suc by (rule refl)
    then show ?thesis
      unfolding hidden_Cons hid_def by (cases hide) (auto intro: less_trans)
  qed
  show ?case by (simp add: nths_Cons 0 S Cons.IH)
qed simp

lemma visibleSpans_nths: "visibleSpans xs c = nths xs {i. \<not> hidden xs c i}"
  by (simp add: visibleSpans_def visible_loop_nths hid_def)

lemma collect_ancestors_complete:
  "m < length ys \<Longrightarrow> sd_depth (ys ! m) < d \<Longrightarrow> \<forall>k<m. sd_depth (ys ! m) < sd_depth (ys ! k) \<Longrightarrow>
     sd_id (ys ! m) \<in> set (collect_ancestors ys d)"
proof (induction ys d arbitrary: m rule: collect_ancestors.induct)
  case (2 s ups d)
  show ?case
  proof (cases m)
    case 0
    with 2(4) show ?thesis by simp
  next
    case (Suc n)
    then have "sd_depth (ups ! n) < sd_depth s" "\<forall>k<n. sd_depth (ups ! n) < sd_depth (ups ! k)"
      using 2(5) by fastforce+
    then show ?thesis using 2 Suc by auto
  qed
qed simp

lemma find_index_Some: "find_index P xs = Some i \<Longrightarrow> i < length xs \<and> P (xs ! i)"
  by (induction xs arbitrary: i) (auto split: if_splits)

lemma find_index_None: "find_index P xs = None \<longleftrightarrow> (\<forall>x\<in>set xs. \<not> P x)"
  by (induction xs) auto

lemma ancestor_collected:
  assumes "below xs j i" "i < length xs"
  shows "sd_id (xs ! j) \<in> set (collect_ancestors (rev (take i xs)) (sd_depth (xs ! i)))"
proof -
  have j: "j < i" using assms (1) by (simp add: below_def)
  have nth: "rev (take i xs) ! m = xs ! (i - Suc m)" if "m < i" for m
    using that assms (2) by (simp add: rev_nth)
  have "sd_id (rev (take i xs) ! (i - Suc j)) \<in> set (collect_ancestors (rev (take i xs)) (sd_depth (xs ! i)))"
  proof (rule collect_ancestors_complete)
    show "i - Suc j < length (rev (take i xs))" using j assms (2) by simp
    show "sd_depth (rev (take i xs) ! (i - Suc j)) < sd_depth (xs ! i)"
      using assms j nth [of "i - Suc j"] by (auto simp: below_def)
    show "\<forall>k<i - Suc j. sd_depth (rev (take i xs) ! (i - Suc j)) < sd_depth (rev (take i xs) ! k)"
      using assms j nth by (auto simp: below_def)
  qed
  then show ?thesis using j nth [of "i - Suc j"] by simp
qed

subsection \<open>Properties\<close>

text \<open>C30. The timeline shows exactly the rows that are not below a collapsed parent, in order: whatever the
  set of collapsed spans, a row disappears if and only if one of its ancestors is collapsed.\<close>

theorem visibleSpans_spec:
  "visibleSpans xs c = nths xs {i. \<not> (\<exists>j. below xs j i \<and> sd_id (xs ! j) \<in> c \<and> isParentSpan (xs ! j))}"
  by (simp add: visibleSpans_nths hidden_def)

text \<open>Jumping to a span selects it, opens the timeline and expands every collapsed ancestor: its row is
  visible afterwards, and no span that was expanded becomes collapsed.\<close>

theorem revealSpan_visible:
  assumes "i \<in> sd_id ` set (td_spans t)"
  shows "i \<in> sd_id ` set (visibleSpans (td_spans t) (tv_collapsed (revealSpan t i st))) \<and>
    tv_active (revealSpan t i st) = i \<and> tv_tab (revealSpan t i st) = TabTimeline \<and>
    tv_collapsed (revealSpan t i st) \<subseteq> tv_collapsed st"
proof -
  let ?xs = "td_spans t"
  from assms obtain n where n: "find_index (\<lambda>s. sd_id s = i) ?xs = Some n"
    by (metis (mono_tags, lifting) find_index_None imageE option.exhaust)
  let ?anc = "collect_ancestors (rev (take n ?xs)) (sd_depth (?xs ! n))"
  have st: "tv_collapsed (revealSpan t i st) = tv_collapsed st - set ?anc"
    using n by (simp add: revealSpan_def Let_def)
  have n': "n < length ?xs" "sd_id (?xs ! n) = i" using find_index_Some [OF n] by simp_all
  have "\<not> hidden ?xs (tv_collapsed st - set ?anc) n"
    using ancestor_collected [OF _ n'(1)] by (auto simp: hidden_def)
  with n' have "i \<in> sd_id ` set (visibleSpans ?xs (tv_collapsed (revealSpan t i st)))"
    unfolding st visibleSpans_nths set_nths by blast
  then show ?thesis using st by (simp add: revealSpan_def Let_def)
qed

theorem revealSpan_visible_witness:
  "''s7'' \<in> sd_id ` set (visibleSpans (td_spans TRACE_DETAIL)
      (tv_collapsed (revealSpan TRACE_DETAIL ''s7'' (toggleCollapse ''s1'' (trace_view_init TRACE_DETAIL)))))"
proof -
  have "''s7'' \<in> sd_id ` set (td_spans TRACE_DETAIL)"
    by (simp add: TRACE_DETAIL_def demo_spans)
  from revealSpan_visible [OF this] show ?thesis by blast
qed

text \<open>A trace with spans opens on one of them: the first failed span when there is one, otherwise the
  first; and the inspector finds the span the page starts with.\<close>

theorem trace_view_init_active:
  assumes "td_spans t \<noteq> []"
  shows "\<exists>s \<in> set (td_spans t). activeSpan t (trace_view_init t) = Some s \<and> sd_id s = tv_active (trace_view_init t)
    \<and> (failedCount t > 0 \<longrightarrow> (\<exists>u. firstFailed t = Some u \<and> sd_id s = sd_id u \<and> sd_status u = SpanFailed))
    \<and> (failedCount t = 0 \<longrightarrow> s = hd (td_spans t))"
proof -
  let ?a = "tv_active (trace_view_init t)"
  have failed: "failedCount t = 0 \<longleftrightarrow> firstFailed t = None"
    by (auto simp: failedCount_def firstFailed_def filter_empty_conv)
  have in_ids: "?a \<in> sd_id ` set (td_spans t)"
    using assms by (auto simp: trace_view_init_def firstFailed_def split: option.splits list.splits dest: js_find_SomeD)
  then obtain s where s: "activeSpan t (trace_view_init t) = Some s"
    unfolding activeSpan_def by (metis (mono_tags, lifting) imageE js_find_eq_None option.exhaust)
  have mem: "s \<in> set (td_spans t)" "sd_id s = ?a"
    using js_find_SomeD [OF s [unfolded activeSpan_def]] by simp_all
  have "s = hd (td_spans t)" if "firstFailed t = None"
    using s assms that by (cases "td_spans t") (auto simp: activeSpan_def trace_view_init_def)
  moreover have "sd_id s = sd_id u \<and> sd_status u = SpanFailed" if "firstFailed t = Some u" for u
    using mem(2) that js_find_SomeD [OF that [unfolded firstFailed_def]] by (simp add: trace_view_init_def)
  ultimately show ?thesis using s mem failed by (metis not_gr0 option.exhaust)
qed

theorem trace_view_init_active_witness:
  "\<exists>s \<in> set (td_spans TRACE_DETAIL). activeSpan TRACE_DETAIL (trace_view_init TRACE_DETAIL) = Some s \<and> sd_id s = ''s1''"
proof -
  have "td_spans TRACE_DETAIL \<noteq> []" by (simp add: TRACE_DETAIL_def)
  moreover have "tv_active (trace_view_init TRACE_DETAIL) = ''s1''"
    by (simp add: trace_view_init_def firstFailed_def TRACE_DETAIL_def demo_spans)
  ultimately show ?thesis using trace_view_init_active [of TRACE_DETAIL] by metis
qed

lemma worse_issue_ge: "si_severity a \<le> si_severity (worse_issue a b)" "si_severity b \<le> si_severity (worse_issue a b)"
  by (auto simp: worse_issue_def less_eq_Severity_def)

lemma worse_issue_fold:
  "foldl worse_issue a xs \<in> insert a (set xs) \<and>
     (\<forall>i \<in> insert a (set xs). si_severity i \<le> si_severity (foldl worse_issue a xs))"
proof (induction xs arbitrary: a)
  case (Cons b xs)
  have "worse_issue a b \<in> {a, b}" by (simp add: worse_issue_def)
  moreover have "si_severity (worse_issue a b) \<le> si_severity (foldl worse_issue (worse_issue a b) xs)"
    using Cons [of "worse_issue a b"] by blast
  ultimately show ?case
    using Cons [of "worse_issue a b"] worse_issue_ge(1) [of a b] worse_issue_ge(2) [of b a] by (auto intro: order_trans)
qed simp

text \<open>The issue a row flags is one of the span's, none is more severe, and there is one whenever the span
  has any.\<close>

theorem worstIssue_most_severe:
  "case worstIssue s of
     None \<Rightarrow> nullish (sd_setupIssues s) [] = []
   | Some w \<Rightarrow> w \<in> set (nullish (sd_setupIssues s) []) \<and>
       (\<forall>i \<in> set (nullish (sd_setupIssues s) []). si_severity i \<le> si_severity w)"
proof -
  show ?thesis
    using worse_issue_fold by (auto simp: worstIssue_def split: list.splits option.splits)
qed

theorem worstIssue_most_severe_witness:
  "worstIssue (demo_span_s2\<lparr>sd_setupIssues := Some [\<lparr>si_code = ''a'', si_severity = Info, si_message = []\<rparr>,
     \<lparr>si_code = ''b'', si_severity = Critical, si_message = []\<rparr>]\<rparr>)
   = Some \<lparr>si_code = ''b'', si_severity = Critical, si_message = []\<rparr>"
  using worstIssue_most_severe [of "demo_span_s2\<lparr>sd_setupIssues := Some [\<lparr>si_code = ''a'', si_severity = Info, si_message = []\<rparr>,
     \<lparr>si_code = ''b'', si_severity = Critical, si_message = []\<rparr>]\<rparr>"]
  by (auto simp: less_eq_Severity_def split: option.splits)


text \<open>The axis of the timeline runs from 0 to 100 percent in equal steps, for every duration including
  zero: no mark depends on a division by zero.\<close>

theorem tick_marks_even:
  "map fst (tick_marks t) = [0, 20, 40, 60, 80, 100]"
  by (simp add: tick_marks_def tickValues_def TICKS_def totalDuration_def upt_rec [of 0 "Suc _"] eval_nat_numeral)

end
