(* ===== verification/Dashboard_Frame.thy ===== *)
theory Dashboard_Frame
  imports Shell Trace_View
begin

text \<open>
  What the dashboard shows around and between its pages: the menu of workspaces as a dialog with its focus
  (\<open>WorkspaceSwitcher.tsx\<close>), the drawer and the controls of the sidebar (\<open>Sidebar.tsx\<close>), the top bar (\<open>TopBar.tsx\<close>), the rows
  of the command palette, the boundary that catches errors of a page (\<open>ErrorBoundary.tsx\<close>) and the page of a trace
  (\<open>TraceDetailView.tsx\<close>). The parts are put together as one transition system that follows the dashboard of \<open>Shell\<close>.
\<close>

subsection \<open>Errors of a page (ErrorBoundary.tsx)\<close>

record boundary =
  eb_key :: ViewId
  eb_hasError :: bool
  eb_error :: "string option"

definition boundary_init :: "ViewId \<Rightarrow> boundary" where
  "boundary_init key = \<lparr>eb_key = key, eb_hasError = False, eb_error = None\<rparr>"

definition getDerivedStateFromError :: "string \<Rightarrow> boundary \<Rightarrow> boundary" where
  "getDerivedStateFromError message b = b\<lparr>eb_hasError := True, eb_error := Some message\<rparr>"

text \<open>A component whose key changes is mounted anew, with the state of its constructor.\<close>

definition boundary_keyed :: "ViewId \<Rightarrow> boundary \<Rightarrow> boundary" where
  "boundary_keyed key b = (if key = eb_key b then b else boundary_init key)"

datatype 'a boundary_view = SomethingWentWrong "string option" | Children 'a

definition boundary_render :: "boundary \<Rightarrow> 'a \<Rightarrow> 'a boundary_view" where
  "boundary_render b shown = (if eb_hasError b then SomethingWentWrong (eb_error b) else Children shown)"

subsection \<open>The menu of workspaces (WorkspaceSwitcher.tsx)\<close>

text \<open>What can have the focus: the button of the menu, the controls of the open menu, or anything else.\<close>

datatype control = Trigger | RowButton string | DeleteButton string | CreateButton | Elsewhere

record switcher =
  sw_open :: bool
  sw_focus :: control

definition switcher_init :: switcher where
  "switcher_init = \<lparr>sw_open = False, sw_focus = Elsewhere\<rparr>"

definition row_controls :: "switcher_row \<Rightarrow> control list" where
  "row_controls r = RowButton (wk_id (sr_workspace r)) #
     (if sr_deletable r then [DeleteButton (wk_id (sr_workspace r))] else [])"

text \<open>The focusable controls of the menu in document order.\<close>

definition switcher_items :: "Workspace option \<Rightarrow> Workspace list \<Rightarrow> control list" where
  "switcher_items current workspaces = concat (map row_controls (switcher_rows current workspaces)) @ [CreateButton]"

text \<open>The control with \<open>autoFocus\<close> when the menu is mounted.\<close>

definition switcher_autofocus :: "Workspace option \<Rightarrow> Workspace list \<Rightarrow> control option" where
  "switcher_autofocus current workspaces =
     (if workspaces = [] then Some CreateButton
      else map_option (\<lambda>r. RowButton (wk_id (sr_workspace r))) (js_find sr_active (switcher_rows current workspaces)))"

text \<open>A click on the button of the menu; the browser leaves the focus at \<open>focus\<close>.\<close>

definition switcher_toggle :: "control \<Rightarrow> Workspace option \<Rightarrow> Workspace list \<Rightarrow> switcher \<Rightarrow> switcher" where
  "switcher_toggle focus current workspaces s =
     (if sw_open s then \<lparr>sw_open = False, sw_focus = focus\<rparr>
      else \<lparr>sw_open = True, sw_focus = nullish (switcher_autofocus current workspaces) focus\<rparr>)"

definition switcher_dismiss :: "switcher \<Rightarrow> switcher" where
  "switcher_dismiss s = s\<lparr>sw_open := False\<rparr>"

definition switcher_close :: "switcher \<Rightarrow> switcher" where
  "switcher_close s = \<lparr>sw_open = False, sw_focus = Trigger\<rparr>"

text \<open>A press at \<open>target\<close>; everything but \<open>Elsewhere\<close> is inside the element the hook watches.\<close>

definition switcher_press :: "control \<Rightarrow> switcher \<Rightarrow> switcher" where
  "switcher_press target s =
     (if useClickOutside (\<lambda>_ t. t \<noteq> Elsewhere) (Some Trigger) (sw_open s) target
      then switcher_dismiss (s\<lparr>sw_focus := target\<rparr>) else s)"

text \<open>A storage that throws ends a handler before the menu is closed.\<close>

definition switcher_pick :: "Workspace \<Rightarrow> switcher \<times> dash \<Rightarrow> switcher \<times> dash" where
  "switcher_pick ws = (\<lambda>(s, d). (if storage_works d then switcher_close s else s, selectWorkspace ws d))"

definition switcher_create :: "switcher \<times> dash \<Rightarrow> switcher \<times> dash" where
  "switcher_create = (\<lambda>(s, d). (if storage_works d then switcher_dismiss s else s, goCreateWorkspace d))"

text \<open>A key pressed while the focus is in the menu. Tab goes where the handler or the browser takes it.\<close>

definition switcher_key :: "string \<Rightarrow> bool \<Rightarrow> control list \<Rightarrow> switcher \<Rightarrow> switcher" where
  "switcher_key key shift items s =
     (case find_index (\<lambda>c. c = sw_focus s) items of
        None \<Rightarrow> s
      | Some i \<Rightarrow>
          if \<not> sw_open s then s
          else if handleDialogKeyDown key shift items (sw_focus s) = CloseDialog then switcher_close s
          else if key = ''Tab'' then s\<lparr>sw_focus := nullish (tab_focus shift items i) Elsewhere\<rparr>
          else s)"

text \<open>A control that is no longer rendered loses the focus.\<close>

definition switcher_render :: "Workspace option \<Rightarrow> Workspace list \<Rightarrow> switcher \<Rightarrow> switcher" where
  "switcher_render current workspaces s =
     (if sw_focus s \<in> {Trigger, Elsewhere} \<or> sw_open s \<and> sw_focus s \<in> set (switcher_items current workspaces)
      then s else s\<lparr>sw_focus := Elsewhere\<rparr>)"

record switcher_view =
  sv_name :: string
  sv_env :: "string option"
  sv_hint :: "string option"
  sv_rows :: "(string \<times> switcher_row) list"
  sv_empty :: bool

text \<open>The button of the menu and the menu below it; \<open>initials\<close> is \<open>slice(0, 2).toUpperCase()\<close>.\<close>

definition switcher_view :: "(string \<Rightarrow> string) \<Rightarrow> Workspace option \<Rightarrow> Workspace list \<Rightarrow> switcher \<Rightarrow> switcher_view" where
  "switcher_view initials current workspaces s =
     \<lparr>sv_name = (case current of None \<Rightarrow> ''No workspace'' | Some w \<Rightarrow> wk_name w),
      sv_env = map_option (ENV_LABEL \<circ> wk_env) current,
      sv_hint = (if current = None then Some ''Create one to get started'' else None),
      sv_rows = (if sw_open s
        then map (\<lambda>r. (initials (wk_name (sr_workspace r)), r)) (switcher_rows current workspaces) else []),
      sv_empty = (sw_open s \<and> workspaces = [])\<rparr>"

subsection \<open>The sidebar (Sidebar.tsx)\<close>

definition isMobileNav :: "(string \<Rightarrow> bool) option \<Rightarrow> bool \<Rightarrow> bool" where
  "isMobileNav matchMedia embedded \<longleftrightarrow> useMaxWidth matchMedia BREAKPOINTS_mobile \<and> \<not> embedded"

definition drawerOpen :: "bool \<Rightarrow> dash \<Rightarrow> bool" where
  "drawerOpen mobile d \<longleftrightarrow> mobile \<and> db_navOpen d"

text \<open>A control of the sidebar: its name for assistive technology, the text shown, whether it is marked as current.\<close>

datatype side_action = CloseDrawer | ToggleCollapsed | OpenSwitcher | GoTo ViewId | OpenGithub | ToggleTheme | LogOut

record side_control =
  sc_name :: string
  sc_text :: "string option"
  sc_active :: bool
  sc_action :: side_action

definition NavItem :: "bool \<Rightarrow> string \<Rightarrow> bool \<Rightarrow> side_action \<Rightarrow> side_control" where
  "NavItem coll label active action =
     \<lparr>sc_name = label, sc_text = (if coll then None else Some label), sc_active = active, sc_action = action\<rparr>"

text \<open>The controls from top to bottom. \<open>logout\<close> says whether the shell was given a way to log out.\<close>

definition side_controls :: "bool \<Rightarrow> bool \<Rightarrow> sidebar \<Rightarrow> dash \<Rightarrow> side_control list" where
  "side_controls mobile logout sb d =
     (let coll = collapsed mobile sb;
          toggle = (if coll then ''Expand sidebar'' else ''Collapse sidebar'') in
      concat
       [if mobile then [\<lparr>sc_name = ''Close menu'', sc_text = None, sc_active = False, sc_action = CloseDrawer\<rparr>] else [],
        if \<not> mobile then [\<lparr>sc_name = toggle, sc_text = None, sc_active = False, sc_action = ToggleCollapsed\<rparr>] else [],
        if \<not> coll then [\<lparr>sc_name = (case workspace d of None \<Rightarrow> ''No workspace'' | Some w \<Rightarrow> wk_name w),
          sc_text = Some (case workspace d of None \<Rightarrow> ''No workspace'' | Some w \<Rightarrow> wk_name w),
          sc_active = False, sc_action = OpenSwitcher\<rparr>] else [],
        map (\<lambda>r. NavItem coll (nr_label r) (nr_active r) (GoTo (nr_id r))) (nav_rows (db_pages d) (db_view d)),
        [\<lparr>sc_name = ''Star on GitHub'', sc_text = (if coll then None else Some ''Star''), sc_active = False,
          sc_action = OpenGithub\<rparr>],
        if \<not> db_embedded d
        then [NavItem coll (if sb_theme sb = Some ''light'' then ''Dark mode'' else ''Light mode'') False ToggleTheme] else [],
        [NavItem coll ''Settings'' (db_view d = ''settings'') (GoTo ''settings'')],
        if logout then [NavItem coll ''Log out'' False LogOut] else []])"

text \<open>Keys of the open drawer: the handler of dialogs on its controls, from the one with the focus.\<close>

definition drawer_key :: "bool \<Rightarrow> string \<Rightarrow> bool \<Rightarrow> side_action list \<Rightarrow> side_action \<Rightarrow> dash \<Rightarrow> dash" where
  "drawer_key mobile key shift items active d =
     (if drawerOpen mobile d \<and> handleDialogKeyDown key shift items active = CloseDialog
      then d\<lparr>db_navOpen := False\<rparr> else d)"

subsection \<open>The top bar and the rows of the palette (TopBar.tsx, CommandPalette.tsx)\<close>

record crumb_view =
  cv_label :: string
  cv_slash :: bool
  cv_link :: bool
  cv_last :: bool

definition crumb_views :: "BreadcrumbItem list \<Rightarrow> crumb_view list" where
  "crumb_views bs = map (\<lambda>(i, b).
     \<lparr>cv_label = bc_label b, cv_slash = (i > 0), cv_link = (bc_onClick b \<noteq> None), cv_last = (i = length bs - 1)\<rparr>)
     (enumerate 0 bs)"

definition isMac :: "string \<Rightarrow> bool" where
  "isMac platform \<longleftrightarrow> str_includes platform ''Mac'' \<or> str_includes platform ''iPhone'' \<or> str_includes platform ''iPad''"

definition command_glyph :: string where
  [data_defs]: "command_glyph = [CHR 0xE2, CHR 0x8C, CHR 0x98]"

record top_bar =
  tb_menu :: bool
  tb_crumbs :: "crumb_view list"
  tb_ranges :: "(string \<times> bool) list"
  tb_shortcut :: string

definition topBar :: "string \<Rightarrow> bool \<Rightarrow> dash \<Rightarrow> top_bar" where
  "topBar platform mobile d =
     \<lparr>tb_menu = mobile,
      tb_crumbs = crumb_views (breadcrumb d),
      tb_ranges = (if showRange d then map (\<lambda>r. (r, db_range d = r)) RANGES else []),
      tb_shortcut = (if isMac platform then command_glyph @ ''K'' else ''Ctrl K'')\<rparr>"

text \<open>A click on the \<open>i\<close>-th crumb.\<close>

definition crumb_click :: "nat \<Rightarrow> dash \<Rightarrow> dash" where
  "crumb_click i d =
     (if i < length (breadcrumb d)
      then (case bc_onClick (breadcrumb d ! i) of None \<Rightarrow> d | Some f \<Rightarrow> f d) else d)"

datatype palette_view = NoResults | PaletteRows "(string \<times> bool) list"

text \<open>Nothing while the palette is closed; otherwise its rows, with the arrow on the highlighted one.\<close>

definition commandPalette :: "(string \<Rightarrow> string) \<Rightarrow> palette \<Rightarrow> dash \<Rightarrow> palette_view option" where
  "commandPalette lower p d =
     (let filtered = cmd_filtered lower (pa_query p) in
      if \<not> db_cmdOpen d then None
      else Some (if filtered = [] then NoResults
        else PaletteRows (map (\<lambda>(i, item). (ci_label item, int i = pa_idx p)) (enumerate 0 filtered))))"

subsection \<open>The page of a trace (TraceDetailView.tsx)\<close>

datatype trace_screen = TraceLoading | TraceFailed string | TraceNotFound | TraceShown TraceDetail

text \<open>An error is its message when it is an \<open>Error\<close>.\<close>

definition traceDetailView :: "host \<Rightarrow> bool \<Rightarrow> string option option \<Rightarrow> LiveTrace option \<Rightarrow> trace_screen" where
  "traceDetailView h isLoading err live =
     (if isLoading then TraceLoading
      else case err of
        Some e \<Rightarrow> TraceFailed (''Failed to load trace: '' @ nullish e ''Unknown error'')
      | None \<Rightarrow> (case live of None \<Rightarrow> TraceNotFound | Some t \<Rightarrow> TraceShown (toTraceView h t)))"

definition trace_openUser :: "string \<Rightarrow> dash \<Rightarrow> dash" where
  "trace_openUser user d = setView ''user'' (setSelected (jm_set ''user'' user) d)"

definition trace_navigate :: "ViewId \<Rightarrow> dash \<Rightarrow> dash" where
  "trace_navigate v d = setView v (if v = ''workflows'' then setSelected (without [''workflow'']) d else d)"

text \<open>The inspector is keyed by the trace: the same trace keeps its state, another one starts afresh.\<close>

definition trace_mount :: "trace_screen \<Rightarrow> (string \<times> trace_view_state) option \<Rightarrow> (string \<times> trace_view_state) option" where
  "trace_mount screen prev =
     (case screen of
        TraceShown t \<Rightarrow>
          (case prev of
             Some (k, st) \<Rightarrow> if k = td_id t then Some (k, st) else Some (td_id t, trace_view_init t)
           | None \<Rightarrow> Some (td_id t, trace_view_init t))
      | _ \<Rightarrow> None)"

subsection \<open>The frame as a transition system\<close>

record frame =
  fr_dash :: dash
  fr_mobile :: bool
  fr_sidebar :: sidebar
  fr_switcher :: switcher
  fr_boundary :: boundary

text \<open>A render: the boundary is keyed by the view, and a collapsed sidebar has no menu of workspaces.\<close>

definition frame_render :: "frame \<Rightarrow> frame" where
  "frame_render f =
     (let d = fr_dash f in
      f\<lparr>fr_boundary := boundary_keyed (db_view d) (fr_boundary f),
        fr_switcher := (if collapsed (fr_mobile f) (fr_sidebar f) then switcher_init
          else switcher_render (workspace d) (db_workspaces d) (fr_switcher f))\<rparr>)"

definition frame_items :: "frame \<Rightarrow> control list" where
  "frame_items f = switcher_items (workspace (fr_dash f)) (db_workspaces (fr_dash f))"

definition in_menu :: "frame \<Rightarrow> bool" where
  "in_menu f \<longleftrightarrow> sw_open (fr_switcher f) \<and> sw_focus (fr_switcher f) \<in> set (frame_items f)"

definition with_dash :: "(switcher \<times> dash \<Rightarrow> switcher \<times> dash) \<Rightarrow> frame \<Rightarrow> frame" where
  "with_dash h f =
     (case h (fr_switcher f, fr_dash f) of (s, d) \<Rightarrow> frame_render (f\<lparr>fr_switcher := s, fr_dash := commit d\<rparr>))"

text \<open>The sidebar writes its preferences into the storage of the dashboard.\<close>

definition with_prefs :: "(sidebar \<times> browser \<Rightarrow> sidebar \<times> browser) \<Rightarrow> frame \<Rightarrow> frame" where
  "with_prefs h f =
     (case h (fr_sidebar f, db_browser (fr_dash f)) of (sb, b) \<Rightarrow>
        frame_render (f\<lparr>fr_sidebar := sb, fr_dash := (fr_dash f)\<lparr>db_browser := b\<rparr>\<rparr>))"

definition on_switcher :: "(switcher \<Rightarrow> switcher) \<Rightarrow> frame \<Rightarrow> frame" where
  "on_switcher h f = frame_render (f\<lparr>fr_switcher := h (fr_switcher f)\<rparr>)"

definition menu_click :: "control \<Rightarrow> frame \<Rightarrow> frame" where
  "menu_click c f = on_switcher (switcher_toggle c (workspace (fr_dash f)) (db_workspaces (fr_dash f))) f"

definition throws :: "string \<Rightarrow> frame \<Rightarrow> frame" where
  "throws message f = f\<lparr>fr_boundary := getDerivedStateFromError message (fr_boundary f)\<rparr>"

text \<open>Escape and Tab in the drawer; an Escape in the menu of workspaces does not reach it.\<close>

definition drawer_keys :: "string \<Rightarrow> bool \<Rightarrow> side_action list \<Rightarrow> side_action \<Rightarrow> frame \<Rightarrow> frame" where
  "drawer_keys key shift items active f =
     (if in_menu f then f
      else frame_render (f\<lparr>fr_dash := commit (drawer_key (fr_mobile f) key shift items active (fr_dash f))\<rparr>))"

inductive frame_step :: "frame \<Rightarrow> frame \<Rightarrow> bool" where
  page: "dash_step (fr_dash f) d \<Longrightarrow> frame_step f (frame_render (f\<lparr>fr_dash := d\<rparr>))"
| crumb: "frame_step f (frame_render (f\<lparr>fr_dash := commit (crumb_click i (fr_dash f))\<rparr>))"
| resized: "frame_step f (frame_render (f\<lparr>fr_mobile := m\<rparr>))"
| theme: "\<not> db_embedded (fr_dash f) \<Longrightarrow> frame_step f (with_prefs toggleTheme f)"
| fold: "frame_step f (with_prefs (toggleCollapsed (db_embedded (fr_dash f))) f)"
| stars: "frame_step f (f\<lparr>fr_sidebar := set_stars answer (fr_sidebar f)\<rparr>)"
| menu: "\<not> collapsed (fr_mobile f) (fr_sidebar f) \<Longrightarrow> c \<in> {Trigger, Elsewhere} \<Longrightarrow>
    frame_step f (menu_click c f)"
| press: "frame_step f (on_switcher (switcher_press c) f)"
| menu_key: "frame_step f (on_switcher (switcher_key key shift (frame_items f)) f)"
| pick: "sw_open (fr_switcher f) \<Longrightarrow> ws \<in> set (db_workspaces (fr_dash f)) \<Longrightarrow> frame_step f (with_dash (switcher_pick ws) f)"
| create: "sw_open (fr_switcher f) \<Longrightarrow> frame_step f (with_dash switcher_create f)"
| delete: "sw_open (fr_switcher f) \<Longrightarrow> ws \<in> set (db_workspaces (fr_dash f)) \<Longrightarrow>
    frame_step f (with_dash (\<lambda>(s, d). (s\<lparr>sw_focus := DeleteButton (wk_id ws)\<rparr>, fst (switcher_delete confirmed ok ws d))) f)"
| drawer: "frame_step f (drawer_keys key shift items active f)"
| error: "frame_step f (throws message f)"

inductive_cases frame_stepE: "frame_step f f'"

definition frame_open :: "bool \<Rightarrow> sidebar \<Rightarrow> dash \<Rightarrow> frame" where
  "frame_open mobile sb d =
     \<lparr>fr_dash = d, fr_mobile = mobile, fr_sidebar = sb, fr_switcher = switcher_init, fr_boundary = boundary_init (db_view d)\<rparr>"

definition frame_start :: "frame \<Rightarrow> bool" where
  "frame_start f \<longleftrightarrow> (\<exists>mobile docTheme sb d. dash_start d \<and>
     sidebar_init False docTheme (db_browser d) = Some sb \<and> f = frame_open mobile sb d)"

subsection \<open>The frame follows the dashboard\<close>

lemma frame_render_dash [simp]: "fr_dash (frame_render f) = fr_dash f" "fr_mobile (frame_render f) = fr_mobile f"
  "fr_sidebar (frame_render f) = fr_sidebar f"
  by (simp_all add: frame_render_def Let_def)

lemma handler_refl: "dash_handler d d"
  using on_palette [of d "db_cmdOpen d"] by simp

definition crumb_ok :: "dash \<Rightarrow> BreadcrumbItem \<Rightarrow> bool" where
  "crumb_ok d b \<longleftrightarrow> (\<forall>f. bc_onClick b = Some f \<longrightarrow> dash_handler d (f d))"

lemma crumbs_ok: "list_all (crumb_ok d) (breadcrumb d)"
proof -
  have c: "crumb_ok d (crumb l)" "crumb_ok d (link_crumb l (setView v))"
    "crumb_ok d (link_crumb l (setView v \<circ> setSelected f))" for l v f
    by (simp_all add: crumb_ok_def crumb_def link_crumb_def on_view on_navigate)
  show ?thesis
  proof (cases "js_find (\<lambda>p. xp_id p = db_view d) (db_pages d)")
    case None
    show ?thesis unfolding breadcrumb_def Let_def None option.case
      by (simp only: list.pred_inject list_all_append c simp_thms split: if_split)
  qed (simp add: breadcrumb_def c)
qed

lemma crumb_click_handler: "dash_handler d (crumb_click i d)"
  using crumbs_ok [of d] by (auto simp: crumb_click_def list_all_length crumb_ok_def handler_refl split: option.split)

lemma set_item_step:
  assumes "k \<in> {THEME_KEY, SIDEBAR_KEY}" "\<not> db_embedded d" "set_item k v (db_browser d) = Some b"
  shows "dash_step d (d\<lparr>db_browser := b\<rparr>)"
  using step_preference [OF assms(1), of d v] assms(2,3) by (simp add: persist_item_def)

lemma toggleTheme_step:
  assumes "\<not> db_embedded d"
  shows "d\<lparr>db_browser := snd (toggleTheme (sb, db_browser d))\<rparr> = d \<or>
    dash_step d (d\<lparr>db_browser := snd (toggleTheme (sb, db_browser d))\<rparr>)"
  using set_item_step [of THEME_KEY d] assms
  by (cases "set_item THEME_KEY (if sb_theme sb = Some ''light'' then ''dark'' else ''light'') (db_browser d)")
    (simp_all add: toggleTheme_def Let_def)

lemma toggleCollapsed_step:
  "d\<lparr>db_browser := snd (toggleCollapsed (db_embedded d) (sb, db_browser d))\<rparr> = d \<or>
   dash_step d (d\<lparr>db_browser := snd (toggleCollapsed (db_embedded d) (sb, db_browser d))\<rparr>)"
proof (cases "db_embedded d")
  case False
  then show ?thesis using set_item_step [of SIDEBAR_KEY d]
    by (cases "set_item SIDEBAR_KEY (if sb_collapsedPref sb then ''expanded'' else ''collapsed'') (db_browser d)")
      (simp_all add: toggleCollapsed_def Let_def)
qed (simp add: toggleCollapsed_def)

lemma with_prefs_dash: "fr_dash (with_prefs h f) = (fr_dash f)\<lparr>db_browser := snd (h (fr_sidebar f, db_browser (fr_dash f)))\<rparr>"
  by (simp add: with_prefs_def split: prod.split)

lemma with_dash_dash: "fr_dash (with_dash h f) = commit (snd (h (fr_switcher f, fr_dash f)))"
  by (simp add: with_dash_def split: prod.split)

lemma frame_step_dash:
  assumes "frame_step f f'"
  shows "fr_dash f' = fr_dash f \<or> dash_step (fr_dash f) (fr_dash f')"
  using assms
proof cases
  case (crumb i)
  then show ?thesis using step_handler [OF crumb_click_handler] by simp
next
  case theme
  then show ?thesis using toggleTheme_step [of "fr_dash f" "fr_sidebar f"] by (simp add: with_prefs_dash)
next
  case fold
  then show ?thesis using toggleCollapsed_step [of "fr_dash f" "fr_sidebar f"] by (simp add: with_prefs_dash)
next
  case (pick ws)
  then show ?thesis using step_handler [OF on_workspace] by (simp add: with_dash_dash switcher_pick_def)
next
  case create
  then show ?thesis using step_handler [OF on_create_intent] by (simp add: with_dash_dash switcher_create_def)
next
  case (delete ws confirmed ok)
  have "dash_handler (fr_dash f) (fst (switcher_delete confirmed ok ws (fr_dash f)))"
    by (simp add: switcher_delete_def on_deleted handler_refl)
  then show ?thesis using delete step_handler by (simp add: with_dash_dash)
next
  case (drawer key shift items active)
  have "dash_handler (fr_dash f) (drawer_key (fr_mobile f) key shift items active (fr_dash f))"
    by (simp add: drawer_key_def on_drawer handler_refl)
  then show ?thesis using drawer step_handler by (simp add: drawer_keys_def)
qed (simp_all add: on_switcher_def menu_click_def throws_def)

interpretation framed: simulation "\<lambda>f. f = f0" frame_step "\<lambda>d. d = fr_dash f0" dash_step fr_dash for f0
  by unfold_locales (simp, rule frame_step_dash)

subsection \<open>Invariant of the frame\<close>

definition frame_inv :: "frame \<Rightarrow> bool" where
  "frame_inv f \<longleftrightarrow> eb_key (fr_boundary f) = db_view (fr_dash f) \<and>
     (sw_open (fr_switcher f) \<longrightarrow> \<not> collapsed (fr_mobile f) (fr_sidebar f)) \<and>
     (sw_focus (fr_switcher f) \<in> {Trigger, Elsewhere} \<or> in_menu f)"

lemma render_inv: "frame_inv (frame_render f)"
  by (auto simp: frame_inv_def frame_render_def Let_def boundary_keyed_def boundary_init_def switcher_init_def
      switcher_render_def in_menu_def frame_items_def)

lemma set_stars_collapsed [simp]: "collapsed m (set_stars a sb) = collapsed m sb"
  by (simp add: collapsed_def set_stars_def split: option.split json.split)

lemma with_render: "frame_inv (with_prefs h f)" "frame_inv (with_dash g f)" "frame_inv (on_switcher k f)"
  by (simp_all add: with_prefs_def with_dash_def on_switcher_def render_inv split: prod.split)

lemma frame_step_inv:
  assumes "frame_inv f" "frame_step f f'"
  shows "frame_inv f'"
  using assms(2)
proof cases
  case (stars answer)
  then show ?thesis using assms(1) by (simp add: frame_inv_def in_menu_def frame_items_def)
next
  case (drawer key shift items active)
  then show ?thesis using assms(1) by (simp add: drawer_keys_def render_inv)
next
  case (error message)
  then show ?thesis using assms(1) by (simp add: throws_def frame_inv_def in_menu_def frame_items_def getDerivedStateFromError_def)
qed (simp_all add: render_inv with_render menu_click_def)

interpretation frame_sys: invariant_system frame_start frame_step frame_inv
proof
  show "frame_start f \<Longrightarrow> frame_inv f" for f
    by (auto simp: frame_start_def frame_open_def frame_inv_def boundary_init_def switcher_init_def)
  show "frame_inv f \<Longrightarrow> frame_step f f' \<Longrightarrow> frame_inv f'" for f f' by (rule frame_step_inv)
qed

text \<open>A step that changes the view ends in a render, which mounts the boundary anew.\<close>

lemma keyed_clear: "eb_key b \<noteq> v \<Longrightarrow> boundary_render (boundary_keyed v b) x = Children x"
  by (simp add: boundary_keyed_def boundary_init_def boundary_render_def)

lemma frame_step_boundary:
  assumes "frame_step f f'"
  shows "fr_boundary f' = boundary_keyed (db_view (fr_dash f')) (fr_boundary f) \<or> db_view (fr_dash f') = db_view (fr_dash f)"
  using assms
  by cases (simp_all add: frame_render_def Let_def with_prefs_def with_dash_def menu_click_def on_switcher_def drawer_keys_def throws_def
      split: prod.split)

lemma view_change_clears:
  assumes "frame_inv f" "frame_step f f'" "db_view (fr_dash f') \<noteq> db_view (fr_dash f)"
  shows "boundary_render (fr_boundary f') body = Children body"
  using frame_step_boundary [OF assms(2)] assms(1,3) keyed_clear [of "fr_boundary f" "db_view (fr_dash f')" body]
  by (simp add: frame_inv_def)

subsection \<open>The menu of workspaces\<close>

lemma switcher_items_eq:
  "switcher_items current workspaces = concat (map (\<lambda>w. RowButton (wk_id w) #
     (if to_lower (wk_role w) = ''owner'' then [DeleteButton (wk_id w)] else [])) workspaces) @ [CreateButton]"
  by (simp add: switcher_items_def switcher_rows_def row_controls_def o_def cong: if_cong)

lemma switcher_items_iff:
  "RowButton i \<in> set (switcher_items cur ws) \<longleftrightarrow> i \<in> wk_id ` set ws" "CreateButton \<in> set (switcher_items cur ws)"
  "DeleteButton i \<in> set (switcher_items cur ws) \<longleftrightarrow> (\<exists>w\<in>set ws. wk_id w = i \<and> to_lower (wk_role w) = ''owner'')"
  "Trigger \<notin> set (switcher_items cur ws)" "Elsewhere \<notin> set (switcher_items cur ws)"
  by (auto simp: switcher_items_eq)

lemma distinct_switcher_items: "distinct (map wk_id ws) \<Longrightarrow> distinct (switcher_items cur ws)"
  unfolding switcher_items_eq by (induction ws) auto

lemma switcher_autofocus_current:
  "switcher_autofocus (pick_workspace i ws) ws =
     Some (case pick_workspace i ws of None \<Rightarrow> CreateButton | Some w \<Rightarrow> RowButton (wk_id w))"
proof (cases "pick_workspace i ws")
  case None
  then show ?thesis using pick_workspace_spec(1) [of i ws] by (simp add: switcher_autofocus_def)
next
  case (Some w)
  then have "w \<in> set ws" by (rule pick_workspace_spec(2))
  let ?rows = "switcher_rows (Some w) ws"
  have "js_find sr_active ?rows \<noteq> None" using \<open>w \<in> set ws\<close>
    by (auto simp: js_find_eq_None switcher_rows_def)
  then obtain r where r: "js_find sr_active ?rows = Some r" by (metis not_None_eq)
  then have "wk_id (sr_workspace r) = wk_id w" by (auto simp: switcher_rows_def dest!: js_find_SomeD)
  then show ?thesis using Some r \<open>w \<in> set ws\<close> by (auto simp: switcher_autofocus_def)
qed

lemma find_index_eq: "x \<in> set xs \<Longrightarrow> \<exists>i<length xs. find_index (\<lambda>c. c = x) xs = Some i \<and> xs ! i = x"
  by (induction xs) fastforce+

lemma on_switcher_frame [simp]:
  "fr_dash (on_switcher h f) = fr_dash f" "fr_mobile (on_switcher h f) = fr_mobile f" "fr_sidebar (on_switcher h f) = fr_sidebar f"
  "frame_items (on_switcher h f) = frame_items f"
  by (simp_all add: on_switcher_def frame_items_def)

lemma commit_local [simp]: "br_local (db_browser (commit d)) = br_local (db_browser d)"
  by (simp add: commit_def Let_def mirror_def scope_api_def)

lemma on_switcher_shown:
  "\<not> collapsed (fr_mobile f) (fr_sidebar f) \<Longrightarrow> fr_switcher (on_switcher h f) =
     switcher_render (workspace (fr_dash f)) (db_workspaces (fr_dash f)) (h (fr_switcher f))"
  by (simp add: on_switcher_def frame_render_def Let_def)

definition tab :: "frame \<Rightarrow> bool \<Rightarrow> frame" where
  "tab f shift = on_switcher (switcher_key ''Tab'' shift (frame_items f)) f"

lemma tab_in_menu:
  assumes "in_menu f" "distinct (map wk_id (db_workspaces (fr_dash f)))" "\<not> collapsed (fr_mobile f) (fr_sidebar f)"
  shows "in_menu (tab f shift)"
proof -
  let ?items = "frame_items f"
  obtain i where i: "i < length ?items" "find_index (\<lambda>c. c = sw_focus (fr_switcher f)) ?items = Some i"
      "?items ! i = sw_focus (fr_switcher f)"
    using find_index_eq [of "sw_focus (fr_switcher f)" "frame_items f"] assms(1) by (auto simp: in_menu_def)
  have "distinct ?items" using assms(2) by (simp add: frame_items_def distinct_switcher_items)
  moreover have "?items ! (k mod length ?items) \<in> set ?items" for k
    using i(1) by (intro nth_mem mod_less_divisor) linarith
  ultimately obtain c where c: "tab_focus shift ?items i = Some c" "c \<in> set ?items"
    using dialog_focus_trap [of ?items i] i(1) that by (cases shift) simp_all
  have "switcher_key ''Tab'' shift ?items (fr_switcher f) = (fr_switcher f)\<lparr>sw_focus := c\<rparr>"
    using assms(1) i c by (simp add: switcher_key_def in_menu_def handleDialogKeyDown_def)
  then show ?thesis using c(2) assms
    by (simp add: tab_def in_menu_def on_switcher_shown switcher_render_def frame_items_def)
qed

lemma tabs_in_menu:
  assumes "in_menu f" "distinct (map wk_id (db_workspaces (fr_dash f)))" "\<not> collapsed (fr_mobile f) (fr_sidebar f)"
  shows "in_menu (foldl tab f shifts) \<and> \<not> collapsed (fr_mobile (foldl tab f shifts)) (fr_sidebar (foldl tab f shifts))"
  using assms
proof (induction shifts arbitrary: f)
  case (Cons s shifts)
  then show ?case using tab_in_menu [OF Cons.prems] by (simp add: tab_def)
qed simp

lemma escape_closes:
  assumes "in_menu f" "\<not> collapsed (fr_mobile f) (fr_sidebar f)"
  shows "fr_switcher (on_switcher (switcher_key ''Escape'' shift (frame_items f)) f) = \<lparr>sw_open = False, sw_focus = Trigger\<rparr>"
proof -
  obtain i where "find_index (\<lambda>c. c = sw_focus (fr_switcher f)) (frame_items f) = Some i"
    using find_index_eq [of "sw_focus (fr_switcher f)" "frame_items f"] assms(1) by (auto simp: in_menu_def)
  then show ?thesis using assms
    by (simp add: on_switcher_shown switcher_key_def in_menu_def handleDialogKeyDown_def switcher_close_def switcher_render_def)
qed

subsection \<open>Properties\<close>

text \<open>C6. Whatever a visitor does with the bars, the menu of workspaces, the drawer, the preferences and the pages, and
  whatever a page throws, the dashboard stays in a state that its own handlers reach from the one it was opened in: the current
  history entry is that of the state shown, or one foreign to the dashboard that was there when it was opened, and requests are
  scoped to the workspace shown. An error is confined to its view: it is gone once another view is shown. The menu of workspaces
  is open only in an expanded sidebar.\<close>

theorem frame_follows_dashboard:
  assumes "frame_start f0" "reach (\<lambda>f. f = f0) frame_step f"
  shows "dash_start (fr_dash f0) \<and> reach (\<lambda>d. d = fr_dash f0) dash_step (fr_dash f) \<and>
    (he_state (hi_now (db_history (fr_dash f))) = Some (nav (db_view (fr_dash f)) (db_selected (fr_dash f))) \<or>
     hi_now (db_history (fr_dash f)) \<in> foreign_entries (fr_dash f0)) \<and>
    db_apiWorkspace (fr_dash f) = map_option wk_id (workspace (fr_dash f)) \<and>
    (sw_open (fr_switcher f) \<longrightarrow> \<not> collapsed (fr_mobile f) (fr_sidebar f)) \<and>
    (frame_step f f' \<and> db_view (fr_dash f') \<noteq> db_view (fr_dash f) \<longrightarrow> boundary_render (fr_boundary f') body = Children body)"
proof -
  have d: "reach (\<lambda>d. d = fr_dash f0) dash_step (fr_dash f)" using assms(2) by (rule framed.reach_abs)
  have d0: "dash_start (fr_dash f0)" using assms(1) by (auto simp: frame_start_def frame_open_def)
  have "mirrored (fr_dash f)" using reach_from [where init = dash_start, OF d d0] by (rule dash_sys.reach_inv)
  moreover have "foreign_entries (fr_dash f) \<subseteq> foreign_entries (fr_dash f0)" using d by (rule opened.reach_inv)
  moreover have inv: "frame_inv f" using reach_from [where init = frame_start, OF assms(2,1)] by (rule frame_sys.reach_inv)
  moreover have "boundary_render (fr_boundary f') body = Children body"
    if "frame_step f f'" "db_view (fr_dash f') \<noteq> db_view (fr_dash f)"
    using inv that by (intro view_change_clears)
  ultimately show ?thesis using d d0 by (auto simp: mirrored_def nav_of_def frame_inv_def foreign_entries_def entries_def)
qed

definition demo_frame :: frame where
  "demo_frame = frame_open False \<lparr>sb_theme = None, sb_docTheme = None, sb_collapsedPref = False, sb_stars = None\<rparr> (commit demo_dash)"

lemma demo_frame_start: "frame_start demo_frame"
proof -
  have "dash_start (commit demo_dash)" by (rule demo_dash_start)
  moreover have "sidebar_init False None (db_browser (commit demo_dash)) =
      Some \<lparr>sb_theme = None, sb_docTheme = None, sb_collapsedPref = False, sb_stars = None\<rparr>"
    by (simp add: sidebar_init_def commit_def Let_def mirror_def scope_api_def demo_dash_def fresh_browser_def)
  ultimately show ?thesis by (auto simp: frame_start_def demo_frame_def)
qed

theorem frame_follows_dashboard_witness:
  "boundary_render (fr_boundary (frame_render ((throws ''boom'' demo_frame)
     \<lparr>fr_dash := commit (setView ''usage'' (commit demo_dash))\<rparr>))) UsagePg = Children UsagePg"
proof -
  have r: "reach (\<lambda>f. f = demo_frame) frame_step (throws ''boom'' demo_frame)"
    by (rule reach_step) (rule reach_init, rule refl, rule frame_step.error)
  have d: "fr_dash (throws ''boom'' demo_frame) = commit demo_dash"
    by (simp add: throws_def demo_frame_def frame_open_def)
  let ?g = "frame_render ((throws ''boom'' demo_frame)\<lparr>fr_dash := commit (setView ''usage'' (commit demo_dash))\<rparr>)"
  have "frame_step (throws ''boom'' demo_frame) (frame_render ((throws ''boom'' demo_frame)
     \<lparr>fr_dash := commit (setView ''usage'' (commit demo_dash))\<rparr>))"
    by (rule frame_step.page) (simp only: d step_handler on_view)
  with frame_follows_dashboard [OF demo_frame_start r, of ?g UsagePg] d show ?thesis by simp
qed

text \<open>C40. The menu of workspaces opens with the focus on the workspace shown, or on the button that creates the first
  one; however often Tab is pressed, forwards or backwards, the focus stays in the open menu, and Escape then closes
  it and returns the focus to its button.\<close>

theorem menu_keeps_focus:
  assumes "\<not> collapsed (fr_mobile f) (fr_sidebar f)" "\<not> sw_open (fr_switcher f)"
    and "distinct (map wk_id (db_workspaces (fr_dash f)))"
  shows "sw_focus (fr_switcher (menu_click c f)) =
      (case workspace (fr_dash f) of None \<Rightarrow> CreateButton | Some w \<Rightarrow> RowButton (wk_id w)) \<and>
    in_menu (foldl tab (menu_click c f) shifts) \<and>
    fr_switcher (on_switcher (switcher_key ''Escape'' shift (frame_items (foldl tab (menu_click c f) shifts))) (foldl tab (menu_click c f) shifts)) =
      \<lparr>sw_open = False, sw_focus = Trigger\<rparr>"
proof -
  let ?c = "case workspace (fr_dash f) of None \<Rightarrow> CreateButton | Some w \<Rightarrow> RowButton (wk_id w)"
  have c: "?c \<in> set (frame_items f)"
    using pick_workspace_spec(2) [of "db_selectedWorkspaceId (fr_dash f)" "db_workspaces (fr_dash f)"]
    by (auto simp: frame_items_def switcher_items_iff workspace_def split: option.split)
  have sw: "fr_switcher (menu_click c f) = \<lparr>sw_open = True, sw_focus = ?c\<rparr>"
    using assms(1,2) c switcher_autofocus_current
    by (simp add: menu_click_def on_switcher_shown switcher_toggle_def switcher_render_def frame_items_def workspace_def)
  then have "in_menu (menu_click c f)" using c by (simp add: in_menu_def menu_click_def)
  from tabs_in_menu [OF this] assms(1,3)
  have "in_menu (foldl tab (menu_click c f) shifts)"
    "\<not> collapsed (fr_mobile (foldl tab (menu_click c f) shifts)) (fr_sidebar (foldl tab (menu_click c f) shifts))" by (simp_all add: menu_click_def)
  then show ?thesis using sw escape_closes by simp
qed

theorem menu_keeps_focus_witness:
  "in_menu (foldl tab (menu_click Trigger demo_frame) [False, True, False])"
proof -
  have "\<not> collapsed (fr_mobile demo_frame) (fr_sidebar demo_frame)" "\<not> sw_open (fr_switcher demo_frame)"
    "workspace (fr_dash demo_frame) = None" "db_workspaces (fr_dash demo_frame) = []"
    by (simp_all add: demo_frame_def frame_open_def collapsed_def switcher_init_def workspace_def commit_def Let_def
        scope_api_def mirror_def demo_dash_def pick_workspace_def)
  with menu_keeps_focus [of demo_frame Trigger "[False, True, False]"] show ?thesis by simp
qed

text \<open>Choosing a row of the menu shows that workspace, stores it, scopes requests to it, closes the menu and
  returns the focus to its button.\<close>

theorem menu_choice:
  assumes "\<not> db_embedded (fr_dash f)" "br_ok (db_browser (fr_dash f))" "ws \<in> set (db_workspaces (fr_dash f))"
    and "distinct (map wk_id (db_workspaces (fr_dash f)))" "\<not> collapsed (fr_mobile f) (fr_sidebar f)"
  shows "let f' = with_dash (switcher_pick ws) f in
    workspace (fr_dash f') = Some ws \<and> db_apiWorkspace (fr_dash f') = Some (wk_id ws) \<and>
    jm_get (br_local (db_browser (fr_dash f'))) WORKSPACE_KEY = Some (wk_id ws) \<and>
    fr_switcher f' = \<lparr>sw_open = False, sw_focus = Trigger\<rparr>"
proof -
  let ?d = "selectWorkspace ws (fr_dash f)"
  have b: "\<not> db_embedded ?d" "jm_get (br_local (db_browser ?d)) WORKSPACE_KEY = Some (wk_id ws)"
    using assms(1,2) by (simp_all add: selectWorkspace_def persist_item_def set_item_def jm_get_set)
  have w: "workspace ?d = Some ws"
    using js_find_unique [OF assms(4,3)] assms(1,2)
    by (simp add: workspace_def pick_workspace_def selectWorkspace_def persist_item_def set_item_def)
  then have "db_apiWorkspace (commit ?d) = Some (wk_id ws)"
    using b(1) by (simp add: commit_def Let_def scope_api_def)
  then show ?thesis using b w assms(2,5)
    by (simp add: with_dash_def switcher_pick_def storage_works_def switcher_close_def frame_render_def Let_def
        switcher_render_def)
qed

definition demo_menu :: frame where
  "demo_menu = demo_frame\<lparr>fr_dash := demo_dash\<lparr>db_workspaces := [demo_ws]\<rparr>, fr_switcher := \<lparr>sw_open = True, sw_focus = CreateButton\<rparr>\<rparr>"

theorem menu_choice_witness: "fr_switcher (with_dash (switcher_pick demo_ws) demo_menu) = \<lparr>sw_open = False, sw_focus = Trigger\<rparr>"
proof -
  have "\<not> db_embedded (fr_dash demo_menu)" "br_ok (db_browser (fr_dash demo_menu))"
    "demo_ws \<in> set (db_workspaces (fr_dash demo_menu))" "distinct (map wk_id (db_workspaces (fr_dash demo_menu)))"
    "\<not> collapsed (fr_mobile demo_menu) (fr_sidebar demo_menu)"
    by (simp_all add: demo_menu_def demo_frame_def frame_open_def collapsed_def fresh_browser_def)
  from menu_choice [OF this] show ?thesis by (simp add: Let_def)
qed

text \<open>Deleting a workspace from the menu removes the control that had the focus: the menu stays open, the focus is
  outside of it, and no key closes it any more.\<close>

theorem menu_delete_drops_focus:
  assumes "sw_open (fr_switcher f)" "\<not> collapsed (fr_mobile f) (fr_sidebar f)" "\<not> db_embedded (fr_dash f)"
    and "f' = with_dash (\<lambda>(s, d). (s\<lparr>sw_focus := DeleteButton (wk_id ws)\<rparr>, fst (switcher_delete True True ws d))) f"
  shows "sw_open (fr_switcher f') \<and> sw_focus (fr_switcher f') = Elsewhere \<and>
    switcher_key key shift (frame_items f') (fr_switcher f') = fr_switcher f'"
proof -
  let ?d = "commit (deleteWorkspace (wk_id ws) (fr_dash f))"
  have "wk_id ws \<notin> wk_id ` set (db_workspaces ?d)" using assms(3)
    by (auto simp: deleteWorkspace_def deleted_workspace_def commit_def Let_def scope_api_def)
  then have "DeleteButton (wk_id ws) \<notin> set (switcher_items (workspace ?d) (db_workspaces ?d))"
    unfolding switcher_items_iff by (metis imageI)
  then have sw: "fr_switcher f' = \<lparr>sw_open = True, sw_focus = Elsewhere\<rparr>" using assms
    by (simp add: with_dash_def switcher_delete_def frame_render_def Let_def switcher_render_def)
  moreover have "find_index (\<lambda>c. c = Elsewhere) (frame_items f') = None"
    by (auto simp: find_index_None frame_items_def switcher_items_iff)
  ultimately show ?thesis by (simp add: switcher_key_def)
qed

theorem menu_delete_drops_focus_witness:
  "sw_focus (fr_switcher (with_dash (\<lambda>(s, d). (s\<lparr>sw_focus := DeleteButton (wk_id demo_ws)\<rparr>,
     fst (switcher_delete True True demo_ws d))) demo_menu)) = Elsewhere"
proof -
  have "sw_open (fr_switcher demo_menu)" "\<not> collapsed (fr_mobile demo_menu) (fr_sidebar demo_menu)" "\<not> db_embedded (fr_dash demo_menu)"
    by (simp_all add: demo_menu_def demo_frame_def frame_open_def collapsed_def)
  from menu_delete_drops_focus [OF this refl, of demo_ws] show ?thesis by blast
qed

subsection \<open>The marked control of the sidebar\<close>

lemma side_marked:
  "length (filter sc_active (side_controls mobile logout sb d)) =
     length (filter nr_active (nav_rows (db_pages d) (db_view d))) + (if db_view d = ''settings'' then 1 else 0)"
proof -
  have [simp]: "sc_active (NavItem co l a x) = a" for co l a x by (simp add: NavItem_def)
  show ?thesis unfolding side_controls_def Let_def by (simp add: filter_map o_def)
qed

lemma one_page: "distinct (map xp_id pages) \<Longrightarrow> p \<in> set pages \<Longrightarrow> length (filter (\<lambda>q. xp_id p = xp_id q) pages) = 1"
  by (induction pages) (auto simp: filter_empty_conv)

lemma marked_pages:
  assumes "pages_ok pages" "valid_view pages v"
  shows "length (filter (\<lambda>p. v = xp_id p \<or> (v = ''trace'' \<or> v = ''compare'') \<and> xp_id p = ''workflows'') pages) =
    (if v \<in> set VIEW_IDS then 0 else 1)"
proof -
  have w: "xp_id p \<noteq> ''workflows''" if "p \<in> set pages" for p
    using view_not_page [OF assms(1), of "''workflows''"] that by (auto simp: VIEW_IDS_def)
  show ?thesis
  proof (cases "v \<in> set VIEW_IDS")
    case True
    with view_not_page [OF assms(1) this] w show ?thesis by (auto simp: filter_empty_conv)
  next
    case False
    with assms(2) obtain p where p: "p \<in> set pages" "xp_id p = v" by (auto simp: valid_view_def)
    have "distinct (map xp_id pages)" using assms(1) by (simp add: pages_ok_def validate_ok_nil)
    from one_page [OF this p(1)] have "length (filter (\<lambda>q. v = xp_id q) pages) = 1" using p(2) by simp
    moreover have "filter (\<lambda>p. v = xp_id p \<or> (v = ''trace'' \<or> v = ''compare'') \<and> xp_id p = ''workflows'') pages =
        filter (\<lambda>q. v = xp_id q) pages"
      using w by (intro filter_cong) auto
    ultimately show ?thesis using False by simp
  qed
qed

lemma marked_nav:
  "length (filter (\<lambda>(i, l). v = i \<or> (v = ''trace'' \<or> v = ''compare'') \<and> i = ''workflows'') NAV_ITEMS) =
     (if v \<in> {''overview'', ''workflows'', ''usage'', ''users'', ''keys'', ''trace'', ''compare''} then 1 else 0)"
  by (auto simp: NAV_ITEMS_def)

text \<open>The sidebar marks exactly one control as the current one, for every view but the detail page of a client,
  where it marks none.\<close>

theorem sidebar_marks_current:
  assumes "pages_ok (db_pages d)" "valid_view (db_pages d) (db_view d)"
  shows "length (filter sc_active (side_controls mobile logout sb d)) = (if db_view d = ''user'' then 0 else 1)"
proof -
  let ?v = "db_view d"
  have "length (filter nr_active (nav_rows (db_pages d) ?v)) =
      (if ?v \<in> {''overview'', ''workflows'', ''usage'', ''users'', ''keys'', ''trace'', ''compare''} then 1 else 0) +
      (if ?v \<in> set VIEW_IDS then 0 else 1)"
    using marked_pages [OF assms] marked_nav [of ?v]
    by (simp add: nav_rows_def filter_map o_def case_prod_unfold)
  then show ?thesis unfolding side_marked by (auto simp: VIEW_IDS_def)
qed

theorem sidebar_marks_current_witness: "length (filter sc_active (side_controls False True (fr_sidebar demo_frame) demo_dash)) = 1"
proof -
  have "pages_ok (db_pages demo_dash)" "valid_view (db_pages demo_dash) (db_view demo_dash)"
    by (simp_all add: pages_ok_def validate_ok_nil valid_view_def VIEW_IDS_def)
  from sidebar_marks_current [OF this] show ?thesis by simp
qed

end
