(* ===== verification/Demo_Series.thy ===== *)
theory Demo_Series
  imports Formatters "HOL-Library.Word"
begin

text \<open>
  The deterministic demo series of the workflow page (\<open>modules/workflows/utils/series.ts\<close>). The hash and
  the generator work modulo \<open>2^32\<close> (\<open>>>> 0\<close>) on 32-bit words; \<open>rng_exact\<close> shows that their products stay below
  \<open>2^53\<close>, where JavaScript numbers are exact. The closure \<open>r\<close>, which advances its seed on every call, is a
  state-passing function. Rates and amounts are rationals.
\<close>

subsection \<open>Hash and generator\<close>

text \<open>The UTF-16 code units of a string held as UTF-8 bytes, as \<open>charCodeAt\<close> reads them.\<close>

fun utf16_units :: "string \<Rightarrow> nat list" where
  "utf16_units [] = []"
| "utf16_units (a # r) =
     (let n = (of_char a :: nat); low = (\<lambda>c. (of_char c :: nat) mod 64) in
      if n < 128 then n # utf16_units r
      else if n < 224 then
        (case r of b # r' \<Rightarrow> ((n mod 32) * 64 + low b) # utf16_units r' | _ \<Rightarrow> [])
      else if n < 240 then
        (case r of b # c # r' \<Rightarrow> ((n mod 16) * 4096 + low b * 64 + low c) # utf16_units r' | _ \<Rightarrow> [])
      else
        (case r of b # c # d # r' \<Rightarrow>
           (let p = (n mod 8) * 262144 + low b * 4096 + low c * 64 + low d - 65536 in
            (55296 + p div 1024) # (56320 + p mod 1024) # utf16_units r')
         | _ \<Rightarrow> []))"

definition hash_units :: "nat list \<Rightarrow> 32 word" where
  "hash_units us = foldl (\<lambda>h c. h * 31 + of_nat c) 0 us"

definition hash :: "string \<Rightarrow> 32 word" where
  "hash s = hash_units (utf16_units s)"

text \<open>One call of the closure that \<open>rng\<close> returns: the value and the advanced seed.\<close>

definition rng_next :: "32 word \<Rightarrow> rat \<times> 32 word" where
  "rng_next x = (let x' = x * 1664525 + 1013904223 in (of_nat (unat x') / 4294967296, x'))"

definition rng_seed :: "string \<Rightarrow> nat \<Rightarrow> 32 word" where
  "rng_seed name k = hash name + of_nat k"

subsection \<open>Series\<close>

definition DAYS :: "string list" where
  [data_defs]: "DAYS = [''Mon'', ''Tue'', ''Wed'', ''Thu'', ''Fri'', ''Sat'', ''Sun'']"

definition bucketLabels :: "string \<Rightarrow> string list" where
  "bucketLabels rng =
     (if rng = ''24h'' then map (\<lambda>i. pad_start 2 (CHR ''0'') (nat_str i) @ '':00'') [0..<24]
      else if rng = ''30d'' then map (\<lambda>i. nat_str (i + 1)) [0..<30]
      else DAYS)"

text \<open>Mapping a list with a function that draws from the generator.\<close>

fun map_rng :: "('a \<Rightarrow> 32 word \<Rightarrow> 'b \<times> 32 word) \<Rightarrow> 'a list \<Rightarrow> 32 word \<Rightarrow> 'b list" where
  "map_rng f [] x = []"
| "map_rng f (a # as) x = (let (b, x') = f a x in b # map_rng f as x')"

definition cost_point :: "rat \<Rightarrow> string \<Rightarrow> 32 word \<Rightarrow> CostPoint \<times> 32 word" where
  "cost_point avg label x =
     (let (r, x') = rng_next x in
      (\<lparr>cp_label = label, cp_value = max (4 / 10000) (avg * (6 / 10 + r * (9 / 10)))\<rparr>, x'))"

definition buildCostSeries :: "Workflow \<Rightarrow> string \<Rightarrow> CostPoint list" where
  "buildCostSeries a rng =
     (let labels = bucketLabels rng; avg = wf_cost a / of_nat (length labels) in
      map_rng (cost_point avg) labels (rng_seed (wf_name a) 3))"

definition latency_point :: "rat \<Rightarrow> string \<Rightarrow> 32 word \<Rightarrow> LatencyPoint \<times> 32 word" where
  "latency_point base label x =
     (let (r1, x1) = rng_next x; (r2, x2) = rng_next x1; (r3, x3) = rng_next x2 in
      (\<lparr>lp_label = label, lp_p50 = Some (base * (7 / 10 + r1 * (2 / 10))),
        lp_p95 = Some (base * (16 / 10 + r2 * (5 / 10))), lp_p99 = Some (base * (26 / 10 + r3 * (8 / 10)))\<rparr>, x3))"

definition buildLatencySeries :: "Workflow \<Rightarrow> string \<Rightarrow> LatencyPoint list" where
  "buildLatencySeries a rng =
     map_rng (latency_point (wf_avg_latency_ms a / 1000)) (bucketLabels rng) (rng_seed (wf_name a) 7)"

definition error_point :: "int \<Rightarrow> rat \<Rightarrow> string \<Rightarrow> 32 word \<Rightarrow> ErrorPoint \<times> 32 word" where
  "error_point perBucket errorRate label x =
     (let (r1, x1) = rng_next x;
          tot = max 1 (math_round (of_int perBucket * (7 / 10 + r1 * (6 / 10))));
          (r2, x2) = rng_next x1;
          rate = errorRate * (5 / 10 + r2 * (12 / 10)) in
      (\<lparr>ep_label = label, ep_errors = min tot (math_round (of_int tot * rate)), ep_total = tot\<rparr>, x2))"

definition buildErrorSeries :: "Workflow \<Rightarrow> string \<Rightarrow> ErrorPoint list" where
  "buildErrorSeries a rng =
     (let labels = bucketLabels rng;
          perBucket = math_round (of_int (wf_calls a) / of_nat (length labels)) in
      map_rng (error_point perBucket (wf_error_rate a)) labels (rng_seed (wf_name a) 13))"

definition RUN_TIMES :: "string list" where
  [data_defs]: "RUN_TIMES = [''just now'', ''12s ago'', ''48s ago'', ''2m ago'', ''5m ago'', ''9m ago'',
     ''14m ago'', ''22m ago'', ''31m ago'', ''47m ago'']"

definition RUN_ERRORS :: "string list" where
  [data_defs]: "RUN_ERRORS = [''rate_limit_exceeded'', ''context_length_exceeded'', ''tool_timeout'',
     ''validation_softfail'']"

definition hex_digit :: "nat \<Rightarrow> char" where
  "hex_digit n = ''0123456789abcdef'' ! (n mod 16)"

text \<open>\<open>(hash(s) & 0xffff).toString(16).padStart(4, '0')\<close>: the four low hexadecimal digits.\<close>

definition hex :: "string \<Rightarrow> string" where
  "hex s = (let n = unat (hash s) mod 65536 in map (\<lambda>k. hex_digit (n div 16 ^ k)) [3, 2, 1, 0])"

text \<open>One run. The workflows of the demo all have calls, so the cost of a run is a quotient.\<close>

definition build_run :: "Workflow \<Rightarrow> string \<times> nat \<Rightarrow> 32 word \<Rightarrow> RunRow \<times> 32 word" where
  "build_run a ti x =
     (let (time, i) = ti;
          (r1, x1) = rng_next x;
          failed = (r1 < wf_error_rate a * 4 + 15 / 1000);
          (r2, x2) = rng_next x1;
          lat = wf_avg_latency_ms a * (6 / 10 + r2 * (11 / 10)) * (if failed then 14 / 10 else 1);
          (r3, x3) = rng_next x2;
          (r4, x4) = (if failed then rng_next x3 else (0, x3)) in
      (\<lparr>rr_id = ''t_'' @ hex (wf_name a @ ''_'' @ nat_str i) @ ''_'' @ hex (wf_name a @ ''#'' @ nat_str i @ ''z''),
        rr_name = None,
        rr_status = (if failed then Failed else Completed),
        rr_time = time,
        rr_duration = lat,
        rr_cost = wf_cost a / of_int (wf_calls a) * (5 / 10 + r3 * (11 / 10)),
        rr_err = (if failed then Some (RUN_ERRORS ! nat \<lfloor>r4 * of_nat (length RUN_ERRORS)\<rfloor>) else None),
        rr_version = None\<rparr>, x4))"

definition buildRuns :: "Workflow \<Rightarrow> RunRow list" where
  "buildRuns a =
     map_rng (build_run a) (zip RUN_TIMES [0..<length RUN_TIMES]) (rng_seed (wf_name a) 101)"

subsection \<open>Facts about the generator\<close>

lemma rng_next_range: "0 \<le> fst (rng_next x) \<and> fst (rng_next x) < 1"
proof -
  have "unat (x * 1664525 + 1013904223) < 2 ^ 32" using unsigned_less [of "x * 1664525 + 1013904223"] by simp
  then have "(of_nat (unat (x * 1664525 + 1013904223)) :: rat) < of_nat (2 ^ 32)" by (simp only: of_nat_less_iff)
  moreover have "0 \<le> (of_nat (unat (x * 1664525 + 1013904223)) :: rat)" by (rule of_nat_0_le_iff)
  ultimately show ?thesis by (simp add: rng_next_def Let_def)
qed

lemma map_rng_props: "(\<And>a x. P a (fst (f a x))) \<Longrightarrow> list_all2 P as (map_rng f as x)"
  by (induction f as x rule: map_rng.induct) (auto split: prod.splits, metis fst_conv)

lemma map_rng_all: "(\<And>a x. P (fst (f a x))) \<Longrightarrow> b \<in> set (map_rng f as x) \<Longrightarrow> P b"
  by (induction f as x rule: map_rng.induct) (auto split: prod.splits, metis fst_conv)

lemma bucketLabels_nonempty: "bucketLabels rng \<noteq> []"
  by (simp add: bucketLabels_def DAYS_def)

lemma map_rng_map: "(\<And>a x. g (fst (f a x)) = h a) \<Longrightarrow> map g (map_rng f as x) = map h as"
  by (induction f as x rule: map_rng.induct) (auto split: prod.splits, metis fst_conv)

lemma length_map_rng [simp]: "length (map_rng f as x) = length as"
  by (induction f as x rule: map_rng.induct) (auto split: prod.splits)

lemma cost_point_bounds:
  assumes "0 \<le> avg"
  shows "4 / 10000 \<le> cp_value (fst (cost_point avg l x)) \<and>
    cp_value (fst (cost_point avg l x)) \<le> max (4 / 10000) (avg * (15 / 10)) \<and>
    avg * (6 / 10) \<le> cp_value (fst (cost_point avg l x))"
proof -
  let ?r = "fst (rng_next x)"
  have "avg * (6 / 10) \<le> avg * (6 / 10 + ?r * (9 / 10))" "avg * (6 / 10 + ?r * (9 / 10)) \<le> avg * (15 / 10)"
    using rng_next_range [of x] assms by (intro mult_left_mono; simp)+
  then show ?thesis by (auto simp: cost_point_def split: prod.splits)
qed

lemma latency_point_order:
  assumes "0 < base"
  shows "\<exists>p q r. lp_p50 (fst (latency_point base l x)) = Some p \<and> lp_p95 (fst (latency_point base l x)) = Some q \<and>
    lp_p99 (fst (latency_point base l x)) = Some r \<and> 0 < p \<and> p < q \<and> q < r"
proof -
  obtain r1 x1 where 1: "rng_next x = (r1, x1)" by force
  obtain r2 x2 where 2: "rng_next x1 = (r2, x2)" by force
  obtain r3 x3 where 3: "rng_next x2 = (r3, x3)" by force
  have "0 \<le> r1" "r1 < 1" "0 \<le> r2" "r2 < 1" "0 \<le> r3" "r3 < 1"
    using rng_next_range [of x] rng_next_range [of x1] rng_next_range [of x2] 1 2 3 by simp_all
  then have "base * (7 / 10 + r1 * (2 / 10)) < base * (16 / 10 + r2 * (5 / 10))"
    "base * (16 / 10 + r2 * (5 / 10)) < base * (26 / 10 + r3 * (8 / 10))" "0 < base * (7 / 10 + r1 * (2 / 10))"
    using assms by (auto intro!: mult_strict_left_mono mult_pos_pos)
  then show ?thesis by (simp add: latency_point_def 1 2 3)
qed

lemma error_point_bounds:
  assumes "0 \<le> rate"
  shows "1 \<le> ep_total (fst (error_point n rate l x)) \<and> 0 \<le> ep_errors (fst (error_point n rate l x)) \<and>
    ep_errors (fst (error_point n rate l x)) \<le> ep_total (fst (error_point n rate l x))"
proof -
  obtain r1 x1 where 1: "rng_next x = (r1, x1)" by force
  obtain r2 x2 where 2: "rng_next x1 = (r2, x2)" by force
  have "0 \<le> r2" using rng_next_range [of x1] 2 by simp
  then show ?thesis
    using assms by (auto simp: error_point_def 1 2 Let_def intro!: math_round_nonneg mult_nonneg_nonneg)
qed

lemma build_run_err:
  "(rr_err (fst (build_run a ti x)) \<noteq> None \<longleftrightarrow> rr_status (fst (build_run a ti x)) = Failed) \<and>
   set_option (rr_err (fst (build_run a ti x))) \<subseteq> set RUN_ERRORS"
proof -
  obtain t i where ti: "ti = (t, i)" by force
  have "RUN_ERRORS ! nat \<lfloor>fst (rng_next y) * 4\<rfloor> \<in> set RUN_ERRORS" for y
  proof (rule nth_mem)
    have "\<lfloor>fst (rng_next y) * 4\<rfloor> < 4" using rng_next_range [of y] by (simp add: floor_less_iff)
    moreover have "length RUN_ERRORS = 4" by (simp add: RUN_ERRORS_def)
    ultimately show "nat \<lfloor>fst (rng_next y) * 4\<rfloor> < length RUN_ERRORS" by linarith
  qed
  moreover have "length RUN_ERRORS = 4" by (simp add: RUN_ERRORS_def)
  ultimately show ?thesis
    by (auto simp: build_run_def ti Let_def case_prod_unfold split: if_splits)
qed

subsection \<open>Properties\<close>

text \<open>No step of the hash or of the generator leaves the range in which JavaScript numbers are exact
  integers, so both compute modulo \<open>2^32\<close>, and every draw lies in \<open>[0, 1)\<close>.\<close>

theorem rng_exact:
  assumes "c < 65536"
  shows "unat h * 31 + c < 2 ^ 53 \<and> unat (h * 31 + of_nat c :: 32 word) = (unat h * 31 + c) mod 2 ^ 32 \<and>
    unat x * 1664525 + 1013904223 < 2 ^ 53 \<and>
    unat (snd (rng_next x)) = (unat x * 1664525 + 1013904223) mod 2 ^ 32 \<and>
    0 \<le> fst (rng_next x) \<and> fst (rng_next x) < 1"
proof -
  have h: "unat h < 2 ^ 32" and x: "unat x < 2 ^ 32" using unsigned_less [of h] unsigned_less [of x] by simp_all
  have "unat (h * 31 + of_nat c :: 32 word) = (unat h * 31 + c) mod 2 ^ 32"
    by (simp add: unat_word_ariths unat_of_nat mod_simps)
  moreover have "unat (snd (rng_next x)) = (unat x * 1664525 + 1013904223) mod 2 ^ 32"
    by (simp add: rng_next_def Let_def unat_word_ariths mod_simps)
  ultimately show ?thesis using h x assms rng_next_range [of x] by auto
qed

theorem rng_exact_witness: "unat (snd (rng_next 5)) = (5 * 1664525 + 1013904223) mod 2 ^ 32"
  using rng_exact [of 0 0 5] by simp

text \<open>The demo series are well formed for every workflow and range: one point per bucket, costs between
  the floor and one and a half times the average, percentiles in order, and no bucket with more
  errors than runs or without a run.\<close>

theorem series_wellformed:
  assumes "0 \<le> wf_cost a" "0 < wf_avg_latency_ms a" "0 \<le> wf_error_rate a"
  shows "map cp_label (buildCostSeries a rng) = bucketLabels rng \<and>
    (\<forall>p \<in> set (buildCostSeries a rng). 4 / 10000 \<le> cp_value p \<and>
       cp_value p \<le> max (4 / 10000) (wf_cost a / of_nat (length (bucketLabels rng)) * (15 / 10))) \<and>
    map lp_label (buildLatencySeries a rng) = bucketLabels rng \<and>
    (\<forall>p \<in> set (buildLatencySeries a rng). \<exists>u v w. lp_p50 p = Some u \<and> lp_p95 p = Some v \<and> lp_p99 p = Some w \<and>
       0 < u \<and> u < v \<and> v < w) \<and>
    map ep_label (buildErrorSeries a rng) = bucketLabels rng \<and>
    (\<forall>p \<in> set (buildErrorSeries a rng). 1 \<le> ep_total p \<and> 0 \<le> ep_errors p \<and> ep_errors p \<le> ep_total p)"
proof (intro conjI ballI)
  have avg: "0 \<le> wf_cost a / of_nat (length (bucketLabels rng))" using assms (1) by simp
  show "map cp_label (buildCostSeries a rng) = bucketLabels rng"
    unfolding buildCostSeries_def Let_def
    by (subst map_rng_map [where h = id]) (simp_all add: cost_point_def split: prod.splits)
  show "map lp_label (buildLatencySeries a rng) = bucketLabels rng"
    unfolding buildLatencySeries_def
    by (subst map_rng_map [where h = id]) (simp_all add: latency_point_def split: prod.splits)
  show "map ep_label (buildErrorSeries a rng) = bucketLabels rng"
    unfolding buildErrorSeries_def Let_def
    by (subst map_rng_map [where h = id]) (simp_all add: error_point_def Let_def split: prod.splits)
  show "4 / 10000 \<le> cp_value p" "cp_value p \<le> max (4 / 10000) (wf_cost a / of_nat (length (bucketLabels rng)) * (15 / 10))"
    if "p \<in> set (buildCostSeries a rng)" for p
    using that unfolding buildCostSeries_def Let_def
    by (rule map_rng_all [rotated], use cost_point_bounds [OF avg] in blast)+
  show "\<exists>u v w. lp_p50 p = Some u \<and> lp_p95 p = Some v \<and> lp_p99 p = Some w \<and> 0 < u \<and> u < v \<and> v < w"
    if "p \<in> set (buildLatencySeries a rng)" for p
    using that unfolding buildLatencySeries_def
    by (rule map_rng_all [rotated]) (rule latency_point_order, use assms (2) in simp)
  show "1 \<le> ep_total p" "0 \<le> ep_errors p" "ep_errors p \<le> ep_total p" if "p \<in> set (buildErrorSeries a rng)" for p
    using that unfolding buildErrorSeries_def Let_def
    by (rule map_rng_all [rotated], use error_point_bounds [OF assms (3)] in blast)+
qed

theorem series_wellformed_witness:
  "map cp_label (buildCostSeries \<lparr>wf_name = ''a'', wf_calls = 3, wf_cost = 2, wf_avg_latency_ms = 5, wf_error_rate = 1 / 10,
     wf_trend = [], wf_last_trace_id = ''t''\<rparr> ''7d'') = bucketLabels ''7d''"
  using series_wellformed [of "\<lparr>wf_name = ''a'', wf_calls = 3, wf_cost = 2, wf_avg_latency_ms = 5, wf_error_rate = 1 / 10,
     wf_trend = [], wf_last_trace_id = ''t''\<rparr>" "''7d''"] by simp

text \<open>A workflow's demo runs are ten, in the order of the fixed times; a run carries an error message
  exactly when it failed, and it is one of the known ones.\<close>

theorem buildRuns_errors:
  "map rr_time (buildRuns a) = RUN_TIMES \<and>
   list_all (\<lambda>r. (rr_err r \<noteq> None \<longleftrightarrow> rr_status r = Failed) \<and> set_option (rr_err r) \<subseteq> set RUN_ERRORS) (buildRuns a)"
proof
  show "map rr_time (buildRuns a) = RUN_TIMES"
    unfolding buildRuns_def
    by (subst map_rng_map [where h = fst]) (simp_all add: build_run_def Let_def case_prod_unfold)
  show "list_all (\<lambda>r. (rr_err r \<noteq> None \<longleftrightarrow> rr_status r = Failed) \<and> set_option (rr_err r) \<subseteq> set RUN_ERRORS) (buildRuns a)"
    unfolding buildRuns_def list_all_iff by (intro ballI, erule map_rng_all [rotated]) (rule build_run_err)
qed

end
