(* ===== verification/Seed_Spans.thy ===== *)
theory Seed_Spans
  imports Json_Text Demo_Series "HOL-Library.State_Monad" "HOL-Library.Sublist"
begin

unbundle bit_operations_syntax

text \<open>
  The generator of random numbers and the builder of span trees of \<open>scripts/seed.mjs\<close>, the program that fills a local
  installation with telemetry. Its functions share a mutable generator and append to the spans of the trace under way: they
  are actions of the state monad over \<open>tracer\<close>. Times are nanoseconds as integers (the code uses \<open>BigInt\<close>); the messages
  write them in decimal. \<open>J\<close> is \<open>JSON.stringify\<close>.
\<close>

subsection \<open>Sources of random numbers\<close>

text \<open>What the users of a generator rely on: its values are at least 0 and below 1. Both generators of the program are such a
  source, the one of the seeder and the one of the demo series.\<close>

locale random_source =
  fixes step :: "'s \<Rightarrow> rat \<times> 's"
  assumes unit_range: "0 \<le> fst (step s)" "fst (step s) < 1"
begin

lemma scaled_floor:
  assumes "0 < n"
  shows "0 \<le> \<lfloor>fst (step s) * of_int n\<rfloor>" "\<lfloor>fst (step s) * of_int n\<rfloor> < n"
proof -
  have n: "(0 :: rat) < of_int n" using assms by simp
  show "0 \<le> \<lfloor>fst (step s) * of_int n\<rfloor>" using unit_range(1) n by simp
  have "fst (step s) * of_int n < 1 * of_int n" by (rule mult_strict_right_mono [OF unit_range(2) n])
  then show "\<lfloor>fst (step s) * of_int n\<rfloor> < n" by (simp add: floor_less_iff)
qed

lemma index_in_list: "xs \<noteq> [] \<Longrightarrow> nat \<lfloor>fst (step s) * of_nat (length xs)\<rfloor> < length xs"
  using scaled_floor [of "int (length xs)" s] by (simp add: nat_less_iff)

lemma int_in_range:
  "lo \<le> hi \<Longrightarrow> lo \<le> lo + \<lfloor>fst (step s) * of_int (hi - lo + 1)\<rfloor> \<and> lo + \<lfloor>fst (step s) * of_int (hi - lo + 1)\<rfloor> \<le> hi"
  using scaled_floor [of "hi - lo + 1" s] by linarith

end

interpretation demo_rng: random_source rng_next
  using rng_next_range by unfold_locales simp_all

text \<open>\<open>rnd\<close> is mulberry32: \<open>| 0\<close>, \<open>>>>\<close> and \<open>Math.imul\<close> work on 32 bits, and so do the additions once \<open>^\<close> truncates them.\<close>

definition rnd_next :: "32 word \<Rightarrow> rat \<times> 32 word" where
  "rnd_next s0 =
     (let s = s0 + 0x6d2b79f5;
          t = (s XOR drop_bit 15 s) * (1 OR s);
          t = (t + (t XOR drop_bit 7 t) * (61 OR t)) XOR t in
      (of_nat (unat (t XOR drop_bit 14 t)) / 4294967296, s))"

interpretation mulberry: random_source rnd_next
proof
  fix s :: "32 word"
  obtain v where v: "fst (rnd_next s) = of_nat (unat (v :: 32 word)) / 4294967296" by (simp add: rnd_next_def Let_def)
  have "unat v < 4294967296" using unsigned_less [of v] by simp
  then have "(of_nat (unat v) :: rat) < of_nat 4294967296" by (simp only: of_nat_less_iff)
  moreover have "0 \<le> (of_nat (unat v) :: rat)" by (rule of_nat_0_le_iff)
  ultimately show "0 \<le> fst (rnd_next s)" "fst (rnd_next s) < 1" by (simp_all add: v)
qed

subsection \<open>Messages of the OTLP protocol\<close>

datatype otlp_value = StringValue string | IntValue string | ArrayValue "otlp_value list"

definition sv :: "string \<Rightarrow> otlp_value" where
  "sv s = StringValue s"

definition iv :: "int \<Rightarrow> otlp_value" where
  "iv n = IntValue (int_str n)"

definition av :: "string list \<Rightarrow> otlp_value" where
  "av xs = ArrayValue (map sv xs)"

record attribute =
  at_key :: string
  at_value :: otlp_value

definition kv :: "string \<Rightarrow> otlp_value \<Rightarrow> attribute" where
  "kv k v = \<lparr>at_key = k, at_value = v\<rparr>"

record span_event =
  ev_name :: string
  ev_time :: int
  ev_attributes :: "attribute list"

text \<open>A status is its code and, for an error, its message.\<close>

record otlp_span =
  os_traceId :: string
  os_spanId :: string
  os_parent :: string
  os_name :: string
  os_kind :: nat
  os_start :: int
  os_end :: int
  os_attributes :: "attribute list"
  os_status :: "nat \<times> string option"
  os_events :: "span_event list option"

subsection \<open>State\<close>

record tracer =
  tr_rng :: "32 word"
  tr_traceId :: string
  tr_spans :: "otlp_span list"
  tr_maxEnd :: int
  tr_in :: "string option"
  tr_out :: "string option"

type_synonym 'a traced = "(tracer, 'a) state"

definition act :: "(tracer \<Rightarrow> tracer) \<Rightarrow> unit traced" where
  "act f = State (\<lambda>s. ((), f s))"

definition look :: "(tracer \<Rightarrow> 'a) \<Rightarrow> 'a traced" where
  "look f = State (\<lambda>s. (f s, s))"

definition rnd :: "rat traced" where
  "rnd = State (\<lambda>s. case rnd_next (tr_rng s) of (r, x) \<Rightarrow> (r, s\<lparr>tr_rng := x\<rparr>))"

definition randint :: "int \<Rightarrow> int \<Rightarrow> int traced" where
  "randint lo hi = do { r \<leftarrow> rnd; State_Monad.return (lo + \<lfloor>r * of_int (hi - lo + 1)\<rfloor>) }"

definition choice :: "'a list \<Rightarrow> 'a traced" where
  "choice arr = do { r \<leftarrow> rnd; State_Monad.return (arr ! nat \<lfloor>r * of_nat (length arr)\<rfloor>) }"

definition chance :: "rat \<Rightarrow> bool traced" where
  "chance p = do { r \<leftarrow> rnd; State_Monad.return (r < p) }"

fun take_weight :: "rat \<Rightarrow> ('a \<times> rat) list \<Rightarrow> 'a \<Rightarrow> 'a" where
  "take_weight r [] d = d"
| "take_weight r ((item, w) # ps) d = (if r - w \<le> 0 then item else take_weight (r - w) ps d)"

definition weighted :: "('a \<times> rat) list \<Rightarrow> 'a traced" where
  "weighted pairs = do {
     r \<leftarrow> rnd;
     State_Monad.return (take_weight (r * sum_list (map snd pairs)) pairs (fst (List.last pairs))) }"

fun hex_digits :: "nat \<Rightarrow> string traced" where
  "hex_digits 0 = State_Monad.return []"
| "hex_digits (Suc n) = do {
     r \<leftarrow> rnd;
     cs \<leftarrow> hex_digits n;
     State_Monad.return (''0123456789abcdef'' ! nat \<lfloor>r * 16\<rfloor> # cs) }"

definition hexid :: "nat \<Rightarrow> string traced" where
  "hexid bytes = hex_digits (bytes * 2)"

definition orderId :: "string traced" where
  "orderId = do { n \<leftarrow> randint 100000 999999; State_Monad.return (''ord_'' @ int_str n) }"

definition money :: "string traced" where
  "money = do { n \<leftarrow> randint 1200 480000; State_Monad.return (to_fixed 2 (of_int n / 100)) }"

subsection \<open>Span trees (newTrace)\<close>

definition MS :: int where
  "MS = 1000000"

definition NS :: int where
  "NS = 1000000000"

text \<open>The options of a span; a count of 0 and a missing one are the same to the code.\<close>

record span_opts =
  so_op :: string
  so_model :: string
  so_inTok :: int
  so_outTok :: int
  so_system :: string
  so_input :: "(string \<times> string) list option"
  so_output :: "string option"
  so_toolCalls :: "string list option"
  so_tools :: "(string \<times> string) list option"
  so_entityIn :: "string option"
  so_entityOut :: "string option"
  so_finish :: "string option"
  so_error :: "(string \<times> string) option"

definition no_opts :: span_opts where
  "no_opts = \<lparr>so_op = [], so_model = [], so_inTok = 0, so_outTok = 0, so_system = [], so_input = None, so_output = None,
     so_toolCalls = None, so_tools = None, so_entityIn = None, so_entityOut = None, so_finish = None, so_error = None\<rparr>"

text \<open>What a caller holds of a span: its place in the list stands for the reference to the object.\<close>

record handle =
  h_ix :: nat
  h_id :: string
  h_start :: int
  h_end :: int

definition messages_json :: "(string \<times> string) list \<Rightarrow> json" where
  "messages_json ms = JArr (map (\<lambda>(role, content). JObj [(''role'', JStr role), (''content'', JStr content)]) ms)"

definition output_json :: "span_opts \<Rightarrow> json" where
  "output_json p = JArr [JObj ([(''role'', JStr ''assistant''), (''content'', JStr (nullish (so_output p) []))] @
     (case so_toolCalls p of None \<Rightarrow> [] | Some ns \<Rightarrow> [(''tool_calls'', JArr (map (\<lambda>n. JObj [(''name'', JStr n)]) ns))]))]"

definition opt_attr :: "string \<Rightarrow> ('a \<Rightarrow> otlp_value) \<Rightarrow> 'a option \<Rightarrow> attribute list" where
  "opt_attr k f v = (case v of None \<Rightarrow> [] | Some x \<Rightarrow> [kv k (f x)])"

definition content_attrs :: "(json \<Rightarrow> string) \<Rightarrow> span_opts \<Rightarrow> attribute list" where
  "content_attrs J p =
     (if so_system p \<noteq> [] then [kv ''gen_ai.system_instructions'' (sv (so_system p))] else []) @
     opt_attr ''gen_ai.input.messages'' (\<lambda>ms. sv (J (messages_json ms))) (so_input p) @
     (if so_output p \<noteq> None \<or> so_toolCalls p \<noteq> None then [kv ''gen_ai.output.messages'' (sv (J (output_json p)))] else []) @
     opt_attr ''gen_ai.tool.definitions''
       (\<lambda>ts. sv (J (JArr (map (\<lambda>(n, d). JObj [(''name'', JStr n), (''description'', JStr d)]) ts)))) (so_tools p) @
     opt_attr ''traceloop.entity.input'' sv (so_entityIn p) @ opt_attr ''traceloop.entity.output'' sv (so_entityOut p)"

definition base_attrs :: "span_opts \<Rightarrow> attribute list" where
  "base_attrs p =
     [kv ''gen_ai.operation.name'' (sv (if so_op p = [] then ''chat'' else so_op p))] @
     (if so_model p \<noteq> [] then [kv ''gen_ai.request.model'' (sv (so_model p)), kv ''gen_ai.response.model'' (sv (so_model p))] else []) @
     (if so_inTok p \<noteq> 0 then [kv ''gen_ai.usage.input_tokens'' (iv (so_inTok p))] else []) @
     (if so_outTok p \<noteq> 0 then [kv ''gen_ai.usage.output_tokens'' (iv (so_outTok p))] else [])"

definition finish_attrs :: "span_opts \<Rightarrow> attribute list" where
  "finish_attrs p =
     (if so_error p \<noteq> None then []
      else case so_finish p of Some f \<Rightarrow> [kv ''gen_ai.response.finish_reasons'' (av [f])]
      | None \<Rightarrow> if so_model p \<noteq> [] \<and> so_op p \<noteq> ''embeddings''
          then [kv ''gen_ai.response.finish_reasons'' (av [''stop''])] else [])"

definition exception_event :: "int \<Rightarrow> string \<Rightarrow> string \<Rightarrow> span_event" where
  "exception_event t ty msg =
     \<lparr>ev_name = ''exception'', ev_time = t, ev_attributes = [kv ''exception.type'' (sv ty), kv ''exception.message'' (sv msg)]\<rparr>"

definition make_span ::
  "(json \<Rightarrow> string) \<Rightarrow> string \<Rightarrow> string \<Rightarrow> string \<Rightarrow> string \<Rightarrow> int \<Rightarrow> int \<Rightarrow> span_opts \<Rightarrow> otlp_span" where
  "make_span J traceId spanId parentId name startAt endNs p =
     \<lparr>os_traceId = traceId, os_spanId = spanId, os_parent = parentId, os_name = name, os_kind = 1, os_start = startAt, os_end = endNs,
      os_attributes = base_attrs p @ content_attrs J p @ finish_attrs p,
      os_status = (case so_error p of None \<Rightarrow> (0, None) | Some (_, msg) \<Rightarrow> (2, Some msg)),
      os_events = (case so_error p of None \<Rightarrow> None | Some (ty, msg) \<Rightarrow> Some [exception_event endNs ty msg])\<rparr>"

definition push_span :: "(json \<Rightarrow> string) \<Rightarrow> string \<Rightarrow> string \<Rightarrow> string \<Rightarrow> int \<Rightarrow> int \<Rightarrow> span_opts \<Rightarrow> tracer \<Rightarrow> handle \<times> tracer" where
  "push_span J spanId parentId name startAt durMs p s =
     (let endNs = startAt + durMs * MS in
      (\<lparr>h_ix = length (tr_spans s), h_id = spanId, h_start = startAt, h_end = endNs\<rparr>,
       s\<lparr>tr_maxEnd := (if endNs > tr_maxEnd s then endNs else tr_maxEnd s),
         tr_spans := tr_spans s @ [make_span J (tr_traceId s) spanId parentId name startAt endNs p]\<rparr>))"

definition T_span :: "(json \<Rightarrow> string) \<Rightarrow> string \<Rightarrow> string \<Rightarrow> int \<Rightarrow> int \<Rightarrow> span_opts \<Rightarrow> handle traced" where
  "T_span J parentId name startAt durMs p = do {
     spanId \<leftarrow> hexid 8;
     State (push_span J spanId parentId name startAt durMs p) }"

definition setEnd :: "handle \<Rightarrow> int \<Rightarrow> unit traced" where
  "setEnd h endNs = act (\<lambda>s. s\<lparr>tr_spans := (tr_spans s)[h_ix h := (tr_spans s ! h_ix h)\<lparr>os_end := endNs\<rparr>],
     tr_maxEnd := (if endNs > tr_maxEnd s then endNs else tr_maxEnd s)\<rparr>)"

definition newTrace :: "string \<Rightarrow> int \<Rightarrow> unit traced" where
  "newTrace traceId startNs =
     act (\<lambda>s. s\<lparr>tr_traceId := traceId, tr_spans := [], tr_maxEnd := startNs, tr_in := None, tr_out := None\<rparr>)"

text \<open>The builders note the input and output of the whole run on the handle of its first span.\<close>

definition set_in :: "string \<Rightarrow> unit traced" where
  "set_in x = act (\<lambda>s. s\<lparr>tr_in := Some x\<rparr>)"

definition set_out :: "string \<Rightarrow> unit traced" where
  "set_out x = act (\<lambda>s. s\<lparr>tr_out := Some x\<rparr>)"


subsection \<open>Well-formed traces\<close>

text \<open>A span in its place: it belongs to the trace, its times are in order and in the trace so far, the first span has no parent and
  starts the trace, and any other names an earlier span as its parent. Exactly the failed spans carry an exception event.\<close>

definition span_ok :: "int \<Rightarrow> tracer \<Rightarrow> nat \<Rightarrow> bool" where
  "span_ok t0 s k \<longleftrightarrow> (let sp = tr_spans s ! k in
     os_traceId sp = tr_traceId s \<and> t0 \<le> os_start sp \<and> os_start sp \<le> os_end sp \<and> os_end sp \<le> tr_maxEnd s \<and>
     (fst (os_status sp) = 2 \<longleftrightarrow> os_events sp \<noteq> None) \<and>
     (if k = 0 then os_parent sp = [] \<and> os_start sp = t0 else \<exists>j<k. os_spanId (tr_spans s ! j) = os_parent sp))"

definition trace_ok :: "int \<Rightarrow> tracer \<Rightarrow> bool" where
  "trace_ok t0 s \<longleftrightarrow> tr_spans s \<noteq> [] \<and> t0 \<le> tr_maxEnd s \<and> (\<forall>k<length (tr_spans s). span_ok t0 s k)"

definition span_ids :: "tracer \<Rightarrow> string set" where
  "span_ids s = os_spanId ` set (tr_spans s)"

text \<open>An action that keeps the trace well formed and only appends spans, given that the identifiers \<open>K\<close> are in use.\<close>

definition keeps :: "int \<Rightarrow> string set \<Rightarrow> 'a traced \<Rightarrow> bool" where
  "keeps t0 K m \<longleftrightarrow> (\<forall>s. trace_ok t0 s \<and> K \<subseteq> span_ids s \<longrightarrow>
     trace_ok t0 (snd (run_state m s)) \<and> prefix (tr_spans s) (tr_spans (snd (run_state m s))) \<and>
     tr_traceId (snd (run_state m s)) = tr_traceId s)"

text \<open>An action that draws random numbers and nothing else.\<close>

definition draws :: "('a \<Rightarrow> bool) \<Rightarrow> 'a traced \<Rightarrow> bool" where
  "draws P m \<longleftrightarrow> (\<forall>s. \<exists>a x. run_state m s = (a, s\<lparr>tr_rng := x\<rparr>) \<and> P a)"

named_theorems keeps_rules

lemma drawsD:
  assumes "draws P m"
  obtains a x where "run_state m s = (a, s\<lparr>tr_rng := x\<rparr>)" "P a"
  using assms unfolding draws_def by blast

lemma draws_bind:
  assumes "draws P m" "\<And>a. P a \<Longrightarrow> draws Q (f a)"
  shows "draws Q (State_Monad.bind m f)"
  unfolding draws_def
proof
  fix s
  from assms(1) obtain a x where a: "run_state m s = (a, s\<lparr>tr_rng := x\<rparr>)" "P a" by (rule drawsD)
  from assms(2) [OF a(2)] obtain b y where "run_state (f a) (s\<lparr>tr_rng := x\<rparr>) = (b, s\<lparr>tr_rng := x, tr_rng := y\<rparr>)" "Q b"
    by (rule drawsD)
  then show "\<exists>b y. run_state (State_Monad.bind m f) s = (b, s\<lparr>tr_rng := y\<rparr>) \<and> Q b" using a(1) by auto
qed

lemma draws_return: "P a \<Longrightarrow> draws P (State_Monad.return a)"
proof -
  have "run_state (State_Monad.return a) s = (a, s\<lparr>tr_rng := tr_rng s\<rparr>)" for s by simp
  then show "P a \<Longrightarrow> draws P (State_Monad.return a)" unfolding draws_def by blast
qed

lemma draws_rnd: "(\<And>x. P (fst (rnd_next x))) \<Longrightarrow> draws P rnd"
  unfolding draws_def rnd_def by (auto simp: split_beta)

lemma draws_randint: "lo \<le> hi \<Longrightarrow> draws (\<lambda>n. lo \<le> n \<and> n \<le> hi) (randint lo hi)"
  unfolding randint_def
  by (rule draws_bind [where P = "\<lambda>r. \<exists>x. r = fst (rnd_next x)"])
    (auto intro!: draws_rnd draws_return mulberry.int_in_range simp del: of_int_add of_int_diff)

lemma draws_choice: "xs \<noteq> [] \<Longrightarrow> draws (\<lambda>x. x \<in> set xs) (choice xs)"
  unfolding choice_def
  by (rule draws_bind [where P = "\<lambda>r. \<exists>x. r = fst (rnd_next x)"])
    (auto intro!: draws_rnd draws_return nth_mem mulberry.index_in_list)

lemma draws_chance: "draws (\<lambda>_. True) (chance p)"
  unfolding chance_def by (rule draws_bind [where P = "\<lambda>_. True"]) (auto intro!: draws_rnd draws_return)

lemma take_weight_mem: "ps \<noteq> [] \<Longrightarrow> d \<in> fst ` set ps \<Longrightarrow> take_weight r ps d \<in> fst ` set ps"
proof -
  have "take_weight r ps d \<in> insert d (fst ` set ps)" by (induction r ps d rule: take_weight.induct) auto
  then show "d \<in> fst ` set ps \<Longrightarrow> take_weight r ps d \<in> fst ` set ps" by auto
qed

lemma draws_weighted: "ps \<noteq> [] \<Longrightarrow> draws (\<lambda>x. x \<in> fst ` set ps) (weighted ps)"
  unfolding weighted_def
  by (rule draws_bind [where P = "\<lambda>_. True"]) (auto intro!: draws_rnd draws_return take_weight_mem)

lemma draws_hex_digits: "draws (\<lambda>cs. length cs = n \<and> set cs \<subseteq> set ''0123456789abcdef'') (hex_digits n)"
proof (induction n)
  case (Suc n)
  have digit: "''0123456789abcdef'' ! nat \<lfloor>fst (rnd_next x) * 16\<rfloor> \<in> set ''0123456789abcdef''" for x
    using mulberry.index_in_list [of "''0123456789abcdef''" x] by (intro nth_mem) simp
  show ?case unfolding hex_digits.simps
  proof (rule draws_bind [where P = "\<lambda>r. \<exists>x. r = fst (rnd_next x)"])
    fix r assume "\<exists>x. r = fst (rnd_next x)"
    then obtain x where r: "r = fst (rnd_next x)" by blast
    show "draws (\<lambda>cs. length cs = Suc n \<and> set cs \<subseteq> set ''0123456789abcdef'')
        (State_Monad.bind (hex_digits n) (\<lambda>cs. State_Monad.return (''0123456789abcdef'' ! nat \<lfloor>r * 16\<rfloor> # cs)))"
      using digit [of x] unfolding r by (intro draws_bind [OF Suc.IH] draws_return) auto
  qed (auto intro!: draws_rnd)
qed (simp add: draws_return)

lemma draws_hexid: "draws (\<lambda>cs. length cs = 2 * n \<and> set cs \<subseteq> set ''0123456789abcdef'') (hexid n)"
  unfolding hexid_def using draws_hex_digits [of "n * 2"] by (simp add: mult.commute)

lemma draws_weaken: "draws P m \<Longrightarrow> (\<And>a. P a \<Longrightarrow> Q a) \<Longrightarrow> draws Q m"
  unfolding draws_def by blast

lemma draws_money: "draws (\<lambda>_. True) money"
  unfolding money_def by (rule draws_bind [OF draws_randint]) (auto intro: draws_return)

lemma draws_orderId: "draws (\<lambda>_. True) orderId"
  unfolding orderId_def by (rule draws_bind [OF draws_randint]) (auto intro: draws_return)

text \<open>Random numbers leave the trace alone.\<close>

lemma trace_ok_rng [simp]: "trace_ok t0 (s\<lparr>tr_rng := x\<rparr>) = trace_ok t0 s" "span_ids (s\<lparr>tr_rng := x\<rparr>) = span_ids s"
  "trace_ok t0 (s\<lparr>tr_in := i\<rparr>) = trace_ok t0 s" "span_ids (s\<lparr>tr_in := i\<rparr>) = span_ids s"
  "trace_ok t0 (s\<lparr>tr_out := i\<rparr>) = trace_ok t0 s" "span_ids (s\<lparr>tr_out := i\<rparr>) = span_ids s"
  by (simp_all add: trace_ok_def span_ok_def span_ids_def)

lemma keeps_draws:
  assumes "draws P m" "\<And>a. P a \<Longrightarrow> keeps t0 K (f a)"
  shows "keeps t0 K (State_Monad.bind m f)"
  unfolding keeps_def
proof (intro allI impI)
  fix s assume s: "trace_ok t0 s \<and> K \<subseteq> span_ids s"
  from assms(1) obtain a x where a: "run_state m s = (a, s\<lparr>tr_rng := x\<rparr>)" "P a" by (rule drawsD)
  from assms(2) [OF a(2)] s show "trace_ok t0 (snd (run_state (State_Monad.bind m f) s)) \<and>
      prefix (tr_spans s) (tr_spans (snd (run_state (State_Monad.bind m f) s))) \<and>
      tr_traceId (snd (run_state (State_Monad.bind m f) s)) = tr_traceId s"
    unfolding keeps_def by (force simp: a(1) dest: spec [of _ "s\<lparr>tr_rng := x\<rparr>"])
qed

lemma keeps_return [keeps_rules]: "keeps t0 K (State_Monad.return a)"
  by (simp add: keeps_def)

lemma keeps_randint [keeps_rules]:
  "lo \<le> hi \<Longrightarrow> (\<And>n. lo \<le> n \<Longrightarrow> n \<le> hi \<Longrightarrow> keeps t0 K (f n)) \<Longrightarrow> keeps t0 K (State_Monad.bind (randint lo hi) f)"
  by (rule keeps_draws [OF draws_randint]) auto

lemma keeps_choice [keeps_rules]:
  "xs \<noteq> [] \<Longrightarrow> (\<And>x. x \<in> set xs \<Longrightarrow> keeps t0 K (f x)) \<Longrightarrow> keeps t0 K (State_Monad.bind (choice xs) f)"
  by (rule keeps_draws [OF draws_choice])

lemma keeps_chance [keeps_rules]: "(\<And>b. keeps t0 K (f b)) \<Longrightarrow> keeps t0 K (State_Monad.bind (chance p) f)"
  by (rule keeps_draws [OF draws_chance])

lemma keeps_money [keeps_rules]: "(\<And>b. keeps t0 K (f b)) \<Longrightarrow> keeps t0 K (State_Monad.bind money f)"
  by (rule keeps_draws [OF draws_money])

lemma keeps_orderId [keeps_rules]: "(\<And>b. keeps t0 K (f b)) \<Longrightarrow> keeps t0 K (State_Monad.bind orderId f)"
  by (rule keeps_draws [OF draws_orderId])

text \<open>Neither do the notes on the run.\<close>

lemma keeps_act:
  assumes "\<And>s. trace_ok t0 (g s) = trace_ok t0 s" "\<And>s. tr_spans (g s) = tr_spans s" "\<And>s. tr_traceId (g s) = tr_traceId s"
    and "\<And>u. keeps t0 K (f u)"
  shows "keeps t0 K (State_Monad.bind (act g) f)"
  unfolding keeps_def
proof (intro allI impI)
  fix s assume s: "trace_ok t0 s \<and> K \<subseteq> span_ids s"
  have "trace_ok t0 (g s) \<and> K \<subseteq> span_ids (g s)" using s assms(1,2) by (simp add: span_ids_def)
  then show "trace_ok t0 (snd (run_state (State_Monad.bind (act g) f) s)) \<and>
      prefix (tr_spans s) (tr_spans (snd (run_state (State_Monad.bind (act g) f) s))) \<and>
      tr_traceId (snd (run_state (State_Monad.bind (act g) f) s)) = tr_traceId s"
    using spec [OF assms(4) [of "()", unfolded keeps_def], of "g s"] assms(2,3) [of s] by (simp add: act_def)
qed

lemma keeps_set [keeps_rules]:
  "(\<And>u. keeps t0 K (f u)) \<Longrightarrow> keeps t0 K (State_Monad.bind (set_in x) f)"
  "(\<And>u. keeps t0 K (f u)) \<Longrightarrow> keeps t0 K (State_Monad.bind (set_out x) f)"
  unfolding set_in_def set_out_def by (rule keeps_act; simp)+

lemma keeps_maxEnd [keeps_rules]:
  "(\<And>e. t0 \<le> e \<Longrightarrow> keeps t0 K (f e)) \<Longrightarrow> keeps t0 K (State_Monad.bind (look tr_maxEnd) f)"
  unfolding keeps_def look_def by (simp add: trace_ok_def)

lemma keeps_if [keeps_rules]:
  "(b \<Longrightarrow> keeps t0 K m) \<Longrightarrow> (\<not> b \<Longrightarrow> keeps t0 K n) \<Longrightarrow> keeps t0 K (if b then m else n)"
  by simp

lemma keeps_bind_if [keeps_rules]:
  "(b \<Longrightarrow> keeps t0 K (State_Monad.bind m f)) \<Longrightarrow> (\<not> b \<Longrightarrow> keeps t0 K (State_Monad.bind n f)) \<Longrightarrow>
   keeps t0 K (State_Monad.bind (if b then m else n) f)"
  by simp

text \<open>A finish reason given for a failed span is not sent.\<close>

lemma failed_span_no_finish: "so_error p = Some e \<Longrightarrow> finish_attrs (p\<lparr>so_finish := Some f\<rparr>) = []"
  by (simp add: finish_attrs_def)

text \<open>The rule for a span: its parent is in use and it starts in the trace; from then on its identifier is in use too.\<close>

lemma push_span_ok:
  assumes "trace_ok t0 s" "parent \<in> span_ids s" "t0 \<le> startAt" "0 \<le> durMs"
  shows "trace_ok t0 (snd (push_span J i parent name startAt durMs p s))"
proof -
  define s' where "s' = snd (push_span J i parent name startAt durMs p s)"
  define n where "n = length (tr_spans s)"
  define sp where "sp = make_span J (tr_traceId s) i parent name startAt (startAt + durMs * MS) p"
  have spans: "tr_spans s' = tr_spans s @ [sp]" and tid: "tr_traceId s' = tr_traceId s"
    and mx: "tr_maxEnd s \<le> tr_maxEnd s'" "startAt + durMs * MS \<le> tr_maxEnd s'"
    by (simp_all add: s'_def sp_def push_span_def Let_def)
  have dur: "0 \<le> durMs * MS" using assms(4) by (simp add: MS_def)
  have old: "span_ok t0 s' k" if k: "k < n" for k
  proof -
    have "span_ok t0 s k" using assms(1) k by (simp add: trace_ok_def n_def)
    moreover have eq: "tr_spans s' ! j = tr_spans s ! j" if "j \<le> k" for j using that k by (simp add: spans n_def nth_append)
    moreover have "(\<exists>j<k. os_spanId (tr_spans s' ! j) = q) = (\<exists>j<k. os_spanId (tr_spans s ! j) = q)" for q
      using eq by (metis less_imp_le)
    ultimately show ?thesis using mx(1) tid by (cases "k = 0") (simp_all add: span_ok_def Let_def)
  qed
  obtain j where j: "j < n" "os_spanId (tr_spans s ! j) = parent"
    using assms(2) by (auto simp: span_ids_def in_set_conv_nth n_def)
  have "0 < n" using assms(1) by (simp add: trace_ok_def n_def)
  moreover have "tr_spans s' ! n = sp" "tr_spans s' ! j = tr_spans s ! j" using j by (simp_all add: spans n_def nth_append)
  moreover have "os_traceId sp = tr_traceId s" "os_start sp = startAt" "os_end sp = startAt + durMs * MS" "os_parent sp = parent"
    "fst (os_status sp) = 2 \<longleftrightarrow> os_events sp \<noteq> None"
    by (auto simp: sp_def make_span_def split: option.splits)
  ultimately have new: "span_ok t0 s' n" using assms(3) dur mx(2) tid j by (auto simp: span_ok_def Let_def)
  have "t0 \<le> tr_maxEnd s'" using assms(1) mx(1) by (simp add: trace_ok_def)
  then show ?thesis unfolding s'_def [symmetric] using old new by (auto simp: trace_ok_def spans n_def less_Suc_eq)
qed

lemma keeps_span [keeps_rules]:
  assumes "parent \<in> K" "t0 \<le> startAt" "0 \<le> durMs"
    and "\<And>h. h_start h = startAt \<Longrightarrow> h_end h = startAt + durMs * MS \<Longrightarrow> t0 \<le> h_start h \<Longrightarrow> t0 \<le> h_end h \<Longrightarrow>
      keeps t0 (insert (h_id h) K) (f h)"
  shows "keeps t0 K (State_Monad.bind (T_span J parent name startAt durMs p) f)"
  unfolding T_span_def State_Monad.bind_assoc
proof (rule keeps_draws [OF draws_hexid])
  fix i
  have "0 \<le> durMs * MS" using assms(3) by (simp add: MS_def)
  show "keeps t0 K (State_Monad.bind (State (push_span J i parent name startAt durMs p)) f)"
    unfolding keeps_def
  proof (intro allI impI)
    fix s assume s: "trace_ok t0 s \<and> K \<subseteq> span_ids s"
    obtain h s' where hs: "push_span J i parent name startAt durMs p s = (h, s')" by force
    have h: "h_id h = i" "h_start h = startAt" "h_end h = startAt + durMs * MS"
      and sp: "tr_spans s' = tr_spans s @ [make_span J (tr_traceId s) i parent name startAt (startAt + durMs * MS) p]"
      and tid: "tr_traceId s' = tr_traceId s"
      using hs by (auto simp: push_span_def Let_def)
    have "parent \<in> span_ids s" using s assms(1) by blast
    then have ok: "trace_ok t0 s'" using push_span_ok [of t0 s parent startAt durMs J i name p] s assms(2,3) hs by simp
    have ids: "insert i K \<subseteq> span_ids s'" using s by (auto simp: span_ids_def sp make_span_def)
    have "keeps t0 (insert i K) (f h)" using assms(4) [of h] h assms(2) \<open>0 \<le> durMs * MS\<close> by simp
    from spec [OF this [unfolded keeps_def], of s'] ok ids
    have "trace_ok t0 (snd (run_state (f h) s'))" "prefix (tr_spans s') (tr_spans (snd (run_state (f h) s')))"
      "tr_traceId (snd (run_state (f h) s')) = tr_traceId s'" by simp_all
    then show "trace_ok t0 (snd (run_state (State_Monad.bind (State (push_span J i parent name startAt durMs p)) f) s)) \<and>
        prefix (tr_spans s) (tr_spans (snd (run_state (State_Monad.bind (State (push_span J i parent name startAt durMs p)) f) s))) \<and>
        tr_traceId (snd (run_state (State_Monad.bind (State (push_span J i parent name startAt durMs p)) f) s)) = tr_traceId s"
      using tid by (auto simp: hs sp intro: append_prefixD)
  qed
qed

end
