(* ===== verification/Seed_Workflows.thy ===== *)
theory Seed_Workflows
  imports Seed_Spans
begin

text \<open>
  The workflows that \<open>scripts/seed.mjs\<close> simulates: the pools of content and one builder per workflow, each drawing its random
  numbers in the order of the source. A builder gets the handle of the first span of the trace and the time at which the
  work starts, and returns the step at which the run was given up, if any.
\<close>

subsection \<open>Content pools\<close>

record ticket =
  tk_t :: string
  tk_intent :: string
  tk_urgency :: string

definition TICKETS :: "ticket list" where
  "TICKETS =
    [\<lparr>tk_t = ''My invoice for March is $240 but I was told it'd be $180. Can you fix this?'', tk_intent = ''billing_dispute'', tk_urgency = ''high''\<rparr>,
     \<lparr>tk_t = ''The mobile app crashes every time I open the reports tab on Android 14.'', tk_intent = ''bug_report'', tk_urgency = ''high''\<rparr>,
     \<lparr>tk_t = ''How do I export my data to CSV? I can't find the button anywhere.'', tk_intent = ''how_to'', tk_urgency = ''low''\<rparr>,
     \<lparr>tk_t = ''I want to cancel my subscription and get a refund for this month.'', tk_intent = ''cancellation'', tk_urgency = ''normal''\<rparr>,
     \<lparr>tk_t = ''Order hasn't arrived and tracking says delivered. Need help urgently.'', tk_intent = ''order_status'', tk_urgency = ''high''\<rparr>]"

definition DIFFS :: "string list" where
  "DIFFS =
    [''auth/session.go: add refresh-token rotation; drops the reuse-detection check'',
     ''api/handler/users.go: N+1 query in ListUsers; missing pagination bound'',
     ''web/checkout.tsx: unhandled promise rejection on payment retry path'',
     ''db/migrations/014.sql: adds NOT NULL column without default on a live table'']"

definition RESEARCH :: "string list" where
  "RESEARCH =
    [''What are the tradeoffs of vector vs. keyword search for support KBs?'',
     ''Compare 2025 EU AI Act obligations for SaaS vendors vs. US state laws.'',
     ''Summarize recent advances in speculative decoding for LLM inference.'']"

record mod_sample =
  ms_t :: string
  ms_verdict :: string
  ms_reason :: string

definition MOD_SAMPLES :: "mod_sample list" where
  "MOD_SAMPLES =
    [\<lparr>ms_t = ''This product is garbage and the founder is a crook.'', ms_verdict = ''allow'', ms_reason = ''criticism, not harassment''\<rparr>,
     \<lparr>ms_t = ''Meet me at the address below and I'll make you regret it.'', ms_verdict = ''block'', ms_reason = ''credible threat''\<rparr>,
     \<lparr>ms_t = ''Buy cheap followers >> spam-link.example'', ms_verdict = ''block'', ms_reason = ''spam''\<rparr>,
     \<lparr>ms_t = ''Loved the new update, the dashboard is so much faster!'', ms_verdict = ''allow'', ms_reason = ''benign''\<rparr>]"

definition QUERIES :: "string list" where
  "QUERIES = [''reset my 2FA device'', ''export invoices to CSV'', ''SSO with Okta'', ''rate limits on the API'']"

definition en_dash :: string where
  "en_dash = [CHR 0xE2, CHR 0x80, CHR 0x93]"

definition section_sign :: string where
  "section_sign = [CHR 0xC2, CHR 0xA7]"

text \<open>The options that most calls have in common: a chat with a model on one message of the user, and a tool with its JSON input and
  output.\<close>

definition chat :: "string \<Rightarrow> int \<Rightarrow> int \<Rightarrow> string \<Rightarrow> string \<Rightarrow> span_opts" where
  "chat model inTok outTok system content = no_opts\<lparr>so_op := ''chat'', so_model := model, so_inTok := inTok, so_outTok := outTok,
     so_system := system, so_input := Some [(''user'', content)]\<rparr>"

definition tool :: "(json \<Rightarrow> string) \<Rightarrow> (string \<times> json) list \<Rightarrow> (string \<times> json) list \<Rightarrow> span_opts" where
  "tool J i r = no_opts\<lparr>so_op := ''execute_tool'', so_entityIn := Some (J (JObj i)), so_entityOut := Some (J (JObj r))\<rparr>"

type_synonym builder = "handle \<Rightarrow> int \<Rightarrow> string option traced"

subsection \<open>Support agent\<close>

definition SUPPORT_TOOLS :: "(string \<times> string) list" where
  "SUPPORT_TOOLS =
    [(''search_kb'', ''Search the help center knowledge base''),
     (''get_order_status'', ''Look up an order's fulfillment status''),
     (''issue_refund'', ''Issue a partial or full refund''),
     (''escalate'', ''Escalate to a human agent'')]"

text \<open>The reasoning turns: classify, then a turn with the knowledge base and one with the order, each followed by its tool. The
  value is the time at which the next step starts.\<close>

definition support_turns :: "(json \<Rightarrow> string) \<Rightarrow> handle \<Rightarrow> ticket \<Rightarrow> int \<Rightarrow> int traced" where
  "support_turns J rt tk t = do {
     d \<leftarrow> randint 180 640; i \<leftarrow> randint 420 1100; u \<leftarrow> randint 20 90;
     c \<leftarrow> T_span J (h_id rt) ''classify-intent'' t d
       ((chat ''claude-haiku-4-5'' i u ''You triage support tickets. Reply with JSON {intent, urgency}.'' (tk_t tk))
         \<lparr>so_output := Some (J (JObj [(''intent'', JStr (tk_intent tk)), (''urgency'', JStr (tk_urgency tk))]))\<rparr>);
     g \<leftarrow> randint 10 40;
     d \<leftarrow> randint 600 2200; i \<leftarrow> randint 1200 3200; u \<leftarrow> randint 120 420;
     r1 \<leftarrow> T_span J (h_id rt) ''agent-step-1'' (h_end c + g * MS) d
       ((chat ''claude-sonnet-4-5'' i u ''You are a senior support agent. Use tools before answering. Think step by step.'' (tk_t tk))
         \<lparr>so_tools := Some SUPPORT_TOOLS, so_toolCalls := Some [''search_kb''],
          so_output := Some ''Let me check the knowledge base for this issue.''\<rparr>);
     g \<leftarrow> randint 5 30; d \<leftarrow> randint 40 320;
     kb \<leftarrow> T_span J (h_id r1) ''tool:search_kb'' (h_end r1 + g * MS) d
       (tool J [(''query'', JStr (tk_intent tk)), (''top_k'', JNum 5)]
         [(''hits'', JArr [JObj [(''id'', JStr ''kb_204''), (''title'', JStr ''Billing adjustments'')],
                         JObj [(''id'', JStr ''kb_119''), (''title'', JStr ''Refund policy'')]])]);
     g \<leftarrow> randint 10 50;
     d \<leftarrow> randint 600 2000; i \<leftarrow> randint 1800 4200; u \<leftarrow> randint 140 460; order \<leftarrow> orderId;
     r2 \<leftarrow> T_span J (h_id rt) ''agent-step-2'' (h_end kb + g * MS) d
       ((chat ''claude-sonnet-4-5'' i u ''You are a senior support agent. Use tools before answering. Think step by step.'' [])
         \<lparr>so_input := Some [(''assistant'', ''KB results: billing adjustments, refund policy''), (''user'', ''Continue resolving the ticket.'')],
          so_tools := Some SUPPORT_TOOLS, so_toolCalls := Some [''get_order_status''],
          so_output := Some (''I'll verify the order details for '' @ order @ ''.'')\<rparr>);
     g \<leftarrow> randint 5 25; d \<leftarrow> randint 30 240; order \<leftarrow> orderId; amount \<leftarrow> money;
     os \<leftarrow> T_span J (h_id r2) ''tool:get_order_status'' (h_end r2 + g * MS) d
       (tool J [(''order_id'', JStr order)]
         [(''status'', JStr ''delivered''), (''amount'', JStr amount), (''delivered_at'', JStr ''2026-08-30'')]);
     g \<leftarrow> randint 10 60;
     State_Monad.return (h_end os + g * MS) }"

definition support_reply :: "ticket \<Rightarrow> string" where
  "support_reply tk = ''Hi! Thanks for reaching out about \"'' @ tk_intent tk @
     ''\". I've reviewed your account and here's what I found and how we'll fix it...''"

definition wfSupport :: "(json \<Rightarrow> string) \<Rightarrow> builder" where
  "wfSupport J rt t = do {
     tk \<leftarrow> choice TICKETS;
     set_in (''Customer ticket: '' @ tk_t tk);
     t \<leftarrow> support_turns J rt tk t;
     limited \<leftarrow> chance (9 / 100);
     t \<leftarrow> (if limited then do {
            d \<leftarrow> randint 120 500; i \<leftarrow> randint 1600 3600;
            bad \<leftarrow> T_span J (h_id rt) ''draft-reply'' t d
              ((chat ''claude-sonnet-4-5'' i 0 ''Write a warm, concise support reply.'' ''Draft the reply.'')
                \<lparr>so_error := Some (''RateLimitError'', ''429 Too Many Requests: token bucket exhausted'')\<rparr>);
            g \<leftarrow> randint 300 1200;
            State_Monad.return (h_end bad + g * MS) }
          else State_Monad.return t);
     d \<leftarrow> randint 700 3200; i \<leftarrow> randint 1600 3800; u \<leftarrow> randint 180 700;
     T_span J (h_id rt) ''draft-reply'' t d
       ((chat ''claude-sonnet-4-5'' i u ''Write a warm, concise support reply.'' ''Draft the reply using the KB and order info.'')
         \<lparr>so_output := Some (support_reply tk)\<rparr>);
     set_out (support_reply tk);
     modBad \<leftarrow> chance (2 / 100);
     e \<leftarrow> look tr_maxEnd; g \<leftarrow> randint 10 40;
     d \<leftarrow> randint 120 460; i \<leftarrow> randint 260 800; u \<leftarrow> randint 8 30;
     T_span J (h_id rt) ''moderate-reply'' (e + g * MS) d
       ((chat ''claude-haiku-4-5'' i u ''Content safety gate. Return {safe:bool}.'' (support_reply tk))
         \<lparr>so_output := Some (J (JObj [(''safe'', JBool (\<not> modBad))])),
          so_finish := (if modBad then Some ''content_filter'' else None)\<rparr>);
     State_Monad.return None }"

subsection \<open>Invoice extractor\<close>

fun invoice_fields :: "(json \<Rightarrow> string) \<Rightarrow> handle \<Rightarrow> int \<Rightarrow> (string \<times> string) list \<Rightarrow> unit traced" where
  "invoice_fields J rt branchStart [] = State_Monad.return ()"
| "invoice_fields J rt branchStart ((nm, result) # rest) = do {
     g \<leftarrow> randint 0 60; d \<leftarrow> randint 500 2100; i \<leftarrow> randint 1400 4200; u \<leftarrow> randint 220 640;
     T_span J (h_id rt) nm (branchStart + g * MS) d
       ((chat ''gpt-4o-mini'' i u ''Extract a single field group from the invoice as JSON.'' ''Parsed invoice context ...'')
         \<lparr>so_output := Some result\<rparr>);
     invoice_fields J rt branchStart rest }"

definition wfInvoice :: "(json \<Rightarrow> string) \<Rightarrow> builder" where
  "wfInvoice J rt t = do {
     set_in ''Extract structured data from invoice PDF (vendor, line items, totals).'';
     parseFail \<leftarrow> chance (7 / 100);
     d \<leftarrow> randint 1200 4200;
     if parseFail then do {
       i \<leftarrow> randint 120000 145000;
       T_span J (h_id rt) ''parse-document'' t d
         ((chat ''gpt-4o'' i 0 ''Extract invoice fields as JSON.'' ''<document: 38-page scanned invoice>'')
           \<lparr>so_error := Some (''ContextLengthExceeded'', ''maximum context length is 128000 tokens; request had 141220''),
            so_finish := Some ''length''\<rparr>);
       State_Monad.return (Some ''parse-document'') }
     else do {
       i \<leftarrow> randint 2200 7800; u \<leftarrow> randint 300 900;
       parse \<leftarrow> T_span J (h_id rt) ''parse-document'' t d
         ((chat ''gpt-4o'' i u ''Extract invoice fields. Call extract_fields with the parsed structure.'' ''<document: multi-page invoice>'')
           \<lparr>so_tools := Some [(''extract_fields'', ''Persist the parsed invoice fields'')], so_toolCalls := Some [''extract_fields''],
            so_output := Some ''Parsed vendor, 12 line items and totals; persisting fields.''\<rparr>);
       g \<leftarrow> randint 10 50;
       m1 \<leftarrow> money; m2 \<leftarrow> money; m3 \<leftarrow> money;
       invoice_fields J rt (h_end parse + g * MS)
         [(''extract-line-items'', ''12 line items itemized''),
          (''extract-totals'', ''subtotal '' @ m1 @ '', tax '' @ m2 @ '', total '' @ m3),
          (''extract-vendor'', ''vendor: Globex Industrial LLC, VAT GB123456789'')];
       e \<leftarrow> look tr_maxEnd; g \<leftarrow> randint 10 40;
       d \<leftarrow> randint 30 240; m1 \<leftarrow> money; m2 \<leftarrow> money; m3 \<leftarrow> money;
       val \<leftarrow> T_span J (h_id rt) ''validate-totals'' (e + g * MS) d
         (tool J [(''subtotal'', JStr m1), (''tax'', JStr m2), (''total'', JStr m3)] [(''balanced'', JBool True)]);
       g \<leftarrow> randint 10 40; d \<leftarrow> randint 400 1600; i \<leftarrow> randint 900 2600; u \<leftarrow> randint 120 380;
       T_span J (h_id rt) ''reconcile'' (h_end val + g * MS) d
         ((chat ''gpt-4o'' i u ''Reconcile extracted fields and flag anomalies.'' ''line items + totals + vendor'')
           \<lparr>so_output := Some ''Reconciled invoice; totals balance. Ready for AP approval.''\<rparr>);
       set_out ''Reconciled invoice; totals balance. Ready for AP approval.'';
       State_Monad.return None } }"

subsection \<open>Code review\<close>

definition file_of :: "string \<Rightarrow> string" where
  "file_of f = hd (str_split (CHR '':'') f)"

fun review_files :: "(json \<Rightarrow> string) \<Rightarrow> handle \<Rightarrow> int \<Rightarrow> int \<Rightarrow> nat \<Rightarrow> string list \<Rightarrow> unit traced" where
  "review_files J rt branchStart timeoutIdx i [] = State_Monad.return ()"
| "review_files J rt branchStart timeoutIdx i (f # fs) = do {
     (if int i = timeoutIdx then do {
        g \<leftarrow> randint 0 80; d \<leftarrow> randint 200 900; n \<leftarrow> randint 3200 9000;
        bad \<leftarrow> T_span J (h_id rt) (''analyze-file['' @ nat_str i @ '']'') (branchStart + g * MS) d
          ((chat ''claude-opus-4-5'' n 0 ''Review this file for bugs, security and style.'' f)
            \<lparr>so_error := Some (''APITimeoutError'', ''request timed out after 60s'')\<rparr>);
        g \<leftarrow> randint 400 1500; d \<leftarrow> randint 2400 8000; n \<leftarrow> randint 3200 12000; u \<leftarrow> randint 600 2200;
        T_span J (h_id rt) (''analyze-file['' @ nat_str i @ '']:retry'') (h_end bad + g * MS) d
          ((chat ''claude-opus-4-5'' n u ''Review this file for bugs, security and style.'' f)
            \<lparr>so_output := Some (''Found 2 issues in '' @ file_of f @ '': a correctness bug and a missing bound.'')\<rparr>);
        State_Monad.return () }
      else do {
        g \<leftarrow> randint 0 80; d \<leftarrow> randint 2400 8800; n \<leftarrow> randint 3200 12000; u \<leftarrow> randint 600 2200; bug \<leftarrow> chance (5 / 10);
        T_span J (h_id rt) (''analyze-file['' @ nat_str i @ '']'') (branchStart + g * MS) d
          ((chat ''claude-opus-4-5'' n u ''Review this file for bugs, security and style.'' f)
            \<lparr>so_output := Some (''Reviewed '' @ file_of f @ '': '' @ (if bug then ''1 blocking issue'' else ''looks good, minor nits'') @ ''.'')\<rparr>);
        State_Monad.return () });
     review_files J rt branchStart timeoutIdx (i + 1) fs }"

definition review_wrapup :: "(json \<Rightarrow> string) \<Rightarrow> handle \<Rightarrow> unit traced" where
  "review_wrapup J rt = do {
     e \<leftarrow> look tr_maxEnd; g \<leftarrow> randint 10 50;
     d \<leftarrow> randint 1100 4200; n \<leftarrow> randint 1800 6400; u \<leftarrow> randint 400 1400;
     sf \<leftarrow> T_span J (h_id rt) ''suggest-fixes'' (e + g * MS) d
       ((chat ''claude-sonnet-4-5'' n u ''Propose concrete patch suggestions for the issues found.'' ''aggregated file findings'')
         \<lparr>so_output := Some ''Suggested 3 diffs: add pagination bound, rotate refresh token safely, guard payment retry.''\<rparr>);
     g \<leftarrow> randint 10 40; d \<leftarrow> randint 900 3000; found \<leftarrow> chance (3 / 10);
     sub \<leftarrow> T_span J (h_id rt) ''security-subagent'' (h_end sf + g * MS) d
       (no_opts\<lparr>so_op := ''invoke_agent'',
         so_entityIn := Some (J (JObj [(''scope'', JStr ''changed files''),
           (''checks'', JArr [JStr ''secrets'', JStr ''authz'', JStr ''injection''])])),
         so_entityOut := Some (J (JObj [(''findings'', JNum (if found then 1 else 0))]))\<rparr>);
     g \<leftarrow> randint 20 120; d \<leftarrow> randint 700 2400; n \<leftarrow> randint 1400 4800; u \<leftarrow> randint 200 800; risk \<leftarrow> chance (3 / 10);
     T_span J (h_id sub) ''scan-vulnerabilities'' (h_start sub + g * MS) d
       ((chat ''claude-sonnet-4-5'' n u ''Static security review. Report CWE-tagged findings.'' ''diff hunks'')
         \<lparr>so_output := Some (if risk then ''CWE-639: IDOR risk in ListUsers pagination param.'' else ''No high-severity findings.'')\<rparr>);
     e \<leftarrow> look tr_maxEnd; g \<leftarrow> randint 10 40;
     d \<leftarrow> randint 240 900; n \<leftarrow> randint 700 2100; u \<leftarrow> randint 90 320;
     T_span J (h_id rt) ''summarize-review'' (e + g * MS) d
       ((chat ''claude-haiku-4-5'' n u ''Write the final PR review summary.'' ''all findings'')
         \<lparr>so_output := Some ''Requested changes: 1 blocking correctness bug, 2 suggestions. Approving after fixes.''\<rparr>);
     State_Monad.return () }"

definition wfCodeReview :: "(json \<Rightarrow> string) \<Rightarrow> builder" where
  "wfCodeReview J rt t = do {
     f1 \<leftarrow> choice DIFFS; f2 \<leftarrow> choice DIFFS; f3 \<leftarrow> choice DIFFS;
     pr \<leftarrow> randint 200 4800;
     set_in (''Review PR #'' @ int_str pr @ '' touching '' @ nat_str (length [f1, f2, f3]) @ '' files.'');
     d \<leftarrow> randint 40 260; pr \<leftarrow> randint 200 4800; adds \<leftarrow> randint 20 900; dels \<leftarrow> randint 5 400;
     ft \<leftarrow> T_span J (h_id rt) ''fetch-diff'' t d
       (tool J [(''pr'', JNum (of_int pr))]
         [(''files'', JNum (of_nat (length [f1, f2, f3]))), (''additions'', JNum (of_int adds)), (''deletions'', JNum (of_int dels))]);
     g \<leftarrow> randint 10 40;
     timeout \<leftarrow> chance (5 / 100);
     timeoutIdx \<leftarrow> (if timeout then randint 0 (int (length [f1, f2, f3]) - 1) else State_Monad.return (- 1));
     review_files J rt (h_end ft + g * MS) timeoutIdx 0 [f1, f2, f3];
     review_wrapup J rt;
     set_out ''Requested changes: 1 blocking correctness bug, 2 suggestions. Approving after fixes.'';
     State_Monad.return None }"

subsection \<open>Semantic search\<close>

definition wfSearch :: "(json \<Rightarrow> string) \<Rightarrow> builder" where
  "wfSearch J rt t = do {
     q \<leftarrow> choice QUERIES;
     set_in (''Query: '' @ q);
     d \<leftarrow> randint 20 160; i \<leftarrow> randint 12 90;
     emb \<leftarrow> T_span J (h_id rt) ''embed-query'' t d
       (no_opts\<lparr>so_op := ''embeddings'', so_model := ''text-embedding-3-small'', so_inTok := i, so_input := Some [(''user'', q)]\<rparr>);
     g \<leftarrow> randint 5 25; d \<leftarrow> randint 20 180;
     vs \<leftarrow> T_span J (h_id rt) ''vector-search'' (h_end emb + g * MS) d
       (tool J [(''k'', JNum 8), (''filter'', JObj [(''lang'', JStr ''en'')])]
         [(''ids'', JArr [JStr ''doc_12'', JStr ''doc_88'', JStr ''doc_3'']),
          (''scores'', JArr [JNum (83 / 100), JNum (79 / 100), JNum (71 / 100)])]);
     g \<leftarrow> randint 5 25; d \<leftarrow> randint 180 800; i \<leftarrow> randint 600 2200; u \<leftarrow> randint 40 160;
     rr \<leftarrow> T_span J (h_id rt) ''rerank-results'' (h_end vs + g * MS) d
       ((chat ''gpt-4o-mini'' i u ''Rerank passages by relevance to the query.'' q)\<lparr>so_output := Some ''Top passage: doc_88 (setup guide).''\<rparr>);
     g \<leftarrow> randint 5 25; d \<leftarrow> randint 500 2400; i \<leftarrow> randint 1200 3600; u \<leftarrow> randint 120 520;
     T_span J (h_id rt) ''generate-answer'' (h_end rr + g * MS) d
       ((chat ''claude-sonnet-4-5'' i u ''Answer using only the retrieved passages; cite doc ids.'' q)
         \<lparr>so_output := Some (''Here's how to '' @ q @ '': follow steps 1'' @ en_dash @ ''3 in the linked guide.'')\<rparr>);
     set_out (''Here's how to '' @ q @ '': follow steps 1'' @ en_dash @ ''3 in the linked guide.'');
     State_Monad.return None }"

subsection \<open>Content moderation\<close>

definition wfModeration :: "(json \<Rightarrow> string) \<Rightarrow> builder" where
  "wfModeration J rt t = do {
     s \<leftarrow> choice MOD_SAMPLES;
     set_in (ms_t s);
     refusal \<leftarrow> chance (3 / 100);
     limited \<leftarrow> chance (1 / 100);
     if limited then do {
       d \<leftarrow> randint 60 200; i \<leftarrow> randint 180 500;
       T_span J (h_id rt) ''moderate-content'' t d
         ((chat ''claude-haiku-4-5'' i 0 ''Classify content: allow/block with a reason.'' (ms_t s))
           \<lparr>so_error := Some (''RateLimitError'', ''429 Too Many Requests'')\<rparr>);
       State_Monad.return (Some ''moderate-content'') }
     else do {
       d \<leftarrow> randint 80 420; i \<leftarrow> randint 180 620; u \<leftarrow> randint 6 30;
       cls \<leftarrow> T_span J (h_id rt) ''moderate-content'' t d
         ((chat ''claude-haiku-4-5'' i u ''Classify content: allow/block with a reason.'' (ms_t s))
           \<lparr>so_output := Some (J (JObj [(''verdict'', JStr (ms_verdict s)), (''reason'', JStr (ms_reason s))])),
            so_finish := (if refusal then Some ''content_filter'' else None)\<rparr>);
       set_out (J (JObj [(''verdict'', JStr (ms_verdict s))]));
       explain \<leftarrow> (if ms_verdict s = ''block'' then chance (6 / 10) else State_Monad.return False);
       if explain then do {
         g \<leftarrow> randint 5 20; d \<leftarrow> randint 120 520; i \<leftarrow> randint 200 700; u \<leftarrow> randint 40 160;
         T_span J (h_id rt) ''explain-decision'' (h_end cls + g * MS) d
           ((chat ''claude-haiku-4-5'' i u ''Explain the moderation decision to an appeals reviewer.'' (ms_t s))
             \<lparr>so_output := Some (''Blocked: '' @ ms_reason s @ ''. Policy '' @ section_sign @ ''3.2.'')\<rparr>);
         State_Monad.return None }
       else State_Monad.return None } }"

subsection \<open>Deep research\<close>

definition SUBQUESTIONS :: "string list" where
  "SUBQUESTIONS = [''definitions & scope'', ''current state of the art'', ''tradeoffs & risks'']"

fun research_branches :: "(json \<Rightarrow> string) \<Rightarrow> handle \<Rightarrow> int \<Rightarrow> nat \<Rightarrow> string list \<Rightarrow> unit traced" where
  "research_branches J rt branchStart i [] = State_Monad.return ()"
| "research_branches J rt branchStart i (sq # sqs) = do {
     g \<leftarrow> randint 0 120; d \<leftarrow> randint 120 900; n \<leftarrow> randint 4 12;
     web \<leftarrow> T_span J (h_id rt) (''web-search['' @ nat_str i @ '']'') (branchStart + g * MS) d
       (tool J [(''q'', JStr sq)] [(''results'', JNum (of_int n))]);
     g \<leftarrow> randint 5 30; d \<leftarrow> randint 80 500; n \<leftarrow> randint 2000 18000;
     read \<leftarrow> T_span J (h_id web) (''read-source['' @ nat_str i @ '']'') (h_end web + g * MS) d
       (tool J [(''url'', JStr (''https://example.com/'' @ nat_str i))] [(''chars'', JNum (of_int n))]);
     g \<leftarrow> randint 5 30; d \<leftarrow> randint 600 2400; n \<leftarrow> randint 1800 6000; u \<leftarrow> randint 200 800;
     T_span J (h_id read) (''summarize['' @ nat_str i @ '']'') (h_end read + g * MS) d
       ((chat ''gemini-2.5-flash'' n u ''Summarize the source for the sub-question with citations.'' sq)
         \<lparr>so_output := Some (''Summary for \"'' @ sq @ ''\" with 2 citations.'')\<rparr>);
     research_branches J rt branchStart (i + 1) sqs }"

definition research_brief :: "string \<Rightarrow> string" where
  "research_brief q = ''Briefing on \"'' @ q @ ''\": key findings across '' @ nat_str (length SUBQUESTIONS) @
     '' dimensions with sourced citations.''"

definition research_synthesis :: "(json \<Rightarrow> string) \<Rightarrow> handle \<Rightarrow> string \<Rightarrow> int \<Rightarrow> unit traced" where
  "research_synthesis J rt q st = do {
     d \<leftarrow> randint 1400 5200; i \<leftarrow> randint 3400 11000; u \<leftarrow> randint 500 1800;
     syn \<leftarrow> T_span J (h_id rt) ''synthesize'' st d
       ((chat ''gemini-2.5-pro'' i u ''Synthesize the sub-summaries into a briefing with inline citations.'' ''sub-summaries'')
         \<lparr>so_output := Some (research_brief q)\<rparr>);
     g \<leftarrow> randint 10 40; d \<leftarrow> randint 800 3000; i \<leftarrow> randint 1200 3600; u \<leftarrow> randint 400 1600;
     ver \<leftarrow> T_span J (h_id rt) ''verify-citations'' (h_end syn + g * MS) d
       ((chat ''o3-mini'' i u ''Verify each citation resolves and supports its claim. Use check_source.'' (research_brief q))
         \<lparr>so_tools := Some [(''check_source'', ''Fetch a URL and verify it supports a claim'')],
          so_toolCalls := Some [''check_source''], so_output := Some ''All 6 citations verified.''\<rparr>);
     g \<leftarrow> randint 20 120; d \<leftarrow> randint 60 400;
     T_span J (h_id ver) ''tool:check_source'' (h_start ver + g * MS) d
       (tool J [(''url'', JStr ''https://example.com/2'')] [(''ok'', JBool True)]);
     State_Monad.return () }"

definition wfResearch :: "(json \<Rightarrow> string) \<Rightarrow> builder" where
  "wfResearch J rt t = do {
     q \<leftarrow> choice RESEARCH;
     set_in q;
     d \<leftarrow> randint 900 3600; i \<leftarrow> randint 900 2800; u \<leftarrow> randint 300 900;
     plan \<leftarrow> T_span J (h_id rt) ''plan-research'' t d
       ((chat ''gemini-2.5-pro'' i u ''Decompose the research question into 3 sub-questions.'' q)
         \<lparr>so_output := Some (J (JObj [(''subquestions'', JArr (map JStr SUBQUESTIONS))]))\<rparr>);
     g \<leftarrow> randint 10 60;
     research_branches J rt (h_end plan + g * MS) 0 SUBQUESTIONS;
     e \<leftarrow> look tr_maxEnd; g \<leftarrow> randint 10 60;
     overloaded \<leftarrow> chance (7 / 100);
     st \<leftarrow> (if overloaded then do {
            d \<leftarrow> randint 200 900; i \<leftarrow> randint 3000 8000;
            bad \<leftarrow> T_span J (h_id rt) ''synthesize'' (e + g * MS) d
              ((chat ''gemini-2.5-pro'' i 0 ''Synthesize the sub-summaries into a briefing.'' ''sub-summaries'')
                \<lparr>so_error := Some (''OverloadedError'', ''503 model temporarily unavailable'')\<rparr>);
            b \<leftarrow> randint 500 2000;
            State_Monad.return (h_end bad + b * MS) }
          else State_Monad.return (e + g * MS));
     research_synthesis J rt q st;
     set_out (research_brief q);
     State_Monad.return None }"

subsection \<open>Every builder keeps the trace well formed\<close>

lemma keeps_seq:
  assumes "keeps t0 K m" "\<And>a. keeps t0 K (f a)"
  shows "keeps t0 K (State_Monad.bind m f)"
  unfolding keeps_def
proof (intro allI impI)
  fix s assume s: "trace_ok t0 s \<and> K \<subseteq> span_ids s"
  obtain a s' where a: "run_state m s = (a, s')" by force
  have m: "trace_ok t0 s'" "prefix (tr_spans s) (tr_spans s')" "tr_traceId s' = tr_traceId s"
    using spec [OF assms(1) [unfolded keeps_def], of s] s a by simp_all
  have "K \<subseteq> span_ids s'" using s set_mono_prefix [OF m(2)] unfolding span_ids_def by blast
  with spec [OF assms(2) [of a, unfolded keeps_def], of s'] m
  show "trace_ok t0 (snd (run_state (State_Monad.bind m f) s)) \<and>
      prefix (tr_spans s) (tr_spans (snd (run_state (State_Monad.bind m f) s))) \<and>
      tr_traceId (snd (run_state (State_Monad.bind m f) s)) = tr_traceId s"
    by (auto simp: a intro: prefix_order.trans)
qed

lemma keeps_bind_assoc [keeps_rules]:
  "keeps t0 K (State_Monad.bind m (\<lambda>x. State_Monad.bind (g x) f)) \<Longrightarrow> keeps t0 K (State_Monad.bind (State_Monad.bind m g) f)"
  by simp

lemma keeps_bind_return [keeps_rules]: "keeps t0 K (f a) \<Longrightarrow> keeps t0 K (State_Monad.bind (State_Monad.return a) f)"
  by simp

text \<open>The side conditions of the rules: parents in use, spans that start late enough, delays that are not negative.\<close>

lemma later [simp]: "t0 \<le> e \<Longrightarrow> 0 \<le> g \<Longrightarrow> t0 \<le> e + g * MS"
  by (simp add: MS_def)

lemma keeps_invoice_fields [keeps_rules]:
  assumes "h_id rt \<in> K" "t0 \<le> b" "\<And>u. keeps t0 K (f u)"
  shows "keeps t0 K (State_Monad.bind (invoice_fields J rt b fs) f)"
proof (rule keeps_seq [OF _ assms(3)])
  have "keeps t0 K' (invoice_fields J rt b fs)" if "h_id rt \<in> K'" for K'
    using that assms(2)
  proof (induction fs arbitrary: K')
    case (Cons a fs)
    then show ?case by (cases a) (simp, intro keeps_rules; simp)
  qed (simp add: keeps_return)
  then show "keeps t0 K (invoice_fields J rt b fs)" using assms(1) .
qed

lemma keeps_review_files [keeps_rules]:
  assumes "h_id rt \<in> K" "t0 \<le> b" "\<And>u. keeps t0 K (f u)"
  shows "keeps t0 K (State_Monad.bind (review_files J rt b ti i fs) f)"
proof (rule keeps_seq [OF _ assms(3)])
  have "keeps t0 K' (review_files J rt b ti i fs)" if "h_id rt \<in> K'" for K'
    using that assms(2)
  proof (induction fs arbitrary: K' i)
    case (Cons a fs)
    then show ?case unfolding review_files.simps by (intro keeps_rules; simp)
  qed (simp add: keeps_return)
  then show "keeps t0 K (review_files J rt b ti i fs)" using assms(1) .
qed

lemma keeps_research_branches [keeps_rules]:
  assumes "h_id rt \<in> K" "t0 \<le> b" "\<And>u. keeps t0 K (f u)"
  shows "keeps t0 K (State_Monad.bind (research_branches J rt b i sqs) f)"
proof (rule keeps_seq [OF _ assms(3)])
  have "keeps t0 K' (research_branches J rt b i sqs)" if "h_id rt \<in> K'" for K'
    using that assms(2)
  proof (induction sqs arbitrary: K' i)
    case (Cons a sqs)
    then show ?case unfolding research_branches.simps by (intro keeps_rules; simp)
  qed (simp add: keeps_return)
  then show "keeps t0 K (research_branches J rt b i sqs)" using assms(1) .
qed

lemma pools_nonempty [simp]: "TICKETS \<noteq> []" "DIFFS \<noteq> []" "RESEARCH \<noteq> []" "MOD_SAMPLES \<noteq> []" "QUERIES \<noteq> []"
  by (simp_all add: TICKETS_def DIFFS_def RESEARCH_def MOD_SAMPLES_def QUERIES_def)

lemma keeps_wfSearch: "h_id rt \<in> K \<Longrightarrow> t0 \<le> t \<Longrightarrow> keeps t0 K (wfSearch J rt t)"
  unfolding wfSearch_def by (intro keeps_rules; simp)

lemma keeps_wfModeration: "h_id rt \<in> K \<Longrightarrow> t0 \<le> t \<Longrightarrow> keeps t0 K (wfModeration J rt t)"
  unfolding wfModeration_def by (intro keeps_rules; simp)

lemma keeps_wfInvoice: "h_id rt \<in> K \<Longrightarrow> t0 \<le> t \<Longrightarrow> keeps t0 K (wfInvoice J rt t)"
  unfolding wfInvoice_def by (intro keeps_rules; simp)

lemma keeps_weaken: "keeps t0 K m \<Longrightarrow> K \<subseteq> K' \<Longrightarrow> keeps t0 K' m"
  unfolding keeps_def by (meson order_trans)

lemma keeps_support_turns [keeps_rules]:
  assumes "h_id rt \<in> K" "t0 \<le> t" "\<And>e. t0 \<le> e \<Longrightarrow> keeps t0 K (f e)"
  shows "keeps t0 K (State_Monad.bind (support_turns J rt tk t) f)"
  unfolding support_turns_def using assms(1,2) by (intro keeps_rules keeps_weaken [OF assms(3)]; simp add: subset_insertI2)

lemma keeps_wfSupport: "h_id rt \<in> K \<Longrightarrow> t0 \<le> t \<Longrightarrow> keeps t0 K (wfSupport J rt t)"
  unfolding wfSupport_def by (intro keeps_rules; simp)

lemma keeps_review_wrapup [keeps_rules]:
  assumes "h_id rt \<in> K" "\<And>u. keeps t0 K (f u)"
  shows "keeps t0 K (State_Monad.bind (review_wrapup J rt) f)"
proof (rule keeps_seq [OF _ assms(2)])
  show "keeps t0 K (review_wrapup J rt)" unfolding review_wrapup_def using assms(1) by (intro keeps_rules; simp)
qed

lemma keeps_wfCodeReview: "h_id rt \<in> K \<Longrightarrow> t0 \<le> t \<Longrightarrow> keeps t0 K (wfCodeReview J rt t)"
  unfolding wfCodeReview_def by (intro keeps_rules; simp)

lemma keeps_wfResearch: "h_id rt \<in> K \<Longrightarrow> t0 \<le> t \<Longrightarrow> keeps t0 K (wfResearch J rt t)"
  unfolding wfResearch_def research_synthesis_def by (intro keeps_rules; simp)

lemmas keeps_builders = keeps_wfSupport keeps_wfInvoice keeps_wfCodeReview keeps_wfSearch keeps_wfModeration keeps_wfResearch

end
