(* ===== verification/Seed_Run.thy ===== *)
theory Seed_Run
  imports Seed_Workflows
begin

text \<open>
  The runs of \<open>scripts/seed.mjs\<close>: traces of the simulated workflows with their releases and incidents, the schedule of the
  history. The variables of the environment and the clock are the fields of \<open>seed_env\<close>.
\<close>

subsection \<open>Configuration and pools\<close>

record seed_env =
  se_otlp :: string
  se_api :: string
  se_email :: string
  se_password :: string
  se_workspaceId :: string
  se_nTraces :: nat
  se_now :: int

record seed_workspace =
  sw_id :: string
  sw_name :: string
  sw_slug :: string
  sw_env :: string
  sw_weight :: rat

definition WORKSPACES :: "string \<Rightarrow> seed_workspace list" where
  "WORKSPACES wid =
    [\<lparr>sw_id = wid, sw_name = ''Production'', sw_slug = ''production'', sw_env = ''production'', sw_weight = 60\<rparr>,
     \<lparr>sw_id = ''7a1e9b52-3c8d-4f6a-b210-9d4e2f8c1a37'', sw_name = ''Staging'', sw_slug = ''staging'', sw_env = ''staging'', sw_weight = 25\<rparr>,
     \<lparr>sw_id = ''2f5c8d13-6b47-49e2-8a1f-c3e6b0d94a58'', sw_name = ''Development'', sw_slug = ''development'', sw_env = ''development'', sw_weight = 15\<rparr>]"

definition SEED_USERS :: "(string \<times> rat) list" where
  "SEED_USERS = [(''u_umbrella'', 34), (''u_acme_corp'', 22), (''u_globex'', 16), (''u_initech'', 12), (''u_umbrella_dev'', 9), (''u_personal'', 7)]"

definition REGIONS :: "string list" where
  "REGIONS = [''us-east-1'', ''us-west-2'', ''eu-west-1'', ''ap-south-1'']"

definition CUSTOMERS :: "string list" where
  "CUSTOMERS = [''acme-corp'', ''globex'', ''initech'', ''umbrella'', ''wayne-ent'', ''hooli'']"

definition PRIORITIES :: "string list" where
  "PRIORITIES = [''low'', ''normal'', ''normal'', ''normal'', ''high'']"

text \<open>A release: its version, the days ago since which it runs, and the factor on the tokens of a run.\<close>

type_synonym release = "string \<times> int \<times> rat option"

record seed_workflow =
  wk_workflow :: string
  wk_team :: string
  wk_feature :: string
  wk_cost_center :: string
  wk_weight :: rat
  wk_build :: builder
  wk_releases :: "release list"

definition SEED_WORKFLOWS :: "(json \<Rightarrow> string) \<Rightarrow> seed_workflow list" where
  "SEED_WORKFLOWS J =
    [\<lparr>wk_workflow = ''support-ticket-resolver'', wk_team = ''support'', wk_feature = ''ticket-triage'', wk_cost_center = ''CC-1001'',
      wk_weight = 20, wk_build = wfSupport J,
      wk_releases = [(''v2.0.0'', 42, None), (''v2.1.0'', 30, Some (11 / 10)), (''v2.2.0'', 18, Some (85 / 100)), (''v2.3.0'', 6, Some (13 / 10))]\<rparr>,
     \<lparr>wk_workflow = ''invoice-extractor'', wk_team = ''finance'', wk_feature = ''invoice-ocr'', wk_cost_center = ''CC-2100'',
      wk_weight = 14, wk_build = wfInvoice J,
      wk_releases = [(''1.8.3'', 42, None), (''1.8.4'', 27, None), (''1.9.0'', 11, Some (9 / 10)), (''1.9.1'', 3, Some (95 / 100))]\<rparr>,
     \<lparr>wk_workflow = ''code-review-bot'', wk_team = ''engineering'', wk_feature = ''pr-review'', wk_cost_center = ''CC-3050'',
      wk_weight = 12, wk_build = wfCodeReview J,
      wk_releases = [(''3f9c2e1'', 42, None), (''9b14d6a'', 31, Some (115 / 100)), (''a71d04b'', 20, None), (''c5e88f2'', 8, Some (8 / 10))]\<rparr>,
     \<lparr>wk_workflow = ''semantic-search'', wk_team = ''growth'', wk_feature = ''kb-search'', wk_cost_center = ''CC-4200'',
      wk_weight = 14, wk_build = wfSearch J,
      wk_releases = [(''2'', 42, None), (''3'', 28, Some (9 / 10)), (''4'', 14, Some (115 / 100)), (''5'', 4, Some (95 / 100))]\<rparr>,
     \<lparr>wk_workflow = ''content-moderation'', wk_team = ''trust-safety'', wk_feature = ''auto-moderation'', wk_cost_center = ''CC-5500'',
      wk_weight = 30, wk_build = wfModeration J,
      wk_releases = [(''v1.4.0'', 42, None), (''v1.5.0'', 25, Some (11 / 10)), (''v1.5.1'', 13, None), (''v1.6.0'', 5, Some (9 / 10))]\<rparr>,
     \<lparr>wk_workflow = ''research-assistant'', wk_team = ''research'', wk_feature = ''deep-research'', wk_cost_center = ''CC-6300'',
      wk_weight = 10, wk_build = wfResearch J,
      wk_releases = [(''v0.8.0'', 24, None), (''v0.9.0'', 15, Some (12 / 10)), (''v1.0.0'', 5, Some (85 / 100))]\<rparr>]"

subsection \<open>Traces\<close>

definition DAY_NS :: int where
  "DAY_NS = 86400 * NS"

text \<open>Division of \<open>BigInt\<close>s truncates.\<close>

definition big_div :: "int \<Rightarrow> int \<Rightarrow> int" where
  "big_div a b = sgn a * (\<bar>a\<bar> div b)"

definition releaseAt :: "int \<Rightarrow> release list \<Rightarrow> int \<Rightarrow> release option" where
  "releaseAt now releases startNs =
     (let daysAgo = big_div (now - startNs) DAY_NS;
          running = filter (\<lambda>(_, since, _). since \<ge> daysAgo) releases in
      if running = [] then None else Some (List.last running))"

record seed_trace =
  st_resource :: "attribute list"
  st_spans :: "otlp_span list"
  st_spanCount :: nat
  st_workspaceId :: string

text \<open>\<open>parseInt\<close> of the counts, which \<open>iv\<close> wrote; anything else is not a number.\<close>

definition scale_value :: "rat \<Rightarrow> otlp_value \<Rightarrow> otlp_value" where
  "scale_value factor v = (case v of
     IntValue s \<Rightarrow> (case parse_nat 0 s of Some n \<Rightarrow> iv (math_round (of_nat n * factor)) | None \<Rightarrow> IntValue ''NaN'')
   | _ \<Rightarrow> IntValue ''NaN'')"

definition is_token_key :: "string \<Rightarrow> bool" where
  "is_token_key k \<longleftrightarrow> k = ''gen_ai.usage.input_tokens'' \<or> k = ''gen_ai.usage.output_tokens''"

definition scale_attr :: "rat \<Rightarrow> attribute \<Rightarrow> attribute" where
  "scale_attr factor a = (if is_token_key (at_key a) then a\<lparr>at_value := scale_value factor (at_value a)\<rparr> else a)"

definition scaleTokens :: "rat \<Rightarrow> seed_trace \<Rightarrow> seed_trace" where
  "scaleTokens factor t =
     t\<lparr>st_spans := map (\<lambda>sp. sp\<lparr>os_attributes := map (scale_attr factor) (os_attributes sp)\<rparr>) (st_spans t)\<rparr>"

definition is_llm_span :: "otlp_span \<Rightarrow> bool" where
  "is_llm_span sp \<longleftrightarrow> (\<exists>a\<in>set (os_attributes sp). at_key a = ''gen_ai.request.model'')"

definition fail_span :: "string \<Rightarrow> string \<Rightarrow> otlp_span \<Rightarrow> otlp_span" where
  "fail_span ty msg sp = sp\<lparr>os_status := (2, Some msg), os_events := Some [exception_event (os_end sp) ty msg]\<rparr>"

fun fail_first :: "string \<Rightarrow> string \<Rightarrow> otlp_span list \<Rightarrow> otlp_span list" where
  "fail_first ty msg [] = []"
| "fail_first ty msg (sp # sps) = (if is_llm_span sp then fail_span ty msg sp # sps else sp # fail_first ty msg sps)"

definition forceError :: "string \<Rightarrow> string \<Rightarrow> seed_trace \<Rightarrow> seed_trace" where
  "forceError ty msg t = t\<lparr>st_spans := fail_first ty msg (st_spans t)\<rparr>"

definition root_attrs :: "string option \<Rightarrow> string option \<Rightarrow> attribute list" where
  "root_attrs i r = opt_attr ''traceloop.entity.input'' sv i @ opt_attr ''traceloop.entity.output'' sv r"

definition finish_root :: "handle \<Rightarrow> unit traced" where
  "finish_root rt = act (\<lambda>s. s\<lparr>tr_spans := (tr_spans s)[h_ix rt :=
     (tr_spans s ! h_ix rt)\<lparr>os_attributes := os_attributes (tr_spans s ! h_ix rt) @ root_attrs (tr_in s) (tr_out s)\<rparr>]\<rparr>)"

definition resource_attrs :: "seed_workflow \<Rightarrow> string \<Rightarrow> string \<Rightarrow> string \<Rightarrow> string \<Rightarrow> string \<Rightarrow> string option \<Rightarrow> attribute list" where
  "resource_attrs wk userId env region customer priority version =
     [kv ''service.name'' (sv (wk_workflow wk)), kv ''tracium.user.id'' (sv userId), kv ''environment'' (sv env),
      kv ''region'' (sv region), kv ''team'' (sv (wk_team wk)), kv ''customer'' (sv customer),
      kv ''cost_center'' (sv (wk_cost_center wk)), kv ''feature'' (sv (wk_feature wk)), kv ''priority'' (sv priority),
      kv ''deployment.environment'' (sv env)] @
     (case version of None \<Rightarrow> [] | Some v \<Rightarrow> if v = [] then [] else [kv ''tracium.workflow.version'' (sv v)])"

text \<open>The spans of a run: the first one around what the builder adds.\<close>

definition build_spans :: "(json \<Rightarrow> string) \<Rightarrow> seed_workflow \<Rightarrow> string \<Rightarrow> int \<Rightarrow> unit traced" where
  "build_spans J wk traceId startNs = do {
     newTrace traceId startNs;
     rt \<leftarrow> T_span J [] (wk_workflow wk) startNs 10 (no_opts\<lparr>so_op := ''invoke_agent''\<rparr>);
     g \<leftarrow> randint 20 120;
     wk_build wk rt (startNs + g * MS);
     e \<leftarrow> look tr_maxEnd; g \<leftarrow> randint 10 90;
     setEnd rt (e + g * MS);
     finish_root rt }"

definition makeTrace :: "(json \<Rightarrow> string) \<Rightarrow> seed_env \<Rightarrow> int \<Rightarrow> seed_workflow option \<Rightarrow> seed_trace traced" where
  "makeTrace J env startNs forceWf = do {
     wk \<leftarrow> (case forceWf of Some w \<Rightarrow> State_Monad.return w | None \<Rightarrow> weighted (map (\<lambda>w. (w, wk_weight w)) (SEED_WORKFLOWS J)));
     userId \<leftarrow> weighted SEED_USERS;
     ws \<leftarrow> weighted (map (\<lambda>w. (w, sw_weight w)) (WORKSPACES (se_workspaceId env)));
     traceId \<leftarrow> hexid 16;
     region \<leftarrow> choice REGIONS; customer \<leftarrow> choice CUSTOMERS; priority \<leftarrow> choice PRIORITIES;
     build_spans J wk traceId startNs;
     spans \<leftarrow> look tr_spans;
     let release = releaseAt (se_now env) (wk_releases wk) startNs;
         factor = (case release of Some (_, _, Some f) \<Rightarrow> f | _ \<Rightarrow> 1);
         trace = \<lparr>st_resource = resource_attrs wk userId (sw_env ws) region customer priority (map_option fst release),
           st_spans = spans, st_spanCount = length spans, st_workspaceId = sw_id ws\<rparr>
     in State_Monad.return (if factor \<noteq> 1 then scaleTokens factor trace else trace) }"

subsection \<open>Schedule\<close>

datatype mutation = ScaleBy rat | FailWith string string

record task =
  ta_start :: int
  ta_wf :: "seed_workflow option"
  ta_mutate :: "mutation option"

fun mutate :: "mutation option \<Rightarrow> seed_trace \<Rightarrow> seed_trace" where
  "mutate None t = t"
| "mutate (Some (ScaleBy f)) t = scaleTokens f t"
| "mutate (Some (FailWith ty msg)) t = forceError ty msg t"

definition findWorkflow :: "(json \<Rightarrow> string) \<Rightarrow> string \<Rightarrow> seed_workflow option" where
  "findWorkflow J name = js_find (\<lambda>w. wk_workflow w = name) (SEED_WORKFLOWS J)"

definition dayStartNs :: "int \<Rightarrow> int \<Rightarrow> int" where
  "dayStartNs nowNs daysAgo = (big_div nowNs DAY_NS - daysAgo) * DAY_NS"

definition withinDay :: "int traced" where
  "withinDay = do { n \<leftarrow> randint 0 (23 * 3600 + 3540); State_Monad.return (n * NS) }"

definition HISTORY_DAYS :: int where
  "HISTORY_DAYS = 42"

definition dayWeight :: "int \<Rightarrow> int \<Rightarrow> rat" where
  "dayWeight nowNs daysAgo =
     (let d = get_utc_day (big_div nowNs MS - daysAgo * 86400000) in if d = 0 \<or> d = 6 then 6 / 10 else 1)"

definition dayPicker :: "int \<Rightarrow> (int \<times> rat) list" where
  "dayPicker nowNs = map (\<lambda>k. (HISTORY_DAYS - 1 - k, dayWeight nowNs (HISTORY_DAYS - 1 - k))) [0..HISTORY_DAYS - 1]"

fun baseline_tasks :: "int \<Rightarrow> nat \<Rightarrow> task list traced" where
  "baseline_tasks now 0 = State_Monad.return []"
| "baseline_tasks now (Suc n) = do {
     daysAgo \<leftarrow> weighted (dayPicker now);
     w \<leftarrow> withinDay;
     ts \<leftarrow> baseline_tasks now n;
     State_Monad.return (\<lparr>ta_start = dayStartNs now daysAgo + w, ta_wf = None, ta_mutate = None\<rparr> # ts) }"

fun incident_tasks :: "int \<Rightarrow> int \<Rightarrow> seed_workflow option \<Rightarrow> mutation option \<Rightarrow> nat \<Rightarrow> task list traced" where
  "incident_tasks now daysAgo wk m 0 = State_Monad.return []"
| "incident_tasks now daysAgo wk m (Suc n) = do {
     w \<leftarrow> withinDay;
     ts \<leftarrow> incident_tasks now daysAgo wk m n;
     State_Monad.return (\<lparr>ta_start = dayStartNs now daysAgo + w, ta_wf = wk, ta_mutate = m\<rparr> # ts) }"

definition all_tasks :: "(json \<Rightarrow> string) \<Rightarrow> seed_env \<Rightarrow> task list traced" where
  "all_tasks J env = do {
     base \<leftarrow> baseline_tasks (se_now env) (se_nTraces env);
     spike \<leftarrow> incident_tasks (se_now env) 2 (findWorkflow J ''support-ticket-resolver'') (Some (ScaleBy 9)) 20;
     errors \<leftarrow> incident_tasks (se_now env) 3 (findWorkflow J ''code-review-bot'')
       (Some (FailWith ''RateLimitError'' ''429 Too Many Requests: token bucket exhausted'')) 26;
     surge \<leftarrow> incident_tasks (se_now env) 1 None None 95;
     State_Monad.return (base @ spike @ errors @ surge) }"

definition run_task :: "(json \<Rightarrow> string) \<Rightarrow> seed_env \<Rightarrow> task \<Rightarrow> tracer \<Rightarrow> seed_trace \<times> tracer" where
  "run_task J env ta s = (let (t, s') = run_state (makeTrace J env (ta_start ta) (ta_wf ta)) s in (mutate (ta_mutate ta) t, s'))"

subsection \<open>Properties of traces\<close>

text \<open>What the backend needs of the spans of a trace: a tree under the first span, which begins at the given time and covers all the
  others; each failed span with its exception, and no other.\<close>

definition enclosed :: "int \<Rightarrow> otlp_span list \<Rightarrow> bool" where
  "enclosed t0 sps \<longleftrightarrow> sps \<noteq> [] \<and> os_parent (hd sps) = [] \<and> os_start (hd sps) = t0 \<and>
     (\<forall>sp\<in>set sps. os_traceId sp = os_traceId (hd sps) \<and> t0 \<le> os_start sp \<and> os_start sp \<le> os_end sp \<and> os_end sp \<le> os_end (hd sps) \<and>
        (fst (os_status sp) = 2 \<longleftrightarrow> os_events sp \<noteq> None)) \<and>
     (\<forall>k<length sps. 0 < k \<longrightarrow> (\<exists>j<k. os_spanId (sps ! j) = os_parent (sps ! k)))"

text \<open>It is kept by changes that leave identifiers and times alone and keep status and events in step.\<close>

definition same_frame :: "otlp_span \<Rightarrow> otlp_span \<Rightarrow> bool" where
  "same_frame a b \<longleftrightarrow> os_traceId b = os_traceId a \<and> os_spanId b = os_spanId a \<and> os_parent b = os_parent a \<and>
     os_start b = os_start a \<and> os_end b = os_end a \<and>
     ((fst (os_status a) = 2 \<longleftrightarrow> os_events a \<noteq> None) \<longrightarrow> (fst (os_status b) = 2 \<longleftrightarrow> os_events b \<noteq> None))"

lemma enclosed_same_frame:
  assumes "enclosed t0 sps" "list_all2 same_frame sps sps'"
  shows "enclosed t0 sps'"
proof -
  note e = assms(1) [unfolded enclosed_def] and len = list_all2_lengthD [OF assms(2)]
  have nth: "same_frame (sps ! k) (sps' ! k)" if "k < length sps" for k using assms(2) that by (rule list_all2_nthD)
  have ne: "sps \<noteq> []" "sps' \<noteq> []" using e len by auto
  then have hd: "same_frame (hd sps) (hd sps')" using nth [of 0] by (simp add: hd_conv_nth)
  have "os_traceId sp = os_traceId (hd sps') \<and> t0 \<le> os_start sp \<and> os_start sp \<le> os_end sp \<and> os_end sp \<le> os_end (hd sps') \<and>
      (fst (os_status sp) = 2 \<longleftrightarrow> os_events sp \<noteq> None)" if "sp \<in> set sps'" for sp
  proof -
    from that obtain k where k: "k < length sps" "sp = sps' ! k" using len by (metis in_set_conv_nth)
    then have "sps ! k \<in> set sps" by simp
    with e nth [OF k(1)] hd show ?thesis unfolding same_frame_def k(2) by metis
  qed
  moreover have "\<exists>j<k. os_spanId (sps' ! j) = os_parent (sps' ! k)" if k: "k < length sps'" "0 < k" for k
  proof -
    have "k < length sps" using k(1) len by simp
    then obtain j where j: "j < k" "os_spanId (sps ! j) = os_parent (sps ! k)" using e k(2) by blast
    have "same_frame (sps ! j) (sps' ! j)" "same_frame (sps ! k) (sps' ! k)" using nth j(1) k(1) len by simp_all
    then show ?thesis using j unfolding same_frame_def by metis
  qed
  moreover have "os_parent (hd sps') = [] \<and> os_start (hd sps') = t0" using e hd unfolding same_frame_def by metis
  ultimately show ?thesis using ne unfolding enclosed_def by blast
qed

lemma same_frame_refl: "same_frame sp sp"
  by (simp add: same_frame_def)

lemma enclosed_mutate: "enclosed t0 (st_spans t) \<Longrightarrow> enclosed t0 (st_spans (mutate m t))"
proof (induction m t rule: mutate.induct)
  case (2 f t)
  show ?case by (rule enclosed_same_frame [OF 2]) (simp add: scaleTokens_def list.rel_map same_frame_def list_all2_same)
next
  case (3 ty msg t)
  have "list_all2 same_frame sps (fail_first ty msg sps)" for sps
    by (induction sps) (auto simp: same_frame_refl list_all2_same fail_span_def same_frame_def intro!: list.rel_refl)
  then show ?case using enclosed_same_frame [OF 3] by (simp add: forceError_def)
qed simp

text \<open>The first span and the spans of the builder.\<close>

lemma root_span:
  assumes "run_state (State_Monad.bind (newTrace tid t0) (\<lambda>_. T_span J [] name t0 10 p)) s = (rt, s1)" "so_error p = None"
  shows "trace_ok t0 s1 \<and> h_ix rt = 0 \<and> h_id rt \<in> span_ids s1 \<and> length (tr_spans s1) = 1 \<and> tr_traceId s1 = tid \<and>
    os_name (tr_spans s1 ! 0) = name"
proof -
  define s0 where "s0 = s\<lparr>tr_traceId := tid, tr_spans := [], tr_maxEnd := t0, tr_in := None, tr_out := None\<rparr>"
  obtain i x where i: "run_state (hexid 8) s0 = (i, s0\<lparr>tr_rng := x\<rparr>)" using draws_hexid [of 8] by (rule drawsD)
  have "push_span J i [] name t0 10 p (s0\<lparr>tr_rng := x\<rparr>) = (rt, s1)"
    using assms(1) i by (simp add: newTrace_def act_def T_span_def s0_def)
  then show ?thesis using assms(2)
    by (auto simp: push_span_def Let_def s0_def trace_ok_def span_ok_def span_ids_def make_span_def MS_def)
qed

lemma keeps_workflow:
  assumes "wk \<in> set (SEED_WORKFLOWS J)" "h_id rt \<in> K" "t0 \<le> t"
  shows "keeps t0 K (wk_build wk rt t)"
  using assms(1) keeps_builders [OF assms(2,3), of J] unfolding SEED_WORKFLOWS_def by auto

text \<open>Closing the first span over the others.\<close>

lemma close_root:
  assumes "trace_ok t0 s" "e = tr_maxEnd s + g * MS" "0 \<le> g" "h_ix rt = 0"
  shows "enclosed t0 (tr_spans (snd (run_state (State_Monad.bind (setEnd rt e) (\<lambda>_. finish_root rt)) s)))"
proof -
  define sps where "sps = tr_spans s"
  define r where "r = (hd sps)\<lparr>os_end := e, os_attributes := os_attributes (hd sps) @ root_attrs (tr_in s) (tr_out s)\<rparr>"
  have ne: "sps \<noteq> []" using assms(1) by (simp add: trace_ok_def sps_def)
  then have z: "sps ! 0 = hd sps" by (simp add: hd_conv_nth)
  have new: "tr_spans (snd (run_state (State_Monad.bind (setEnd rt e) (\<lambda>_. finish_root rt)) s)) = sps[0 := r]"
    using ne assms(4) by (simp add: setEnd_def finish_root_def act_def sps_def r_def z [unfolded sps_def])
  have ok: "span_ok t0 s k" if "k < length sps" for k using assms(1) that by (simp add: trace_ok_def sps_def)
  have mx: "tr_maxEnd s \<le> e" using assms(2,3) by (simp add: MS_def)
  have ok0: "os_traceId (hd sps) = tr_traceId s" "os_parent (hd sps) = []" "os_start (hd sps) = t0"
    "fst (os_status (hd sps)) = 2 \<longleftrightarrow> os_events (hd sps) \<noteq> None" "t0 \<le> tr_maxEnd s"
    using ok [of 0] ne z assms(1) by (auto simp: span_ok_def Let_def sps_def trace_ok_def)
  have nth: "sps[0 := r] ! k = (if k = 0 then r else sps ! k)" if "k < length sps" for k using that by (cases k) (simp_all add: nth_list_update)
  have hd: "hd (sps[0 := r]) = r" using ne by (cases sps) simp_all
  have "os_traceId sp = os_traceId r \<and> t0 \<le> os_start sp \<and> os_start sp \<le> os_end sp \<and> os_end sp \<le> os_end r \<and>
      (fst (os_status sp) = 2 \<longleftrightarrow> os_events sp \<noteq> None)" if "sp \<in> set (sps[0 := r])" for sp
  proof -
    from that obtain k where k: "k < length sps" "sp = (if k = 0 then r else sps ! k)" by (metis in_set_conv_nth length_list_update nth)
    show ?thesis
    proof (cases "k = 0")
      case False
      then have sp: "sp = sps ! k" using k(2) by simp
      show ?thesis using ok [OF k(1)] mx ok0(1) unfolding sp by (auto simp: span_ok_def Let_def sps_def r_def)
    qed (use k(2) ok0 mx in \<open>simp add: r_def\<close>)
  qed
  moreover have "\<exists>j<k. os_spanId (sps[0 := r] ! j) = os_parent (sps[0 := r] ! k)" if k: "k < length sps" "0 < k" for k
  proof -
    have "\<exists>j<k. os_spanId (sps ! j) = os_parent (sps ! k)" using ok [OF k(1)] k(2) by (simp add: span_ok_def Let_def sps_def)
    then obtain j where j: "j < k" "os_spanId (sps ! j) = os_parent (sps ! k)" by blast
    have "os_spanId (sps[0 := r] ! j) = os_spanId (sps ! j)" using nth [of j] j(1) k(1) z by (simp add: r_def)
    moreover have "sps[0 := r] ! k = sps ! k" using nth [of k] k by simp
    ultimately show ?thesis using j by metis
  qed
  ultimately show ?thesis unfolding new enclosed_def hd using ne ok0 by (simp add: r_def)
qed

lemma build_spans_enclosed:
  assumes "wk \<in> set (SEED_WORKFLOWS J)"
  shows "enclosed t0 (tr_spans (snd (run_state (build_spans J wk tid t0) s))) \<and>
    os_name (hd (tr_spans (snd (run_state (build_spans J wk tid t0) s)))) = wk_workflow wk"
proof -
  let ?p = "no_opts\<lparr>so_op := ''invoke_agent''\<rparr>"
  obtain rt s1 where 1: "run_state (State_Monad.bind (newTrace tid t0) (\<lambda>_. T_span J [] (wk_workflow wk) t0 10 ?p)) s = (rt, s1)" by force
  have r: "trace_ok t0 s1" "h_ix rt = 0" "h_id rt \<in> span_ids s1" "length (tr_spans s1) = 1" "os_name (tr_spans s1 ! 0) = wk_workflow wk"
    using root_span [OF 1] by (simp_all add: no_opts_def)
  obtain g s2 where 2: "run_state (State_Monad.bind (randint 20 120) (\<lambda>g. wk_build wk rt (t0 + g * MS))) s1 = (g, s2)" by force
  have "keeps t0 {h_id rt} (State_Monad.bind (randint 20 120) (\<lambda>g. wk_build wk rt (t0 + g * MS)))"
    by (intro keeps_randint keeps_workflow [OF assms]; simp add: MS_def)
  from spec [OF this [unfolded keeps_def], of s1] r 2
  have s2: "trace_ok t0 s2" "prefix (tr_spans s1) (tr_spans s2)" by simp_all
  obtain g' x where 3: "run_state (randint 10 90) s2 = (g', s2\<lparr>tr_rng := x\<rparr>)" "10 \<le> g' \<and> g' \<le> 90"
    using draws_randint [of 10 90] by (rule drawsD) simp
  define m where "m = State_Monad.bind (setEnd rt (tr_maxEnd s2 + g' * MS)) (\<lambda>_. finish_root rt)"
  have all: "snd (run_state (build_spans J wk tid t0) s) = snd (run_state m (s2\<lparr>tr_rng := x\<rparr>))"
    using 1 2 3 by (simp add: build_spans_def m_def look_def split_beta)
  have "enclosed t0 (tr_spans (snd (run_state m (s2\<lparr>tr_rng := x\<rparr>))))"
    unfolding m_def by (rule close_root [where g = g']) (use s2 3 r(2) in simp_all)
  moreover have "os_name (hd (tr_spans (snd (run_state m (s2\<lparr>tr_rng := x\<rparr>))))) = wk_workflow wk"
  proof -
    have "tr_spans s2 ! 0 = tr_spans s1 ! 0" "tr_spans s2 \<noteq> []" using s2 r(4) by (auto simp: prefix_def nth_append trace_ok_def)
    then show ?thesis using r(2,5) by (cases "tr_spans s2") (simp_all add: m_def setEnd_def finish_root_def act_def)
  qed
  ultimately show ?thesis unfolding all by blast
qed

lemma pools_chosen:
  "draws (\<lambda>wk. wk \<in> set (SEED_WORKFLOWS J)) (weighted (map (\<lambda>w. (w, wk_weight w)) (SEED_WORKFLOWS J)))"
  "draws (\<lambda>ws. ws \<in> set (WORKSPACES wid)) (weighted (map (\<lambda>w. (w, sw_weight w)) (WORKSPACES wid)))"
  "draws (\<lambda>u. u \<in> fst ` set SEED_USERS) (weighted SEED_USERS)"
  "draws (\<lambda>x. x \<in> set REGIONS) (choice REGIONS)" "draws (\<lambda>x. x \<in> set CUSTOMERS) (choice CUSTOMERS)"
  "draws (\<lambda>x. x \<in> set PRIORITIES) (choice PRIORITIES)"
proof -
  have "SEED_WORKFLOWS J \<noteq> []" "WORKSPACES wid \<noteq> []" by (simp_all add: SEED_WORKFLOWS_def WORKSPACES_def)
  then show "draws (\<lambda>wk. wk \<in> set (SEED_WORKFLOWS J)) (weighted (map (\<lambda>w. (w, wk_weight w)) (SEED_WORKFLOWS J)))"
    "draws (\<lambda>ws. ws \<in> set (WORKSPACES wid)) (weighted (map (\<lambda>w. (w, sw_weight w)) (WORKSPACES wid)))"
    using draws_weighted [of "map (\<lambda>w. (w, wk_weight w)) (SEED_WORKFLOWS J)"] draws_weighted [of "map (\<lambda>w. (w, sw_weight w)) (WORKSPACES wid)"]
    by (simp_all add: image_image)
qed ((rule draws_weighted draws_choice, simp add: SEED_USERS_def REGIONS_def CUSTOMERS_def PRIORITIES_def)+)

definition known_workflow :: "(json \<Rightarrow> string) \<Rightarrow> seed_workflow option \<Rightarrow> bool" where
  "known_workflow J w \<longleftrightarrow> (case w of None \<Rightarrow> True | Some wk \<Rightarrow> wk \<in> set (SEED_WORKFLOWS J))"

text \<open>A trace is the spans of a workflow run with the resource and workspace drawn for it, its tokens scaled by its release.\<close>

lemma makeTrace_runs:
  assumes "known_workflow J fw" "run_state (makeTrace J env t0 fw) s = (t, s')"
  obtains wk ws tid x version factor where "wk \<in> set (SEED_WORKFLOWS J)" "ws \<in> set (WORKSPACES (se_workspaceId env))"
    "s' = snd (run_state (build_spans J wk tid t0) (s\<lparr>tr_rng := x\<rparr>))"
    "st_spans t = map (\<lambda>sp. sp\<lparr>os_attributes := map (if factor \<noteq> 1 then scale_attr factor else id) (os_attributes sp)\<rparr>) (tr_spans s')"
    "st_spanCount t = length (tr_spans s')" "st_workspaceId t = sw_id ws"
    "map_option fst (releaseAt (se_now env) (wk_releases wk) t0) = version"
    "\<exists>u r c p. st_resource t = resource_attrs wk u (sw_env ws) r c p version"
    "\<forall>w. fw = Some w \<longrightarrow> w = wk"
proof -
  define pick where "pick = (case fw of Some w \<Rightarrow> State_Monad.return w | None \<Rightarrow> weighted (map (\<lambda>w. (w, wk_weight w)) (SEED_WORKFLOWS J)))"
  have "draws (\<lambda>wk. wk \<in> set (SEED_WORKFLOWS J) \<and> (\<forall>w. fw = Some w \<longrightarrow> w = wk)) pick"
    using assms(1) pools_chosen(1) [of J] by (auto simp: pick_def known_workflow_def draws_return split: option.splits)
  then obtain wk x1 where 1: "run_state pick s = (wk, s\<lparr>tr_rng := x1\<rparr>)" "wk \<in> set (SEED_WORKFLOWS J) \<and> (\<forall>w. fw = Some w \<longrightarrow> w = wk)"
    by (rule drawsD)
  obtain u x2 where 2: "run_state (weighted SEED_USERS) (s\<lparr>tr_rng := x1\<rparr>) = (u, s\<lparr>tr_rng := x1, tr_rng := x2\<rparr>)"
    using pools_chosen(3) by (rule drawsD)
  obtain ws x3 where 3: "run_state (weighted (map (\<lambda>w. (w, sw_weight w)) (WORKSPACES (se_workspaceId env)))) (s\<lparr>tr_rng := x2\<rparr>) =
      (ws, s\<lparr>tr_rng := x2, tr_rng := x3\<rparr>)" "ws \<in> set (WORKSPACES (se_workspaceId env))"
    using pools_chosen(2) by (rule drawsD)
  obtain tid x4 where 4: "run_state (hexid 16) (s\<lparr>tr_rng := x3\<rparr>) = (tid, s\<lparr>tr_rng := x3, tr_rng := x4\<rparr>)"
    using draws_hexid by (rule drawsD)
  obtain r x5 where 5: "run_state (choice REGIONS) (s\<lparr>tr_rng := x4\<rparr>) = (r, s\<lparr>tr_rng := x4, tr_rng := x5\<rparr>)"
    using pools_chosen(4) by (rule drawsD)
  obtain c x6 where 6: "run_state (choice CUSTOMERS) (s\<lparr>tr_rng := x5\<rparr>) = (c, s\<lparr>tr_rng := x5, tr_rng := x6\<rparr>)"
    using pools_chosen(5) by (rule drawsD)
  obtain p x7 where 7: "run_state (choice PRIORITIES) (s\<lparr>tr_rng := x6\<rparr>) = (p, s\<lparr>tr_rng := x6, tr_rng := x7\<rparr>)"
    using pools_chosen(6) by (rule drawsD)
  define rel where "rel = releaseAt (se_now env) (wk_releases wk) t0"
  define factor where "factor = (case rel of Some (_, _, Some f) \<Rightarrow> f | _ \<Rightarrow> 1)"
  define s2 where "s2 = snd (run_state (build_spans J wk tid t0) (s\<lparr>tr_rng := x7\<rparr>))"
  define tr where "tr = \<lparr>st_resource = resource_attrs wk u (sw_env ws) r c p (map_option fst rel), st_spans = tr_spans s2,
    st_spanCount = length (tr_spans s2), st_workspaceId = sw_id ws\<rparr>"
  have "run_state (makeTrace J env t0 fw) s = (if factor \<noteq> 1 then scaleTokens factor tr else tr, s2)"
    using 1(1) 2 3(1) 4 5 6 7
    by (simp add: makeTrace_def pick_def [symmetric] look_def split_beta Let_def rel_def factor_def s2_def tr_def)
  then have t: "t = (if factor \<noteq> 1 then scaleTokens factor tr else tr)" "s' = s2" using assms(2) by simp_all
  show thesis
  proof (rule that)
    show "st_spans t = map (\<lambda>sp. sp\<lparr>os_attributes := map (if factor \<noteq> 1 then scale_attr factor else id) (os_attributes sp)\<rparr>) (tr_spans s')"
      by (simp add: t scaleTokens_def tr_def)
    show "\<exists>u r c p. st_resource t = resource_attrs wk u (sw_env ws) r c p (map_option fst rel)"
      by (intro exI [of _ u] exI [of _ r] exI [of _ c] exI [of _ p]) (simp add: t scaleTokens_def tr_def)
  qed (use 1(2) 3(2) in \<open>simp_all add: t s2_def tr_def scaleTokens_def rel_def\<close>)
qed

lemma mutate_sel [simp]: "st_spanCount (mutate m t) = st_spanCount t" "st_workspaceId (mutate m t) = st_workspaceId t"
  "st_resource (mutate m t) = st_resource t" "length (st_spans (mutate m t)) = length (st_spans t)"
  "map os_name (st_spans (mutate m t)) = map os_name (st_spans t)"
proof -
  have "map os_name (fail_first ty msg sps) = map os_name sps" for ty msg sps by (induction sps) (simp_all add: fail_span_def)
  then show "map os_name (st_spans (mutate m t)) = map os_name (st_spans t)"
    by (cases "(m, t)" rule: mutate.cases) (simp_all add: scaleTokens_def forceError_def)
  from map_eq_imp_length_eq [OF this] show "length (st_spans (mutate m t)) = length (st_spans t)" .
qed (cases "(m, t)" rule: mutate.cases; simp add: scaleTokens_def forceError_def)+

text \<open>C10. Every trace that the seeder makes is a well-formed tree: whatever the random numbers, for each workflow and each
  injected incident, the spans of the trace hang under one first span of the workflow's name, parents come before their
  children, times are in order and inside the first span, which begins at the start of the task, and exactly the failed spans
  carry an exception; the trace belongs to one of the workspaces.\<close>

theorem seeded_trace_enclosed:
  assumes "known_workflow J (ta_wf ta)" "run_task J env ta s = (t, s')"
  shows "enclosed (ta_start ta) (st_spans t) \<and> st_spanCount t = length (st_spans t) \<and>
    os_name (hd (st_spans t)) \<in> wk_workflow ` set (SEED_WORKFLOWS J) \<and>
    (\<forall>wk. ta_wf ta = Some wk \<longrightarrow> os_name (hd (st_spans t)) = wk_workflow wk) \<and>
    st_workspaceId t \<in> sw_id ` set (WORKSPACES (se_workspaceId env))"
proof -
  obtain u where u: "run_state (makeTrace J env (ta_start ta) (ta_wf ta)) s = (u, s')" "t = mutate (ta_mutate ta) u"
    using assms(2) by (auto simp: run_task_def Let_def split_beta prod_eq_iff)
  obtain wk ws tid x factor where w: "wk \<in> set (SEED_WORKFLOWS J)" "ws \<in> set (WORKSPACES (se_workspaceId env))"
    "s' = snd (run_state (build_spans J wk tid (ta_start ta)) (s\<lparr>tr_rng := x\<rparr>))"
    "st_spans u = map (\<lambda>sp. sp\<lparr>os_attributes := map (if factor \<noteq> 1 then scale_attr factor else id) (os_attributes sp)\<rparr>) (tr_spans s')"
    "st_spanCount u = length (tr_spans s')" "st_workspaceId u = sw_id ws" "\<forall>w. ta_wf ta = Some w \<longrightarrow> w = wk"
    by (rule makeTrace_runs [OF assms(1) u(1)])
  have b: "enclosed (ta_start ta) (tr_spans s')" "os_name (hd (tr_spans s')) = wk_workflow wk"
    using build_spans_enclosed [OF w(1)] w(3) by simp_all
  have "enclosed (ta_start ta) (st_spans u)"
    by (rule enclosed_same_frame [OF b(1)]) (simp add: w(4) list.rel_map same_frame_def list_all2_same)
  then have e: "enclosed (ta_start ta) (st_spans t)" unfolding u(2) by (rule enclosed_mutate)
  have ne: "tr_spans s' \<noteq> []" "st_spans u \<noteq> []" "st_spans t \<noteq> []" using b(1) e w(4) by (auto simp: enclosed_def)
  have "hd (map os_name (st_spans t)) = hd (map os_name (st_spans u))" by (simp add: u(2))
  then have "os_name (hd (st_spans t)) = os_name (hd (st_spans u))" using ne by (simp add: hd_map)
  also have "\<dots> = wk_workflow wk" using b(2) ne by (simp add: w(4) hd_map)
  finally have nm: "os_name (hd (st_spans t)) = wk_workflow wk" .
  show ?thesis using e nm w by (auto simp: u(2))
qed

definition idle_tracer :: tracer where
  "idle_tracer = \<lparr>tr_rng = 42, tr_traceId = [], tr_spans = [], tr_maxEnd = 0, tr_in = None, tr_out = None\<rparr>"

definition local_env :: seed_env where
  "local_env = \<lparr>se_otlp = ''http://localhost:4318/v1/traces'', se_api = ''http://localhost:8090'', se_email = ''demo@tracium.ai'',
     se_password = ''tracium-demo-1234'', se_workspaceId = ''c4ef3026-f040-4221-ad58-d6345dd4570c'', se_nTraces = 1400,
     se_now = 1700000000000000000\<rparr>"

definition surge_task :: task where
  "surge_task = \<lparr>ta_start = 1600000000000000000, ta_wf = None, ta_mutate = Some (ScaleBy 9)\<rparr>"

theorem seeded_trace_enclosed_witness:
  "enclosed 1600000000000000000 (st_spans (fst (run_task (\<lambda>_. ''{}'') local_env surge_task idle_tracer)))"
proof -
  have "known_workflow (\<lambda>_. ''{}'') (ta_wf surge_task)" by (simp add: known_workflow_def surge_task_def)
  from seeded_trace_enclosed [OF this prod.collapse [symmetric], of local_env idle_tracer] show ?thesis by (simp add: surge_task_def)
qed

subsection \<open>Properties of the schedule\<close>

definition scheduled :: "(json \<Rightarrow> string) \<Rightarrow> int \<Rightarrow> task \<Rightarrow> bool" where
  "scheduled J now ta \<longleftrightarrow> known_workflow J (ta_wf ta) \<and>
     (\<exists>d w. 0 \<le> d \<and> d < HISTORY_DAYS \<and> 0 \<le> w \<and> w < DAY_NS \<and> ta_start ta = dayStartNs now d + w)"

lemma draws_withinDay: "draws (\<lambda>w. 0 \<le> w \<and> w < DAY_NS) withinDay"
  unfolding withinDay_def
proof (rule draws_bind [OF draws_randint])
  fix n :: int assume "0 \<le> n \<and> n \<le> 23 * 3600 + 3540"
  then show "draws (\<lambda>w. 0 \<le> w \<and> w < DAY_NS) (State_Monad.return (n * NS))"
    by (intro draws_return) (simp add: DAY_NS_def NS_def)
qed simp

lemma draws_dayPicker: "draws (\<lambda>d. 0 \<le> d \<and> d < HISTORY_DAYS) (weighted (dayPicker now))"
proof -
  have "dayPicker now \<noteq> []" by (simp add: dayPicker_def HISTORY_DAYS_def)
  from draws_weighted [OF this] show ?thesis by (rule draws_weaken) (auto simp: dayPicker_def)
qed

lemma draws_baseline: "draws (\<lambda>ts. length ts = n \<and> (\<forall>ta\<in>set ts. scheduled J now ta)) (baseline_tasks now n)"
proof (induction n)
  case (Suc n)
  show ?case unfolding baseline_tasks.simps
    by (rule draws_bind [OF draws_dayPicker], rule draws_bind [OF draws_withinDay], rule draws_bind [OF Suc.IH], rule draws_return)
      (auto simp: scheduled_def known_workflow_def)
qed (simp add: draws_return)

lemma draws_incident:
  assumes "known_workflow J wk" "0 \<le> d" "d < HISTORY_DAYS"
  shows "draws (\<lambda>ts. length ts = n \<and> (\<forall>ta\<in>set ts. scheduled J now ta)) (incident_tasks now d wk m n)"
proof (induction n)
  case (Suc n)
  show ?case unfolding incident_tasks.simps
    by (rule draws_bind [OF draws_withinDay], rule draws_bind [OF Suc.IH], rule draws_return)
      (use assms in \<open>auto simp: scheduled_def\<close>)
qed (simp add: draws_return)

lemma find_known: "known_workflow J (findWorkflow J nm)"
  by (auto simp: known_workflow_def findWorkflow_def SEED_WORKFLOWS_def)

lemma draws_all_tasks:
  "draws (\<lambda>ts. length ts = se_nTraces env + 141 \<and> (\<forall>ta\<in>set ts. scheduled J (se_now env) ta)) (all_tasks J env)"
  unfolding all_tasks_def
  by (rule draws_bind [OF draws_baseline [where J = J]], (rule draws_bind [OF draws_incident [OF find_known]], simp, simp add: HISTORY_DAYS_def)+,
      rule draws_bind [OF draws_incident [where J = J]])
    (auto simp: known_workflow_def HISTORY_DAYS_def intro!: draws_return)

text \<open>The days between a scheduled start and now.\<close>

lemma scheduled_days:
  assumes "scheduled J now ta" "0 \<le> now"
  shows "now - HISTORY_DAYS * DAY_NS < ta_start ta" "ta_start ta < dayStartNs now 0 + DAY_NS" "big_div (now - ta_start ta) DAY_NS < HISTORY_DAYS"
proof -
  obtain d w where dw: "0 \<le> d" "d < HISTORY_DAYS" "0 \<le> w" "w < DAY_NS" "ta_start ta = dayStartNs now d + w"
    using assms(1) by (auto simp: scheduled_def)
  have D: "0 < DAY_NS" by (simp add: DAY_NS_def NS_def)
  define q where "q = now div DAY_NS"
  have q: "q * DAY_NS \<le> now" "now < q * DAY_NS + DAY_NS"
    using D pos_mod_sign [OF D, of now] pos_mod_bound [OF D, of now] div_mult_mod_eq [of now DAY_NS] by (simp_all only: q_def)
  have start: "ta_start ta = (q - d) * DAY_NS + w" "dayStartNs now 0 = q * DAY_NS"
    using dw(5) assms(2) by (simp_all add: dayStartNs_def big_div_def q_def sgn_if)
  have "d * DAY_NS \<le> (HISTORY_DAYS - 1) * DAY_NS" "0 \<le> d * DAY_NS" using dw D by (simp_all add: mult_right_mono)
  then show b: "now - HISTORY_DAYS * DAY_NS < ta_start ta" and "ta_start ta < dayStartNs now 0 + DAY_NS"
    unfolding start left_diff_distrib using q dw(3,4) by linarith+
  show "big_div (now - ta_start ta) DAY_NS < HISTORY_DAYS"
  proof (cases "now - ta_start ta > 0")
    case True
    define x where "x = now - ta_start ta"
    have "x div DAY_NS * DAY_NS \<le> x" using pos_mod_sign [OF D, of x] div_mult_mod_eq [of x DAY_NS] by linarith
    then have "x div DAY_NS * DAY_NS < HISTORY_DAYS * DAY_NS" using b by (simp add: x_def)
    then have "x div DAY_NS < HISTORY_DAYS" using D mult_less_cancel_right_pos by blast
    then have "(now - ta_start ta) div DAY_NS < HISTORY_DAYS" by (simp add: x_def)
    then show ?thesis using True by (simp add: big_div_def)
  next
    case False
    then have "big_div (now - ta_start ta) DAY_NS \<le> 0" using D by (simp add: big_div_def sgn_if pos_imp_zdiv_nonneg_iff)
    then show ?thesis by (simp add: HISTORY_DAYS_def)
  qed
qed

lemma releaseAt_some: "(\<exists>r\<in>set rs. fst (snd r) \<ge> big_div (now - st) DAY_NS) \<Longrightarrow> releaseAt now rs st \<noteq> None"
  by (simp add: releaseAt_def Let_def filter_empty_conv split_beta del: not_None_eq)

text \<open>The schedule fills the history: the seeder makes the configured number of traces and 141 for its incidents, all of known
  workflows and within the 42 days up to the end of the current day, and at those times every workflow has a version, except
  the research assistant.\<close>

theorem seeded_history:
  assumes "run_state (all_tasks J env) s = (tasks, s')" "0 \<le> se_now env"
  shows "length tasks = se_nTraces env + 141 \<and>
    (\<forall>ta\<in>set tasks. known_workflow J (ta_wf ta) \<and>
       se_now env - HISTORY_DAYS * DAY_NS < ta_start ta \<and> ta_start ta < dayStartNs (se_now env) 0 + DAY_NS \<and>
       (\<forall>wk\<in>set (SEED_WORKFLOWS J). wk_workflow wk \<noteq> ''research-assistant'' \<longrightarrow>
          releaseAt (se_now env) (wk_releases wk) (ta_start ta) \<noteq> None))"
proof -
  have "length tasks = se_nTraces env + 141 \<and> (\<forall>ta\<in>set tasks. scheduled J (se_now env) ta)"
    using drawsD [OF draws_all_tasks [of env J], of s] assms(1) by (metis prod.inject)
  moreover have "releaseAt (se_now env) (wk_releases wk) (ta_start ta) \<noteq> None"
    if ta: "scheduled J (se_now env) ta" and wk: "wk \<in> set (SEED_WORKFLOWS J)" "wk_workflow wk \<noteq> ''research-assistant''" for ta wk
  proof (rule releaseAt_some)
    have "\<exists>r\<in>set (wk_releases wk). fst (snd r) = 42" using wk by (auto simp: SEED_WORKFLOWS_def)
    then show "\<exists>r\<in>set (wk_releases wk). big_div (se_now env - ta_start ta) DAY_NS \<le> fst (snd r)"
      using scheduled_days(3) [OF ta assms(2)] by (force simp: HISTORY_DAYS_def)
  qed
  ultimately show ?thesis using scheduled_days(1,2) [OF _ assms(2)] unfolding scheduled_def by blast
qed

theorem seeded_history_witness:
  "length (fst (run_state (all_tasks (\<lambda>_. ''{}'') local_env) idle_tracer)) = 1541"
  using seeded_history [OF prod.collapse [symmetric], of local_env "\<lambda>_. ''{}''" idle_tracer] by (simp add: local_env_def)

text \<open>The workspace is not among the attributes sent.\<close>

lemma no_workspace_attribute: "a \<in> set (resource_attrs wk u e r c p v) \<Longrightarrow> at_key a \<noteq> ''tracium.workspace.id''"
  by (auto simp: resource_attrs_def kv_def split: option.splits if_splits)

text \<open>The start of a trace of the current day can lie in the future: a time of the day is drawn without regard to the time now.\<close>

lemma scheduled_in_future:
  assumes "0 \<le> now" "now mod DAY_NS < w"
  shows "now < dayStartNs now 0 + w"
proof -
  have "dayStartNs now 0 = now - now mod DAY_NS"
    using assms(1) by (simp add: dayStartNs_def big_div_def sgn_if minus_mod_eq_div_mult)
  then show ?thesis using assms(2) by simp
qed

end
