(* ===== verification/Seed_Send.thy ===== *)
theory Seed_Send
  imports Seed_Run Api_Client
begin

text \<open>
  The network part of the seeding scripts: \<open>scripts/seed.mjs\<close> mints a key for each workspace and sends the traces in
  batches; \<open>scripts/seed-account.mjs\<close> prepares the account. The network is a parameter \<open>net\<close> over a world of its own: a request
  is rejected (\<open>Inl\<close>) or answered, and an exception ends the script with its message (\<open>Inl\<close>).
\<close>

subsection \<open>The network\<close>

text \<open>The body of a request: a JSON value, or resource spans with the attributes of their resource.\<close>

datatype seed_body = NoBody | JsonBody json | SpansBody "(attribute list \<times> otlp_span list) list"

record seed_request =
  rq_method :: string
  rq_url :: string
  rq_headers :: "(string \<times> string) list"
  rq_body :: seed_body

record seed_response =
  rp_status :: int
  rp_text :: string
  rp_json :: "json option"

type_synonym ('w, 'a) net_io = "'w \<Rightarrow> (string + 'a) \<times> 'w"

type_synonym 'w net = "seed_request \<Rightarrow> ('w, seed_response) net_io"

definition rp_ok :: "seed_response \<Rightarrow> bool" where
  "rp_ok r \<longleftrightarrow> 200 \<le> rp_status r \<and> rp_status r \<le> 299"

definition io_return :: "'a \<Rightarrow> ('w, 'a) net_io" where
  "io_return a w = (Inr a, w)"

definition io_throw :: "string \<Rightarrow> ('w, 'a) net_io" where
  "io_throw e w = (Inl e, w)"

definition io_bind :: "('w, 'a) net_io \<Rightarrow> ('a \<Rightarrow> ('w, 'b) net_io) \<Rightarrow> ('w, 'b) net_io" where
  "io_bind m f w = (case m w of (Inl e, w') \<Rightarrow> (Inl e, w') | (Inr a, w') \<Rightarrow> f a w')"

text \<open>A value in a template: \<open>Str\<close> is \<open>String\<close> on what is no string. A body that is not JSON and a property of \<open>null\<close> throw.\<close>

definition in_template :: "(json \<Rightarrow> string) \<Rightarrow> json option \<Rightarrow> string" where
  "in_template Str v = (case v of None \<Rightarrow> ''undefined'' | Some (JStr s) \<Rightarrow> s | Some j \<Rightarrow> Str j)"

definition body_json :: "seed_response \<Rightarrow> ('w, json) net_io" where
  "body_json r = (case rp_json r of None \<Rightarrow> io_throw ''SyntaxError'' | Some j \<Rightarrow> io_return j)"

definition prop_of :: "json \<Rightarrow> string \<Rightarrow> ('w, json option) net_io" where
  "prop_of j k = (case json_field j k of None \<Rightarrow> io_throw ''TypeError'' | Some v \<Rightarrow> io_return v)"

definition bearer :: "string \<Rightarrow> (string \<times> string) list" where
  "bearer token = [(''Authorization'', ''Bearer '' @ token), (''Content-Type'', ''application/json'')]"

subsection \<open>Keys of the workspaces\<close>

definition credentials :: "seed_env \<Rightarrow> string \<Rightarrow> seed_request" where
  "credentials env path = \<lparr>rq_method = ''POST'', rq_url = se_api env @ ''/v1/auth/'' @ path,
     rq_headers = [(''Content-Type'', ''application/json'')],
     rq_body = JsonBody (JObj [(''email'', JStr (se_email env)), (''password'', JStr (se_password env))])\<rparr>"

definition authenticate :: "'w net \<Rightarrow> seed_env \<Rightarrow> ('w, json option) net_io" where
  "authenticate net env =
     io_bind (net (credentials env ''register'')) (\<lambda>res.
     io_bind (if rp_status res = 409 then net (credentials env ''login'') else io_return res) (\<lambda>res.
     if \<not> rp_ok res then io_throw (''auth failed ('' @ int_str (rp_status res) @ ''): '' @ rp_text res)
     else io_bind (body_json res) (\<lambda>j. prop_of j ''token'')))"

definition SEED_KEY_NAME :: string where
  "SEED_KEY_NAME = ''seed''"

definition keys_url :: "seed_env \<Rightarrow> seed_workspace \<Rightarrow> string" where
  "keys_url env ws = se_api env @ ''/v1/workspaces/'' @ sw_id ws @ ''/api-keys''"

definition keys_request :: "seed_env \<Rightarrow> string \<Rightarrow> seed_workspace \<Rightarrow> string \<Rightarrow> string \<Rightarrow> seed_body \<Rightarrow> seed_request" where
  "keys_request env token ws method rest body =
     \<lparr>rq_method = method, rq_url = keys_url env ws @ rest, rq_headers = bearer token, rq_body = body\<rparr>"

text \<open>The keys of an earlier run that are still valid are revoked; the answers to that are not looked at.\<close>

fun revoke_old :: "'w net \<Rightarrow> (json \<Rightarrow> string) \<Rightarrow> seed_env \<Rightarrow> string \<Rightarrow> seed_workspace \<Rightarrow> json list \<Rightarrow> ('w, unit) net_io" where
  "revoke_old net Str env token ws [] = io_return ()"
| "revoke_old net Str env token ws (k # ks) =
     io_bind (prop_of k ''name'') (\<lambda>name.
     io_bind (if name = Some (JStr SEED_KEY_NAME) then prop_of k ''revoked_at'' else io_return (Some (JBool True))) (\<lambda>revoked.
     io_bind (if name = Some (JStr SEED_KEY_NAME) \<and> \<not> json_truthy revoked
              then io_bind (prop_of k ''id'') (\<lambda>i.
                io_bind (net (keys_request env token ws ''DELETE'' (''/'' @ in_template Str i) NoBody)) (\<lambda>_. io_return ()))
              else io_return ()) (\<lambda>_.
     revoke_old net Str env token ws ks)))"

definition provision_key :: "'w net \<Rightarrow> (json \<Rightarrow> string) \<Rightarrow> seed_env \<Rightarrow> string \<Rightarrow> seed_workspace \<Rightarrow> ('w, json option) net_io" where
  "provision_key net Str env token ws =
     io_bind (net (keys_request env token ws ''GET'' [] NoBody)) (\<lambda>listRes.
     if rp_status listRes = 403 \<or> rp_status listRes = 404
     then io_throw (''workspace '' @ sw_name ws @ '' ('' @ sw_id ws @ '') not accessible as '' @ se_email env @ '' '' @ em_dash @
       '' run `npm run seed:account` first'')
     else if \<not> rp_ok listRes then io_throw (''list keys failed ('' @ int_str (rp_status listRes) @ ''): '' @ rp_text listRes)
     else io_bind (body_json listRes) (\<lambda>ks.
     io_bind (case ks of JArr xs \<Rightarrow> revoke_old net Str env token ws xs | _ \<Rightarrow> io_throw ''TypeError'') (\<lambda>_.
     io_bind (net (keys_request env token ws ''POST'' [] (JsonBody (JObj [(''name'', JStr SEED_KEY_NAME)])))) (\<lambda>createRes.
     if \<not> rp_ok createRes then io_throw (''create key failed ('' @ int_str (rp_status createRes) @ ''): '' @ rp_text createRes)
     else io_bind (body_json createRes) (\<lambda>created.
     io_bind (prop_of created ''token'') (\<lambda>t.
     io_bind (prop_of created ''key'') (\<lambda>key.
     io_bind (case key of None \<Rightarrow> io_throw ''TypeError'' | Some k \<Rightarrow> prop_of k ''prefix'') (\<lambda>_. io_return t))))))))"

fun provisionKeys ::
  "'w net \<Rightarrow> (json \<Rightarrow> string) \<Rightarrow> seed_env \<Rightarrow> string \<Rightarrow> (string, json option) jsmap \<Rightarrow> seed_workspace list \<Rightarrow>
    ('w, (string, json option) jsmap) net_io" where
  "provisionKeys net Str env token keys [] = io_return keys"
| "provisionKeys net Str env token keys (ws # wss) =
     io_bind (provision_key net Str env token ws) (\<lambda>t. provisionKeys net Str env token (jm_set (sw_id ws) t keys) wss)"

subsection \<open>Sending\<close>

definition wire :: "seed_trace \<Rightarrow> attribute list \<times> otlp_span list" where
  "wire t = (st_resource t, st_spans t)"

definition post_request :: "seed_env \<Rightarrow> seed_trace list \<Rightarrow> string \<Rightarrow> seed_request" where
  "post_request env traces token = \<lparr>rq_method = ''POST'', rq_url = se_otlp env,
     rq_headers = [(''Content-Type'', ''application/json''), (''Authorization'', ''Bearer '' @ token)], rq_body = SpansBody (map wire traces)\<rparr>"

definition post :: "'w net \<Rightarrow> seed_env \<Rightarrow> seed_trace list \<Rightarrow> string \<Rightarrow> ('w, int) net_io" where
  "post net env traces token =
     io_bind (net (post_request env traces token)) (\<lambda>res.
     if \<not> rp_ok res then io_throw (''OTLP '' @ int_str (rp_status res) @ '': '' @ rp_text res) else io_return (rp_status res))"

definition by_ws :: "seed_trace list \<Rightarrow> (string, seed_trace list) jsmap" where
  "by_ws batch = foldl (\<lambda>m t. jm_set (st_workspaceId t) (nullish (jm_get m (st_workspaceId t)) [] @ [t]) m) [] batch"

fun post_groups ::
  "'w net \<Rightarrow> (json \<Rightarrow> string) \<Rightarrow> seed_env \<Rightarrow> (string, json option) jsmap \<Rightarrow> (string \<times> seed_trace list) list \<Rightarrow> ('w, unit) net_io" where
  "post_groups net Str env keys [] = io_return ()"
| "post_groups net Str env keys ((wsId, grp) # gs) =
     io_bind (post net env grp (in_template Str (Option.bind (jm_get keys wsId) id))) (\<lambda>_. post_groups net Str env keys gs)"

definition flush :: "'w net \<Rightarrow> (json \<Rightarrow> string) \<Rightarrow> seed_env \<Rightarrow> (string, json option) jsmap \<Rightarrow> seed_trace list \<Rightarrow> ('w, unit) net_io" where
  "flush net Str env keys batch = (if batch = [] then io_return () else post_groups net Str env keys (by_ws batch))"

text \<open>The loop over the tasks, with the batch under way and the numbers of traces sent and of spans built.\<close>

fun send_tasks ::
  "'w net \<Rightarrow> (json \<Rightarrow> string) \<Rightarrow> (json \<Rightarrow> string) \<Rightarrow> seed_env \<Rightarrow> (string, json option) jsmap \<Rightarrow> task list \<Rightarrow> tracer \<Rightarrow>
    seed_trace list \<Rightarrow> nat \<Rightarrow> nat \<Rightarrow> ('w, nat \<times> nat) net_io" where
  "send_tasks net J Str env keys [] s batch sent spans =
     io_bind (flush net Str env keys batch) (\<lambda>_. io_return (sent + length batch, spans))"
| "send_tasks net J Str env keys (ta # tas) s batch sent spans =
     (let (t, s') = run_task J env ta s; batch' = batch @ [t]; spans' = spans + st_spanCount t in
      if length batch' \<ge> 30
      then io_bind (flush net Str env keys batch') (\<lambda>_. send_tasks net J Str env keys tas s' [] (sent + length batch') spans')
      else send_tasks net J Str env keys tas s' batch' sent spans')"

definition seed_main :: "'w net \<Rightarrow> (json \<Rightarrow> string) \<Rightarrow> (json \<Rightarrow> string) \<Rightarrow> seed_env \<Rightarrow> tracer \<Rightarrow> ('w, nat \<times> nat) net_io" where
  "seed_main net J Str env s =
     (let (tasks, s') = run_state (all_tasks J env) s in
      io_bind (authenticate net env) (\<lambda>token.
      io_bind (provisionKeys net Str env (in_template Str token) [] (WORKSPACES (se_workspaceId env))) (\<lambda>keys.
      send_tasks net J Str env keys tasks s' [] 0 0)))"

subsection \<open>The account (seed-account.mjs)\<close>

fun double_quotes :: "string \<Rightarrow> string" where
  "double_quotes [] = []"
| "double_quotes (c # cs) = (if c = CHR 0x27 then [CHR 0x27, CHR 0x27] else [c]) @ double_quotes cs"

definition sqlLiteral :: "string \<Rightarrow> string" where
  "sqlLiteral s = [CHR 0x27] @ double_quotes s @ [CHR 0x27]"

definition workspace_sql :: "string \<Rightarrow> seed_workspace \<Rightarrow> string" where
  "workspace_sql userId ws =
     ''INSERT INTO workspaces (id, user_id, name, slug, env, role, members)
       VALUES ('' @ sqlLiteral (sw_id ws) @ '', '' @ sqlLiteral userId @ '', '' @ sqlLiteral (sw_name ws) @ '',
               '' @ sqlLiteral (sw_slug ws) @ '', '' @ sqlLiteral (sw_env ws) @ '', '' @ sqlLiteral ''Owner'' @ '', 1)
       ON CONFLICT (id) DO UPDATE
         SET user_id = EXCLUDED.user_id, name = EXCLUDED.name,
             slug = EXCLUDED.slug, env = EXCLUDED.env;''"

definition member_sql :: "string \<Rightarrow> seed_workspace \<Rightarrow> string" where
  "member_sql userId ws =
     ''INSERT INTO workspace_members (workspace_id, user_id, role)
       VALUES ('' @ sqlLiteral (sw_id ws) @ '', '' @ sqlLiteral userId @ '', '' @ sqlLiteral ''owner'' @ '')
       ON CONFLICT (workspace_id, user_id) DO UPDATE SET role = '' @ sqlLiteral ''owner'' @ '';''"

text \<open>The statements that the script runs for an account, in order.\<close>

definition account_sql :: "string \<Rightarrow> string \<Rightarrow> string list" where
  "account_sql wid userId = concat (map (\<lambda>ws. [workspace_sql userId ws, member_sql userId ws]) (WORKSPACES wid))"

subsection \<open>Every trace is sent once\<close>

text \<open>A network that notes the requests made, also those that are rejected.\<close>

definition recording :: "'w net \<Rightarrow> ('w \<times> seed_request list) net" where
  "recording net rq = (\<lambda>(w, lg). case net rq w of (r, w') \<Rightarrow> (r, w', lg @ [rq]))"

text \<open>The traces that the tasks make, in order.\<close>

fun made :: "(json \<Rightarrow> string) \<Rightarrow> seed_env \<Rightarrow> task list \<Rightarrow> tracer \<Rightarrow> seed_trace list" where
  "made J env [] s = []"
| "made J env (ta # tas) s = (let (t, s') = run_task J env ta s in t # made J env tas s')"

lemma made_length [simp]: "length (made J env tas s) = length tas"
  by (induction tas arbitrary: s) (simp_all add: Let_def split_beta)

lemma jm_push_mset:
  "mset (concat (map snd (jm_set k (nullish (jm_get m k) [] @ [t]) m))) = mset (concat (map snd m)) + {#t#}"
  by (induction m) (auto simp: nullish_def split: option.splits)

lemma by_ws_snoc: "by_ws (b @ [t]) = jm_set (st_workspaceId t) (nullish (jm_get (by_ws b) (st_workspaceId t)) [] @ [t]) (by_ws b)"
  by (simp add: by_ws_def)

lemma by_ws_mset: "mset (concat (map snd (by_ws batch))) = mset batch"
proof (induction batch rule: rev_induct)
  case (snoc t b)
  show ?case unfolding by_ws_snoc jm_push_mset snoc.IH by simp
qed (simp add: by_ws_def)

lemma by_ws_groups:
  assumes "(wid, grp) \<in> set (by_ws batch)"
  shows "grp \<noteq> [] \<and> (\<forall>t\<in>set grp. st_workspaceId t = wid)"
proof -
  have set_mem: "(k', v') \<in> set (jm_set k v m) \<Longrightarrow> (k' = k \<and> v' = v) \<or> (k', v') \<in> set m" for k v k' v' and m :: "(string, seed_trace list) jsmap"
    by (induction m) (auto split: if_splits)
  show ?thesis using assms
  proof (induction batch arbitrary: wid grp rule: rev_induct)
    case (snoc t b)
    show ?case
    proof (cases "(wid, grp) \<in> set (by_ws b)")
      case False
      then have g: "wid = st_workspaceId t" "grp = nullish (jm_get (by_ws b) (st_workspaceId t)) [] @ [t]"
        using set_mem snoc.prems unfolding by_ws_snoc by blast+
      show ?thesis
      proof (cases "jm_get (by_ws b) wid")
        case (Some old)
        then have "\<forall>u\<in>set old. st_workspaceId u = wid" using snoc.IH jm_get_in_set by metis
        then show ?thesis using Some g by (auto simp: nullish_def)
      qed (use g in \<open>simp add: nullish_def\<close>)
    qed (use snoc.IH in blast)
  qed (simp add: by_ws_def)
qed

lemma by_ws_length: "(wid, grp) \<in> set (by_ws batch) \<Longrightarrow> length grp \<le> length batch"
proof -
  have "(wid, grp) \<in> set m \<Longrightarrow> length grp \<le> length (concat (map snd m))" for m :: "(string, seed_trace list) jsmap"
    by (induction m) auto
  moreover have "length (concat (map snd (by_ws batch))) = length batch" by (rule mset_eq_length [OF by_ws_mset])
  ultimately show "(wid, grp) \<in> set (by_ws batch) \<Longrightarrow> length grp \<le> length batch" by metis
qed

definition sent_as :: "(json \<Rightarrow> string) \<Rightarrow> seed_env \<Rightarrow> (string, json option) jsmap \<Rightarrow> string \<times> seed_trace list \<Rightarrow> seed_request" where
  "sent_as Str env keys = (\<lambda>(wid, grp). post_request env grp (in_template Str (Option.bind (jm_get keys wid) id)))"

definition one_workspace :: "string \<times> seed_trace list \<Rightarrow> bool" where
  "one_workspace g \<longleftrightarrow> snd g \<noteq> [] \<and> length (snd g) \<le> 30 \<and> (\<forall>t\<in>set (snd g). st_workspaceId t = fst g)"

lemma post_groups_log:
  assumes "post_groups (recording net) Str env keys gs (w, lg) = (r, w', lg')"
  shows "\<exists>k\<le>length gs. lg' = lg @ map (sent_as Str env keys) (take k gs) \<and> (r = Inr () \<longrightarrow> k = length gs)"
  using assms
proof (induction gs arbitrary: w lg)
  case (Cons g gs)
  obtain wid grp where g: "g = (wid, grp)" by force
  define rq where "rq = sent_as Str env keys g"
  obtain a w1 where a: "net rq w = (a, w1)" by force
  have rec: "recording net rq (w, lg) = (a, w1, lg @ [rq])" using a by (simp add: recording_def)
  have req: "post_request env grp (in_template Str (Option.bind (jm_get keys wid) id)) = rq" by (simp add: rq_def sent_as_def g)
  show ?case
  proof (cases "\<exists>res. a = Inr res \<and> rp_ok res")
    case True
    then have "post_groups (recording net) Str env keys gs (w1, lg @ [rq]) = (r, w', lg')"
      using Cons.prems rec by (auto simp: g post_def io_bind_def io_return_def req)
    from Cons.IH [OF this] obtain k where "k \<le> length gs" "lg' = lg @ [rq] @ map (sent_as Str env keys) (take k gs)"
      "r = Inr () \<longrightarrow> k = length gs" by auto
    then show ?thesis by (intro exI [of _ "Suc k"]) (simp add: rq_def)
  next
    case False
    then have "lg' = lg @ [rq]" "r \<noteq> Inr ()"
      using Cons.prems rec by (auto simp: g post_def io_bind_def io_throw_def req split: sum.splits if_splits)
    then show ?thesis by (intro exI [of _ 1]) (simp add: rq_def)
  qed
qed (simp add: io_return_def)

lemma flush_log:
  assumes "flush (recording net) Str env keys batch (w, lg) = (r, w', lg')" "length batch \<le> 30"
  shows "\<exists>gs. lg' = lg @ map (sent_as Str env keys) gs \<and> (\<forall>g\<in>set gs. one_workspace g) \<and>
    mset (concat (map snd gs)) \<subseteq># mset batch \<and> (r = Inr () \<longrightarrow> mset (concat (map snd gs)) = mset batch)"
proof (cases "batch = []")
  case True
  then show ?thesis using assms(1) by (intro exI [of _ "[]"]) (simp add: flush_def io_return_def)
next
  case False
  then have "post_groups (recording net) Str env keys (by_ws batch) (w, lg) = (r, w', lg')" using assms(1) by (simp add: flush_def)
  from post_groups_log [OF this] obtain k where k: "k \<le> length (by_ws batch)"
    "lg' = lg @ map (sent_as Str env keys) (take k (by_ws batch))" "r = Inr () \<longrightarrow> k = length (by_ws batch)" by blast
  have "mset (concat (map snd (take k (by_ws batch)))) \<subseteq># mset (concat (map snd (by_ws batch)))"
    by (metis append_take_drop_id concat_append map_append mset_append mset_subset_eq_add_left)
  moreover have "one_workspace g" if "g \<in> set (take k (by_ws batch))" for g
    using in_set_takeD [OF that] by_ws_groups [of "fst g" "snd g" batch] by_ws_length [of "fst g" "snd g" batch] assms(2)
    by (simp add: one_workspace_def)
  ultimately show ?thesis using k by (intro exI [of _ "take k (by_ws batch)"]) (auto simp: by_ws_mset)
qed

lemma send_tasks_log:
  assumes "send_tasks (recording net) J Str env keys tas s batch sent spans (w, lg) = (r, w', lg')" "length batch < 30"
  shows "\<exists>gs. lg' = lg @ map (sent_as Str env keys) gs \<and> (\<forall>g\<in>set gs. one_workspace g) \<and>
    mset (concat (map snd gs)) \<subseteq># mset (batch @ made J env tas s) \<and>
    (\<forall>n m. r = Inr (n, m) \<longrightarrow> mset (concat (map snd gs)) = mset (batch @ made J env tas s) \<and>
       n = sent + length batch + length tas \<and> m = spans + sum_list (map st_spanCount (made J env tas s)))"
  using assms
proof (induction tas arbitrary: s batch sent spans w lg)
  case Nil
  obtain b w1 lg1 where b: "flush (recording net) Str env keys batch (w, lg) = (b, w1, lg1)" by (metis prod_cases3)
  have r: "(r, w', lg') = (case b of Inl e \<Rightarrow> Inl e | Inr _ \<Rightarrow> Inr (sent + length batch, spans), w1, lg1)"
    using Nil(1) b by (auto simp: io_bind_def io_return_def split: sum.splits)
  from flush_log [OF b] Nil(2) obtain gs where "lg1 = lg @ map (sent_as Str env keys) gs" "\<forall>g\<in>set gs. one_workspace g"
    "mset (concat (map snd gs)) \<subseteq># mset batch" "b = Inr () \<longrightarrow> mset (concat (map snd gs)) = mset batch" by auto
  then show ?case using r by (intro exI [of _ gs]) (auto split: sum.splits)
next
  case (Cons ta tas)
  obtain t s' where t: "run_task J env ta s = (t, s')" by force
  have md: "made J env (ta # tas) s = t # made J env tas s'" by (simp add: t)
  show ?case
  proof (cases "length (batch @ [t]) \<ge> 30")
    case False
    then have "send_tasks (recording net) J Str env keys tas s' (batch @ [t]) sent (spans + st_spanCount t) (w, lg) = (r, w', lg')"
      using Cons.prems(1) by (simp add: t)
    from Cons.IH [OF this] False show ?thesis unfolding md by (simp add: add.assoc)
  next
    case True
    obtain b w1 lg1 where b: "flush (recording net) Str env keys (batch @ [t]) (w, lg) = (b, w1, lg1)" by (metis prod_cases3)
    from flush_log [OF b] Cons.prems(2) obtain gs where gs: "lg1 = lg @ map (sent_as Str env keys) gs" "\<forall>g\<in>set gs. one_workspace g"
      "mset (concat (map snd gs)) \<subseteq># mset (batch @ [t])" "b = Inr () \<longrightarrow> mset (concat (map snd gs)) = mset (batch @ [t])" by auto
    show ?thesis
    proof (cases b)
      case (Inl e)
      then have "r = Inl e" "lg' = lg1" using Cons.prems(1) True b by (auto simp: t io_bind_def)
      moreover have "mset (concat (map snd gs)) \<subseteq># mset (batch @ made J env (ta # tas) s)"
        unfolding md using gs(3) by (metis append.assoc append_Cons append_Nil mset_append subset_mset.order_trans mset_subset_eq_add_left)
      ultimately show ?thesis using gs by (intro exI [of _ gs]) simp
    next
      case (Inr u)
      then have "send_tasks (recording net) J Str env keys tas s' [] (sent + length (batch @ [t])) (spans + st_spanCount t) (w1, lg1) = (r, w', lg')"
        using Cons.prems(1) True b by (auto simp: t io_bind_def)
      from Cons.IH [OF this] obtain hs where hs: "lg' = lg1 @ map (sent_as Str env keys) hs" "\<forall>g\<in>set hs. one_workspace g"
        "mset (concat (map snd hs)) \<subseteq># mset (made J env tas s')"
        "\<forall>n m. r = Inr (n, m) \<longrightarrow> mset (concat (map snd hs)) = mset (made J env tas s') \<and>
          n = sent + length (batch @ [t]) + length tas \<and> m = spans + st_spanCount t + sum_list (map st_spanCount (made J env tas s'))"
        by auto
      have g: "mset (concat (map snd gs)) = mset (batch @ [t])" using gs(4) Inr by simp
      show ?thesis unfolding md using gs(1,2) g hs by (intro exI [of _ "gs @ hs"]) (auto simp: ac_simps)
    qed
  qed
qed

text \<open>C12. Every trace is sent at most once and, unless the script fails, exactly once: the requests of the sending loop carry groups of
  at most 30 traces of a single workspace each, under the key of that workspace, together at most the traces that the tasks
  make; when the loop ends without error they are exactly those, and the totals it reports are right.\<close>

theorem traces_sent_once:
  assumes "send_tasks (recording net) J Str env keys tasks s [] 0 0 (w, []) = (r, w', lg)"
  shows "\<exists>gs. lg = map (\<lambda>(wid, grp). post_request env grp (in_template Str (Option.bind (jm_get keys wid) id))) gs \<and>
    (\<forall>g\<in>set gs. one_workspace g) \<and> mset (concat (map snd gs)) \<subseteq># mset (made J env tasks s) \<and>
    (\<forall>sent spans. r = Inr (sent, spans) \<longrightarrow> mset (concat (map snd gs)) = mset (made J env tasks s) \<and>
       sent = length tasks \<and> spans = sum_list (map st_spanCount (made J env tasks s)))"
  using send_tasks_log [OF assms] by (simp add: sent_as_def)

definition accepting :: "json \<Rightarrow> unit net" where
  "accepting j rq w = (Inr \<lparr>rp_status = 200, rp_text = [], rp_json = Some j\<rparr>, w)"

theorem traces_sent_once_witness:
  "filter (\<lambda>rq. rq_url rq \<noteq> ''http://localhost:4318/v1/traces'')
     (snd (snd (send_tasks (recording (accepting JNull)) (\<lambda>_. ''{}'') (\<lambda>_. []) local_env [] [surge_task, surge_task] idle_tracer [] 0 0 ((), [])))) = []"
proof -
  let ?run = "send_tasks (recording (accepting JNull)) (\<lambda>_. ''{}'') (\<lambda>_. []) local_env [] [surge_task, surge_task] idle_tracer [] 0 0 ((), [])"
  have "?run = (fst ?run, fst (snd ?run), snd (snd ?run))" by (simp only: prod.collapse)
  from traces_sent_once [OF this] obtain gs :: "(string \<times> seed_trace list) list" where
    "snd (snd ?run) = map (\<lambda>(wid, grp). post_request local_env grp (in_template (\<lambda>_. []) (Option.bind (jm_get [] wid) id))) gs" by blast
  then show ?thesis by (auto simp: post_request_def local_env_def filter_empty_conv simp del: send_tasks.simps)
qed

subsection \<open>Keys are replaced\<close>

definition live_seed_key :: "json \<Rightarrow> bool" where
  "live_seed_key k \<longleftrightarrow> json_field k ''name'' = Some (Some (JStr SEED_KEY_NAME)) \<and>
     (\<exists>v. json_field k ''revoked_at'' = Some v \<and> \<not> json_truthy v)"

definition revoke_request :: "(json \<Rightarrow> string) \<Rightarrow> seed_env \<Rightarrow> string \<Rightarrow> seed_workspace \<Rightarrow> json \<Rightarrow> seed_request" where
  "revoke_request Str env token ws k = keys_request env token ws ''DELETE'' (''/'' @ in_template Str (the (json_field k ''id''))) NoBody"

lemma recording_eq: "recording net rq (w, lg) = (fst (net rq w), snd (net rq w), lg @ [rq])"
  by (simp add: recording_def split_beta)

lemma io_bind_Inr: "io_bind m f w = (Inr b, w') \<longleftrightarrow> (\<exists>a w1. m w = (Inr a, w1) \<and> f a w1 = (Inr b, w'))"
  by (auto simp: io_bind_def split: prod.splits sum.splits)

lemma prop_of_Inr: "prop_of j k w = (Inr v, w') \<longleftrightarrow> json_field j k = Some v \<and> w' = w"
  by (auto simp: prop_of_def io_throw_def io_return_def split: option.splits)

lemma recording_Inr: "recording net rq (w, lg) = (Inr a, w', lg') \<longleftrightarrow> net rq w = (Inr a, w') \<and> lg' = lg @ [rq]"
  by (auto simp: recording_eq prod_eq_iff)

lemma body_json_Inr: "body_json r w = (Inr j, w') \<longleftrightarrow> rp_json r = Some j \<and> w' = w"
  by (auto simp: body_json_def io_throw_def io_return_def split: option.splits)

lemma io_return_Inr: "io_return a w = (Inr b, w') \<longleftrightarrow> a = b \<and> w' = w"
  by (auto simp: io_return_def)

lemma io_throw_Inr: "io_throw e w \<noteq> (Inr b, w')"
  by (simp add: io_throw_def)

lemmas io_Inr = io_bind_Inr prop_of_Inr body_json_Inr io_return_Inr io_throw_Inr

lemma revoke_old_log:
  assumes "revoke_old (recording net) Str env token ws ks (w, lg) = (Inr (), w', lg')"
  shows "lg' = lg @ map (revoke_request Str env token ws) (filter live_seed_key ks)"
  using assms
proof (induction ks arbitrary: w lg)
  case (Cons k ks)
  show ?case
  proof (cases "live_seed_key k")
    case True
    then obtain v where v: "json_field k ''name'' = Some (Some (JStr SEED_KEY_NAME))" "json_field k ''revoked_at'' = Some v" "\<not> json_truthy v"
      by (auto simp: live_seed_key_def)
    with Cons.prems obtain w1 where "revoke_old (recording net) Str env token ws ks (w1, lg @ [revoke_request Str env token ws k]) = (Inr (), w', lg')"
      by (auto simp: io_Inr revoke_request_def recording_Inr)
    from Cons.IH [OF this] True show ?thesis by simp
  next
    case False
    with Cons.prems have "revoke_old (recording net) Str env token ws ks (w, lg) = (Inr (), w', lg')"
      by (auto simp: io_Inr live_seed_key_def split: if_splits)
    from Cons.IH [OF this] False show ?thesis by simp
  qed
qed (simp add: io_return_def)

text \<open>C32. A run replaces the seeder's key and touches no other: when a key is provisioned for a workspace, the requests made were to
  list its keys, to revoke exactly the listed keys with the seeder's name that were not revoked yet, in order, and then to
  create one key of that name.\<close>

theorem seed_key_replaced:
  assumes "provision_key (recording net) Str env token ws (w, []) = (Inr t, w', lg)"
  shows "\<exists>res w1 ks. net (keys_request env token ws ''GET'' [] NoBody) w = (Inr res, w1) \<and> rp_ok res \<and> rp_json res = Some (JArr ks) \<and>
    lg = [keys_request env token ws ''GET'' [] NoBody] @
      map (\<lambda>k. keys_request env token ws ''DELETE'' (''/'' @ in_template Str (the (json_field k ''id''))) NoBody) (filter live_seed_key ks) @
      [keys_request env token ws ''POST'' [] (JsonBody (JObj [(''name'', JStr ''seed'')]))]"
proof -
  from assms obtain res w1 j where 1: "net (keys_request env token ws ''GET'' [] NoBody) w = (Inr res, w1)" "rp_ok res" "rp_json res = Some j"
    and 2: "io_bind (case j of JArr xs \<Rightarrow> revoke_old (recording net) Str env token ws xs | _ \<Rightarrow> io_throw ''TypeError'') (\<lambda>_.
      io_bind (recording net (keys_request env token ws ''POST'' [] (JsonBody (JObj [(''name'', JStr SEED_KEY_NAME)])))) (\<lambda>createRes.
      if \<not> rp_ok createRes then io_throw (''create key failed ('' @ int_str (rp_status createRes) @ ''): '' @ rp_text createRes)
      else io_bind (body_json createRes) (\<lambda>created.
      io_bind (prop_of created ''token'') (\<lambda>t.
      io_bind (prop_of created ''key'') (\<lambda>key.
      io_bind (case key of None \<Rightarrow> io_throw ''TypeError'' | Some k \<Rightarrow> prop_of k ''prefix'') (\<lambda>_. io_return t))))))
      (w1, [keys_request env token ws ''GET'' [] NoBody]) = (Inr t, w', lg)"
    unfolding provision_key_def
    by (subst (asm) io_bind_Inr) (auto simp: recording_Inr io_throw_Inr io_bind_Inr [of "body_json _"] body_json_Inr split: if_splits)
  from 2 obtain ks where ks: "j = JArr ks" by (cases j) (auto simp: io_bind_Inr io_throw_Inr)
  from 2 obtain w2 lg2 where 3: "revoke_old (recording net) Str env token ws ks (w1, [keys_request env token ws ''GET'' [] NoBody]) = (Inr (), w2, lg2)"
    and 4: "lg = lg2 @ [keys_request env token ws ''POST'' [] (JsonBody (JObj [(''name'', JStr ''seed'')]))]"
    unfolding ks json.case
    by (subst (asm) io_bind_Inr) (auto simp: SEED_KEY_NAME_def io_Inr recording_Inr split: if_splits option.splits)
  from revoke_old_log [OF 3] have "lg2 = [keys_request env token ws ''GET'' [] NoBody] @
      map (revoke_request Str env token ws) (filter live_seed_key ks)" .
  then show ?thesis using 1 4 ks by (auto simp: revoke_request_def)
qed

definition key_service :: "unit net" where
  "key_service rq w = (Inr \<lparr>rp_status = 200, rp_text = [], rp_json = Some (if rq_method rq = ''GET''
     then JArr [JObj [(''id'', JStr ''k1''), (''name'', JStr ''seed''), (''revoked_at'', JNull)], JObj [(''id'', JStr ''k2''), (''name'', JStr ''ci'')]]
     else JObj [(''token'', JStr ''trc_1''), (''key'', JObj [(''prefix'', JStr ''trc'')])])\<rparr>, w)"

theorem seed_key_replaced_witness:
  "map rq_method (snd (snd (provision_key (recording key_service) (\<lambda>_. []) local_env ''t'' (WORKSPACES ''w'' ! 0) ((), [])))) =
     [''GET'', ''DELETE'', ''POST'']"
proof -
  let ?run = "provision_key (recording key_service) (\<lambda>_. []) local_env ''t'' (WORKSPACES ''w'' ! 0) ((), [])"
  have "fst ?run = Inr (Some (JStr ''trc_1''))" by code_simp
  then have "?run = (Inr (Some (JStr ''trc_1'')), fst (snd ?run), snd (snd ?run))" by (simp add: prod_eq_iff)
  from seed_key_replaced [OF this] obtain res w1 ks where
    res: "key_service (keys_request local_env ''t'' (WORKSPACES ''w'' ! 0) ''GET'' [] NoBody) () = (Inr res, w1)" "rp_json res = Some (JArr ks)" and
    lg: "snd (snd ?run) = [keys_request local_env ''t'' (WORKSPACES ''w'' ! 0) ''GET'' [] NoBody] @
      map (\<lambda>k. keys_request local_env ''t'' (WORKSPACES ''w'' ! 0) ''DELETE'' (''/'' @ in_template (\<lambda>_. []) (the (json_field k ''id''))) NoBody)
        (filter live_seed_key ks) @ [keys_request local_env ''t'' (WORKSPACES ''w'' ! 0) ''POST'' [] (JsonBody (JObj [(''name'', JStr ''seed'')]))]"
    by blast
  have ks: "ks = [JObj [(''id'', JStr ''k1''), (''name'', JStr ''seed''), (''revoked_at'', JNull)], JObj [(''id'', JStr ''k2''), (''name'', JStr ''ci'')]]"
    using res by (auto simp: key_service_def keys_request_def)
  show ?thesis unfolding lg ks by (simp add: live_seed_key_def SEED_KEY_NAME_def keys_request_def)
qed

subsection \<open>Statements of the account script\<close>

text \<open>How SQL reads a literal: up to a quote that is not doubled.\<close>

fun sql_read :: "string \<Rightarrow> (string \<times> string) option" where
  "sql_read [] = None"
| "sql_read (c # cs) =
     (if c = CHR 0x27
      then (case cs of d # ds \<Rightarrow> if d = CHR 0x27 then map_option (\<lambda>(s, rest). (CHR 0x27 # s, rest)) (sql_read ds) else Some ([], cs)
            | [] \<Rightarrow> Some ([], []))
      else map_option (\<lambda>(s, rest). (c # s, rest)) (sql_read cs))"

text \<open>No value can break out of its SQL literal: after the opening quote, reading the literal of any string ends exactly at
  its closing quote and gives the string back.\<close>

theorem sqlLiteral_roundtrip:
  assumes "rest = [] \<or> hd rest \<noteq> CHR 0x27"
  shows "sqlLiteral s @ rest = CHR 0x27 # tl (sqlLiteral s) @ rest \<and> sql_read (tl (sqlLiteral s) @ rest) = Some (s, rest)"
proof -
  have "sql_read (double_quotes s @ CHR 0x27 # rest) = Some (s, rest)"
    using assms by (induction s) (auto split: list.splits)
  then show ?thesis by (simp add: sqlLiteral_def)
qed

theorem sqlLiteral_roundtrip_witness:
  "sql_read (tl (sqlLiteral ''x'); DROP TABLE workspaces; --'') @ '', 1)'') = Some (''x'); DROP TABLE workspaces; --'', '', 1)'')"
  using sqlLiteral_roundtrip [of "'', 1)''" "''x'); DROP TABLE workspaces; --''"] by simp

end
