(* ===== verification/Auth_Pages.thy ===== *)
theory Auth_Pages
  imports Shell Formatters
begin

text \<open>
  The pages of visitors without a dashboard: signing in (\<open>modules/auth/pages/LoginPage.tsx\<close>), signing up
  (\<open>SignupPage.tsx\<close>) and answering an invite (\<open>modules/invites/pages/InvitePage.tsx\<close>). A submission is modelled from
  the press of the button to the end of its \<open>finally\<close> block, with \<open>fetch\<close> as the answer of the network. A
  body that is \<open>null\<close> cannot be destructured, which is a failure (\<open>BodyError\<close> stands for the \<open>TypeError\<close>); a field that is
  missing or not the string its type promises is \<open>undefined\<close>.
\<close>

definition apostrophe :: string where
  [data_defs]: "apostrophe = [CHR 0xE2, CHR 0x80, CHR 0x99]"

text \<open>The \<open>token\<close> of a body.\<close>

definition body_token :: "json \<Rightarrow> string option" where
  "body_token j = (case json_field j ''token'' of Some (Some (JStr t)) \<Rightarrow> Some t | _ \<Rightarrow> None)"

subsection \<open>Signing in (LoginPage.tsx)\<close>

record auth_form =
  af_submitting :: bool
  af_error :: "string option"

definition errorMessages :: "(string, string) jsmap" where
  [data_defs]: "errorMessages =
     [(''missing_fields'', ''Please provide both your email and password to continue.''),
      (''invalid_credentials'', ''We couldn't verify those credentials. Check your details and try again.'')]"

definition login_init :: "string option \<Rightarrow> auth_form" where
  "login_init errorKey = \<lparr>af_submitting = False,
     af_error = (if truthy_str errorKey
       then Some (nullish (jm_get errorMessages (the errorKey)) ''Something went wrong. Please try again.'') else None)\<rparr>"

definition form_failed :: "string \<Rightarrow> auth_form \<Rightarrow> auth_form" where
  "form_failed m p = p\<lparr>af_submitting := False, af_error := Some m\<rparr>"

definition form_done :: "auth_form \<Rightarrow> auth_form" where
  "form_done p = p\<lparr>af_submitting := False, af_error := None\<rparr>"

text \<open>\<open>handleLogin\<close> of a token that may be missing: storage keeps the text \<open>undefined\<close> and the state no token. A storage that
  throws leaves the state as it was; its error, whose text \<open>denied\<close> is the browser's, is caught by the form.\<close>

definition onLogin :: "string option \<Rightarrow> string \<Rightarrow> app \<Rightarrow> app" where
  "onLogin token email a =
     (case token of Some t \<Rightarrow> handleLogin t email a 
      | None \<Rightarrow> (let a1 = handleLogin ''undefined'' email a in if br_ok (ap_browser a) then a1\<lparr>ap_token := None\<rparr> else a1))"

text \<open>The third component is the list of the requests sent so far.\<close>

definition login_submit ::
  "string \<Rightarrow> fetch \<Rightarrow> string \<Rightarrow> string \<Rightarrow> string \<Rightarrow> auth_form \<times> app \<times> http_request list \<Rightarrow> auth_form \<times> app \<times> http_request list" where
  "login_submit denied fetch base email password = (\<lambda>(p, a, sent).
     if email = [] \<or> password = [] then (p\<lparr>af_error := jm_get errorMessages ''missing_fields''\<rparr>, a, sent)
     else
       (let req = \<lparr>lr_email = email, lr_password = password, lr_extensions = None\<rparr>;
            sent' = sent @ [credentials_request base ''/v1/auth/login'' req];
            failed = (\<lambda>e. form_failed (requestErrorMessage (Some e)
              [(401, the (jm_get errorMessages ''invalid_credentials''))] None) p) in
        case loginUser fetch base req of
          Inl e \<Rightarrow> (failed e, a, sent')
        | Inr j \<Rightarrow> (case json_field j ''token'' of
              None \<Rightarrow> (failed BodyError, a, sent')
            | Some _ \<Rightarrow> (if br_ok (ap_browser a) then form_done p else failed (NetworkError denied), onLogin (body_token j) email a, sent'))))"

subsection \<open>Signing up (SignupPage.tsx)\<close>

record signup_form = auth_form +
  sf_pendingEmail :: "string option"
  sf_extra :: "(string, string) jsmap"
  sf_attempt :: nat

definition signup_init :: signup_form where
  "signup_init = \<lparr>af_submitting = False, af_error = None, sf_pendingEmail = None, sf_extra = [], sf_attempt = 0\<rparr>"

definition signup_submit :: "string \<Rightarrow> fetch \<Rightarrow> string \<Rightarrow> string \<Rightarrow> string \<Rightarrow> signup_form \<times> app \<Rightarrow> signup_form \<times> app" where
  "signup_submit denied fetch base email password = (\<lambda>(p, a).
     if email = [] \<or> password = []
     then (p\<lparr>af_error := Some ''Please provide both your email and password to continue.''\<rparr>, a)
     else
       (let failed = (\<lambda>e. p\<lparr>sf_attempt := sf_attempt p + 1, af_submitting := False,
              af_error := Some (requestErrorMessage (Some e)
                [(409, ''An account with that email already exists. Try signing in instead.'')] None)\<rparr>) in
        case registerUser fetch base \<lparr>lr_email = email, lr_password = password,
               lr_extensions = (if sf_extra p = [] then None else Some (sf_extra p))\<rparr> of
          Inl e \<Rightarrow> (failed e, a)
        | Inr r \<Rightarrow>
            (case (if rg_confirmationRequired r then None else rg_token r) of
               Some (JStr (c # t)) \<Rightarrow>
                 (if br_ok (ap_browser a) then p\<lparr>af_submitting := False, af_error := None\<rparr> else failed (NetworkError denied),
                  handleLogin (c # t) email a)
             | _ \<Rightarrow> (p\<lparr>af_submitting := False, af_error := None, sf_pendingEmail := Some email\<rparr>, a))))"

subsection \<open>Invites (InvitePage.tsx)\<close>

datatype Load = Loading | Ready InvitePreview | LoadFailed string

record invite_page =
  iv_load :: Load
  iv_accepting :: bool
  iv_acceptError :: "string option"

definition invite_init :: invite_page where
  "invite_init = \<lparr>iv_load = Loading, iv_accepting = False, iv_acceptError = None\<rparr>"

definition INVALID :: string where
  [data_defs]: "INVALID = ''This invite link isn'' @ apostrophe @ ''t valid. Ask the workspace owner for a new one.''"

definition EXPIRED :: string where
  [data_defs]: "EXPIRED = ''This invite has expired or was already used. Ask the workspace owner for a new one.''"

definition loadError :: "api_error \<Rightarrow> string" where
  "loadError e = requestErrorMessage (Some e)
     [(404, INVALID), (410, EXPIRED), (429, ''Too many attempts. Wait a minute and try again.'')]
     (Some (''We couldn'' @ apostrophe @ ''t load this invite. Try again in a moment.''))"

text \<open>The answer to the preview request; a page that has moved on to another token ignores it.\<close>

definition invite_loaded :: "bool \<Rightarrow> api_error + InvitePreview \<Rightarrow> invite_page \<Rightarrow> invite_page" where
  "invite_loaded cancelled r p =
     (if cancelled then p else p\<lparr>iv_load := (case r of Inl e \<Rightarrow> LoadFailed (loadError e) | Inr i \<Rightarrow> Ready i)\<rparr>)"

fun error_code :: "api_error \<Rightarrow> json option" where
  "error_code (APIError m s c) = Some c"
| "error_code _ = None"

definition accept_message :: "api_error \<Rightarrow> string" where
  "accept_message e =
     (if error_code e = Some (JStr ''MEMBER_LIMIT_REACHED'')
      then ''This workspace has reached its member limit. Ask the workspace owner to make room for you.''
      else if error_code e = Some (JStr ''FEATURE_UNAVAILABLE'')
      then ''This workspace can'' @ apostrophe @ ''t add members right now. Ask the workspace owner for help.''
      else requestErrorMessage (Some e)
        [(403, ''This invite was sent to a different email address. Sign in with that address to accept it.''),
         (404, INVALID), (410, EXPIRED)]
        (Some (''We couldn'' @ apostrophe @ ''t accept this invite. Try again in a moment.'')))"

definition body_workspace :: "json option \<Rightarrow> string option" where
  "body_workspace r =
     (case r of
        None \<Rightarrow> None
      | Some j \<Rightarrow> (case json_field j ''workspace_id'' of None \<Rightarrow> None | Some (Some (JStr w)) \<Rightarrow> Some w | _ \<Rightarrow> Some ''undefined''))"

text \<open>Accepting: the request of the signed-in visitor, then the navigation to \<open>/\<close> and \<open>onAccepted\<close>, which may throw. The third component is
  the path shown.\<close>

definition accept ::
  "fetch \<Rightarrow> string \<Rightarrow> string \<Rightarrow> (string \<times> string) option \<Rightarrow> invite_page \<times> app \<times> string \<Rightarrow> invite_page \<times> app \<times> string" where
  "accept fetch base token session = (\<lambda>(p, a, path).
     case session of
       None \<Rightarrow> (p, a, path)
     | Some (tok, _) \<Rightarrow>
         if iv_accepting p then (p, a, path)
         else
           (let failed = (\<lambda>e. (p\<lparr>iv_accepting := False, iv_acceptError := Some (accept_message e)\<rparr>, a, path)) in
            case new_client \<lparr>cfg_baseUrl = base, cfg_apiKey = tok, cfg_timeoutMs = None, cfg_workspaceId = None\<rparr> of
              Inl e \<Rightarrow> failed e
            | Inr c \<Rightarrow>
                (case request fetch (workspaces_acceptInvite c token) of
                   Inl e \<Rightarrow> failed e
                 | Inr r \<Rightarrow>
                     (case body_workspace r of
                        None \<Rightarrow> failed BodyError
                      | Some w \<Rightarrow>
                          (p\<lparr>iv_accepting := False,
                             iv_acceptError := (if br_ok (ap_browser a) then None else Some (accept_message (NetworkError [])))\<rparr>,
                           handleInviteAccepted w a, ''/'')))))"

definition invite_dismiss :: "bool \<Rightarrow> app \<Rightarrow> app \<times> string" where
  "invite_dismiss hasSession a = (leaveInvite a, if hasSession then ''/'' else ''/login'')"

definition invite_signOut :: "string \<Rightarrow> app \<Rightarrow> app \<times> string" where
  "invite_signOut token a = (handleLogout a, ''/invite/'' @ encodeURIComponent token)"

datatype invite_screen =
    InviteLoading
  | InviteUnusable string
  | InviteSignIn string
  | InviteWrongAccount string string
  | InviteOffer string "string option"

definition invite_view :: "(string \<Rightarrow> string) \<Rightarrow> (string \<times> string) option \<Rightarrow> invite_page \<Rightarrow> invite_screen" where
  "invite_view lower session p =
     (case iv_load p of
        Loading \<Rightarrow> InviteLoading
      | LoadFailed m \<Rightarrow> InviteUnusable m
      | Ready i \<Rightarrow>
          (case session of
             None \<Rightarrow> InviteSignIn (ip_email i)
           | Some (_, email) \<Rightarrow>
               if lower email \<noteq> lower (ip_email i) then InviteWrongAccount email (ip_email i)
               else InviteOffer (ip_workspace_name i) (iv_acceptError p)))"

definition invite_subtitle :: "InvitePreview \<Rightarrow> string" where
  "invite_subtitle i =
     (if ip_invited_by_email i = [] then ''A workspace owner'' else ip_invited_by_email i) @ '' invited '' @ ip_email i @
     '' to join this workspace.''"

subsection \<open>Properties\<close>

lemma loginUser_answer:
  "loginUser fetch base req =
     (case fetch (credentials_request base ''/v1/auth/login'' req) of
        Inl err \<Rightarrow> Inl (NetworkError (nullish err []))
      | Inr r \<Rightarrow> if rs_ok r then (case rs_json r of None \<Rightarrow> Inl BodyError | Some j \<Rightarrow> Inr j)
          else (case publicRequest fetch base ''/v1/auth/login'' (credentials_request base ''/v1/auth/login'' req) ''Login failed'' of
            Inl e \<Rightarrow> Inl e | Inr _ \<Rightarrow> Inl BodyError))"
  by (auto simp: loginUser_def postCredentials_def publicRequest_def credentials_request_def Let_def split: sum.split option.split)

lemma refused_login:
  "fetch (credentials_request base ''/v1/auth/login'' req) = Inr r \<Longrightarrow> \<not> rs_ok r \<Longrightarrow>
     \<exists>m. loginUser fetch base req = Inl (AuthError m (rs_status r))"
  by (simp add: loginUser_def postCredentials_def publicRequest_def credentials_request_def Let_def)


text \<open>C14. An invite leads into its workspace: a visitor without a session who opens an invite link is shown the invite, also
  after signing in; once the server accepts, the visitor has the same session, no invite is pending, and the dashboard opens
  with the workspace of the invite selected.\<close>

theorem invite_leads_to_workspace:
  assumes "br_ok b" "jm_get (br_local b) TOKEN_KEY = None" "tok \<noteq> []" "inviteTokenFromPath path = Some itok" "itok \<noteq> []"
    and "matches ''/invite/:token'' path" "\<not> matches ''/login'' path" "\<not> matches ''/signup'' path"
    and "app_init path b = Some a0" "a1 = handleLogin tok email a0" "base \<noteq> []"
    and "request fetch (workspaces_acceptInvite \<lparr>cfg_baseUrl = base, cfg_apiKey = tok, cfg_timeoutMs = None, cfg_workspaceId = None\<rparr> itok)
      = Inr (Some (JObj [(''workspace_id'', JStr w)]))"
    and "accept fetch base itok (Some (tok, email)) (invite_init, a1, path) = (p2, a2, path2)"
    and "validateExtensions ext = Inr ()"
  shows "app_screen matches ext path a0 = InviteLoggedOut itok \<and>
    app_screen matches ext path a1 = InviteSession itok tok email \<and>
    abs_app a2 = (SignedIn tok email, None) \<and> path2 = ''/'' \<and> app_screen matches ext path2 a2 = DashboardScreen tok \<and>
    (\<exists>d. dash_init False ext r (fresh_history path2) (ap_browser a2) = Inr d \<and> db_selectedWorkspaceId d = Some w)"
proof -
  have a0: "ap_token a0 = None" "ap_invite a0 = Some itok" "br_ok (ap_browser a0)"
    using assms(1,2,4,5,9) by (auto simp: app_init_def readInitialToken_def storage_ops readPendingInvite_ok)
  have a1: "ap_token a1 = Some tok" "ap_invite a1 = Some itok" "br_ok (ap_browser a1)"
    "jm_get (br_local (ap_browser a1)) EMAIL_KEY = Some email"
    using a0 assms(10) by (simp_all add: handlers_ok)
  have 2: "a2 = handleInviteAccepted w a1" "path2 = ''/''"
    using assms(3,11,12,13) by (auto simp: accept_def invite_init_def new_client_def body_workspace_def)
  have a2: "ap_token a2 = Some tok" "ap_invite a2 = None" "br_ok (ap_browser a2)"
    "jm_get (br_local (ap_browser a2)) EMAIL_KEY = Some email" "jm_get (br_local (ap_browser a2)) WORKSPACE_KEY = Some w"
    using a1 by (simp_all add: 2 handlers_ok)
  have "pathToState ''/'' (de_pages ext) = Some (nav ''overview'' [])"
    by (simp add: pathToState_def path_segments_root segments_to_state_simps)
  then have "\<exists>d. dash_init False ext r (fresh_history path2) (ap_browser a2) = Inr d \<and> db_selectedWorkspaceId d = Some w"
    using a2 assms(14) by (simp add: dash_init_def fresh_history_def computeInitialNav_def 2)
  then show ?thesis using a0 a1 a2 assms(3,5,6,7,8) 2
    by (simp add: app_screen_def truthy_str_def abs_app_def)
qed

text \<open>An invite for another address cannot be accepted from the page: signed in with a different address the page offers
  only to sign out or leave, and signing out keeps the invite and leads back to it.\<close>

theorem invite_for_other_address:
  assumes "br_ok (ap_browser a)" "ap_invite a = Some itok" "itok \<noteq> []" "valid_utf8 itok"
    and "iv_load p = Ready i" "invite_signOut itok a = (a', path)"
    and "matches ''/invite/:token'' path" "\<not> matches ''/login'' path" "\<not> matches ''/signup'' path"
  shows "(lower email \<noteq> lower (ip_email i) \<longrightarrow> invite_view lower (Some (tok, email)) p = InviteWrongAccount email (ip_email i)) \<and>
    inviteTokenFromPath path = Some itok \<and> fst (abs_app a') = SignedOut \<and> app_screen matches ext path a' = InviteLoggedOut itok"
proof -
  have path: "path = ''/invite/'' @ encodeURIComponent itok" "a' = handleLogout a" using assms(6) by (simp_all add: invite_signOut_def)
  have enc: "encodeURIComponent itok \<noteq> []" "CHR ''/'' \<notin> set (encodeURIComponent itok)"
    using assms(3) uri.enc_no_slash uri.enc_empty by auto
  then have "last (encodeURIComponent itok) \<noteq> CHR ''/''" by (metis last_in_set)
  then have "inviteTokenFromPath path = Some itok"
    using decode_encode [OF assms(4)] enc by (simp add: inviteTokenFromPath_def path)
  moreover have "ap_token a' = None" "ap_invite a' = Some itok" using assms(1,2) by (simp_all add: path handlers_ok)
  ultimately show ?thesis using assms(3,5,7-9)
    by (simp add: invite_view_def abs_app_def app_screen_def truthy_str_def)
qed

definition ok_fetch :: "json \<Rightarrow> fetch" where
  "ok_fetch j r = Inr \<lparr>rs_status = 200, rs_json = Some j\<rparr>"

definition invite_route :: "string \<Rightarrow> string \<Rightarrow> bool" where
  "invite_route pattern path \<longleftrightarrow> pattern = ''/invite/:token'' \<and> starts_with path ''/invite/''"


theorem invite_leads_to_workspace_witness:
  "\<exists>a. app_init ''/invite/i1'' fresh_browser = Some a \<and> app_screen invite_route EMPTY_EXTENSIONS ''/invite/i1'' a = InviteLoggedOut ''i1''"
proof -
  let ?f = "ok_fetch (JObj [(''workspace_id'', JStr ''w'')])" and ?path = "''/invite/i1''"
  have tok: "inviteTokenFromPath ?path = Some ''i1''" by code_simp
  obtain a0 where a0: "app_init ?path fresh_browser = Some a0"
    by (simp add: app_init_def readInitialToken_def storage_ops fresh_browser_def)
  have req: "request ?f (workspaces_acceptInvite \<lparr>cfg_baseUrl = ''https://x'', cfg_apiKey = ''t'', cfg_timeoutMs = None,
      cfg_workspaceId = None\<rparr> ''i1'') = Inr (Some (JObj [(''workspace_id'', JStr ''w'')]))"
    by (simp add: request_def ok_fetch_def rs_ok_def)
  obtain p2 a2 path2 where acc: "accept ?f ''https://x'' ''i1'' (Some (''t'', ''e'')) (invite_init, handleLogin ''t'' ''e'' a0, ?path)
      = (p2, a2, path2)" by (metis prod_cases3)
  have ext: "validateExtensions EMPTY_EXTENSIONS = Inr ()" by code_simp
  have "app_screen invite_route EMPTY_EXTENSIONS ?path a0 = InviteLoggedOut ''i1''"
    using invite_leads_to_workspace [OF _ _ _ tok _ _ _ _ a0 refl _ req acc ext, where matches = invite_route]
    by (simp add: fresh_browser_def invite_route_def)
  with a0 show ?thesis by blast
qed

theorem invite_for_other_address_witness:
  "app_screen invite_route EMPTY_EXTENSIONS ''/invite/i1'' (handleLogout (fresh_app\<lparr>ap_invite := Some ''i1''\<rparr>)) = InviteLoggedOut ''i1''"
proof -
  let ?a = "fresh_app\<lparr>ap_invite := Some ''i1''\<rparr>"
  let ?i = "\<lparr>ip_workspace_name = ''W'', ip_invited_by_email = [], ip_email = ''c@d'', ip_expires_at = ''x''\<rparr>"
  have "encodeURIComponent ''i1'' = ''i1''" by code_simp
  then have out: "invite_signOut ''i1'' ?a = (handleLogout ?a, ''/invite/i1'')" by (simp add: invite_signOut_def)
  have "br_ok (ap_browser ?a)" "ap_invite ?a = Some ''i1''" "''i1'' \<noteq> []" "valid_utf8 ''i1''"
    "iv_load (invite_init\<lparr>iv_load := Ready ?i\<rparr>) = Ready ?i"
    by (simp_all add: fresh_app_def fresh_browser_def valid_utf8_ascii)
  note o = invite_for_other_address [OF this out, where matches = invite_route]
  show ?thesis using o by (simp add: invite_route_def)
qed

end
