(* ===== verification/Settings.thy ===== *)
theory Settings
  imports Auth_Pages
begin

text \<open>
  The settings page (\<open>modules/settings/pages/SettingsPage.tsx\<close>): its tabs, changing the password, creating a workspace with
  its slug, the connection instructions, and the members and invites of a workspace. A request is its outcome: \<open>Inl\<close> the
  error it failed with. \<open>lower\<close> is \<open>toLowerCase\<close> on text of any script.
\<close>

subsection \<open>Slugs\<close>

definition slug_char :: "char \<Rightarrow> bool" where
  "slug_char c \<longleftrightarrow> (let n = (of_char c :: nat) in (97 \<le> n \<and> n \<le> 122) \<or> (48 \<le> n \<and> n \<le> 57))"

text \<open>\<open>replace(/[^a-z0-9]+/g, '-')\<close>: \<open>gap\<close> says that the last character read was replaced.\<close>

fun dash_runs :: "bool \<Rightarrow> string \<Rightarrow> string" where
  "dash_runs gap [] = []"
| "dash_runs gap (c # cs) =
     (if slug_char c then c # dash_runs False cs else if gap then dash_runs True cs else CHR ''-'' # dash_runs True cs)"

text \<open>\<open>replace(/^-+|-+$/g, '')\<close>.\<close>

definition strip_dashes :: "string \<Rightarrow> string" where
  "strip_dashes s = rev (dropWhile (\<lambda>c. c = CHR ''-'') (rev (dropWhile (\<lambda>c. c = CHR ''-'') s)))"

definition slugify :: "(string \<Rightarrow> string) \<Rightarrow> string \<Rightarrow> string" where
  "slugify lower s = strip_dashes (dash_runs False (trim (lower s)))"

subsection \<open>Creating a workspace\<close>

record create_view =
  cw_name :: string
  cw_slug :: string
  cw_slugEdited :: bool
  cw_env :: workspace_env
  cw_pending :: bool
  cw_error :: string
  cw_submitting :: bool

definition create_view_init :: create_view where
  "create_view_init = \<lparr>cw_name = [], cw_slug = [], cw_slugEdited = False, cw_env = Production, cw_pending = False, cw_error = [],
     cw_submitting = False\<rparr>"

definition effectiveSlug :: "(string \<Rightarrow> string) \<Rightarrow> create_view \<Rightarrow> string" where
  "effectiveSlug lower v = (if cw_slugEdited v then cw_slug v else slugify lower (cw_name v))"

definition cw_canCreate :: "(string \<Rightarrow> string) \<Rightarrow> create_view \<Rightarrow> bool" where
  "cw_canCreate lower v \<longleftrightarrow> trim (cw_name v) \<noteq> [] \<and> effectiveSlug lower v \<noteq> []"

definition type_name :: "string \<Rightarrow> create_view \<Rightarrow> create_view" where
  "type_name s v = v\<lparr>cw_name := s\<rparr>"

definition type_slug :: "(string \<Rightarrow> string) \<Rightarrow> string \<Rightarrow> create_view \<Rightarrow> create_view" where
  "type_slug lower s v = v\<lparr>cw_slugEdited := True, cw_slug := slugify lower s\<rparr>"

text \<open>The start of a submission with the request it sends, and its end.\<close>

definition cw_submit :: "(string \<Rightarrow> string) \<Rightarrow> create_view \<Rightarrow> create_view \<times> CreateWorkspaceInput option" where
  "cw_submit lower v =
     (if \<not> cw_canCreate lower v \<or> cw_submitting v then (v, None)
      else (v\<lparr>cw_submitting := True, cw_pending := True, cw_error := []\<rparr>,
            Some \<lparr>cwi_name = trim (cw_name v), cwi_slug = effectiveSlug lower v, cwi_env = cw_env v\<rparr>))"

definition cw_finish :: "api_error option \<Rightarrow> create_view \<Rightarrow> create_view" where
  "cw_finish err v = v\<lparr>cw_submitting := False, cw_pending := False,
     cw_error := (case err of None \<Rightarrow> cw_error v | Some e \<Rightarrow> error_message e)\<rparr>"

text \<open>The form with the number of its requests under way.\<close>

inductive create_step :: "(string \<Rightarrow> string) \<Rightarrow> create_view \<times> nat \<Rightarrow> create_view \<times> nat \<Rightarrow> bool" for lower where
  typed_name: "create_step lower (v, n) (type_name s v, n)"
| typed_slug: "create_step lower (v, n) (type_slug lower s v, n)"
| chose_env: "create_step lower (v, n) (v\<lparr>cw_env := e\<rparr>, n)"
| submitted: "cw_submit lower v = (v', r) \<Longrightarrow> create_step lower (v, n) (v', if r = None then n else n + 1)"
| answered: "0 < n \<Longrightarrow> create_step lower (v, n) (cw_finish err v, n - 1)"

definition one_request :: "create_view \<times> nat \<Rightarrow> bool" where
  "one_request = (\<lambda>(v, n). n = (if cw_submitting v then 1 else 0) \<and> cw_pending v = cw_submitting v)"

interpretation create_form: invariant_system "\<lambda>s. s = (create_view_init, 0)" "create_step lower" one_request
proof
  show "s = (create_view_init, 0) \<Longrightarrow> one_request s" for s by (simp add: one_request_def create_view_init_def)
  show "one_request s \<Longrightarrow> create_step lower s t \<Longrightarrow> one_request t" for s t
    by (erule create_step.cases)
      (auto simp: one_request_def type_name_def type_slug_def cw_submit_def cw_finish_def split: if_splits)
qed

subsection \<open>Changing the password\<close>

record password_form =
  pw_editing :: bool
  pw_current :: string
  pw_next :: string
  pw_confirm :: string
  pw_saving :: bool
  pw_error :: string
  pw_justChanged :: bool

definition pw_reset :: "password_form \<Rightarrow> password_form" where
  "pw_reset f = f\<lparr>pw_editing := False, pw_current := [], pw_next := [], pw_confirm := [], pw_error := []\<rparr>"

definition pw_canSubmit :: "password_form \<Rightarrow> bool" where
  "pw_canSubmit f \<longleftrightarrow> \<not> pw_saving f \<and> pw_current f \<noteq> [] \<and> pw_next f \<noteq> [] \<and> pw_confirm f \<noteq> []"

text \<open>A submission up to its end, with the session it renews; \<open>respond\<close> is the answer to \<open>changePassword\<close>. A storage that
  throws while the session is renewed ends in the handler of errors.\<close>

definition pw_submit :: "(string \<Rightarrow> string \<Rightarrow> api_error + string) \<Rightarrow> password_form \<times> app \<Rightarrow> password_form \<times> app" where
  "pw_submit respond = (\<lambda>(f, a).
     if pw_saving f then (f, a)
     else if pw_next f \<noteq> pw_confirm f then (f\<lparr>pw_error := ''New passwords don't match.''\<rparr>, a)
     else case respond (pw_current f) (pw_next f) of
       Inr token \<Rightarrow>
         (if br_ok (ap_browser a) then (pw_reset f)\<lparr>pw_justChanged := True, pw_saving := False\<rparr>
          else f\<lparr>pw_saving := False, pw_error := ''Could not change password. Please try again.''\<rparr>, handleSessionRenewed token a)
     | Inl e \<Rightarrow> (f\<lparr>pw_saving := False,
         pw_error := (case e of APIError m s c \<Rightarrow> m | _ \<Rightarrow> ''Could not change password. Please try again.'')\<rparr>, a))"

definition pw_edit :: "password_form \<Rightarrow> password_form" where
  "pw_edit f = f\<lparr>pw_justChanged := False, pw_editing := True\<rparr>"

subsection \<open>Connecting\<close>

definition LOCAL_INGEST_ENDPOINT :: string where
  [data_defs]: "LOCAL_INGEST_ENDPOINT = ''http://localhost:4318''"

definition exporterConfig :: "string \<Rightarrow> string" where
  "exporterConfig endpoint = str_join [CHR 0x0A]
     [''OTEL_EXPORTER_OTLP_ENDPOINT='' @ endpoint,
      ''OTEL_EXPORTER_OTLP_PROTOCOL=http/protobuf'',
      ''OTEL_EXPORTER_OTLP_HEADERS='' @ [CHR 0x22] @ ''Authorization=Bearer YOUR_API_KEY'' @ [CHR 0x22]]"

definition connection_config :: "string option \<Rightarrow> string" where
  "connection_config ingestEndpoint = exporterConfig (if truthy_str ingestEndpoint then the ingestEndpoint else LOCAL_INGEST_ENDPOINT)"

subsection \<open>Members and invites\<close>

definition settings_errorMessage :: "api_error \<Rightarrow> string \<Rightarrow> string" where
  "settings_errorMessage err fallback = (case err of APIError m s c \<Rightarrow> m | _ \<Rightarrow> fallback)"

record members_view =
  mv_email :: string
  mv_inviting :: bool
  mv_inviteError :: string
  mv_created :: "CreatedInvite option"
  mv_busyId :: "string option"
  mv_actionError :: string
  mv_invalidated :: "string option list list"

definition members_view_init :: members_view where
  "members_view_init = \<lparr>mv_email = [], mv_inviting = False, mv_inviteError = [], mv_created = None, mv_busyId = None,
     mv_actionError = [], mv_invalidated = []\<rparr>"

definition refreshInvites :: "Workspace \<Rightarrow> members_view \<Rightarrow> members_view" where
  "refreshInvites ws v = v\<lparr>mv_invalidated := mv_invalidated v @ [[Some ''workspace-invites'', Some (wk_id ws)]]\<rparr>"

definition refreshMembers :: "Workspace \<Rightarrow> members_view \<Rightarrow> members_view" where
  "refreshMembers ws v = v\<lparr>mv_invalidated := mv_invalidated v @ [[Some ''workspace-members'', Some (wk_id ws)], [Some ''workspaces'']]\<rparr>"

text \<open>A press and the end of its request; while the request is under way the button is disabled.\<close>

definition invite_start :: "members_view \<Rightarrow> members_view" where
  "invite_start v = v\<lparr>mv_inviting := True, mv_inviteError := [], mv_actionError := []\<rparr>"

definition invite_end :: "Workspace \<Rightarrow> api_error + CreatedInvite \<Rightarrow> members_view \<Rightarrow> members_view" where
  "invite_end ws r v =
     (case r of
        Inr i \<Rightarrow> refreshInvites ws (v\<lparr>mv_created := Some i, mv_email := []\<rparr>)
      | Inl e \<Rightarrow> v\<lparr>mv_inviteError := settings_errorMessage e ''Could not create the invite. Please try again.''\<rparr>)\<lparr>mv_inviting := False\<rparr>"

definition sendInvite :: "Workspace \<Rightarrow> (string \<Rightarrow> api_error + CreatedInvite) \<Rightarrow> string \<Rightarrow> members_view \<Rightarrow> members_view" where
  "sendInvite ws respond address v = invite_end ws (respond (trim address)) (invite_start v)"

definition invite_form_submit :: "Workspace \<Rightarrow> (string \<Rightarrow> api_error + CreatedInvite) \<Rightarrow> members_view \<Rightarrow> members_view" where
  "invite_form_submit ws respond v = (if trim (mv_email v) \<noteq> [] then sendInvite ws respond (mv_email v) v else v)"

definition action_start :: "string \<Rightarrow> members_view \<Rightarrow> members_view" where
  "action_start i v = v\<lparr>mv_busyId := Some i, mv_actionError := []\<rparr>"

definition action_end :: "api_error option \<Rightarrow> (members_view \<Rightarrow> members_view) \<Rightarrow> string \<Rightarrow> members_view \<Rightarrow> members_view" where
  "action_end outcome onDone fallback v =
     (case outcome of None \<Rightarrow> onDone v | Some e \<Rightarrow> v\<lparr>mv_actionError := settings_errorMessage e fallback\<rparr>)\<lparr>mv_busyId := None\<rparr>"

definition runAction ::
  "string \<Rightarrow> api_error option \<Rightarrow> (members_view \<Rightarrow> members_view) \<Rightarrow> string \<Rightarrow> members_view \<Rightarrow> members_view" where
  "runAction i outcome onDone fallback v = action_end outcome onDone fallback (action_start i v)"

definition removeMember_press :: "Workspace \<Rightarrow> WorkspaceMember \<Rightarrow> bool \<Rightarrow> api_error option \<Rightarrow> members_view \<Rightarrow> members_view" where
  "removeMember_press ws m confirmed outcome v =
     (if confirmed then runAction (wmb_user_id m) outcome (refreshMembers ws) ''Could not remove the member. Please try again.'' v else v)"

definition revokeInvite_press :: "Workspace \<Rightarrow> string \<Rightarrow> api_error option \<Rightarrow> members_view \<Rightarrow> members_view" where
  "revokeInvite_press ws i outcome v =
     runAction i outcome (refreshInvites ws) ''Could not revoke the invite. Please try again.'' v"

record member_row =
  me_member :: WorkspaceMember
  me_you :: bool
  me_meta :: string
  me_removable :: bool

definition member_rows ::
  "host \<Rightarrow> (string \<Rightarrow> string) \<Rightarrow> Workspace \<Rightarrow> Account option \<Rightarrow> WorkspaceMember list \<Rightarrow> member_row list" where
  "member_rows h lower ws account members = map (\<lambda>m.
     \<lparr>me_member = m, me_you = (map_option (\<lambda>a. lower (ac_email a)) account = Some (lower (wmb_email m))),
      me_meta = (if wmb_role m = OwnerRole then ''Owner'' else ''Member'') @ '' '' @ mid_dot @ '' joined '' @ formatDate h (wmb_joined_at m),
      me_removable = (isOwner lower ws \<and> wmb_role m \<noteq> OwnerRole)\<rparr>) members"

subsection \<open>Tabs\<close>

record settings_page =
  st_tab :: string
  st_creating :: bool
  st_createdId :: "string option"
  st_prevCreateMode :: bool

definition settings_init :: "bool \<Rightarrow> bool \<Rightarrow> settings_page" where
  "settings_init createMode demo = \<lparr>st_tab = (if createMode \<or> \<not> demo then ''workspace'' else ''account''), st_creating = createMode,
     st_createdId = None, st_prevCreateMode = createMode\<rparr>"

text \<open>The adjustment during a render with another \<open>createMode\<close>.\<close>

definition settings_render :: "bool \<Rightarrow> settings_page \<Rightarrow> settings_page" where
  "settings_render createMode s =
     (if createMode = st_prevCreateMode s then s
      else if createMode then \<lparr>st_tab = ''workspace'', st_creating = True, st_createdId = None, st_prevCreateMode = True\<rparr>
      else s\<lparr>st_prevCreateMode := False\<rparr>)"

text \<open>The handlers, with the dashboard behind the page: \<open>onCancelCreate\<close> drops its intent to create a workspace, and a
  created workspace is selected there first. A storage that throws then leaves the page as it was.\<close>

definition selectTab :: "string \<Rightarrow> settings_page \<times> dash \<Rightarrow> settings_page \<times> dash" where
  "selectTab t = (\<lambda>(s, d). (s\<lparr>st_creating := False, st_tab := t\<rparr>, d\<lparr>db_createWsIntent := False\<rparr>))"

definition workspace_created :: "Workspace \<Rightarrow> settings_page \<times> dash \<Rightarrow> settings_page \<times> dash" where
  "workspace_created ws = (\<lambda>(s, d).
     (if storage_works d then s\<lparr>st_createdId := Some (wk_id ws), st_creating := False, st_tab := ''workspace''\<rparr> else s,
      createWorkspace ws d))"

definition cancel_create :: "settings_page \<times> dash \<Rightarrow> settings_page \<times> dash" where
  "cancel_create = (\<lambda>(s, d). (s\<lparr>st_creating := False\<rparr>, d\<lparr>db_createWsIntent := False\<rparr>))"

definition create_another :: "settings_page \<Rightarrow> settings_page" where
  "create_another s = s\<lparr>st_createdId := None, st_creating := True\<rparr>"

definition SET_TABS :: "(string \<times> string) list" where
  [data_defs]: "SET_TABS = [(''account'', ''Account''), (''workspace'', ''Workspace''), (''members'', ''Members''), (''danger'', ''Danger zone'')]"

definition tab_rail :: "bool \<Rightarrow> SettingsSection list \<Rightarrow> (string \<times> string) list" where
  "tab_rail demo sections =
     filter (\<lambda>(i, l). if demo then i \<noteq> ''members'' else i \<noteq> ''danger'') SET_TABS @ map (\<lambda>s. (xs_id s, xs_label s)) sections"

datatype settings_panel =
    SectionContent string
  | AccountContent
  | CreateContent
  | WorkspaceContent bool
  | MembersContent string
  | NoMembersContent
  | DangerContent
  | EmptyContent

definition settings_content ::
  "SettingsSection list \<Rightarrow> bool \<Rightarrow> bool \<Rightarrow> Workspace option \<Rightarrow> string \<Rightarrow> settings_page \<Rightarrow> settings_panel" where
  "settings_content sections demo canCreate ws wsId s =
     (if \<exists>x\<in>set sections. xs_id x = st_tab s then SectionContent (st_tab s)
      else if st_tab s = ''account'' then AccountContent
      else if st_tab s = ''workspace'' then
        (if st_creating s \<and> canCreate then CreateContent else WorkspaceContent (st_createdId s = Some wsId))
      else if st_tab s = ''members'' then (case ws of Some w \<Rightarrow> MembersContent (wk_id w) | None \<Rightarrow> NoMembersContent)
      else if st_tab s = ''danger'' then DangerContent
      else EmptyContent)"

subsection \<open>Properties of slugs\<close>

definition slug_or_dash :: "char \<Rightarrow> bool" where
  "slug_or_dash c \<longleftrightarrow> slug_char c \<or> c = CHR ''-''"

definition apart :: "char \<Rightarrow> char \<Rightarrow> bool" where
  "apart a b \<longleftrightarrow> \<not> (a = CHR ''-'' \<and> b = CHR ''-'')"

definition tidy :: "string \<Rightarrow> bool" where
  "tidy s \<longleftrightarrow> list_all slug_or_dash s \<and> successively apart s"

text \<open>A slug is words of letters and digits with single hyphens between them.\<close>

definition slug_ok :: "string \<Rightarrow> bool" where
  "slug_ok s \<longleftrightarrow> tidy s \<and> (s \<noteq> [] \<longrightarrow> hd s \<noteq> CHR ''-'' \<and> last s \<noteq> CHR ''-'')"

lemma slug_char_dash [simp]: "\<not> slug_char (CHR ''-'')"
  by (simp add: slug_char_def)

lemma slug_not_space: "slug_or_dash c \<Longrightarrow> \<not> is_space c"
  by (auto simp: slug_or_dash_def slug_char_def is_space_def Let_def)

lemma tidy_append: "tidy (xs @ ys) \<Longrightarrow> tidy xs \<and> tidy ys"
  by (auto simp: tidy_def successively_append_iff)

lemma tidy_rev [simp]: "tidy (rev s) = tidy s"
proof -
  have "successively (\<lambda>x y. apart y x) s = successively apart s" by (rule successively_cong) (auto simp: apart_def)
  then show ?thesis by (simp add: tidy_def list_all_iff)
qed

lemma tidy_dropWhile: "tidy s \<Longrightarrow> tidy (dropWhile P s)"
  by (metis takeWhile_dropWhile_id tidy_append)

lemma tidy_Cons: "tidy (c # s) \<longleftrightarrow> slug_or_dash c \<and> tidy s \<and> (s \<noteq> [] \<longrightarrow> apart c (hd s))"
  by (cases s) (auto simp: tidy_def)

lemma dash_runs_tidy:
  "tidy (dash_runs gap s) \<and> (gap \<longrightarrow> dash_runs gap s \<noteq> [] \<longrightarrow> hd (dash_runs gap s) \<noteq> CHR ''-'')"
proof (induction gap s rule: dash_runs.induct)
  case (1 gap)
  then show ?case by (simp add: tidy_def)
next
  case (2 gap c cs)
  then show ?case by (auto simp: tidy_Cons slug_or_dash_def apart_def)
qed

lemma strip_dashes_ok: "tidy s \<Longrightarrow> slug_ok (strip_dashes s)"
proof -
  define t where "t = dropWhile (\<lambda>c. c = CHR ''-'') s"
  define u where "u = dropWhile (\<lambda>c. c = CHR ''-'') (rev t)"
  assume "tidy s"
  then have "tidy (rev u)" by (simp add: t_def u_def tidy_dropWhile)
  moreover have "u \<noteq> [] \<Longrightarrow> hd u \<noteq> CHR ''-''" unfolding u_def by (rule hd_dropWhile)
  moreover have "u \<noteq> [] \<Longrightarrow> last u \<noteq> CHR ''-''"
  proof -
    assume "u \<noteq> []"
    then have "t \<noteq> []" by (auto simp: u_def)
    moreover have "last u = last (rev t)" unfolding u_def
      by (metis \<open>u \<noteq> []\<close> last_appendR takeWhile_dropWhile_id u_def)
    ultimately have "t \<noteq> []" "last u = hd t" by (simp_all add: last_rev)
    moreover have "t \<noteq> [] \<Longrightarrow> hd t \<noteq> CHR ''-''" unfolding t_def by (rule hd_dropWhile)
    ultimately show "last u \<noteq> CHR ''-''" by simp
  qed
  ultimately show "slug_ok (strip_dashes s)"
    by (simp add: slug_ok_def strip_dashes_def t_def [symmetric] u_def [symmetric] hd_rev last_rev)
qed

lemma dash_runs_id: "tidy s \<Longrightarrow> gap \<longrightarrow> s \<noteq> [] \<longrightarrow> hd s \<noteq> CHR ''-'' \<Longrightarrow> dash_runs gap s = s"
  by (induction gap s rule: dash_runs.induct) (auto simp: tidy_Cons slug_or_dash_def apart_def)

lemma trim_tidy: "tidy s \<Longrightarrow> trim s = s"
proof -
  assume "tidy s"
  then have "\<forall>c\<in>set s. \<not> is_space c" by (auto simp: tidy_def list_all_iff slug_not_space)
  then have "dropWhile is_space s = s" "dropWhile is_space (rev s) = rev s"
    by (auto simp: dropWhile_eq_self_iff hd_rev)
  then show ?thesis by (simp add: trim_def)
qed

lemma strip_dashes_id: "slug_ok s \<Longrightarrow> strip_dashes s = s \<and> strip_dashes (s @ ''-'') = s"
proof -
  assume s: "slug_ok s"
  have "dropWhile (\<lambda>c. c = CHR ''-'') s = s" using s by (cases s) (auto simp: slug_ok_def)
  moreover have "dropWhile (\<lambda>c. c = CHR ''-'') (rev s) = rev s"
    using s by (cases s rule: rev_cases) (auto simp: slug_ok_def)
  moreover have "dropWhile (\<lambda>c. c = CHR ''-'') (s @ ''-'') = (if s = [] then [] else s @ ''-'')"
    using s by (cases s) (auto simp: slug_ok_def)
  ultimately show ?thesis by (auto simp: strip_dashes_def)
qed

lemma slug_ok_dash: "slug_ok s \<Longrightarrow> tidy (s @ ''-'')"
  by (auto simp: slug_ok_def tidy_def successively_append_iff slug_or_dash_def apart_def)

text \<open>A slug has the shape of a slug, whatever was typed, and making a slug of a slug changes nothing (where \<open>lower\<close>
  leaves text of lower-case letters, digits and hyphens alone).\<close>

theorem slugify_normalises:
  assumes "\<And>t. list_all slug_or_dash t \<Longrightarrow> lower t = t"
  shows "slug_ok (slugify lower s) \<and> slugify lower (slugify lower s) = slugify lower s"
proof -
  have ok: "slug_ok (slugify lower s)" unfolding slugify_def using dash_runs_tidy by (blast intro: strip_dashes_ok)
  then have t: "tidy (slugify lower s)" by (simp add: slug_ok_def)
  have "slugify lower (slugify lower s) = strip_dashes (dash_runs False (trim (slugify lower s)))"
    using assms t unfolding slugify_def [of lower "slugify lower s"] by (simp add: tidy_def)
  also have "\<dots> = slugify lower s" using t ok by (simp add: trim_tidy dash_runs_id strip_dashes_id)
  finally show ?thesis using ok by simp
qed

theorem slugify_normalises_witness:
  "slugify id '' --acme  corp! 2'' = ''acme-corp-2'' \<and> slugify id ''acme-corp-2'' = ''acme-corp-2''"
proof -
  have e: "slugify id '' --acme  corp! 2'' = ''acme-corp-2''"
    by (simp add: slugify_def trim_def is_space_def slug_char_def strip_dashes_def)
  show ?thesis using slugify_normalises [of id "'' --acme  corp! 2''"] by (simp add: e)
qed

text \<open>A hyphen typed at the end of a slug is dropped at once: the slug field shows what it showed before, so the slug
  \<open>acme-production\<close> of the field's placeholder cannot be typed from left to right.\<close>

theorem slug_hyphen_dropped:
  assumes "\<And>t. list_all slug_or_dash t \<Longrightarrow> lower t = t" "slug_ok s"
  shows "effectiveSlug lower (type_slug lower (s @ ''-'') v) = s"
proof -
  have t: "tidy (s @ ''-'')" using assms(2) by (rule slug_ok_dash)
  then have "lower (s @ ''-'') = s @ ''-''" using assms(1) by (simp add: tidy_def)
  then show ?thesis
    using t assms(2) by (simp add: effectiveSlug_def type_slug_def slugify_def trim_tidy dash_runs_id strip_dashes_id)
qed

theorem slug_hyphen_dropped_witness:
  "effectiveSlug id (type_slug id ''acme-'' create_view_init) = ''acme''"
proof -
  have "slug_ok ''acme''" by (simp add: slug_ok_def tidy_def slug_or_dash_def slug_char_def apart_def)
  then show ?thesis using slug_hyphen_dropped [of id "''acme''"] by simp
qed

subsection \<open>Properties of the forms\<close>

text \<open>However quickly the form is submitted, at most one workspace is being created: a request is under way exactly
  while the form shows that it is pending, and a submission then sends nothing.\<close>

theorem one_create_request:
  assumes "reach (\<lambda>s. s = (create_view_init, 0)) (create_step lower) (v, n)"
  shows "n \<le> 1 \<and> (n = 1 \<longleftrightarrow> cw_pending v) \<and> (cw_pending v \<longrightarrow> snd (cw_submit lower v) = None)"
proof -
  have "one_request (v, n)" using assms by (rule create_form.reach_inv)
  then show ?thesis by (auto simp: one_request_def cw_submit_def)
qed

definition acme_form :: create_view where
  "acme_form = create_view_init\<lparr>cw_name := ''acme''\<rparr>"

theorem one_create_request_witness:
  "snd (cw_submit id (fst (cw_submit id acme_form))) = None \<and> snd (cw_submit id acme_form) \<noteq> None"
proof -
  have sub: "cw_submit id acme_form = (acme_form\<lparr>cw_submitting := True, cw_pending := True, cw_error := []\<rparr>,
      Some \<lparr>cwi_name = ''acme'', cwi_slug = ''acme'', cwi_env = Production\<rparr>)"
    by (simp add: cw_submit_def acme_form_def create_view_init_def cw_canCreate_def effectiveSlug_def slugify_def trim_def
        is_space_def slug_char_def strip_dashes_def)
  let ?v = "fst (cw_submit id acme_form)"
  have "reach (\<lambda>s. s = (create_view_init, 0)) (create_step id) (create_view_init, 0)" by (rule reach_init) simp
  then have "reach (\<lambda>s. s = (create_view_init, 0)) (create_step id) (acme_form, 0)"
    by (rule reach_step) (use typed_name [of id create_view_init 0 "''acme''"] in \<open>simp add: type_name_def acme_form_def\<close>)
  then have "reach (\<lambda>s. s = (create_view_init, 0)) (create_step id) (?v, 1)"
    by (rule reach_step) (use submitted [OF sub, of 0] in \<open>simp add: sub\<close>)
  from one_create_request [OF this] show ?thesis by (simp add: sub)
qed

text \<open>Changing the password: passwords that differ are not sent, a failed request keeps the session and what was
  typed and says why, and a successful one renews the session under the same address and clears the form.\<close>

theorem password_change_outcome:
  assumes "br_ok (ap_browser a)" "fst (abs_app a) = SignedIn t e" "\<not> pw_saving f" "pw_submit respond (f, a) = (f', a')"
  shows "if pw_next f \<noteq> pw_confirm f then a' = a \<and> f' = f\<lparr>pw_error := ''New passwords don't match.''\<rparr>
    else case respond (pw_current f) (pw_next f) of
        Inl err \<Rightarrow> a' = a \<and> (pw_current f', pw_next f', pw_editing f') = (pw_current f, pw_next f, pw_editing f) \<and>
          \<not> pw_saving f' \<and> (\<forall>m s c. err = APIError m s c \<longrightarrow> pw_error f' = m)
      | Inr t' \<Rightarrow> abs_app a' = (SignedIn t' e, ap_invite a) \<and> pw_current f' = [] \<and> pw_next f' = [] \<and> pw_error f' = [] \<and>
          pw_justChanged f' \<and> \<not> pw_editing f'"
proof -
  have tok: "ap_token a \<noteq> None" "snd (abs_app a) = ap_invite a" using assms(2) by (auto simp: abs_app_def split: option.splits)
  have r: "abs_app (handleSessionRenewed t' a) = (SignedIn t' e, ap_invite a)" for t'
    using assms(1,2) tok by (auto simp: abs_app_def renewed_ok handlers_ok split: option.splits)
  show ?thesis using assms(1,3,4) r
    by (auto simp: pw_submit_def pw_reset_def split: if_splits sum.splits api_error.splits)
qed

definition ada_app :: app where
  "ada_app = handleLogin ''t1'' ''a@b'' fresh_app"

definition typed_passwords :: password_form where
  "typed_passwords = \<lparr>pw_editing = True, pw_current = ''old'', pw_next = ''new'', pw_confirm = ''new'', pw_saving = False,
     pw_error = [], pw_justChanged = False\<rparr>"

theorem password_change_outcome_witness:
  "abs_app (snd (pw_submit (\<lambda>c n. Inr ''t2'') (typed_passwords, ada_app))) = (SignedIn ''t2'' ''a@b'', None)"
proof -
  have ok: "br_ok (ap_browser fresh_app)" by (simp add: fresh_app_def fresh_browser_def)
  then have a: "br_ok (ap_browser ada_app)" "abs_app ada_app = (SignedIn ''t1'' ''a@b'', None)" "ap_invite ada_app = None"
    by (simp_all add: ada_app_def abs_app_def handlers_ok fresh_app_def)
  obtain f' a' where p: "pw_submit (\<lambda>c n. Inr ''t2'') (typed_passwords, ada_app) = (f', a')" by (metis surj_pair)
  have "\<not> pw_saving typed_passwords" "fst (abs_app ada_app) = SignedIn ''t1'' ''a@b''" by (simp_all add: typed_passwords_def a)
  from password_change_outcome [OF a(1) this(2,1) p] have "abs_app a' = (SignedIn ''t2'' ''a@b'', None)"
    by (simp add: a typed_passwords_def)
  then show ?thesis by (simp add: p)
qed

text \<open>Every tab of the rail has a panel, whichever tab was shown and whether a workspace was being created before.\<close>

theorem every_tab_has_panel:
  assumes "(t, l) \<in> set (tab_rail demo sections)"
  shows "settings_content sections demo canCreate ws wsId (fst (selectTab t (s, d))) \<noteq> EmptyContent"
  using assms by (auto simp: settings_content_def selectTab_def tab_rail_def SET_TABS_def split: if_splits option.splits)

theorem every_tab_has_panel_witness:
  "settings_content [] False True None [] (fst (selectTab ''members'' (settings_init True False, demo_dash))) \<noteq> EmptyContent"
  using every_tab_has_panel [of "''members''" "''Members''" False "[]"] by (simp add: tab_rail_def SET_TABS_def)

text \<open>The page tracks one busy row: with two requests under way, the end of the first re-enables the button of the second.\<close>

lemma busy_row_forgotten:
  "mv_busyId (action_end outcome (refreshMembers ws) fallback (action_start j (action_start i v))) = None"
  by (cases outcome) (simp_all add: action_end_def action_start_def refreshMembers_def)

end
