(* ===== verification/Elements.thy ===== *)
theory Elements
  imports Ui_Hooks
begin

text \<open>
  What a page puts on the screen, as far as a visitor can read it or act on it: texts, announcements, buttons, inputs,
  field sets and forms. Layout and styling are left out. A button carries the event of its handler, so that a page is a
  function from its state to elements (a chart is a box with its name) and a second function from an event and a state to the next state. The elements of
  React and of the document are modelled as the code uses them: a disabled button does nothing, a disabled field set disables all it
  holds (also the submission of its buttons), a form is submitted through an enabled submit button or, when that button is
  enabled, from a field.
\<close>

datatype 'e element =
    Words string
  | AlertText string
  | StatusBox "'e element list"
  | SectionTitle string "string option"
  | PressButton bool string 'e
  | RowPress bool "string list" 'e
  | InertButton string
  | SwitchButton bool 'e
  | SubmitButton bool string
  | TextInput string string bool "string \<Rightarrow> 'e"
  | FieldRow string "string option" "'e element list"
  | FieldSet bool "'e element list"
  | FormBox 'e "'e element list"
  | Choice string "(string \<times> string) list" "string \<Rightarrow> 'e"
  | ItemList string "'e element list list"
  | ChartBox string

text \<open>The texts a visitor can read, in the order of the page.\<close>

fun texts :: "'e element \<Rightarrow> string list" where
  "texts (Words s) = [s]"
| "texts (AlertText s) = [s]"
| "texts (StatusBox es) = concat (map texts es)"
| "texts (SectionTitle t h) = t # (case h of None \<Rightarrow> [] | Some x \<Rightarrow> [x])"
| "texts (PressButton d l e) = [l]"
| "texts (RowPress d ls e) = ls"
| "texts (InertButton l) = [l]"
| "texts (SwitchButton b e) = []"
| "texts (SubmitButton d l) = [l]"
| "texts (TextInput l v r f) = [v]"
| "texts (FieldRow l h es) = l # (case h of None \<Rightarrow> [] | Some x \<Rightarrow> [x]) @ concat (map texts es)"
| "texts (FieldSet d es) = concat (map texts es)"
| "texts (FormBox e es) = concat (map texts es)"
| "texts (Choice v os f) = map snd os"
| "texts (ItemList l rows) = concat (map (\<lambda>r. concat (map texts r)) rows)"
| "texts (ChartBox c) = []"

fun alerts :: "'e element \<Rightarrow> string list" where
  "alerts (AlertText s) = [s]"
| "alerts (StatusBox es) = concat (map alerts es)"
| "alerts (FieldRow l h es) = concat (map alerts es)"
| "alerts (FieldSet d es) = concat (map alerts es)"
| "alerts (FormBox e es) = concat (map alerts es)"
| "alerts (ItemList l rows) = concat (map (\<lambda>r. concat (map alerts r)) rows)"
| "alerts _ = []"

text \<open>Whether the submit buttons below an element are enabled; \<open>dis\<close> is the state of the field sets around it.\<close>

fun submits :: "bool \<Rightarrow> 'e element \<Rightarrow> bool list" where
  "submits dis (SubmitButton d l) = [\<not> dis \<and> \<not> d]"
| "submits dis (StatusBox es) = concat (map (submits dis) es)"
| "submits dis (FieldRow l h es) = concat (map (submits dis) es)"
| "submits dis (FieldSet d es) = concat (map (submits (dis \<or> d)) es)"
| "submits dis (ItemList l rows) = concat (map (\<lambda>r. concat (map (submits dis) r)) rows)"
| "submits dis _ = []"

text \<open>The events a visitor can cause by pressing something, submissions included.\<close>

fun presses :: "bool \<Rightarrow> 'e element \<Rightarrow> 'e list" where
  "presses dis (PressButton d l e) = (if dis \<or> d then [] else [e])"
| "presses dis (RowPress d ls e) = (if dis \<or> d then [] else [e])"
| "presses dis (SwitchButton b e) = (if dis then [] else [e])"
| "presses dis (StatusBox es) = concat (map (presses dis) es)"
| "presses dis (FieldRow l h es) = concat (map (presses dis) es)"
| "presses dis (FieldSet d es) = concat (map (presses (dis \<or> d)) es)"
| "presses dis (FormBox e es) =
     (if list_ex id (concat (map (submits dis) es)) then [e] else []) @ concat (map (presses dis) es)"
| "presses dis (Choice v os f) = (if dis then [] else map (\<lambda>o'. f (fst o')) os)"
| "presses dis (ItemList l rows) = concat (map (\<lambda>r. concat (map (presses dis) r)) rows)"
| "presses dis _ = []"

text \<open>The handlers of the inputs a visitor can type into.\<close>

fun edits :: "bool \<Rightarrow> 'e element \<Rightarrow> (string \<Rightarrow> 'e) list" where
  "edits dis (TextInput l v r f) = (if dis \<or> r then [] else [f])"
| "edits dis (StatusBox es) = concat (map (edits dis) es)"
| "edits dis (FieldRow l h es) = concat (map (edits dis) es)"
| "edits dis (FieldSet d es) = concat (map (edits (dis \<or> d)) es)"
| "edits dis (FormBox e es) = concat (map (edits dis) es)"
| "edits dis (ItemList l rows) = concat (map (\<lambda>r. concat (map (edits dis) r)) rows)"
| "edits dis _ = []"

abbreviation page_texts :: "'e element list \<Rightarrow> string list" where
  "page_texts es \<equiv> concat (map texts es)"

abbreviation page_alerts :: "'e element list \<Rightarrow> string list" where
  "page_alerts es \<equiv> concat (map alerts es)"

abbreviation offers :: "'e element list \<Rightarrow> 'e list" where
  "offers es \<equiv> concat (map (presses False) es)"

abbreviation inputs :: "'e element list \<Rightarrow> (string \<Rightarrow> 'e) list" where
  "inputs es \<equiv> concat (map (edits False) es)"

text \<open>An element that is there only under a condition, as \<open>cond && element\<close>.\<close>

definition shown :: "bool \<Rightarrow> 'e element list \<Rightarrow> 'e element list" where
  "shown b es = (if b then es else [])"

lemma shown_simps [simp]: "shown True es = es" "shown False es = []"
  by (simp_all add: shown_def)

lemma offers_shown [simp]: "offers (shown b es) = (if b then offers es else [])"
  by (simp add: shown_def)

lemma inputs_shown [simp]: "inputs (shown b es) = (if b then inputs es else [])"
  by (simp add: shown_def)

subsection \<open>What holds of every page\<close>

text \<open>A disabled field set offers nothing, at any depth.\<close>

lemma submits_disabled: "True \<notin> set (submits True e)"
  by (induction True e rule: submits.induct) auto

lemma presses_disabled [simp]: "presses True e = []"
proof (induction True e rule: presses.induct)
  case (7 e es)
  have "\<not> list_ex id (concat (map (submits True) es))" by (auto simp: list_ex_iff submits_disabled)
  then show ?case using 7 by (simp add: concat_eq_Nil_conv)
qed (simp_all add: concat_eq_Nil_conv)

lemma edits_disabled [simp]: "edits True e = []"
  by (induction True e rule: edits.induct) (simp_all add: concat_eq_Nil_conv)

text \<open>The events of a part of a page, renamed into those of the page.\<close>

lemma submits_map [simp]: "submits dis (map_element f e) = submits dis e"
  by (induction dis e rule: submits.induct) (simp_all cong: map_cong)

lemma presses_map [simp]: "presses dis (map_element f e) = map f (presses dis e)"
proof (induction dis e rule: presses.induct)
  case (7 dis e es)
  have "map (submits dis \<circ> map_element f) es = map (submits dis) es" by simp
  then show ?case using 7 by (simp add: map_concat cong: map_cong)
qed (simp_all add: map_concat comp_def cong: map_cong)

lemma edits_map [simp]: "edits dis (map_element f e) = map (\<lambda>g. f \<circ> g) (edits dis e)"
  by (induction dis e rule: edits.induct) (simp_all add: map_concat comp_def cong: map_cong)

lemma alerts_map [simp]: "alerts (map_element f e) = alerts e"
  by (induction e rule: alerts.induct) (simp_all add: comp_def cong: map_cong)

lemma texts_map [simp]: "texts (map_element f e) = texts e"
  by (induction e rule: texts.induct) (simp_all add: comp_def cong: map_cong)

lemma offers_map [simp]: "offers (map (map_element f) es) = map f (offers es)"
  by (induction es) simp_all

lemma alerts_are_texts: "set (alerts e) \<subseteq> set (texts e)"
  by (induction e rule: alerts.induct) fastforce+

subsection \<open>Pages as transition systems\<close>

text \<open>
  A page with its surroundings: a visitor presses what the page offers or types into its inputs, and the
  surroundings (answers of the server, timers, other pages) take steps of their own.
\<close>

inductive page_step :: "('s \<Rightarrow> 'e element list) \<Rightarrow> ('e \<Rightarrow> 's \<Rightarrow> 's) \<Rightarrow> ('s \<Rightarrow> 's \<Rightarrow> bool) \<Rightarrow> 's \<Rightarrow> 's \<Rightarrow> bool"
  for view react env where
  visitor_presses: "e \<in> set (offers (view s)) \<Longrightarrow> page_step view react env s (react e s)"
| visitor_types: "f \<in> set (inputs (view s)) \<Longrightarrow> page_step view react env s (react (f t) s)"
| surroundings: "env s t \<Longrightarrow> page_step view react env s t"

inductive_cases page_stepE: "page_step view react env s t"

lemma reach_press:
  "reach start (page_step view react env) s \<Longrightarrow> e \<in> set (offers (view s)) \<Longrightarrow> reach start (page_step view react env) (react e s)"
  by (erule reach_step) (erule visitor_presses)

lemma reach_type:
  "reach start (page_step view react env) s \<Longrightarrow> f \<in> set (inputs (view s)) \<Longrightarrow> reach start (page_step view react env) (react (f t) s)"
  by (erule reach_step) (erule visitor_types)

text \<open>
  An invariant of a page need only be kept by the events the page offers in that state: a guard
  of the handler may be missing where the button is not there or disabled.
\<close>

locale guarded_page =
  fixes start :: "'s \<Rightarrow> bool" and view :: "'s \<Rightarrow> 'e element list" and react :: "'e \<Rightarrow> 's \<Rightarrow> 's"
    and env :: "'s \<Rightarrow> 's \<Rightarrow> bool" and inv :: "'s \<Rightarrow> bool"
  assumes start_ok: "start s \<Longrightarrow> inv s"
    and press_ok: "inv s \<Longrightarrow> e \<in> set (offers (view s)) \<Longrightarrow> inv (react e s)"
    and type_ok: "inv s \<Longrightarrow> f \<in> set (inputs (view s)) \<Longrightarrow> inv (react (f t) s)"
    and env_ok: "inv s \<Longrightarrow> env s s' \<Longrightarrow> inv s'"

sublocale guarded_page \<subseteq> pages: invariant_system start "page_step view react env" inv
proof
  show "start s \<Longrightarrow> inv s" for s by (rule start_ok)
  fix s t
  assume "inv s" "page_step view react env s t"
  from this(2,1) show "inv t"
  proof cases
    case (visitor_presses e)
    with press_ok [OF \<open>inv s\<close>, of e] show ?thesis by simp
  next
    case (visitor_types f x)
    with type_ok [OF \<open>inv s\<close>, of f x] show ?thesis by simp
  next
    case surroundings
    with env_ok [OF \<open>inv s\<close>] show ?thesis by blast
  qed
qed

end
