(* ===== verification/Settings_View.thy ===== *)
theory Settings_View
  imports Settings Elements
begin

text \<open>
  What the settings page shows and what a visitor can press on it (\<open>modules/settings/pages/SettingsPage.tsx\<close>): the account with
  the form of the password, the form of a new workspace, the instructions to connect an application, and the members
  with their invites. The page is composed with the dashboard behind it at the end.
\<close>

subsection \<open>Small parts\<close>

definition SET_USER :: "string \<times> string \<times> string \<times> string \<times> string" where
  [data_defs]: "SET_USER = (''Mark Gonzales'', ''mark@umbrella.dev'', ''MG'', ''Owner'', ''Jan 14, 2025'')"

record SettingsWorkspace =
  sw_name :: string
  sw_id :: string
  sw_defaultRetention :: string
  sw_members :: int

definition SET_WORKSPACE :: SettingsWorkspace where
  [data_defs]: "SET_WORKSPACE = \<lparr>sw_name = ''umbrella'', sw_id = ''ws_2qHv4Rt81xLpKnvR'', sw_defaultRetention = ''30 days'', sw_members = 12\<rparr>"

text \<open>The message below a copy button and its label.\<close>

definition copy_message :: "CopyStatus \<Rightarrow> string" where
  "copy_message status =
     (if status = CopyFailed then ''Couldn'' @ apostrophe @ ''t copy. Select and copy the text manually.''
      else if status = Copied then ''Copied to clipboard.'' else [])"

definition copyButton :: "(string \<Rightarrow> 'e) \<Rightarrow> CopyStatus \<Rightarrow> string \<Rightarrow> string \<Rightarrow> 'e element list" where
  "copyButton onCopy status value label =
     [PressButton False (if status = Copied then ''Copied'' else label) (onCopy value), StatusBox [Words (copy_message status)]]"

definition dots :: string where
  [data_defs]: "dots = concat (replicate 11 [CHR 0xE2, CHR 0x80, CHR 0xA2])"

subsection \<open>The account (AccountView, ChangePasswordField)\<close>

datatype pw_event = PwChange | PwCancel | PwSubmit | PwCurrent string | PwNext string | PwConfirm string

definition changePasswordField :: "password_form \<Rightarrow> pw_event element list" where
  "changePasswordField f =
     (if \<not> pw_editing f then
        [FieldRow ''Password'' (if pw_justChanged f then Some ''Password updated.'' else None)
           [Words dots, PressButton False ''Change'' PwChange]]
      else
        [FormBox PwSubmit (
           [FieldSet (pw_saving f)
              [FieldRow ''Current password'' None [TextInput ''Current password'' (pw_current f) False PwCurrent],
               FieldRow ''New password'' (Some ''At least 8 characters.'') [TextInput ''New password'' (pw_next f) False PwNext],
               FieldRow ''Confirm new password'' None [TextInput ''Confirm new password'' (pw_confirm f) False PwConfirm]]]
           @ shown (pw_error f \<noteq> []) [AlertText (pw_error f)]
           @ [PressButton (pw_saving f) ''Cancel'' PwCancel,
              SubmitButton (pw_saving f \<or> pw_current f = [] \<or> pw_next f = [] \<or> pw_confirm f = [])
                (if pw_saving f then ''Saving'' @ ellipsis else ''Save password'')])])"

text \<open>The start of a submission with the request it sends, and the end of that request.\<close>

definition pw_start :: "password_form \<Rightarrow> password_form \<times> (string \<times> string) option" where
  "pw_start f =
     (if pw_saving f then (f, None)
      else if pw_next f \<noteq> pw_confirm f then (f\<lparr>pw_error := ''New passwords don't match.''\<rparr>, None)
      else (f\<lparr>pw_saving := True, pw_error := []\<rparr>, Some (pw_current f, pw_next f)))"

definition pw_end :: "api_error + string \<Rightarrow> password_form \<times> app \<Rightarrow> password_form \<times> app" where
  "pw_end outcome = (\<lambda>(f, a).
     case outcome of
       Inr token \<Rightarrow>
         (if br_ok (ap_browser a) then (pw_reset f)\<lparr>pw_justChanged := True, pw_saving := False\<rparr>
          else f\<lparr>pw_saving := False, pw_error := ''Could not change password. Please try again.''\<rparr>, handleSessionRenewed token a)
     | Inl e \<Rightarrow> (f\<lparr>pw_saving := False,
         pw_error := settings_errorMessage e ''Could not change password. Please try again.''\<rparr>, a))"

text \<open>The field with the session and the requests under way.\<close>

type_synonym pw_state = "password_form \<times> app \<times> (string \<times> string) list"

fun pw_react :: "pw_event \<Rightarrow> pw_state \<Rightarrow> pw_state" where
  "pw_react PwChange (f, a, rs) = (pw_edit f, a, rs)"
| "pw_react PwCancel (f, a, rs) = (pw_reset f, a, rs)"
| "pw_react PwSubmit (f, a, rs) = (case pw_start f of (f', None) \<Rightarrow> (f', a, rs) | (f', Some r) \<Rightarrow> (f', a, rs @ [r]))"
| "pw_react (PwCurrent s) (f, a, rs) = (f\<lparr>pw_current := s\<rparr>, a, rs)"
| "pw_react (PwNext s) (f, a, rs) = (f\<lparr>pw_next := s\<rparr>, a, rs)"
| "pw_react (PwConfirm s) (f, a, rs) = (f\<lparr>pw_confirm := s\<rparr>, a, rs)"

inductive pw_env :: "pw_state \<Rightarrow> pw_state \<Rightarrow> bool" where
  pw_answered: "pw_end outcome (f, a) = (f', a') \<Longrightarrow> pw_env (f, a, xs @ r # ys) (f', a', xs @ ys)"

definition password_init :: password_form where
  "password_init = \<lparr>pw_editing = False, pw_current = [], pw_next = [], pw_confirm = [], pw_saving = False, pw_error = [],
     pw_justChanged = False\<rparr>"

datatype account_event = ToggleKeys | Password pw_event

definition accountView :: "bool \<Rightarrow> string \<Rightarrow> bool \<Rightarrow> password_form \<Rightarrow> account_event element list" where
  "accountView demo email tabnav f =
     (if \<not> demo then
        [SectionTitle ''Account'' (Some ''Your sign-in identity.''),
         FieldRow ''Email'' None [Words email],
         SectionTitle ''Security'' (Some ''Change the password used to sign in.'')]
        @ map (map_element Password) (changePasswordField f)
      else
        [SectionTitle ''Profile'' (Some ''How you appear in audit logs, comments, and trace assignments across this workspace.''),
         FieldRow ''Email'' (Some ''Used for sign-in.'') [TextInput [] email True (\<lambda>_. ToggleKeys), InertButton ''Change email''],
         InertButton ''Cancel'', InertButton ''Save profile'',
         SectionTitle ''Security'' (Some ''Sign-in factors, active sessions, and recent activity on your account.''),
         FieldRow ''Password'' (Some ''Last changed 84 days ago.'') [Words dots, InertButton ''Change''],
         SectionTitle ''Display'' (Some ''Personal preferences. Stored on this device.''),
         FieldRow ''Keyboard navigation'' (Some ''Use J / K to move through trace lists; / to focus search.'')
           [SwitchButton tabnav ToggleKeys]])"

subsection \<open>A new workspace (CreateWorkspaceView)\<close>

datatype create_event = CwName string | CwSlug string | CwEnv string | CwSubmit | CwCancel

definition env_options :: "(string \<times> string) list" where
  [data_defs]: "env_options = [(''production'', ''Production''), (''staging'', ''Staging''), (''development'', ''Development'')]"

definition env_of :: "string \<Rightarrow> workspace_env" where
  "env_of s = (if s = ''staging'' then Staging else if s = ''development'' then Development else Production)"

definition createWorkspaceView :: "(string \<Rightarrow> string) \<Rightarrow> create_view \<Rightarrow> create_event element list" where
  "createWorkspaceView lower v =
     [FormBox CwSubmit (
        [Words (''Step 1 of 2 '' @ mid_dot @ '' Workspace details''),
         SectionTitle ''Create workspace'' (Some (''First, name your workspace. Next, we'' @ apostrophe
           @ ''ll show you how to connect your application.'')),
         FieldSet (cw_pending v)
           [FieldRow ''Workspace name'' (Some ''Shown in the workspace switcher and on invites.'')
              [TextInput ''Workspace name'' (cw_name v) False CwName],
            FieldRow ''Slug'' (Some ''A readable label. Applications send data with an API key, not the slug.'')
              [TextInput ''Slug'' (effectiveSlug lower v) False CwSlug],
            FieldRow ''Environment'' (Some ''Labels the workspace in the switcher.'')
              [Choice (env_str (cw_env v)) env_options CwEnv]]]
        @ shown (cw_error v \<noteq> []) [AlertText (cw_error v)]
        @ [PressButton (cw_pending v) ''Cancel'' CwCancel,
           SubmitButton (\<not> cw_canCreate lower v \<or> cw_pending v)
             (if cw_pending v then ''Creating'' @ ellipsis else ''Create workspace & continue'')])]"

subsection \<open>Connecting an application (WorkspaceConnection, WorkspaceView)\<close>

datatype connect_event = OpenApiKeys | OpenOverview | CopyConfig string | RenameTo string | KeepFor string

text \<open>The focus moves to the heading when the page has just created the workspace; \<open>before\<close> is the value of the last render.\<close>

definition heading_focus :: "bool option \<Rightarrow> bool \<Rightarrow> bool" where
  "heading_focus before justCreated \<longleftrightarrow> justCreated \<and> before \<noteq> Some justCreated"

definition workspaceConnection ::
  "SettingsWorkspace \<Rightarrow> bool \<Rightarrow> bool \<Rightarrow> bool \<Rightarrow> string option \<Rightarrow> CopyStatus \<Rightarrow> connect_event element list" where
  "workspaceConnection ws justCreated canOverview canKeys ingestEndpoint status =
     (let config = connection_config ingestEndpoint in
      shown justCreated [StatusBox [Words (sw_name ws @ '' created '' @ mid_dot @ '' Step 2 of 2'')]]
      @ [SectionTitle ''Connect your application'' None,
         Words (''Applications send traces with an API key. Each key belongs to one workspace, so traces sent with a key from ''
           @ sw_name ws @ '' land here.''),
         Words ''1. Create an API key'',
         Words (''Create a key for this workspace and copy its trc_'' @ ellipsis @ '' token. It is shown only once. Use a separate key '' @
           ''for each application so you can revoke them independently.'')]
      @ shown canKeys [PressButton False ''Create API key'' OpenApiKeys]
      @ [Words ''2. Configure your OpenTelemetry exporter'',
         Words (''Set these environment variables where your application runs, replacing YOUR_API_KEY with the token.'' @
           (if truthy_str ingestEndpoint then []
            else '' The endpoint shown is for an application on the host of a local Docker installation; for other deployments, use '' @
              ''the collector address provided by your operator.'')),
         Words config]
      @ copyButton CopyConfig status config ''Copy configuration''
      @ [Words ''3. Send your first trace'',
         Words (''Restart your instrumented application and run a request. Requests without a valid key are rejected with 401 and '' @
           ''nothing is stored.''),
         Words (''You can always find these instructions in Settings '' @ [CHR 0xE2, CHR 0x86, CHR 0x92] @ '' Workspace.'')]
      @ shown canOverview [PressButton False ''Go to overview'' OpenOverview])"

definition retention_options :: "(string \<times> string) list" where
  [data_defs]: "retention_options = [(''7 days'', ''7 days''), (''30 days'', ''30 days''), (''90 days'', ''90 days''), (''365 days'', ''1 year'')]"

definition workspaceView ::
  "SettingsWorkspace \<Rightarrow> bool \<Rightarrow> bool \<Rightarrow> bool \<Rightarrow> bool \<Rightarrow> string option \<Rightarrow> CopyStatus \<Rightarrow> string \<Rightarrow> string \<Rightarrow> connect_event element list" where
  "workspaceView ws demo justCreated canOverview canKeys ingestEndpoint status name retention =
     (if \<not> demo then
        (if sw_id ws \<noteq> [] then workspaceConnection ws justCreated canOverview canKeys ingestEndpoint status
         else [SectionTitle ''Workspace'' (Some ''Create a workspace to get its connection instructions.'')])
        @ shown (\<not> justCreated)
            [SectionTitle ''Retention'' (Some (''Retention is configured by the deployment operator. Expired spans are deleted; daily '' @
               ''aggregates are retained separately.'')),
             Words ''Workspace editing and retention controls are not yet available.'']
      else
        [SectionTitle ''Identity'' (Some ''The display name your team uses to recognise this workspace.''),
         FieldRow ''Workspace name'' (Some ''Shown in the workspace switcher and on invites.'') [TextInput [] name False RenameTo],
         InertButton ''Cancel'', InertButton ''Save changes'',
         SectionTitle ''Data & ingestion'' (Some ''Controls applied to every trace ingested into this workspace.''),
         FieldRow ''Trace retention'' (Some ''Older spans are moved to cold storage and excluded from search.'')
           [Choice retention retention_options KeepFor]])"

subsection \<open>Members and invites (MembersView)\<close>

text \<open>What the page reads of its two queries.\<close>

record 'a answer =
  an_loading :: bool
  an_error :: "api_error option"
  an_data :: "'a option"

datatype member_event =
    MvEmail string
  | MvInvite
  | MvDone
  | MvCopy string
  | MvRemove WorkspaceMember
  | MvNewLink string
  | MvRevoke string

definition members_hint :: "bool \<Rightarrow> Workspace \<Rightarrow> string" where
  "members_hint owner ws =
     ''Everyone who can see '' @ wk_name ws @ apostrophe @ ''s traces, usage and API keys. '' @
     (if owner then ''Invite people by email and share the link with them.''
      else ''Only the workspace owner can invite or remove members.'')"

definition created_text :: "CreatedInvite \<Rightarrow> string" where
  "created_text c =
     (if ci_email_sent c then ''We emailed an invite to '' @ wi_email c @ ''. You can also send them this link. ''
      else ''Send this link to '' @ wi_email c @ ''. '') @
     ''They need to sign in or sign up with that address to accept it. The link is shown only once.''"

definition member_item :: "member_row \<Rightarrow> members_view \<Rightarrow> member_event element list" where
  "member_item r v =
     [Words (wmb_email (me_member r))] @ shown (me_you r) [Words ''You''] @ [Words (me_meta r)] @
     shown (me_removable r)
       [PressButton (mv_busyId v = Some (wmb_user_id (me_member r)))
          (if mv_busyId v = Some (wmb_user_id (me_member r)) then ''Removing'' @ ellipsis else ''Remove'') (MvRemove (me_member r))]"

definition invite_item :: "host \<Rightarrow> WorkspaceInvite \<Rightarrow> members_view \<Rightarrow> member_event element list" where
  "invite_item h i v =
     [Words (wi_email i),
      Words (''Invited '' @ formatDate h (wi_created_at i) @ '' '' @ mid_dot @ '' expires '' @ formatDate h (wi_expires_at i)),
      PressButton (mv_inviting v \<or> mv_busyId v = Some (wi_id i)) ''New link'' (MvNewLink (wi_email i)),
      PressButton (mv_busyId v = Some (wi_id i)) (if mv_busyId v = Some (wi_id i) then ''Revoking'' @ ellipsis else ''Revoke'')
        (MvRevoke (wi_id i))]"

definition invite_form :: "members_view \<Rightarrow> member_event element list" where
  "invite_form v =
     [FormBox MvInvite (
        [FieldSet (mv_inviting v)
           [FieldRow ''Invite by email'' (Some (''They'' @ apostrophe @ ''ll join as a member. The link works once and expires after 7 days.''))
              [TextInput ''Invite email'' (mv_email v) False MvEmail,
               SubmitButton (mv_inviting v \<or> trim (mv_email v) = []) (if mv_inviting v then ''Creating'' @ ellipsis else ''Create invite link'')]]]
        @ shown (mv_inviteError v \<noteq> []) [AlertText (mv_inviteError v)])]"

definition created_box :: "string \<Rightarrow> CopyStatus \<Rightarrow> members_view \<Rightarrow> member_event element list" where
  "created_box origin status v =
     (case mv_created v of
        None \<Rightarrow> []
      | Some c \<Rightarrow>
          [StatusBox ([Words (created_text c), Words (inviteLink (ci_token c) origin)]
             @ copyButton MvCopy status (inviteLink (ci_token c) origin) ''Copy invite link''
             @ [PressButton False ''Done'' MvDone])])"

definition people_list ::
  "host \<Rightarrow> (string \<Rightarrow> string) \<Rightarrow> Workspace \<Rightarrow> Account option \<Rightarrow> WorkspaceMember list answer \<Rightarrow> members_view \<Rightarrow> member_event element list" where
  "people_list h lower ws account members v =
     [SectionTitle ''People'' None] @ shown (an_loading members) [Words (''Loading members'' @ ellipsis)]
     @ (case an_error members of None \<Rightarrow> [] | Some e \<Rightarrow> [AlertText (settings_errorMessage e ''Could not load members.'')])
     @ (case an_data members of
          None \<Rightarrow> []
        | Some ms \<Rightarrow> [ItemList ''Members'' (map (\<lambda>r. member_item r v) (member_rows h lower ws account ms))])"

definition invites_list :: "host \<Rightarrow> WorkspaceInvite list answer \<Rightarrow> members_view \<Rightarrow> member_event element list" where
  "invites_list h invites v =
     [SectionTitle ''Pending invites'' (Some (''Invite links aren'' @ apostrophe @ ''t stored, so they can'' @ apostrophe
        @ ''t be copied again. Create a new link to replace a lost one.''))]
     @ (case an_error invites of None \<Rightarrow> [] | Some e \<Rightarrow> [AlertText (settings_errorMessage e ''Could not load invites.'')])
     @ (case an_data invites of
          None \<Rightarrow> []
        | Some is \<Rightarrow> if is = [] then [Words ''No pending invites.'']
            else [ItemList ''Pending invites'' (map (\<lambda>i. invite_item h i v) is)])"

definition membersView ::
  "host \<Rightarrow> string \<Rightarrow> (string \<Rightarrow> string) \<Rightarrow> Workspace \<Rightarrow> Account option \<Rightarrow> CopyStatus \<Rightarrow> WorkspaceMember list answer \<Rightarrow>
     WorkspaceInvite list answer \<Rightarrow> members_view \<Rightarrow> member_event element list" where
  "membersView h origin lower ws account status members invites v =
     [SectionTitle ''Members'' (Some (members_hint (isOwner lower ws) ws))]
     @ shown (isOwner lower ws) (invite_form v)
     @ created_box origin status v
     @ shown (mv_actionError v \<noteq> []) [AlertText (mv_actionError v)]
     @ people_list h lower ws account members v
     @ shown (isOwner lower ws) (invites_list h invites v)"

text \<open>What the page offers: a link to an address only while no other is made, a removal or revocation only where no request of that row
  is known to be under way, and all of them only to the owner.\<close>

definition member_offer ::
  "string \<Rightarrow> bool \<Rightarrow> WorkspaceMember list answer \<Rightarrow> WorkspaceInvite list answer \<Rightarrow> members_view \<Rightarrow> member_event \<Rightarrow> bool" where
  "member_offer origin owner members invites v e =
     (case e of
        MvEmail s \<Rightarrow> False
      | MvInvite \<Rightarrow> owner \<and> \<not> mv_inviting v \<and> trim (mv_email v) \<noteq> []
      | MvDone \<Rightarrow> mv_created v \<noteq> None
      | MvCopy s \<Rightarrow> map_option (\<lambda>c. inviteLink (ci_token c) origin) (mv_created v) = Some s
      | MvRemove m \<Rightarrow> owner \<and> m \<in> set (nullish (an_data members) []) \<and> wmb_role m \<noteq> OwnerRole \<and> mv_busyId v \<noteq> Some (wmb_user_id m)
      | MvNewLink s \<Rightarrow> owner \<and> \<not> mv_inviting v \<and>
          (\<exists>i\<in>set (nullish (an_data invites) []). wi_email i = s \<and> mv_busyId v \<noteq> Some (wi_id i))
      | MvRevoke k \<Rightarrow> owner \<and> mv_busyId v \<noteq> Some k \<and> (\<exists>i\<in>set (nullish (an_data invites) []). wi_id i = k))"

lemma member_item_offers: "offers (member_item r v) =
    (if me_removable r \<and> mv_busyId v \<noteq> Some (wmb_user_id (me_member r)) then [MvRemove (me_member r)] else [])"
  by (simp add: member_item_def shown_def)

lemma invite_item_offers: "offers (invite_item h i v) =
    (if mv_inviting v \<or> mv_busyId v = Some (wi_id i) then [] else [MvNewLink (wi_email i)]) @
    (if mv_busyId v = Some (wi_id i) then [] else [MvRevoke (wi_id i)])"
  by (simp add: invite_item_def)

lemma invite_form_offers: "offers (invite_form v) = (if mv_inviting v \<or> trim (mv_email v) = [] then [] else [MvInvite])"
  by (simp add: invite_form_def shown_def)

lemma created_box_offers: "offers (created_box origin status v) =
    (case mv_created v of None \<Rightarrow> [] | Some c \<Rightarrow> [MvCopy (inviteLink (ci_token c) origin), MvDone])"
  by (simp add: created_box_def copyButton_def split: option.splits)

lemma people_list_offers: "offers (people_list h lower ws account members v) =
    concat (map (\<lambda>m. if isOwner lower ws \<and> wmb_role m \<noteq> OwnerRole \<and> mv_busyId v \<noteq> Some (wmb_user_id m) then [MvRemove m] else [])
      (nullish (an_data members) []))"
  by (cases "an_data members"; cases "an_error members")
    (simp_all add: people_list_def shown_def member_rows_def member_item_offers comp_def cong: if_cong)

lemma invites_list_offers: "offers (invites_list h invites v) =
    concat (map (\<lambda>i. offers (invite_item h i v)) (nullish (an_data invites) []))"
  by (cases "an_data invites"; cases "an_error invites") (simp_all add: invites_list_def comp_def)

lemma members_offers:
  "e \<in> set (offers (membersView h origin lower ws account status members invites v)) \<longleftrightarrow>
     member_offer origin (isOwner lower ws) members invites v e"
proof -
  have "offers (membersView h origin lower ws account status members invites v) =
      (if isOwner lower ws then offers (invite_form v) else []) @ offers (created_box origin status v)
      @ offers (people_list h lower ws account members v) @ (if isOwner lower ws then offers (invites_list h invites v) else [])"
    by (simp only: membersView_def map_append concat_append offers_shown) simp
  then show ?thesis
    unfolding invite_form_offers created_box_offers people_list_offers invites_list_offers invite_item_offers
    by (cases e) (auto simp: member_offer_def split: if_splits option.splits)
qed

text \<open>The view with its requests under way and the answers it shows. \<open>confirm\<close> is the visitor's answer to a question of the browser.\<close>

datatype member_request = RemoveReq string | RevokeReq string

record members_state =
  ms_view :: members_view
  ms_invites :: "string list"
  ms_actions :: "member_request list"
  ms_people :: "WorkspaceMember list answer"
  ms_pending :: "WorkspaceInvite list answer"

definition send_invite :: "string \<Rightarrow> members_state \<Rightarrow> members_state" where
  "send_invite address s = s\<lparr>ms_view := invite_start (ms_view s), ms_invites := ms_invites s @ [trim address]\<rparr>"

definition remove_question :: "Workspace \<Rightarrow> WorkspaceMember \<Rightarrow> string" where
  "remove_question ws m = ''Remove '' @ wmb_email m @ '' from '' @ wk_name ws @ ''? They'' @ apostrophe @ ''ll lose access immediately.''"

fun members_react :: "(string \<Rightarrow> bool) \<Rightarrow> Workspace \<Rightarrow> member_event \<Rightarrow> members_state \<Rightarrow> members_state" where
  "members_react confirm ws (MvEmail t) s = s\<lparr>ms_view := (ms_view s)\<lparr>mv_email := t\<rparr>\<rparr>"
| "members_react confirm ws MvInvite s = (if trim (mv_email (ms_view s)) \<noteq> [] then send_invite (mv_email (ms_view s)) s else s)"
| "members_react confirm ws MvDone s = s\<lparr>ms_view := (ms_view s)\<lparr>mv_created := None\<rparr>\<rparr>"
| "members_react confirm ws (MvCopy t) s = s"
| "members_react confirm ws (MvRemove m) s =
     (if confirm (remove_question ws m)
      then s\<lparr>ms_view := action_start (wmb_user_id m) (ms_view s), ms_actions := ms_actions s @ [RemoveReq (wmb_user_id m)]\<rparr> else s)"
| "members_react confirm ws (MvNewLink t) s = send_invite t s"
| "members_react confirm ws (MvRevoke i) s = s\<lparr>ms_view := action_start i (ms_view s), ms_actions := ms_actions s @ [RevokeReq i]\<rparr>"

fun finish_action :: "Workspace \<Rightarrow> member_request \<Rightarrow> api_error option \<Rightarrow> members_view \<Rightarrow> members_view" where
  "finish_action ws (RemoveReq i) outcome v = action_end outcome (refreshMembers ws) ''Could not remove the member. Please try again.'' v"
| "finish_action ws (RevokeReq i) outcome v = action_end outcome (refreshInvites ws) ''Could not revoke the invite. Please try again.'' v"

inductive members_env :: "Workspace \<Rightarrow> members_state \<Rightarrow> members_state \<Rightarrow> bool" for ws where
  invite_answered: "ms_invites s = xs @ a # ys \<Longrightarrow>
     members_env ws s (s\<lparr>ms_view := invite_end ws r (ms_view s), ms_invites := xs @ ys\<rparr>)"
| action_answered: "ms_actions s = xs @ a # ys \<Longrightarrow>
     members_env ws s (s\<lparr>ms_view := finish_action ws a r (ms_view s), ms_actions := xs @ ys\<rparr>)"
| members_refetched: "members_env ws s (s\<lparr>ms_people := p\<rparr>)"
| invites_refetched: "members_env ws s (s\<lparr>ms_pending := i\<rparr>)"

definition members_start :: "members_state \<Rightarrow> bool" where
  "members_start s \<longleftrightarrow> ms_view s = members_view_init \<and> ms_invites s = [] \<and> ms_actions s = []"

text \<open>One link is made at a time, and the view of a member who is not the owner sends nothing.\<close>

definition members_inv :: "bool \<Rightarrow> members_state \<Rightarrow> bool" where
  "members_inv owner s \<longleftrightarrow> length (ms_invites s) = (if mv_inviting (ms_view s) then 1 else 0) \<and>
     (\<not> owner \<longrightarrow> ms_invites s = [] \<and> ms_actions s = [])"

abbreviation members_page ::
  "host \<Rightarrow> string \<Rightarrow> (string \<Rightarrow> string) \<Rightarrow> Workspace \<Rightarrow> Account option \<Rightarrow> CopyStatus \<Rightarrow> members_state \<Rightarrow> member_event element list" where
  "members_page h origin lower ws account status s \<equiv>
     membersView h origin lower ws account status (ms_people s) (ms_pending s) (ms_view s)"

lemma members_inputs:
  "f \<in> set (inputs (members_page h origin lower ws account status s)) \<Longrightarrow> f = MvEmail"
  by (auto simp: membersView_def invite_form_def created_box_def copyButton_def people_list_def invites_list_def member_rows_def
      member_item_def invite_item_def shown_def split: if_splits option.splits)

lemma finish_action_inviting [simp]: "mv_inviting (finish_action ws a r v) = mv_inviting v"
  by (cases a; cases r) (simp_all add: action_end_def refreshMembers_def refreshInvites_def)

interpretation members: guarded_page members_start "members_page h origin lower ws account status" "members_react confirm ws"
  "members_env ws" "members_inv (isOwner lower ws)"
proof
  show "members_start s \<Longrightarrow> members_inv (isOwner lower ws) s" for s
    by (simp add: members_start_def members_inv_def members_view_init_def)
next
  fix s e
  assume i: "members_inv (isOwner lower ws) s"
    and "e \<in> set (offers (members_page h origin lower ws account status s))"
  then have "member_offer origin (isOwner lower ws) (ms_people s) (ms_pending s) (ms_view s) e" by (simp only: members_offers)
  with i show "members_inv (isOwner lower ws) (members_react confirm ws e s)"
    by (cases e) (auto simp: members_inv_def member_offer_def send_invite_def invite_start_def action_start_def split: if_splits)
next
  fix s f t
  assume "members_inv (isOwner lower ws) s" "f \<in> set (inputs (members_page h origin lower ws account status s))"
  moreover from this(2) have "f = MvEmail" by (rule members_inputs)
  ultimately show "members_inv (isOwner lower ws) (members_react confirm ws (f t) s)" by (simp add: members_inv_def)
next
  show "members_inv (isOwner lower ws) s \<Longrightarrow> members_env ws s s' \<Longrightarrow> members_inv (isOwner lower ws) s'" for s s'
    by (erule members_env.cases)
      (auto simp: members_inv_def invite_end_def refreshInvites_def split: if_splits sum.splits)
qed

text \<open>C33. However the view is used and the server answers: at most one invite link is being made, exactly while the form says so
  and with its button and those of the list disabled; a member who is not the owner is offered no change and sends no request.\<close>

theorem members_requests_guarded:
  assumes "reach members_start (page_step (members_page h origin lower ws account status) (members_react confirm ws) (members_env ws)) s"
  shows "length (ms_invites s) \<le> 1 \<and> (ms_invites s \<noteq> [] \<longleftrightarrow> mv_inviting (ms_view s)) \<and>
    (ms_invites s \<noteq> [] \<longrightarrow> MvInvite \<notin> set (offers (members_page h origin lower ws account status s)) \<and>
       (\<forall>a. MvNewLink a \<notin> set (offers (members_page h origin lower ws account status s)))) \<and>
    (\<not> isOwner lower ws \<longrightarrow> ms_invites s = [] \<and> ms_actions s = [] \<and>
       set (offers (members_page h origin lower ws account status s)) \<subseteq> {e. e = MvDone \<or> (\<exists>t. e = MvCopy t)})"
proof -
  let ?offers = "set (offers (members_page h origin lower ws account status s))"
  have i: "members_inv (isOwner lower ws) s" using assms by (rule members.pages.reach_inv)
  then have busy: "ms_invites s \<noteq> [] \<longleftrightarrow> mv_inviting (ms_view s)" by (auto simp: members_inv_def split: if_splits)
  have "length (ms_invites s) \<le> 1" "\<not> isOwner lower ws \<longrightarrow> ms_invites s = [] \<and> ms_actions s = []"
    using i by (simp_all add: members_inv_def)
  moreover have "ms_invites s \<noteq> [] \<longrightarrow> MvInvite \<notin> ?offers \<and> (\<forall>a. MvNewLink a \<notin> ?offers)"
    unfolding members_offers busy by (simp add: member_offer_def)
  moreover have "?offers \<subseteq> {e. e = MvDone \<or> (\<exists>t. e = MvCopy t)}" if "\<not> isOwner lower ws"
  proof
    fix e assume "e \<in> ?offers"
    then show "e \<in> {e. e = MvDone \<or> (\<exists>t. e = MvCopy t)}" using that unfolding members_offers
      by (cases e) (simp_all add: member_offer_def)
  qed
  ultimately show ?thesis using busy by blast
qed

text \<open>The password field: a request carries what the form shows, and the form cannot be edited or left while it is under way.\<close>

definition pw_inv :: "pw_state \<Rightarrow> bool" where
  "pw_inv = (\<lambda>(f, a, rs). rs = (if pw_saving f then [(pw_current f, pw_next f)] else []) \<and>
     (pw_saving f \<longrightarrow> pw_editing f \<and> pw_next f = pw_confirm f \<and> pw_current f \<noteq> [] \<and> pw_next f \<noteq> []))"

definition pw_offer :: "password_form \<Rightarrow> pw_event list" where
  "pw_offer f =
     (if \<not> pw_editing f then [PwChange]
      else if pw_saving f then [] else (if pw_canSubmit f then [PwSubmit] else []) @ [PwCancel])"

lemma pw_offers: "offers (changePasswordField f) = pw_offer f"
  by (simp add: changePasswordField_def pw_offer_def pw_canSubmit_def shown_def)

lemma pw_inputs: "inputs (changePasswordField f) = (if pw_editing f \<and> \<not> pw_saving f then [PwCurrent, PwNext, PwConfirm] else [])"
  by (simp add: changePasswordField_def shown_def)

interpretation password: guarded_page "\<lambda>(f, a, rs). f = password_init \<and> rs = []" "\<lambda>(f, a, rs). changePasswordField f" pw_react pw_env pw_inv
proof
  show "(case s of (f, a, rs) \<Rightarrow> f = password_init \<and> rs = []) \<Longrightarrow> pw_inv s" for s
    by (auto simp: pw_inv_def password_init_def)
  show "pw_inv s \<Longrightarrow> e \<in> set (offers (case s of (f, a, rs) \<Rightarrow> changePasswordField f)) \<Longrightarrow> pw_inv (pw_react e s)" for s e
    by (cases s; cases e) (auto simp only: prod.case pw_offers, auto simp: pw_offer_def pw_inv_def pw_edit_def pw_reset_def pw_start_def
        pw_canSubmit_def split: if_splits)
  show "pw_inv s \<Longrightarrow> f \<in> set (inputs (case s of (f, a, rs) \<Rightarrow> changePasswordField f)) \<Longrightarrow> pw_inv (pw_react (f t) s)" for s f t
    by (cases s) (auto simp only: prod.case pw_inputs, auto simp: pw_inv_def split: if_splits)
  show "pw_inv s \<Longrightarrow> pw_env s s' \<Longrightarrow> pw_inv s'" for s s'
    by (erule pw_env.cases)
      (auto simp: pw_inv_def pw_end_def pw_reset_def append_eq_Cons_conv split: if_splits sum.splits)
qed

text \<open>At most one change of the password is under way, with the passwords the form shows and a matching confirmation; the
  two halves of a submission together are the submission.\<close>

theorem password_requests_guarded:
  assumes "reach (\<lambda>(f, a, rs). f = password_init \<and> rs = []) (page_step (\<lambda>(f, a, rs). changePasswordField f) pw_react pw_env) (f, a, rs)"
  shows "rs = (if pw_saving f then [(pw_current f, pw_confirm f)] else []) \<and> (pw_saving f \<longrightarrow> offers (changePasswordField f) = []) \<and>
    pw_submit respond (f, a) = (case pw_start f of (f', None) \<Rightarrow> (f', a) | (f', Some (c, n)) \<Rightarrow> pw_end (respond c n) (f', a))"
proof -
  have "pw_inv (f, a, rs)" using assms by (rule password.pages.reach_inv)
  moreover have "pw_submit respond (f, a) = (case pw_start f of (f', None) \<Rightarrow> (f', a) | (f', Some (c, n)) \<Rightarrow> pw_end (respond c n) (f', a))"
    by (auto simp: pw_submit_def pw_start_def pw_end_def pw_reset_def settings_errorMessage_def split: sum.splits api_error.splits)
  ultimately show ?thesis unfolding pw_offers by (auto simp: pw_inv_def pw_offer_def)
qed

subsection \<open>The danger zone (DangerView)\<close>

definition DANGER_ITEMS :: "(string \<times> string \<times> string) list" where
  [data_defs]: "DANGER_ITEMS =
     [(''Transfer ownership'', ''Move ownership of this workspace to another member. The current owner becomes an Admin.'', ''Transfer''),
      (''Pause ingestion'', ''Stop accepting new spans. Existing data and dashboards remain readable. SDK calls will return 503.'',
       ''Pause workspace''),
      (''Purge trace history'', ''Delete every span ingested before today. Aggregate metrics older than today are also dropped.'', ''Purge''),
      (''Delete workspace'', ''Permanently remove the workspace, all members, traces, keys, and integrations. This cannot be undone.'',
       ''Delete'')]"

definition dangerView :: "'e element list" where
  "dangerView =
     [SectionTitle ''Danger zone''
        (Some ''Destructive workspace operations. Most require typing the workspace name to confirm and cannot be undone.'')]
     @ concat (map (\<lambda>(title, hint, cta). [Words title, Words hint, InertButton cta]) DANGER_ITEMS)"

subsection \<open>The page (SettingsPage)\<close>

datatype settings_event =
    TabPress string
  | OnAccount account_event
  | OnCreate create_event
  | OnConnect connect_event
  | OnMembers member_event
  | CreateAnother

text \<open>What the page is given besides the state of the dashboard.\<close>

record settings_props =
  sp_host :: host
  sp_origin :: string
  sp_lower :: "string \<Rightarrow> string"
  sp_sections :: "SettingsSection list"
  sp_ingestEndpoint :: "string option"
  sp_account :: "Account option"

definition settings_ws :: "dash \<Rightarrow> SettingsWorkspace" where
  "settings_ws d =
     (if db_embedded d then SET_WORKSPACE
      else case workspace d of
        None \<Rightarrow> \<lparr>sw_name = [], sw_id = [], sw_defaultRetention = ''30 days'', sw_members = 1\<rparr>
      | Some w \<Rightarrow> \<lparr>sw_name = wk_name w, sw_id = wk_id w, sw_defaultRetention = ''30 days'', sw_members = wk_members w\<rparr>)"

definition settings_email :: "settings_props \<Rightarrow> dash \<Rightarrow> string" where
  "settings_email ps d = (if db_embedded d then fst (snd SET_USER) else case sp_account ps of None \<Rightarrow> [] | Some a \<Rightarrow> ac_email a)"

text \<open>The page with the state of the panel it shows. A creation under way remembers the form that sent it.\<close>

record settings_ui =
  su_page :: settings_page
  su_panel :: settings_panel
  su_wsId :: string
  su_form :: nat
  su_tabnav :: bool
  su_password :: pw_state
  su_create :: create_view
  su_name :: string
  su_retention :: string
  su_members :: members_state
  su_creations :: "(nat \<times> CreateWorkspaceInput) list"

definition page_panel :: "settings_props \<Rightarrow> dash \<Rightarrow> settings_page \<Rightarrow> settings_panel" where
  "page_panel ps d s =
     settings_content (sp_sections ps) (db_embedded d) (\<not> db_embedded d) (workspace d) (sw_id (settings_ws d)) s"

text \<open>Two panels are the same mounted component when they differ at most in what was just created.\<close>

definition panel_kind :: "settings_panel \<Rightarrow> settings_panel" where
  "panel_kind p = (case p of WorkspaceContent b \<Rightarrow> WorkspaceContent False | _ \<Rightarrow> p)"

text \<open>A render: the page follows \<open>createMode\<close>, and a panel that was not there before, or shows another workspace, starts anew.
  Requests of a panel that is gone change nothing on the page.\<close>

definition settings_mount :: "settings_props \<Rightarrow> dash \<Rightarrow> settings_ui \<Rightarrow> settings_ui" where
  "settings_mount ps d u =
     u\<lparr>su_wsId := sw_id (settings_ws d), su_form := su_form u + 1, su_tabnav := True,
       su_password := (password_init, fst (snd (su_password u)), []), su_create := create_view_init,
       su_name := sw_name (settings_ws d), su_retention := sw_defaultRetention (settings_ws d),
       su_members := (su_members u)\<lparr>ms_view := members_view_init, ms_invites := [], ms_actions := []\<rparr>\<rparr>"

definition settings_settle :: "settings_props \<Rightarrow> settings_ui \<times> dash \<Rightarrow> settings_ui \<times> dash" where
  "settings_settle ps = (\<lambda>(u, d).
     (let s = settings_render (db_createWsIntent d) (su_page u); p = page_panel ps d s;
          kept = panel_kind p = panel_kind (su_panel u) \<and> (panel_kind p = WorkspaceContent False \<longrightarrow> su_wsId u = sw_id (settings_ws d));
          u1 = u\<lparr>su_page := s, su_panel := p\<rparr> in
      (if kept then u1 else settings_mount ps d u1, d)))"

definition settings_open :: "settings_props \<Rightarrow> app \<Rightarrow> members_state \<Rightarrow> dash \<Rightarrow> settings_ui" where
  "settings_open ps a m d =
     (let s = settings_init (db_createWsIntent d) (db_embedded d) in
      settings_mount ps d \<lparr>su_page = s, su_panel = page_panel ps d s, su_wsId = [], su_form = 0, su_tabnav = True,
        su_password = (password_init, a, []), su_create = create_view_init, su_name = [], su_retention = [],
        su_members = m, su_creations = []\<rparr>)"

fun create_react :: "(string \<Rightarrow> string) \<Rightarrow> create_event \<Rightarrow> settings_ui \<times> dash \<Rightarrow> settings_ui \<times> dash" where
  "create_react lower (CwName s) (u, d) = (u\<lparr>su_create := type_name s (su_create u)\<rparr>, d)"
| "create_react lower (CwSlug s) (u, d) = (u\<lparr>su_create := type_slug lower s (su_create u)\<rparr>, d)"
| "create_react lower (CwEnv s) (u, d) = (u\<lparr>su_create := (su_create u)\<lparr>cw_env := env_of s\<rparr>\<rparr>, d)"
| "create_react lower CwSubmit (u, d) =
     (case cw_submit lower (su_create u) of
        (v, None) \<Rightarrow> (u\<lparr>su_create := v\<rparr>, d)
      | (v, Some r) \<Rightarrow> (u\<lparr>su_create := v, su_creations := su_creations u @ [(su_form u, r)]\<rparr>, d))"
| "create_react lower CwCancel (u, d) = (let (s, d') = cancel_create (su_page u, d) in (u\<lparr>su_page := s\<rparr>, d'))"

fun connect_react :: "connect_event \<Rightarrow> settings_ui \<times> dash \<Rightarrow> settings_ui \<times> dash" where
  "connect_react OpenApiKeys (u, d) = (u, setView ''keys'' d)"
| "connect_react OpenOverview (u, d) = (u, setView ''overview'' d)"
| "connect_react (CopyConfig s) (u, d) = (u, d)"
| "connect_react (RenameTo s) (u, d) = (u\<lparr>su_name := s\<rparr>, d)"
| "connect_react (KeepFor s) (u, d) = (u\<lparr>su_retention := s\<rparr>, d)"

text \<open>A handler of the page, before the next render.\<close>

fun settings_handle ::
  "settings_props \<Rightarrow> (string \<Rightarrow> bool) \<Rightarrow> settings_event \<Rightarrow> settings_ui \<times> dash \<Rightarrow> settings_ui \<times> dash" where
  "settings_handle ps confirm (TabPress t) (u, d) = (let (s, d') = selectTab t (su_page u, d) in (u\<lparr>su_page := s\<rparr>, d'))"
| "settings_handle ps confirm (OnAccount ToggleKeys) (u, d) = (u\<lparr>su_tabnav := \<not> su_tabnav u\<rparr>, d)"
| "settings_handle ps confirm (OnAccount (Password e)) (u, d) = (u\<lparr>su_password := pw_react e (su_password u)\<rparr>, d)"
| "settings_handle ps confirm (OnCreate e) (u, d) = create_react (sp_lower ps) e (u, d)"
| "settings_handle ps confirm (OnConnect e) (u, d) = connect_react e (u, d)"
| "settings_handle ps confirm (OnMembers e) (u, d) =
     (case workspace d of None \<Rightarrow> (u, d) | Some w \<Rightarrow> (u\<lparr>su_members := members_react confirm w e (su_members u)\<rparr>, d))"
| "settings_handle ps confirm CreateAnother (u, d) = (u\<lparr>su_page := create_another (su_page u)\<rparr>, d)"

text \<open>The answer to a creation. The form that sent it may be gone; the page selects the new workspace all the same.\<close>

definition creation_answered :: "nat \<Rightarrow> api_error + Workspace \<Rightarrow> string \<Rightarrow> settings_ui \<times> dash \<Rightarrow> settings_ui \<times> dash" where
  "creation_answered form r denied = (\<lambda>(u, d).
     (let (s, d') = (case r of Inl e \<Rightarrow> (su_page u, d) | Inr w \<Rightarrow> workspace_created w (su_page u, d));
          err = (case r of Inl e \<Rightarrow> Some e | Inr w \<Rightarrow> if storage_works d then None else Some (NetworkError denied)) in
      (u\<lparr>su_page := s, su_create := (if su_form u = form then cw_finish err (su_create u) else su_create u)\<rparr>, d')))"

definition panel_view :: "settings_props \<Rightarrow> CopyStatus \<Rightarrow> settings_ui \<times> dash \<Rightarrow> settings_event element list" where
  "panel_view ps status = (\<lambda>(u, d).
     case su_panel u of
       SectionContent i \<Rightarrow> []
     | AccountContent \<Rightarrow> map (map_element OnAccount)
         (accountView (db_embedded d) (settings_email ps d) (su_tabnav u) (fst (su_password u)))
     | CreateContent \<Rightarrow> map (map_element OnCreate) (createWorkspaceView (sp_lower ps) (su_create u))
     | WorkspaceContent justCreated \<Rightarrow>
         map (map_element OnConnect) (workspaceView (settings_ws d) (db_embedded d) justCreated True True (sp_ingestEndpoint ps) status
           (su_name u) (su_retention u))
         @ shown (\<not> db_embedded d)
             [PressButton False (if sw_id (settings_ws d) \<noteq> [] then ''Create another workspace'' else ''Create workspace'') CreateAnother]
     | MembersContent i \<Rightarrow>
         (case workspace d of
            None \<Rightarrow> []
          | Some w \<Rightarrow> map (map_element OnMembers) (membersView (sp_host ps) (sp_origin ps) (sp_lower ps) w
              (if db_embedded d then None else sp_account ps) status (ms_people (su_members u)) (ms_pending (su_members u))
              (ms_view (su_members u))))
     | NoMembersContent \<Rightarrow> [SectionTitle ''Members'' (Some ''Create a workspace to invite people to it.'')]
     | DangerContent \<Rightarrow> dangerView
     | EmptyContent \<Rightarrow> [])"

text \<open>The page; the component of an extension is not modelled.\<close>

definition settingsPage :: "settings_props \<Rightarrow> CopyStatus \<Rightarrow> settings_ui \<times> dash \<Rightarrow> settings_event element list" where
  "settingsPage ps status = (\<lambda>(u, d).
     [Words ''Settings'',
      Words (''Account and workspace settings for '' @ (if sw_name (settings_ws d) \<noteq> [] then sw_name (settings_ws d) else ''this workspace'') @
        ''. Select a workspace to view its connection instructions.'')]
     @ map (\<lambda>(i, l). PressButton False l (TabPress i)) (tab_rail (db_embedded d) (sp_sections ps))
     @ panel_view ps status (u, d))"

definition settings_react :: "settings_props \<Rightarrow> (string \<Rightarrow> bool) \<Rightarrow> settings_event \<Rightarrow> settings_ui \<times> dash \<Rightarrow> settings_ui \<times> dash" where
  "settings_react ps confirm e s = settings_settle ps (settings_handle ps confirm e s)"

text \<open>What happens around the page: answers, and what the bars of the dashboard do while the settings stay in view.\<close>

inductive settings_env :: "settings_props \<Rightarrow> string \<Rightarrow> settings_ui \<times> dash \<Rightarrow> settings_ui \<times> dash \<Rightarrow> bool" for ps denied where
  creation_done: "su_creations u = xs @ (form, r) # ys \<Longrightarrow>
     settings_env ps denied (u, d) (settings_settle ps (creation_answered form outcome denied (u\<lparr>su_creations := xs @ ys\<rparr>, d)))"
| create_requested: "settings_env ps denied (u, d) (settings_settle ps (u, goCreateWorkspace d))"
| workspace_picked: "settings_env ps denied (u, d) (settings_settle ps (u, selectWorkspace w d))"
| workspace_deleted: "settings_env ps denied (u, d) (settings_settle ps (u, deleteWorkspace i d))"
| workspaces_refetched: "settings_env ps denied (u, d) (settings_settle ps (u, d\<lparr>db_workspaces := ws\<rparr>))"
| password_answered: "pw_env (su_password u) p \<Longrightarrow> settings_env ps denied (u, d) (settings_settle ps (u\<lparr>su_password := p\<rparr>, d))"
| members_answered: "workspace d = Some w \<Longrightarrow> members_env w (su_members u) m \<Longrightarrow>
     settings_env ps denied (u, d) (settings_settle ps (u\<lparr>su_members := m\<rparr>, d))"

text \<open>The wish to create a workspace is the form: while the dashboard has it, the page shows the form.\<close>

definition intent_shown :: "settings_props \<Rightarrow> settings_ui \<times> dash \<Rightarrow> bool" where
  "intent_shown ps = (\<lambda>(u, d). st_prevCreateMode (su_page u) = db_createWsIntent d \<and> su_panel u = page_panel ps d (su_page u) \<and>
     (db_createWsIntent d \<longrightarrow> st_creating (su_page u) \<and> st_tab (su_page u) = ''workspace''))"

lemma settle_simps [simp]:
  "su_page (fst (settings_settle ps (u, d))) = settings_render (db_createWsIntent d) (su_page u)"
  "su_panel (fst (settings_settle ps (u, d))) = page_panel ps d (settings_render (db_createWsIntent d) (su_page u))"
  "snd (settings_settle ps s) = snd s"
  by (simp_all add: settings_settle_def settings_mount_def Let_def case_prod_beta)

lemma settle_intent:
  assumes "st_prevCreateMode (su_page u) \<and> db_createWsIntent d \<longrightarrow> st_creating (su_page u) \<and> st_tab (su_page u) = ''workspace''"
  shows "intent_shown ps (settings_settle ps (u, d))"
  using assms by (simp add: intent_shown_def case_prod_beta settings_render_def)

lemma persist_intent [simp]: "db_createWsIntent (persist_item k v d) = db_createWsIntent d"
  by (simp add: persist_item_def split: option.splits)

lemma dash_intents [simp]:
  "db_createWsIntent (selectWorkspace w d) = db_createWsIntent d" "db_createWsIntent (deleteWorkspace i d) = db_createWsIntent d"
  "db_createWsIntent (goCreateWorkspace d)"
  by (simp_all add: selectWorkspace_def deleteWorkspace_def goCreateWorkspace_def setView_def setViewRaw_def Let_def split: if_splits)

lemma setView_intent: "db_createWsIntent (setView v d) \<Longrightarrow> db_createWsIntent d"
  by (simp add: setView_def setViewRaw_def Let_def split: if_splits)

lemma handle_intent:
  assumes "intent_shown ps (u, d)" "settings_handle ps confirm e (u, d) = (u', d')"
  shows "st_prevCreateMode (su_page u') \<and> db_createWsIntent d' \<longrightarrow> st_creating (su_page u') \<and> st_tab (su_page u') = ''workspace''"
proof -
  have i: "st_prevCreateMode (su_page u) \<and> db_createWsIntent d \<longrightarrow> st_creating (su_page u) \<and> st_tab (su_page u) = ''workspace''"
    using assms(1) by (simp add: intent_shown_def)
  show ?thesis
  proof (cases e)
    case (OnAccount x)
    then show ?thesis using assms(2) i by (cases x) auto
  next
    case (OnCreate x)
    then show ?thesis using assms(2) i by (cases x) (auto simp: cancel_create_def split: prod.splits option.splits)
  next
    case (OnConnect x)
    then show ?thesis using assms(2) i by (cases x) (auto dest: setView_intent)
  next
    case (OnMembers x)
    then show ?thesis using assms(2) i by (cases "workspace d") auto
  qed (use assms(2) i in \<open>auto simp: selectTab_def create_another_def\<close>)
qed

lemma creation_intent:
  assumes "intent_shown ps (u, d)" "creation_answered form r denied (u, d) = (u', d')"
  shows "st_prevCreateMode (su_page u') \<and> db_createWsIntent d' \<longrightarrow> st_creating (su_page u') \<and> st_tab (su_page u') = ''workspace''"
  using assms by (cases r)
    (auto simp: intent_shown_def creation_answered_def workspace_created_def createWorkspace_def storage_works_def Let_def split: if_splits)

lemma settings_env_intent: "settings_env ps denied s t \<Longrightarrow> intent_shown ps s \<Longrightarrow> intent_shown ps t"
proof (induction rule: settings_env.induct)
  case (creation_done u xs form r ys d outcome)
  obtain u' d' where c: "creation_answered form outcome denied (u\<lparr>su_creations := xs @ ys\<rparr>, d) = (u', d')" by (metis surj_pair)
  have "intent_shown ps (u\<lparr>su_creations := xs @ ys\<rparr>, d)" using creation_done.prems by (simp add: intent_shown_def)
  from creation_intent [OF this c] show ?case unfolding c by (rule settle_intent)
qed (rule settle_intent, simp add: intent_shown_def)+

interpretation settings_pages: guarded_page "\<lambda>(u, d). \<exists>a m. u = settings_open ps a m d" "settingsPage ps status" "settings_react ps confirm"
  "settings_env ps denied" "intent_shown ps"
proof
  show "(case s of (u, d) \<Rightarrow> \<exists>a m. u = settings_open ps a m d) \<Longrightarrow> intent_shown ps s" for s
    by (auto simp: intent_shown_def settings_open_def settings_mount_def settings_init_def Let_def)
  have "intent_shown ps s \<Longrightarrow> intent_shown ps (settings_react ps confirm e s)" for s e
    by (metis handle_intent prod.exhaust settings_react_def settle_intent)
  then show "intent_shown ps s \<Longrightarrow> intent_shown ps (settings_react ps confirm e s)"
    "intent_shown ps s \<Longrightarrow> intent_shown ps (settings_react ps confirm (f t) s)" for s e f t by blast+
  show "intent_shown ps s \<Longrightarrow> settings_env ps denied s t \<Longrightarrow> intent_shown ps t" for s t by (rule settings_env_intent)
qed

text \<open>The wish to create a workspace always leads to its form: in every state of the settings page the dashboard's wish and
  the form agree, so asking for a new workspace from the menu shows the form whatever tab was open, and leaving the form, by a
  tab or by cancelling, ends the wish.\<close>

theorem create_intent_shows_form:
  assumes "reach (\<lambda>(u, d). \<exists>a m. u = settings_open ps a m d)
      (page_step (settingsPage ps status) (settings_react ps confirm) (settings_env ps denied)) (u, d)"
    and "\<not> db_embedded d" "\<not> (\<exists>x\<in>set (sp_sections ps). xs_id x = ''workspace'')"
  shows "(db_createWsIntent d \<longrightarrow> su_panel u = CreateContent) \<and>
    su_panel (fst (settings_settle ps (u, goCreateWorkspace d))) = CreateContent \<and>
    \<not> db_createWsIntent (snd (settings_react ps confirm (TabPress t) (u, d))) \<and>
    \<not> db_createWsIntent (snd (settings_react ps confirm (OnCreate CwCancel) (u, d)))"
proof -
  have form: "su_panel v = CreateContent" if "intent_shown ps (v, e)" "db_createWsIntent e" "\<not> db_embedded e" for v e
    using that assms(3) by (auto simp: intent_shown_def page_panel_def settings_content_def)
  have i: "intent_shown ps (u, d)" using assms(1) by (rule settings_pages.pages.reach_inv)
  have "intent_shown ps (settings_settle ps (u, goCreateWorkspace d))" by (rule settings_env_intent [OF create_requested i])
  moreover have "\<not> db_embedded (goCreateWorkspace d)" using assms(2) by (simp add: dash_handler_defs split: option.splits)
  ultimately have "su_panel (fst (settings_settle ps (u, goCreateWorkspace d))) = CreateContent"
    using form [of "fst (settings_settle ps (u, goCreateWorkspace d))" "goCreateWorkspace d"] by (metis dash_intents(3) prod.collapse settle_simps(3) snd_conv)
  then show ?thesis using form [OF i] assms(2)
    by (simp add: settings_react_def selectTab_def cancel_create_def)
qed

lemma created_settles:
  assumes "\<not> db_embedded d" "br_ok (db_browser d)" "wk_id ws \<notin> wk_id ` set (db_workspaces d)"
    and "\<not> (\<exists>x\<in>set (sp_sections ps). xs_id x = ''workspace'')"
    and "settings_settle ps (creation_answered form (Inr ws) denied (u, d)) = (u', d')"
  shows "d' = createWorkspace ws d" "workspace d' = Some ws" "su_panel u' = WorkspaceContent True" "\<not> db_embedded d'"
proof -
  have w: "workspace (createWorkspace ws d) = Some ws" using assms(1-3) by (rule created_workspace_shown)
  have e: "\<not> db_embedded (createWorkspace ws d)" "\<not> db_createWsIntent (createWorkspace ws d)"
    using assms(1,2) by (simp_all add: dash_handler_defs)
  define s where "s = (su_page u)\<lparr>st_createdId := Some (wk_id ws), st_creating := False, st_tab := ''workspace''\<rparr>"
  obtain u1 where c: "creation_answered form (Inr ws) denied (u, d) = (u1, createWorkspace ws d)" "su_page u1 = s"
    using assms(2) by (simp add: creation_answered_def workspace_created_def storage_works_def s_def Let_def)
  then have u': "u' = fst (settings_settle ps (u1, createWorkspace ws d))" and d': "d' = snd (settings_settle ps (u1, createWorkspace ws d))"
    using assms(5) by simp_all
  then show "d' = createWorkspace ws d" "workspace d' = Some ws" "\<not> db_embedded d'" using w e by simp_all
  have "page_panel ps (createWorkspace ws d) s' = WorkspaceContent True"
    if "st_createdId s' = Some (wk_id ws)" "\<not> st_creating s'" "st_tab s' = ''workspace''" for s'
    using that assms(4) w e by (simp add: page_panel_def settings_content_def settings_ws_def)
  then show "su_panel u' = WorkspaceContent True"
    unfolding u' settle_simps c(2) using e by (simp add: settings_render_def s_def)
qed

text \<open>C28. A created workspace is the one the settings show next: when the server has created it, the dashboard selects it, the form gives way to
  the second step for this workspace with the configuration of the exporter, and from there a visitor can go on to its keys.\<close>

theorem created_workspace_connects:
  assumes "\<not> db_embedded d" "br_ok (db_browser d)" "wk_id ws \<notin> wk_id ` set (db_workspaces d)" "wk_id ws \<noteq> []"
    and "\<not> (\<exists>x\<in>set (sp_sections ps). xs_id x = ''workspace'')"
    and "settings_settle ps (creation_answered form (Inr ws) denied (u, d)) = (u', d')"
  shows "workspace d' = Some ws \<and>
    {wk_name ws @ '' created '' @ mid_dot @ '' Step 2 of 2'', connection_config (sp_ingestEndpoint ps)}
      \<subseteq> set (page_texts (settingsPage ps status (u', d'))) \<and>
    OnConnect OpenApiKeys \<in> set (offers (settingsPage ps status (u', d'))) \<and>
    db_view (snd (settings_react ps confirm (OnConnect OpenApiKeys) (u', d'))) = ''keys''"
proof -
  note c = created_settles [OF assms(1-3,5,6)]
  let ?es = "workspaceView (settings_ws d') False True True True (sp_ingestEndpoint ps) status (su_name u') (su_retention u')"
  let ?created = "wk_name ws @ '' created '' @ mid_dot @ '' Step 2 of 2''"
  have ws: "sw_name (settings_ws d') = wk_name ws" "sw_id (settings_ws d') = wk_id ws" using c by (simp_all add: settings_ws_def)
  have view: "?es = workspaceConnection (settings_ws d') True True True (sp_ingestEndpoint ps) status"
    using assms(4) by (simp only: workspaceView_def ws) simp
  have t: "{?created, connection_config (sp_ingestEndpoint ps)} \<subseteq> set (page_texts ?es)"
    unfolding view workspaceConnection_def Let_def ws by (simp only: map_append concat_append set_append shown_simps) simp
  have o: "OpenApiKeys \<in> set (offers ?es)"
    unfolding view workspaceConnection_def Let_def by (simp only: map_append concat_append set_append shown_simps) simp
  have panel: "panel_view ps status (u', d') = map (map_element OnConnect) ?es @
      [PressButton False (if sw_id (settings_ws d') \<noteq> [] then ''Create another workspace'' else ''Create workspace'') CreateAnother]"
    using c by (simp only: panel_view_def prod.case settings_panel.case shown_def if_True simp_thms)
  have "set (page_texts ?es) \<subseteq> set (page_texts (settingsPage ps status (u', d')))"
    unfolding settingsPage_def prod.case panel by (simp only: map_append concat_append set_append map_map comp_def texts_map) auto
  moreover have "OnConnect ` set (offers ?es) \<subseteq> set (offers (settingsPage ps status (u', d')))"
    unfolding settingsPage_def prod.case panel by (simp only: map_append concat_append set_append offers_map set_map) auto
  moreover have "db_view (snd (settings_react ps confirm (OnConnect OpenApiKeys) (u', d'))) = ''keys''"
    by (simp add: settings_react_def)
  ultimately show ?thesis using c(2) t o by blast
qed

text \<open>The form guards against a second request only while it is there: the tabs stay enabled, so a visitor who leaves the form
  while its request is under way and opens it again can send a second one.\<close>

lemma settle_creations [simp]: "su_creations (fst (settings_settle ps (u, d))) = su_creations u"
  by (simp add: settings_settle_def settings_mount_def Let_def)

lemma settle_fresh_form:
  assumes "page_panel ps d (settings_render (db_createWsIntent d) (su_page u)) = CreateContent" "panel_kind (su_panel u) \<noteq> CreateContent"
  shows "su_create (fst (settings_settle ps (u, d))) = create_view_init"
  using assms by (auto simp: settings_settle_def settings_mount_def panel_kind_def Let_def)

lemma settle_keeps_form:
  assumes "page_panel ps d (settings_render (db_createWsIntent d) (su_page u)) = CreateContent" "su_panel u = CreateContent"
  shows "su_create (fst (settings_settle ps (u, d))) = su_create u"
  using assms by (simp add: settings_settle_def panel_kind_def Let_def)

definition reopen_form :: "settings_props \<Rightarrow> settings_ui \<times> dash \<Rightarrow> settings_ui \<times> dash" where
  "reopen_form ps s = settings_react ps (\<lambda>_. True) CreateAnother (settings_react ps (\<lambda>_. True) (TabPress ''workspace'') s)"

definition fill_and_send :: "settings_props \<Rightarrow> string \<Rightarrow> settings_ui \<times> dash \<Rightarrow> settings_ui \<times> dash" where
  "fill_and_send ps name s = settings_react ps (\<lambda>_. True) (OnCreate CwSubmit) (settings_react ps (\<lambda>_. True) (OnCreate (CwName name)) s)"

lemma reopened_form:
  assumes "\<not> db_embedded d" "\<not> (\<exists>x\<in>set (sp_sections ps). xs_id x = ''workspace'')"
  obtains u' d' where "reopen_form ps (u, d) = (u', d')" "su_creations u' = su_creations u" "su_create u' = create_view_init"
    "su_panel u' = CreateContent" "st_creating (su_page u')" "st_tab (su_page u') = ''workspace''" "d' = d\<lparr>db_createWsIntent := False\<rparr>"
proof -
  let ?d = "d\<lparr>db_createWsIntent := False\<rparr>"
  define u1 where "u1 = fst (settings_react ps (\<lambda>_. True) (TabPress ''workspace'') (u, d))"
  have d: "workspace ?d = workspace d" by (simp add: workspace_def)
  have s1: "settings_react ps (\<lambda>_. True) (TabPress ''workspace'') (u, d) = (u1, ?d)"
    by (rule prod_eqI) (simp_all add: u1_def settings_react_def selectTab_def)
  have u1: "su_creations u1 = su_creations u" "st_tab (su_page u1) = ''workspace''" "\<not> st_creating (su_page u1)" "\<not> st_prevCreateMode (su_page u1)"
    "su_panel u1 = page_panel ps ?d (su_page u1)"
    unfolding u1_def by (simp_all add: settings_react_def selectTab_def settings_render_def)
  have "panel_kind (su_panel u1) \<noteq> CreateContent" unfolding u1(5)
    using u1(2,3) by (simp add: page_panel_def settings_content_def panel_kind_def)
  moreover have p: "page_panel ps ?d (create_another (su_page u1)) = CreateContent"
    using u1(2) assms by (simp add: page_panel_def settings_content_def create_another_def)
  ultimately have f: "su_create (fst (settings_settle ps (u1\<lparr>su_page := create_another (su_page u1)\<rparr>, ?d))) = create_view_init"
    using u1(4) by (intro settle_fresh_form) (simp_all add: settings_render_def create_another_def)
  show ?thesis
  proof (rule that)
    show "reopen_form ps (u, d) = (fst (reopen_form ps (u, d)), snd (reopen_form ps (u, d)))" by simp
    have r: "reopen_form ps (u, d) = settings_settle ps (u1\<lparr>su_page := create_another (su_page u1)\<rparr>, ?d)"
      unfolding reopen_form_def s1 by (simp add: settings_react_def)
    show "su_creations (fst (reopen_form ps (u, d))) = su_creations u" "su_create (fst (reopen_form ps (u, d))) = create_view_init"
      "su_panel (fst (reopen_form ps (u, d))) = CreateContent" "st_creating (su_page (fst (reopen_form ps (u, d))))"
      "st_tab (su_page (fst (reopen_form ps (u, d)))) = ''workspace''" "snd (reopen_form ps (u, d)) = ?d"
      unfolding r using u1 f p by (simp_all add: settings_render_def create_another_def)
  qed
qed

lemma second_creation_sent:
  assumes "\<not> db_embedded d" "\<not> (\<exists>x\<in>set (sp_sections ps). xs_id x = ''workspace'')"
    and "trim name \<noteq> []" "slugify (sp_lower ps) name \<noteq> []"
  shows "length (su_creations (fst (fill_and_send ps name (reopen_form ps (u, d))))) = length (su_creations u) + 1"
proof -
  obtain u' d' where r: "reopen_form ps (u, d) = (u', d')" "su_creations u' = su_creations u" "su_create u' = create_view_init"
    "su_panel u' = CreateContent" "st_creating (su_page u')" "st_tab (su_page u') = ''workspace''" "d' = d\<lparr>db_createWsIntent := False\<rparr>"
    using reopened_form [OF assms(1,2)] by blast
  define u1 where "u1 = fst (settings_react ps (\<lambda>_. True) (OnCreate (CwName name)) (u', d'))"
  have p: "page_panel ps d' (settings_render (db_createWsIntent d') (su_page u')) = CreateContent"
    using r assms by (auto simp: page_panel_def settings_content_def settings_render_def)
  have s1: "settings_react ps (\<lambda>_. True) (OnCreate (CwName name)) (u', d') = (u1, d')"
    by (rule prod_eqI) (simp_all add: u1_def settings_react_def)
  have c: "su_creations u1 = su_creations u" "su_create u1 = type_name name create_view_init"
    unfolding u1_def using r p settle_keeps_form [of ps d' "u'\<lparr>su_create := type_name name create_view_init\<rparr>"]
    by (simp_all add: settings_react_def)
  have "cw_canCreate (sp_lower ps) (type_name name create_view_init)"
    using assms(3,4) by (simp add: cw_canCreate_def type_name_def create_view_init_def effectiveSlug_def)
  then have "snd (cw_submit (sp_lower ps) (su_create u1)) \<noteq> None"
    unfolding c by (simp add: cw_submit_def type_name_def create_view_init_def)
  then obtain v x where sub: "cw_submit (sp_lower ps) (su_create u1) = (v, Some x)" by (cases "cw_submit (sp_lower ps) (su_create u1)") auto
  then show ?thesis unfolding fill_and_send_def r(1) s1 by (simp add: settings_react_def c)
qed

lemma tabs_always_offered:
  assumes "(t, l) \<in> set (tab_rail (db_embedded d) (sp_sections ps))"
  shows "TabPress t \<in> set (offers (settingsPage ps status (u, d)))"
  unfolding settingsPage_def prod.case using assms by force

subsection \<open>Examples\<close>

definition plain_host :: host where
  "plain_host = \<lparr>loc_number = (\<lambda>_. []), loc_date = (\<lambda>_. []), loc_time = (\<lambda>_. []), loc_day_utc = (\<lambda>_. []), loc_day_time = (\<lambda>_. []),
     local_hours = (\<lambda>_. 0), date_parse = (\<lambda>_. None)\<rparr>"

definition no_answer :: "'a answer" where
  "no_answer = \<lparr>an_loading = True, an_error = None, an_data = None\<rparr>"

definition members_opened :: members_state where
  "members_opened = \<lparr>ms_view = members_view_init, ms_invites = [], ms_actions = [], ms_people = no_answer, ms_pending = no_answer\<rparr>"

definition typed_invite :: members_state where
  "typed_invite = members_react (\<lambda>_. True) demo_ws (MvEmail ''a@b'') members_opened"

definition plain_props :: settings_props where
  "plain_props = \<lparr>sp_host = plain_host, sp_origin = ''https://x'', sp_lower = to_lower, sp_sections = [], sp_ingestEndpoint = None,
     sp_account = None\<rparr>"

theorem members_requests_guarded_witness:
  "\<forall>a. MvNewLink a \<notin> set (offers (members_page plain_host ''https://x'' to_lower demo_ws None Idle
     (members_react (\<lambda>_. True) demo_ws MvInvite typed_invite)))"
proof -
  let ?page = "members_page plain_host ''https://x'' to_lower demo_ws None Idle" and ?react = "members_react (\<lambda>_. True) demo_ws"
  let ?reach = "reach members_start (page_step ?page ?react (members_env demo_ws))"
  have owner: "isOwner to_lower demo_ws" by code_simp
  have mail: "trim ''a@b'' = ''a@b''" by code_simp
  have v: "ms_view typed_invite = members_view_init\<lparr>mv_email := ''a@b''\<rparr>" "ms_people typed_invite = no_answer" "ms_pending typed_invite = no_answer"
    by (simp_all add: typed_invite_def members_opened_def)
  have r0: "?reach members_opened" by (rule reach_init) (simp add: members_start_def members_opened_def)
  have "MvEmail \<in> set (inputs (?page members_opened))"
    using owner by (simp add: membersView_def invite_form_def members_opened_def members_view_init_def)
  then have r1: "?reach typed_invite" unfolding typed_invite_def by (rule reach_type [OF r0])
  have "MvInvite \<in> set (offers (?page typed_invite))"
    unfolding members_offers v using owner mail by (simp add: member_offer_def members_view_init_def)
  then have r: "?reach (?react MvInvite typed_invite)" by (rule reach_press [OF r1])
  have "ms_invites (?react MvInvite typed_invite) \<noteq> []" by (simp add: v mail send_invite_def)
  then show ?thesis using members_requests_guarded [OF r] by blast
qed

theorem password_requests_guarded_witness:
  "offers (changePasswordField (typed_passwords\<lparr>pw_saving := True\<rparr>)) = []"
proof -
  let ?step = "page_step (\<lambda>(f, a, rs). changePasswordField f) pw_react pw_env"
  let ?reach = "reach (\<lambda>(f, a, rs). f = password_init \<and> rs = []) ?step"
  have press: "?reach (pw_react e (f, a, rs))" if "?reach (f, a, rs)" "e \<in> set (pw_offer f)" for e f a rs
    using that(2) pw_offers [of f] by (intro reach_press [OF that(1)]) simp
  have type: "?reach (pw_react (g t) (f, a, rs))" if "?reach (f, a, rs)" "pw_editing f \<and> \<not> pw_saving f" "g \<in> {PwCurrent, PwNext, PwConfirm}" for g t f a rs
    using that(2,3) pw_inputs [of f] by (intro reach_type [OF that(1)]) simp
  let ?f = "password_init\<lparr>pw_editing := True\<rparr>"
  have "?reach (password_init, fresh_app, [])" by (rule reach_init) simp
  from press [OF this, of PwChange] have "?reach (?f, fresh_app, [])" by (simp add: pw_offer_def password_init_def pw_edit_def)
  from type [OF this, of PwCurrent "''old''"] have "?reach (?f\<lparr>pw_current := ''old''\<rparr>, fresh_app, [])" by (simp add: password_init_def)
  from type [OF this, of PwNext "''new''"] have "?reach (?f\<lparr>pw_current := ''old'', pw_next := ''new''\<rparr>, fresh_app, [])"
    by (simp add: password_init_def)
  from type [OF this, of PwConfirm "''new''"] have "?reach (typed_passwords, fresh_app, [])"
    by (simp add: password_init_def typed_passwords_def)
  from press [OF this, of PwSubmit] have "?reach (typed_passwords\<lparr>pw_saving := True\<rparr>, fresh_app, [(''old'', ''new'')])"
    by (simp add: pw_offer_def typed_passwords_def pw_canSubmit_def pw_start_def)
  from password_requests_guarded [OF this] show ?thesis by simp
qed

theorem create_intent_shows_form_witness:
  "su_panel (fst (settings_settle plain_props (settings_open plain_props fresh_app members_opened demo_dash, goCreateWorkspace demo_dash)))
     = CreateContent"
proof -
  have "reach (\<lambda>(u, d). \<exists>a m. u = settings_open plain_props a m d)
      (page_step (settingsPage plain_props Idle) (settings_react plain_props (\<lambda>_. True)) (settings_env plain_props []))
      (settings_open plain_props fresh_app members_opened demo_dash, demo_dash)"
    by (rule reach_init) auto
  from create_intent_shows_form [OF this] show ?thesis by (simp add: plain_props_def)
qed

theorem created_workspace_connects_witness:
  "connection_config None \<in> set (page_texts (settingsPage plain_props Idle (settings_settle plain_props
     (creation_answered 0 (Inr demo_ws) [] (settings_open plain_props fresh_app members_opened demo_dash, demo_dash)))))"
proof -
  obtain u d where s: "settings_settle plain_props
     (creation_answered 0 (Inr demo_ws) [] (settings_open plain_props fresh_app members_opened demo_dash, demo_dash)) = (u, d)"
    by (metis surj_pair)
  have "\<not> db_embedded demo_dash" "br_ok (db_browser demo_dash)" "wk_id demo_ws \<notin> wk_id ` set (db_workspaces demo_dash)" "wk_id demo_ws \<noteq> []"
    "\<not> (\<exists>x\<in>set (sp_sections plain_props). xs_id x = ''workspace'')"
    by (simp_all add: demo_dash_def fresh_browser_def demo_ws_def plain_props_def)
  from created_workspace_connects [OF this s, of Idle "\<lambda>_. True"] show ?thesis unfolding s by (simp add: plain_props_def)
qed

end
