(* ===== verification/Api_Keys.thy ===== *)
theory Api_Keys
  imports Query_Hooks Ui_Hooks Formatters
begin

text \<open>
  Ingest keys: the in-memory store behind the preview (\<open>useDemoApiKeys\<close> in \<open>modules/api-keys/hooks/useApiKeys.ts\<close>) and the
  page that lists, creates, reveals and revokes keys (\<open>modules/api-keys/pages/ApiKeysPage.tsx\<close>). \<open>toISOString\<close>, the random
  digits and \<open>toLowerCase\<close> on typed text are parameters.
\<close>

subsection \<open>The demo store (useApiKeys.ts)\<close>

definition demo_key :: "string \<Rightarrow> string \<Rightarrow> string \<Rightarrow> string \<Rightarrow> string option \<Rightarrow> string option \<Rightarrow> ApiKeyRecord" where
  "demo_key i n p created used revoked = \<lparr>ak_id = i, ak_workspace_id = ''demo'', ak_created_by = ''you@example.com'',
     ak_name = n, ak_prefix = p, ak_created_at = created, ak_last_used_at = used, ak_revoked_at = revoked\<rparr>"

definition seedDemoKeys :: "(int \<Rightarrow> string) \<Rightarrow> int \<Rightarrow> ApiKeyRecord list" where
  "seedDemoKeys toISO now =
     (let iso_ago = (\<lambda>msAgo. toISO (now - msAgo)); day = 24 * 60 * 60 * 1000 in
      [demo_key ''demo-prod'' ''Production ingest'' ''trc_9f3a1b2c'' (iso_ago (9 * day)) (Some (iso_ago (4 * 60 * 1000))) None,
       demo_key ''demo-staging'' ''Staging ingest'' ''trc_4d2e77a0'' (iso_ago (5 * day)) (Some (iso_ago (2 * 60 * 60 * 1000))) None,
       demo_key ''demo-old-laptop'' ''Old laptop'' ''trc_1a0b9c8d'' (iso_ago (40 * day)) (Some (iso_ago (21 * day)))
         (Some (iso_ago (20 * day)))])"

text \<open>\<open>r1\<close> to \<open>r3\<close> are the results of the three calls of \<open>rand\<close>, in order.\<close>

definition demo_token :: "string \<Rightarrow> string \<Rightarrow> string" where
  "demo_token r1 r2 = ''trc_'' @ take 32 (r1 @ r2)"

definition createKey ::
  "(int \<Rightarrow> string) \<Rightarrow> int \<Rightarrow> string \<Rightarrow> string \<Rightarrow> string \<Rightarrow> string \<Rightarrow> ApiKeyRecord list \<Rightarrow> ApiKeyRecord list \<times> CreatedApiKey" where
  "createKey toISO now r1 r2 r3 name keys =
     (let token = demo_token r1 r2;
          key = demo_key (''demo-'' @ take 8 r3) (if trim name = [] then ''default'' else trim name) (take 12 token) (toISO now) None None in
      (key # keys, \<lparr>ck_key = key, ck_token = token\<rparr>))"

definition revokeKey :: "(int \<Rightarrow> string) \<Rightarrow> int \<Rightarrow> string \<Rightarrow> ApiKeyRecord list \<Rightarrow> ApiKeyRecord list" where
  "revokeKey toISO now keyId keys =
     map (\<lambda>k. if ak_id k = keyId then k\<lparr>ak_revoked_at := Some (toISO now)\<rparr> else k) keys"

inductive keys_step :: "(int \<Rightarrow> string) \<Rightarrow> ApiKeyRecord list \<Rightarrow> ApiKeyRecord list \<Rightarrow> bool" for toISO where
  step_create: "keys_step toISO ks (fst (createKey toISO now r1 r2 r3 name ks))"
| step_revoke: "keys_step toISO ks (revokeKey toISO now i ks)"

inductive_cases keys_stepE: "keys_step toISO ks ks'"

subsection \<open>The page (ApiKeysPage.tsx)\<close>

text \<open>\<open>!!k.revoked_at\<close>: the empty string counts as not revoked.\<close>

definition key_revoked :: "ApiKeyRecord \<Rightarrow> bool" where
  "key_revoked k \<longleftrightarrow> truthy_str (ak_revoked_at k)"

definition fmtLastUsed :: "host \<Rightarrow> int \<Rightarrow> string option \<Rightarrow> string" where
  "fmtLastUsed h now isostr =
     (if \<not> truthy_str isostr then ''Never''
      else case date_parse h (the isostr) of None \<Rightarrow> em_dash | Some t \<Rightarrow> relativeTime t now)"

definition canCreate :: "string \<Rightarrow> bool \<Rightarrow> bool" where
  "canCreate name submitting \<longleftrightarrow> trim name \<noteq> [] \<and> \<not> submitting"

text \<open>What the form asks for.\<close>

definition create_submit :: "string \<Rightarrow> bool \<Rightarrow> string option" where
  "create_submit name submitting = (if canCreate name submitting then Some (trim name) else None)"

definition copy_label :: "CopyStatus \<Rightarrow> string" where
  "copy_label s = (if s = Copied then ''Copied'' else if s = CopyFailed then ''Copy failed'' else ''Copy'')"

record keys_view =
  kv_search :: string
  kv_createError :: "string option"
  kv_created :: "CreatedApiKey option"
  kv_revokeTarget :: "ApiKeyRecord option"
  kv_revokeError :: "string option"

definition keys_view_init :: keys_view where
  "keys_view_init = \<lparr>kv_search = [], kv_createError = None, kv_created = None, kv_revokeTarget = None, kv_revokeError = None\<rparr>"

definition keys_active :: "ApiKeyRecord list \<Rightarrow> ApiKeyRecord list" where
  "keys_active keys = filter (\<lambda>k. \<not> key_revoked k) keys"

definition keys_revoked :: "ApiKeyRecord list \<Rightarrow> ApiKeyRecord list" where
  "keys_revoked keys = filter key_revoked keys"

definition keys_visible :: "(string \<Rightarrow> string) \<Rightarrow> string \<Rightarrow> ApiKeyRecord list \<Rightarrow> ApiKeyRecord list" where
  "keys_visible lower search keys =
     (if trim search = [] then keys
      else filter (\<lambda>k. str_includes (lower (ak_name k)) (lower search) \<or> str_includes (lower (ak_prefix k)) (lower search)) keys)"

text \<open>The outcome of a request is its result or \<open>None\<close> when it failed.\<close>

definition handleCreate :: "CreatedApiKey option \<Rightarrow> keys_view \<Rightarrow> keys_view" where
  "handleCreate result v =
     (case result of
        Some c \<Rightarrow> v\<lparr>kv_createError := None, kv_created := Some c\<rparr>
      | None \<Rightarrow> v\<lparr>kv_createError := Some ''Could not create the key. Please try again.''\<rparr>)"

definition handleRevoke :: "bool \<Rightarrow> keys_view \<Rightarrow> keys_view" where
  "handleRevoke ok v =
     (if ok then v\<lparr>kv_revokeError := None, kv_revokeTarget := None\<rparr>
      else v\<lparr>kv_revokeError := Some ''Could not revoke the key. Please try again.''\<rparr>)"

definition onRevoke :: "ApiKeyRecord \<Rightarrow> keys_view \<Rightarrow> keys_view" where
  "onRevoke target v = v\<lparr>kv_revokeError := None, kv_revokeTarget := Some target\<rparr>"

definition cancelRevoke :: "keys_view \<Rightarrow> keys_view" where
  "cancelRevoke v = v\<lparr>kv_revokeTarget := None\<rparr>"

definition closeReveal :: "keys_view \<Rightarrow> keys_view" where
  "closeReveal v = v\<lparr>kv_created := None\<rparr>"

record key_row =
  kr_key :: ApiKeyRecord
  kr_revokedOn :: "string option"
  kr_prefix :: string
  kr_status :: string
  kr_lastUsed :: string
  kr_created :: string
  kr_canRevoke :: bool
  kr_isLast :: bool
  kr_confirming :: bool

definition liveKeyRow :: "host \<Rightarrow> int \<Rightarrow> ApiKeyRecord \<Rightarrow> bool \<Rightarrow> bool \<Rightarrow> key_row" where
  "liveKeyRow h now k isLast confirming =
     \<lparr>kr_key = k, kr_revokedOn = (if key_revoked k then Some (''Revoked '' @ formatDate h (the (ak_revoked_at k))) else None),
      kr_prefix = ak_prefix k @ ellipsis, kr_status = (if key_revoked k then ''Revoked'' else ''Active''),
      kr_lastUsed = fmtLastUsed h now (ak_last_used_at k), kr_created = formatDate h (ak_created_at k),
      kr_canRevoke = (\<not> key_revoked k \<and> \<not> confirming), kr_isLast = isLast, kr_confirming = confirming\<rparr>"

definition left_quote :: string where
  [data_defs]: "left_quote = [CHR 0xE2, CHR 0x80, CHR 0x9C]"

definition right_quote :: string where
  [data_defs]: "right_quote = [CHR 0xE2, CHR 0x80, CHR 0x9D]"

datatype keys_content = KeysLoading | KeysFailed | NoKeys string | KeysListed "key_row list"

definition keys_body :: "host \<Rightarrow> int \<Rightarrow> (string \<Rightarrow> string) \<Rightarrow> bool \<Rightarrow> bool \<Rightarrow> ApiKeyRecord list \<Rightarrow> keys_view \<Rightarrow> keys_content" where
  "keys_body h now lower isLoading isError keys v =
     (if isLoading then KeysLoading else if isError then KeysFailed
      else (let visible = keys_visible lower (kv_search v) keys in
        if visible = [] then
          NoKeys (if kv_search v \<noteq> [] then ''No keys match '' @ left_quote @ kv_search v @ right_quote
                  else ''No API keys yet. Create one to start sending traces.'')
        else KeysListed (map (\<lambda>(k, i). liveKeyRow h now k (i = length visible - 1)
               (map_option ak_id (kv_revokeTarget v) = Some (ak_id k))) (zip visible [0..<length visible]))))"

definition keys_footer :: "bool \<Rightarrow> bool \<Rightarrow> ApiKeyRecord list \<Rightarrow> string option" where
  "keys_footer isLoading isError keys =
     (if \<not> isLoading \<and> \<not> isError \<and> keys \<noteq> []
      then Some (nat_str (length (keys_active keys)) @ '' active '' @ mid_dot @ '' '' @ nat_str (length (keys_revoked keys)) @ '' revoked'')
      else None)"

text \<open>The live view is keyed by the workspace: another workspace starts with a fresh one.\<close>

definition switch_view :: "string option \<Rightarrow> string option \<Rightarrow> keys_view \<Rightarrow> keys_view" where
  "switch_view before after v = (if before = after then v else keys_view_init)"

text \<open>The live page over time. Its view is an instance that is mounted anew with another workspace or when the page is opened again; a request
  belongs to the instance that sent it and names the workspace of that time. Its answer, which may come after a switch, reaches
  that instance only: to a view that is gone it changes nothing.\<close>

datatype page_request = CreateAt "string option" string | RevokeAt "string option" string

fun request_workspace :: "page_request \<Rightarrow> string option" where
  "request_workspace (CreateAt w _) = w"
| "request_workspace (RevokeAt w _) = w"

record keys_page =
  kp_workspace :: "string option"
  kp_mount :: nat
  kp_view :: keys_view
  kp_pending :: "(nat \<times> page_request) list"

definition page_switch :: "string option \<Rightarrow> keys_page \<Rightarrow> keys_page" where
  "page_switch w p = p\<lparr>kp_workspace := w, kp_mount := (if w = kp_workspace p then kp_mount p else Suc (kp_mount p)),
     kp_view := switch_view (kp_workspace p) w (kp_view p)\<rparr>"

definition page_reopen :: "keys_page \<Rightarrow> keys_page" where
  "page_reopen p = p\<lparr>kp_mount := Suc (kp_mount p), kp_view := keys_view_init\<rparr>"

definition page_view :: "(keys_view \<Rightarrow> keys_view) \<Rightarrow> keys_page \<Rightarrow> keys_page" where
  "page_view f p = p\<lparr>kp_view := f (kp_view p)\<rparr>"

definition page_create :: "string \<Rightarrow> keys_page \<Rightarrow> keys_page" where
  "page_create name p = p\<lparr>kp_view := (kp_view p)\<lparr>kv_createError := None\<rparr>,
     kp_pending := kp_pending p @ [(kp_mount p, CreateAt (kp_workspace p) name)]\<rparr>"

definition page_revoke :: "string \<Rightarrow> keys_page \<Rightarrow> keys_page" where
  "page_revoke i p = p\<lparr>kp_view := (kp_view p)\<lparr>kv_revokeError := None\<rparr>,
     kp_pending := kp_pending p @ [(kp_mount p, RevokeAt (kp_workspace p) i)]\<rparr>"

definition page_answer :: "nat \<Rightarrow> (keys_view \<Rightarrow> keys_view) \<Rightarrow> keys_page \<Rightarrow> keys_page" where
  "page_answer m f p = (if m = kp_mount p then page_view f p else p)"

text \<open>The server: \<open>listing w ks\<close> when it may answer with the keys \<open>ks\<close> for the workspace \<open>w\<close>, \<open>creating w name c\<close> when it may answer a creation
  there with \<open>c\<close>.\<close>

inductive keys_page_step ::
  "(string option \<Rightarrow> ApiKeyRecord list \<Rightarrow> bool) \<Rightarrow> (string option \<Rightarrow> string \<Rightarrow> CreatedApiKey \<Rightarrow> bool) \<Rightarrow> keys_page \<Rightarrow> keys_page \<Rightarrow> bool"
  for listing creating where
  page_searches: "keys_page_step listing creating p (page_view (\<lambda>v. v\<lparr>kv_search := s\<rparr>) p)"
| page_closes: "keys_page_step listing creating p (page_view closeReveal p)"
| page_targets: "listing (kp_workspace p) ks \<Longrightarrow> k \<in> set ks \<Longrightarrow> keys_page_step listing creating p (page_view (onRevoke k) p)"
| page_cancels: "keys_page_step listing creating p (page_view cancelRevoke p)"
| page_creates: "keys_page_step listing creating p (page_create name p)"
| page_revokes: "kv_revokeTarget (kp_view p) = Some k \<Longrightarrow> keys_page_step listing creating p (page_revoke (ak_id k) p)"
| page_created: "(m, CreateAt w name) \<in> set (kp_pending p) \<Longrightarrow> creating w name c \<Longrightarrow>
    keys_page_step listing creating p (page_answer m (handleCreate (Some c)) p)"
| page_create_failed: "(m, CreateAt w name) \<in> set (kp_pending p) \<Longrightarrow> keys_page_step listing creating p (page_answer m (handleCreate None) p)"
| page_revoked: "(m, RevokeAt w i) \<in> set (kp_pending p) \<Longrightarrow> keys_page_step listing creating p (page_answer m (handleRevoke ok) p)"
| page_switches: "keys_page_step listing creating p (page_switch w p)"
| page_reopens: "keys_page_step listing creating p (page_reopen p)"

definition keys_page_start :: "keys_page \<Rightarrow> bool" where
  "keys_page_start p \<longleftrightarrow> kp_view p = keys_view_init \<and> kp_pending p = []"

text \<open>What the view holds is of the workspace shown, and a request of the mounted instance is for it.\<close>

definition page_scoped :: "keys_page \<Rightarrow> bool" where
  "page_scoped p \<longleftrightarrow>
     (\<forall>c. kv_created (kp_view p) = Some c \<longrightarrow> ak_workspace_id (ck_key c) = nullish (kp_workspace p) []) \<and>
     (\<forall>k. kv_revokeTarget (kp_view p) = Some k \<longrightarrow> ak_workspace_id k = nullish (kp_workspace p) []) \<and>
     (\<forall>(m, r)\<in>set (kp_pending p). m \<le> kp_mount p \<and> (m = kp_mount p \<longrightarrow> request_workspace r = kp_workspace p))"

lemmas key_handler_defs = handleCreate_def closeReveal_def onRevoke_def cancelRevoke_def handleRevoke_def

lemma keys_page_invariant:
  assumes "\<And>w ks k. listing w ks \<Longrightarrow> k \<in> set ks \<Longrightarrow> ak_workspace_id k = nullish w []"
    and "\<And>w name c. creating w name c \<Longrightarrow> ak_workspace_id (ck_key c) = nullish w []"
  shows "invariant_system keys_page_start (keys_page_step listing creating) page_scoped"
proof
  show "keys_page_start p \<Longrightarrow> page_scoped p" for p by (simp add: keys_page_start_def page_scoped_def keys_view_init_def)
next
  fix p q
  assume i: "page_scoped p" and "keys_page_step listing creating p q"
  from this(2) show "page_scoped q"
  proof cases
    case (page_created m w name c)
    have "w = kp_workspace p" if "m = kp_mount p" using i page_created(2) that by (auto simp: page_scoped_def)
    then show ?thesis using i assms(2) [OF page_created(3)] page_created(1)
      by (auto simp: page_scoped_def page_answer_def page_view_def key_handler_defs)
  next
    case (page_switches w)
    then show ?thesis using i by (auto simp: page_scoped_def page_switch_def switch_view_def keys_view_init_def)
  qed (use i assms(1) in \<open>auto simp: page_scoped_def page_answer_def page_view_def page_create_def page_revoke_def page_reopen_def
      key_handler_defs keys_view_init_def\<close>)
qed

subsection \<open>Properties\<close>

lemma keys_step_keeps:
  assumes "keys_step toISO ks ks'" "\<And>n. toISO n \<noteq> []" "k \<in> set ks" "key_revoked k"
  shows "\<exists>k'\<in>set ks'. ak_id k' = ak_id k \<and> ak_prefix k' = ak_prefix k \<and> key_revoked k'"
  using assms(1)
proof cases
  case (step_create now r1 r2 r3 name)
  then show ?thesis using assms(3,4) by (auto simp: createKey_def Let_def)
next
  case (step_revoke now i)
  then have "(if ak_id k = i then k\<lparr>ak_revoked_at := Some (toISO now)\<rparr> else k) \<in> set ks'" using assms(3) by (auto simp: revokeKey_def)
  then show ?thesis using assms(2,4)
    by (intro bexI [of _ "if ak_id k = i then k\<lparr>ak_revoked_at := Some (toISO now)\<rparr> else k"]) (auto simp: key_revoked_def truthy_str_def)
qed

text \<open>In the preview a revoked key stays revoked: after any number of creations and revocations, every key that was
  revoked is still listed and revoked, and no key is ever removed.\<close>

theorem revoked_key_stays_revoked:
  assumes "(keys_step toISO)\<^sup>*\<^sup>* ks ks'" "\<forall>n. toISO n \<noteq> []" "k \<in> set ks" "key_revoked k"
  shows "\<exists>k'\<in>set ks'. ak_id k' = ak_id k \<and> ak_prefix k' = ak_prefix k \<and> key_revoked k'"
  using assms(1,3,4)
proof (induction arbitrary: rule: rtranclp_induct)
  case (step ys zs)
  then obtain k' where "k' \<in> set ys" "ak_id k' = ak_id k" "ak_prefix k' = ak_prefix k" "key_revoked k'" by auto
  with keys_step_keeps [OF step(2), of k'] assms(2) show ?case by auto
qed auto

text \<open>C29. What the page of keys holds belongs to the workspace shown: where the server lists and creates the keys of the workspace asked for,
  the key whose token is revealed and the key about to be revoked are of the current workspace in every state, also when answers
  come after a switch. A switch to another workspace hides both, and an answer to a request for another workspace changes nothing.\<close>

theorem key_view_scoped:
  assumes "\<And>w ks k. listing w ks \<Longrightarrow> k \<in> set ks \<Longrightarrow> ak_workspace_id k = nullish w []"
    and "\<And>w name c. creating w name c \<Longrightarrow> ak_workspace_id (ck_key c) = nullish w []"
    and "reach keys_page_start (keys_page_step listing creating) p"
  shows "(\<forall>c. kv_created (kp_view p) = Some c \<longrightarrow> ak_workspace_id (ck_key c) = nullish (kp_workspace p) []) \<and>
    (\<forall>k. kv_revokeTarget (kp_view p) = Some k \<longrightarrow> ak_workspace_id k = nullish (kp_workspace p) []) \<and>
    (w \<noteq> kp_workspace p \<longrightarrow> kv_created (kp_view (page_switch w p)) = None \<and> kv_revokeTarget (kp_view (page_switch w p)) = None) \<and>
    ((m, r) \<in> set (kp_pending p) \<and> request_workspace r \<noteq> kp_workspace p \<longrightarrow> page_answer m f p = p)"
proof -
  have "invariant_system keys_page_start (keys_page_step listing creating) page_scoped"
    by (rule keys_page_invariant) (fact assms(1), fact assms(2))
  then have i: "page_scoped p" using assms(3) by (rule invariant_system.reach_inv)
  then have "(m, r) \<in> set (kp_pending p) \<and> request_workspace r \<noteq> kp_workspace p \<longrightarrow> page_answer m f p = p"
    by (auto simp: page_scoped_def page_answer_def)
  with i show ?thesis by (simp add: page_scoped_def page_switch_def switch_view_def keys_view_init_def)
qed

text \<open>Creating a key in the preview lists it first as active under its trimmed name and reveals its token; the list shows
  only the first twelve characters of the token. Revoking a listed key moves it from the active to the revoked ones, and
  the two counts always add up to the list.\<close>

theorem demo_keys_lifecycle:
  "(let (ks', c) = createKey toISO now r1 r2 r3 name ks in
     ks' = ck_key c # ks \<and> \<not> key_revoked (ck_key c) \<and> ak_name (ck_key c) \<noteq> [] \<and>
     ak_prefix (ck_key c) = take 12 (ck_token c) \<and> length (keys_active ks') = length (keys_active ks) + 1) \<and>
   length (keys_active ks) + length (keys_revoked ks) = length ks \<and>
   (distinct (map ak_id ks) \<and> k \<in> set (keys_active ks) \<and> toISO now \<noteq> [] \<longrightarrow>
     length (keys_active (revokeKey toISO now (ak_id k) ks)) + 1 = length (keys_active ks) \<and>
     ak_id k \<in> ak_id ` set (keys_revoked (revokeKey toISO now (ak_id k) ks)))"
proof (intro conjI impI)
  show "length (keys_active ks) + length (keys_revoked ks) = length ks"
    using sum_length_filter_compl [of key_revoked ks] by (simp add: keys_active_def keys_revoked_def add.commute)
next
  assume a: "distinct (map ak_id ks) \<and> k \<in> set (keys_active ks) \<and> toISO now \<noteq> []"
  show "ak_id k \<in> ak_id ` set (keys_revoked (revokeKey toISO now (ak_id k) ks))"
  proof (rule image_eqI)
    show "k\<lparr>ak_revoked_at := Some (toISO now)\<rparr> \<in> set (keys_revoked (revokeKey toISO now (ak_id k) ks))"
      using a by (auto simp: keys_revoked_def keys_active_def revokeKey_def key_revoked_def truthy_str_def)
  qed simp
  have active: "length (keys_active (revokeKey toISO now (ak_id k) xs)) = length (keys_active xs)" if "ak_id k \<notin> ak_id ` set xs" for xs
    using that by (induction xs) (auto simp: keys_active_def revokeKey_def)
  from a have "distinct (map ak_id ks)" "k \<in> set ks" "\<not> key_revoked k" "toISO now \<noteq> []" by (auto simp: keys_active_def)
  then show "length (keys_active (revokeKey toISO now (ak_id k) ks)) + 1 = length (keys_active ks)"
  proof (induction ks)
    case (Cons x xs)
    show ?case
    proof (cases "x = k")
      case True
      then have "ak_id k \<notin> ak_id ` set xs" using Cons.prems(1) by auto
      from active [OF this] show ?thesis using True Cons.prems
        by (simp add: keys_active_def revokeKey_def key_revoked_def truthy_str_def)
    next
      case False
      then have "ak_id x \<noteq> ak_id k" using Cons.prems(1,2) by (auto simp: image_iff)
      then show ?thesis using Cons False by (auto simp: keys_active_def revokeKey_def)
    qed
  qed simp
qed (auto simp: createKey_def Let_def demo_key_def key_revoked_def truthy_str_def keys_active_def)

definition demo_iso :: "int \<Rightarrow> string" where
  "demo_iso n = ''t''"

definition one_key :: ApiKeyRecord where
  "one_key = demo_key ''a'' ''A'' ''trc_1'' ''t0'' None (Some ''t0'')"

theorem revoked_key_stays_revoked_witness:
  "\<exists>k'\<in>set (revokeKey demo_iso 5 ''b'' [one_key]). ak_id k' = ''a'' \<and> ak_prefix k' = ''trc_1'' \<and> key_revoked k'"
proof -
  have "(keys_step demo_iso)\<^sup>*\<^sup>* [one_key] (revokeKey demo_iso 5 ''b'' [one_key])" by (rule r_into_rtranclp, rule step_revoke)
  moreover have "\<forall>n. demo_iso n \<noteq> []" "one_key \<in> set [one_key]" "key_revoked one_key"
    by (simp_all add: demo_iso_def key_revoked_def truthy_str_def one_key_def demo_key_def)
  ultimately have "\<exists>k'\<in>set (revokeKey demo_iso 5 ''b'' [one_key]). ak_id k' = ak_id one_key \<and> ak_prefix k' = ak_prefix one_key \<and> key_revoked k'"
    by (rule revoked_key_stays_revoked)
  then show ?thesis by (simp add: one_key_def demo_key_def)
qed

theorem key_view_scoped_witness:
  "let p = page_switch (Some ''w2'') (page_create ''A'' \<lparr>kp_workspace = Some ''demo'', kp_mount = 0, kp_view = keys_view_init, kp_pending = []\<rparr>) in
   kp_pending p = [(0, CreateAt (Some ''demo'') ''A'')] \<and> page_answer 0 (handleCreate (Some \<lparr>ck_key = one_key, ck_token = ''trc_123''\<rparr>)) p = p"
proof -
  let ?listing = "\<lambda>w ks. \<forall>k\<in>set ks. ak_workspace_id k = nullish w []"
  let ?creating = "\<lambda>w name c. ak_workspace_id (ck_key c) = nullish w []"
  let ?start = "\<lparr>kp_workspace = Some ''demo'', kp_mount = 0, kp_view = keys_view_init, kp_pending = []\<rparr>"
  let ?p = "page_switch (Some ''w2'') (page_create ''A'' ?start)"
  let ?reach = "reach keys_page_start (keys_page_step ?listing ?creating)"
  have "?reach ?start" by (rule reach_init) (simp add: keys_page_start_def)
  then have "?reach (page_create ''A'' ?start)" by (rule reach_step) (rule page_creates)
  then have "?reach ?p" by (rule reach_step) (rule page_switches)
  note s = key_view_scoped [where p = ?p, OF _ _ this, of None 0 "CreateAt (Some ''demo'') ''A''" "handleCreate (Some \<lparr>ck_key = one_key, ck_token = ''trc_123''\<rparr>)"]
  have "kp_pending ?p = [(0, CreateAt (Some ''demo'') ''A'')]" "kp_workspace ?p = Some ''w2''" by (simp_all add: page_switch_def page_create_def)
  with s show ?thesis by simp
qed

theorem demo_keys_lifecycle_witness:
  "length (keys_active (revokeKey demo_iso 5 ''b'' [one_key, demo_key ''b'' ''B'' ''trc_2'' ''t0'' None None])) = 0"
proof -
  let ?ks = "[one_key, demo_key ''b'' ''B'' ''trc_2'' ''t0'' None None]" and ?k = "demo_key ''b'' ''B'' ''trc_2'' ''t0'' None None"
  have "distinct (map ak_id ?ks) \<and> ?k \<in> set (keys_active ?ks) \<and> demo_iso 5 \<noteq> []"
    "ak_id ?k = ''b''" "length (keys_active ?ks) = 1"
    by (simp_all add: one_key_def demo_key_def keys_active_def key_revoked_def truthy_str_def demo_iso_def)
  then show ?thesis using demo_keys_lifecycle [of demo_iso 5 "[]" "[]" "[]" "[]" ?ks ?k] by simp
qed

end
