(* ===== verification/Keys_View.thy ===== *)
theory Keys_View
  imports Api_Keys Elements
begin

text \<open>
  What the page of ingest keys shows and what a visitor can press on it (\<open>modules/api-keys/pages/ApiKeysPage.tsx\<close>): the form of a
  new key, the token that is shown once, the list with the confirmation of a revocation, and the requests under way.
\<close>

datatype key_event =
    KvName string
  | KvCreate
  | KvSearch string
  | KvCopy string
  | KvDone
  | KvRevoke ApiKeyRecord
  | KvCancel
  | KvConfirm string

definition inlineCreateForm :: "string \<Rightarrow> bool \<Rightarrow> string option \<Rightarrow> key_event element list" where
  "inlineCreateForm name submitting error =
     [FormBox KvCreate (
        [Words ''New key name'', TextInput ''New key name'' name False KvName,
         SubmitButton (\<not> canCreate name submitting) (if submitting then ''Creating'' @ ellipsis else ''Create key''),
         Words (''A label to recognise this key later. It grants ingest access to this workspace. The full token is shown once, '' @
           ''right after it's created.'')]
        @ shown (truthy_str error) [Words (the error)])]"

definition inlineReveal :: "CopyStatus \<Rightarrow> CreatedApiKey \<Rightarrow> key_event element list" where
  "inlineReveal status c =
     [Words ''Key created. Copy it now'', Words ''This is the only time the full token is shown.'',
      Words (ak_name (ck_key c)), Words (ck_token c), PressButton False (copy_label status) (KvCopy (ck_token c))]
     @ shown (status = CopyFailed) [Words ''Couldn't copy automatically. Select the token above and copy it manually.'']
     @ [Words (''Store it in a secrets manager and send it as Authorization: Bearer <token> on OTLP ingest. From now on the dashboard '' @
          ''shows only '' @ ak_prefix (ck_key c) @ ellipsis),
        PressButton False ''Done, I've stored it safely'' KvDone]"

definition revokeConfirmRow :: "ApiKeyRecord \<Rightarrow> bool \<Rightarrow> string option \<Rightarrow> key_event element list" where
  "revokeConfirmRow target submitting error =
     [Words (''Revoke '' @ left_quote @ ak_name target @ right_quote @ ''? Ingest requests presenting '' @ ak_prefix target @ ellipsis @
        '' will be rejected shortly after (subject to the collector's short verification cache). This cannot be undone.'')]
     @ shown (truthy_str error) [Words (the error)]
     @ [PressButton submitting ''Cancel'' KvCancel,
        PressButton submitting (if submitting then ''Revoking'' @ ellipsis else ''Revoke key'') (KvConfirm (ak_id target))]"

text \<open>The list has one row for each visible key, followed by the confirmation where it is asked for.\<close>

definition LIVE_COLS :: "string list" where
  [data_defs]: "LIVE_COLS = [''Name'', ''Key'', ''Status'', ''Last used'', ''Created'', []]"

definition key_row_view :: "key_row \<Rightarrow> key_event element list" where
  "key_row_view r =
     [Words (ak_name (kr_key r))] @ (case kr_revokedOn r of None \<Rightarrow> [] | Some t \<Rightarrow> [Words t])
     @ [Words (kr_prefix r), PressButton False (''Copy prefix of '' @ ak_name (kr_key r)) (KvCopy (ak_prefix (kr_key r))),
        Words (kr_status r), Words (kr_lastUsed r), Words (kr_created r)]
     @ shown (kr_canRevoke r) [PressButton False (''Revoke '' @ ak_name (kr_key r)) (KvRevoke (kr_key r))]"

record keys_ui =
  ku_view :: keys_view
  ku_name :: string
  ku_keys :: "ApiKeyRecord list"
  ku_loading :: bool
  ku_failed :: bool
  ku_creating :: "string list"
  ku_revoking :: "string list"

definition key_row_block :: "keys_ui \<Rightarrow> key_row \<Rightarrow> key_event element list" where
  "key_row_block u r =
     key_row_view r @
     (case kv_revokeTarget (ku_view u) of
        None \<Rightarrow> []
      | Some t \<Rightarrow> shown (kr_confirming r) (revokeConfirmRow t (ku_revoking u \<noteq> []) (kv_revokeError (ku_view u))))"

definition keys_body_view :: "keys_ui \<Rightarrow> keys_content \<Rightarrow> key_event element list" where
  "keys_body_view u body =
     (case body of
        KeysLoading \<Rightarrow> []
      | KeysFailed \<Rightarrow> [AlertText ''Could not load API keys for this workspace.'']
      | NoKeys t \<Rightarrow> map Words LIVE_COLS @ [Words t]
      | KeysListed rows \<Rightarrow> map Words LIVE_COLS @ [ItemList ''Keys'' (map (key_row_block u) rows)])"

definition apiKeysView :: "host \<Rightarrow> int \<Rightarrow> (string \<Rightarrow> string) \<Rightarrow> CopyStatus \<Rightarrow> bool \<Rightarrow> keys_ui \<Rightarrow> key_event element list" where
  "apiKeysView h now lower status mayCreate u =
     [Words ''API keys'',
      Words (''Ingest keys authenticate trace data sent to this workspace. Each key both proves the sender and decides which workspace '' @
        ''the telemetry lands in.''),
      SectionTitle ''Keys'' (Some ''Active and revoked keys for this workspace, newest first.''),
      TextInput ''Search keys'' (kv_search (ku_view u)) False KvSearch]
     @ shown mayCreate (inlineCreateForm (ku_name u) (ku_creating u \<noteq> []) (kv_createError (ku_view u)))
     @ (case kv_created (ku_view u) of None \<Rightarrow> [] | Some c \<Rightarrow> inlineReveal status c)
     @ keys_body_view u (keys_body h now lower (ku_loading u) (ku_failed u) (ku_keys u) (ku_view u))
     @ (case keys_footer (ku_loading u) (ku_failed u) (ku_keys u) of None \<Rightarrow> [] | Some t \<Rightarrow> [Words t])"

text \<open>The form of a new key is keyed by the key revealed: with another one, or none, it starts empty.\<close>

definition form_key :: "keys_view \<Rightarrow> string" where
  "form_key v = (case kv_created v of None \<Rightarrow> ''new'' | Some c \<Rightarrow> ak_id (ck_key c))"

definition set_view :: "keys_view \<Rightarrow> keys_ui \<Rightarrow> keys_ui" where
  "set_view v u = u\<lparr>ku_view := v, ku_name := (if form_key v = form_key (ku_view u) then ku_name u else [])\<rparr>"

fun keys_react :: "key_event \<Rightarrow> keys_ui \<Rightarrow> keys_ui" where
  "keys_react (KvName s) u = u\<lparr>ku_name := s\<rparr>"
| "keys_react KvCreate u =
     (case create_submit (ku_name u) (ku_creating u \<noteq> []) of
        None \<Rightarrow> u
      | Some name \<Rightarrow> (set_view ((ku_view u)\<lparr>kv_createError := None\<rparr>) u)\<lparr>ku_creating := ku_creating u @ [name]\<rparr>)"
| "keys_react (KvSearch s) u = set_view ((ku_view u)\<lparr>kv_search := s\<rparr>) u"
| "keys_react (KvCopy s) u = u"
| "keys_react KvDone u = set_view (closeReveal (ku_view u)) u"
| "keys_react (KvRevoke k) u = set_view (onRevoke k (ku_view u)) u"
| "keys_react KvCancel u = set_view (cancelRevoke (ku_view u)) u"
| "keys_react (KvConfirm i) u = (set_view ((ku_view u)\<lparr>kv_revokeError := None\<rparr>) u)\<lparr>ku_revoking := ku_revoking u @ [i]\<rparr>"

inductive keys_env :: "keys_ui \<Rightarrow> keys_ui \<Rightarrow> bool" where
  key_created: "ku_creating u = xs @ n # ys \<Longrightarrow> keys_env u ((set_view (handleCreate r (ku_view u)) u)\<lparr>ku_creating := xs @ ys\<rparr>)"
| key_revoked_env: "ku_revoking u = xs @ i # ys \<Longrightarrow> keys_env u ((set_view (handleRevoke ok (ku_view u)) u)\<lparr>ku_revoking := xs @ ys\<rparr>)"
| keys_fetched: "keys_env u (u\<lparr>ku_keys := ks, ku_loading := l, ku_failed := f\<rparr>)"

definition keys_start :: "keys_ui \<Rightarrow> bool" where
  "keys_start u \<longleftrightarrow> ku_view u = keys_view_init \<and> ku_name u = [] \<and> ku_creating u = [] \<and> ku_revoking u = []"

subsection \<open>What the page offers\<close>

definition listed_keys :: "(string \<Rightarrow> string) \<Rightarrow> keys_ui \<Rightarrow> ApiKeyRecord list" where
  "listed_keys lower u = (if ku_loading u \<or> ku_failed u then [] else keys_visible lower (kv_search (ku_view u)) (ku_keys u))"

lemma listed_sub: "set (listed_keys lower u) \<subseteq> set (ku_keys u)"
  by (auto simp: listed_keys_def keys_visible_def)

definition key_offer :: "(string \<Rightarrow> string) \<Rightarrow> bool \<Rightarrow> keys_ui \<Rightarrow> key_event \<Rightarrow> bool" where
  "key_offer lower mayCreate u e =
     (let v = ku_view u; visible = listed_keys lower u in
      case e of
        KvName s \<Rightarrow> False
      | KvSearch s \<Rightarrow> False
      | KvCreate \<Rightarrow> mayCreate \<and> canCreate (ku_name u) (ku_creating u \<noteq> [])
      | KvDone \<Rightarrow> kv_created v \<noteq> None
      | KvCopy s \<Rightarrow> map_option ck_token (kv_created v) = Some s \<or> s \<in> ak_prefix ` set visible
      | KvRevoke k \<Rightarrow> k \<in> set visible \<and> \<not> key_revoked k \<and> map_option ak_id (kv_revokeTarget v) \<noteq> Some (ak_id k)
      | KvCancel \<Rightarrow> ku_revoking u = [] \<and> (\<exists>t. kv_revokeTarget v = Some t \<and> ak_id t \<in> ak_id ` set visible)
      | KvConfirm i \<Rightarrow> ku_revoking u = [] \<and> map_option ak_id (kv_revokeTarget v) = Some i \<and> i \<in> ak_id ` set visible)"

lemma form_offers: "offers (inlineCreateForm name submitting error) = (if canCreate name submitting then [KvCreate] else [])"
  by (simp add: inlineCreateForm_def shown_def)

lemma reveal_offers: "offers (inlineReveal status c) = [KvCopy (ck_token c), KvDone]"
  by (simp add: inlineReveal_def shown_def)

lemma row_offers: "offers (key_row_view r) =
    [KvCopy (ak_prefix (kr_key r))] @ (if kr_canRevoke r then [KvRevoke (kr_key r)] else [])"
  by (cases "kr_revokedOn r") (simp_all add: key_row_view_def shown_def)

lemma confirm_offers: "offers (revokeConfirmRow t submitting error) = (if submitting then [] else [KvCancel, KvConfirm (ak_id t)])"
  by (simp add: revokeConfirmRow_def shown_def)

definition row_events :: "keys_ui \<Rightarrow> ApiKeyRecord \<Rightarrow> key_event list" where
  "row_events u k =
     (let confirming = map_option ak_id (kv_revokeTarget (ku_view u)) = Some (ak_id k) in
      [KvCopy (ak_prefix k)] @ (if \<not> key_revoked k \<and> \<not> confirming then [KvRevoke k] else [])
      @ (if confirming \<and> ku_revoking u = [] then [KvCancel, KvConfirm (ak_id k)] else []))"

lemma block_offers:
  "offers (key_row_block u (liveKeyRow h now k isLast (map_option ak_id (kv_revokeTarget (ku_view u)) = Some (ak_id k)))) = row_events u k"
proof (cases "kv_revokeTarget (ku_view u)")
  case None
  then show ?thesis by (simp add: key_row_block_def row_offers row_events_def liveKeyRow_def)
next
  case (Some t)
  then show ?thesis
    by (simp add: key_row_block_def row_offers confirm_offers row_events_def liveKeyRow_def)
qed

lemma keys_body_offers:
  "offers (keys_body_view u (keys_body h now lower (ku_loading u) (ku_failed u) (ku_keys u) (ku_view u))) =
     concat (map (row_events u) (listed_keys lower u))"
proof -
  define vs where "vs = keys_visible lower (kv_search (ku_view u)) (ku_keys u)"
  define row where "row = (\<lambda>(k, i). liveKeyRow h now k (i = length vs - 1) (map_option ak_id (kv_revokeTarget (ku_view u)) = Some (ak_id k)))"
  have words: "offers (map Words ws) = []" for ws :: "string list" by (induction ws) simp_all
  have "map (\<lambda>x. offers (key_row_block u (row x))) (zip vs [0..<length vs]) = map (\<lambda>x. row_events u (fst x)) (zip vs [0..<length vs])"
    by (rule map_cong) (simp_all only: row_def case_prod_beta block_offers)
  also have "\<dots> = map (row_events u) (map fst (zip vs [0..<length vs]))" by (simp only: map_map comp_def)
  also have "\<dots> = map (row_events u) vs" by (simp only: map_fst_zip length_upt diff_zero)
  finally have rows: "map (\<lambda>x. offers (key_row_block u (row x))) (zip vs [0..<length vs]) = map (row_events u) vs" .
  show ?thesis unfolding keys_body_def listed_keys_def vs_def [symmetric] row_def [symmetric] Let_def
    using rows by (auto simp: keys_body_view_def words comp_def)
qed

lemma keys_offers:
  "e \<in> set (offers (apiKeysView h now lower status mayCreate u)) \<longleftrightarrow> key_offer lower mayCreate u e"
proof -
  have "offers (apiKeysView h now lower status mayCreate u) =
      (if mayCreate then offers (inlineCreateForm (ku_name u) (ku_creating u \<noteq> []) (kv_createError (ku_view u))) else [])
      @ (case kv_created (ku_view u) of None \<Rightarrow> [] | Some c \<Rightarrow> offers (inlineReveal status c))
      @ offers (keys_body_view u (keys_body h now lower (ku_loading u) (ku_failed u) (ku_keys u) (ku_view u)))"
    by (cases "kv_created (ku_view u)"; cases "keys_footer (ku_loading u) (ku_failed u) (ku_keys u)")
      (simp_all only: apiKeysView_def map_append concat_append offers_shown option.case, simp_all)
  then show ?thesis unfolding form_offers reveal_offers keys_body_offers
    by (cases e) (auto simp: key_offer_def row_events_def Let_def image_iff split: if_splits option.splits)
qed

subsection \<open>Requests\<close>

definition keys_inv :: "keys_ui \<Rightarrow> bool" where
  "keys_inv u \<longleftrightarrow> length (ku_creating u) \<le> 1 \<and> length (ku_revoking u) \<le> 1 \<and> [] \<notin> set (ku_creating u)"

lemma keys_inputs: "f \<in> set (inputs (apiKeysView h now lower status mayCreate u)) \<Longrightarrow> f = KvName \<or> f = KvSearch"
  by (auto simp: apiKeysView_def inlineCreateForm_def inlineReveal_def keys_body_view_def key_row_block_def key_row_view_def
      revokeConfirmRow_def shown_def split: if_splits option.splits keys_content.splits)

lemma set_view_simps [simp]:
  "ku_view (set_view v u) = v" "ku_creating (set_view v u) = ku_creating u" "ku_revoking (set_view v u) = ku_revoking u"
  "ku_keys (set_view v u) = ku_keys u"
  by (simp_all add: set_view_def)

interpretation keys: guarded_page keys_start "apiKeysView h now lower status mayCreate" keys_react keys_env keys_inv
proof
  show "keys_start u \<Longrightarrow> keys_inv u" for u by (simp add: keys_start_def keys_inv_def)
next
  fix u e
  assume i: "keys_inv u" and "e \<in> set (offers (apiKeysView h now lower status mayCreate u))"
  then have "key_offer lower mayCreate u e" by (simp only: keys_offers)
  with i show "keys_inv (keys_react e u)"
    by (cases e) (auto simp: keys_inv_def key_offer_def create_submit_def canCreate_def Let_def split: if_splits)
next
  fix u f t
  assume i: "keys_inv u" and "f \<in> set (inputs (apiKeysView h now lower status mayCreate u))"
  from this(2) have "f = KvName \<or> f = KvSearch" by (rule keys_inputs)
  then show "keys_inv (keys_react (f t) u)" using i by (auto simp: keys_inv_def)
next
  show "keys_inv u \<Longrightarrow> keys_env u u' \<Longrightarrow> keys_inv u'" for u u'
    by (erule keys_env.cases) (auto simp: keys_inv_def)
qed

text \<open>C22. However the page of keys is used: at most one key is being created and at most one revoked, a key is created only under a name, and a
  revocation is sent only for the key it was confirmed for, while the page lists that key; the token of a new key can be copied only
  until the notice is closed.\<close>

theorem key_requests_guarded:
  assumes "reach keys_start (page_step (apiKeysView h now lower status mayCreate) keys_react keys_env) u"
  shows "length (ku_creating u) \<le> 1 \<and> length (ku_revoking u) \<le> 1 \<and> [] \<notin> set (ku_creating u) \<and>
    (KvConfirm i \<in> set (offers (apiKeysView h now lower status mayCreate u)) \<longrightarrow>
       ku_revoking u = [] \<and> i \<in> ak_id ` set (ku_keys u) \<and> (\<exists>t. kv_revokeTarget (ku_view u) = Some t \<and> ak_id t = i)) \<and>
    (KvRevoke k \<in> set (offers (apiKeysView h now lower status mayCreate u)) \<longrightarrow> k \<in> set (ku_keys u) \<and> \<not> key_revoked k) \<and>
    (KvCopy s \<in> set (offers (apiKeysView h now lower status mayCreate (keys_react KvDone u))) \<longrightarrow> s \<in> ak_prefix ` set (ku_keys u))"
proof -
  have i: "keys_inv u" using assms by (rule keys.pages.reach_inv)
  have "i \<in> ak_id ` set (ku_keys u)" if "key_offer lower mayCreate u (KvConfirm i)"
    using that listed_sub [of lower u] by (auto simp: key_offer_def Let_def)
  moreover have "k \<in> set (ku_keys u) \<and> \<not> key_revoked k" if "key_offer lower mayCreate u (KvRevoke k)"
    using that listed_sub [of lower u] by (auto simp: key_offer_def Let_def)
  moreover have "s \<in> ak_prefix ` set (ku_keys u)" if "key_offer lower mayCreate (keys_react KvDone u) (KvCopy s)"
    using that listed_sub [of lower "keys_react KvDone u"] by (auto simp: key_offer_def Let_def closeReveal_def)
  moreover have "ku_revoking u = [] \<and> (\<exists>t. kv_revokeTarget (ku_view u) = Some t \<and> ak_id t = i)"
    if "key_offer lower mayCreate u (KvConfirm i)"
    using that by (auto simp: key_offer_def Let_def)
  ultimately show ?thesis using i unfolding keys_offers keys_inv_def by blast
qed

text \<open>Closing the notice of a new key also empties the form, whatever was typed into it meanwhile.\<close>

lemma closing_notice_clears_form:
  assumes "kv_created (ku_view u) = Some c" "ak_id (ck_key c) \<noteq> ''new''"
  shows "ku_name (keys_react KvDone (keys_react (KvName s) u)) = []"
  using assms by (simp add: set_view_def form_key_def closeReveal_def)

text \<open>The end of a revocation closes the question that is open then, also when it asks about another key.\<close>

lemma revocation_closes_other_question:
  "kv_revokeTarget (handleRevoke True (onRevoke k v)) = None"
  by (simp add: handleRevoke_def onRevoke_def)

definition keys_opened :: keys_ui where
  "keys_opened = \<lparr>ku_view = keys_view_init, ku_name = [], ku_keys = [demo_key ''a'' ''A'' ''trc_1'' ''t0'' None None], ku_loading = False,
     ku_failed = False, ku_creating = [], ku_revoking = []\<rparr>"

theorem key_requests_guarded_witness:
  "length (ku_revoking (keys_react (KvConfirm ''a'') (keys_react (KvRevoke (demo_key ''a'' ''A'' ''trc_1'' ''t0'' None None)) keys_opened))) \<le> 1"
proof -
  fix h now
  let ?k = "demo_key ''a'' ''A'' ''trc_1'' ''t0'' None None" and ?page = "apiKeysView h now to_lower Idle True"
  let ?reach = "reach keys_start (page_step ?page keys_react keys_env)"
  have listed: "listed_keys to_lower u = [?k]" if "ku_keys u = [?k]" "\<not> ku_loading u" "\<not> ku_failed u" "kv_search (ku_view u) = []" for u
    using that by (simp add: listed_keys_def keys_visible_def trim_def)
  have k: "ak_id ?k = ''a''" "\<not> key_revoked ?k" by (simp_all add: demo_key_def key_revoked_def truthy_str_def)
  have "?reach keys_opened" by (rule reach_init) (simp add: keys_start_def keys_opened_def)
  moreover have "KvRevoke ?k \<in> set (offers (?page keys_opened))"
    unfolding keys_offers using k listed [of keys_opened] by (simp add: key_offer_def keys_opened_def keys_view_init_def)
  ultimately have r: "?reach (keys_react (KvRevoke ?k) keys_opened)" by (rule reach_press)
  have "KvConfirm ''a'' \<in> set (offers (?page (keys_react (KvRevoke ?k) keys_opened)))"
    unfolding keys_offers using k listed [of "keys_react (KvRevoke ?k) keys_opened"]
    by (simp add: key_offer_def keys_opened_def keys_view_init_def onRevoke_def set_view_def)
  then have "?reach (keys_react (KvConfirm ''a'') (keys_react (KvRevoke ?k) keys_opened))" by (rule reach_press [OF r])
  from key_requests_guarded [OF this] show ?thesis by blast
qed

end
