(* ===== verification/Anomalies.thy ===== *)
theory Anomalies
  imports Formatters
begin

text \<open>
  The outlier logic of the overview (\<open>modules/overview/utils/anomalies.ts\<close>, \<open>status.ts\<close>): keys,
  labels, the severity order, grouping into incidents, chips and chart markers, and the sync
  status of the page. The orders are interpretations of the \<open>comparator\<close> interface; grouping and
  counting go through the \<open>finite_store\<close> interface.
\<close>

subsection \<open>Labels\<close>

record metric_meta =
  mm_noun :: string
  mm_kind :: string

definition METRIC_META :: "AnomalyMetric \<Rightarrow> metric_meta" where
  [data_defs]: "METRIC_META m = (case m of
     Cost \<Rightarrow> \<lparr>mm_noun = ''Cost'', mm_kind = ''Cost''\<rparr>
   | ErrorRate \<Rightarrow> \<lparr>mm_noun = ''Error rate'', mm_kind = ''Errors''\<rparr>
   | Runs \<Rightarrow> \<lparr>mm_noun = ''Run volume'', mm_kind = ''Volume''\<rparr>)"

definition anomalyValue :: "host \<Rightarrow> AnomalyMetric \<Rightarrow> rat \<Rightarrow> string" where
  "anomalyValue h metric v = (case metric of
     Cost \<Rightarrow> fmtCost v
   | ErrorRate \<Rightarrow> fmtPct (v * 100)
   | _ \<Rightarrow> fmtNum h (of_int (math_round v)))"

definition zLabel :: "rat \<Rightarrow> string" where
  "zLabel score = to_fixed 1 \<bar>score\<bar> @ sigma_sign"

definition versionChangeLabel :: "Anomaly \<Rightarrow> string" where
  "versionChangeLabel a = (case an_version_change a of
     None \<Rightarrow> []
   | Some v \<Rightarrow> if an_scope a = WorkflowScope then ''after '' @ vc_version v
               else ''after '' @ vc_workflow v @ '' '' @ vc_version v)"

definition metric_str :: "AnomalyMetric \<Rightarrow> string" where
  "metric_str m = (case m of Cost \<Rightarrow> ''cost'' | ErrorRate \<Rightarrow> ''error_rate'' | Runs \<Rightarrow> ''runs'')"

definition scope_str :: "AnomalyScope \<Rightarrow> string" where
  "scope_str s = (case s of WorkspaceScope \<Rightarrow> ''workspace'' | WorkflowScope \<Rightarrow> ''workflow'')"

definition anomalyKey :: "Anomaly \<Rightarrow> string" where
  "anomalyKey a = metric_str (an_metric a) @ '':'' @ scope_str (an_scope a) @ '':''
     @ an_workflow a @ '':'' @ int_str (an_bucket_ms a)"

lemma metric_str_inject [simp]: "metric_str m = metric_str n \<longleftrightarrow> m = n"
  by (cases m; cases n) (simp_all add: metric_str_def)

lemma scope_str_inject [simp]: "scope_str m = scope_str n \<longleftrightarrow> m = n"
  by (cases m; cases n) (simp_all add: scope_str_def)

lemma no_colon [simp]: "CHR '':'' \<notin> set (metric_str m)" "CHR '':'' \<notin> set (scope_str s)"
  by (cases m; simp add: metric_str_def) (cases s; simp add: scope_str_def)

subsection \<open>Chips\<close>

record AnomalyChip =
  ac_metric :: AnomalyMetric
  ac_label :: string
  ac_color :: string
  ac_tint :: string
  ac_border :: string

record chip_def =
  cd_metric :: AnomalyMetric
  cd_noun :: string
  cd_sev :: Severity

definition CHIP_DEFS :: "chip_def list" where
  [data_defs]: "CHIP_DEFS =
     [\<lparr>cd_metric = Cost, cd_noun = ''cost spike'', cd_sev = Critical\<rparr>,
      \<lparr>cd_metric = ErrorRate, cd_noun = ''error spike'', cd_sev = Critical\<rparr>,
      \<lparr>cd_metric = Runs, cd_noun = ''volume shift'', cd_sev = Warning\<rparr>]"

definition metric_counts :: "Anomaly list \<Rightarrow> (AnomalyMetric, nat) jsmap" where
  "metric_counts anomalies =
     foldl (\<lambda>m a. jm_set (an_metric a) (nullish (jm_get m (an_metric a)) 0 + 1) m) [] anomalies"

definition chip_of :: "chip_def \<Rightarrow> nat \<Rightarrow> AnomalyChip" where
  "chip_of d n = (let st = SEVERITY_META (cd_sev d) in
     \<lparr>ac_metric = cd_metric d,
      ac_label = nat_str n @ '' '' @ cd_noun d @ (if n = 1 then [] else ''s''),
      ac_color = sev_color st, ac_tint = sev_tint st, ac_border = sev_border st\<rparr>)"

definition anomalyChips :: "Anomaly list \<Rightarrow> AnomalyChip list" where
  "anomalyChips anomalies =
     (let counts = metric_counts anomalies in
      map (\<lambda>d. chip_of d (nullish (jm_get counts (cd_metric d)) 0))
        (filter (\<lambda>d. jm_has counts (cd_metric d)) CHIP_DEFS))"

lemma foldl_count: "foldl (\<lambda>r x. Some (Suc (nullish r 0))) r xs =
    (if xs = [] then r else Some (nullish r 0 + length xs))"
  by (induction xs arbitrary: r) auto

lemma metric_counts_get:
  "jm_get (metric_counts as) m =
     (if \<exists>a\<in>set as. an_metric a = m then Some (length (filter (\<lambda>a. an_metric a = m) as)) else None)"
  using jm.fold_upd_get [of "[]" an_metric "\<lambda>r a. Suc (nullish r 0)" as m]
  by (auto simp: metric_counts_def foldl_count filter_empty_conv)

subsection \<open>The severity order\<close>

definition bySeverity :: "Anomaly \<Rightarrow> Anomaly \<Rightarrow> rat" where
  "bySeverity a b =
     (let s = rank (an_severity b) - rank (an_severity a) in
      if s \<noteq> 0 then of_int s
      else let z = \<bar>an_score b\<bar> - \<bar>an_score a\<bar> in
        if z \<noteq> 0 then z else of_int (an_bucket_ms b - an_bucket_ms a))"

interpretation sev: comparator bySeverity
proof -
  let ?s = "\<lambda>(a::Anomaly) (b::Anomaly). of_int (rank (an_severity b)) - of_int (rank (an_severity a)) :: rat"
  let ?z = "\<lambda>(a::Anomaly) (b::Anomaly). \<bar>an_score b\<bar> - \<bar>an_score a\<bar> :: rat"
  let ?t = "\<lambda>(a::Anomaly) (b::Anomaly). of_int (an_bucket_ms b) - of_int (an_bucket_ms a) :: rat"
  have "comparator (\<lambda>a b. if ?s a b \<noteq> 0 then ?s a b else if ?z a b \<noteq> 0 then ?z a b else ?t a b)"
    by (rule comparator_lex [OF comparator_key_desc comparator_lex [OF comparator_key_desc comparator_key_desc]])
  moreover have "bySeverity =
      (\<lambda>a b. if ?s a b \<noteq> 0 then ?s a b else if ?z a b \<noteq> 0 then ?z a b else ?t a b)"
    by (auto simp: bySeverity_def Let_def fun_eq_iff)
  ultimately show "comparator bySeverity" by (simp only:)
qed

lemma bySeverity_le_rank: "bySeverity a b \<le> 0 \<Longrightarrow> rank (an_severity b) \<le> rank (an_severity a)"
  by (auto simp: bySeverity_def Let_def split: if_splits)

definition ratioLabel :: "rat \<Rightarrow> rat \<Rightarrow> string" where
  "ratioLabel observed expected =
     (if expected \<le> 0 \<or> observed \<le> 0 then []
      else let r = observed / expected in
        (if r \<ge> 10 then int_str (math_round r) else to_fixed 1 r) @ times_sign)"

subsection \<open>Incidents\<close>

record Incident =
  inc_key :: string
  inc_scope :: AnomalyScope
  inc_workflow :: string
  inc_bucket_ms :: int
  inc_severity :: Severity
  inc_anomalies :: "Anomaly list"

definition incident_key :: "Anomaly \<Rightarrow> string" where
  "incident_key a = scope_str (an_scope a) @ '':'' @ an_workflow a @ '':'' @ int_str (an_bucket_ms a)"

definition incident_add :: "Incident option \<Rightarrow> Anomaly \<Rightarrow> Incident" where
  "incident_add existing a = (case existing of
     Some inc \<Rightarrow>
       inc\<lparr>inc_anomalies := inc_anomalies inc @ [a],
           inc_severity := (if rank (an_severity a) > rank (inc_severity inc)
                            then an_severity a else inc_severity inc)\<rparr>
   | None \<Rightarrow> \<lparr>inc_key = incident_key a, inc_scope = an_scope a, inc_workflow = an_workflow a,
        inc_bucket_ms = an_bucket_ms a, inc_severity = an_severity a, inc_anomalies = [a]\<rparr>)"

definition incidents_by_key :: "Anomaly list \<Rightarrow> (string, Incident) jsmap" where
  "incidents_by_key anomalies =
     foldl (\<lambda>m a. jm_set (incident_key a) (incident_add (jm_get m (incident_key a)) a) m) [] anomalies"

text \<open>The score of the first anomaly; incidents are never empty when they are compared.\<close>

definition incident_score :: "Incident \<Rightarrow> rat" where
  "incident_score i = (case inc_anomalies i of [] \<Rightarrow> 0 | a # _ \<Rightarrow> \<bar>an_score a\<bar>)"

definition byIncident :: "Incident \<Rightarrow> Incident \<Rightarrow> rat" where
  "byIncident x y =
     (let s = rank (inc_severity y) - rank (inc_severity x) in
      if s \<noteq> 0 then of_int s
      else let z = incident_score y - incident_score x in
        if z \<noteq> 0 then z else of_int (inc_bucket_ms y - inc_bucket_ms x))"

definition groupIncidents :: "Anomaly list \<Rightarrow> Incident list" where
  "groupIncidents anomalies =
     js_sort byIncident
       (map (\<lambda>i. i\<lparr>inc_anomalies := js_sort bySeverity (inc_anomalies i)\<rparr>)
         (jm_values (incidents_by_key anomalies)))"

interpretation inc: comparator byIncident
proof -
  let ?s = "\<lambda>(a::Incident) (b::Incident). of_int (rank (inc_severity b)) - of_int (rank (inc_severity a)) :: rat"
  let ?z = "\<lambda>(a::Incident) (b::Incident). incident_score b - incident_score a :: rat"
  let ?t = "\<lambda>(a::Incident) (b::Incident). of_int (inc_bucket_ms b) - of_int (inc_bucket_ms a) :: rat"
  have "comparator (\<lambda>a b. if ?s a b \<noteq> 0 then ?s a b else if ?z a b \<noteq> 0 then ?z a b else ?t a b)"
    by (rule comparator_lex [OF comparator_key_desc comparator_lex [OF comparator_key_desc comparator_key_desc]])
  moreover have "byIncident =
      (\<lambda>a b. if ?s a b \<noteq> 0 then ?s a b else if ?z a b \<noteq> 0 then ?z a b else ?t a b)"
    by (auto simp: byIncident_def Let_def fun_eq_iff)
  ultimately show "comparator byIncident" by (simp only:)
qed

lemma incident_key_inject:
  "incident_key a = incident_key b \<longleftrightarrow>
     an_scope a = an_scope b \<and> an_workflow a = an_workflow b \<and> an_bucket_ms a = an_bucket_ms b"
proof -
  have "incident_key a = incident_key b \<longleftrightarrow> scope_str (an_scope a) = scope_str (an_scope b)
      \<and> an_workflow a @ CHR '':'' # int_str (an_bucket_ms a)
        = an_workflow b @ CHR '':'' # int_str (an_bucket_ms b)"
    by (simp add: incident_key_def sep_first_inject)
  then show ?thesis by (simp add: sep_last_inject)
qed

lemma anomalyKey_inject:
  "anomalyKey a = anomalyKey b \<longleftrightarrow> an_metric a = an_metric b \<and> incident_key a = incident_key b"
  by (simp add: anomalyKey_def incident_key_def sep_first_inject)

text \<open>What the group of a list of anomalies with one key looks like.\<close>

definition group_ok :: "Anomaly list \<Rightarrow> Incident \<Rightarrow> bool" where
  "group_ok as i \<longleftrightarrow> as \<noteq> [] \<and> inc_anomalies i = as
     \<and> inc_severity i = Max (an_severity ` set as)
     \<and> inc_key i = incident_key (hd as) \<and> inc_scope i = an_scope (hd as)
     \<and> inc_workflow i = an_workflow (hd as) \<and> inc_bucket_ms i = an_bucket_ms (hd as)"

lemma group_ok_add: "group_ok as i \<Longrightarrow> group_ok (as @ [a]) (incident_add (Some i) a)"
proof -
  assume g: "group_ok as i"
  then have ne: "as \<noteq> []" by (simp add: group_ok_def)
  have "Max (an_severity ` set (as @ [a])) = max (an_severity a) (Max (an_severity ` set as))"
    using ne by simp
  with g show ?thesis 
    by (auto simp: group_ok_def incident_add_def max_def less_eq_Severity_def)
qed

lemma group_ok_new: "group_ok [a] (incident_add None a)"
  by (simp add: group_ok_def incident_add_def)

lemma foldl_incident_add:
  "group_ok as i \<Longrightarrow>
   \<exists>j. foldl (\<lambda>r a. Some (incident_add r a)) (Some i) bs = Some j \<and> group_ok (as @ bs) j"
proof (induction bs arbitrary: as i)
  case (Cons b bs)
  from Cons.IH [OF group_ok_add [OF Cons.prems, of b]] show ?case by simp
qed simp

lemma incidents_by_key_get:
  "(case jm_get (incidents_by_key as) k of
      None \<Rightarrow> filter (\<lambda>a. incident_key a = k) as = []
    | Some i \<Rightarrow> group_ok (filter (\<lambda>a. incident_key a = k) as) i)"
proof -
  let ?f = "filter (\<lambda>a. incident_key a = k) as"
  have get: "jm_get (incidents_by_key as) k = foldl (\<lambda>r a. Some (incident_add r a)) None ?f"
    using jm.fold_upd_get [of "[]" incident_key incident_add as k]
    by (simp add: incidents_by_key_def)
  show ?thesis
  proof (cases ?f)
    case Nil
    then show ?thesis by (simp add: get)
  next
    case (Cons a bs)
    obtain j where "foldl (\<lambda>r a. Some (incident_add r a)) (Some (incident_add None a)) bs = Some j"
      "group_ok ([a] @ bs) j"
      using foldl_incident_add [OF group_ok_new] by blast
    then show ?thesis by (simp add: get Cons)
  qed
qed

lemma incidents_by_key_wf: "jm_wf (incidents_by_key as)"
  unfolding incidents_by_key_def by (rule jm.fold_upd_invar) simp

lemma incident_entry:
  assumes "(k, i) \<in> set (incidents_by_key as)"
  shows "group_ok (filter (\<lambda>a. incident_key a = k) as) i" "inc_key i = k"
proof -
  have "jm_get (incidents_by_key as) k = Some i"
    by (rule jm_wf_in_set [OF incidents_by_key_wf assms])
  then show g: "group_ok (filter (\<lambda>a. incident_key a = k) as) i"
    using incidents_by_key_get [of k as] by simp
  then have "filter (\<lambda>a. incident_key a = k) as \<noteq> []" by (simp add: group_ok_def)
  then have "hd (filter (\<lambda>a. incident_key a = k) as) \<in> set (filter (\<lambda>a. incident_key a = k) as)"
    by (rule hd_in_set)
  with g show "inc_key i = k" by (auto simp: group_ok_def)
qed

lemma incident_keys: "fst ` set (incidents_by_key as) = incident_key ` set as"
proof (intro set_eqI iffI)
  fix k assume "k \<in> fst ` set (incidents_by_key as)"
  then obtain i where "(k, i) \<in> set (incidents_by_key as)" by auto
  from incident_entry (1) [OF this] show "k \<in> incident_key ` set as"
    by (auto simp: group_ok_def filter_empty_conv)
next
  fix k assume "k \<in> incident_key ` set as"
  then have "filter (\<lambda>a. incident_key a = k) as \<noteq> []" by (auto simp: filter_empty_conv)
  then have "jm_get (incidents_by_key as) k \<noteq> None"
    using incidents_by_key_get [of k as] by (auto split: option.splits)
  then show "k \<in> fst ` set (incidents_by_key as)" by (simp add: jm_get_None_iff)
qed

subsection \<open>Chart markers\<close>

record 'e marker_opts =
  mo_label :: "(Anomaly \<Rightarrow> string) option"
  mo_onSelect :: "(Anomaly \<Rightarrow> 'e) option"
  mo_max :: "int option"

definition bucket_index_map :: "int list \<Rightarrow> (int, nat) jsmap" where
  "bucket_index_map bucketMs = jm_of (zip bucketMs [0..<length bucketMs])"

definition anomaly_marker :: "'e marker_opts \<Rightarrow> nat \<Rightarrow> Anomaly \<Rightarrow> 'e ChartMarker" where
  "anomaly_marker opts i a =
     \<lparr>cm_index = i, cm_color = sev_color (SEVERITY_META (an_severity a)),
      cm_label = map_option (\<lambda>f. f a) (mo_label opts),
      cm_onClick = map_option (\<lambda>f. f a) (mo_onSelect opts)\<rparr>"

fun marker_loop ::
  "(int, nat) jsmap \<Rightarrow> 'e marker_opts \<Rightarrow> int \<Rightarrow> nat list \<Rightarrow> 'e ChartMarker list \<Rightarrow> Anomaly list
     \<Rightarrow> 'e ChartMarker list" where
  "marker_loop idx opts mx seen markers [] = markers"
| "marker_loop idx opts mx seen markers (a # as) =
     (case jm_get idx (an_bucket_ms a) of
        None \<Rightarrow> marker_loop idx opts mx seen markers as
      | Some i \<Rightarrow>
          if i \<in> set seen then marker_loop idx opts mx seen markers as
          else let markers' = markers @ [anomaly_marker opts i a] in
            if int (length markers') \<ge> mx then markers'
            else marker_loop idx opts mx (i # seen) markers' as)"

definition toChartMarkers :: "Anomaly list \<Rightarrow> int list \<Rightarrow> 'e marker_opts \<Rightarrow> 'e ChartMarker list" where
  "toChartMarkers anomalies bucketMs opts =
     marker_loop (bucket_index_map bucketMs) opts (nullish (mo_max opts) 4) [] []
       (js_sort bySeverity anomalies)"

text \<open>The loop picks, in order, the first anomaly of each bucket of the window, up to the limit.\<close>

definition in_window :: "(int, nat) jsmap \<Rightarrow> Anomaly list \<Rightarrow> (nat \<times> Anomaly) list" where
  "in_window idx as =
     List.map_filter (\<lambda>a. map_option (\<lambda>i. (i, a)) (jm_get idx (an_bucket_ms a))) as"

lemma in_window_simps [simp]:
  "in_window idx [] = []"
  "in_window idx (a # as) = (case jm_get idx (an_bucket_ms a) of
     None \<Rightarrow> in_window idx as | Some i \<Rightarrow> (i, a) # in_window idx as)"
  by (simp_all add: in_window_def map_filter_simps split: option.splits)

lemma marker_loop_take:
  "length markers < nat (max 1 mx) \<Longrightarrow>
   marker_loop idx opts mx seen markers as =
     take (nat (max 1 mx)) (markers @ map (\<lambda>(i, a). anomaly_marker opts i a)
       (first_by fst seen (in_window idx as)))"
proof (induction as arbitrary: seen markers)
  case (Cons a as)
  show ?case
  proof (cases "jm_get idx (an_bucket_ms a)")
    case None
    with Cons show ?thesis by simp
  next
    case (Some i)
    show ?thesis
    proof (cases "i \<in> set seen")
      case True
      with Some Cons show ?thesis by simp
    next
      case new: False
      let ?m = "markers @ [anomaly_marker opts i a]"
      show ?thesis
      proof (cases "int (length ?m) \<ge> mx")
        case True
        with Cons.prems have "nat (max 1 mx) = Suc (length markers)" by auto
        with Some new True show ?thesis by simp
      next
        case False
        then have "length ?m < nat (max 1 mx)" by auto
        from Cons.IH [OF this] Some new False show ?thesis by simp
      qed
    qed
  qed
qed simp

lemma toChartMarkers_take:
  "toChartMarkers as bs opts =
     take (nat (max 1 (nullish (mo_max opts) 4)))
       (map (\<lambda>(i, a). anomaly_marker opts i a)
         (first_by fst [] (in_window (bucket_index_map bs) (js_sort bySeverity as))))"
  by (simp add: toChartMarkers_def marker_loop_take)

lemma bucket_index_map_get:
  "jm_get (bucket_index_map bs) ms = Some i \<Longrightarrow> i < length bs \<and> bs ! i = ms"
proof -
  assume "jm_get (bucket_index_map bs) ms = Some i"
  then have "(ms, i) \<in> set (rev (zip bs [0..<length bs]))"
    unfolding bucket_index_map_def jm_get_of by (rule map_of_SomeD)
  then show ?thesis by (auto simp: set_zip)
qed

lemma bucket_index_map_has: "jm_get (bucket_index_map bs) ms = None \<longleftrightarrow> ms \<notin> set bs"
proof -
  have "fst ` set (zip bs [0..<length bs]) = set (map fst (zip bs [0..<length bs]))"
    by (simp only: set_map)
  also have "\<dots> = set bs" by (simp only: map_fst_zip length_upt diff_zero)
  finally show ?thesis by (simp add: bucket_index_map_def jm_get_of map_of_eq_None_iff)
qed

lemma in_window_set:
  "(i, a) \<in> set (in_window idx as) \<longleftrightarrow> a \<in> set as \<and> jm_get idx (an_bucket_ms a) = Some i"
  by (induction as) (auto split: option.splits)

lemma in_window_sorted:
  "sorted_wrt R as \<Longrightarrow> sorted_wrt (\<lambda>x y. R (snd x) (snd y)) (in_window idx as)"
  by (induction as) (auto simp: in_window_set split: option.splits)

subsection \<open>Page status (status.ts)\<close>

record failures_summary =
  fs_totalFailed :: int
  fs_worstWorkflow :: string

definition failuresSummary :: "FailureRow list \<Rightarrow> int \<Rightarrow> failures_summary" where
  "failuresSummary rows tot =
     (let worst = foldl (\<lambda>m r. case m of None \<Rightarrow> Some r
                         | Some w \<Rightarrow> if fr_count r > fr_count w then Some r else Some w) None rows in
      \<lparr>fs_totalFailed = tot,
       fs_worstWorkflow = (case worst of None \<Rightarrow> em_dash | Some w \<Rightarrow> fr_workflow w)\<rparr>)"

definition STALE_AFTER_MS :: int where
  [data_defs]: "STALE_AFTER_MS = 5 * 60 * 1000"

datatype SyncTone = Live | Stale | SyncError | Syncing

record query_state =
  q_isError :: bool
  q_isSuccess :: bool
  q_dataUpdatedAt :: int

record SyncStatus =
  st_label :: string
  st_tone :: SyncTone

definition syncStatus :: "query_state list \<Rightarrow> int \<Rightarrow> SyncStatus" where
  "syncStatus queries now =
     (if \<exists>q\<in>set queries. q_isError q then \<lparr>st_label = ''Sync failed'', st_tone = SyncError\<rparr>
      else let updates = map q_dataUpdatedAt (filter q_isSuccess queries) in
        if updates = [] then \<lparr>st_label = ''Syncing'' @ ellipsis, st_tone = Syncing\<rparr>
        else let oldest = Min (set updates) in
          \<lparr>st_label = ''Synced '' @ relativeTime oldest now,
           st_tone = (if now - oldest > STALE_AFTER_MS then Stale else Live)\<rparr>)"

lemma foldl_worst:
  "(case m of None \<Rightarrow> True | Some w \<Rightarrow> P w) \<Longrightarrow> \<forall>r\<in>set rows. P r \<Longrightarrow>
   foldl (\<lambda>m r. case m of None \<Rightarrow> Some r | Some w \<Rightarrow> if fr_count r > fr_count w then Some r else Some w)
     m rows = Some w \<Longrightarrow>
   P w \<and> (\<forall>r\<in>set rows. fr_count r \<le> fr_count w)
     \<and> (\<forall>r. m = Some r \<longrightarrow> fr_count r \<le> fr_count w)"
proof (induction rows arbitrary: m)
  case (Cons r rows)
  let ?m = "case m of None \<Rightarrow> Some r | Some w \<Rightarrow> if fr_count r > fr_count w then Some r else Some w"
  have "P w \<and> (\<forall>r\<in>set rows. fr_count r \<le> fr_count w) \<and> (\<forall>r. ?m = Some r \<longrightarrow> fr_count r \<le> fr_count w)"
    using Cons.prems by (intro Cons.IH) (auto split: option.splits)
  then show ?case by (fastforce split: option.splits if_splits)
qed auto

definition sample_anomaly :: "Severity \<Rightarrow> int \<Rightarrow> Anomaly" where
  [data_defs]: "sample_anomaly sv day =
     \<lparr>an_metric = Cost, an_scope = WorkflowScope, an_workflow = ''rewrite-message'',
      an_bucket_ms = day * 86400000, an_observed = 12, an_expected = 3, an_deviation = 9,
      an_score = 7, an_direction = Spike, an_severity = sv, an_summary = ''cost spike'',
      an_version_change = None\<rparr>"

lemma sample_anomaly_sel:
  "an_scope (sample_anomaly sv day) = WorkflowScope"
  "an_workflow (sample_anomaly sv day) = ''rewrite-message''"
  "an_bucket_ms (sample_anomaly sv day) = day * 86400000"
  "an_severity (sample_anomaly sv day) = sv"
  by (simp_all add: sample_anomaly_def)

subsection \<open>Groups as a partition\<close>

lemma mset_groups:
  "distinct ks \<Longrightarrow> mset (concat (map (\<lambda>k. filter (\<lambda>a. f a = k) as) ks)) =
     mset (filter (\<lambda>a. f a \<in> set ks) as)"
proof (induction ks)
  case (Cons k ks)
  have "mset (filter (\<lambda>a. f a = k \<or> f a \<in> set ks) as) =
      mset (filter (\<lambda>a. f a = k) as) + mset (filter (\<lambda>a. f a \<in> set ks) as)"
    using Cons.prems by (induction as) auto
  with Cons show ?case by simp
qed simp

lemma groups_concat:
  "concat (map inc_anomalies (jm_values (incidents_by_key as))) =
     concat (map (\<lambda>k. filter (\<lambda>a. incident_key a = k) as) (map fst (incidents_by_key as)))"
  unfolding jm_values_def map_map
proof (intro arg_cong [of _ _ concat] map_cong refl)
  fix x assume "x \<in> set (incidents_by_key as)"
  then have "group_ok (filter (\<lambda>a. incident_key a = fst x) as) (snd x)"
    by (intro incident_entry (1)) simp
  then show "(inc_anomalies \<circ> snd) x = ((\<lambda>k. filter (\<lambda>a. incident_key a = k) as) \<circ> fst) x"
    by (simp add: group_ok_def)
qed

lemma mset_concat_sorted:
  "mset (concat (map inc_anomalies (map (\<lambda>i. i\<lparr>inc_anomalies := js_sort c (inc_anomalies i)\<rparr>) is)))
     = mset (concat (map inc_anomalies is))"
  by (induction "is") auto

lemma mset_concat_perm: "mset xs = mset ys \<Longrightarrow> mset (concat (map f xs)) = mset (concat (map f ys))"
proof -
  have "mset (concat (map f xs)) = sum_mset (image_mset (\<lambda>x. mset (f x)) (mset xs))" for xs
    by (induction xs) auto
  then show "mset xs = mset ys \<Longrightarrow> ?thesis" by simp
qed

lemma groupIncidents_mem:
  assumes "inc \<in> set (groupIncidents as)"
  obtains i where "(inc_key inc, i) \<in> set (incidents_by_key as)"
    "inc = i\<lparr>inc_anomalies := js_sort bySeverity (inc_anomalies i)\<rparr>"
proof -
  from assms obtain k i where ki: "(k, i) \<in> set (incidents_by_key as)"
    and inc: "inc = i\<lparr>inc_anomalies := js_sort bySeverity (inc_anomalies i)\<rparr>"
    by (auto simp: groupIncidents_def jm_values_def)
  have "inc_key i = k" by (rule incident_entry (2) [OF ki])
  with ki inc show thesis by (intro that [of i]) simp_all
qed

subsection \<open>Properties\<close>

text \<open>The key of an anomaly identifies its metric, scope, workflow and day, whatever characters the
  workflow name contains, so selection and dismissal never confuse two outliers.\<close>

theorem anomalyKey_injective:
  "anomalyKey a = anomalyKey b \<longleftrightarrow>
     an_metric a = an_metric b \<and> an_scope a = an_scope b \<and> an_workflow a = an_workflow b
     \<and> an_bucket_ms a = an_bucket_ms b"
  by (simp add: anomalyKey_inject incident_key_inject)

lemma groupIncidents_mset: "mset (concat (map inc_anomalies (groupIncidents as))) = mset as"
proof -
  let ?vals = "jm_values (incidents_by_key as)"
  let ?sorted = "map (\<lambda>i. i\<lparr>inc_anomalies := js_sort bySeverity (inc_anomalies i)\<rparr>) ?vals"
  have "mset (concat (map inc_anomalies (groupIncidents as))) = mset (concat (map inc_anomalies ?sorted))"
    unfolding groupIncidents_def by (rule mset_concat_perm) simp
  also have "\<dots> = mset (concat (map inc_anomalies ?vals))" by (rule mset_concat_sorted)
  also have "\<dots> = mset (filter (\<lambda>a. incident_key a \<in> set (map fst (incidents_by_key as))) as)"
    unfolding groups_concat
    by (rule mset_groups) (use incidents_by_key_wf in \<open>simp add: jm_wf_def\<close>)
  also have "filter (\<lambda>a. incident_key a \<in> set (map fst (incidents_by_key as))) as = as"
    by (simp add: incident_keys filter_True)
  finally show ?thesis .
qed

text \<open>C15. Grouping loses and duplicates nothing: the incidents, with distinct keys, partition the
  anomalies.\<close>

theorem groupIncidents_partition:
  "mset (concat (map inc_anomalies (groupIncidents as))) = mset as
   \<and> distinct (map inc_key (groupIncidents as))"
proof
  show "mset (concat (map inc_anomalies (groupIncidents as))) = mset as" by (rule groupIncidents_mset)
  let ?sorted = "map (\<lambda>i. i\<lparr>inc_anomalies := js_sort bySeverity (inc_anomalies i)\<rparr>) (jm_values (incidents_by_key as))"
  have "map inc_key ?sorted = map fst (incidents_by_key as)"
  proof -
    have "inc_key (snd x) = fst x" if "x \<in> set (incidents_by_key as)" for x
      using that by (intro incident_entry (2)) simp
    then show ?thesis by (simp add: jm_values_def)
  qed
  then have d: "distinct (map inc_key ?sorted)"
    using incidents_by_key_wf by (simp add: jm_wf_def)
  have "mset (map inc_key (groupIncidents as)) = mset (map inc_key ?sorted)"
    unfolding groupIncidents_def by (simp only: mset_map mset_js_sort)
  from mset_eq_imp_distinct_iff [OF this] d show "distinct (map inc_key (groupIncidents as))"
    by (rule iffD2)
qed

text \<open>An incident holds exactly the anomalies of one scope, workflow and day, most severe first,
  and its severity is the worst of theirs.\<close>

theorem groupIncidents_group:
  assumes "inc \<in> set (groupIncidents as)"
  shows "inc_anomalies inc \<noteq> []
    \<and> set (inc_anomalies inc) = {a \<in> set as. an_scope a = inc_scope inc
         \<and> an_workflow a = inc_workflow inc \<and> an_bucket_ms a = inc_bucket_ms inc}
    \<and> sorted_wrt (\<lambda>x y. bySeverity x y \<le> 0) (inc_anomalies inc)
    \<and> inc_severity inc = Max (an_severity ` set (inc_anomalies inc))"
proof -
  obtain i where i: "(inc_key inc, i) \<in> set (incidents_by_key as)"
    and inc: "inc = i\<lparr>inc_anomalies := js_sort bySeverity (inc_anomalies i)\<rparr>"
    using assms by (rule groupIncidents_mem)
  let ?g = "filter (\<lambda>a. incident_key a = inc_key inc) as"
  have g: "group_ok ?g i" by (rule incident_entry (1) [OF i])
  then have "?g \<noteq> []" by (simp add: group_ok_def)
  then have "hd ?g \<in> set ?g" by (rule hd_in_set)
  then have h: "incident_key (hd ?g) = inc_key inc" by simp
  have "set ?g = {a \<in> set as. an_scope a = inc_scope i \<and> an_workflow a = inc_workflow i
      \<and> an_bucket_ms a = inc_bucket_ms i}"
    using g h by (auto simp: group_ok_def incident_key_inject [of _ "hd ?g", symmetric])
  with g inc show ?thesis
    by (simp add: group_ok_def sev.sorted_sort)
qed

theorem groupIncidents_group_witness:
  "set (inc_anomalies (hd (groupIncidents [sample_anomaly Critical 1, sample_anomaly Warning 1])))
     = {sample_anomaly Critical 1, sample_anomaly Warning 1}
   \<and> inc_severity (hd (groupIncidents [sample_anomaly Critical 1, sample_anomaly Warning 1])) = Critical"
proof -
  let ?as = "[sample_anomaly Critical 1, sample_anomaly Warning 1]"
  have g: "groupIncidents ?as \<noteq> []"
    by (simp add: groupIncidents_def incidents_by_key_def jm_values_def sample_anomaly_def
        incident_key_def)
  have hd: "hd (groupIncidents ?as) \<in> set (groupIncidents ?as)" using g by (rule hd_in_set)
  have "inc_scope (hd (groupIncidents ?as)) = WorkflowScope"
    "inc_workflow (hd (groupIncidents ?as)) = ''rewrite-message''"
    "inc_bucket_ms (hd (groupIncidents ?as)) = 86400000"
    by (simp_all add: groupIncidents_def incidents_by_key_def jm_values_def sample_anomaly_def
        incident_key_def incident_add_def js_sort_def)
  with groupIncidents_group [OF hd]
  have s: "set (inc_anomalies (hd (groupIncidents ?as))) = {a \<in> set ?as. an_scope a = WorkflowScope
      \<and> an_workflow a = ''rewrite-message'' \<and> an_bucket_ms a = 86400000}"
    and m: "inc_severity (hd (groupIncidents ?as))
      = Max (an_severity ` set (inc_anomalies (hd (groupIncidents ?as))))"
    by (simp_all only:)
  have eq: "set (inc_anomalies (hd (groupIncidents ?as))) = {sample_anomaly Critical 1, sample_anomaly Warning 1}"
    unfolding s by (auto simp: sample_anomaly_sel)
  have "Max {Critical, Warning} = Critical" by (simp add: max_def less_eq_Severity_def)
  with m eq show ?thesis by (simp add: sample_anomaly_sel)
qed

text \<open>Incidents are listed most severe first, then by the distance of their worst flag, then the
  most recent day.\<close>

theorem groupIncidents_order:
  "sorted_wrt (\<lambda>x y. byIncident x y \<le> 0) (groupIncidents as)"
  unfolding groupIncidents_def by (rule inc.sorted_sort)

lemma toChartMarkers_mem:
  assumes "m \<in> set (toChartMarkers as bs opts)"
  shows "\<exists>a\<in>set as. m = anomaly_marker opts (cm_index m) a"
proof -
  let ?w = "in_window (bucket_index_map bs) (js_sort bySeverity as)"
  obtain i a where "(i, a) \<in> set (first_by fst [] ?w)" and m: "m = anomaly_marker opts i a"
    using assms by (auto simp: toChartMarkers_take take_map dest: in_set_takeD)
  then have "(i, a) \<in> set ?w" by (auto dest: first_by_keys)
  then have "a \<in> set as" by (auto simp: in_window_set)
  then show ?thesis by (intro bexI [of _ a]) (auto simp: m anomaly_marker_def)
qed

text \<open>The chart markers are, in severity order and up to the limit, the most severe anomaly of each
  bucket inside the chart window: no two share a bucket and every index is a bucket of the chart.\<close>

theorem toChartMarkers_spec:
  "distinct (map cm_index (toChartMarkers as bs opts))
   \<and> int (length (toChartMarkers as bs opts)) \<le> max 1 (nullish (mo_max opts) 4)
   \<and> (\<forall>m\<in>set (toChartMarkers as bs opts). \<exists>a\<in>set as.
        m = anomaly_marker opts (cm_index m) a \<and> cm_index m < length bs
        \<and> bs ! cm_index m = an_bucket_ms a
        \<and> (\<forall>b\<in>set as. an_bucket_ms b = an_bucket_ms a \<longrightarrow> bySeverity a b \<le> 0))"
proof (intro conjI ballI)
  let ?idx = "bucket_index_map bs"
  let ?w = "in_window ?idx (js_sort bySeverity as)"
  let ?picks = "first_by fst [] ?w"
  let ?n = "nat (max 1 (nullish (mo_max opts) 4))"
  have eq: "toChartMarkers as bs opts = map (\<lambda>(i, a). anomaly_marker opts i a) (take ?n ?picks)"
    by (simp add: toChartMarkers_take take_map)
  have "map cm_index (toChartMarkers as bs opts) = take ?n (map fst ?picks)"
    by (simp add: eq anomaly_marker_def take_map case_prod_unfold)
  then show "distinct (map cm_index (toChartMarkers as bs opts))"
    by (simp add: distinct_first_by distinct_take)
  show "int (length (toChartMarkers as bs opts)) \<le> max 1 (nullish (mo_max opts) 4)"
    by (simp add: eq)
  fix m assume "m \<in> set (toChartMarkers as bs opts)"
  then obtain i a where ia: "(i, a) \<in> set ?picks" and m: "m = anomaly_marker opts i a"
    by (auto simp: eq dest: in_set_takeD)
  from ia have "(i, a) \<in> set ?w" by (auto dest: first_by_keys)
  then have a: "a \<in> set as" "jm_get ?idx (an_bucket_ms a) = Some i" by (auto simp: in_window_set)
  have "bySeverity a b \<le> 0" if "b \<in> set as" "an_bucket_ms b = an_bucket_ms a" for b
  proof (rule first_by_sorted [where f = fst and R = "\<lambda>x y. bySeverity (snd x) (snd y) \<le> 0",
        OF _ ia, of "(i, b)", simplified])
    show "sorted_wrt (\<lambda>x y. bySeverity (snd x) (snd y) \<le> 0) ?w"
      by (rule in_window_sorted [OF sev.sorted_sort])
    show "bySeverity (snd x) (snd x) \<le> 0" for x :: "nat \<times> Anomaly"
      using sev.le_total [of "snd x" "snd x"] by simp
    show "(i, b) \<in> set ?w" using that a by (simp add: in_window_set)
  qed
  moreover have "i < length bs" "bs ! i = an_bucket_ms a" using bucket_index_map_get a by auto
  ultimately show "\<exists>a\<in>set as. m = anomaly_marker opts (cm_index m) a \<and> cm_index m < length bs
      \<and> bs ! cm_index m = an_bucket_ms a
      \<and> (\<forall>b\<in>set as. an_bucket_ms b = an_bucket_ms a \<longrightarrow> bySeverity a b \<le> 0)"
    using a by (intro bexI [of _ a]) (auto simp: m anomaly_marker_def)
qed

theorem toChartMarkers_spec_witness:
  "list_all (\<lambda>m. cm_index m < 2 \<and> [0, 86400000] ! cm_index m = (86400000 :: int))
     (toChartMarkers [sample_anomaly Critical 1, sample_anomaly Warning 1] [0, 86400000]
       (\<lparr>mo_label = None, mo_onSelect = None, mo_max = None\<rparr> :: unit marker_opts))"
  using toChartMarkers_spec [of "[sample_anomaly Critical 1, sample_anomaly Warning 1]" "[0, 86400000]"
      "\<lparr>mo_label = None, mo_onSelect = None, mo_max = None\<rparr> :: unit marker_opts"]
  by (auto simp: list_all_iff sample_anomaly_def)

text \<open>The outlier chips count the anomalies of each metric, in the fixed order cost, errors,
  volume, and leave out metrics without any.\<close>

theorem anomalyChips_counts:
  "anomalyChips as =
     map (\<lambda>d. chip_of d (length (filter (\<lambda>a. an_metric a = cd_metric d) as)))
       (filter (\<lambda>d. cd_metric d \<in> an_metric ` set as) CHIP_DEFS)"
proof -
  have has: "jm_has (metric_counts as) m \<longleftrightarrow> m \<in> an_metric ` set as" for m
    by (auto simp: jm_has_def metric_counts_get)
  have "nullish (jm_get (metric_counts as) m) 0 = length (filter (\<lambda>a. an_metric a = m) as)" for m
    by (auto simp: metric_counts_get filter_empty_conv)
  with has show ?thesis by (simp add: anomalyChips_def Let_def)
qed

text \<open>The page reports a failed query before anything else, and otherwise is as fresh as its oldest
  successful fetch.\<close>

theorem syncStatus_oldest:
  "(st_tone (syncStatus qs now) = SyncError \<longleftrightarrow> (\<exists>q\<in>set qs. q_isError q))
   \<and> (st_tone (syncStatus qs now) = Live \<longleftrightarrow>
        (\<forall>q\<in>set qs. \<not> q_isError q) \<and> (\<exists>q\<in>set qs. q_isSuccess q)
        \<and> (\<forall>q\<in>set qs. q_isSuccess q \<longrightarrow> now - q_dataUpdatedAt q \<le> STALE_AFTER_MS))"
proof -
  let ?u = "map q_dataUpdatedAt (filter q_isSuccess qs)"
  have stale: "now - Min (set ?u) > STALE_AFTER_MS \<longleftrightarrow>
      (\<exists>q\<in>set qs. q_isSuccess q \<and> now - q_dataUpdatedAt q > STALE_AFTER_MS)" if "?u \<noteq> []"
  proof -
    have "now - Min (set ?u) > STALE_AFTER_MS \<longleftrightarrow> Min (set ?u) < now - STALE_AFTER_MS" by linarith
    also have "\<dots> \<longleftrightarrow> (\<exists>u\<in>set ?u. u < now - STALE_AFTER_MS)"
      using that by (intro Min_less_iff) (simp_all only: finite_set set_empty not_False_eq_True)
    also have "\<dots> \<longleftrightarrow> (\<exists>q\<in>set qs. q_isSuccess q \<and> now - q_dataUpdatedAt q > STALE_AFTER_MS)"
      by force
    finally show ?thesis .
  qed
  show ?thesis
  proof (cases "(\<exists>q\<in>set qs. q_isError q) \<or> ?u = []")
    case True
    then show ?thesis by (auto simp: syncStatus_def Let_def filter_empty_conv)
  next
    case False
    with stale show ?thesis
      by (auto simp: syncStatus_def Let_def filter_empty_conv not_less simp del: set_map set_filter)
  qed
qed

theorem syncStatus_oldest_witness:
  "st_tone (syncStatus [\<lparr>q_isError = False, q_isSuccess = True, q_dataUpdatedAt = 1000\<rparr>] 2000) = Live"
  using syncStatus_oldest [of "[\<lparr>q_isError = False, q_isSuccess = True, q_dataUpdatedAt = 1000\<rparr>]" 2000]
  by (simp add: STALE_AFTER_MS_def)

text \<open>The worst workflow of the failures summary is a row with the highest count, and the total is
  the envelope's, not a sum over the rows.\<close>

theorem failuresSummary_worst:
  assumes "rows \<noteq> []"
  shows "fs_totalFailed (failuresSummary rows tot) = tot
    \<and> (\<exists>w\<in>set rows. fs_worstWorkflow (failuresSummary rows tot) = fr_workflow w
         \<and> (\<forall>r\<in>set rows. fr_count r \<le> fr_count w))"
proof -
  let ?f = "\<lambda>m r. case m of None \<Rightarrow> Some r
      | Some w \<Rightarrow> if fr_count r > fr_count w then Some r else Some (w :: FailureRow)"
  have some: "\<exists>w. foldl ?f (Some r) rs = Some w" for r rs
    by (induction rs arbitrary: r) auto
  obtain r rs where rows: "rows = r # rs" using assms by (cases rows) auto
  obtain w where w: "foldl ?f None rows = Some w" using some [of r rs] by (auto simp: rows)
  from foldl_worst [where P = "\<lambda>w. w \<in> set rows", OF _ _ w]
  have "w \<in> set rows \<and> (\<forall>r\<in>set rows. fr_count r \<le> fr_count w)" by auto
  then show ?thesis by (auto simp: failuresSummary_def Let_def w)
qed

theorem failuresSummary_worst_witness:
  "\<exists>w\<in>{\<lparr>fr_workflow = ''a'', fr_count = 2, fr_pct = 0\<rparr>, \<lparr>fr_workflow = ''b'', fr_count = 3, fr_pct = 0\<rparr>}.
     fs_worstWorkflow (failuresSummary [\<lparr>fr_workflow = ''a'', fr_count = 2, fr_pct = 0\<rparr>,
       \<lparr>fr_workflow = ''b'', fr_count = 3, fr_pct = 0\<rparr>] 9) = fr_workflow w"
  using failuresSummary_worst [of "[\<lparr>fr_workflow = ''a'', fr_count = 2, fr_pct = 0\<rparr>,
       \<lparr>fr_workflow = ''b'', fr_count = 3, fr_pct = 0\<rparr>]" 9] by auto

end
