(* ===== verification/Overview.thy ===== *)
theory Overview
  imports Shell Anomalies
begin

text \<open>
  The overview (\<open>modules/overview\<close>): the page (\<open>OverviewLivePage.tsx\<close>) with the selection and the dismissal of outliers,
  the panel of outliers, the setup checks with their mutes in the browser's storage, the activity feed and the list
  of workflows. A marker's \<open>onClick\<close> is the key it selects.
\<close>

subsection \<open>Tiles and rows (OverviewLivePage.tsx)\<close>

definition tile_with :: "delta_parts \<Rightarrow> KpiItem \<Rightarrow> KpiItem" where
  "tile_with d k = k\<lparr>ki_delta := Some (dp_delta d), ki_deltaTone := Some (dp_deltaTone d), ki_hint := Some (dp_hint d)\<rparr>"

definition plain_tile :: "string \<Rightarrow> string \<Rightarrow> KpiItem" where
  "plain_tile label value = \<lparr>ki_label = label, ki_value = value, ki_delta = None, ki_deltaTone = None, ki_sparkData = None,
     ki_sparkColor = None, ki_hint = None\<rparr>"

definition overview_tiles ::
  "host \<Rightarrow> KpiSet \<Rightarrow> CostPoint list \<Rightarrow> LatencyPoint list \<Rightarrow> ErrorPoint list \<Rightarrow> string \<Rightarrow> KpiItem list" where
  "overview_tiles h kpis cost latency errors rng =
     (let tracesTrend = map (\<lambda>d. Some (of_int (ep_total d))) errors;
          failureTrend = map (\<lambda>d. Some (if ep_total d > 0 then of_int (ep_errors d) / of_int (ep_total d) else 0)) errors;
          latencyItem = (if \<not> isLongRange rng
            then (tile_with (deltaParts (ks_latency_p95 kpis)) (plain_tile ''p95 latency'' (fmtMs (kpi_value (ks_latency_p95 kpis)))))
                   \<lparr>ki_sparkData := Some (map lp_p95 latency), ki_sparkColor := Some ''var(--accent)''\<rparr>
            else (plain_tile ''p95 latency'' em_dash)\<lparr>ki_hint := Some ''not tracked over long ranges''\<rparr>) in
      [(tile_with (deltaParts (ks_cost kpis)) (plain_tile ''Total spend'' (fmtCost (kpi_value (ks_cost kpis)))))
         \<lparr>ki_sparkData := Some (map (\<lambda>d. Some (cp_value d)) cost)\<rparr>,
       (tile_with (deltaParts (ks_runs kpis)) (plain_tile ''Traces'' (fmtNum h (of_int (math_round (kpi_value (ks_runs kpis)))))))
         \<lparr>ki_sparkData := Some tracesTrend\<rparr>,
       (tile_with (deltaParts (ks_error_rate kpis)) (plain_tile ''Failure rate'' (fmtPct (kpi_value (ks_error_rate kpis) * 100))))
         \<lparr>ki_sparkData := Some failureTrend, ki_sparkColor := Some ''var(--warning)''\<rparr>,
       latencyItem])"

definition toActivityItems :: "int \<Rightarrow> Trace list \<Rightarrow> ActivityItem list" where
  "toActivityItems now traces = map (\<lambda>t. \<lparr>ai_id = tr_trace_id t, ai_workflow = tr_name t,
     ai_status = (if tr_has_error t then Failed else Completed), ai_time = relativeTime (tr_start_time_ms t) now,
     ai_latency = of_int (tr_duration_ms t) / 1000, ai_msg = None\<rparr>) traces"

subsection \<open>The state of the page\<close>

record overview =
  ov_dismissed :: "string list"
  ov_selected :: "string option"

definition overview_init :: overview where
  "overview_init = \<lparr>ov_dismissed = [], ov_selected = None\<rparr>"

definition set_add :: "'a \<Rightarrow> 'a list \<Rightarrow> 'a list" where
  "set_add x s = (if x \<in> set s then s else s @ [x])"

definition selectKey :: "string option \<Rightarrow> overview \<Rightarrow> overview" where
  "selectKey k p = p\<lparr>ov_selected := k\<rparr>"

definition selectOutlier :: "Anomaly \<Rightarrow> overview \<Rightarrow> overview" where
  "selectOutlier a p = selectKey (Some (anomalyKey a)) p"

definition dismissOutlier :: "Anomaly \<Rightarrow> overview \<Rightarrow> overview" where
  "dismissOutlier a p = p\<lparr>ov_dismissed := set_add (anomalyKey a) (ov_dismissed p)\<rparr>"

definition restoreAll :: "overview \<Rightarrow> overview" where
  "restoreAll p = p\<lparr>ov_dismissed := []\<rparr>"

definition liveAnoms :: "Anomaly list \<Rightarrow> overview \<Rightarrow> Anomaly list" where
  "liveAnoms allAnoms p = filter (\<lambda>a. anomalyKey a \<notin> set (ov_dismissed p)) allAnoms"

definition dismissedCount :: "Anomaly list \<Rightarrow> overview \<Rightarrow> int" where
  "dismissedCount allAnoms p = int (length allAnoms) - int (length (liveAnoms allAnoms p))"

definition costMarkers :: "host \<Rightarrow> Anomaly list \<Rightarrow> int list \<Rightarrow> string ChartMarker list" where
  "costMarkers h live costAxisMs = toChartMarkers (filter (\<lambda>a. an_metric a = Cost) live) costAxisMs
     \<lparr>mo_label = Some (\<lambda>a. anomalyValue h (an_metric a) (an_observed a)), mo_onSelect = Some anomalyKey, mo_max = None\<rparr>"

definition errorMarkers :: "Anomaly list \<Rightarrow> int list \<Rightarrow> string ChartMarker list" where
  "errorMarkers live errorAxisMs = toChartMarkers (filter (\<lambda>a. an_metric a = ErrorRate) live) errorAxisMs
     \<lparr>mo_label = None, mo_onSelect = Some anomalyKey, mo_max = None\<rparr>"

text \<open>The links of the page into the other views; \<open>d\<close> is the dashboard.\<close>

definition inspectOutlier :: "Anomaly \<Rightarrow> dash \<Rightarrow> dash" where
  "inspectOutlier a d =
     setView ''workflows'' (if an_workflow a \<noteq> [] then setSelected (jm_set ''workflow'' (an_workflow a)) d else d)"

definition open_trace :: "string \<Rightarrow> dash \<Rightarrow> dash" where
  "open_trace i d = setView ''trace'' (setSelected (jm_set ''traceId'' i) d)"

definition open_workflow :: "string \<Rightarrow> dash \<Rightarrow> dash" where
  "open_workflow name d = setView ''workflows'' (setSelected (jm_set ''workflow'' name) d)"

datatype overview_screen = ConnectScreen | EmptyRangeScreen string | OverviewScreen

definition overview_body :: "string \<Rightarrow> KpiSet fetched \<Rightarrow> Trace list fetched \<Rightarrow> overview_screen" where
  "overview_body rng kpis activity =
     (case (fe_data kpis, fe_data activity) of
        (Some k, Some items) \<Rightarrow>
          if fe_isSuccess kpis \<and> kpi_value (ks_runs k) = 0 \<and> kpi_value (ks_cost k) = 0 \<and> fe_isSuccess activity
          then (if items \<noteq> [] then EmptyRangeScreen (''No traces in the '' @ rangeLabel rng) else ConnectScreen)
          else OverviewScreen
      | _ \<Rightarrow> OverviewScreen)"

definition outliersAvailable :: "string \<Rightarrow> bool" where
  "outliersAvailable rng \<longleftrightarrow> rng \<noteq> ''24h''"

subsection \<open>The panel of outliers (OutliersPanel.tsx)\<close>

datatype ViewMode = ListMode | GroupedMode

record outlier_row =
  or_anomaly :: Anomaly
  or_expanded :: bool

record incident_card =
  ic_incident :: Incident
  ic_expanded :: bool

definition outlier_rows :: "Anomaly list \<Rightarrow> string option \<Rightarrow> outlier_row list" where
  "outlier_rows anomalies selectedKey =
     map (\<lambda>a. \<lparr>or_anomaly = a, or_expanded = (Some (anomalyKey a) = selectedKey)\<rparr>) (js_sort bySeverity anomalies)"

definition incident_cards :: "Anomaly list \<Rightarrow> string option \<Rightarrow> incident_card list" where
  "incident_cards anomalies selectedKey =
     map (\<lambda>i. \<lparr>ic_incident = i, ic_expanded = (\<exists>a\<in>set (inc_anomalies i). Some (anomalyKey a) = selectedKey)\<rparr>)
       (groupIncidents anomalies)"

definition toggle_row :: "outlier_row \<Rightarrow> overview \<Rightarrow> overview" where
  "toggle_row r p = selectKey (if or_expanded r then None else Some (anomalyKey (or_anomaly r))) p"

definition toggle_card :: "incident_card \<Rightarrow> overview \<Rightarrow> overview" where
  "toggle_card c p = selectKey (if ic_expanded c then None
     else map_option anomalyKey (case inc_anomalies (ic_incident c) of [] \<Rightarrow> None | a # _ \<Rightarrow> Some a)) p"

definition dismiss_incident :: "Incident \<Rightarrow> overview \<Rightarrow> overview" where
  "dismiss_incident i p = foldl (\<lambda>p a. dismissOutlier a p) p (inc_anomalies i)"

datatype panel_body = NoOutliers | OutlierList "outlier_row list" | IncidentList "incident_card list"

definition outliers_body :: "Anomaly list \<Rightarrow> ViewMode \<Rightarrow> string option \<Rightarrow> panel_body" where
  "outliers_body anomalies view selectedKey =
     (if anomalies = [] then NoOutliers
      else if view = ListMode then OutlierList (outlier_rows anomalies selectedKey)
      else IncidentList (incident_cards anomalies selectedKey))"

definition outliers_title :: "nat \<Rightarrow> nat \<Rightarrow> ViewMode \<Rightarrow> string" where
  "outliers_title n incidentCount view =
     (if view = GroupedMode then nat_str incidentCount @ '' incident'' @ (if incidentCount = 1 then [] else ''s'')
      else nat_str n @ '' beyond baseline'')"

definition restore_note :: "int \<Rightarrow> string option" where
  "restore_note n = (if n > 0 then Some (int_str n @ '' dismissed this session'') else None)"

definition outlier_target :: "AnomalyScope \<Rightarrow> string \<Rightarrow> string" where
  "outlier_target scope workflow = (if scope = WorkflowScope then workflow else ''Workspace-wide'')"

definition Z_TICKS :: "rat list" where
  [data_defs]: "Z_TICKS = [3, 9 / 2, 6]"

definition Z_CEIL :: rat where
  [data_defs]: "Z_CEIL = 12"

definition magnitude_width :: "rat \<Rightarrow> rat" where
  "magnitude_width score = min \<bar>score\<bar> Z_CEIL / Z_CEIL * 100"

definition magnitude_ticks :: "rat list" where
  "magnitude_ticks = map (\<lambda>t. t / Z_CEIL * 100) Z_TICKS"

definition whyFlagged :: "host \<Rightarrow> Anomaly \<Rightarrow> (string \<times> string) list" where
  "whyFlagged h a =
     [(''observed'', anomalyValue h (an_metric a) (an_observed a)),
      (''baseline'', anomalyValue h (an_metric a) (an_expected a)),
      (''deviation'', (if an_deviation a \<ge> 0 then ''+'' else minus_sign) @ anomalyValue h (an_metric a) \<bar>an_deviation a\<bar>),
      (''z-score'', zLabel (an_score a))]"

definition incident_inspect :: "Incident \<Rightarrow> Anomaly option" where
  "incident_inspect i = js_find (\<lambda>a. an_scope a = WorkflowScope) (inc_anomalies i)"

text \<open>\<open>useScrollIntoView\<close>: the effect runs when \<open>active\<close> changes and on the first render, which never scrolls.\<close>

definition scroll_effect :: "bool \<Rightarrow> bool \<Rightarrow> bool \<times> bool" where
  "scroll_effect active mounted = (active \<and> mounted, True)"

subsection \<open>Setup checks (SetupChecks.tsx)\<close>

definition mutedKey :: "string \<Rightarrow> string" where
  "mutedKey workspaceId = ''tracium_muted_checks_'' @ workspaceId"

fun json_strings :: "json list \<Rightarrow> string list" where
  "json_strings [] = []"
| "json_strings (JStr s # js) = s # json_strings js"
| "json_strings (_ # js) = json_strings js"

definition new_set :: "'a list \<Rightarrow> 'a list" where
  "new_set xs = foldl (\<lambda>s x. set_add x s) [] xs"

definition readMuted :: "(string \<Rightarrow> json option) \<Rightarrow> string \<Rightarrow> browser \<Rightarrow> string list" where
  "readMuted parse workspaceId b =
     (case get_item (mutedKey workspaceId) b of
        None \<Rightarrow> []
      | Some v \<Rightarrow> (case parse (nullish v ''[]'') of Some (JArr codes) \<Rightarrow> new_set (json_strings codes) | _ \<Rightarrow> []))"

record setup_checks =
  sk_open :: bool
  sk_dismissed :: "string list"
  sk_muted :: "string list"

definition setup_init :: "(string \<Rightarrow> json option) \<Rightarrow> string \<Rightarrow> browser \<Rightarrow> setup_checks" where
  "setup_init parse workspaceId b = \<lparr>sk_open = False, sk_dismissed = [], sk_muted = readMuted parse workspaceId b\<rparr>"

definition visible_checks :: "SetupCheck list \<Rightarrow> setup_checks \<Rightarrow> SetupCheck list" where
  "visible_checks checks s = filter (\<lambda>c. si_code c \<notin> set (sk_dismissed s) \<and> si_code c \<notin> set (sk_muted s)) checks"

definition dismiss_checks :: "string list \<Rightarrow> setup_checks \<Rightarrow> setup_checks" where
  "dismiss_checks codes s = s\<lparr>sk_dismissed := new_set (sk_dismissed s @ codes)\<rparr>"

definition mute_check ::
  "(json \<Rightarrow> string) \<Rightarrow> string \<Rightarrow> string \<Rightarrow> setup_checks \<times> browser \<Rightarrow> setup_checks \<times> browser" where
  "mute_check stringify workspaceId code = (\<lambda>(s, b).
     let next = set_add code (sk_muted s) in
     (s\<lparr>sk_muted := next\<rparr>, nullish (set_item (mutedKey workspaceId) (stringify (JArr (map JStr next))) b) b))"

text \<open>What the panel offers: opening and closing, dismissing one or all of the visible checks, and muting one.\<close>

datatype setup_action = ToggleChecks | DismissChecks "string list" | MuteCheck string

fun setup_do :: "(json \<Rightarrow> string) \<Rightarrow> string \<Rightarrow> setup_action \<Rightarrow> setup_checks \<times> browser \<Rightarrow> setup_checks \<times> browser" where
  "setup_do stringify w ToggleChecks (s, b) = (s\<lparr>sk_open := \<not> sk_open s\<rparr>, b)"
| "setup_do stringify w (DismissChecks codes) (s, b) = (dismiss_checks codes s, b)"
| "setup_do stringify w (MuteCheck code) (s, b) = mute_check stringify w code (s, b)"

definition setup_session ::
  "(json \<Rightarrow> string) \<Rightarrow> string \<Rightarrow> setup_action list \<Rightarrow> setup_checks \<times> browser \<Rightarrow> setup_checks \<times> browser" where
  "setup_session stringify w acts st = foldl (\<lambda>st a. setup_do stringify w a st) st acts"

definition setup_headline :: "SetupCheck list \<Rightarrow> string" where
  "setup_headline vis = nat_str (length vis) @ '' potential setup issue'' @ (if length vis = 1 then [] else ''s'') @
     '' in the last 24 hours''"

definition check_note :: "host \<Rightarrow> SetupCheck \<Rightarrow> string" where
  "check_note h c = fmtNum h (of_int (sc_spans c)) @ '' span'' @ (if sc_spans c = 1 then [] else ''s'') @ '' '' @ mid_dot @ '' '' @
     fmtPct (sc_share c * 100)"

subsection \<open>Feed, workflows and failures\<close>

definition feed_toggle :: "ActivityItem list \<Rightarrow> ActivityItem list option \<Rightarrow> ActivityItem list option" where
  "feed_toggle items frozen = (case frozen of Some _ \<Rightarrow> None | None \<Rightarrow> Some items)"

definition feed_display :: "ActivityItem list \<Rightarrow> ActivityItem list option \<Rightarrow> ActivityItem list" where
  "feed_display items frozen = nullish frozen items"

definition workflow_bars :: "int list \<Rightarrow> rat list" where
  "workflow_bars calls = (let maxCalls = Max (set (calls @ [1])) in map (\<lambda>c. of_int c / of_int maxCalls * 100) calls)"

definition failures_title :: "string \<Rightarrow> string" where
  "failures_title rng = (if rng = ''24h'' then ''Failures by hour'' else ''Failures by day'')"

subsection \<open>Properties\<close>

lemma set_set_add [simp]: "set (set_add x s) = insert x (set s)"
  by (auto simp: set_add_def)

lemma set_foldl_add: "set (foldl (\<lambda>s x. set_add x s) s xs) = set s \<union> set xs"
  by (induction xs arbitrary: s) auto

lemma set_new_set [simp]: "set (new_set xs) = set xs"
  by (simp add: new_set_def set_foldl_add)

lemma json_strings_JStr [simp]: "json_strings (map JStr xs) = xs"
  by (induction xs) simp_all

lemma dismissed_after_fold:
  "set (ov_dismissed (foldl (\<lambda>p a. dismissOutlier a p) p as)) = set (ov_dismissed p) \<union> anomalyKey ` set as"
  by (induction as arbitrary: p) (auto simp: dismissOutlier_def)

lemma marker_selects:
  assumes "m \<in> set (toChartMarkers as bs \<lparr>mo_label = l, mo_onSelect = Some f, mo_max = n\<rparr>)"
  shows "\<exists>a\<in>set as. cm_onClick m = Some (f a)"
proof -
  from toChartMarkers_mem [OF assms] obtain a where
    a: "a \<in> set as" "m = anomaly_marker \<lparr>mo_label = l, mo_onSelect = Some f, mo_max = n\<rparr> (cm_index m) a" by blast
  have "cm_onClick (anomaly_marker \<lparr>mo_label = l, mo_onSelect = Some f, mo_max = n\<rparr> i a) = Some (f a)" for i
    by (simp add: anomaly_marker_def)
  then have "cm_onClick m = Some (f a)" by (subst a(2))
  with a(1) show ?thesis by blast
qed

lemma marker_is_live:
  "m \<in> set (costMarkers h live axis) \<union> set (errorMarkers live axis') \<Longrightarrow> \<exists>a\<in>set live. cm_onClick m = Some (anomalyKey a)"
  unfolding costMarkers_def errorMarkers_def by (elim UnE) (drule marker_selects, force)+

text \<open>In lists of lists whose members have distinct keys, one list holds a given member.\<close>

lemma one_group:
  "distinct (map f (concat xss)) \<Longrightarrow> x \<in> set (concat xss) \<Longrightarrow>
     length (filter (\<lambda>xs. \<exists>a\<in>set xs. f a = f x) xss) = 1"
proof (induction xss)
  case (Cons xs xss)
  have none: "filter (\<lambda>xs. \<exists>a\<in>set xs. f a = f x) yss = []" if "f x \<notin> f ` set (concat yss)" for yss
    unfolding filter_empty_conv using that by (metis UN_I image_eqI set_concat)
  show ?case
  proof (cases "x \<in> set xs")
    case True
    then have "f x \<notin> f ` set (concat xss)" using Cons.prems(1) by auto
    from none [OF this] True show ?thesis by auto
  next
    case False
    then have x: "x \<in> set (concat xss)" using Cons.prems(2) by auto
    then have "\<not> (\<exists>a\<in>set xs. f a = f x)" using Cons.prems(1) by force
    with Cons.IH [OF _ x] Cons.prems(1) show ?thesis by simp
  qed
qed simp

lemma length_filter_key: "distinct (map f xs) \<Longrightarrow> x \<in> set xs \<Longrightarrow> length (filter (\<lambda>a. f a = f x) xs) = 1"
  using one_group [of f "map (\<lambda>a. [a]) xs" x] by (simp add: concat_map_singleton filter_map comp_def)

text \<open>The data that tells outliers apart.\<close>

definition anomaly_id :: "Anomaly \<Rightarrow> AnomalyMetric \<times> AnomalyScope \<times> string \<times> int" where
  "anomaly_id a = (an_metric a, an_scope a, an_workflow a, an_bucket_ms a)"

lemma anomalyKey_id: "anomalyKey a = anomalyKey b \<longleftrightarrow> anomaly_id a = anomaly_id b"
  by (simp add: anomalyKey_injective anomaly_id_def)

lemma distinct_keys: "distinct (map anomalyKey as) \<longleftrightarrow> distinct (map anomaly_id as)"
  by (simp add: distinct_map inj_on_def anomalyKey_id)

text \<open>The outlier a flag stands for: of the metric of its chart, in the bucket the flag is at, and ranked first of those.\<close>

definition flag_of :: "Anomaly list \<Rightarrow> AnomalyMetric \<Rightarrow> int list \<Rightarrow> 'e ChartMarker \<Rightarrow> Anomaly \<Rightarrow> bool" where
  "flag_of live metric axis m a \<longleftrightarrow> a \<in> set live \<and> an_metric a = metric \<and>
     cm_index m < length axis \<and> axis ! cm_index m = an_bucket_ms a \<and> cm_color m = sev_color (SEVERITY_META (an_severity a)) \<and>
     (\<forall>b\<in>set live. an_metric b = metric \<and> an_bucket_ms b = an_bucket_ms a \<longrightarrow> bySeverity a b \<le> 0)"

lemma marker_flag:
  assumes "m \<in> set (toChartMarkers (filter (\<lambda>a. an_metric a = metric) live) axis \<lparr>mo_label = l, mo_onSelect = Some f, mo_max = n\<rparr>)"
  shows "\<exists>a. flag_of live metric axis m a \<and> cm_onClick m = Some (f a)"
proof -
  let ?o = "\<lparr>mo_label = l, mo_onSelect = Some f, mo_max = n\<rparr>"
  from toChartMarkers_spec [of "filter (\<lambda>a. an_metric a = metric) live" axis ?o] assms
  obtain a where a: "a \<in> set (filter (\<lambda>a. an_metric a = metric) live)" "m = anomaly_marker ?o (cm_index m) a"
    "cm_index m < length axis" "axis ! cm_index m = an_bucket_ms a"
    "\<forall>b\<in>set (filter (\<lambda>a. an_metric a = metric) live). an_bucket_ms b = an_bucket_ms a \<longrightarrow> bySeverity a b \<le> 0" by blast
  have "cm_onClick (anomaly_marker ?o i a) = Some (f a)" "cm_color (anomaly_marker ?o i a) = sev_color (SEVERITY_META (an_severity a))" for i
    by (simp_all add: anomaly_marker_def)
  then have "cm_onClick m = Some (f a)" "cm_color m = sev_color (SEVERITY_META (an_severity a))" by (subst a(2), simp)+
  then show ?thesis using a by (auto simp: flag_of_def)
qed

lemma length_one_hd: "length xs = 1 \<Longrightarrow> x \<in> set xs \<Longrightarrow> xs = [x]"
  by (cases xs) auto

text \<open>C16. A chart flag leads to its outlier: where the outliers are told apart by metric, scope, workflow and bucket, clicking a flag of the
  cost chart or of the failure strip expands one row of the list, that of an outlier which is not dismissed, has the metric of the chart, lies in
  the bucket of the flag and ranks first of those there; and it expands the one card whose incident that outlier belongs to.\<close>

theorem chart_flag_expands_row:
  assumes "distinct (map (\<lambda>a. (an_metric a, an_scope a, an_workflow a, an_bucket_ms a)) as)"
    and "m \<in> set (costMarkers h (liveAnoms as p) axis) \<and> metric = Cost \<or> m \<in> set (errorMarkers (liveAnoms as p) axis) \<and> metric = ErrorRate"
  shows "\<exists>a c. flag_of (liveAnoms as p) metric axis m a \<and> a \<in> set as \<and> anomalyKey a \<notin> set (ov_dismissed p) \<and>
    filter or_expanded (outlier_rows (liveAnoms as p) (cm_onClick m)) = [\<lparr>or_anomaly = a, or_expanded = True\<rparr>] \<and>
    filter ic_expanded (incident_cards (liveAnoms as p) (cm_onClick m)) = [c] \<and> a \<in> set (inc_anomalies (ic_incident c))"
proof -
  define live where "live = liveAnoms as p"
  have d: "distinct (map anomalyKey live)"
    using assms(1) distinct_keys [of as] by (simp add: live_def liveAnoms_def distinct_map_filter anomaly_id_def [abs_def])
  obtain a where a: "flag_of live metric axis m a" "cm_onClick m = Some (anomalyKey a)"
    using assms(2) marker_flag unfolding live_def costMarkers_def errorMarkers_def by blast
  then have mem: "a \<in> set live" by (simp add: flag_of_def)
  have perm: "distinct (map anomalyKey xs)" "a \<in> set xs" if "mset xs = mset live" for xs
    using that d mem by (metis mset_eq_imp_distinct_iff mset_map, metis mset_eq_setD)
  let ?rows = "filter or_expanded (outlier_rows live (cm_onClick m))" and ?cards = "filter ic_expanded (incident_cards live (cm_onClick m))"
  have "length ?rows = length (filter (\<lambda>x. anomalyKey x = anomalyKey a) (js_sort bySeverity live))"
    by (simp add: outlier_rows_def a(2) filter_map comp_def)
  also have "\<dots> = 1" by (rule length_filter_key) (simp_all add: perm)
  finally have rows: "?rows = [\<lparr>or_anomaly = a, or_expanded = True\<rparr>]"
    using mem by (intro length_one_hd) (auto simp: outlier_rows_def a(2))
  have "length ?cards = length (filter (\<lambda>xs. \<exists>x\<in>set xs. anomalyKey x = anomalyKey a) (map inc_anomalies (groupIncidents live)))"
    by (simp add: incident_cards_def a(2) filter_map comp_def)
  also have "\<dots> = 1" by (rule one_group) (use perm [OF groupIncidents_mset] in simp_all)
  finally have one: "length ?cards = 1" .
  obtain i where i: "i \<in> set (groupIncidents live)" "a \<in> set (inc_anomalies i)" using perm(2) [OF groupIncidents_mset] by auto
  then have "?cards = [\<lparr>ic_incident = i, ic_expanded = True\<rparr>]"
    by (intro length_one_hd [OF one]) (auto simp: incident_cards_def a(2))
  moreover have "a \<in> set as" "anomalyKey a \<notin> set (ov_dismissed p)" using mem by (simp_all add: live_def liveAnoms_def)
  ultimately show ?thesis using a(1) rows i(2) unfolding live_def by (intro exI [of _ a] exI [of _ "\<lparr>ic_incident = i, ic_expanded = True\<rparr>"]) simp
qed

text \<open>Dismissing hides an outlier everywhere and nothing else: it leaves the list and both charts, all others stay,
  dismissing an incident hides exactly its flags, the count is that of the hidden ones, and undoing brings back all.\<close>

theorem dismissal_exact:
  assumes "distinct (map anomalyKey as)" "a \<in> set as" "inc \<in> set (groupIncidents (liveAnoms as p))"
  shows "set (liveAnoms as (dismissOutlier a p)) = set (liveAnoms as p) - {a} \<and>
    set (liveAnoms as (dismiss_incident inc p)) = set (liveAnoms as p) - set (inc_anomalies inc) \<and>
    (\<forall>m\<in>set (costMarkers h (liveAnoms as (dismissOutlier a p)) axis) \<union> set (errorMarkers (liveAnoms as (dismissOutlier a p)) axis').
       cm_onClick m \<noteq> Some (anomalyKey a)) \<and>
    dismissedCount as p = int (length (filter (\<lambda>b. anomalyKey b \<in> set (ov_dismissed p)) as)) \<and>
    liveAnoms as (restoreAll p) = as"
proof (intro conjI ballI)
  have inj: "inj_on anomalyKey (set as)" using assms(1) by (simp add: distinct_map)
  have sub: "set (inc_anomalies inc) \<subseteq> set as"
  proof -
    have "set (concat (map inc_anomalies (groupIncidents (liveAnoms as p)))) = set (liveAnoms as p)"
      using groupIncidents_mset by (rule mset_eq_setD)
    then show ?thesis using assms(3) by (auto simp: liveAnoms_def)
  qed
  have keys: "anomalyKey b \<in> anomalyKey ` B \<longleftrightarrow> b \<in> B" if "b \<in> set as" "B \<subseteq> set as" for b B
    using inj that by (auto dest: inj_onD)
  show one: "set (liveAnoms as (dismissOutlier a p)) = set (liveAnoms as p) - {a}"
    using keys [of _ "{a}"] assms(2) by (auto simp: liveAnoms_def dismissOutlier_def)
  show "set (liveAnoms as (dismiss_incident inc p)) = set (liveAnoms as p) - set (inc_anomalies inc)"
    using keys [OF _ sub] by (auto simp: liveAnoms_def dismiss_incident_def dismissed_after_fold)
  show "dismissedCount as p = int (length (filter (\<lambda>b. anomalyKey b \<in> set (ov_dismissed p)) as))"
    using sum_length_filter_compl [of "\<lambda>b. anomalyKey b \<in> set (ov_dismissed p)" as] by (simp add: dismissedCount_def liveAnoms_def)
  show "liveAnoms as (restoreAll p) = as" by (simp add: liveAnoms_def restoreAll_def)
  fix m assume "m \<in> set (costMarkers h (liveAnoms as (dismissOutlier a p)) axis) \<union>
      set (errorMarkers (liveAnoms as (dismissOutlier a p)) axis')"
  from marker_is_live [OF this] show "cm_onClick m \<noteq> Some (anomalyKey a)"
    by (auto simp: liveAnoms_def dismissOutlier_def)
qed

definition sample_outliers :: "Anomaly list" where
  "sample_outliers = [(sample_anomaly Critical 1)\<lparr>an_metric := ErrorRate\<rparr>]"

lemma sample_outliers_live: "liveAnoms sample_outliers overview_init = sample_outliers"
  by (simp add: liveAnoms_def overview_init_def)

theorem chart_flag_expands_row_witness:
  "map or_anomaly (filter or_expanded (outlier_rows sample_outliers (cm_onClick (hd (errorMarkers sample_outliers [86400000]))))) = sample_outliers"
proof -
  have "errorMarkers sample_outliers [86400000] \<noteq> []"
    by (simp add: errorMarkers_def sample_outliers_def sample_anomaly_def toChartMarkers_def bucket_index_map_def js_sort_def jm_of_def)
  then have m: "hd (errorMarkers sample_outliers [86400000]) \<in> set (errorMarkers (liveAnoms sample_outliers overview_init) [86400000])"
    by (simp add: sample_outliers_live)
  have "distinct (map (\<lambda>a. (an_metric a, an_scope a, an_workflow a, an_bucket_ms a)) sample_outliers)" by (simp add: sample_outliers_def)
  from chart_flag_expands_row [OF this disjI2 [OF conjI [OF m refl]]] show ?thesis
    by (auto simp: sample_outliers_live) (simp add: sample_outliers_def)
qed

theorem dismissal_exact_witness:
  "set (liveAnoms sample_outliers (dismissOutlier (hd sample_outliers) overview_init)) = {}"
proof -
  have g: "groupIncidents (liveAnoms sample_outliers overview_init) \<noteq> []"
    using groupIncidents_mset [of sample_outliers] by (auto simp: sample_outliers_live) (simp add: sample_outliers_def)
  have "distinct (map anomalyKey sample_outliers)" "hd sample_outliers \<in> set sample_outliers" by (simp_all add: sample_outliers_def)
  from dismissal_exact [OF this hd_in_set [OF g]] show ?thesis by (simp add: sample_outliers_live) (simp add: sample_outliers_def)
qed

definition muted_codes :: "setup_action list \<Rightarrow> string set" where
  "muted_codes acts = {c. MuteCheck c \<in> set acts}"

definition dismissed_codes :: "setup_action list \<Rightarrow> string set" where
  "dismissed_codes acts = \<Union> {set cs | cs. DismissChecks cs \<in> set acts}"

lemma codes_snoc [simp]:
  "muted_codes [] = {}" "dismissed_codes [] = {}"
  "muted_codes (acts @ [ToggleChecks]) = muted_codes acts" "dismissed_codes (acts @ [ToggleChecks]) = dismissed_codes acts"
  "muted_codes (acts @ [DismissChecks cs]) = muted_codes acts"
  "dismissed_codes (acts @ [DismissChecks cs]) = dismissed_codes acts \<union> set cs"
  "muted_codes (acts @ [MuteCheck c]) = insert c (muted_codes acts)" "dismissed_codes (acts @ [MuteCheck c]) = dismissed_codes acts"
  by (auto simp: muted_codes_def dismissed_codes_def)

lemma mute_check_storage:
  assumes "\<And>xs. parse (stringify (JArr (map JStr xs))) = Some (JArr (map JStr xs))"
    and "mute_check stringify w code (s, b) = (s', b')"
  shows "sk_dismissed s' = sk_dismissed s" "set (sk_muted s') = insert code (set (sk_muted s))" "br_ok b' = br_ok b"
    "br_ok b \<Longrightarrow> set (readMuted parse w b') = set (sk_muted s')" "w' \<noteq> w \<Longrightarrow> readMuted parse w' b' = readMuted parse w' b"
proof -
  have s': "s' = s\<lparr>sk_muted := set_add code (sk_muted s)\<rparr>"
    "b' = nullish (set_item (mutedKey w) (stringify (JArr (map JStr (set_add code (sk_muted s))))) b) b"
    using assms(2) by (simp_all add: mute_check_def Let_def)
  show "sk_dismissed s' = sk_dismissed s" "set (sk_muted s') = insert code (set (sk_muted s))" by (simp_all add: s')
  show "br_ok b' = br_ok b" by (cases "br_ok b") (simp_all add: s' storage_ops)
  show "br_ok b \<Longrightarrow> set (readMuted parse w b') = set (sk_muted s')"
    using assms(1) by (simp add: s' readMuted_def storage_ops)
  show "w' \<noteq> w \<Longrightarrow> readMuted parse w' b' = readMuted parse w' b"
    by (cases "br_ok b") (simp_all add: s' readMuted_def storage_ops mutedKey_def)
qed

lemma setup_session_state:
  assumes parse: "\<And>xs. parse (stringify (JArr (map JStr xs))) = Some (JArr (map JStr xs))"
    and "setup_session stringify w acts (setup_init parse w b, b) = (s', b')"
  shows "set (sk_dismissed s') = dismissed_codes acts \<and> set (sk_muted s') = set (readMuted parse w b) \<union> muted_codes acts \<and>
    br_ok b' = br_ok b \<and> (br_ok b \<longrightarrow> set (readMuted parse w b') = set (sk_muted s')) \<and>
    (\<forall>w'. w' \<noteq> w \<longrightarrow> readMuted parse w' b' = readMuted parse w' b)"
  using assms(2)
proof (induction acts arbitrary: s' b' rule: rev_induct)
  case Nil
  then show ?case by (auto simp: setup_session_def setup_init_def)
next
  case (snoc a acts)
  obtain t c where t: "setup_session stringify w acts (setup_init parse w b, b) = (t, c)" by fastforce
  note IH = snoc.IH [OF t]
  have step: "setup_do stringify w a (t, c) = (s', b')" using snoc.prems t by (simp add: setup_session_def)
  show ?case
  proof (cases a)
    case (MuteCheck code)
    then have "mute_check stringify w code (t, c) = (s', b')" using step by simp
    from mute_check_storage [OF parse this] IH show ?thesis unfolding MuteCheck by auto
  qed (use step IH in \<open>auto simp: dismiss_checks_def\<close>)
qed

text \<open>C31. Dismissing and muting hide exactly what they name: however the panel is used after it was opened, the checks shown are those
  neither muted before nor muted or dismissed since, also where the storage is unavailable. Where it is available, opening the panel again
  shows those not muted before or since, so a dismissal lasts until then and a mute for good. The mutes of other workspaces are untouched.\<close>

theorem mute_persists:
  assumes "\<And>xs. parse (stringify (JArr (map JStr xs))) = Some (JArr (map JStr xs))"
    and "setup_session stringify w acts (setup_init parse w b, b) = (s', b')"
  shows "visible_checks checks s' =
      filter (\<lambda>c. si_code c \<notin> set (readMuted parse w b) \<union> muted_codes acts \<union> dismissed_codes acts) checks \<and>
    (br_ok b \<longrightarrow> visible_checks checks (setup_init parse w b') =
      filter (\<lambda>c. si_code c \<notin> set (readMuted parse w b) \<union> muted_codes acts) checks) \<and>
    (w' \<noteq> w \<longrightarrow> setup_init parse w' b' = setup_init parse w' b)"
  using setup_session_state [OF assms]
  by (auto simp: visible_checks_def setup_init_def intro!: filter_cong)

text \<open>A codec for lists of codes, to instantiate the parameters: every character is marked, every code ended.\<close>

fun plain_stringify :: "json \<Rightarrow> string" where
  "plain_stringify (JArr js) = concat (map (\<lambda>s. concat (map (\<lambda>c. [CHR ''1'', c]) s) @ ''0'') (json_strings js))"
| "plain_stringify _ = []"

fun plain_codes :: "string \<Rightarrow> string \<Rightarrow> string list" where
  "plain_codes acc (m # r) = (if m = CHR ''0'' then acc # plain_codes [] r
     else case r of [] \<Rightarrow> [] | c # r' \<Rightarrow> plain_codes (acc @ [c]) r')"
| "plain_codes acc [] = []"

definition plain_parse :: "string \<Rightarrow> json option" where
  "plain_parse s = Some (JArr (map JStr (plain_codes [] s)))"

lemma plain_codes_word: "plain_codes acc (concat (map (\<lambda>c. [CHR ''1'', c]) s) @ CHR ''0'' # r) = (acc @ s) # plain_codes [] r"
  by (induction s arbitrary: acc) simp_all

lemma plain_roundtrip: "plain_parse (plain_stringify (JArr (map JStr xs))) = Some (JArr (map JStr xs))"
proof -
  have "plain_codes [] (concat (map (\<lambda>s. concat (map (\<lambda>c. [CHR ''1'', c]) s) @ ''0'') xs)) = xs"
    by (induction xs) (simp_all add: plain_codes_word)
  then show ?thesis by (simp add: plain_parse_def)
qed

theorem mute_persists_witness:
  "visible_checks [\<lparr>si_code = ''x'', si_severity = Info, si_message = [], sc_spans = 1, sc_share = 1, sc_example_trace_id = []\<rparr>]
     (setup_init plain_parse ''w'' (snd (setup_session plain_stringify ''w'' [ToggleChecks, MuteCheck ''x'']
       (setup_init plain_parse ''w'' fresh_browser, fresh_browser)))) = []"
proof -
  let ?s = "setup_init plain_parse ''w'' fresh_browser" and ?acts = "[ToggleChecks, MuteCheck ''x'']"
  obtain s' b' where m: "setup_session plain_stringify ''w'' ?acts (?s, fresh_browser) = (s', b')" by (metis surj_pair)
  have "br_ok fresh_browser" "''x'' \<in> muted_codes ?acts" by (simp_all add: fresh_browser_def muted_codes_def)
  with mute_persists [OF plain_roundtrip m, where checks =
      "[\<lparr>si_code = ''x'', si_severity = Info, si_message = [], sc_spans = 1, sc_share = 1, sc_example_trace_id = []\<rparr>]"]
  show ?thesis by (simp add: m)
qed

end
