(* ===== verification/Charts.thy ===== *)
theory Charts
  imports Formatters
begin

text \<open>
  The geometry of the shared charts (\<open>CostBarChart.tsx\<close>, \<open>LatencyChart.tsx\<close>, \<open>HorizonStrip.tsx\<close> and \<open>Sparkline.tsx\<close> of
  \<open>common/components\<close>) and of the comparison of versions (\<open>VersionLineChart.tsx\<close>, \<open>TrafficStrip.tsx\<close> of
  \<open>modules/workflows/components\<close>): scales, bars, line segments, labels, flags and tooltips, as positions in pixels.
  A coordinate that the code may compute as \<open>NaN\<close> is a \<open>jsnum\<close>. \<open>w\<close> is the measured width, which is 0 before the first
  measurement.
\<close>

subsection \<open>Frames\<close>

record padding =
  pad_top :: rat
  pad_right :: rat
  pad_bottom :: rat
  pad_left :: rat

definition inner_w :: "padding \<Rightarrow> rat \<Rightarrow> rat" where
  "inner_w p w = max 1 (w - pad_left p - pad_right p)"

definition inner_h :: "padding \<Rightarrow> rat \<Rightarrow> rat" where
  "inner_h p height = height - pad_top p - pad_bottom p"

text \<open>Every \<open>labelStep\<close>th label is drawn. An empty series divides by zero, with no label to draw.\<close>

definition label_step :: "rat \<Rightarrow> rat \<Rightarrow> int" where
  "label_step px gap = max 1 (ceiling (px / gap))"

definition has_label :: "rat \<Rightarrow> rat \<Rightarrow> nat \<Rightarrow> bool" where
  "has_label px gap i \<longleftrightarrow> int i mod label_step px gap = 0"

definition clamp :: "rat \<Rightarrow> rat \<Rightarrow> rat \<Rightarrow> rat" where
  "clamp lo hi x = min (max x lo) hi"

text \<open>The length of a string in the 16-bit units of JavaScript: continuation bytes do not count and a four-byte sequence
  counts twice.\<close>

fun js_length :: "string \<Rightarrow> nat" where
  "js_length [] = 0"
| "js_length (c # cs) = (let n = (of_char c :: nat) in (if 128 \<le> n \<and> n < 192 then 0 else if n \<ge> 240 then 2 else 1)) + js_length cs"

subsection \<open>Bars of the cost (CostBarChart.tsx)\<close>

definition COST_PAD :: padding where
  [data_defs]: "COST_PAD = \<lparr>pad_top = 20, pad_right = 8, pad_bottom = 32, pad_left = 56\<rparr>"

definition cost_max :: "CostPoint list \<Rightarrow> rat" where
  "cost_max series =
     (let m = (if series \<noteq> [] then Max (set (map cp_value series)) else 0) * (11 / 10) in if m = 0 then 1 else m)"

definition cost_gap :: "rat \<Rightarrow> nat \<Rightarrow> rat" where
  "cost_gap w n = inner_w COST_PAD w / of_nat n"

record bar =
  bar_x :: rat
  bar_y :: rat
  bar_w :: rat
  bar_h :: rat
  bar_label :: "string option"
  bar_fill :: string

definition marker_by_index :: "'e ChartMarker list \<Rightarrow> (nat, 'e ChartMarker) jsmap" where
  "marker_by_index markers = jm_of (map (\<lambda>m. (cm_index m, m)) markers)"

definition cost_bar :: "CostPoint list \<Rightarrow> rat \<Rightarrow> rat \<Rightarrow> 'e ChartMarker list \<Rightarrow> nat \<Rightarrow> bar" where
  "cost_bar series w height markers i =
     (let d = series ! i; gap = cost_gap w (length series); barW = gap * (55 / 100); ih = inner_h COST_PAD height;
          h = cp_value d / cost_max series * ih in
      \<lparr>bar_x = pad_left COST_PAD + of_nat i * gap + (gap - barW) / 2, bar_y = pad_top COST_PAD + ih - h, bar_w = barW, bar_h = max 2 h,
       bar_label = (if has_label 34 gap i then Some (cp_label d) else None),
       bar_fill = (case jm_get (marker_by_index markers) i of Some m \<Rightarrow> cm_color m | None \<Rightarrow> ''var(--accent)'')\<rparr>)"

definition cost_bars :: "CostPoint list \<Rightarrow> rat \<Rightarrow> rat \<Rightarrow> 'e ChartMarker list \<Rightarrow> bar list" where
  "cost_bars series w height markers = map (cost_bar series w height markers) [0..<length series]"

definition cost_ticks :: "CostPoint list \<Rightarrow> rat \<Rightarrow> (rat \<times> string) list" where
  "cost_ticks series height = map (\<lambda>i.
     let v = cost_max series / 4 * of_nat i in
     (pad_top COST_PAD + inner_h COST_PAD height - v / cost_max series * inner_h COST_PAD height, ''$'' @ to_fixed 2 v)) [0..<5]"

text \<open>The centre of a bucket, where the rule of a marker and the line under the pointer stand.\<close>

definition cost_center :: "rat \<Rightarrow> nat \<Rightarrow> nat \<Rightarrow> rat" where
  "cost_center w n i = pad_left COST_PAD + of_nat i * cost_gap w n + cost_gap w n / 2"

definition cost_rules :: "rat \<Rightarrow> nat \<Rightarrow> 'e ChartMarker list \<Rightarrow> (rat \<times> string) list" where
  "cost_rules w n markers =
     (if w > 0 then map (\<lambda>m. (cost_center w n (cm_index m), cm_color m)) (filter (\<lambda>m. cm_index m < n) markers) else [])"

text \<open>The tooltip of the bar under the pointer: \<open>None\<close> when the series no longer has that bar, where reading it throws.\<close>

record tooltip =
  tt_x :: rat
  tt_y :: rat
  tt_label :: string
  tt_value :: string

definition cost_tooltip :: "CostPoint list \<Rightarrow> rat \<Rightarrow> rat \<Rightarrow> nat \<Rightarrow> tooltip option" where
  "cost_tooltip series w height hover =
     (if hover < length series then
        (let d = series ! hover; ih = inner_h COST_PAD height; y = pad_top COST_PAD + ih - cp_value d / cost_max series * ih in
         Some \<lparr>tt_x = clamp (pad_left COST_PAD + 70) (w - pad_right COST_PAD - 70) (cost_center w (length series) hover),
           tt_y = max (y - 54) (pad_top COST_PAD), tt_label = cp_label d, tt_value = ''$'' @ to_fixed 4 (cp_value d)\<rparr>)
      else None)"

definition flag_half :: "'e ChartMarker \<Rightarrow> rat" where
  "flag_half m = 18 + of_nat (case cm_label m of None \<Rightarrow> 0 | Some l \<Rightarrow> js_length l) * (36 / 10)"

definition collides :: "rat \<times> rat \<Rightarrow> rat \<times> rat \<Rightarrow> bool" where
  "collides k f \<longleftrightarrow> \<bar>fst k - fst f\<bar> < snd k + snd f + 6"

fun keep_flags :: "('e ChartMarker \<Rightarrow> rat) \<Rightarrow> (rat \<times> rat) list \<Rightarrow> 'e ChartMarker list \<Rightarrow> 'e ChartMarker list" where
  "keep_flags xOf kept [] = []"
| "keep_flags xOf kept (m # ms) =
     (if \<exists>k\<in>set kept. collides k (xOf m, flag_half m) then keep_flags xOf kept ms
      else m # keep_flags xOf (kept @ [(xOf m, flag_half m)]) ms)"

definition withoutOverlap :: "('e ChartMarker \<Rightarrow> rat) \<Rightarrow> 'e ChartMarker list \<Rightarrow> 'e ChartMarker list" where
  "withoutOverlap xOf markers = keep_flags xOf [] (js_sort (\<lambda>a b. int (cm_index b) - int (cm_index a)) markers)"

definition labelled :: "nat \<Rightarrow> 'e ChartMarker \<Rightarrow> bool" where
  "labelled n m \<longleftrightarrow> cm_label m \<noteq> None \<and> cm_label m \<noteq> Some [] \<and> cm_index m < n"

definition cost_flags :: "rat \<Rightarrow> nat \<Rightarrow> 'e ChartMarker list \<Rightarrow> (rat \<times> 'e ChartMarker) list" where
  "cost_flags w n markers =
     (if w > 0
      then map (\<lambda>m. (clamp (pad_left COST_PAD + 4) (w - 4) (cost_center w n (cm_index m)), m))
        (withoutOverlap (\<lambda>m. cost_center w n (cm_index m)) (filter (labelled n) markers))
      else [])"

subsection \<open>Lines with gaps (LatencyChart.tsx, Sparkline.tsx)\<close>

text \<open>The loop over the points: a missing value ends the segment under way.\<close>

fun seg_loop :: "(nat \<Rightarrow> 'v \<Rightarrow> 'p) \<Rightarrow> nat \<Rightarrow> 'p list \<Rightarrow> 'p list list \<Rightarrow> 'v option list \<Rightarrow> 'p list list" where
  "seg_loop mk i seg segs [] = (if seg \<noteq> [] then segs @ [seg] else segs)"
| "seg_loop mk i seg segs (None # ds) = seg_loop mk (i + 1) [] (if seg \<noteq> [] then segs @ [seg] else segs) ds"
| "seg_loop mk i seg segs (Some v # ds) = seg_loop mk (i + 1) (seg @ [mk i v]) segs ds"

definition segmentsOf :: "(nat \<Rightarrow> 'v \<Rightarrow> 'p) \<Rightarrow> 'v option list \<Rightarrow> 'p list list" where
  "segmentsOf mk data = seg_loop mk 0 [] [] data"

definition isolatedPoints :: "'p list list \<Rightarrow> 'p list" where
  "isolatedPoints segs = map hd (filter (\<lambda>s. length s = 1) segs)"

definition LATENCY_PAD :: padding where
  [data_defs]: "LATENCY_PAD = \<lparr>pad_top = 20, pad_right = 16, pad_bottom = 32, pad_left = 56\<rparr>"

definition present :: "'a option list \<Rightarrow> 'a list" where
  "present xs = map the (filter (\<lambda>x. x \<noteq> None) xs)"

definition latency_max :: "LatencyPoint list \<Rightarrow> rat" where
  "latency_max series =
     (let p99 = present (map lp_p99 series) in (if p99 \<noteq> [] then Max (set p99) else 1) * (105 / 100))"

definition latency_step :: "rat \<Rightarrow> nat \<Rightarrow> rat" where
  "latency_step w n = inner_w LATENCY_PAD w / (if n = 1 then 1 else of_int (int n - 1))"

definition latency_x :: "rat \<Rightarrow> nat \<Rightarrow> nat \<Rightarrow> rat" where
  "latency_x w n i = pad_left LATENCY_PAD + of_nat i * latency_step w n"

text \<open>With a maximum of zero every value is \<open>0 / 0\<close>.\<close>

definition latency_y :: "LatencyPoint list \<Rightarrow> rat \<Rightarrow> rat \<Rightarrow> jsnum" where
  "latency_y series height v =
     (if latency_max series = 0 then NotANumber
      else Fin (pad_top LATENCY_PAD + inner_h LATENCY_PAD height - v / latency_max series * inner_h LATENCY_PAD height))"

definition latency_segments ::
  "(LatencyPoint \<Rightarrow> rat option) \<Rightarrow> LatencyPoint list \<Rightarrow> rat \<Rightarrow> rat \<Rightarrow> (rat \<times> jsnum) list list" where
  "latency_segments key series w height =
     segmentsOf (\<lambda>i v. (latency_x w (length series) i, latency_y series height v)) (map key series)"

text \<open>The text of a path: a move to the first point of each segment and lines to the others. \<open>toFixed\<close> writes what is not finite
  as a word.\<close>

fun num_fixed :: "jsnum \<Rightarrow> string" where
  "num_fixed (Fin x) = to_fixed 1 x"
| "num_fixed PosInf = ''Infinity''"
| "num_fixed NegInf = ''-Infinity''"
| "num_fixed NotANumber = ''NaN''"

definition point_text :: "rat \<times> jsnum \<Rightarrow> string" where
  "point_text p = to_fixed 1 (fst p) @ '','' @ num_fixed (snd p)"

definition segment_path :: "(rat \<times> jsnum) list \<Rightarrow> string" where
  "segment_path seg = str_join '' '' (map (\<lambda>i. (if i = 0 then ''M'' else ''L'') @ point_text (seg ! i)) [0..<length seg])"

definition linePath :: "(rat \<times> jsnum) list list \<Rightarrow> string" where
  "linePath segs = str_join '' '' (map segment_path segs)"

definition area_close :: "string \<Rightarrow> (rat \<times> jsnum) list \<Rightarrow> string" where
  "area_close baseY seg =
     '' L'' @ to_fixed 1 (fst (List.last seg)) @ '','' @ baseY @ '' L'' @ to_fixed 1 (fst (hd seg)) @ '','' @ baseY @ '' Z''"

definition areaPath :: "rat \<Rightarrow> (rat \<times> jsnum) list list \<Rightarrow> string" where
  "areaPath height segs =
     (let baseY = to_fixed 1 (pad_top LATENCY_PAD + inner_h LATENCY_PAD height) in
      str_join '' '' (map (\<lambda>seg. linePath [seg] @ area_close baseY seg) segs))"

definition latency_ticks :: "LatencyPoint list \<Rightarrow> rat \<Rightarrow> (jsnum \<times> string) list" where
  "latency_ticks series height = map (\<lambda>i.
     let v = latency_max series / 4 * of_nat i in (latency_y series height v, to_fixed 1 v @ ''s'')) [0..<5]"

definition latency_rules :: "rat \<Rightarrow> nat \<Rightarrow> 'e ChartMarker list \<Rightarrow> (rat \<times> string) list" where
  "latency_rules w n markers = map (\<lambda>m. (latency_x w n (cm_index m), cm_color m)) (filter (\<lambda>m. cm_index m < n) markers)"

text \<open>The dots on the bucket under the pointer, for p95, p50 and p99.\<close>

definition hover_dots :: "LatencyPoint list \<Rightarrow> rat \<Rightarrow> rat \<Rightarrow> nat \<Rightarrow> (rat \<times> jsnum) list" where
  "hover_dots series w height hover =
     (if hover < length series then
        (let d = series ! hover in
         map (\<lambda>v. (latency_x w (length series) hover, latency_y series height v)) (present [lp_p95 d, lp_p50 d, lp_p99 d]))
      else [])"

definition latency_tooltip_x :: "rat \<Rightarrow> nat \<Rightarrow> nat \<Rightarrow> rat" where
  "latency_tooltip_x w n hover = clamp (pad_left LATENCY_PAD + 80) (w - pad_right LATENCY_PAD - 80) (latency_x w n hover)"

definition latency_text :: "rat option \<Rightarrow> string" where
  "latency_text v = (case v of None \<Rightarrow> em_dash | Some x \<Rightarrow> to_fixed 2 x @ ''s'')"

definition latency_tooltip :: "LatencyPoint list \<Rightarrow> rat \<Rightarrow> nat \<Rightarrow> (rat \<times> string \<times> string list) option" where
  "latency_tooltip series w hover =
     (if hover < length series then
        (let d = series ! hover in
         Some (latency_tooltip_x w (length series) hover, lp_label d, map latency_text [lp_p50 d, lp_p95 d, lp_p99 d]))
      else None)"

definition spark_point :: "rat option list \<Rightarrow> rat \<Rightarrow> rat \<Rightarrow> nat \<Rightarrow> rat \<Rightarrow> rat \<times> rat" where
  "spark_point data w height i v =
     (let mx = Max (set (present data)); mn = Min (set (present data)); rng = (if mx - mn = 0 then 1 else mx - mn) in
      (of_nat i * (w / of_int (int (length data) - 1)), height - (v - mn) / rng * (height - 2) - 1))"

definition sparkline :: "rat option list \<Rightarrow> rat \<Rightarrow> rat \<Rightarrow> (rat \<times> rat) list list option" where
  "sparkline data w height =
     (if length (present data) < 2 then None else Some (segmentsOf (spark_point data w height) data))"

definition spark_paths :: "rat option list \<Rightarrow> rat \<Rightarrow> rat \<Rightarrow> string \<Rightarrow> (string \<times> string) list" where
  "spark_paths data w height height_text =
     (case sparkline data w height of None \<Rightarrow> []
      | Some segs \<Rightarrow> map (\<lambda>s. let seg = map (\<lambda>(x, y). (x, Fin y)) s; d = segment_path seg in (d @ area_close height_text seg, d)) segs)"

subsection \<open>Failures (HorizonStrip.tsx)\<close>

definition max_errors :: "ErrorPoint list \<Rightarrow> int" where
  "max_errors data = Max (set (map ep_errors data @ [1]))"

definition intensity :: "ErrorPoint list \<Rightarrow> ErrorPoint \<Rightarrow> rat" where
  "intensity data d = of_int (ep_errors d) / of_int (max_errors data)"

definition cell_color :: "ErrorPoint list \<Rightarrow> ErrorPoint \<Rightarrow> string" where
  "cell_color data d =
     (if intensity data d > 66 / 100 then ''var(--error)''
      else if intensity data d > 33 / 100 then ''var(--warning)''
      else if ep_errors d > 0 then ''var(--accent)'' else ''var(--surface-alt)'')"

definition cell_opacity :: "ErrorPoint list \<Rightarrow> ErrorPoint \<Rightarrow> rat" where
  "cell_opacity data d = (if ep_errors d = 0 then 18 / 100 else 25 / 100 + intensity data d * (6 / 10))"

definition cell_x :: "rat \<Rightarrow> nat \<Rightarrow> nat \<Rightarrow> rat \<times> rat" where
  "cell_x w n i = (let cellW = w / of_nat n in (of_nat i * cellW + 3, cellW - 6))"

definition horizon_tooltip :: "host \<Rightarrow> ErrorPoint list \<Rightarrow> nat \<Rightarrow> string option" where
  "horizon_tooltip h data hover =
     (if hover < length data then
        (let d = data ! hover; rate = (if ep_total d > 0 then of_int (ep_errors d) / of_int (ep_total d) * 100 else 0) in
         Some (int_str (ep_errors d) @ '' failed'' @
           (if ep_total d > 0 then '' '' @ mid_dot @ '' '' @ to_fixed 1 rate @ ''% of '' @ fmtNum h (of_int (ep_total d)) else [])))
      else None)"

definition horizon_boxes :: "rat \<Rightarrow> nat \<Rightarrow> 'e ChartMarker list \<Rightarrow> (rat \<times> rat) list" where
  "horizon_boxes w n markers =
     (if w > 0 then map (\<lambda>m. (of_nat (cm_index m) * (w / of_nat n) + 2, w / of_nat n - 4)) (filter (\<lambda>m. cm_index m < n) markers) else [])"

subsection \<open>Versions over time (VersionLineChart.tsx, TrafficStrip.tsx)\<close>

type_synonym series = "rat option list"

record line_scale =
  sc_max :: rat
  sc_min :: rat

definition line_scale_of :: "series \<Rightarrow> series \<Rightarrow> line_scale" where
  "line_scale_of base candidate =
     (let all = present (base @ candidate);
          hi = (if all \<noteq> [] then Max (set all) else 1);
          lo = (if all \<noteq> [] then Min (set all) else 0);
          spread = (if hi - lo \<noteq> 0 then hi - lo else if hi \<noteq> 0 then hi else 1) in
      \<lparr>sc_max = hi + spread * (2 / 10), sc_min = max 0 (lo - spread * (5 / 10))\<rparr>)"

definition LINE_PAD :: padding where
  [data_defs]: "LINE_PAD = \<lparr>pad_top = 20, pad_right = 56, pad_bottom = 32, pad_left = 56\<rparr>"

definition line_step :: "rat \<Rightarrow> nat \<Rightarrow> rat" where
  "line_step w n = inner_w LINE_PAD w / of_nat (max 1 n)"

definition line_x :: "rat \<Rightarrow> nat \<Rightarrow> nat \<Rightarrow> rat" where
  "line_x w n i = pad_left LINE_PAD + (of_nat i + 1 / 2) * line_step w n"

definition line_y :: "line_scale \<Rightarrow> rat \<Rightarrow> rat \<Rightarrow> rat" where
  "line_y s height v =
     (let d = sc_max s - sc_min s in
      pad_top LINE_PAD + inner_h LINE_PAD height - (v - sc_min s) / (if d = 0 then 1 else d) * inner_h LINE_PAD height)"

datatype pen_move = MoveTo nat rat | LineTo nat rat

text \<open>\<open>path\<close>: the pen is lifted at a missing value.\<close>

fun pen_path :: "nat \<Rightarrow> bool \<Rightarrow> series \<Rightarrow> pen_move list" where
  "pen_path i pen [] = []"
| "pen_path i pen (None # s) = pen_path (i + 1) False s"
| "pen_path i pen (Some v # s) = (if pen then LineTo i v else MoveTo i v) # pen_path (i + 1) True s"

definition pen_text :: "rat \<Rightarrow> nat \<Rightarrow> (rat \<Rightarrow> rat) \<Rightarrow> pen_move \<Rightarrow> string" where
  "pen_text w n y mv =
     (let pos = (\<lambda>i v. to_fixed 1 (line_x w n i) @ '','' @ to_fixed 1 (y v) @ '' '') in
      case mv of LineTo i v \<Rightarrow> ''L'' @ pos i v | MoveTo i v \<Rightarrow> ''M'' @ pos i v)"

definition line_path :: "rat \<Rightarrow> nat \<Rightarrow> (rat \<Rightarrow> rat) \<Rightarrow> series \<Rightarrow> string" where
  "line_path w n y s = concat (map (pen_text w n y) (pen_path 0 False s))"

fun last_from :: "series \<Rightarrow> nat \<Rightarrow> int" where
  "last_from s 0 = - 1"
| "last_from s (Suc i) = (if i < length s \<and> s ! i \<noteq> None then int i else last_from s i)"

definition last_index :: "series \<Rightarrow> int" where
  "last_index s = last_from s (length s)"

text \<open>The end label of a line, unless another line carries on right after it.\<close>

definition crowded :: "series list \<Rightarrow> int \<Rightarrow> bool" where
  "crowded others j \<longleftrightarrow> (\<exists>s\<in>set others. \<exists>v\<in>set (take 3 (drop (nat (j + 1)) s)). v \<noteq> None)"

definition end_label :: "series \<Rightarrow> series list \<Rightarrow> (nat \<times> rat) option" where
  "end_label s others =
     (let j = last_index s in if j < 0 \<or> crowded others j then None else Some (nat j, the (s ! nat j)))"

definition band_rect :: "rat \<Rightarrow> nat \<Rightarrow> nat \<times> nat \<Rightarrow> rat \<times> rat" where
  "band_rect w n band = (pad_left LINE_PAD + of_nat (fst band) * line_step w n, of_int (int (snd band) - int (fst band) + 1) * line_step w n)"

definition short_label :: "string \<Rightarrow> (string \<Rightarrow> nat \<Rightarrow> string) \<Rightarrow> string" where
  "short_label l slice = (if js_length l > 12 then slice l 11 @ ellipsis else l)"

text \<open>The lines of one or two metrics, each with the scale of its metric.\<close>

record ChartMetric =
  mt_title :: string
  mt_base :: series
  mt_candidate :: series
  mt_fmt :: "rat \<Rightarrow> string"

record chart_line =
  ln_s :: series
  ln_is_base :: bool
  ln_mi :: nat
  ln_label :: string
  ln_fmt :: "rat \<Rightarrow> string"
  ln_y :: "rat \<Rightarrow> rat"

definition dual :: "ChartMetric list \<Rightarrow> bool" where
  "dual metrics \<longleftrightarrow> length metrics > 1"

definition metric_scale :: "ChartMetric \<Rightarrow> line_scale" where
  "metric_scale m = line_scale_of (mt_base m) (mt_candidate m)"

definition chart_lines :: "string \<Rightarrow> string \<Rightarrow> rat \<Rightarrow> ChartMetric list \<Rightarrow> chart_line list" where
  "chart_lines baseLabel candidateLabel height metrics = concat (map (\<lambda>mi.
     let m = metrics ! mi; y = line_y (metric_scale m) height in
     [\<lparr>ln_s = mt_base m, ln_is_base = True, ln_mi = mi, ln_label = baseLabel, ln_fmt = mt_fmt m, ln_y = y\<rparr>,
      \<lparr>ln_s = mt_candidate m, ln_is_base = False, ln_mi = mi, ln_label = candidateLabel, ln_fmt = mt_fmt m, ln_y = y\<rparr>])
     [0..<length metrics])"

definition tick_value :: "line_scale \<Rightarrow> nat \<Rightarrow> rat" where
  "tick_value s i = sc_min s + (sc_max s - sc_min s) * of_nat i / 3"

text \<open>A tick: its height and the text of the left and, with two metrics, of the right axis. Without a metric reading the
  scale throws.\<close>

definition line_ticks :: "rat \<Rightarrow> ChartMetric list \<Rightarrow> (rat \<times> string \<times> string option) list option" where
  "line_ticks height metrics = (case metrics of [] \<Rightarrow> None
   | m # ms \<Rightarrow> Some (map (\<lambda>i.
       (let v = tick_value (metric_scale m) i in
        (line_y (metric_scale m) height v, mt_fmt m v,
         case ms of [] \<Rightarrow> None | m' # _ \<Rightarrow> Some (mt_fmt m' (tick_value (metric_scale m') i))))) [0..<4]))"

definition line_dots :: "rat \<Rightarrow> nat \<Rightarrow> chart_line \<Rightarrow> (rat \<times> rat) list" where
  "line_dots w n l =
     (if line_step w n \<ge> 10
      then map (\<lambda>i. (line_x w n i, ln_y l (the (ln_s l ! i)))) (filter (\<lambda>i. ln_s l ! i \<noteq> None) [0..<length (ln_s l)])
      else [])"

definition end_labels :: "ChartMetric list \<Rightarrow> chart_line list \<Rightarrow> rat \<Rightarrow> nat \<Rightarrow> (rat \<times> rat \<times> string) list" where
  "end_labels metrics lns w n =
     (if dual metrics then []
      else concat (map (\<lambda>i. let l = lns ! i; others = map (\<lambda>j. ln_s (lns ! j)) (filter (\<lambda>j. j \<noteq> i) [0..<length lns]) in
        case end_label (ln_s l) others of None \<Rightarrow> []
        | Some (j, v) \<Rightarrow> [(line_x w n j + 8, ln_y l v + 4, ln_fmt l v)]) [0..<length lns]))"

definition tip_w :: "ChartMetric list \<Rightarrow> rat" where
  "tip_w metrics = (if dual metrics then 190 else 160)"

definition tip_h :: "ChartMetric list \<Rightarrow> chart_line list \<Rightarrow> rat" where
  "tip_h metrics lns = 28 + of_nat (length lns) * 16 + (if dual metrics then 2 * 16 else 0)"

definition tip_x :: "rat \<Rightarrow> nat \<Rightarrow> ChartMetric list \<Rightarrow> nat \<Rightarrow> rat" where
  "tip_x w n metrics hover =
     clamp (pad_left LINE_PAD + tip_w metrics / 2) (w - pad_right LINE_PAD - tip_w metrics / 2) (line_x w n hover)"

text \<open>A row of the tooltip: the title above it, if any, with its position, its own position, label and value. \<open>rowY\<close> is
  the variable that the rendering advances.\<close>

record tip_row =
  tr_title :: "(rat \<times> string) option"
  tr_y :: rat
  tr_label :: string
  tr_value :: string

fun tip_rows :: "(string \<Rightarrow> nat \<Rightarrow> string) \<Rightarrow> ChartMetric list \<Rightarrow> nat \<Rightarrow> rat \<Rightarrow> chart_line list \<Rightarrow> tip_row list" where
  "tip_rows slice metrics hover rowY [] = []"
| "tip_rows slice metrics hover rowY (l # ls) =
     (let titled = dual metrics \<and> ln_is_base l;
          title = (if titled then Some (rowY + 16, mt_title (metrics ! ln_mi l) @ (if ln_mi l \<noteq> 0 then '' (right)'' else [])) else None);
          ry = (if titled then rowY + 16 else rowY) + 16;
          v = (if hover < length (ln_s l) then ln_s l ! hover else None) in
      \<lparr>tr_title = title, tr_y = ry, tr_label = short_label (ln_label l) slice,
        tr_value = (case v of None \<Rightarrow> em_dash | Some x \<Rightarrow> ln_fmt l x)\<rparr> # tip_rows slice metrics hover ry ls)"

definition line_tooltip ::
  "(string \<Rightarrow> nat \<Rightarrow> string) \<Rightarrow> string \<Rightarrow> string \<Rightarrow> rat \<Rightarrow> ChartMetric list \<Rightarrow> nat \<Rightarrow> tip_row list" where
  "line_tooltip slice baseLabel candidateLabel height metrics hover =
     tip_rows slice metrics hover 20 (chart_lines baseLabel candidateLabel height metrics)"

definition share_pct_text :: "int \<Rightarrow> int \<Rightarrow> string" where
  "share_pct_text n tot = int_str (math_round (of_int n / of_int (if tot = 0 then 1 else tot) * 100)) @ ''%''"

definition traffic_other :: "int \<Rightarrow> int \<Rightarrow> int \<Rightarrow> int" where
  "traffic_other tot base candidate = max 0 (tot - base - candidate)"

definition traffic_cells :: "int \<Rightarrow> int \<Rightarrow> int \<Rightarrow> int list" where
  "traffic_cells tot base candidate = filter (\<lambda>n. n > 0) [traffic_other tot base candidate, base, candidate]"

subsection \<open>Properties of bars and labels\<close>

lemma inner_w_pos [simp]: "0 < inner_w p w"
  by (simp add: inner_w_def)

lemma cost_gap_pos: "0 < n \<Longrightarrow> 0 < cost_gap w n"
  by (simp add: cost_gap_def)

lemma cost_max_pos: "\<forall>d\<in>set series. 0 \<le> cp_value d \<Longrightarrow> 0 < cost_max series"
  and cost_max_ge: "\<forall>d\<in>set series. 0 \<le> cp_value d \<Longrightarrow> d \<in> set series \<Longrightarrow> cp_value d \<le> cost_max series"
proof -
  assume nn: "\<forall>d\<in>set series. 0 \<le> cp_value d"
  have le: "cp_value d \<le> Max (set (map cp_value series))" if "d \<in> set series" for d using that by simp
  have M: "0 \<le> Max (set (map cp_value series))" if "series \<noteq> []"
    using nn that le [of "hd series"] by (metis hd_in_set order_trans)
  then show "0 < cost_max series" by (auto simp: cost_max_def Let_def)
  assume d: "d \<in> set series"
  then have "series \<noteq> []" by auto
  with le [OF d] M nn show "cp_value d \<le> cost_max series" by (auto simp: cost_max_def Let_def)
qed

lemma label_step_gap: "0 < gap \<Longrightarrow> px \<le> of_int (label_step px gap) * gap"
proof -
  assume g: "0 < gap"
  have "px / gap \<le> of_int (ceiling (px / gap))" by (rule le_of_int_ceiling)
  also have "\<dots> \<le> of_int (label_step px gap)" by (simp add: label_step_def)
  finally show ?thesis using g by (simp add: pos_divide_le_eq)
qed

lemma labels_apart:
  assumes "0 < gap" "i < j" "has_label px gap i" "has_label px gap j" "0 \<le> px"
  shows "px \<le> of_nat j * gap - of_nat i * gap"
proof -
  have pos: "0 < label_step px gap" by (simp add: label_step_def)
  have "int j mod label_step px gap = int i mod label_step px gap" using assms(3,4) by (simp add: has_label_def)
  then have "label_step px gap dvd int j - int i" by (rule mod_eq_dvd_iff [THEN iffD1])
  then have "label_step px gap \<le> int j - int i" using assms(2) by (intro zdvd_imp_le) simp_all
  then have "of_int (label_step px gap) * gap \<le> of_int (int j - int i) * gap"
    using assms(1) by (intro mult_right_mono) (simp_all only: of_int_le_iff less_imp_le)
  with label_step_gap [OF assms(1), of px] show ?thesis by (simp add: left_diff_distrib)
qed

text \<open>A bar fills the middle of its slot, with the height in proportion to the greatest cost.\<close>

definition bar_rise :: "CostPoint list \<Rightarrow> rat \<Rightarrow> nat \<Rightarrow> rat" where
  "bar_rise series height i = cp_value (series ! i) / cost_max series * inner_h COST_PAD height"

lemma cost_bar_sel:
  fixes series markers w height
  defines "b \<equiv> cost_bar series w height markers" and "gap \<equiv> cost_gap w (length series)"
  shows "bar_x (b i) = 56 + of_nat i * gap + gap * (9 / 40)" "bar_w (b i) = gap * (11 / 20)"
    "bar_y (b i) = height - 32 - bar_rise series height i" "bar_h (b i) = max 2 (bar_rise series height i)"
    "bar_label (b i) \<noteq> None \<longleftrightarrow> has_label 34 gap i"
  by (simp_all add: b_def gap_def cost_bar_def bar_rise_def inner_h_def COST_PAD_def Let_def)

lemma bar_rise_bounds:
  assumes "\<forall>d\<in>set series. 0 \<le> cp_value d" "52 \<le> height" "i < length series"
  shows "0 \<le> bar_rise series height i" "bar_rise series height i \<le> height - 52"
proof -
  have ih: "inner_h COST_PAD height = height - 52" "0 \<le> height - 52" using assms(2) by (simp_all add: inner_h_def COST_PAD_def)
  have v: "0 \<le> cp_value (series ! i)" "cp_value (series ! i) \<le> cost_max series"
    using assms(1,3) cost_max_ge [OF assms(1)] by simp_all
  have "0 \<le> cp_value (series ! i) / cost_max series" "cp_value (series ! i) / cost_max series \<le> 1"
    using v cost_max_pos [OF assms(1)] by simp_all
  then show "0 \<le> bar_rise series height i" "bar_rise series height i \<le> height - 52"
    unfolding bar_rise_def ih(1) using ih(2) by (simp_all only: mult_nonneg_nonneg mult_left_le_one_le)
qed

lemma bar_rise_mono:
  assumes "\<forall>d\<in>set series. 0 \<le> cp_value d" "52 \<le> height" "cp_value (series ! i) \<le> cp_value (series ! j)"
  shows "bar_rise series height i \<le> bar_rise series height j"
  unfolding bar_rise_def using assms(2,3) cost_max_pos [OF assms(1)]
  by (intro mult_right_mono divide_right_mono) (simp_all add: inner_h_def COST_PAD_def)

lemma slot_order: "0 < gap \<Longrightarrow> i < j \<Longrightarrow> of_nat i * gap + gap \<le> of_nat j * (gap :: rat)"
proof -
  assume "0 < gap" "i < j"
  then have "of_nat (Suc i) * gap \<le> of_nat j * gap" by (intro mult_right_mono) (simp_all only: of_nat_le_iff less_imp_le Suc_leI)
  then show ?thesis by (simp add: algebra_simps)
qed

lemma bar_rise_less:
  assumes "\<forall>d\<in>set series. 0 \<le> cp_value d" "52 < height"
  shows "bar_rise series height i < bar_rise series height j \<longleftrightarrow> cp_value (series ! i) < cp_value (series ! j)"
proof -
  have "0 < inner_h COST_PAD height" using assms(2) by (simp add: inner_h_def COST_PAD_def)
  then show ?thesis unfolding bar_rise_def using cost_max_pos [OF assms(1)] by (simp add: mult_less_cancel_right divide_less_cancel)
qed

text \<open>C20. The bars of the cost chart fit their plot: for costs that are not negative every bar lies between the left and the right padding,
  starts at or below the top and at or above the base line, and ends on the base line; only a bar that would be lower than two
  pixels is made two pixels high and ends at most that much below it. The dearer of two costs has the higher top. Bars follow each other
  without touching, and the labels that are drawn are at least 34 pixels apart.\<close>

theorem cost_bars_in_plot:
  assumes "\<forall>d\<in>set series. 0 \<le> cp_value d" "52 < height" "i < length series" "j < length series"
    and "bi = cost_bar series w height markers i" "bj = cost_bar series w height markers j"
  shows "pad_left COST_PAD \<le> bar_x bi \<and> bar_x bi + bar_w bi \<le> pad_left COST_PAD + inner_w COST_PAD w \<and>
    pad_top COST_PAD \<le> bar_y bi \<and> bar_y bi \<le> height - pad_bottom COST_PAD \<and>
    (bar_y bi + bar_h bi = height - pad_bottom COST_PAD \<or> bar_h bi = 2 \<and> bar_y bi + bar_h bi \<le> height - pad_bottom COST_PAD + 2) \<and>
    (cp_value (series ! i) < cp_value (series ! j) \<longleftrightarrow> bar_y bj < bar_y bi) \<and>
    (i < j \<longrightarrow> bar_x bi + bar_w bi < bar_x bj \<and>
       (bar_label bi \<noteq> None \<and> bar_label bj \<noteq> None \<longrightarrow> 34 \<le> bar_x bj - bar_x bi))"
proof -
  define gap where "gap = cost_gap w (length series)"
  have n: "0 < length series" using assms(3) by linarith
  have gap: "0 < gap" "of_nat (length series) * gap = inner_w COST_PAD w"
    using cost_gap_pos [OF n, of w] n by (simp_all add: gap_def cost_gap_def)
  note sel = cost_bar_sel [where w = w and series = series and height = height and markers = markers, folded gap_def assms(5,6)]
  note x = sel(1) [of i, folded assms(5)] sel(1) [of j, folded assms(6)] sel(2) [of i, folded assms(5)] sel(2) [of j, folded assms(6)]
    and y = sel(3) [of i, folded assms(5)] sel(3) [of j, folded assms(6)] sel(4) [of i, folded assms(5)]
    and lab = sel(5) [of i, folded assms(5)] sel(5) [of j, folded assms(6)]
  note rise = bar_rise_bounds [OF assms(1) less_imp_le [OF assms(2)] assms(3)]
  have i0: "0 \<le> of_nat i * gap" using gap by simp
  have "pad_left COST_PAD \<le> bar_x bi" unfolding x using gap i0 by (simp add: COST_PAD_def)
  moreover have "bar_x bi + bar_w bi \<le> pad_left COST_PAD + inner_w COST_PAD w"
    unfolding x gap(2) [symmetric] using slot_order [OF gap(1) assms(3)] gap(1) by (simp add: COST_PAD_def)
  moreover have "pad_top COST_PAD \<le> bar_y bi" "bar_y bi \<le> height - pad_bottom COST_PAD"
    "bar_y bi + bar_h bi = height - pad_bottom COST_PAD \<or> bar_h bi = 2 \<and> bar_y bi + bar_h bi \<le> height - pad_bottom COST_PAD + 2"
    unfolding y using rise by (auto simp: COST_PAD_def max_def)
  moreover have "cp_value (series ! i) < cp_value (series ! j) \<longleftrightarrow> bar_y bj < bar_y bi"
    unfolding y using bar_rise_less [OF assms(1,2), of i j] by simp
  moreover have "bar_x bi + bar_w bi < bar_x bj" if "i < j" unfolding x using slot_order [OF gap(1) that] gap(1) by simp
  moreover have "bar_label bi \<noteq> None \<and> bar_label bj \<noteq> None \<longrightarrow> 34 \<le> bar_x bj - bar_x bi" if "i < j"
    unfolding lab x using labels_apart [OF gap(1) that, of 34] by simp
  ultimately show ?thesis by blast
qed

theorem cost_bars_in_plot_witness:
  "bar_x (cost_bar [\<lparr>cp_label = ''a'', cp_value = 1\<rparr>, \<lparr>cp_label = ''b'', cp_value = 3\<rparr>] 400 220 ([] :: unit ChartMarker list) 0) + 1 / 2 <
   bar_x (cost_bar [\<lparr>cp_label = ''a'', cp_value = 1\<rparr>, \<lparr>cp_label = ''b'', cp_value = 3\<rparr>] 400 220 ([] :: unit ChartMarker list) 1)"
proof -
  let ?s = "[\<lparr>cp_label = ''a'', cp_value = 1\<rparr>, \<lparr>cp_label = ''b'', cp_value = 3\<rparr>]"
  have "\<forall>d\<in>set ?s. 0 \<le> cp_value d" "(52 :: rat) < 220" "0 < length ?s" "1 < length ?s" by simp_all
  note p = cost_bars_in_plot [OF this refl refl, of 400 "[] :: unit ChartMarker list"]
  have "bar_w (cost_bar ?s 400 220 ([] :: unit ChartMarker list) 0) = 168 * (11 / 20)"
    by (simp add: cost_bar_sel cost_gap_def inner_w_def COST_PAD_def)
  with p show ?thesis by simp
qed

subsection \<open>Properties of flags\<close>

lemma collides_sym: "collides k f = collides f k"
  by (auto simp: collides_def abs_minus_commute add.commute)

lemma keep_flags_apart:
  fixes xOf :: "'e ChartMarker \<Rightarrow> rat"
  defines "pos \<equiv> \<lambda>m. (xOf m, flag_half m)"
  shows "sorted_wrt (\<lambda>a b. \<not> collides (pos a) (pos b)) (keep_flags xOf kept ms) \<and>
    (\<forall>m\<in>set (keep_flags xOf kept ms). m \<in> set ms \<and> (\<forall>k\<in>set kept. \<not> collides k (pos m)))"
proof (induction ms arbitrary: kept)
  case (Cons m ms)
  show ?case
  proof (cases "\<exists>k\<in>set kept. collides k (pos m)")
    case True
    with Cons.IH [of kept] show ?thesis by (simp add: pos_def)
  next
    case False
    with Cons.IH [of "kept @ [pos m]"] show ?thesis by (auto simp: pos_def)
  qed
qed simp

lemma keep_flags_dropped:
  fixes xOf :: "'e ChartMarker \<Rightarrow> rat"
  defines "pos \<equiv> \<lambda>m. (xOf m, flag_half m)"
  assumes "sorted_wrt (\<lambda>a b. cm_index b \<le> cm_index a) ms" "m \<in> set ms" "m \<notin> set (keep_flags xOf kept ms)"
  shows "(\<exists>k\<in>set kept. collides k (pos m)) \<or>
    (\<exists>k\<in>set (keep_flags xOf kept ms). cm_index m \<le> cm_index k \<and> collides (pos k) (pos m))"
  using assms(2-)
proof (induction ms arbitrary: kept)
  case (Cons a ms)
  show ?case
  proof (cases "\<exists>k\<in>set kept. collides k (pos a)")
    case True
    then have keep: "keep_flags xOf kept (a # ms) = keep_flags xOf kept ms" by (simp add: pos_def)
    show ?thesis
    proof (cases "m = a")
      case False
      with Cons.prems Cons.IH [of kept] show ?thesis unfolding keep by simp
    qed (use True in simp)
  next
    case False
    then have keep: "keep_flags xOf kept (a # ms) = a # keep_flags xOf (kept @ [pos a]) ms" by (simp add: pos_def)
    then have m: "m \<in> set ms" "m \<notin> set (keep_flags xOf (kept @ [pos a]) ms)" using Cons.prems by auto
    with Cons.prems Cons.IH [of "kept @ [pos a]"] show ?thesis unfolding keep by auto
  qed
qed simp

interpretation newest: comparator "\<lambda>a b. int (cm_index b) - int (cm_index a)"
  by (rule comparator_key_desc)

text \<open>C21. The flags of the cost chart never cover each other and only give way to more recent ones: the flags shown are
  markers of the chart, pairwise apart by the room of their labels, and a flag that is left out would collide with one
  shown for the same or a later bucket.\<close>

theorem flags_never_overlap:
  fixes xOf :: "'e ChartMarker \<Rightarrow> rat"
  shows "set (withoutOverlap xOf markers) \<subseteq> set markers \<and>
    sorted_wrt (\<lambda>a b. \<bar>xOf a - xOf b\<bar> \<ge> flag_half a + flag_half b + 6) (withoutOverlap xOf markers) \<and>
    (m \<in> set markers \<and> m \<notin> set (withoutOverlap xOf markers) \<longrightarrow>
      (\<exists>k\<in>set (withoutOverlap xOf markers). cm_index m \<le> cm_index k \<and> \<bar>xOf k - xOf m\<bar> < flag_half k + flag_half m + 6))"
proof -
  define ms where "ms = js_sort (\<lambda>a b. int (cm_index b) - int (cm_index a)) markers"
  have set_ms: "set ms = set markers" by (simp add: ms_def)
  have "sorted_wrt (\<lambda>a b. int (cm_index b) - int (cm_index a) \<le> 0) ms" unfolding ms_def by (rule newest.sorted_sort)
  then have srt: "sorted_wrt (\<lambda>a b. cm_index b \<le> cm_index a) ms" by simp
  note apart = keep_flags_apart [of xOf "[]" ms] and dropped = keep_flags_dropped [OF srt, of m xOf "[]"]
  have "withoutOverlap xOf markers = keep_flags xOf [] ms" by (simp add: withoutOverlap_def ms_def)
  then show ?thesis using apart dropped set_ms by (auto simp: collides_def not_less)
qed

definition flag_at :: "nat \<Rightarrow> string \<Rightarrow> unit ChartMarker" where
  "flag_at i l = \<lparr>cm_index = i, cm_color = ''c'', cm_label = Some l, cm_onClick = None\<rparr>"

theorem flags_never_overlap_witness:
  "cm_index (hd (withoutOverlap (\<lambda>m. of_nat (cm_index m) * 10) [flag_at 1 ''a'', flag_at 3 ''b''])) = 3"
proof -
  let ?x = "\<lambda>m :: unit ChartMarker. of_nat (cm_index m) * 10 :: rat" and ?ms = "[flag_at 1 ''a'', flag_at 3 ''b'']"
  have w: "withoutOverlap ?x ?ms = [flag_at 3 ''b'']"
    by (simp add: withoutOverlap_def js_sort_def flag_at_def collides_def flag_half_def)
  have "flag_at 1 ''a'' \<notin> set (withoutOverlap ?x ?ms)" unfolding w by (simp add: flag_at_def)
  then obtain k where "k \<in> set (withoutOverlap ?x ?ms)" "cm_index (flag_at 1 ''a'') \<le> cm_index k"
    using flags_never_overlap [of ?x ?ms "flag_at 1 ''a''"] by auto
  then have "k = flag_at 3 ''b''" unfolding w by simp
  then show ?thesis unfolding w by (simp add: flag_at_def)
qed

subsection \<open>Properties of lines\<close>

text \<open>The buckets from \<open>a\<close> up to \<open>b\<close> are a longest run of buckets with a value.\<close>

definition maximal_run :: "'v option list \<Rightarrow> nat \<Rightarrow> nat \<Rightarrow> bool" where
  "maximal_run data a b \<longleftrightarrow> a < b \<and> b \<le> length data \<and> (\<forall>i\<in>{a..<b}. data ! i \<noteq> None) \<and>
     (a = 0 \<or> data ! (a - 1) = None) \<and> (b = length data \<or> data ! b = None)"

definition run_points :: "(nat \<Rightarrow> 'v \<Rightarrow> 'p) \<Rightarrow> 'v option list \<Rightarrow> nat \<times> nat \<Rightarrow> 'p list" where
  "run_points mk data = (\<lambda>(a, b). map (\<lambda>i. mk i (the (data ! i))) [a..<b])"

lemma run_points_Nil [simp]: "run_points mk data (a, b) = [] \<longleftrightarrow> \<not> a < b"
  by (auto simp: run_points_def)

text \<open>What the loop has found before index \<open>i\<close>: the runs that began before \<open>a\<close>, and the run under way from \<open>a\<close>.\<close>

definition scanned :: "'v option list \<Rightarrow> nat \<Rightarrow> nat \<Rightarrow> (nat \<times> nat) list \<Rightarrow> bool" where
  "scanned data a i runs \<longleftrightarrow> a \<le> i \<and> i \<le> length data \<and> (\<forall>k\<in>{a..<i}. data ! k \<noteq> None) \<and> (a = 0 \<or> data ! (a - 1) = None) \<and>
     set runs = {(x, y). maximal_run data x y \<and> x < a} \<and> sorted_wrt (\<lambda>r s. snd r < fst s) runs"

lemma maximal_run_before:
  assumes "maximal_run data x y" "x < a" "a = 0 \<or> data ! (a - 1) = None"
  shows "y < a"
proof (rule ccontr)
  assume "\<not> y < a"
  then have "a - 1 \<in> {x..<y}" using assms(2) by auto
  moreover have "\<forall>i\<in>{x..<y}. data ! i \<noteq> None" using assms(1) by (simp add: maximal_run_def)
  ultimately have "data ! (a - 1) \<noteq> None" by blast
  then show False using assms(2,3) by simp
qed

lemma maximal_run_unique:
  assumes "maximal_run data x y" "a \<le> x" "\<forall>k\<in>{a..<i}. data ! k \<noteq> None" "x \<le> i" "i \<le> length data" "i = length data \<or> data ! i = None"
  shows "x = a \<and> y = i \<and> a < i"
proof -
  have r: "x < y" "y \<le> length data" "\<forall>k\<in>{x..<y}. data ! k \<noteq> None" "x = 0 \<or> data ! (x - 1) = None" "y = length data \<or> data ! y = None"
    using assms(1) by (simp_all add: maximal_run_def)
  have "x < i" using assms(4-6) r by (metis atLeastLessThan_iff le_neq_implies_less less_le_trans order_refl leD)
  have "x = a"
  proof (rule ccontr)
    assume "x \<noteq> a"
    then have "x - 1 \<in> {a..<i}" "x \<noteq> 0" using assms(2) \<open>x < i\<close> by auto
    then show False using assms(3) r(4) by blast
  qed
  moreover have "\<not> y < i"
  proof
    assume "y < i"
    then have "y \<in> {a..<i}" "y \<noteq> length data" using r(1) assms(2,5) by auto
    then show False using assms(3) r(5) by blast
  qed
  moreover have "\<not> i < y"
  proof
    assume "i < y"
    then have "i \<in> {x..<y}" "i \<noteq> length data" using \<open>x < i\<close> r(2) by auto
    then show False using assms(6) r(3) by blast
  qed
  ultimately show ?thesis using \<open>x < i\<close> by auto
qed

text \<open>At a gap, or at the end, the run under way is complete.\<close>

lemma scanned_close:
  assumes "scanned data a i runs" "i = length data \<or> data ! i = None"
  defines "runs' \<equiv> if a < i then runs @ [(a, i)] else runs"
  shows "set runs' = {(x, y). maximal_run data x y \<and> x \<le> i} \<and> sorted_wrt (\<lambda>r s. snd r < fst s) runs'"
proof -
  note s = assms(1) [unfolded scanned_def]
  have new: "maximal_run data x y \<and> a \<le> x \<and> x \<le> i \<longleftrightarrow> x = a \<and> y = i \<and> a < i" for x y
    using maximal_run_unique [of data x y a i] s assms(2) by (auto simp: maximal_run_def)
  have "set runs' = {(x, y). maximal_run data x y \<and> x < a} \<union> (if a < i then {(a, i)} else {})"
    using s by (auto simp: runs'_def)
  also have "\<dots> = {(x, y). maximal_run data x y \<and> x \<le> i}"
  proof (intro set_eqI)
    fix r :: "nat \<times> nat"
    obtain x y where r: "r = (x, y)" by force
    have "maximal_run data x y \<and> x \<le> i \<longleftrightarrow> maximal_run data x y \<and> x < a \<or> (x = a \<and> y = i \<and> a < i)"
      using new [of x y] s by (cases "x < a") auto
    then show "(r \<in> {(x, y). maximal_run data x y \<and> x < a} \<union> (if a < i then {(a, i)} else {})) =
        (r \<in> {(x, y). maximal_run data x y \<and> x \<le> i})" unfolding r by auto
  qed
  finally have set: "set runs' = {(x, y). maximal_run data x y \<and> x \<le> i}" .
  have "\<forall>r\<in>set runs. snd r < a" using s maximal_run_before by fastforce
  then have "sorted_wrt (\<lambda>r s. snd r < fst s) runs'" using s by (auto simp: runs'_def sorted_wrt_append)
  with set show ?thesis ..
qed

lemma seg_loop_runs:
  assumes "scanned data a i runs" "ds = drop i data"
    and "seg = run_points mk data (a, i)" "segs = map (run_points mk data) runs"
  shows "\<exists>all. seg_loop mk i seg segs ds = map (run_points mk data) all \<and>
    set all = {(x, y). maximal_run data x y} \<and> sorted_wrt (\<lambda>r s. snd r < fst s) all"
  using assms
proof (induction mk i seg segs ds arbitrary: a runs rule: seg_loop.induct)
  case (1 mk i seg segs)
  have s: "i = length data" using 1(1,2) by (auto simp: scanned_def)
  have "{(x, y). maximal_run data x y \<and> x \<le> i} = {(x, y). maximal_run data x y}" by (auto simp: s maximal_run_def)
  with scanned_close [OF 1(1)] s show ?case
    by (intro exI [of _ "if a < i then runs @ [(a, i)] else runs"]) (simp add: 1(3,4))
next
  case (2 mk i seg segs ds)
  have i: "i < length data" "data ! i = None" "ds = drop (Suc i) data"
    using 2(3) by (metis drop_eq_Nil leI list.distinct(1), metis drop_eq_Nil leI list.distinct(1) nth_via_drop, metis drop_Suc list.sel(3) tl_drop)
  define runs' where "runs' = (if a < i then runs @ [(a, i)] else runs)"
  have "{(x, y). maximal_run data x y \<and> x < Suc i} = {(x, y). maximal_run data x y \<and> x \<le> i}" by auto
  then have "scanned data (Suc i) (Suc i) runs'"
    using scanned_close [OF 2(2) disjI2 [OF i(2)]] i by (simp add: scanned_def runs'_def)
  moreover have "(if seg \<noteq> [] then segs @ [seg] else segs) = map (run_points mk data) runs'"
    using 2(4,5) by (auto simp: runs'_def run_points_def)
  ultimately show ?case using 2(1) [of "Suc i" runs'] i by (simp add: run_points_def)
next
  case (3 mk i seg segs v ds)
  have i: "i < length data" "data ! i = Some v" "ds = drop (Suc i) data"
    using 3(3) by (metis drop_eq_Nil leI list.distinct(1), metis drop_eq_Nil leI list.distinct(1) nth_via_drop, metis drop_Suc list.sel(3) tl_drop)
  have "scanned data a (Suc i) runs" using 3(2) i by (auto simp: scanned_def less_Suc_eq)
  moreover have "seg @ [mk i v] = run_points mk data (a, Suc i)" using 3(2,4) i by (simp add: run_points_def scanned_def)
  ultimately show ?case using 3(1) [of a runs] 3(5) i by simp
qed

lemma segments_runs:
  "\<exists>runs. segmentsOf mk data = map (run_points mk data) runs \<and> set runs = {(a, b). maximal_run data a b} \<and>
     sorted_wrt (\<lambda>r s. snd r < fst s) runs"
proof -
  have "scanned data 0 0 []" by (auto simp: scanned_def)
  from seg_loop_runs [OF this, of data "[]" mk "[]"] show ?thesis by (simp add: segmentsOf_def run_points_def [of mk data])
qed

lemma run_start: "data ! i \<noteq> None \<Longrightarrow> \<exists>a\<le>i. (\<forall>k\<in>{a..i}. data ! k \<noteq> None) \<and> (a = 0 \<or> data ! (a - 1) = None)"
proof (induction i)
  case (Suc i)
  show ?case
  proof (cases "data ! i = None")
    case False
    from Suc.IH [OF this] obtain a where "a \<le> i" "\<forall>k\<in>{a..i}. data ! k \<noteq> None" "a = 0 \<or> data ! (a - 1) = None" by blast
    with Suc.prems show ?thesis by (intro exI [of _ a]) (simp add: atLeastAtMostSuc_conv)
  qed (use Suc.prems in \<open>auto intro: exI [of _ "Suc i"]\<close>)
qed auto

lemma run_end:
  "i < length data \<Longrightarrow> data ! i \<noteq> None \<Longrightarrow>
     \<exists>b>i. b \<le> length data \<and> (\<forall>k\<in>{i..<b}. data ! k \<noteq> None) \<and> (b = length data \<or> data ! b = None)"
proof (induction "length data - i" arbitrary: i)
  case (Suc n)
  show ?case
  proof (cases "Suc i = length data \<or> data ! Suc i = None")
    case True
    have "{i..<Suc i} = {i}" by auto
    with True Suc.prems show ?thesis by (intro exI [of _ "Suc i"]) simp
  next
    case False
    then have "Suc i < length data" "data ! Suc i \<noteq> None" "n = length data - Suc i" using Suc by simp_all
    from Suc.hyps(1) [OF this(3,1,2)] obtain b where b: "Suc i < b" "b \<le> length data" "\<forall>k\<in>{Suc i..<b}. data ! k \<noteq> None"
      "b = length data \<or> data ! b = None" by blast
    moreover have "{i..<b} = insert i {Suc i..<b}" using b(1) by auto
    ultimately show ?thesis using Suc.prems by (intro exI [of _ b]) simp
  qed
qed simp

lemma run_around:
  assumes "i < length data" "data ! i = Some v"
  shows "\<exists>a b. maximal_run data a b \<and> a \<le> i \<and> i < b"
proof -
  have some: "data ! i \<noteq> None" using assms(2) by simp
  obtain a where a: "a \<le> i" "\<forall>k\<in>{a..i}. data ! k \<noteq> None" "a = 0 \<or> data ! (a - 1) = None" using run_start [OF some] by blast
  obtain b where b: "i < b" "b \<le> length data" "\<forall>k\<in>{i..<b}. data ! k \<noteq> None" "b = length data \<or> data ! b = None"
    using run_end [OF assms(1) some] by blast
  have "{a..<b} = {a..i} \<union> {i..<b}" using a(1) b(1) by auto
  then have "\<forall>k\<in>{a..<b}. data ! k \<noteq> None" using a(2) b(3) by blast
  then show ?thesis using a b by (intro exI [of _ a] exI [of _ b]) (simp add: maximal_run_def)
qed

text \<open>A line breaks exactly at the gaps: the segments of a series are its longest runs of buckets with a value, in
  order, each with the points of its buckets.\<close>

theorem segments_are_runs:
  "\<exists>runs. segmentsOf mk data = map (\<lambda>(a, b). map (\<lambda>i. mk i (the (data ! i))) [a..<b]) runs \<and>
     set runs = {(a, b). maximal_run data a b} \<and> sorted_wrt (\<lambda>r s. snd r < fst s) runs"
  using segments_runs [of mk data] by (simp add: run_points_def)

text \<open>No measured latency vanishes from the chart: every bucket with a value is in a segment of two or more points,
  which has a line, or is drawn as a dot.\<close>

theorem every_point_visible:
  assumes "i < length data" "data ! i = Some v"
  shows "mk i v \<in> set (isolatedPoints (segmentsOf mk data)) \<or>
    (\<exists>s\<in>set (segmentsOf mk data). 2 \<le> length s \<and> mk i v \<in> set s)"
proof -
  obtain runs where r: "segmentsOf mk data = map (run_points mk data) runs" "set runs = {(a, b). maximal_run data a b}"
    using segments_runs [of mk data] by blast
  obtain a b where ab: "maximal_run data a b" "a \<le> i" "i < b" using run_around [OF assms] by blast
  define s where "s = run_points mk data (a, b)"
  have s: "s \<in> set (segmentsOf mk data)" using r ab(1) by (auto simp: s_def)
  have m: "mk i v \<in> set s" using ab(2,3) assms(2) by (force simp: s_def run_points_def)
  show ?thesis
  proof (cases "length s = 1")
    case True
    then have "hd s = mk i v" using m by (cases s) auto
    then show ?thesis using s True by (force simp: isolatedPoints_def)
  next
    case False
    moreover have "length s \<noteq> 0" using m by auto
    ultimately have "2 \<le> length s" by linarith
    then show ?thesis using s m by blast
  qed
qed

theorem every_point_visible_witness:
  "(1 :: nat, 7 :: nat) \<in> set (isolatedPoints (segmentsOf Pair [None, Some 7, None, Some 8, Some 9]))"
proof -
  have s: "segmentsOf Pair [None, Some (7 :: nat), None, Some 8, Some 9] = [[(1 :: nat, 7)], [(3, 8), (4, 9)]]"
    by (simp add: segmentsOf_def)
  have "1 < length [None, Some (7 :: nat), None, Some 8, Some 9]" "[None, Some (7 :: nat), None, Some 8, Some 9] ! 1 = Some 7" by simp_all
  from every_point_visible [OF this, of Pair] show ?thesis unfolding s by (simp add: isolatedPoints_def)
qed

text \<open>The moves of the pen for the points of a segment: to its first point, then along it.\<close>

fun segment_moves :: "(nat \<times> rat) list \<Rightarrow> pen_move list" where
  "segment_moves [] = []"
| "segment_moves ((i, v) # ps) = MoveTo i v # map (\<lambda>(i, v). LineTo i v) ps"

lemma segment_moves_snoc:
  "segment_moves (seg @ [(i, v)]) = segment_moves seg @ [if seg \<noteq> [] then LineTo i v else MoveTo i v]"
  by (cases seg rule: segment_moves.cases) simp_all

lemma seg_loop_moves:
  "concat (map segment_moves (seg_loop Pair i seg segs s)) = concat (map segment_moves segs) @ segment_moves seg @ pen_path i (seg \<noteq> []) s"
  by (induction "Pair :: nat \<Rightarrow> rat \<Rightarrow> nat \<times> rat" i seg segs s rule: seg_loop.induct) (auto simp: segment_moves_snoc)

text \<open>The two ways of drawing a line with gaps agree: the path of the version chart, written in one pass with a pen that is
  lifted at gaps, is that of the segments that the latency chart and the sparkline collect first.\<close>

theorem pen_path_segments: "pen_path 0 False s = concat (map segment_moves (segmentsOf Pair s))"
  using seg_loop_moves [of 0 "[]" "[]" s] by (simp add: segmentsOf_def)

subsection \<open>Properties of the version chart\<close>

lemma present_mem: "v \<in> set (present xs) \<longleftrightarrow> Some v \<in> set xs"
  by (force simp: present_def image_iff)

lemma line_scale_bounds:
  assumes "v \<in> set (present (base @ candidate))" "0 \<le> v"
  shows "sc_min (line_scale_of base candidate) \<le> v" "v < sc_max (line_scale_of base candidate)"
proof -
  define al where "al = present (base @ candidate)"
  define hi lo where "hi = Max (set al)" and "lo = Min (set al)"
  define spread where "spread = (if hi - lo \<noteq> 0 then hi - lo else if hi \<noteq> 0 then hi else 1)"
  have v: "lo \<le> v" "v \<le> hi" using assms(1) by (simp_all add: al_def hi_def lo_def)
  then have sp: "0 < spread" using assms(2) by (auto simp: spread_def)
  have "al \<noteq> []" using assms(1) by (auto simp: al_def)
  then have s: "line_scale_of base candidate = \<lparr>sc_max = hi + spread * (2 / 10), sc_min = max 0 (lo - spread * (5 / 10))\<rparr>"
    by (simp add: line_scale_of_def Let_def al_def hi_def lo_def spread_def)
  show "sc_min (line_scale_of base candidate) \<le> v" "v < sc_max (line_scale_of base candidate)"
    using v sp assms(2) by (simp_all add: s)
qed

lemma line_y_range:
  assumes "sc_min s \<le> v" "v < sc_max s" "52 \<le> height"
  shows "pad_top LINE_PAD \<le> line_y s height v" "line_y s height v \<le> height - pad_bottom LINE_PAD"
proof -
  define r where "r = (v - sc_min s) / (sc_max s - sc_min s)"
  have r: "0 \<le> r" "r \<le> 1" using assms by (simp_all add: r_def)
  have "0 \<le> height - 52" using assms(3) by simp
  then have "0 \<le> r * (height - 52)" "r * (height - 52) \<le> height - 52" using r by (simp_all only: mult_nonneg_nonneg mult_left_le_one_le)
  moreover have "line_y s height v = height - 32 - r * (height - 52)"
    using assms(1,2) by (simp add: line_y_def r_def inner_h_def LINE_PAD_def Let_def)
  ultimately show "pad_top LINE_PAD \<le> line_y s height v" "line_y s height v \<le> height - pad_bottom LINE_PAD"
    by (simp_all add: LINE_PAD_def)
qed

lemma line_x_range:
  assumes "i < n"
  shows "pad_left LINE_PAD < line_x w n i" "line_x w n i < pad_left LINE_PAD + inner_w LINE_PAD w"
proof -
  have n: "0 < line_step w n" "of_nat n * line_step w n = inner_w LINE_PAD w" using assms by (simp_all add: line_step_def)
  have "of_nat i * line_step w n + line_step w n \<le> of_nat n * line_step w n" using slot_order [OF n(1) assms] .
  moreover have "0 \<le> of_nat i * line_step w n" using n(1) by simp
  ultimately show "pad_left LINE_PAD < line_x w n i" "line_x w n i < pad_left LINE_PAD + inner_w LINE_PAD w"
    using n by (simp_all add: line_x_def distrib_right add_nonneg_pos)
qed

text \<open>The lines of the version chart stay in their plot: every point of a metric without negative values, for a bucket of
  the axis, is drawn between the paddings, whatever the values and the measured width.\<close>

theorem lines_in_plot:
  assumes "Some v \<in> set (mt_base m @ mt_candidate m)" "0 \<le> v" "52 \<le> height" "i < n"
  shows "pad_left LINE_PAD < line_x w n i \<and> line_x w n i < pad_left LINE_PAD + inner_w LINE_PAD w \<and>
    pad_top LINE_PAD \<le> line_y (metric_scale m) height v \<and> line_y (metric_scale m) height v \<le> height - pad_bottom LINE_PAD"
  using line_x_range [OF assms(4)] line_y_range [OF _ _ assms(3), of "metric_scale m" v]
    line_scale_bounds [OF _ assms(2), of "mt_base m" "mt_candidate m"] assms(1)
  by (simp add: metric_scale_def present_mem)

theorem lines_in_plot_witness:
  "line_y (line_scale_of [Some 3, None] [Some 5]) 240 5 \<ge> 20"
proof -
  define m where "m = \<lparr>mt_title = ''Cost'', mt_base = [Some 3, None], mt_candidate = [Some 5], mt_fmt = to_fixed 2\<rparr>"
  have "Some 5 \<in> set (mt_base m @ mt_candidate m)" by (simp add: m_def)
  from lines_in_plot [OF this, of 240 0 2] show ?thesis by (simp add: metric_scale_def m_def LINE_PAD_def)
qed

text \<open>A row takes 16 pixels, and 16 more for the title above it.\<close>

lemma tip_rows_y:
  "map tr_y (tip_rows slice metrics hover rowY ls) =
     map (\<lambda>k. rowY + 16 * of_nat (k + 1 + length (filter (\<lambda>l. dual metrics \<and> ln_is_base l) (take (k + 1) ls)))) [0..<length ls]"
proof (induction ls arbitrary: rowY)
  case (Cons l ls)
  have "[0..<length (l # ls)] = 0 # map Suc [0..<length ls]" by (simp add: map_Suc_upt upt_conv_Cons del: upt_Suc)
  then show ?case by (simp add: Cons.IH Let_def algebra_simps del: upt_Suc)
qed simp

lemma chart_lines_length [simp]: "length (chart_lines bl cl height metrics) = 2 * length metrics"
proof -
  have "sum_list (map (\<lambda>_. Suc (Suc 0)) ks) = 2 * length ks" for ks :: "nat list" by (induction ks) auto
  then show ?thesis by (simp add: chart_lines_def length_concat Let_def comp_def)
qed

lemma chart_lines_bases: "length (filter ln_is_base (chart_lines bl cl height metrics)) = length metrics"
proof -
  have "sum_list (map (\<lambda>_. Suc 0) ks) = length ks" for ks :: "nat list" by (induction ks) auto
  then show ?thesis by (simp add: chart_lines_def filter_concat length_concat Let_def comp_def)
qed

text \<open>The rows of the tooltip fit its box: with one or two metrics the tooltip has a row for each line, at least 16 pixels
  apart, and the last one ends eight pixels above the bottom of the box.\<close>

theorem tooltip_rows_fit:
  assumes "metrics \<noteq> []" "length metrics \<le> 2"
    and "ys = map tr_y (line_tooltip slice bl cl height metrics hover)"
  shows "length ys = 2 * length metrics \<and> sorted_wrt (\<lambda>a b. a + 16 \<le> b) ys \<and>
    36 \<le> hd ys \<and> List.last ys = tip_h metrics (chart_lines bl cl height metrics) - 8"
proof -
  define ls where "ls = chart_lines bl cl height metrics"
  define t where "t k = length (filter (\<lambda>l. dual metrics \<and> ln_is_base l) (take k ls))" for k
  have ys: "ys = map (\<lambda>k. 20 + 16 * of_nat (k + 1 + t (k + 1))) [0..<length ls]"
    unfolding assms(3) line_tooltip_def tip_rows_y t_def ls_def ..
  have n: "length ls = 2 * length metrics" "0 < length ls" using assms(1) by (simp_all add: ls_def)
  have mono: "t a \<le> t b" if "a \<le> b" for a b
    unfolding t_def using that by (metis min.absorb1 take_take length_append filter_append append_take_drop_id le_add1)
  have len: "length ys = 2 * length metrics" unfolding ys using n by simp
  have srt: "sorted_wrt (\<lambda>a b. a + 16 \<le> b) ys"
  proof (unfold sorted_wrt_iff_nth_less, intro allI impI)
    fix i j assume ij: "i < j" "j < length ys"
    then have "i + 1 + t (i + 1) + 1 \<le> j + 1 + t (j + 1)" using mono [of "i + 1" "j + 1"] by linarith
    then have "(of_nat (i + 1 + t (i + 1) + 1) :: rat) \<le> of_nat (j + 1 + t (j + 1))" by (simp only: of_nat_le_iff)
    then show "ys ! i + 16 \<le> ys ! j" using ij by (simp add: ys)
  qed
  have "hd ys = 20 + 16 * of_nat (1 + t 1)" unfolding ys using n by (simp add: hd_map)
  then have hd: "36 \<le> hd ys" by simp
  have all: "t (length ls) = (if dual metrics then 2 else 0)"
    using chart_lines_bases [of bl cl height metrics] assms(2) by (auto simp: t_def ls_def dual_def)
  have "List.last ys = 20 + 16 * of_nat (length ls + t (length ls))"
    unfolding ys using n by (simp add: last_map del: of_nat_add of_nat_Suc)
  then have "List.last ys = tip_h metrics ls - 8" unfolding all by (simp add: tip_h_def)
  with len srt hd show ?thesis unfolding ls_def by blast
qed

definition metric_of :: "series \<Rightarrow> series \<Rightarrow> ChartMetric" where
  "metric_of b c = \<lparr>mt_title = ''Cost'', mt_base = b, mt_candidate = c, mt_fmt = to_fixed 2\<rparr>"

theorem tooltip_rows_fit_witness:
  "length (line_tooltip (\<lambda>s _. s) ''v1'' ''v2'' 240 [metric_of [Some 3] [None], metric_of [] [Some 1]] 0) = 4"
proof -
  have "[metric_of [Some 3] [None], metric_of [] [Some 1]] \<noteq> []" "length [metric_of [Some 3] [None], metric_of [] [Some 1]] \<le> 2" by simp_all
  from tooltip_rows_fit [OF this refl, of "\<lambda>s _. s" "''v1''" "''v2''" 240 0] show ?thesis by simp
qed

text \<open>The last bucket with a value carries the end label.\<close>

lemma last_from_spec:
  "k \<le> length s \<Longrightarrow> last_from s k = (if \<forall>i<k. s ! i = None then - 1 else int (GREATEST i. i < k \<and> s ! i \<noteq> None))"
proof (induction k)
  case (Suc k)
  show ?case
  proof (cases "s ! k = None")
    case True
    then have "(i < Suc k \<and> s ! i \<noteq> None) \<longleftrightarrow> (i < k \<and> s ! i \<noteq> None)" for i by (auto simp: less_Suc_eq)
    moreover have "(\<forall>i<Suc k. s ! i = None) \<longleftrightarrow> (\<forall>i<k. s ! i = None)" using True by (auto simp: less_Suc_eq)
    moreover have "last_from s (Suc k) = last_from s k" using True by simp
    ultimately show ?thesis using Suc by simp
  next
    case False
    have "(GREATEST i. i < Suc k \<and> s ! i \<noteq> None) = k" using False by (intro Greatest_equality) auto
    then show ?thesis using False Suc.prems by auto
  qed
qed simp

text \<open>The parts of a traffic bar make up the runs of the bucket, whenever the two versions are among them.\<close>

lemma traffic_cells_total:
  assumes "0 \<le> base" "0 \<le> candidate" "base + candidate \<le> tot"
  shows "sum_list (traffic_cells tot base candidate) = tot"
  using assms by (simp add: traffic_cells_def traffic_other_def)

subsection \<open>Where the charts show less than their data\<close>

text \<open>A pointer that rests on a bar while the series is replaced by a shorter one leaves an index without a point, which the
  tooltip of the costs reads.\<close>

lemma cost_tooltip_out_of_series: "cost_tooltip series w height hover = None \<longleftrightarrow> length series \<le> hover"
  by (auto simp: cost_tooltip_def Let_def)

text \<open>When every 99th percentile is zero the scale of the latency chart is zero and no point has a position.\<close>

lemma latency_all_zero:
  assumes "\<forall>d\<in>set series. lp_p99 d = Some 0" "series \<noteq> []"
  shows "latency_y series height v = NotANumber"
proof -
  have "present (map lp_p99 series) = map (\<lambda>_. 0) series" using assms(1) by (induction series) (auto simp: present_def)
  moreover have "set (map (\<lambda>_. 0 :: rat) series) = {0}" using assms(2) by (cases series) auto
  ultimately show ?thesis using assms(2) by (simp add: latency_y_def latency_max_def Let_def)
qed

text \<open>The sparkline has no dots: values between gaps give paths of a single move, which draw nothing.\<close>

lemma sparkline_isolated_values:
  "\<exists>ss. sparkline [Some 1, None, Some 2] w height = Some ss \<and> length ss = 2 \<and> (\<forall>s\<in>set ss. length s = 1)"
  by (simp add: sparkline_def present_def segmentsOf_def)

end
