(* ===== verification/Versions.thy ===== *)
theory Versions
  imports Formatters
begin

text \<open>
  The workflow pages' reasoning about versions (\<open>modules/workflows/utils/versions.ts\<close>) and run outcomes
  (\<open>outcomes.ts\<close>). A reduction that keeps a best element is \<open>best_by\<close>.
\<close>

subsection \<open>Definitions\<close>

definition versionLabel :: "string \<Rightarrow> string" where
  "versionLabel v = (if v = [] then ''unversioned'' else v)"

definition fmtRunCost :: "rat \<Rightarrow> string" where
  "fmtRunCost usd = (if usd \<ge> 1 / 100 \<and> usd < 1 then ''$'' @ to_fixed 4 usd else fmtCost usd)"

definition DAY_MS :: int where
  [data_defs]: "DAY_MS = 86400000"

definition fmtSeen :: "host \<Rightarrow> int \<Rightarrow> string" where
  "fmtSeen h ms = (if ms mod DAY_MS = 0 then loc_day_utc h ms else loc_day_time h ms)"

definition NOISE :: rat where
  [data_defs]: "NOISE = 5 / 100"

definition deltaColor :: "jsnum \<Rightarrow> string" where
  "deltaColor fraction =
     (case fraction of
        Fin x \<Rightarrow> if \<bar>x\<bar> < NOISE then ''var(--muted)''
                 else if x > 0 then ''var(--error)'' else ''var(--accent)''
      | _ \<Rightarrow> ''var(--muted)'')"

definition change :: "rat \<Rightarrow> rat \<Rightarrow> jsnum" where
  "change next prev = (if prev \<noteq> 0 then Fin ((next - prev) / prev) else NotANumber)"

definition fmtPts :: "rat \<Rightarrow> rat \<Rightarrow> string" where
  "fmtPts next prev =
     (let pts = (next - prev) * 100 in (if pts \<ge> 0 then ''+'' else []) @ to_fixed 1 pts @ '' pts'')"

definition ptsColor :: "rat \<Rightarrow> rat \<Rightarrow> string" where
  "ptsColor next prev = deltaColor (Fin ((next - prev) * 10))"

definition comparable :: "WorkflowVersion \<Rightarrow> bool" where
  "comparable v \<longleftrightarrow> wv_version v \<noteq> []"

text \<open>The reduction \<open>(best, o) => !best || f(o) > f(best) ? o : best\<close> from \<open>undefined\<close>.\<close>

definition best_by :: "('a \<Rightarrow> int) \<Rightarrow> 'a list \<Rightarrow> 'a option" where
  "best_by f xs =
     foldl (\<lambda>best x. case best of None \<Rightarrow> Some x | Some b \<Rightarrow> if f x > f b then Some x else Some b) None xs"

definition previousVersion :: "WorkflowVersion list \<Rightarrow> WorkflowVersion \<Rightarrow> WorkflowVersion option" where
  "previousVersion versions v =
     best_by wv_first_seen_ms
       (filter (\<lambda>u. comparable u \<and> wv_version u \<noteq> wv_version v \<and> wv_first_seen_ms u \<le> wv_first_seen_ms v) versions)"

text \<open>Without a live version the maximum is \<open>-Infinity\<close> and the filtered list is empty.\<close>

definition currentVersion :: "WorkflowVersion list \<Rightarrow> WorkflowVersion option" where
  "currentVersion versions =
     (let live = filter comparable versions in
      if live = [] then None
      else (let latest = Max (set (map wv_last_seen_ms live)) in
            best_by wv_first_seen_ms (filter (\<lambda>v. wv_last_seen_ms v \<ge> latest - DAY_MS) live)))"

definition defaultPair :: "WorkflowVersion list \<Rightarrow> (string \<times> string) option" where
  "defaultPair versions =
     (case currentVersion versions of
        None \<Rightarrow> None
      | Some cur \<Rightarrow>
          (case previousVersion versions cur of
             None \<Rightarrow> None
           | Some prev \<Rightarrow> Some (wv_version prev, wv_version cur)))"

definition overlap :: "WorkflowVersion \<Rightarrow> WorkflowVersion \<Rightarrow> (int \<times> int) option" where
  "overlap a b =
     (let start = max (wv_first_seen_ms a) (wv_first_seen_ms b);
          end = min (wv_last_seen_ms a) (wv_last_seen_ms b) in
      if start \<le> end then Some (start, end) else None)"

text \<open>The loop of \<open>bucketIndex\<close>; it stops at the first bucket that starts later.\<close>

fun bucket_loop :: "int list \<Rightarrow> int \<Rightarrow> int \<Rightarrow> int \<Rightarrow> int" where
  "bucket_loop [] ms i idx = idx"
| "bucket_loop (b # bs) ms i idx = (if b \<le> ms then bucket_loop bs ms (i + 1) i else idx)"

definition bucketIndex :: "int list \<Rightarrow> int \<Rightarrow> int" where
  "bucketIndex bucketsMs ms = bucket_loop bucketsMs ms 0 (- 1)"

definition releaseMarkers ::
  "WorkflowVersion list \<Rightarrow> int list \<Rightarrow> (WorkflowVersion \<Rightarrow> string) \<Rightarrow> (WorkflowVersion \<Rightarrow> 'e) option \<Rightarrow> 'e ChartMarker list" where
  "releaseMarkers versions bucketsMs color onClick =
     concat (map (\<lambda>v. let index = bucketIndex bucketsMs (wv_first_seen_ms v) in
         if index \<le> 0 then []
         else [\<lparr>cm_index = nat index, cm_color = color v, cm_label = Some (wv_version v),
                cm_onClick = map_option (\<lambda>f. f v) onClick\<rparr>])
       (filter comparable versions))"

definition ERR_BAD :: rat where
  [data_defs]: "ERR_BAD = 2 / 100"

definition ERR_WARN :: rat where
  [data_defs]: "ERR_WARN = 5 / 1000"

record RunOutcomes =
  ro_completed :: int
  ro_failed :: int

definition deriveRunOutcomes :: "int \<Rightarrow> rat \<Rightarrow> RunOutcomes" where
  "deriveRunOutcomes calls errorRate =
     (let failed = min calls (max 0 (math_round (of_int calls * errorRate))) in
      \<lparr>ro_completed = calls - failed, ro_failed = failed\<rparr>)"

subsection \<open>Best elements\<close>

lemma best_by_fold:
  "case foldl (\<lambda>best x. case best of None \<Rightarrow> Some x | Some b \<Rightarrow> if f x > f b then Some x else Some b) b xs of
     None \<Rightarrow> b = None \<and> xs = []
   | Some y \<Rightarrow> y \<in> set_option b \<union> set xs \<and> (\<forall>x\<in>set_option b \<union> set xs. f x \<le> (f y :: int))"
proof (induction xs arbitrary: b)
  case Nil
  then show ?case by (cases b) auto
next
  case (Cons x xs)
  let ?b = "case b of None \<Rightarrow> Some x | Some c \<Rightarrow> if f x > f c then Some x else Some c"
  have "\<exists>y\<in>set_option ?b. y \<in> insert x (set_option b) \<and> (\<forall>z\<in>insert x (set_option b). f z \<le> f y)"
    by (cases b) auto
  then show ?case
    using Cons [of ?b] by (auto split: option.splits)
qed

lemma best_by_Some: "best_by f xs = Some y \<Longrightarrow> y \<in> set xs \<and> (\<forall>x\<in>set xs. f x \<le> f y)"
  using best_by_fold [where f = f and b = None and xs = xs] by (simp add: best_by_def split: option.splits)

lemma best_by_None [simp]: "best_by f xs = None \<longleftrightarrow> xs = []"
  using best_by_fold [where f = f and b = None and xs = xs] by (auto simp: best_by_def split: option.splits)

lemma previousVersion_Some:
  assumes "previousVersion versions v = Some p"
  shows "p \<in> set versions \<and> comparable p \<and> wv_version p \<noteq> wv_version v \<and> wv_first_seen_ms p \<le> wv_first_seen_ms v \<and>
    (\<forall>u\<in>set versions. comparable u \<and> wv_version u \<noteq> wv_version v \<and> wv_first_seen_ms u \<le> wv_first_seen_ms v
       \<longrightarrow> wv_first_seen_ms u \<le> wv_first_seen_ms p)"
  using best_by_Some [OF assms [unfolded previousVersion_def]] by auto

lemma previousVersion_None:
  "previousVersion versions v = None \<longleftrightarrow>
     (\<forall>u\<in>set versions. comparable u \<and> wv_version u \<noteq> wv_version v \<longrightarrow> wv_first_seen_ms v < wv_first_seen_ms u)"
  by (auto simp: previousVersion_def filter_empty_conv not_le)

lemma currentVersion_Some:
  assumes "currentVersion versions = Some c"
  shows "c \<in> set versions \<and> comparable c \<and>
    (\<forall>v\<in>set versions. comparable v \<longrightarrow> wv_last_seen_ms c \<ge> wv_last_seen_ms v - DAY_MS) \<and>
    (\<forall>v\<in>set versions. comparable v \<and> (\<forall>u\<in>set versions. comparable u \<longrightarrow> wv_last_seen_ms v \<ge> wv_last_seen_ms u - DAY_MS)
       \<longrightarrow> wv_first_seen_ms v \<le> wv_first_seen_ms c)"
proof -
  let ?live = "filter comparable versions"
  let ?latest = "Max (wv_last_seen_ms ` set ?live)"
  have ne: "?live \<noteq> []" using assms by (auto simp: currentVersion_def Let_def)
  have max: "x \<ge> ?latest - DAY_MS \<longleftrightarrow> (\<forall>v\<in>set ?live. x \<ge> wv_last_seen_ms v - DAY_MS)" for x
  proof -
    have "?latest \<le> x + DAY_MS \<longleftrightarrow> (\<forall>v\<in>set ?live. wv_last_seen_ms v \<le> x + DAY_MS)"
      using ne by (subst Max_le_iff) (auto simp: filter_empty_conv)
    then show ?thesis by (simp add: algebra_simps)
  qed
  have "best_by wv_first_seen_ms (filter (\<lambda>v. wv_last_seen_ms v \<ge> ?latest - DAY_MS) ?live) = Some c"
    using assms ne by (simp add: currentVersion_def Let_def)
  from best_by_Some [OF this] show ?thesis unfolding max by auto
qed

lemma currentVersion_None: "currentVersion versions = None \<longleftrightarrow> (\<forall>v\<in>set versions. \<not> comparable v)"
proof (cases "filter comparable versions = []")
  case True
  then show ?thesis by (auto simp: currentVersion_def filter_empty_conv)
next
  case False
  let ?ls = "wv_last_seen_ms ` set (filter comparable versions)"
  have "Max ?ls \<in> ?ls" using False by (intro Max_in) (auto simp: filter_empty_conv)
  then have "\<exists>v\<in>set versions. comparable v \<and> wv_last_seen_ms v \<ge> Max ?ls - DAY_MS"
    by (auto simp: DAY_MS_def)
  with False show ?thesis by (auto simp: currentVersion_def Let_def filter_empty_conv)
qed

lemma bucket_loop_spec:
  "bucket_loop bs ms i idx =
     (let n = length (takeWhile (\<lambda>b. b \<le> ms) bs) in if n = 0 then idx else i + int n - 1)"
  by (induction bs ms i idx rule: bucket_loop.induct) (auto simp: Let_def)

lemma bucketIndex_takeWhile: "bucketIndex bs ms = int (length (takeWhile (\<lambda>b. b \<le> ms) bs)) - 1"
  by (simp add: bucketIndex_def bucket_loop_spec Let_def)

lemma bucketIndex_bounds: "- 1 \<le> bucketIndex bs ms \<and> bucketIndex bs ms < int (length bs)"
  using length_takeWhile_le [of "\<lambda>b. b \<le> ms" bs] by (simp add: bucketIndex_takeWhile)

lemma bucketIndex_holds:
  assumes "0 \<le> bucketIndex bs ms"
  shows "bs ! nat (bucketIndex bs ms) \<le> ms \<and>
    (nat (bucketIndex bs ms) + 1 < length bs \<longrightarrow> ms < bs ! (nat (bucketIndex bs ms) + 1))"
proof -
  let ?n = "length (takeWhile (\<lambda>b. b \<le> ms) bs)"
  have idx: "nat (bucketIndex bs ms) = ?n - 1" "?n > 0" using assms by (auto simp: bucketIndex_takeWhile)
  have "bs ! (?n - 1) \<in> set (takeWhile (\<lambda>b. b \<le> ms) bs)"
    using idx(2) nth_mem [of "?n - 1" "takeWhile (\<lambda>b. b \<le> ms) bs"] by (simp add: takeWhile_nth)
  moreover have "\<not> bs ! ?n \<le> ms" if "?n < length bs" using nth_length_takeWhile [OF that] .
  ultimately show ?thesis using idx by (auto dest: set_takeWhileD)
qed

subsection \<open>Properties\<close>

text \<open>The version a version replaced is the latest other one that was first seen no later than it; there
  is none exactly when every other comparable version appeared after it.\<close>

theorem previousVersion_spec:
  "case previousVersion versions v of
     None \<Rightarrow> \<forall>u\<in>set versions. comparable u \<and> wv_version u \<noteq> wv_version v \<longrightarrow> wv_first_seen_ms v < wv_first_seen_ms u
   | Some p \<Rightarrow> p \<in> set versions \<and> comparable p \<and> wv_version p \<noteq> wv_version v \<and>
       wv_first_seen_ms p \<le> wv_first_seen_ms v \<and>
       (\<forall>u\<in>set versions. comparable u \<and> wv_version u \<noteq> wv_version v \<and> wv_first_seen_ms u \<le> wv_first_seen_ms v
          \<longrightarrow> wv_first_seen_ms u \<le> wv_first_seen_ms p)"
  using previousVersion_Some [of versions v] previousVersion_None [of versions v]
  by (cases "previousVersion versions v") auto

definition version_at :: "string \<Rightarrow> int \<Rightarrow> int \<Rightarrow> WorkflowVersion" where
  "version_at n first final = \<lparr>wv_version = n, wv_first_seen_ms = first, wv_last_seen_ms = final, wv_calls = 1,
     wv_cost = 0, wv_cost_per_run = 0, wv_p95_latency_ms = None, wv_error_rate = 0, wv_tokens_per_run = 0\<rparr>"

theorem previousVersion_spec_witness:
  "previousVersion [version_at ''v1'' 0 5, version_at ''v2'' 3 9] (version_at ''v2'' 3 9) = Some (version_at ''v1'' 0 5)"
  using previousVersion_spec [of "[version_at ''v1'' 0 5, version_at ''v2'' 3 9]" "version_at ''v2'' 3 9"]
  by (auto simp: version_at_def comparable_def split: option.splits)

text \<open>The current version is the newest of those still running: a comparable version last seen within a
  day of every other one, none of which was first seen later; there is one as soon as some version
  is comparable.\<close>

theorem currentVersion_spec:
  "case currentVersion versions of
     None \<Rightarrow> \<forall>v\<in>set versions. \<not> comparable v
   | Some c \<Rightarrow> c \<in> set versions \<and> comparable c \<and>
      (\<forall>v\<in>set versions. comparable v \<longrightarrow> wv_last_seen_ms c \<ge> wv_last_seen_ms v - DAY_MS) \<and>
      (\<forall>v\<in>set versions. comparable v \<and>
         (\<forall>u\<in>set versions. comparable u \<longrightarrow> wv_last_seen_ms v \<ge> wv_last_seen_ms u - DAY_MS)
         \<longrightarrow> wv_first_seen_ms v \<le> wv_first_seen_ms c)"
proof (cases "currentVersion versions")
  case None
  then show ?thesis using currentVersion_None [of versions] by simp
next
  case (Some c)
  then show ?thesis unfolding Some option.case using currentVersion_Some [OF Some] by blast
qed

theorem currentVersion_spec_witness:
  "currentVersion [version_at ''v1'' 0 200000000, version_at ''v2'' 100000000 190000000, version_at ''v3'' 50 60]
     = Some (version_at ''v2'' 100000000 190000000)"
  using currentVersion_spec [of "[version_at ''v1'' 0 200000000, version_at ''v2'' 100000000 190000000, version_at ''v3'' 50 60]"]
  by (auto simp: version_at_def comparable_def DAY_MS_def split: option.splits)

text \<open>The pair a comparison opens with is of two different named versions, the candidate the current one
  and the base first seen no later.\<close>

theorem defaultPair_distinct:
  assumes "defaultPair versions = Some (b, c)"
  shows "b \<noteq> c \<and> b \<noteq> [] \<and> c \<noteq> [] \<and>
    (\<exists>base\<in>set versions. \<exists>cand\<in>set versions. wv_version base = b \<and> wv_version cand = c \<and>
       currentVersion versions = Some cand \<and> wv_first_seen_ms base \<le> wv_first_seen_ms cand)"
proof -
  from assms obtain cand base where p: "currentVersion versions = Some cand" "previousVersion versions cand = Some base"
    "b = wv_version base" "c = wv_version cand"
    by (auto simp: defaultPair_def split: option.splits)
  have c: "cand \<in> set versions" "wv_version cand \<noteq> []"
    using currentVersion_Some [OF p(1)] by (simp_all add: comparable_def)
  have b: "base \<in> set versions" "wv_version base \<noteq> []" "wv_version base \<noteq> wv_version cand"
    "wv_first_seen_ms base \<le> wv_first_seen_ms cand"
    using previousVersion_Some [OF p(2)] by (simp_all add: comparable_def)
  from b c p show ?thesis by auto
qed

theorem defaultPair_distinct_witness:
  "\<exists>cand. currentVersion [version_at ''v1'' 0 5, version_at ''v2'' 3 9] = Some cand \<and> wv_version cand = ''v2''"
proof -
  have "defaultPair [version_at ''v1'' 0 5, version_at ''v2'' 3 9] = Some (''v1'', ''v2'')" by code_simp
  from defaultPair_distinct [OF this] show ?thesis by blast
qed

text \<open>The overlap of two versions is exactly the span of times at which both ran; without one no time
  belongs to both.\<close>

theorem overlap_spec:
  "wv_first_seen_ms a \<le> t \<and> t \<le> wv_last_seen_ms a \<and> wv_first_seen_ms b \<le> t \<and> t \<le> wv_last_seen_ms b \<longleftrightarrow>
     (case overlap a b of None \<Rightarrow> False | Some (s, e) \<Rightarrow> s \<le> t \<and> t \<le> e)"
  by (auto simp: overlap_def Let_def)

text \<open>A release is marked in the bucket that holds the time its version was first seen, and never in the
  first bucket of the window.\<close>

theorem releaseMarkers_bucket:
  assumes "m \<in> set (releaseMarkers versions bucketsMs color onClick)"
  shows "\<exists>v\<in>set versions. comparable v \<and> cm_label m = Some (wv_version v) \<and> 0 < cm_index m \<and>
    cm_index m < length bucketsMs \<and> bucketsMs ! cm_index m \<le> wv_first_seen_ms v \<and>
    (cm_index m + 1 < length bucketsMs \<longrightarrow> wv_first_seen_ms v < bucketsMs ! (cm_index m + 1))"
proof -
  from assms obtain v where v: "v \<in> set versions" "comparable v" "0 < bucketIndex bucketsMs (wv_first_seen_ms v)"
    "cm_label m = Some (wv_version v)" "cm_index m = nat (bucketIndex bucketsMs (wv_first_seen_ms v))"
    by (auto simp: releaseMarkers_def Let_def split: if_splits)
  then show ?thesis
    using bucketIndex_holds [of bucketsMs "wv_first_seen_ms v"] bucketIndex_bounds [of bucketsMs "wv_first_seen_ms v"]
    by (intro bexI [of _ v]) auto
qed

theorem releaseMarkers_bucket_witness:
  "\<exists>v\<in>set [version_at ''v1'' 25 30]. wv_first_seen_ms v < [0, 10, 20, 30] ! (2 + 1)"
proof -
  have "\<lparr>cm_index = 2, cm_color = ''c'', cm_label = Some ''v1'', cm_onClick = None\<rparr> \<in>
      set (releaseMarkers [version_at ''v1'' 25 30] [0, 10, 20, 30] (\<lambda>_. ''c'') (None :: (WorkflowVersion \<Rightarrow> unit) option))"
    by (simp add: releaseMarkers_def version_at_def comparable_def bucketIndex_def Let_def)
  from releaseMarkers_bucket [OF this] show ?thesis by (simp add: version_at_def)
qed

text \<open>Deriving outcomes from a rate loses nothing: completed and failed runs add up to the calls, and a
  rate of \<open>failed / calls\<close> gives back the number of failed runs.\<close>

theorem deriveRunOutcomes_exact:
  "ro_completed (deriveRunOutcomes calls rate) + ro_failed (deriveRunOutcomes calls rate) = calls \<and>
   (0 \<le> failed \<and> failed \<le> calls \<and> 0 < calls \<longrightarrow>
      ro_failed (deriveRunOutcomes calls (of_int failed / of_int calls)) = failed)"
  by (auto simp: deriveRunOutcomes_def Let_def)

theorem deriveRunOutcomes_exact_witness: "ro_failed (deriveRunOutcomes 847 (3 / 847)) = 3"
  using deriveRunOutcomes_exact [of 847 0 3] by simp

end
