(* ===== verification/Workflow_Pages.thy ===== *)
theory Workflow_Pages
  imports Shell Versions
begin

text \<open>
  The pages of the workflows (\<open>modules/workflows\<close>): the table of workflows with its search and order
  (\<open>WorkflowsPage.tsx\<close>), the detail page with its version filter and cost alert (\<open>WorkflowDetailLivePage.tsx\<close>), the
  table of versions (\<open>VersionsTable.tsx\<close>) and the comparison of two versions (\<open>VersionCompareLivePage.tsx\<close>). \<open>lower\<close> is
  \<open>toLowerCase\<close> and \<open>collate\<close> is \<open>localeCompare\<close>.
\<close>

subsection \<open>The table of workflows (WorkflowsPage.tsx)\<close>

datatype WorkflowSortKey = ByName | ByCalls | ByCost | ByLatency | ByErrorRate

record workflows_page =
  wp_sortKey :: WorkflowSortKey
  wp_asc :: bool
  wp_q :: string

definition workflows_init :: workflows_page where
  "workflows_init = \<lparr>wp_sortKey = ByCalls, wp_asc = False, wp_q = []\<rparr>"

definition toggleSort :: "WorkflowSortKey \<Rightarrow> workflows_page \<Rightarrow> workflows_page" where
  "toggleSort k p = (if wp_sortKey p = k then p\<lparr>wp_asc := \<not> wp_asc p\<rparr> else p\<lparr>wp_sortKey := k, wp_asc := False\<rparr>)"

fun workflow_value :: "WorkflowSortKey \<Rightarrow> Workflow \<Rightarrow> rat" where
  "workflow_value ByCalls w = of_int (wf_calls w)"
| "workflow_value ByCost w = wf_cost w"
| "workflow_value ByLatency w = wf_avg_latency_ms w"
| "workflow_value ByErrorRate w = wf_error_rate w"
| "workflow_value ByName w = 0"

definition workflow_cmp :: "(string \<Rightarrow> string \<Rightarrow> rat) \<Rightarrow> WorkflowSortKey \<Rightarrow> bool \<Rightarrow> Workflow \<Rightarrow> Workflow \<Rightarrow> rat" where
  "workflow_cmp collate k asc a b =
     (if k = ByName then (if asc then collate (wf_name a) (wf_name b) else collate (wf_name b) (wf_name a))
      else if asc then workflow_value k a - workflow_value k b else workflow_value k b - workflow_value k a)"

definition workflow_matches :: "(string \<Rightarrow> string) \<Rightarrow> string \<Rightarrow> Workflow \<Rightarrow> bool" where
  "workflow_matches lower q w \<longleftrightarrow> q = [] \<or> str_includes (lower (wf_name w)) (lower q)"

definition workflows_filtered ::
  "(string \<Rightarrow> string) \<Rightarrow> (string \<Rightarrow> string \<Rightarrow> rat) \<Rightarrow> workflows_page \<Rightarrow> Workflow list \<Rightarrow> Workflow list" where
  "workflows_filtered lower collate p workflows =
     js_sort (workflow_cmp collate (wp_sortKey p) (wp_asc p)) (filter (workflow_matches lower (wp_q p)) workflows)"

text \<open>\<open>reduce((m, a) => !m || f(a) > f(m) ? a : m, null)\<close>.\<close>

definition top_by :: "(Workflow \<Rightarrow> rat) \<Rightarrow> Workflow list \<Rightarrow> Workflow option" where
  "top_by f ws = foldl (\<lambda>m a. case m of None \<Rightarrow> Some a | Some b \<Rightarrow> if f a > f b then Some a else Some b) None ws"

definition topVolume :: "Workflow list \<Rightarrow> Workflow option" where
  "topVolume = top_by (\<lambda>w. of_int (wf_calls w))"

definition topCost :: "Workflow list \<Rightarrow> Workflow option" where
  "topCost = top_by wf_cost"

definition workflows_subtitle :: "host \<Rightarrow> Workflow list \<Rightarrow> string" where
  "workflows_subtitle h ws = plural h (of_nat (length ws)) ''active workflow'' @ '' '' @ mid_dot @ '' '' @
     fmtNum h (of_int (foldl (\<lambda>s a. s + wf_calls a) 0 ws)) @ '' runs '' @ mid_dot @ '' '' @
     fmtCost (foldl (\<lambda>s a. s + wf_cost a) 0 ws) @ '' spend''"

definition openWorkflow :: "Workflow \<Rightarrow> dash \<Rightarrow> dash" where
  "openWorkflow w d = setView ''workflows'' (setSelected (jm_set ''workflow'' (wf_name w)) d)"

datatype workflows_screen = WorkflowsLoading | WorkflowsFailed | NoWorkflows | WorkflowsTable "Workflow list"

definition workflows_live :: "Workflow list fetched \<Rightarrow> workflows_screen" where
  "workflows_live q =
     (if fe_isLoading q then WorkflowsLoading
      else if fe_isError q \<and> fe_data q = None then WorkflowsFailed
      else let ws = nullish (fe_data q) [] in if ws = [] then NoWorkflows else WorkflowsTable ws)"

subsection \<open>The detail page (WorkflowDetailLivePage.tsx)\<close>

definition COST_ALERT :: rat where
  [data_defs]: "COST_ALERT = 1 / 10"

definition filtered_version :: "WorkflowVersion list \<Rightarrow> string option \<Rightarrow> WorkflowVersion option" where
  "filtered_version versions flt = (if truthy_str flt then js_find (\<lambda>v. Some (wv_version v) = flt) versions else None)"

definition compare :: "string \<Rightarrow> string \<Rightarrow> string \<Rightarrow> dash \<Rightarrow> dash" where
  "compare workflowName base candidate d =
     setView ''compare'' (setSelected (\<lambda>s. jm_set ''candidate'' candidate (jm_set ''base'' base (jm_set ''workflow'' workflowName s))) d)"

definition js_above :: "jsnum \<Rightarrow> rat \<Rightarrow> bool" where
  "js_above x y = (case x of Fin r \<Rightarrow> r > y | PosInf \<Rightarrow> True | _ \<Rightarrow> False)"

record cost_alert =
  ca_version :: string
  ca_from :: rat
  ca_to :: rat
  ca_change :: string

definition costAlert :: "WorkflowVersion list \<Rightarrow> cost_alert option" where
  "costAlert versions =
     (case currentVersion versions of
        None \<Rightarrow> None
      | Some cur \<Rightarrow>
          (case previousVersion versions cur of
             None \<Rightarrow> None
           | Some prev \<Rightarrow>
               (let c = change (wv_cost_per_run cur) (wv_cost_per_run prev) in
                if js_above c COST_ALERT
                then Some \<lparr>ca_version = wv_version cur, ca_from = wv_cost_per_run prev, ca_to = wv_cost_per_run cur, ca_change = fmtDelta c\<rparr>
                else None)))"

definition detail_markers :: "WorkflowVersion list \<Rightarrow> int list \<Rightarrow> (WorkflowVersion \<Rightarrow> string) \<Rightarrow> (string \<times> string) option ChartMarker list" where
  "detail_markers versions bucketsMs color = releaseMarkers versions bucketsMs color
     (Some (\<lambda>v. map_option (\<lambda>prev. (wv_version prev, wv_version v)) (previousVersion versions v)))"

record detail_figures =
  df_calls :: int
  df_outcomes :: RunOutcomes
  df_cost :: rat
  df_p95 :: "rat option"
  df_errorRate :: rat
  df_scope :: "string option"

definition detail_view :: "WorkflowDetail \<Rightarrow> WorkflowVersion list \<Rightarrow> string option \<Rightarrow> detail_figures" where
  "detail_view d versions flt =
     (case filtered_version versions flt of
        Some v \<Rightarrow> \<lparr>df_calls = wv_calls v, df_outcomes = deriveRunOutcomes (wv_calls v) (wv_error_rate v), df_cost = wv_cost v,
           df_p95 = wv_p95_latency_ms v, df_errorRate = wv_error_rate v, df_scope = Some (wv_version v @ '' only'')\<rparr>
      | None \<Rightarrow> \<lparr>df_calls = wd_calls d, df_outcomes = deriveRunOutcomes (wd_calls d) (wd_error_rate d), df_cost = wd_cost d,
           df_p95 = wd_p95_latency_ms d, df_errorRate = wd_error_rate d,
           df_scope = (if \<exists>v\<in>set versions. comparable v then Some ''all versions'' else None)\<rparr>)"

definition configRows :: "host \<Rightarrow> WorkflowDetail \<Rightarrow> WorkflowVersion list \<Rightarrow> (string \<times> string) list" where
  "configRows h d versions =
     [(''model'', if wd_model d = [] then em_dash else wd_model d)] @
     (if wd_provider d = [] then [] else [(''provider'', wd_provider d)]) @
     (case currentVersion versions of None \<Rightarrow> [] | Some c \<Rightarrow> [(''version'', wv_version c)]) @
     [(''input tokens'', fmtNum h (of_int (wd_input_tokens d))), (''output tokens'', fmtNum h (of_int (wd_output_tokens d)))]"

subsection \<open>Versions (VersionsTable.tsx, VersionDropdown.tsx)\<close>

text \<open>A row with its cells; a change against the version before carries its colour.\<close>

record version_row =
  vr_label :: string
  vr_named :: bool
  vr_current :: bool
  vr_firstSeen :: string
  vr_lastRun :: string
  vr_runs :: string
  vr_cost :: string
  vr_costDelta :: "(string \<times> string) option"
  vr_p95 :: string
  vr_p95Delta :: "(string \<times> string) option"
  vr_err :: string
  vr_errDelta :: "(string \<times> string) option"
  vr_tokens :: string
  vr_tokensDelta :: "(string \<times> string) option"
  vr_compare :: "(string \<times> string) option"

definition delta_cell :: "rat \<Rightarrow> rat \<Rightarrow> string \<times> string" where
  "delta_cell a b = (fmtDelta (change a b), deltaColor (change a b))"

definition version_row_of :: "host \<Rightarrow> int \<Rightarrow> WorkflowVersion list \<Rightarrow> WorkflowVersion \<Rightarrow> version_row" where
  "version_row_of h now versions v =
     (let prev = (if comparable v then previousVersion versions v else None) in
      \<lparr>vr_label = versionLabel (wv_version v),
       vr_named = comparable v,
       vr_current = (Some (wv_version v) = map_option wv_version (currentVersion versions)),
       vr_firstSeen = fmtSeen h (wv_first_seen_ms v),
       vr_lastRun = ''last run '' @ relativeTime (wv_last_seen_ms v) now,
       vr_runs = fmtNum h (of_int (wv_calls v)),
       vr_cost = fmtRunCost (wv_cost_per_run v),
       vr_costDelta = map_option (\<lambda>p. delta_cell (wv_cost_per_run v) (wv_cost_per_run p)) prev,
       vr_p95 = (case wv_p95_latency_ms v of None \<Rightarrow> em_dash | Some x \<Rightarrow> fmtMs x),
       vr_p95Delta = (case (wv_p95_latency_ms v, Option.bind prev wv_p95_latency_ms) of
          (Some a, Some b) \<Rightarrow> Some (delta_cell a b) | _ \<Rightarrow> None),
       vr_err = to_fixed 1 (wv_error_rate v * 100) @ ''%'',
       vr_errDelta = map_option (\<lambda>p. (fmtPts (wv_error_rate v) (wv_error_rate p), ptsColor (wv_error_rate v) (wv_error_rate p))) prev,
       vr_tokens = fmtNum h (of_int (math_round (wv_tokens_per_run v))),
       vr_tokensDelta = map_option (\<lambda>p. delta_cell (wv_tokens_per_run v) (wv_tokens_per_run p)) prev,
       vr_compare = map_option (\<lambda>p. (wv_version p, wv_version v)) prev\<rparr>)"

definition versions_table :: "host \<Rightarrow> int \<Rightarrow> WorkflowVersion list \<Rightarrow> version_row list" where
  "versions_table h now versions = map (version_row_of h now versions) versions"

definition pick_version :: "string option \<Rightarrow> string option \<Rightarrow> bool \<Rightarrow> bool \<times> string option option" where
  "pick_version value i opened = (False, if i \<noteq> value then Some i else None)"

definition cell_options :: "WorkflowVersion list \<Rightarrow> string \<Rightarrow> string list" where
  "cell_options versions exclude = map wv_version (filter (\<lambda>v. wv_version v \<noteq> [] \<and> wv_version v \<noteq> exclude) versions)"

subsection \<open>The comparison (VersionCompareLivePage.tsx)\<close>

datatype MetricId = Runs_m | Cost_m | Cpr_m | P95_m | Err_m | Tpr_m

definition chartable :: "string \<Rightarrow> MetricId \<Rightarrow> bool" where
  "chartable rng i \<longleftrightarrow> \<not> (isLongRange rng \<and> i = P95_m)"

definition charted :: "string \<Rightarrow> MetricId list \<Rightarrow> MetricId list" where
  "charted rng picked = (let shown = filter (chartable rng) picked in if shown \<noteq> [] then shown else [Cpr_m])"

definition last_two :: "'a list \<Rightarrow> 'a list" where
  "last_two xs = drop (length xs - 2) xs"

definition toggle_metric :: "string \<Rightarrow> MetricId \<Rightarrow> MetricId list \<Rightarrow> MetricId list" where
  "toggle_metric rng i picked =
     (let ch = charted rng picked in
      if i \<in> set ch then (if length ch > 1 then filter (\<lambda>m. m \<noteq> i) ch else ch) else last_two (ch @ [i]))"

definition needCost :: "MetricId list \<Rightarrow> bool" where
  "needCost ch \<longleftrightarrow> Cost_m \<in> set ch \<or> Cpr_m \<in> set ch"

definition needLatency :: "MetricId list \<Rightarrow> bool" where
  "needLatency ch \<longleftrightarrow> P95_m \<in> set ch"

definition needTokens :: "MetricId list \<Rightarrow> bool" where
  "needTokens ch \<longleftrightarrow> Tpr_m \<in> set ch"

definition relDelta :: "rat option \<Rightarrow> rat option \<Rightarrow> bool \<Rightarrow> string \<times> string" where
  "relDelta a b toned =
     (case (a, b) of
        (Some x, Some y) \<Rightarrow>
          if x = 0 then (em_dash, ''var(--muted)'')
          else (let c = change y x in (fmtDelta c, if toned then deltaColor c else ''var(--muted)''))
      | _ \<Rightarrow> (em_dash, ''var(--muted)''))"

definition by_bucket :: "('b \<Rightarrow> int) \<Rightarrow> 'b list option \<Rightarrow> (int, 'b) jsmap" where
  "by_bucket ms items = jm_of (map (\<lambda>b. (ms b, b)) (nullish items []))"

record version_data =
  vd_errors :: "ErrorBucket list fetched"
  vd_cost :: "CostBucket list fetched"
  vd_latency :: "LatencyBucket list fetched"
  vd_tokens :: "TokenBucket list fetched"

definition err_map :: "version_data \<Rightarrow> (int, ErrorBucket) jsmap" where
  "err_map v = by_bucket eb_bucket_ms (fe_data (vd_errors v))"

definition point_at :: "MetricId \<Rightarrow> version_data \<Rightarrow> int \<Rightarrow> rat option" where
  "point_at metric v ms =
     (case jm_get (err_map v) ms of
        None \<Rightarrow> None
      | Some e \<Rightarrow>
          if eb_total e = 0 then None
          else (case metric of
              Runs_m \<Rightarrow> Some (of_int (eb_total e))
            | Err_m \<Rightarrow> Some (of_int (eb_errors e) / of_int (eb_total e))
            | Cost_m \<Rightarrow> map_option cb_value (jm_get (by_bucket cb_bucket_ms (fe_data (vd_cost v))) ms)
            | Cpr_m \<Rightarrow> map_option (\<lambda>c. cb_value c / of_int (eb_total e)) (jm_get (by_bucket cb_bucket_ms (fe_data (vd_cost v))) ms)
            | P95_m \<Rightarrow> Option.bind (jm_get (by_bucket lb_bucket_ms (fe_data (vd_latency v))) ms) lb_p95
            | Tpr_m \<Rightarrow> map_option (\<lambda>t. of_int (tb_input_tokens t + tb_output_tokens t) / of_int (eb_total e))
                (jm_get (by_bucket tb_bucket_ms (fe_data (vd_tokens v))) ms)))"

definition seriesFor :: "MetricId \<Rightarrow> version_data \<Rightarrow> int list \<Rightarrow> rat option list" where
  "seriesFor metric v bucketsMs = map (point_at metric v) bucketsMs"

definition runs_at :: "version_data \<Rightarrow> int \<Rightarrow> int" where
  "runs_at v ms = (case jm_get (err_map v) ms of None \<Rightarrow> 0 | Some e \<Rightarrow> eb_total e)"

definition both_ran :: "version_data \<Rightarrow> version_data \<Rightarrow> int list \<Rightarrow> nat list" where
  "both_ran a b bucketsMs = filter (\<lambda>i. runs_at a (bucketsMs ! i) > 0 \<and> runs_at b (bucketsMs ! i) > 0) [0..<length bucketsMs]"

definition compare_band ::
  "WorkflowVersion \<Rightarrow> WorkflowVersion \<Rightarrow> version_data \<Rightarrow> version_data \<Rightarrow> int list \<Rightarrow> (nat \<times> nat) option" where
  "compare_band A B a b bucketsMs =
     (let both = both_ran a b bucketsMs in
      if overlap A B \<noteq> None \<and> both \<noteq> [] then Some (hd both, last both) else None)"

record traffic_bucket =
  tf_label :: string
  tf_base :: int
  tf_candidate :: int
  tf_total :: int

definition compare_traffic :: "host \<Rightarrow> string \<Rightarrow> ErrorBucket list \<Rightarrow> version_data \<Rightarrow> version_data \<Rightarrow> traffic_bucket list" where
  "compare_traffic h rng axis a b = map (\<lambda>e. \<lparr>tf_label = bucketLabel h (eb_bucket_ms e) rng, tf_base = runs_at a (eb_bucket_ms e),
     tf_candidate = runs_at b (eb_bucket_ms e), tf_total = eb_total e\<rparr>) axis"

definition chartLoading :: "MetricId list \<Rightarrow> version_data \<Rightarrow> version_data \<Rightarrow> bool" where
  "chartLoading ch a b \<longleftrightarrow> fe_isLoading (vd_errors a) \<or> fe_isLoading (vd_errors b) \<or>
     (needCost ch \<and> (fe_isLoading (vd_cost a) \<or> fe_isLoading (vd_cost b))) \<or>
     (needLatency ch \<and> (fe_isLoading (vd_latency a) \<or> fe_isLoading (vd_latency b))) \<or>
     (needTokens ch \<and> (fe_isLoading (vd_tokens a) \<or> fe_isLoading (vd_tokens b)))"

definition data_failed :: "version_data \<Rightarrow> bool" where
  "data_failed v \<longleftrightarrow> fe_isError (vd_errors v) \<or> fe_isError (vd_cost v) \<or> fe_isError (vd_latency v) \<or> fe_isError (vd_tokens v)"

datatype compare_chart = ChartFailed | ChartLoading | ChartNoRuns | ChartLines "(rat option list \<times> rat option list) list"

definition compare_chart_of ::
  "string \<Rightarrow> MetricId list \<Rightarrow> ErrorBucket list fetched \<Rightarrow> version_data \<Rightarrow> version_data \<Rightarrow> compare_chart" where
  "compare_chart_of rng picked errAll a b =
     (let ch = charted rng picked;
          bucketsMs = map eb_bucket_ms (nullish (fe_data errAll) []);
          metrics = map (\<lambda>m. (seriesFor m a bucketsMs, seriesFor m b bucketsMs)) ch in
      if fe_isError errAll \<or> data_failed a \<or> data_failed b then ChartFailed
      else if chartLoading ch a b then ChartLoading
      else if \<forall>(x, y)\<in>set metrics. \<forall>v\<in>set (x @ y). v = None then ChartNoRuns
      else ChartLines metrics)"

datatype compare_screen = CompareLoading | CompareFailed | NothingToCompare | Comparison WorkflowVersion WorkflowVersion

definition compare_body :: "WorkflowVersion list fetched \<Rightarrow> string \<Rightarrow> string \<Rightarrow> compare_screen" where
  "compare_body q base candidate =
     (if fe_isLoading q then CompareLoading
      else case fe_data q of
        None \<Rightarrow> CompareFailed
      | Some versions \<Rightarrow>
          (case (js_find (\<lambda>v. wv_version v = base) versions, js_find (\<lambda>v. wv_version v = candidate) versions) of
             (Some A, Some B) \<Rightarrow> Comparison A B
           | _ \<Rightarrow> NothingToCompare))"

subsection \<open>Properties of the comparison\<close>

text \<open>The metrics picked and the range, which the top bar changes; rows that cannot be charted are disabled.\<close>

inductive metric_step :: "string \<times> MetricId list \<Rightarrow> string \<times> MetricId list \<Rightarrow> bool" where
  toggled: "chartable rng i \<Longrightarrow> metric_step (rng, p) (rng, toggle_metric rng i p)"
| ranged: "metric_step (rng, p) (rng', p)"

inductive_cases metric_stepE: "metric_step s t"

definition metrics_ok :: "string \<times> MetricId list \<Rightarrow> bool" where
  "metrics_ok = (\<lambda>(rng, p). distinct p \<and> p \<noteq> [] \<and> length p \<le> 2)"

lemma chartable_cpr [simp]: "chartable rng Cpr_m"
  by (simp add: chartable_def)

lemma charted_ok:
  "distinct p \<Longrightarrow> length p \<le> 2 \<Longrightarrow>
     distinct (charted rng p) \<and> charted rng p \<noteq> [] \<and> length (charted rng p) \<le> 2 \<and> list_all (chartable rng) (charted rng p)"
  using order_trans [OF length_filter_le [of "chartable rng" p], of 2] by (auto simp: charted_def Let_def list_all_iff)

lemma last_two_snoc: "length xs \<le> 2 \<Longrightarrow> xs \<noteq> [] \<Longrightarrow> last_two (xs @ [x]) = (if length xs = 2 then tl xs else xs) @ [x]"
  by (cases xs; cases "tl xs"; cases "tl (tl xs)") (auto simp: last_two_def)

lemma toggle_metric_cases:
  assumes "distinct p" "length p \<le> 2" "ch = charted rng p"
  shows "toggle_metric rng i p =
    (if i \<notin> set ch then (if length ch = 2 then tl ch else ch) @ [i] else if length ch = 2 then filter (\<lambda>m. m \<noteq> i) ch else ch)"
  using charted_ok [OF assms(1,2), of rng] last_two_snoc [of ch i] assms(3) by (auto simp: toggle_metric_def Let_def)

lemma two_cases: "length xs \<le> 2 \<Longrightarrow> xs \<noteq> [] \<Longrightarrow> (\<exists>x. xs = [x]) \<or> (\<exists>x y. xs = [x, y])"
  by (cases xs; cases "tl xs"; cases "tl (tl xs)") auto

lemma toggle_keeps:
  assumes "distinct p" "length p \<le> 2" "chartable rng i"
  shows "distinct (toggle_metric rng i p) \<and> toggle_metric rng i p \<noteq> [] \<and> length (toggle_metric rng i p) \<le> 2 \<and>
    charted rng (toggle_metric rng i p) = toggle_metric rng i p"
proof -
  define ch where "ch = charted rng p"
  have ok: "distinct ch" "ch \<noteq> []" "length ch \<le> 2" "list_all (chartable rng) ch"
    using charted_ok [OF assms(1,2), of rng] by (simp_all add: ch_def)
  then consider x where "ch = [x]" | x y where "ch = [x, y]" using two_cases by blast
  then show ?thesis unfolding toggle_metric_cases [OF assms(1,2) ch_def]
    by cases (use ok assms(3) in \<open>auto simp: charted_def Let_def\<close>)
qed

interpretation metrics: invariant_system "\<lambda>s. snd s = [Cpr_m]" metric_step metrics_ok
proof
  show "snd s = [Cpr_m] \<Longrightarrow> metrics_ok s" for s by (cases s) (simp add: metrics_ok_def)
  show "metrics_ok s \<Longrightarrow> metric_step s t \<Longrightarrow> metrics_ok t" for s t
    by (erule metric_stepE) (use toggle_keeps in \<open>auto simp: metrics_ok_def\<close>)
qed

text \<open>The comparison always charts one or two different metrics that the range supports, with the data of each
  requested: a metric that is clicked joins the chart and replaces the older of two, a charted one leaves unless it is
  the only one, and no change of the range leaves the chart empty.\<close>

theorem compare_charts_one_or_two:
  assumes "reach (\<lambda>s. snd s = [Cpr_m]) metric_step (rng, p)" "ch = charted rng p"
  shows "(length ch = 1 \<or> length ch = 2) \<and> distinct ch \<and> list_all (chartable rng) ch \<and>
    (chartable rng i \<longrightarrow> charted rng (toggle_metric rng i p) =
       (if i \<notin> set ch then (if length ch = 2 then tl ch else ch) @ [i]
        else if length ch = 2 then filter (\<lambda>m. m \<noteq> i) ch else ch))"
proof -
  have inv: "distinct p" "length p \<le> 2" using metrics.reach_inv [OF assms(1)] by (simp_all add: metrics_ok_def)
  have ok: "distinct ch \<and> ch \<noteq> [] \<and> length ch \<le> 2 \<and> list_all (chartable rng) ch"
    unfolding assms(2) by (rule charted_ok [OF inv])
  moreover have "length ch = 1 \<or> length ch = 2" using two_cases [of ch] ok by auto
  moreover have "chartable rng i \<Longrightarrow> charted rng (toggle_metric rng i p) = toggle_metric rng i p"
    using toggle_keeps [OF inv] by blast
  ultimately show ?thesis unfolding toggle_metric_cases [OF inv assms(2)] by blast
qed

theorem compare_charts_one_or_two_witness:
  "charted ''7d'' (toggle_metric ''7d'' P95_m [Cpr_m]) = [Cpr_m, P95_m]"
proof -
  have "reach (\<lambda>s. snd s = [Cpr_m]) metric_step (''7d'', [Cpr_m])" by (rule reach_init) simp
  from compare_charts_one_or_two [OF this refl, of P95_m] show ?thesis
    by (simp add: charted_def chartable_def isLongRange_def LONG_RANGES_def)
qed

text \<open>C19. The shaded band of the comparison is exact: it is shown exactly when the times at which the two versions were seen overlap and a
  bucket has runs of both, and it is then the smallest range of buckets around those with runs of both.\<close>

theorem compare_band_exact:
  "(compare_band A B a b bs = None \<longleftrightarrow>
     min (wv_last_seen_ms A) (wv_last_seen_ms B) < max (wv_first_seen_ms A) (wv_first_seen_ms B) \<or>
     \<not> (\<exists>k<length bs. runs_at a (bs ! k) > 0 \<and> runs_at b (bs ! k) > 0)) \<and>
   (\<forall>i j. compare_band A B a b bs = Some (i, j) \<longrightarrow> i \<le> j \<and> j < length bs \<and>
       runs_at a (bs ! i) > 0 \<and> runs_at b (bs ! i) > 0 \<and> runs_at a (bs ! j) > 0 \<and> runs_at b (bs ! j) > 0 \<and>
       (\<forall>k<length bs. runs_at a (bs ! k) > 0 \<and> runs_at b (bs ! k) > 0 \<longrightarrow> i \<le> k \<and> k \<le> j))"
proof -
  define both where "both = both_ran a b bs"
  have s: "set both = {k. k < length bs \<and> runs_at a (bs ! k) > 0 \<and> runs_at b (bs ! k) > 0}"
    by (auto simp: both_def both_ran_def)
  have srt: "sorted both" by (simp add: both_def both_ran_def sorted_wrt_filter)
  have "hd both \<le> k" if "k \<in> set both" for k using srt that by (cases both) auto
  moreover have "k \<le> last both" if "k \<in> set both" for k using srt that by (cases both rule: rev_cases) (auto simp: sorted_append)
  ultimately have hl: "hd both \<le> k \<and> k \<le> last both" if "k \<in> set both" for k using that by blast
  have band: "compare_band A B a b bs = (if overlap A B \<noteq> None \<and> both \<noteq> [] then Some (hd both, last both) else None)"
    by (simp add: compare_band_def both_def Let_def)
  have "both = [] \<longleftrightarrow> set both = {}" by simp
  then have none: "both = [] \<longleftrightarrow> \<not> (\<exists>k<length bs. runs_at a (bs ! k) > 0 \<and> runs_at b (bs ! k) > 0)" unfolding s by blast
  have seen: "overlap A B = None \<longleftrightarrow> min (wv_last_seen_ms A) (wv_last_seen_ms B) < max (wv_first_seen_ms A) (wv_first_seen_ms B)"
    by (auto simp: overlap_def Let_def)
  have ends: "hd both \<in> set both" "last both \<in> set both" if "both \<noteq> []" using that by simp_all
  show ?thesis
  proof (intro conjI allI impI)
    show "compare_band A B a b bs = None \<longleftrightarrow>
       min (wv_last_seen_ms A) (wv_last_seen_ms B) < max (wv_first_seen_ms A) (wv_first_seen_ms B) \<or>
       \<not> (\<exists>k<length bs. runs_at a (bs ! k) > 0 \<and> runs_at b (bs ! k) > 0)"
      unfolding none [symmetric] seen [symmetric] by (cases "overlap A B") (simp_all add: band)
  next
    fix i j
    assume "compare_band A B a b bs = Some (i, j)"
    then have ij: "both \<noteq> []" "i = hd both" "j = last both" by (auto simp: band split: if_splits)
    show "i \<le> j" "j < length bs" "runs_at a (bs ! i) > 0" "runs_at b (bs ! i) > 0" "runs_at a (bs ! j) > 0" "runs_at b (bs ! j) > 0"
      using ends [OF ij(1)] hl unfolding ij(2,3) s by blast+
    fix k
    assume "k < length bs" "runs_at a (bs ! k) > 0 \<and> runs_at b (bs ! k) > 0"
    then show "i \<le> k" "k \<le> j" using hl [of k] unfolding ij(2,3) s by blast+
  qed
qed

definition idle_fetch :: "'a list \<Rightarrow> 'a list fetched" where
  "idle_fetch xs = \<lparr>fe_data = Some xs, fe_isLoading = False, fe_isError = False, fe_isSuccess = True, fe_dataUpdatedAt = 0\<rparr>"

definition ran_in :: "int list \<Rightarrow> version_data" where
  "ran_in bs = \<lparr>vd_errors = idle_fetch (map (\<lambda>b. \<lparr>eb_bucket_ms = b, eb_errors = 0, eb_total = 1\<rparr>) bs), vd_cost = idle_fetch [],
     vd_latency = idle_fetch [], vd_tokens = idle_fetch []\<rparr>"

theorem compare_band_exact_witness:
  "case compare_band (version_at ''v1'' 0 25) (version_at ''v2'' 15 40) (ran_in [0, 10, 20]) (ran_in [10, 20, 30]) [0, 10, 20, 30] of
     None \<Rightarrow> False | Some (i, j) \<Rightarrow> i \<le> 1 \<and> 2 \<le> j"
proof -
  have some: "compare_band (version_at ''v1'' 0 25) (version_at ''v2'' 15 40) (ran_in [0, 10, 20]) (ran_in [10, 20, 30])
      [0, 10, 20, 30] = Some (1, 2)" by code_simp
  have r: "runs_at (ran_in [0, 10, 20]) ([0, 10, 20, 30] ! 1) > 0" "runs_at (ran_in [10, 20, 30]) ([0, 10, 20, 30] ! 1) > 0"
    "runs_at (ran_in [0, 10, 20]) ([0, 10, 20, 30] ! 2) > 0" "runs_at (ran_in [10, 20, 30]) ([0, 10, 20, 30] ! 2) > 0" by code_simp+
  have "\<forall>k<length [0, 10, 20, 30 :: int]. runs_at (ran_in [0, 10, 20]) ([0, 10, 20, 30] ! k) > 0 \<and>
      runs_at (ran_in [10, 20, 30]) ([0, 10, 20, 30] ! k) > 0 \<longrightarrow> (1 :: nat) \<le> k \<and> k \<le> 2"
    using compare_band_exact [where A = "version_at ''v1'' 0 25" and B = "version_at ''v2'' 15 40" and a = "ran_in [0, 10, 20]"
        and b = "ran_in [10, 20, 30]" and bs = "[0, 10, 20, 30]"] unfolding some by blast
  then have "(1 :: nat) \<le> 1 \<and> (2 :: nat) \<le> 2" using r by (metis order_refl)
  then show ?thesis by (simp add: some)
qed

text \<open>The chart waits for the series of the two versions but not for the series of its axis: while that loads, the
  page says that there are no runs in the range.\<close>

theorem no_runs_while_axis_loads:
  assumes "fe_data errAll = None" "fe_isLoading errAll" "\<not> fe_isError errAll"
    and "\<not> data_failed a" "\<not> data_failed b" "\<not> chartLoading (charted rng picked) a b"
  shows "compare_chart_of rng picked errAll a b = ChartNoRuns"
  using assms by (auto simp: compare_chart_of_def Let_def seriesFor_def)

text \<open>The lines of the comparison are consistent: a version without runs in a bucket has no point there for any metric,
  and where cost and cost per run have points the cost is the cost per run times the runs.\<close>

theorem compare_points:
  assumes "point_at metric v ms = Some x"
  shows "runs_at v ms \<noteq> 0 \<and> point_at Runs_m v ms = Some (of_int (runs_at v ms)) \<and>
    (metric = Cpr_m \<longrightarrow> point_at Cost_m v ms = Some (x * of_int (runs_at v ms)))"
  using assms by (auto simp: point_at_def runs_at_def split: option.splits if_splits)

subsection \<open>Properties of the list and the detail page\<close>

lemma workflow_cmp_comparator:
  assumes "comparator collate"
  shows "comparator (workflow_cmp collate k asc)"
proof (cases "k = ByName")
  case True
  then have "workflow_cmp collate k asc =
      (\<lambda>a b. if asc then collate (wf_name a) (wf_name b) else (\<lambda>x y. collate y x) (wf_name a) (wf_name b))"
    by (intro ext) (simp add: workflow_cmp_def)
  then show ?thesis using comparator_on [OF assms] comparator_on [OF comparator_swap [OF assms]] by (cases asc) simp_all
next
  case False
  then have "workflow_cmp collate k asc =
      (\<lambda>a b. if asc then workflow_value k a - workflow_value k b else workflow_value k b - workflow_value k a)"
    by (intro ext) (simp add: workflow_cmp_def)
  then show ?thesis using comparator_key [of "workflow_value k"] comparator_key_desc [of "workflow_value k"] by (cases asc) simp_all
qed

text \<open>The table of workflows lists exactly the workflows whose name matches the search, in the order of the chosen column
  with ties in the order of the data; clicking the column again reverses it.\<close>

theorem workflows_table_spec:
  assumes "comparator collate"
  shows "mset (workflows_filtered lower collate p ws) = mset (filter (workflow_matches lower (wp_q p)) ws) \<and>
    sorted_wrt (\<lambda>a b. workflow_cmp collate (wp_sortKey p) (wp_asc p) a b \<le> 0) (workflows_filtered lower collate p ws) \<and>
    filter (\<lambda>b. workflow_cmp collate (wp_sortKey p) (wp_asc p) a b = 0) (workflows_filtered lower collate p ws) =
      filter (\<lambda>b. workflow_cmp collate (wp_sortKey p) (wp_asc p) a b = 0) (filter (workflow_matches lower (wp_q p)) ws) \<and>
    sorted_wrt (\<lambda>a b. workflow_cmp collate (wp_sortKey p) (wp_asc p) b a \<le> 0)
      (workflows_filtered lower collate (toggleSort (wp_sortKey p) p) ws)"
proof -
  note c = workflow_cmp_comparator [OF assms]
  have flip: "workflow_cmp collate k (\<not> asc) a b = workflow_cmp collate k asc b a" for k asc a b
    by (simp add: workflow_cmp_def)
  show ?thesis
    using comparator.sorted_sort [OF c] comparator.sort_stable [OF c]
      comparator.sorted_sort [OF c [of "wp_sortKey p" "\<not> wp_asc p"]]
    by (simp add: workflows_filtered_def toggleSort_def flip)
qed

text \<open>The cost alert is raised exactly when the current version costs more than ten percent above the one it replaced,
  and it names the current version with both costs.\<close>

theorem costAlert_exact:
  assumes "currentVersion versions = Some cur" "previousVersion versions cur = Some prev" "0 \<le> wv_cost_per_run prev"
  shows "(costAlert versions \<noteq> None \<longleftrightarrow> 0 < wv_cost_per_run prev \<and> wv_cost_per_run cur > wv_cost_per_run prev * (11 / 10)) \<and>
    (\<forall>al. costAlert versions = Some al \<longrightarrow>
       ca_version al = wv_version cur \<and> ca_from al = wv_cost_per_run prev \<and> ca_to al = wv_cost_per_run cur)"
proof -
  have "js_above (change (wv_cost_per_run cur) (wv_cost_per_run prev)) COST_ALERT \<longleftrightarrow>
      0 < wv_cost_per_run prev \<and> wv_cost_per_run cur > wv_cost_per_run prev * (11 / 10)"
    using assms(3) by (auto simp: js_above_def change_def COST_ALERT_def field_simps)
  then show ?thesis using assms(1,2) by (auto simp: costAlert_def Let_def)
qed

theorem costAlert_exact_witness:
  "costAlert [(version_at ''v1'' 0 5)\<lparr>wv_cost_per_run := 1\<rparr>, (version_at ''v2'' 3 9)\<lparr>wv_cost_per_run := 2\<rparr>] \<noteq> None"
proof -
  let ?vs = "[(version_at ''v1'' 0 5)\<lparr>wv_cost_per_run := 1\<rparr>, (version_at ''v2'' 3 9)\<lparr>wv_cost_per_run := 2\<rparr>]"
  have "currentVersion ?vs = Some (?vs ! 1)" "previousVersion ?vs (?vs ! 1) = Some (?vs ! 0)"
    by (simp_all add: currentVersion_def previousVersion_def version_at_def comparable_def best_by_def DAY_MS_def)
  from costAlert_exact [OF this] show ?thesis by simp
qed

end
