(* ===== verification/Display.thy ===== *)
theory Display
  imports Overview Charts Workflow_Pages
begin

text \<open>
  The shared display components, as the values they show: the tiles of figures (\<open>KpiStrip.tsx\<close>, \<open>StatTile.tsx\<close>), the table of
  runs (\<open>RunsTable.tsx\<close>, \<open>StatusPill.tsx\<close>), the time of the last update with its timer (\<open>LastUpdated.tsx\<close>), the menu of
  versions (\<open>VersionDropdown.tsx\<close>) and the blocks of the overview (\<open>Masthead.tsx\<close>, \<open>ChartsRow.tsx\<close>, \<open>FailuresBlock.tsx\<close>,
  \<open>TopWorkflows.tsx\<close>, \<open>ActivityFeed.tsx\<close>). Layout and styling are left out, colours that carry meaning are not.
\<close>

subsection \<open>Tiles of figures (KpiStrip.tsx, StatTile.tsx)\<close>

fun DELTA_COLOR :: "DeltaTone \<Rightarrow> string" where
  "DELTA_COLOR Good = ''var(--accent)''"
| "DELTA_COLOR Bad = ''var(--error)''"
| "DELTA_COLOR Neutral = ''var(--muted)''"

datatype delta_arrow = ArrowUp | ArrowDown | ArrowRight

text \<open>\<open>delta.replace(/^[+-]/, '')\<close>\<close>

definition strip_sign :: "string \<Rightarrow> string" where
  "strip_sign s = (case s of [] \<Rightarrow> [] | c # cs \<Rightarrow> if c = CHR ''+'' \<or> c = CHR ''-'' then cs else s)"

record delta_view =
  dv_arrow :: "delta_arrow option"
  dv_text :: string
  dv_color :: string

definition kpi_delta_view :: "KpiItem \<Rightarrow> delta_view option" where
  "kpi_delta_view it =
     (let delta = nullish (ki_delta it) [] in
      if delta \<noteq> [] \<or> ki_deltaTone it = Some Neutral
      then Some \<lparr>dv_arrow = (if starts_with delta ''+'' then Some ArrowUp else if starts_with delta ''-'' then Some ArrowDown
            else if ki_deltaTone it = Some Neutral then Some ArrowRight else None),
          dv_text = strip_sign delta,
          dv_color = DELTA_COLOR (nullish (ki_deltaTone it) Neutral)\<rparr>
      else None)"

record kpi_tile =
  kt_label :: string
  kt_value :: string
  kt_rule_left :: bool
  kt_rule_top :: bool
  kt_spark :: "((rat \<times> rat) list list \<times> string) option"
  kt_delta :: "delta_view option"
  kt_hint :: "string option"

text \<open>The sparkline of a tile: its segments at 72 by 24 and its colour; too few values draw nothing.\<close>

definition kpi_spark :: "KpiItem \<Rightarrow> ((rat \<times> rat) list list \<times> string) option" where
  "kpi_spark it =
     (case ki_sparkData it of
        None \<Rightarrow> None
      | Some data \<Rightarrow> map_option (\<lambda>segs. (segs, nullish (ki_sparkColor it) ''var(--accent)'')) (sparkline data 72 24))"

definition kpi_cols :: "bool \<Rightarrow> KpiItem list \<Rightarrow> nat" where
  "kpi_cols narrow items = (if narrow then 2 else length items)"

definition kpiStrip :: "bool \<Rightarrow> KpiItem list \<Rightarrow> kpi_tile list" where
  "kpiStrip narrow items =
     (let cols = kpi_cols narrow items in
      map (\<lambda>(i, it).
        \<lparr>kt_label = ki_label it, kt_value = ki_value it, kt_rule_left = (i mod cols \<noteq> 0), kt_rule_top = (cols \<le> i),
         kt_spark = kpi_spark it, kt_delta = kpi_delta_view it,
         kt_hint = (if truthy_str (ki_hint it) then ki_hint it else None)\<rparr>) (enumerate 0 items))"

datatype StatTone = ToneBad | ToneWarn | ToneGood

fun STAT_COLOR :: "StatTone \<Rightarrow> string" where
  "STAT_COLOR ToneBad = ''var(--error)''"
| "STAT_COLOR ToneWarn = ''var(--warning)''"
| "STAT_COLOR ToneGood = ''var(--accent)''"

record tile_view =
  sl_label :: string
  sl_value :: string
  sl_sub :: "string option"
  sl_color :: string
  sl_rule_left :: bool

text \<open>The value is given as the text shown.\<close>

definition statTile :: "string \<Rightarrow> string \<Rightarrow> string option \<Rightarrow> StatTone option \<Rightarrow> bool \<Rightarrow> tile_view" where
  "statTile label value sub tone isFirst =
     \<lparr>sl_label = label, sl_value = value, sl_sub = (if truthy_str sub then sub else None),
      sl_color = (case tone of None \<Rightarrow> ''var(--foreground)'' | Some t \<Rightarrow> STAT_COLOR t), sl_rule_left = (\<not> isFirst)\<rparr>"

subsection \<open>Runs (RunsTable.tsx, StatusPill.tsx)\<close>

definition STATUS_MAP :: "(string, string \<times> string) jsmap" where
  [data_defs]: "STATUS_MAP =
     [(''completed'', (''var(--accent)'', ''Completed'')), (''failed'', (''var(--error)'', ''Failed'')),
      (''warning'', (''var(--warning)'', ''Warning'')), (''healthy'', (''var(--accent)'', ''Healthy'')),
      (''critical'', (''var(--error)'', ''Critical'')), (''ok'', (''var(--accent)'', ''Ok''))]"

text \<open>Colour and text of a pill; the caller may give the text.\<close>

definition statusPill :: "string \<Rightarrow> string option \<Rightarrow> string \<times> string" where
  "statusPill status txt =
     (let s = nullish (jm_get STATUS_MAP status) (''var(--muted)'', status) in (fst s, nullish txt (snd s)))"

fun status_text :: "run_status \<Rightarrow> string" where
  "status_text Completed = ''completed''"
| "status_text Failed = ''failed''"

record run_cells =
  rc_opens :: string
  rc_name :: "string option"
  rc_err :: "string option"
  rc_cells :: "string list"

definition runs_head :: "bool \<Rightarrow> string list" where
  "runs_head showVersion =
     [''Trace''] @ (if showVersion then [''Version''] else []) @ [''Status'', ''Started'', ''Duration'', ''Cost'']"

definition run_cells_of :: "bool \<Rightarrow> RunRow \<Rightarrow> run_cells" where
  "run_cells_of showVersion r =
     \<lparr>rc_opens = rr_id r,
      rc_name = (if truthy_str (rr_name r) then rr_name r else None),
      rc_err = (if truthy_str (rr_err r) then rr_err r else None),
      rc_cells = [rr_id r] @ (if showVersion then [if truthy_str (rr_version r) then the (rr_version r) else em_dash] else [])
        @ [snd (statusPill (status_text (rr_status r)) None), rr_time r, fmtMs (rr_duration r), fmtCost (rr_cost r)]\<rparr>"

datatype runs_body = RunsEmpty string | RunsRows "run_cells list"

definition runsTable :: "RunRow list \<Rightarrow> string option \<Rightarrow> bool \<Rightarrow> string list \<times> runs_body" where
  "runsTable runs emptyText showVersion =
     (runs_head showVersion,
      if runs = [] then RunsEmpty (nullish emptyText ''No runs in this window.'')
      else RunsRows (map (run_cells_of showVersion) runs))"

subsection \<open>The time of the last update (LastUpdated.tsx)\<close>

fun TONE_COLOR :: "SyncTone \<Rightarrow> string" where
  "TONE_COLOR Live = ''var(--accent)''"
| "TONE_COLOR Stale = ''var(--warning)''"
| "TONE_COLOR SyncError = ''var(--error)''"
| "TONE_COLOR Syncing = ''var(--muted)''"

text \<open>The component: the time it shows ages from, the due time of its interval and the clock of the browser.\<close>

record last_updated =
  lu_now :: int
  lu_due :: "int option"
  lu_clock :: int

definition ticking :: "string option \<Rightarrow> int option \<Rightarrow> bool" where
  "ticking label t \<longleftrightarrow> label = None \<and> t \<noteq> None"

text \<open>The effect of \<open>[ticking]\<close> starts the interval or clears it; without a change it does not run.\<close>

definition lu_effect :: "bool \<Rightarrow> last_updated \<Rightarrow> last_updated" where
  "lu_effect tk s =
     (if tk = (lu_due s \<noteq> None) then s
      else s\<lparr>lu_due := if tk then Some (lu_clock s + 10000) else None\<rparr>)"

definition lu_mount :: "bool \<Rightarrow> int \<Rightarrow> last_updated" where
  "lu_mount tk t = lu_effect tk \<lparr>lu_now = t, lu_due = None, lu_clock = t\<rparr>"

text \<open>The clock moves on to \<open>t\<close>; an interval that is due then fires and is due again ten seconds later.\<close>

inductive lu_step :: "last_updated \<Rightarrow> last_updated \<Rightarrow> bool" where
  wait: "lu_clock s \<le> t \<Longrightarrow> (\<forall>due. lu_due s = Some due \<longrightarrow> t < due) \<Longrightarrow> lu_step s (s\<lparr>lu_clock := t\<rparr>)"
| tick: "lu_due s = Some due \<Longrightarrow> lu_step s \<lparr>lu_now = due, lu_due = Some (due + 10000), lu_clock = due\<rparr>"

inductive_cases lu_stepE: "lu_step s s'"

definition lu_text :: "string option \<Rightarrow> int option \<Rightarrow> last_updated \<Rightarrow> string" where
  "lu_text label t s =
     nullish label (case t of None \<Rightarrow> [] | Some ms \<Rightarrow> ''Updated '' @ relativeTime ms (lu_now s))"

definition lu_colors :: "SyncTone \<Rightarrow> string \<times> string" where
  "lu_colors tone =
     (let dotColor = TONE_COLOR tone in
      (dotColor, if tone = Live \<or> tone = Syncing then ''var(--muted)'' else dotColor))"

subsection \<open>The menu of versions (VersionDropdown.tsx)\<close>

record VersionOption =
  vo_id :: "string option"
  vo_label :: string
  vo_calls :: int

text \<open>The state of the menu with the value its owner holds.\<close>

record dropdown =
  dd_open :: bool
  dd_value :: "string option"

definition dropdown_toggle :: "dropdown \<Rightarrow> dropdown" where
  "dropdown_toggle s = s\<lparr>dd_open := \<not> dd_open s\<rparr>"

definition dropdown_key :: "string \<Rightarrow> dropdown \<Rightarrow> dropdown" where
  "dropdown_key key s = (if key = ''Escape'' then s\<lparr>dd_open := False\<rparr> else s)"

definition dropdown_press :: "bool \<Rightarrow> dropdown \<Rightarrow> dropdown" where
  "dropdown_press inside s =
     (if useClickOutside (\<lambda>_ t. t) (Some True) (dd_open s) inside then s\<lparr>dd_open := False\<rparr> else s)"

text \<open>A choice, with what \<open>onChange\<close> does to the value its owner holds.\<close>

definition dropdown_pick :: "(string option \<Rightarrow> string option \<Rightarrow> string option) \<Rightarrow> string option \<Rightarrow> dropdown \<Rightarrow> dropdown" where
  "dropdown_pick onChange i s =
     (case pick_version (dd_value s) i (dd_open s) of
        (opened, call) \<Rightarrow>
          \<lparr>dd_open = opened, dd_value = (case call of None \<Rightarrow> dd_value s | Some j \<Rightarrow> onChange j (dd_value s))\<rparr>)"

definition dropdown_options :: "host \<Rightarrow> VersionOption list \<Rightarrow> dropdown \<Rightarrow> (string \<times> string \<times> bool) list" where
  "dropdown_options h options s =
     (if dd_open s then map (\<lambda>o'. (vo_label o', fmtNum h (of_int (vo_calls o')) @ '' runs'', vo_id o' = dd_value s)) options
      else [])"

text \<open>The options of the filter on the page of a workflow (\<open>WorkflowDetailPage.tsx\<close>).\<close>

definition filter_options :: "WorkflowVersion list \<Rightarrow> VersionOption list" where
  "filter_options versions =
     \<lparr>vo_id = None, vo_label = ''All versions'', vo_calls = sum_list (map wv_calls versions)\<rparr> #
     map (\<lambda>v. \<lparr>vo_id = Some (wv_version v), vo_label = wv_version v, vo_calls = wv_calls v\<rparr>)
       (filter (\<lambda>v. wv_version v \<noteq> []) versions)"

subsection \<open>Blocks of the overview\<close>

definition SYNCED_JUST_NOW :: SyncStatus where
  [data_defs]: "SYNCED_JUST_NOW = \<lparr>st_label = ''Synced just now'', st_tone = Live\<rparr>"

record masthead =
  mh_eyebrow :: "string option"
  mh_title :: string
  mh_subtitle :: string
  mh_status :: string
  mh_colors :: "string \<times> string"

definition Masthead :: "string option \<Rightarrow> string \<Rightarrow> string \<Rightarrow> SyncStatus option \<Rightarrow> masthead" where
  "Masthead eyebrow title subtitl status =
     (let st = nullish status SYNCED_JUST_NOW in
      \<lparr>mh_eyebrow = (if truthy_str eyebrow then eyebrow else None), mh_title = title, mh_subtitle = subtitl,
       mh_status = st_label st, mh_colors = lu_colors (st_tone st)\<rparr>)"

text \<open>The titles of the charts side by side; the percentiles are not shown for long ranges.\<close>

definition chartsRow :: "string option \<Rightarrow> string \<times> string option" where
  "chartsRow rng =
     (if rng = Some ''24h'' then ''Hourly cost'' else ''Daily cost'',
      if isLongRange (nullish rng []) then None else Some (''Response time '' @ mid_dot @ '' p50 / p95 / p99''))"

record failures_block =
  fb_title :: string
  fb_subtitle :: string
  fb_strip :: bool
  fb_stats :: "(string \<times> string) list"

definition failuresBlock :: "host \<Rightarrow> string \<Rightarrow> ErrorPoint list option \<Rightarrow> int \<Rightarrow> string \<Rightarrow> failures_block" where
  "failuresBlock h rng series totalFailed worstWorkflow =
     \<lparr>fb_title = failures_title rng,
      fb_subtitle = ''Error count per '' @ (if rng = ''24h'' then ''hour'' else ''day'') @ '' across all workflows '' @ mid_dot
        @ '' hover for rate'',
      fb_strip = (case series of None \<Rightarrow> False | Some xs \<Rightarrow> xs \<noteq> []),
      fb_stats = [(''Total failed'', fmtNum h (of_int totalFailed)), (''Worst workflow'', worstWorkflow)]\<rparr>"

text \<open>A row of the most used workflows: name, bar in percent, runs and cost.\<close>

definition topWorkflows :: "host \<Rightarrow> (string \<times> int \<times> rat) list \<Rightarrow> (string \<times> rat \<times> string \<times> string) list" where
  "topWorkflows h rows =
     map (\<lambda>((name, calls, cost), bar). (name, bar, fmtNum h (of_int calls), fmtCost cost))
       (zip rows (workflow_bars (map (fst \<circ> snd) rows)))"

definition feed_button :: "ActivityItem list option \<Rightarrow> string" where
  "feed_button frozen = (if frozen \<noteq> None then ''Paused'' else ''Live'')"

record feed_row =
  fw_opens :: string
  fw_color :: string
  fw_workflow :: string
  fw_msg :: "string option"
  fw_latency :: string
  fw_time :: string

definition activityFeed :: "ActivityItem list \<Rightarrow> ActivityItem list option \<Rightarrow> feed_row list" where
  "activityFeed items frozen = map (\<lambda>it.
     \<lparr>fw_opens = ai_id it, fw_color = (if ai_status it = Failed then ''var(--error)'' else ''var(--accent)''),
      fw_workflow = ai_workflow it, fw_msg = (if truthy_str (ai_msg it) then ai_msg it else None),
      fw_latency = to_fixed 1 (ai_latency it) @ ''s'', fw_time = ai_time it\<rparr>) (feed_display items frozen)"

subsection \<open>Properties\<close>

fun arrow_sign :: "delta_arrow option \<Rightarrow> string" where
  "arrow_sign (Some ArrowUp) = ''+''"
| "arrow_sign (Some ArrowDown) = ''-''"
| "arrow_sign _ = []"

text \<open>The change printed on a tile loses nothing: its arrow and its text give back the change of the item, and the
  arrow of a change formatted by the dashboard that does not round to zero points up exactly for a rise and down exactly for a fall.\<close>

theorem kpi_delta_readable:
  assumes "ki_delta it = Some d" "d \<noteq> []"
  shows "\<exists>v. kpi_delta_view it = Some v \<and> arrow_sign (dv_arrow v) @ dv_text v = d \<and>
    (\<forall>f. d = fmtDelta (Fin f) \<and> 1 / 2000 \<le> \<bar>f\<bar> \<longrightarrow>
       (dv_arrow v = Some ArrowUp \<longleftrightarrow> f > 0) \<and> (dv_arrow v = Some ArrowDown \<longleftrightarrow> f < 0))"
proof -
  obtain c r where d: "d = c # r" using assms(2) by (cases d) auto
  define v where "v = \<lparr>dv_arrow = (if starts_with d ''+'' then Some ArrowUp else if starts_with d ''-'' then Some ArrowDown
            else if ki_deltaTone it = Some Neutral then Some ArrowRight else None),
          dv_text = strip_sign d, dv_color = DELTA_COLOR (nullish (ki_deltaTone it) Neutral)\<rparr>"
  have "kpi_delta_view it = Some v" using assms by (simp add: kpi_delta_view_def v_def)
  moreover have "arrow_sign (dv_arrow v) @ dv_text v = d"
    by (auto simp: v_def d strip_sign_def)
  moreover have "(dv_arrow v = Some ArrowUp \<longleftrightarrow> f > 0) \<and> (dv_arrow v = Some ArrowDown \<longleftrightarrow> f < 0)"
    if "d = fmtDelta (Fin f)" "1 / 2000 \<le> \<bar>f\<bar>" for f
    using fmtDelta_sign [OF that(2)] that(1) by (auto simp: v_def)
  ultimately show ?thesis by blast
qed

theorem kpi_delta_readable_witness:
  "map_option dv_arrow (kpi_delta_view \<lparr>ki_label = ''Spend'', ki_value = ''$1'', ki_delta = Some ''-4%'', ki_deltaTone = Some Good,
     ki_sparkData = None, ki_sparkColor = None, ki_hint = None\<rparr>) = Some (Some ArrowDown)"
  using kpi_delta_readable [of "\<lparr>ki_label = ''Spend'', ki_value = ''$1'', ki_delta = Some ''-4%'', ki_deltaTone = Some Good,
     ki_sparkData = None, ki_sparkColor = None, ki_hint = None\<rparr>" "''-4%''"]
  by (simp add: kpi_delta_view_def)

definition lu_inv :: "last_updated \<Rightarrow> bool" where
  "lu_inv s \<longleftrightarrow> lu_due s = Some (lu_now s + 10000) \<and> lu_now s \<le> lu_clock s \<and> lu_clock s \<le> lu_now s + 10000"

interpretation updating: invariant_system "\<lambda>s. \<exists>t. s = lu_mount True t" lu_step lu_inv
proof
  show "\<exists>t. s = lu_mount True t \<Longrightarrow> lu_inv s" for s by (auto simp: lu_mount_def lu_effect_def lu_inv_def)
  show "lu_inv s \<Longrightarrow> lu_step s s' \<Longrightarrow> lu_inv s'" for s s' by (auto simp: lu_inv_def elim!: lu_stepE)
qed

text \<open>While the time of the last update is shown, the time it counts from is never more than ten seconds behind the
  clock, and the next refresh is always due.\<close>

theorem last_updated_fresh:
  assumes "reach (\<lambda>s. \<exists>t. s = lu_mount True t) lu_step s"
  shows "0 \<le> lu_clock s - lu_now s \<and> lu_clock s - lu_now s \<le> 10000 \<and>
    (\<exists>s'. lu_step s s' \<and> lu_now s' = lu_now s + 10000)"
proof -
  have inv: "lu_inv s" using assms by (rule updating.reach_inv)
  then have "lu_step s \<lparr>lu_now = lu_now s + 10000, lu_due = Some (lu_now s + 10000 + 10000), lu_clock = lu_now s + 10000\<rparr>"
    by (intro lu_step.tick) (simp add: lu_inv_def)
  then show ?thesis using inv by (intro conjI exI [of _ "\<lparr>lu_now = lu_now s + 10000, lu_due = Some (lu_now s + 10000 + 10000),
      lu_clock = lu_now s + 10000\<rparr>"]) (simp_all add: lu_inv_def)
qed

theorem last_updated_fresh_witness: "lu_clock (lu_mount True 5) - lu_now (lu_mount True 5) \<le> 10000"
  using last_updated_fresh [of "lu_mount True 5"] by (blast intro: reach_init)

text \<open>Every row of the table of runs has a cell under each heading and opens its own run, in the order given.\<close>

theorem runs_table_rows:
  assumes "runsTable runs emptyText showVersion = (heads, RunsRows rows)"
  shows "map rc_opens rows = map rr_id runs \<and> (\<forall>r\<in>set rows. length (rc_cells r) = length heads)"
  using assms by (auto simp: runsTable_def runs_head_def run_cells_of_def split: if_splits)

theorem runs_table_rows_witness:
  "length (fst (runsTable [\<lparr>rr_id = ''t1'', rr_name = None, rr_status = Failed, rr_time = ''now'', rr_duration = 1, rr_cost = 0,
     rr_err = None, rr_version = None\<rparr>] None True)) = 6"
  using runs_table_rows [of "[\<lparr>rr_id = ''t1'', rr_name = None, rr_status = Failed, rr_time = ''now'', rr_duration = 1, rr_cost = 0,
     rr_err = None, rr_version = None\<rparr>]" None True "runs_head True"]
  by (simp add: runsTable_def runs_head_def run_cells_of_def)

lemma filter_by_key: "distinct (map k xs) \<Longrightarrow> x \<in> set xs \<Longrightarrow> filter (\<lambda>y. k y = k x) xs = [x]"
proof (induction xs)
  case (Cons a xs)
  show ?case
  proof (cases "a = x")
    case True
    with Cons.prems have "filter (\<lambda>y. k y = k x) xs = []" by (auto simp: filter_empty_conv image_iff)
    with True show ?thesis by simp
  next
    case False
    with Cons.prems have "x \<in> set xs" "k a \<noteq> k x" "distinct (map k xs)" by (auto simp: image_iff)
    with Cons.IH show ?thesis by simp
  qed
qed simp

lemma distinct_filter_options:
  "distinct (map wv_version versions) \<Longrightarrow> distinct (map vo_id (filter_options versions))"
  by (auto simp: filter_options_def distinct_map o_def intro!: inj_onI dest: inj_onD)

text \<open>Choosing an option of the version filter closes the menu and makes it the value; opened again, the menu marks
  exactly that option.\<close>

theorem version_choice_marked:
  assumes "distinct (map wv_version versions)" "o' \<in> set (filter_options versions)"
  shows "let s' = dropdown_pick (\<lambda>j _. j) (vo_id o') s in
    \<not> dd_open s' \<and> dd_value s' = vo_id o' \<and>
    filter (\<lambda>(_, _, sel). sel) (dropdown_options h (filter_options versions) (dropdown_toggle s')) =
      [(vo_label o', fmtNum h (of_int (vo_calls o')) @ '' runs'', True)]"
proof -
  let ?s = "dropdown_pick (\<lambda>j _. j) (vo_id o') s"
  have s: "?s = \<lparr>dd_open = False, dd_value = vo_id o'\<rparr>" by (simp add: dropdown_pick_def pick_version_def)
  have "filter (\<lambda>x. vo_id x = vo_id o') (filter_options versions) = [o']"
    using distinct_filter_options [OF assms(1)] assms(2) by (rule filter_by_key)
  then show ?thesis by (simp add: s Let_def dropdown_options_def dropdown_toggle_def filter_map o_def)
qed

definition demo_version :: WorkflowVersion where
  "demo_version = \<lparr>wv_version = ''v1'', wv_first_seen_ms = 0, wv_last_seen_ms = 9, wv_calls = 3, wv_cost = 1, wv_cost_per_run = 1 / 3,
     wv_p95_latency_ms = None, wv_error_rate = 0, wv_tokens_per_run = 7\<rparr>"

theorem version_choice_marked_witness:
  "dd_value (dropdown_pick (\<lambda>j _. j) (Some ''v1'') \<lparr>dd_open = True, dd_value = None\<rparr>) = Some ''v1''"
proof -
  have "distinct (map wv_version [demo_version])"
    "\<lparr>vo_id = Some ''v1'', vo_label = ''v1'', vo_calls = 3\<rparr> \<in> set (filter_options [demo_version])"
    by (simp_all add: filter_options_def demo_version_def)
  from version_choice_marked [OF this, of "\<lparr>dd_open = True, dd_value = None\<rparr>"] show ?thesis by (simp add: Let_def)
qed

end
