(* ===== verification/Usage.thy ===== *)
theory Usage
  imports Formatters
begin

text \<open>
  The usage pages' data: mappers of the API buckets (\<open>modules/usage/utils/mappers.ts\<close>, \<open>UsageLivePage.tsx\<close>), tiles
  (\<open>kpis.ts\<close>), axes (\<open>axis.ts\<close>) and keyboard-operable rows (\<open>rowButton.ts\<close>). The power of ten that
  \<open>10^floor(log10 v)\<close> denotes is found by multiplying or dividing by ten.
\<close>

subsection \<open>Mappers (mappers.ts)\<close>

definition UNATTRIBUTED :: string where
  [data_defs]: "UNATTRIBUTED = em_dash"

definition MODEL_COLORS :: "string list" where
  [data_defs]: "MODEL_COLORS = [''var(--accent)'', ''#7aa5ff'', ''#c08aff'', ''#f5a524'', ''#6366f1'', ''#34d399'']"

definition usage_bucketLabel :: "host \<Rightarrow> int \<Rightarrow> string \<Rightarrow> string" where
  "usage_bucketLabel h ms rng =
     (if rng = ''24h'' then pad_start 2 (CHR ''0'') (nat_str (local_hours h ms)) @ '':00''
      else int_str (get_utc_month ms + 1) @ ''/'' @ int_str (get_utc_date ms))"

definition runs_by_bucket :: "ErrorBucket list \<Rightarrow> (int, int) jsmap" where
  "runs_by_bucket errors = jm_of (map (\<lambda>e. (eb_bucket_ms e, eb_total e)) errors)"

definition toDailySeries :: "host \<Rightarrow> CostBucket list \<Rightarrow> ErrorBucket list \<Rightarrow> string \<Rightarrow> DailySeriesPoint list" where
  "toDailySeries h cost errors rng =
     (let runs = runs_by_bucket errors in
      map (\<lambda>c. \<lparr>ds_label = usage_bucketLabel h (cb_bucket_ms c) rng, ds_cost = cb_value c,
                ds_runs = nullish (jm_get runs (cb_bucket_ms c)) 0\<rparr>) cost)"

definition toTokenSeries :: "host \<Rightarrow> TokenBucket list \<Rightarrow> ErrorBucket list \<Rightarrow> string \<Rightarrow> TokenSeriesPoint list" where
  "toTokenSeries h tokens errors rng =
     (let runs = runs_by_bucket errors in
      map (\<lambda>t. \<lparr>ts_label = usage_bucketLabel h (tb_bucket_ms t) rng, ts_input = tb_input_tokens t,
                ts_output = tb_output_tokens t, ts_runs = nullish (jm_get runs (tb_bucket_ms t)) 0\<rparr>) tokens)"

definition toModelSummaries :: "ModelCost list \<Rightarrow> ModelSummary list" where
  "toModelSummaries models =
     map (\<lambda>(m, i). \<lparr>ms_name = mc_name m, ms_cost = mc_cost m, ms_runs = mc_calls m, ms_inputTokens = mc_input_tokens m,
                    ms_outputTokens = mc_output_tokens m, ms_color = MODEL_COLORS ! (i mod length MODEL_COLORS)\<rparr>)
       (zip models [0..<length models])"

definition avg_cost :: "rat \<Rightarrow> int \<Rightarrow> rat" where
  "avg_cost cost runs = (if runs > 0 then cost / of_int runs else 0)"

definition toWorkflowSummaries :: "WorkflowUsage list \<Rightarrow> WorkflowSummary list" where
  "toWorkflowSummaries workflows =
     map (\<lambda>a. \<lparr>ws_name = wu_name a, ws_cost = wu_cost a, ws_costPrev = wu_cost_prev a, ws_runs = wu_runs a,
               ws_runsPrev = wu_runs_prev a, ws_avg = avg_cost (wu_cost a) (wu_runs a), ws_model = wu_model a\<rparr>) workflows"

definition toUserSummaries :: "UserUsage list \<Rightarrow> UserSummary list" where
  "toUserSummaries users =
     map (\<lambda>t. \<lparr>us_id = (if uu_user_id t = [] then UNATTRIBUTED else uu_user_id t),
               us_name = (if uu_user_id t = [] then ''default'' else uu_user_id t),
               us_cost = uu_cost t, us_costPrev = uu_cost_prev t, us_runs = uu_runs t, us_runsPrev = uu_runs_prev t,
               us_avg = avg_cost (uu_cost t) (uu_runs t), us_trend = uu_trend t\<rparr>) users"

definition toAttributeSummaries :: "AttributeUsage list \<Rightarrow> AttributeSummary list" where
  "toAttributeSummaries rows =
     map (\<lambda>r. \<lparr>as_name = (if au_value r = [] then UNATTRIBUTED else au_value r), as_cost = au_cost r, as_costPrev = 0,
               as_runs = au_runs r, as_runsPrev = 0, as_avg = avg_cost (au_cost r) (au_runs r)\<rparr>) rows"

definition sumCost :: "rat list \<Rightarrow> rat" where
  "sumCost costs = foldl (\<lambda>s c. s + c) 0 costs"

subsection \<open>Tiles (kpis.ts)\<close>

definition spendTile :: "KpiSet \<Rightarrow> KpiItem" where
  "spendTile kpis =
     (let d = deltaParts (ks_cost kpis) in
      \<lparr>ki_label = ''Spend'', ki_value = fmtCost (kpi_value (ks_cost kpis)), ki_delta = Some (dp_delta d),
       ki_deltaTone = Some (dp_deltaTone d), ki_sparkData = None, ki_sparkColor = None, ki_hint = Some (dp_hint d)\<rparr>)"

definition runsTile :: "host \<Rightarrow> KpiSet \<Rightarrow> KpiItem" where
  "runsTile h kpis =
     (let runs = kpi_value (ks_runs kpis);
          avgPer1k = (if runs > 0 then kpi_value (ks_cost kpis) / runs * 1000 else 0);
          d = deltaParts (ks_runs kpis) in
      \<lparr>ki_label = ''Runs'', ki_value = fmtNum h (of_int (math_round runs)), ki_delta = Some (dp_delta d),
       ki_deltaTone = Some (dp_deltaTone d), ki_sparkData = None, ki_sparkColor = None,
       ki_hint = Some (fmtCost avgPer1k @ '' / 1K runs'')\<rparr>)"

definition tokensTile :: "rat option \<Rightarrow> KpiItem" where
  "tokensTile tokens =
     \<lparr>ki_label = ''Tokens'', ki_value = (case tokens of None \<Rightarrow> em_dash | Some t \<Rightarrow> fmtTokens t), ki_delta = None,
      ki_deltaTone = None, ki_sparkData = None, ki_sparkColor = None, ki_hint = Some ''input + output''\<rparr>"

subsection \<open>Axes (axis.ts)\<close>

function mag_up :: "rat \<Rightarrow> rat \<Rightarrow> rat" where
  "mag_up m v = (if 0 < m \<and> 10 * m \<le> v then mag_up (10 * m) v else m)"
  by pat_completeness auto
termination
proof (relation "measure (\<lambda>(m, v). nat \<lfloor>v / m\<rfloor>)", goal_cases)
  case (2 m v)
  then have "v / (10 * m) < v / m - 1" by (simp add: field_simps)
  moreover have "1 \<le> v / (10 * m)" using 2 by (simp add: field_simps)
  ultimately have "\<lfloor>v / (10 * m)\<rfloor> < \<lfloor>v / m\<rfloor>" "0 \<le> \<lfloor>v / (10 * m)\<rfloor>" by linarith+
  then have "nat \<lfloor>v / (10 * m)\<rfloor> < nat \<lfloor>v / m\<rfloor>" by linarith
  then show ?case by (simp only: in_measure prod.case)
qed simp

lemma ceiling_tenth: "1 < x \<Longrightarrow> nat \<lceil>x / 10\<rceil> < nat \<lceil>x :: rat\<rceil>"
proof -
  assume x: "1 < x"
  show ?thesis
  proof (cases "x \<le> 10")
    case True
    then have "\<lceil>x / 10\<rceil> \<le> 1" by (simp add: ceiling_le_iff)
    moreover have "1 < \<lceil>x\<rceil>" using x by (simp add: less_ceiling_iff)
    ultimately show ?thesis by linarith
  next
    case False
    have "of_int \<lceil>x / 10\<rceil> < x / 10 + 1" "x \<le> of_int \<lceil>x\<rceil>" using ceiling_correct [of "x / 10"] by simp_all
    then have "(of_int \<lceil>x / 10\<rceil> :: rat) < of_int \<lceil>x\<rceil>" using False by linarith
    then show ?thesis using False by simp
  qed
qed

function mag_down :: "rat \<Rightarrow> rat \<Rightarrow> rat" where
  "mag_down m v = (if 0 < v \<and> v < m then mag_down (m / 10) v else m)"
  by pat_completeness auto
termination
proof (relation "measure (\<lambda>(m, v). nat \<lceil>m / v\<rceil>)", goal_cases)
  case (2 m v)
  then have "1 < m / v" by (simp add: field_simps)
  from ceiling_tenth [OF this] have "nat \<lceil>m / 10 / v\<rceil> < nat \<lceil>m / v\<rceil>" by (simp add: mult.commute)
  then show ?case by (simp only: in_measure prod.case)
qed simp

declare mag_up.simps [simp del] mag_down.simps [simp del]

definition magnitude :: "rat \<Rightarrow> rat" where
  "magnitude v = (if 1 \<le> v then mag_up 1 v else mag_down 1 v)"

definition niceCeil :: "rat \<Rightarrow> rat" where
  "niceCeil v =
     (if v \<le> 0 then 1
      else (let mag = magnitude v; n = v / mag;
                step = (if n \<le> 1 then 1 else if n \<le> 2 then 2 else if n \<le> 5 then 5 else 10) in step * mag))"

definition tickIndices :: "int \<Rightarrow> int list" where
  "tickIndices n =
     (if n \<le> 1 then [0]
      else first_by (\<lambda>i. i) [] (map (\<lambda>t. math_round (of_int (n - 1) * t)) [0, 1 / 4, 1 / 2, 3 / 4, 1]))"

subsection \<open>Rows as buttons (rowButton.ts)\<close>

text \<open>Whether a key press on a row activates it.\<close>

definition rowButton_activates :: "string \<Rightarrow> bool \<Rightarrow> bool" where
  "rowButton_activates key repeat \<longleftrightarrow> \<not> repeat \<and> (key = ''Enter'' \<or> key = '' '')"

subsection \<open>Facts\<close>

definition pow10 :: "rat \<Rightarrow> bool" where
  "pow10 m \<longleftrightarrow> (\<exists>k. m = 10 ^ k \<or> m = 1 / 10 ^ k)"

lemma mag_up_spec: "0 < m \<Longrightarrow> m \<le> v \<Longrightarrow> m = 10 ^ k \<Longrightarrow> \<exists>j. mag_up m v = 10 ^ j \<and> mag_up m v \<le> v \<and> v < 10 * mag_up m v"
proof (induction m v arbitrary: k rule: mag_up.induct)
  case (1 m v)
  show ?case
  proof (cases "10 * m \<le> v")
    case True
    then have "mag_up m v = mag_up (10 * m) v" using 1(2) by (simp add: mag_up.simps [of m v])
    then show ?thesis using 1(1) [of "Suc k"] 1(2-4) True by simp
  next
    case False
    then have "mag_up m v = m" by (simp add: mag_up.simps [of m v])
    then show ?thesis using 1(2-4) False by auto
  qed
qed

lemma mag_down_spec:
  "0 < v \<Longrightarrow> v < 10 * m \<Longrightarrow> m = 1 / 10 ^ k \<Longrightarrow> \<exists>j. mag_down m v = 1 / 10 ^ j \<and> mag_down m v \<le> v \<and> v < 10 * mag_down m v"
proof (induction m v arbitrary: k rule: mag_down.induct)
  case (1 m v)
  show ?case
  proof (cases "v < m")
    case True
    then have "mag_down m v = mag_down (m / 10) v" using 1(2) by (simp add: mag_down.simps [of m v])
    then show ?thesis using 1(1) [of "Suc k"] 1(2-4) True by simp
  next
    case False
    then have "mag_down m v = m" by (simp add: mag_down.simps [of m v])
    then show ?thesis using 1(2-4) False by auto
  qed
qed

lemma magnitude_spec: "0 < v \<Longrightarrow> pow10 (magnitude v) \<and> magnitude v \<le> v \<and> v < 10 * magnitude v"
  using mag_up_spec [of 1 v 0] mag_down_spec [of v 1 0] by (auto simp: magnitude_def pow10_def)

lemma pow10_pos: "pow10 m \<Longrightarrow> 0 < m"
  by (auto simp: pow10_def)

lemma nice_step:
  "1 \<le> n \<Longrightarrow> n < 10 \<Longrightarrow>
     let s = (if n \<le> 1 then 1 else if n \<le> 2 then 2 else if n \<le> 5 then 5 else 10) in n \<le> s \<and> s \<le> 5 / 2 * (n :: rat)"
  by (auto simp: Let_def)

lemma sumCost_sum_list: "sumCost cs = sum_list cs"
proof -
  have "foldl (\<lambda>s c. s + c) a cs = a + sum_list cs" for a :: rat
    by (induction cs arbitrary: a) (auto simp: add.assoc)
  then show ?thesis by (simp add: sumCost_def)
qed

subsection \<open>Properties\<close>

text \<open>The top of an axis is a clean number that covers the data without dwarfing it: 1, 2, 5 or 10 times
  a power of ten, at least the value and at most two and a half times it.\<close>

theorem niceCeil_covers:
  assumes "0 < v"
  shows "\<exists>s \<in> {1, 2, 5, 10}. \<exists>m. pow10 m \<and> niceCeil v = s * m \<and> v \<le> niceCeil v \<and> niceCeil v \<le> 5 / 2 * v"
proof -
  define m n st where "m = magnitude v" "n = v / m"
    "st = (if n \<le> 1 then 1 else if n \<le> 2 then 2 else if n \<le> 5 then 5 else (10 :: rat))"
  note defs = this
  have m: "pow10 m" "0 < m" "m \<le> v" "v < 10 * m" using magnitude_spec [OF assms] pow10_pos by (auto simp: defs(1))
  have n: "1 \<le> n" "n < 10" "v = n * m" using m by (simp_all add: defs(2) field_simps)
  have c: "niceCeil v = st * m" using assms by (simp add: niceCeil_def Let_def defs)
  have "n \<le> st" "st \<le> 5 / 2 * n" using nice_step [OF n(1,2)] by (simp_all only: Let_def defs(3))
  then have "n * m \<le> st * m" "st * m \<le> 5 / 2 * n * m" using m(2) by (simp_all add: mult_right_mono)
  then have "v \<le> niceCeil v" "niceCeil v \<le> 5 / 2 * v" using n(3) c by (simp_all add: mult.assoc)
  moreover have "st \<in> {1, 2, 5, 10}" by (simp add: defs(3))
  ultimately show ?thesis using c m(1) by blast
qed

theorem niceCeil_covers_witness: "\<exists>s \<in> {1, 2, 5, 10}. \<exists>m. pow10 m \<and> niceCeil (37 / 100) = s * m"
  using niceCeil_covers [of "37 / 100"] by auto

text \<open>The ticks of an axis with \<open>n\<close> buckets are at most five distinct positions in ascending order, from the
  first bucket to the last, all inside the series.\<close>

theorem tickIndices_spread:
  assumes "0 < n"
  shows "sorted_wrt (<) (tickIndices n) \<and> length (tickIndices n) \<le> 5 \<and> hd (tickIndices n) = 0 \<and>
    last (tickIndices n) = n - 1 \<and> set (tickIndices n) \<subseteq> {0..n - 1}"
proof (cases "n = 1")
  case True
  then show ?thesis by (simp add: tickIndices_def)
next
  case False
  define q h t where "q = math_round (of_int (n - 1) * (1 / 4))" "h = math_round (of_int (n - 1) * (1 / 2))"
    "t = math_round (of_int (n - 1) * (3 / 4))"
  have r: "tickIndices n = first_by (\<lambda>i. i) [] [0, q, h, t, n - 1]"
    using False assms math_round_of_int [of 0] math_round_of_int [of "n - 1"]
    by (simp add: tickIndices_def q_h_t_def del: math_round_of_int)
  have "0 \<le> (of_int (n - 1) :: rat)" using assms by simp
  then have "math_round 0 \<le> q" "q \<le> h" "h \<le> t" "t \<le> math_round (of_int (n - 1))"
    unfolding q_h_t_def by (auto intro!: math_round_mono)
  then have "math_round (of_int 0) \<le> q" "q \<le> h" "h \<le> t" "t \<le> math_round (of_int (n - 1))" by simp_all
  then have "0 \<le> q" "q \<le> h" "h \<le> t" "t \<le> n - 1" by (simp_all only: math_round_of_int)
  then show ?thesis unfolding r using False assms by auto
qed

theorem tickIndices_spread_witness: "last (tickIndices 30) = 29 \<and> hd (tickIndices 30) = 0"
  using tickIndices_spread [of 30] by simp

text \<open>A bucket of the daily series carries the runs of the error bucket with the same start, or zero
  without one: for error buckets with distinct starts no run is attributed to another bucket.\<close>

theorem toDailySeries_pairs:
  assumes "distinct (map eb_bucket_ms errors)"
  shows "length (toDailySeries h cost errors rng) = length cost \<and>
    (\<forall>i < length cost. ds_cost (toDailySeries h cost errors rng ! i) = cb_value (cost ! i) \<and>
       (\<forall>e \<in> set errors. eb_bucket_ms e = cb_bucket_ms (cost ! i) \<longrightarrow>
          ds_runs (toDailySeries h cost errors rng ! i) = eb_total e) \<and>
       (cb_bucket_ms (cost ! i) \<notin> eb_bucket_ms ` set errors \<longrightarrow> ds_runs (toDailySeries h cost errors rng ! i) = 0))"
proof -
  have some: "jm_get (runs_by_bucket errors) (cb_bucket_ms c) = Some (eb_total e)"
    if "e \<in> set errors" "eb_bucket_ms e = cb_bucket_ms c" for e and c :: CostBucket
    unfolding runs_by_bucket_def jm_get_of that(2) [symmetric] using assms that(1)
    by (intro map_of_is_SomeI) (auto simp: comp_def simp flip: rev_map)
  have none: "jm_get (runs_by_bucket errors) k = None" if "k \<notin> eb_bucket_ms ` set errors" for k
    unfolding runs_by_bucket_def jm_get_of using that by (auto simp: map_of_eq_None_iff)
  show ?thesis using some none by (simp add: toDailySeries_def Let_def)
qed

theorem toDailySeries_pairs_witness:
  "\<forall>h. ds_runs (toDailySeries h [\<lparr>cb_bucket_ms = 5, cb_value = 3\<rparr>] [\<lparr>eb_bucket_ms = 5, eb_errors = 0, eb_total = 9\<rparr>] ''24h'' ! 0) = 9"
  using toDailySeries_pairs [of "[\<lparr>eb_bucket_ms = 5, eb_errors = 0, eb_total = 9\<rparr>]" _ "[\<lparr>cb_bucket_ms = 5, cb_value = 3\<rparr>]" "''24h''"]
  by simp

end
