(* ===== verification/Breakdown.thy ===== *)
theory Breakdown
  imports Usage Query_Hooks
begin

text \<open>
  The usage page: its charts (\<open>modules/usage/components/DailyChart.tsx\<close>, \<open>TokenChart.tsx\<close>, \<open>ModelsList.tsx\<close>), the
  breakdown of spend by client, workflow and attribute (\<open>Breakdown.tsx\<close>), the state of the live page
  (\<open>pages/UsageLivePage.tsx\<close>) and the demo data with its page (\<open>data.ts\<close>, \<open>pages/UsagePage.tsx\<close>). A chart is the list
  of the figures it draws: percentages, labels and the text of its tooltips. Collation of names
  (\<open>localeCompare\<close>), \<open>toLowerCase\<close> on typed text and the trigonometric functions are parameters.
\<close>

subsection \<open>Charts\<close>

record bar_tip =
  bt_label :: string
  bt_value :: string
  bt_lines :: "string list"

record chart_bar =
  cb_height :: rat
  cb_split :: rat
  cb_tip :: bar_tip

datatype tick_place = StartTick | EndTick | MidTick

record chart =
  ch_top :: string
  ch_mid :: string
  ch_zero :: string
  ch_bars :: "chart_bar list"
  ch_line :: "(rat \<times> rat) list"
  ch_ticks :: "(tick_place \<times> string option) list"

text \<open>\<open>Math.max(lo, ...xs)\<close>.\<close>

definition max_from :: "rat \<Rightarrow> rat list \<Rightarrow> rat" where
  "max_from lo xs = foldl max lo xs"

definition x_ticks :: "string list \<Rightarrow> (tick_place \<times> string option) list" where
  "x_ticks labels =
     map (\<lambda>i. (if i = 0 then StartTick else if i = int (length labels) - 1 then EndTick else MidTick,
               if 0 \<le> i \<and> i < int (length labels) then Some (labels ! nat i) else None))
       (tickIndices (int (length labels)))"

definition dailyChart :: "host \<Rightarrow> DailySeriesPoint list \<Rightarrow> chart" where
  "dailyChart h series =
     (let niceMax = niceCeil (max_from 0 (map ds_cost series));
          runsMax = niceCeil (max_from 1 (map (\<lambda>d. of_int (ds_runs d)) series)) in
      \<lparr>ch_top = fmtCost niceMax, ch_mid = fmtCost (niceMax / 2), ch_zero = ''$0'',
       ch_bars = map (\<lambda>d. \<lparr>cb_height = ds_cost d / niceMax * 100, cb_split = 0,
         cb_tip = \<lparr>bt_label = ds_label d, bt_value = fmtCost (ds_cost d),
                   bt_lines = [fmtNum h (of_int (ds_runs d)) @ '' runs'']\<rparr>\<rparr>) series,
       ch_line = (if length series > 1
         then map (\<lambda>(d, i). (of_nat i + 1 / 2, 100 - of_int (ds_runs d) / runsMax * 100)) (zip series [0..<length series])
         else []),
       ch_ticks = x_ticks (map ds_label series)\<rparr>)"

definition token_total :: "TokenSeriesPoint \<Rightarrow> rat" where
  "token_total d = of_int (ts_input d + ts_output d)"

definition out_share :: "rat \<Rightarrow> rat \<Rightarrow> rat" where
  "out_share output tot = (if tot > 0 then output / tot * 100 else 0)"

definition tokenChart :: "host \<Rightarrow> TokenSeriesPoint list \<Rightarrow> chart" where
  "tokenChart h series =
     (let niceMax = niceCeil (max_from 0 (map token_total series)) in
      \<lparr>ch_top = fmtTokens niceMax, ch_mid = fmtTokens (niceMax / 2), ch_zero = ''0'',
       ch_bars = map (\<lambda>d. let tot = token_total d in
         \<lparr>cb_height = tot / niceMax * 100, cb_split = out_share (of_int (ts_output d)) tot,
          cb_tip = \<lparr>bt_label = ts_label d, bt_value = fmtTokens tot @ '' tokens'',
            bt_lines = (fmtTokens (of_int (ts_input d)) @ '' in '' @ mid_dot @ '' '' @ fmtTokens (of_int (ts_output d)) @ '' out'')
              # (if ts_runs d > 0 then [fmtNum h (of_int (math_round (tot / of_int (ts_runs d)))) @ '' per run''] else [])\<rparr>\<rparr>)
         series,
       ch_line = [], ch_ticks = x_ticks (map ts_label series)\<rparr>)"

record token_mix =
  tm_outShare :: rat
  tm_rows :: "(string \<times> string) list"

definition tokenMix :: "host \<Rightarrow> TokenSeriesPoint list \<Rightarrow> token_mix" where
  "tokenMix h series =
     (let input = foldl (\<lambda>s d. s + ts_input d) 0 series; output = foldl (\<lambda>s d. s + ts_output d) 0 series;
          runs = foldl (\<lambda>s d. s + ts_runs d) 0 series; tot = of_int (input + output);
          share = out_share (of_int output) tot in
      \<lparr>tm_outShare = share,
       tm_rows = [(''Input'', fmtTokens (of_int input)), (''Output'', fmtTokens (of_int output)),
         (''Output share'', to_fixed 0 share @ ''%''),
         (''Per run'', if runs > 0 then fmtNum h (of_int (math_round (tot / of_int runs))) else em_dash)]\<rparr>)"

record model_row =
  mr_name :: string
  mr_swatch :: string
  mr_cost :: string
  mr_pct :: rat
  mr_pctText :: string
  mr_meta :: "string list"

definition modelsList :: "host \<Rightarrow> ModelSummary list \<Rightarrow> model_row list" where
  "modelsList h models =
     (let s = foldl (\<lambda>s m. s + ms_cost m) 0 models; tot = (if s = 0 then 1 else s) in
      map (\<lambda>m. let pct = ms_cost m / tot * 100 in
        \<lparr>mr_name = ms_name m, mr_swatch = ms_color m, mr_cost = fmtCost (ms_cost m), mr_pct = pct,
         mr_pctText = to_fixed 0 pct @ ''%'',
         mr_meta = [fmtNum h (of_int (ms_runs m)) @ '' runs'',
                    fmtTokens (of_int (ms_inputTokens m + ms_outputTokens m)) @ '' tokens'']\<rparr>) models)"

subsection \<open>The breakdown (Breakdown.tsx)\<close>

datatype BreakdownTab = UserTab | WorkflowTab | AttributeTab
datatype SortKey = ByName | ByRuns | ByAvg | ByCost
datatype BreakdownRowData = UserRow UserSummary | WorkflowRow WorkflowSummary | AttributeRow AttributeSummary

fun row_name :: "BreakdownRowData \<Rightarrow> string" where
  "row_name (UserRow u) = us_name u" | "row_name (WorkflowRow w) = ws_name w" | "row_name (AttributeRow a) = as_name a"
fun row_cost :: "BreakdownRowData \<Rightarrow> rat" where
  "row_cost (UserRow u) = us_cost u" | "row_cost (WorkflowRow w) = ws_cost w" | "row_cost (AttributeRow a) = as_cost a"
fun row_costPrev :: "BreakdownRowData \<Rightarrow> rat" where
  "row_costPrev (UserRow u) = us_costPrev u" | "row_costPrev (WorkflowRow w) = ws_costPrev w"
| "row_costPrev (AttributeRow a) = as_costPrev a"
fun row_runs :: "BreakdownRowData \<Rightarrow> int" where
  "row_runs (UserRow u) = us_runs u" | "row_runs (WorkflowRow w) = ws_runs w" | "row_runs (AttributeRow a) = as_runs a"
fun row_runsPrev :: "BreakdownRowData \<Rightarrow> int" where
  "row_runsPrev (UserRow u) = us_runsPrev u" | "row_runsPrev (WorkflowRow w) = ws_runsPrev w"
| "row_runsPrev (AttributeRow a) = as_runsPrev a"
fun row_avg :: "BreakdownRowData \<Rightarrow> rat" where
  "row_avg (UserRow u) = us_avg u" | "row_avg (WorkflowRow w) = ws_avg w" | "row_avg (AttributeRow a) = as_avg a"
fun row_id :: "BreakdownRowData \<Rightarrow> string" where
  "row_id (UserRow u) = us_id u" | "row_id (WorkflowRow w) = ws_name w" | "row_id (AttributeRow a) = as_name a"

record ColDef =
  cd_key :: string
  cd_label :: string
  cd_w :: string
  cd_sortable :: bool
  cd_right :: bool

definition col :: "string \<Rightarrow> string \<Rightarrow> string \<Rightarrow> bool \<Rightarrow> bool \<Rightarrow> ColDef" where
  "col k l w s r = \<lparr>cd_key = k, cd_label = l, cd_w = w, cd_sortable = s, cd_right = r\<rparr>"

definition figure_cols :: "ColDef list" where
  [data_defs]: "figure_cols =
     [col ''runs'' ''Runs'' ''110px'' True True, col ''avg'' ''Avg / 1K'' ''116px'' True True,
      col ''cost'' ''Cost'' ''118px'' True True, col ''share'' ''Share'' ''minmax(140px, 1fr)'' False False]"

definition USER_COLS :: "ColDef list" where
  [data_defs]: "USER_COLS = [col ''name'' ''Client'' ''minmax(220px, 1.4fr)'' True False,
     col ''trend'' ''Trend'' ''78px'' False False] @ figure_cols"

definition WORKFLOW_COLS :: "ColDef list" where
  [data_defs]: "WORKFLOW_COLS = col ''name'' ''Workflow'' ''minmax(220px, 1.4fr)'' True False # figure_cols"

definition ATTRIBUTE_COLS :: "ColDef list" where
  [data_defs]: "ATTRIBUTE_COLS = col ''name'' ''Value'' ''minmax(220px, 1.4fr)'' True False # figure_cols"

definition breakdown_cols :: "BreakdownTab \<Rightarrow> string \<Rightarrow> ColDef list" where
  "breakdown_cols kind nameLabel =
     (let base = (case kind of UserTab \<Rightarrow> USER_COLS | WorkflowTab \<Rightarrow> WORKFLOW_COLS | AttributeTab \<Rightarrow> ATTRIBUTE_COLS) in
      if kind = AttributeTab \<and> nameLabel \<noteq> []
      then map (\<lambda>c. if cd_key c = ''name'' then c\<lparr>cd_label := nameLabel\<rparr> else c) base else base)"

definition pctChange :: "rat \<Rightarrow> rat \<Rightarrow> rat option" where
  "pctChange cur prev = (if prev = 0 then None else Some ((cur - prev) / prev * 100))"

datatype tone = FlatTone | GoodTone | BadTone
datatype arrow = NoArrow | UpArrow | DownArrow

record delta_tag =
  dt_tone :: tone
  dt_arrow :: arrow
  dt_text :: string

definition deltaTag :: "rat \<Rightarrow> bool \<Rightarrow> delta_tag" where
  "deltaTag pct higherIsBad =
     (let shown = math_round pct in
      \<lparr>dt_tone = (if shown = 0 then FlatTone else if (shown > 0) \<noteq> higherIsBad then GoodTone else BadTone),
       dt_arrow = (if shown > 0 then UpArrow else if shown < 0 then DownArrow else NoArrow),
       dt_text = int_str \<bar>shown\<bar> @ ''%''\<rparr>)"

record breakdown_row =
  br_id :: string
  br_name :: string
  br_sub :: "string option"
  br_runs :: "string \<times> delta_tag option"
  br_avg :: "string \<times> delta_tag option"
  br_cost :: "string \<times> delta_tag option"
  br_barColor :: string
  br_sharePct :: rat
  br_shareText :: string
  br_isTop :: bool
  br_isLast :: bool
  br_clickable :: bool

definition avg_prev :: "BreakdownRowData \<Rightarrow> rat" where
  "avg_prev row = (if row_runsPrev row = 0 then 0 else row_costPrev row / of_int (row_runsPrev row))"

definition breakdownRow :: "host \<Rightarrow> BreakdownRowData \<Rightarrow> BreakdownTab \<Rightarrow> rat \<Rightarrow> bool \<Rightarrow> bool \<Rightarrow> bool \<Rightarrow> breakdown_row" where
  "breakdownRow h row kind sharePct isTop isLast clickable =
     (let runsPct = pctChange (of_int (row_runs row)) (of_int (row_runsPrev row));
          costPct = pctChange (row_cost row) (row_costPrev row);
          avgPct = pctChange (row_avg row) (avg_prev row) in
      \<lparr>br_id = row_id row, br_name = row_name row,
       br_sub = (case row of
           UserRow u \<Rightarrow> if us_id u \<noteq> [] \<and> us_id u \<noteq> us_name u then Some (us_id u) else None
         | WorkflowRow w \<Rightarrow> if kind = WorkflowTab then Some (ws_model w) else None
         | AttributeRow a \<Rightarrow> None),
       br_runs = (fmtNum h (of_int (row_runs row)), map_option (\<lambda>p. deltaTag p False) runsPct),
       br_avg = (fmtCost (row_avg row * 1000), map_option (\<lambda>p. deltaTag p True) avgPct),
       br_cost = (fmtCost (row_cost row), map_option (\<lambda>p. deltaTag p True) costPct),
       br_barColor = (case costPct of Some p \<Rightarrow> if p < 0 then ''var(--muted)'' else ''var(--accent)'' | None \<Rightarrow> ''var(--accent)''),
       br_sharePct = sharePct, br_shareText = to_fixed 1 sharePct @ ''%'',
       br_isTop = isTop, br_isLast = isLast, br_clickable = clickable\<rparr>)"

text \<open>\<open>collate\<close> is \<open>localeCompare\<close>.\<close>

definition row_cmp :: "(string \<Rightarrow> string \<Rightarrow> rat) \<Rightarrow> SortKey \<Rightarrow> BreakdownRowData \<Rightarrow> BreakdownRowData \<Rightarrow> rat" where
  "row_cmp collate sortBy a b =
     (case sortBy of
        ByName \<Rightarrow> collate (row_name a) (row_name b)
      | ByRuns \<Rightarrow> of_int (row_runs b) - of_int (row_runs a)
      | ByAvg \<Rightarrow> row_avg b - row_avg a
      | ByCost \<Rightarrow> row_cost b - row_cost a)"

definition breakdown_sorted :: "(string \<Rightarrow> string \<Rightarrow> rat) \<Rightarrow> SortKey \<Rightarrow> BreakdownRowData list \<Rightarrow> BreakdownRowData list" where
  "breakdown_sorted collate sortBy rows = js_sort (row_cmp collate sortBy) rows"

fun top_loop :: "rat \<Rightarrow> rat \<Rightarrow> BreakdownRowData list \<Rightarrow> BreakdownRowData list" where
  "top_loop thresh cum [] = []"
| "top_loop thresh cum (r # rs) = (if cum \<ge> thresh then [] else r # top_loop thresh (cum + row_cost r) rs)"

definition top75 :: "rat \<Rightarrow> BreakdownRowData list \<Rightarrow> BreakdownRowData list" where
  "top75 totalCost rows = top_loop (totalCost * (75 / 100)) 0 (js_sort (\<lambda>a b. row_cost b - row_cost a) rows)"

definition top75Set :: "rat \<Rightarrow> BreakdownRowData list \<Rightarrow> string set" where
  "top75Set totalCost rows = row_id ` set (top75 totalCost rows)"

definition share_pct :: "rat \<Rightarrow> BreakdownRowData \<Rightarrow> rat" where
  "share_pct totalCost row = (if totalCost = 0 then 0 else row_cost row / totalCost * 100)"

definition breakdown ::
  "host \<Rightarrow> (string \<Rightarrow> string \<Rightarrow> rat) \<Rightarrow> BreakdownRowData list \<Rightarrow> rat \<Rightarrow> BreakdownTab \<Rightarrow> SortKey \<Rightarrow> bool \<Rightarrow> breakdown_row list" where
  "breakdown h collate rows totalCost kind sortBy hasClick =
     (let sorted = breakdown_sorted collate sortBy rows; top = top75Set totalCost rows in
      map (\<lambda>(row, i). breakdownRow h row kind (share_pct totalCost row) (row_id row \<in> top) (i = length sorted - 1)
             (hasClick \<and> row_id row \<noteq> UNATTRIBUTED))
        (zip sorted [0..<length sorted]))"

text \<open>Clicking a column header.\<close>

definition header_click :: "ColDef \<Rightarrow> SortKey \<Rightarrow> SortKey" where
  "header_click c current =
     (if \<not> cd_sortable c then current
      else if cd_key c = ''name'' then ByName else if cd_key c = ''runs'' then ByRuns
      else if cd_key c = ''avg'' then ByAvg else if cd_key c = ''cost'' then ByCost else current)"

text \<open>The searchable tab of attributes. Opening it clears the search.\<close>

record attr_tab =
  at_open :: bool
  at_query :: string

definition attr_toggle :: "attr_tab \<Rightarrow> attr_tab" where
  "attr_toggle t = (if at_open t then t\<lparr>at_open := False\<rparr> else \<lparr>at_open = True, at_query = []\<rparr>)"

definition attr_matches :: "(string \<Rightarrow> string) \<Rightarrow> string list \<Rightarrow> string \<Rightarrow> string list" where
  "attr_matches lower keys query =
     (let q = lower (trim query) in if q = [] then keys else filter (\<lambda>k. str_includes (lower k) q) keys)"

definition attr_label :: "bool \<Rightarrow> string \<Rightarrow> string" where
  "attr_label active v = (if active \<and> v \<noteq> [] then v else ''By attribute'')"

subsection \<open>The live page (UsageLivePage.tsx)\<close>

record usage_page =
  up_tab :: BreakdownTab
  up_sortBy :: SortKey
  up_attrKey :: string

definition usage_page_init :: usage_page where
  "usage_page_init = \<lparr>up_tab = UserTab, up_sortBy = ByCost, up_attrKey = []\<rparr>"

definition handleTabChange :: "BreakdownTab \<Rightarrow> usage_page \<Rightarrow> usage_page" where
  "handleTabChange t p = p\<lparr>up_tab := t, up_sortBy := ByCost\<rparr>"

definition handleAttrSelect :: "string \<Rightarrow> usage_page \<Rightarrow> usage_page" where
  "handleAttrSelect k p = p\<lparr>up_attrKey := k, up_tab := AttributeTab, up_sortBy := ByCost\<rparr>"

text \<open>Enter in the search selects the first match and closes the tab.\<close>

definition attr_enter :: "(string \<Rightarrow> string) \<Rightarrow> string list \<Rightarrow> attr_tab \<times> usage_page \<Rightarrow> attr_tab \<times> usage_page" where
  "attr_enter lower keys = (\<lambda>(t, p).
     case attr_matches lower keys (at_query t) of
       [] \<Rightarrow> (t, p)
     | k # _ \<Rightarrow> (t\<lparr>at_open := False\<rparr>, handleAttrSelect k p))"

definition activeAttr :: "string list \<Rightarrow> usage_page \<Rightarrow> string" where
  "activeAttr keys p = (if up_attrKey p \<in> set keys then up_attrKey p else case keys of [] \<Rightarrow> [] | k # _ \<Rightarrow> k)"

definition usage_view :: "string \<Rightarrow> usage_page \<Rightarrow> BreakdownTab" where
  "usage_view rng p = (if up_tab p = AttributeTab \<and> isLongRange rng then UserTab else up_tab p)"

definition attr_query :: "APIClientConfig \<Rightarrow> string \<Rightarrow> string list \<Rightarrow> usage_page \<Rightarrow> query" where
  "attr_query c rng keys p = useAttributeUsage c rng (if usage_view rng p = AttributeTab then activeAttr keys p else [])"

definition openClient :: "string \<Rightarrow> (string, string) jsmap \<Rightarrow> (string, string) jsmap" where
  "openClient i prev = jm_set ''user'' i prev"

definition usage_empty :: "KpiSet option \<Rightarrow> bool" where
  "usage_empty kpis \<longleftrightarrow> (case kpis of None \<Rightarrow> False | Some k \<Rightarrow> kpi_value (ks_cost k) = 0 \<and> kpi_value (ks_runs k) = 0)"

definition total_tokens :: "ModelSummary list \<Rightarrow> rat" where
  "total_tokens models = foldl (\<lambda>s m. s + of_int (ms_inputTokens m) + of_int (ms_outputTokens m)) 0 models"

definition usage_subtitle :: "string \<Rightarrow> nat \<Rightarrow> nat \<Rightarrow> string" where
  "usage_subtitle rng userCount workflowCount =
     periodLabel rng @ '' '' @ mid_dot @ '' '' @ nat_str userCount @ '' active clients, '' @ nat_str workflowCount @ '' workflows''"

text \<open>The most recent fetch; \<open>None\<close> hides the badge.\<close>

definition usage_updatedAt :: "int list \<Rightarrow> int option" where
  "usage_updatedAt stamps = (let m = foldl max 0 stamps in if m = 0 then None else Some m)"

subsection \<open>The demo (data.ts, UsagePage.tsx)\<close>

definition kpiItems :: "host \<Rightarrow> UsageData \<Rightarrow> KpiItem list" where
  "kpiItems h d =
     (let costDelta = (ud_totalCost d - ud_totalCostPrev d) / ud_totalCostPrev d;
          runsDelta = of_int (ud_totalRuns d - ud_totalRunsPrev d) / of_int (ud_totalRunsPrev d);
          avgPer1k = (if ud_totalRuns d > 0 then ud_totalCost d / of_int (ud_totalRuns d) * 1000 else 0) in
      [\<lparr>ki_label = ''Spend'', ki_value = fmtCost (ud_totalCost d), ki_delta = Some (fmtDelta (Fin costDelta)),
        ki_deltaTone = Some (if costDelta > 0 then Bad else Good), ki_sparkData = None, ki_sparkColor = None,
        ki_hint = Some (''vs '' @ fmtCost (ud_totalCostPrev d) @ '' prev'')\<rparr>,
       \<lparr>ki_label = ''Runs'', ki_value = fmtNum h (of_int (ud_totalRuns d)), ki_delta = Some (fmtDelta (Fin runsDelta)),
        ki_deltaTone = Some Neutral, ki_sparkData = None, ki_sparkColor = None,
        ki_hint = Some (fmtCost avgPer1k @ '' / 1K runs'')\<rparr>,
       \<lparr>ki_label = ''Tokens'', ki_value = fmtTokens (total_tokens (ud_models d)), ki_delta = None, ki_deltaTone = None,
        ki_sparkData = None, ki_sparkColor = None, ki_hint = Some ''input + output''\<rparr>])"

text \<open>\<open>msin\<close> and \<open>mcos\<close> stand for \<open>Math.sin\<close> and \<open>Math.cos\<close>.\<close>

definition demo_runs :: "(rat \<Rightarrow> rat) \<Rightarrow> nat \<Rightarrow> int" where
  "demo_runs msin i = math_round (140 + msin (of_nat i / 3) * 30)"

definition demo_daily :: "(rat \<Rightarrow> rat) \<Rightarrow> DailySeriesPoint list" where
  "demo_daily msin = map (\<lambda>i. \<lparr>ds_label = ''Apr '' @ nat_str (i + 1),
     ds_cost = max (4 / 100) (12 / 100 + msin (of_nat i / 4) * (4 / 100)), ds_runs = demo_runs msin i\<rparr>) [0..<30]"

definition demo_tokens :: "(rat \<Rightarrow> rat) \<Rightarrow> (rat \<Rightarrow> rat) \<Rightarrow> TokenSeriesPoint list" where
  "demo_tokens msin mcos = map (\<lambda>i. let runs = demo_runs msin i in
     \<lparr>ts_label = ''Apr '' @ nat_str (i + 1),
      ts_input = math_round (of_int runs * (4385 + msin (of_nat i / 5) * 400)),
      ts_output = math_round (of_int runs * (1190 + mcos (of_nat i / 4) * 160)), ts_runs = runs\<rparr>) [0..<30]"

definition demo_user :: "string \<Rightarrow> string \<Rightarrow> rat \<Rightarrow> rat \<Rightarrow> int \<Rightarrow> int \<Rightarrow> rat \<Rightarrow> rat list \<Rightarrow> UserSummary" where
  "demo_user i n c cp r rp a t = \<lparr>us_id = i, us_name = n, us_cost = c, us_costPrev = cp, us_runs = r, us_runsPrev = rp,
     us_avg = a, us_trend = t\<rparr>"

definition demo_users :: "UserSummary list" where
  [data_defs]: "demo_users =
     [demo_user ''u_umbrella'' ''Umbrella Production'' (28412 / 10000) (24880 / 10000) 3204 2961 (887 / 1000000)
        [80, 85, 92, 88, 96, 102, 108, 112],
      demo_user ''u_umbrella_dev'' ''Umbrella Dev'' (9812 / 10000) (9078 / 10000) 1802 1741 (545 / 1000000)
        [30, 32, 35, 33, 38, 40, 42, 44],
      demo_user ''u_umbrella_stg'' ''Umbrella Staging'' (3204 / 10000) (3283 / 10000) 612 641 (524 / 1000000)
        [18, 20, 19, 22, 21, 20, 22, 21],
      demo_user ''u_personal'' ''Personal'' (384 / 10000) (291 / 10000) 133 96 (289 / 1000000) [2, 3, 4, 3, 5, 6, 5, 8]]"

definition demo_wf :: "string \<Rightarrow> rat \<Rightarrow> rat \<Rightarrow> int \<Rightarrow> int \<Rightarrow> rat \<Rightarrow> string \<Rightarrow> WorkflowSummary" where
  "demo_wf n c cp r rp a m = \<lparr>ws_name = n, ws_cost = c, ws_costPrev = cp, ws_runs = r, ws_runsPrev = rp, ws_avg = a, ws_model = m\<rparr>"

definition demo_workflows :: "WorkflowSummary list" where
  [data_defs]: "demo_workflows =
     (let haiku = ''claude-3-5-haiku-20241022''; sonnet = ''claude-sonnet-4-5'' in
     [demo_wf ''summarize-comments'' (4234 / 10000) (3767 / 10000) 847 812 (500 / 1000000) haiku,
      demo_wf ''generate-clock-out-description'' (2891 / 10000) (2733 / 10000) 412 430 (702 / 1000000) sonnet,
      demo_wf ''classify-intent'' (1204 / 10000) (986 / 10000) 1203 1040 (100 / 1000000) haiku,
      demo_wf ''rewrite-message'' (3104 / 10000) (3804 / 10000) 156 184 (1990 / 1000000) sonnet,
      demo_wf ''extract-entities'' (892 / 10000) (864 / 10000) 328 308 (272 / 1000000) haiku,
      demo_wf ''detect-sentiment'' (412 / 10000) (378 / 10000) 612 580 (67 / 1000000) haiku,
      demo_wf ''summarize-thread'' (834 / 10000) (823 / 10000) 89 92 (937 / 1000000) sonnet,
      demo_wf ''moderate-content'' (892 / 10000) (751 / 10000) 2104 1880 (42 / 1000000) haiku])"

definition demo_model :: "string \<Rightarrow> rat \<Rightarrow> int \<Rightarrow> int \<Rightarrow> int \<Rightarrow> string \<Rightarrow> ModelSummary" where
  "demo_model n c r i out color = \<lparr>ms_name = n, ms_cost = c, ms_runs = r, ms_inputTokens = i, ms_outputTokens = out, ms_color = color\<rparr>"

definition demo_models :: "ModelSummary list" where
  [data_defs]: "demo_models =
     [demo_model ''claude-3-5-haiku-20241022'' (24812 / 10000) 4291 12482100 3214002 ''#6366f1'',
      demo_model ''claude-sonnet-4-5'' (16204 / 10000) 1212 4820400 1480200 ''#8b5cf6'',
      demo_model ''claude-opus-4-5'' (2796 / 10000) 248 1117810 305798 ''#a78bfa'']"

definition USAGE_DATA :: "(rat \<Rightarrow> rat) \<Rightarrow> (rat \<Rightarrow> rat) \<Rightarrow> UsageData" where
  "USAGE_DATA msin mcos =
     \<lparr>ud_range = \<lparr>ur_label = ''Last 30 days'', ur_start = ''Apr 1, 2026'', ur_end = ''Apr 30, 2026'', ur_days = 30\<rparr>,
      ud_totalCost = 43812 / 10000, ud_totalCostPrev = 38204 / 10000, ud_totalRuns = 5751, ud_totalRunsPrev = 4988,
      ud_dailySeries = demo_daily msin, ud_tokenSeries = demo_tokens msin mcos, ud_users = demo_users,
      ud_workflows = demo_workflows, ud_models = demo_models\<rparr>"

text \<open>The rows of the demo page: both tabs pass the total of the page.\<close>

definition demo_breakdown :: "host \<Rightarrow> (string \<Rightarrow> string \<Rightarrow> rat) \<Rightarrow> UsageData \<Rightarrow> BreakdownTab \<Rightarrow> SortKey \<Rightarrow> breakdown_row list" where
  "demo_breakdown h collate d tab sortBy =
     (if tab = UserTab then breakdown h collate (map UserRow (ud_users d)) (ud_totalCost d) UserTab sortBy False
      else breakdown h collate (map WorkflowRow (ud_workflows d)) (ud_totalCost d) WorkflowTab sortBy False)"

subsection \<open>Choosing the top of the spend\<close>

interpretation by_cost: comparator "\<lambda>a b. row_cost b - row_cost a"
  by (rule comparator_key_desc)

lemma row_cmp_comparator:
  assumes "comparator collate"
  shows "comparator (row_cmp collate sortBy)"
proof (cases sortBy)
  case ByName
  then have "row_cmp collate sortBy = (\<lambda>a b. collate (row_name a) (row_name b))" by (intro ext) (simp add: row_cmp_def)
  then show ?thesis using comparator_on [OF assms] by simp
next
  case ByRuns
  then have "row_cmp collate sortBy = (\<lambda>a b. of_int (row_runs b) - of_int (row_runs a))" by (intro ext) (simp add: row_cmp_def)
  then show ?thesis by (simp only: comparator_key_desc)
next
  case ByAvg
  then have "row_cmp collate sortBy = (\<lambda>a b. row_avg b - row_avg a)" by (intro ext) (simp add: row_cmp_def)
  then show ?thesis by (simp only: comparator_key_desc)
next
  case ByCost
  then have "row_cmp collate sortBy = (\<lambda>a b. row_cost b - row_cost a)" by (intro ext) (simp add: row_cmp_def)
  then show ?thesis by (simp only: comparator_key_desc)
qed

definition cost_of :: "BreakdownRowData list \<Rightarrow> rat" where
  "cost_of rows = sum_list (map row_cost rows)"

lemma cost_of_simps [simp]:
  "cost_of [] = 0" "cost_of (r # rs) = row_cost r + cost_of rs" "cost_of (xs @ ys) = cost_of xs + cost_of ys"
  by (simp_all add: cost_of_def)

lemma cost_of_mset: "mset xs = mset ys \<Longrightarrow> cost_of xs = cost_of ys"
  unfolding cost_of_def by (metis mset_map sum_mset_sum_list)

lemma cost_of_nonneg: "\<forall>r\<in>set rs. 0 \<le> row_cost r \<Longrightarrow> 0 \<le> cost_of rs"
  by (induction rs) auto

text \<open>The loop takes the shortest prefix that reaches the threshold.\<close>

lemma top_loop_prefix:
  "top_loop thresh cum rs = take (length (top_loop thresh cum rs)) rs"
  by (induction thresh cum rs rule: top_loop.induct) auto

lemma top_loop_reaches:
  "cum + cost_of rs \<ge> thresh \<Longrightarrow> cum + cost_of (top_loop thresh cum rs) \<ge> thresh"
  by (induction thresh cum rs rule: top_loop.induct) (auto simp: add.assoc)

lemma top_loop_shortest:
  "k < length (top_loop thresh cum rs) \<Longrightarrow> cum + cost_of (take k rs) < thresh"
proof (induction thresh cum rs arbitrary: k rule: top_loop.induct)
  case (2 thresh cum r rs)
  then show ?case by (cases k) (auto simp: add.assoc split: if_splits)
qed simp

text \<open>No choice of as many elements weighs more than a prefix in descending order.\<close>

lemma greedy_prefix:
  fixes f :: "'a \<Rightarrow> rat"
  assumes "sorted_wrt (\<lambda>a b. f b - f a \<le> 0) xs" "\<forall>x\<in>set xs. 0 \<le> f x"
    and "mset ys \<subseteq># mset xs" "length ys \<le> k"
  shows "sum_list (map f ys) \<le> sum_list (map f (take k xs))"
  using assms
proof (induction xs arbitrary: k ys)
  case (Cons x xs)
  show ?case
  proof (cases "ys = []")
    case True
    have "0 \<le> f z" if "z \<in> set (take k (x # xs))" for z using Cons.prems(2) in_set_takeD [OF that] by blast
    then have "0 \<le> sum_list (map f (take k (x # xs)))" by (intro sum_list_nonneg) auto
    then show ?thesis using True by simp
  next
    case False
    define y where "y = (if x \<in> set ys then x else hd ys)"
    have y: "y \<in> set ys" using False by (simp add: y_def)
    then have "y \<in> set (x # xs)" using Cons.prems(3) by (metis mset_subset_eqD set_mset_mset)
    then have le: "f y \<le> f x" using Cons.prems(1) by auto
    have "mset (remove1 y ys) \<subseteq># mset xs"
    proof (cases "x \<in> set ys")
      case True
      then show ?thesis using Cons.prems(3) by (simp add: y_def subset_eq_diff_conv)
    next
      case False
      then have "mset ys \<subseteq># mset xs" using Cons.prems(3) unfolding subseteq_mset_def
        by (metis count_add_mset count_eq_zero_iff le0 mset.simps(2) set_mset_mset)
      then show ?thesis by (metis diff_subset_eq_self mset_remove1 subset_mset.order_trans)
    qed
    moreover obtain j where "k = Suc j" "length (remove1 y ys) \<le> j"
      using Cons.prems(4) False y by (cases k) (auto simp: length_remove1)
    ultimately have "sum_list (map f (remove1 y ys)) \<le> sum_list (map f (take j xs))" using Cons by auto
    then show ?thesis using le \<open>k = Suc j\<close> sum_list_map_remove1 [OF y, of f] by simp
  qed
qed simp

subsection \<open>Properties\<close>

text \<open>C27. The dots mark a smallest set of rows that makes up three quarters of the spend: the marked rows reach the
  threshold, and no choice of fewer rows does.\<close>

theorem top75_minimal:
  assumes "\<forall>r\<in>set rows. 0 \<le> row_cost r" "tot = sumCost (map row_cost rows)"
  shows "mset (top75 tot rows) \<subseteq># mset rows \<and> cost_of (top75 tot rows) \<ge> 75 / 100 * tot \<and>
    (\<forall>choice. mset choice \<subseteq># mset rows \<and> length choice < length (top75 tot rows) \<longrightarrow> cost_of choice < 75 / 100 * tot)"
proof (intro conjI allI impI)
  define s where "s = js_sort (\<lambda>a b. row_cost b - row_cost a) rows"
  have t: "top75 tot rows = top_loop (tot * (75 / 100)) 0 s" by (simp add: top75_def s_def)
  have tot: "tot = cost_of s" using assms(2) cost_of_mset [of s rows] by (simp add: sumCost_sum_list cost_of_def s_def)
  have nonneg: "\<forall>r\<in>set s. 0 \<le> row_cost r" using assms(1) by (simp add: s_def)
  have "mset (top75 tot rows) \<subseteq># mset s"
    using top_loop_prefix [of "tot * (75 / 100)" 0 s] unfolding t by (metis append_take_drop_id mset_append mset_subset_eq_add_left)
  then show "mset (top75 tot rows) \<subseteq># mset rows" by (simp add: s_def)
  show "cost_of (top75 tot rows) \<ge> 75 / 100 * tot"
    using top_loop_reaches [of "tot * (75 / 100)" 0 s] cost_of_nonneg [OF nonneg] unfolding t unfolding tot by simp
  fix choice assume c: "mset choice \<subseteq># mset rows \<and> length choice < length (top75 tot rows)"
  have "sorted_wrt (\<lambda>a b. row_cost b - row_cost a \<le> 0) s" unfolding s_def by (rule by_cost.sorted_sort)
  moreover have "mset choice \<subseteq># mset s" using c by (simp add: s_def)
  ultimately have "cost_of choice \<le> cost_of (take (length choice) s)"
    unfolding cost_of_def using greedy_prefix [OF _ nonneg] by blast
  also have "\<dots> < tot * (75 / 100)" using c top_loop_shortest [of "length choice" "tot * (75 / 100)" 0 s] unfolding t by simp
  finally show "cost_of choice < 75 / 100 * tot" by simp
qed

theorem top75_minimal_witness:
  "cost_of (top75 (sumCost (map row_cost (map UserRow demo_users))) (map UserRow demo_users)) \<ge>
     75 / 100 * sumCost (map row_cost (map UserRow demo_users))"
proof -
  have "list_all (\<lambda>r. 0 \<le> row_cost r) (map UserRow demo_users)" by (simp add: demo_users_def demo_user_def)
  then have "\<forall>r\<in>set (map UserRow demo_users). 0 \<le> row_cost r" by (simp only: list_all_iff)
  from top75_minimal [OF this refl] show ?thesis by blast
qed

text \<open>The table of the breakdown lists every row once, in the order of the chosen column, with ties in the order of
  the data; its shares add up to the whole when the total is that of its rows, and the row of spend without a client
  cannot be opened.\<close>

theorem breakdown_table:
  assumes "comparator collate"
  shows "mset (map br_id (breakdown h collate rows tot kind sortBy click)) = mset (map row_id rows) \<and>
    sorted_wrt (\<lambda>a b. row_cmp collate sortBy a b \<le> 0) (breakdown_sorted collate sortBy rows) \<and>
    filter (\<lambda>b. row_cmp collate sortBy a b = 0) (breakdown_sorted collate sortBy rows) =
      filter (\<lambda>b. row_cmp collate sortBy a b = 0) rows \<and>
    (tot = cost_of rows \<and> tot \<noteq> 0 \<longrightarrow>
      sum_list (map br_sharePct (breakdown h collate rows tot kind sortBy click)) = 100) \<and>
    (\<forall>r\<in>set (breakdown h collate rows tot kind sortBy click). br_clickable r \<longrightarrow> br_id r \<noteq> UNATTRIBUTED)"
proof -
  define s where "s = breakdown_sorted collate sortBy rows"
  have ms: "mset s = mset rows" by (simp add: s_def breakdown_sorted_def)
  have ids: "map br_id (breakdown h collate rows tot kind sortBy click) = map row_id s"
    and shares: "map br_sharePct (breakdown h collate rows tot kind sortBy click) = map (share_pct tot) s"
    by (simp_all add: breakdown_def breakdownRow_def s_def [symmetric] Let_def comp_def case_prod_unfold map_fst_zip
        flip: map_map [unfolded comp_def, of _ fst])
  have "sum_list (map (share_pct tot) s) = 100" if "tot = cost_of rows" "tot \<noteq> 0"
  proof -
    have "sum_list (map (share_pct tot) xs) = cost_of xs / tot * 100" for xs
      using that(2) by (induction xs) (simp_all add: share_pct_def add_divide_distrib distrib_right)
    then show ?thesis using that cost_of_mset [OF ms] by simp
  qed
  moreover have "mset (map row_id s) = mset (map row_id rows)" using ms by (metis mset_map)
  moreover have "br_clickable r \<longrightarrow> br_id r \<noteq> UNATTRIBUTED" if "r \<in> set (breakdown h collate rows tot kind sortBy click)" for r
    using that by (auto simp: breakdown_def breakdownRow_def Let_def)
  ultimately show ?thesis
    using comparator.sorted_sort [OF row_cmp_comparator [OF assms], of sortBy rows]
      comparator.sort_stable [OF row_cmp_comparator [OF assms], of sortBy a rows]
    unfolding ids shares breakdown_sorted_def by blast
qed

theorem breakdown_table_witness:
  "\<forall>h. sum_list (map br_sharePct (breakdown h (\<lambda>a b. of_nat (length a) - of_nat (length b)) (map UserRow demo_users)
     (cost_of (map UserRow demo_users)) UserTab ByName True)) = 100"
proof
  fix h
  have "cost_of (map UserRow demo_users) \<noteq> 0" by (simp add: cost_of_def demo_users_def demo_user_def)
  then show "sum_list (map br_sharePct (breakdown h (\<lambda>a b. of_nat (length a) - of_nat (length b)) (map UserRow demo_users)
     (cost_of (map UserRow demo_users)) UserTab ByName True)) = 100"
    using breakdown_table [OF comparator_key [of "\<lambda>a. of_nat (length a) :: rat"], of h "map UserRow demo_users"
      "cost_of (map UserRow demo_users)" UserTab ByName True] by blast
qed

lemma max_from_Max: "max_from lo xs = Max (set (lo # xs))"
  unfolding max_from_def Max.set_eq_fold foldl_conv_fold by (rule arg_cong [where f = "\<lambda>f. fold f xs lo"]) (auto simp: max.commute)

lemma max_from_ge: "lo \<le> max_from lo xs" "x \<in> set xs \<Longrightarrow> x \<le> max_from lo xs"
  unfolding max_from_Max by (auto intro: Max_ge)

lemma bar_bounds:
  assumes "\<forall>x\<in>set xs. 0 \<le> x" "x \<in> set xs"
  shows "0 \<le> x / niceCeil (max_from 0 xs) * 100 \<and> x / niceCeil (max_from 0 xs) * 100 \<le> 100"
proof (cases "max_from 0 xs = 0")
  case True
  then have "x = 0" using max_from_ge(2) [OF assms(2), of 0] assms by fastforce
  then show ?thesis by simp
next
  case False
  then have "0 < max_from 0 xs" using max_from_ge(1) [of 0 xs] by simp
  with niceCeil_covers have "max_from 0 xs \<le> niceCeil (max_from 0 xs)" by blast
  moreover have "0 < niceCeil (max_from 0 xs)" using \<open>0 < max_from 0 xs\<close> calculation by linarith
  ultimately show ?thesis using assms max_from_ge(2) [OF assms(2), of 0] by (simp add: field_simps)
qed

lemma tallest_bar:
  assumes "\<exists>x\<in>set xs. 0 < x"
  shows "\<exists>x\<in>set xs. 40 \<le> x / niceCeil (max_from 0 xs) * 100"
proof -
  have "0 < max_from 0 xs" using assms max_from_ge(2) by (metis less_le_trans)
  moreover from this have "max_from 0 xs \<in> set xs" unfolding max_from_Max using Max_in [of "set (0 # xs)"] by force
  moreover from calculation niceCeil_covers have "max_from 0 xs \<le> niceCeil (max_from 0 xs)"
    "niceCeil (max_from 0 xs) \<le> 5 / 2 * max_from 0 xs" by blast+
  ultimately show ?thesis by (intro bexI [of _ "max_from 0 xs"]) (auto simp: field_simps)
qed

text \<open>The bars of the charts stay inside the plot and use it: with no negative figure every bar is between nothing and
  the full height, and when anything was spent the tallest takes at least two fifths of it.\<close>

theorem dailyChart_bars:
  assumes "\<forall>d\<in>set series. 0 \<le> ds_cost d"
  shows "(\<forall>b\<in>set (ch_bars (dailyChart h series)). 0 \<le> cb_height b \<and> cb_height b \<le> 100) \<and>
    ((\<exists>d\<in>set series. 0 < ds_cost d) \<longrightarrow> (\<exists>b\<in>set (ch_bars (dailyChart h series)). 40 \<le> cb_height b))"
proof -
  have "\<forall>x\<in>set (map ds_cost series). 0 \<le> x" using assms by simp
  note b = bar_bounds [OF this] and t = tallest_bar [of "map ds_cost series"]
  show ?thesis using b t by (auto simp: dailyChart_def Let_def)
qed

theorem dailyChart_bars_witness:
  "\<forall>h. \<exists>b\<in>set (ch_bars (dailyChart h [\<lparr>ds_label = ''Apr 1'', ds_cost = 3, ds_runs = 2\<rparr>])). 40 \<le> cb_height b"
  using dailyChart_bars [of "[\<lparr>ds_label = ''Apr 1'', ds_cost = 3, ds_runs = 2\<rparr>]"] by simp

text \<open>The attribute shown is one of the keys present, the view of attributes is left for ranges without them, and
  attribute usage is requested exactly while attributes are shown.\<close>

theorem attribute_view_consistent:
  assumes "[] \<notin> set keys"
  shows "(keys \<noteq> [] \<longrightarrow> activeAttr keys p \<in> set keys) \<and>
    (isLongRange rng \<longrightarrow> usage_view rng p \<noteq> AttributeTab) \<and>
    (k \<in> set keys \<and> \<not> isLongRange rng \<longrightarrow>
      usage_view rng (handleAttrSelect k p) = AttributeTab \<and> activeAttr keys (handleAttrSelect k p) = k) \<and>
    (q_enabled (attr_query c rng keys p) \<longleftrightarrow> usage_view rng p = AttributeTab \<and> keys \<noteq> [])"
  using assms
  by (cases keys) (auto simp: activeAttr_def usage_view_def handleAttrSelect_def attr_query_def useAttributeUsage_def plain_query_def)

theorem attribute_view_consistent_witness:
  "activeAttr [''team'', ''env''] (handleAttrSelect ''env'' usage_page_init) = ''env''"
  using attribute_view_consistent [of "[''team'', ''env'']" usage_page_init "''7d''" "''env''" sample_client]
  by (simp add: isLongRange_def LONG_RANGES_def)

text \<open>The demo page passes the total of the page to the table of workflows, whose rows cost a third of it: the dot that
  marks the top of the spend is on every row.\<close>

theorem demo_workflows_all_marked:
  "sumCost (map ws_cost demo_workflows) < 75 / 100 * ud_totalCost (USAGE_DATA msin mcos) \<and>
   length (top75 (ud_totalCost (USAGE_DATA msin mcos)) (map WorkflowRow (ud_workflows (USAGE_DATA msin mcos)))) = 8"
proof -
  have "sumCost (map ws_cost demo_workflows) = 14463 / 10000"
    by (simp add: sumCost_def demo_workflows_def demo_wf_def Let_def)
  moreover have "length (top75 (43812 / 10000) (map WorkflowRow demo_workflows)) = 8" by code_simp
  ultimately show ?thesis by (simp add: USAGE_DATA_def)
qed

end
