(* ===== verification/Clients.thy ===== *)
theory Clients
  imports Breakdown Traces
begin

text \<open>
  The pages of the clients: the list with its search, sorting and cost shares (\<open>modules/usage/pages/UsersPage.tsx\<close>,
  \<open>UsersLivePage.tsx\<close>) and the page of one client (\<open>UserDetailLivePage.tsx\<close>).
\<close>

subsection \<open>Rows (UsersPage.tsx)\<close>

record User =
  u_id :: string
  u_name :: string
  u_cost :: rat
  u_runs :: int
  u_avg :: rat
  u_trend :: "rat list"
  u_region :: "string option"
  u_success :: "rat option"
  u_lastSeen :: "int option"

definition demo_client :: "int \<Rightarrow> string \<Rightarrow> string \<Rightarrow> rat \<Rightarrow> int \<Rightarrow> rat \<Rightarrow> rat list \<Rightarrow> string \<Rightarrow> rat \<Rightarrow> int \<Rightarrow> User" where
  "demo_client now i n c r a t reg ok ago = \<lparr>u_id = i, u_name = n, u_cost = c, u_runs = r, u_avg = a / 1000000,
     u_trend = map (\<lambda>x. x / 100) t, u_region = Some reg, u_success = Some ok, u_lastSeen = Some (now - ago * 1000)\<rparr>"

definition USERS :: "int \<Rightarrow> User list" where
  [data_defs]: "USERS now =
     [demo_client now ''tn_acme'' ''Acme Robotics'' (124421 / 10000) 58022 214
        [36, 42, 41, 48, 51, 55, 58, 61, 59, 62, 66, 71] ''us-east-1'' (994 / 10) 12,
      demo_client now ''tn_northwind'' ''Northwind Logistics'' (89024 / 10000) 41318 216
        [18, 22, 27, 31, 34, 39, 41, 44, 45, 49, 52, 55] ''us-east-1'' (981 / 10) 60,
      demo_client now ''tn_helix'' ''Helix Health'' (61102 / 10000) 28104 217
        [32, 30, 28, 27, 26, 25, 24, 23, 22, 21, 21, 22] ''eu-west-2'' (996 / 10) 180,
      demo_client now ''tn_lumen'' ''Lumen Studio'' (44081 / 10000) 21890 201
        [14, 15, 16, 16, 18, 19, 18, 18, 19, 20, 20, 20] ''us-west-2'' (992 / 10) 480,
      demo_client now ''tn_kestrel'' ''Kestrel Finance'' (32204 / 10000) 15842 203
        [10, 12, 13, 14, 14, 15, 16, 16, 17, 18, 18, 19] ''us-east-1'' (990 / 10) 1320,
      demo_client now ''tn_polar'' ''Polar Research'' (18714 / 10000) 9204 203
        [7, 8, 8, 8, 9, 8, 9, 8, 8, 9, 9, 9] ''eu-west-2'' (976 / 10) 3600,
      demo_client now ''tn_orbit'' ''Orbit Labs'' (9842 / 10000) 5420 182
        [13, 12, 11, 10, 9, 8, 7, 6, 6, 5, 5, 4] ''us-west-2'' (942 / 10) 7200,
      demo_client now ''tn_sable'' ''Sable Studios'' (4830 / 10000) 4423 109
        [2, 2, 3, 3, 4, 4, 5, 5, 5, 6, 6, 6] ''us-east-1'' (968 / 10) 300]"

definition successColor :: "rat \<Rightarrow> string" where
  "successColor success =
     (if success \<ge> 99 then ''var(--foreground)'' else if success \<ge> 97 then ''var(--warning)'' else ''var(--error)'')"

definition toKpi :: "rat \<Rightarrow> rat \<Rightarrow> bool \<Rightarrow> Kpi" where
  "toKpi v prev higherIsBad =
     (if prev = 0 \<or> v = prev then \<lparr>kpi_value = v, kpi_delta = Fin 0, kpi_delta_type = Neutral\<rparr>
      else \<lparr>kpi_value = v, kpi_delta = Fin ((v - prev) / prev),
            kpi_delta_type = (if (v > prev) \<noteq> higherIsBad then Good else Bad)\<rparr>)"

definition SHARE_PALETTE :: "string list" where
  [data_defs]: "SHARE_PALETTE = [''var(--accent)'', ''#7aa5ff'', ''#c08aff'', ''#f5a524'', ''#5ec8b4'', ''#e76e8b'', ''#8b95a8'',
     ''color-mix(in srgb, var(--muted) 50%, transparent)'']"

definition user_share :: "rat \<Rightarrow> User \<Rightarrow> rat" where
  "user_share totalCost t = (if totalCost > 0 then u_cost t / totalCost * 100 else 0)"

definition palette_at :: "nat \<Rightarrow> string" where
  "palette_at i = SHARE_PALETTE ! (i mod length SHARE_PALETTE)"

record share_segment =
  ss_id :: string
  ss_title :: string
  ss_width :: rat
  ss_color :: string
  ss_divider :: bool

definition segment_of :: "nat \<Rightarrow> rat \<Rightarrow> User \<Rightarrow> nat \<Rightarrow> share_segment" where
  "segment_of n totalCost t i =
     (let pct = user_share totalCost t in
      \<lparr>ss_id = u_id t, ss_title = u_name t @ '': '' @ fmtCost (u_cost t) @ '' ('' @ to_fixed 1 pct @ ''%)'',
       ss_width = pct, ss_color = palette_at i, ss_divider = (i < n - 1)\<rparr>)"

text \<open>The bar leaves out clients below half a percent.\<close>

definition shareBar :: "User list \<Rightarrow> rat \<Rightarrow> share_segment list" where
  "shareBar users totalCost =
     concat (map (\<lambda>(t, i). if user_share totalCost t < 1 / 2 then [] else [segment_of (length users) totalCost t i])
       (zip users [0..<length users]))"

definition share_legend :: "User list \<Rightarrow> rat \<Rightarrow> (string \<times> string \<times> string) list" where
  "share_legend users totalCost =
     map (\<lambda>(t, i). (palette_at i, u_name t, to_fixed 1 (user_share totalCost t) @ ''%'')) (zip (take 6 users) [0..<length users])"

definition share_rest :: "User list \<Rightarrow> string option" where
  "share_rest users = (if length users > 6 then Some (''+'' @ nat_str (length users - 6) @ '' smaller'') else None)"

subsection \<open>Columns\<close>

datatype UserSortKey = SortName | SortRegion | SortRuns | SortCost | SortAvg | SortSuccess | SortLastSeen

record SortState =
  so_key :: UserSortKey
  so_desc :: bool

record user_col =
  uc_key :: string
  uc_label :: string
  uc_width :: string
  uc_right :: bool
  uc_sortKey :: "UserSortKey option"
  uc_meta :: bool

definition ucol :: "string \<Rightarrow> string \<Rightarrow> string \<Rightarrow> bool \<Rightarrow> UserSortKey option \<Rightarrow> bool \<Rightarrow> user_col" where
  "ucol k l w r s m = \<lparr>uc_key = k, uc_label = l, uc_width = w, uc_right = r, uc_sortKey = s, uc_meta = m\<rparr>"

definition COLUMNS :: "user_col list" where
  [data_defs]: "COLUMNS =
     [ucol ''name'' ''Client'' ''minmax(180px, 1.4fr)'' False (Some SortName) False,
      ucol ''region'' ''Region'' ''84px'' False (Some SortRegion) True,
      ucol ''runs'' ''Runs'' ''80px'' True (Some SortRuns) False,
      ucol ''trend'' ''Trend'' ''78px'' False None False,
      ucol ''cost'' ''Cost'' ''90px'' True (Some SortCost) False,
      ucol ''avg'' ''Avg / 1K'' ''96px'' True (Some SortAvg) False,
      ucol ''success'' ''Success'' ''76px'' True (Some SortSuccess) True,
      ucol ''lastSeen'' ''Last seen'' ''84px'' True (Some SortLastSeen) True]"

text \<open>The text of a cell.\<close>

definition user_cell :: "host \<Rightarrow> int \<Rightarrow> string \<Rightarrow> User \<Rightarrow> string" where
  "user_cell h now key t =
     (if key = ''name'' then u_name t @ '' '' @ u_id t
      else if key = ''region'' then nullish (u_region t) []
      else if key = ''runs'' then fmtNum h (of_int (u_runs t))
      else if key = ''cost'' then fmtCost (u_cost t)
      else if key = ''avg'' then fmtCost (u_avg t * 1000)
      else if key = ''success'' then to_fixed 1 (nullish (u_success t) 0) @ ''%''
      else if key = ''lastSeen'' then (case u_lastSeen t of None \<Rightarrow> [] | Some s \<Rightarrow> relativeTime s now)
      else [])"

definition visibleCols :: "User list \<Rightarrow> user_col list" where
  "visibleCols users = (let hasMeta = (\<exists>t\<in>set users. u_region t \<noteq> None) in filter (\<lambda>c. \<not> uc_meta c \<or> hasMeta) COLUMNS)"

definition handleSort :: "UserSortKey \<Rightarrow> SortState \<Rightarrow> SortState" where
  "handleSort key s = (if so_key s = key then \<lparr>so_key = key, so_desc = \<not> so_desc s\<rparr> else \<lparr>so_key = key, so_desc = True\<rparr>)"

definition users_filtered :: "(string \<Rightarrow> string) \<Rightarrow> string \<Rightarrow> User list \<Rightarrow> User list" where
  "users_filtered lower search users =
     (if trim search = [] then users
      else (let q = lower (trim search) in
            filter (\<lambda>t. str_includes (lower (u_name t)) q \<or> str_includes (lower (u_id t)) q) users))"

text \<open>The value of a column: a string, a number or missing. Values of different kinds compare equal.\<close>

datatype sort_value = TextValue string | NumValue rat | NoValue

definition num_value :: "rat option \<Rightarrow> sort_value" where
  "num_value x = (case x of None \<Rightarrow> NoValue | Some v \<Rightarrow> NumValue v)"

definition value_of_key :: "UserSortKey \<Rightarrow> User \<Rightarrow> sort_value" where
  "value_of_key k t =
     (case k of
        SortName \<Rightarrow> TextValue (u_name t)
      | SortRegion \<Rightarrow> (case u_region t of None \<Rightarrow> NoValue | Some r \<Rightarrow> TextValue r)
      | SortRuns \<Rightarrow> NumValue (of_int (u_runs t))
      | SortCost \<Rightarrow> NumValue (u_cost t)
      | SortAvg \<Rightarrow> NumValue (u_avg t)
      | SortSuccess \<Rightarrow> num_value (u_success t)
      | SortLastSeen \<Rightarrow> num_value (map_option of_int (u_lastSeen t)))"

definition user_cmp :: "(string \<Rightarrow> string \<Rightarrow> rat) \<Rightarrow> SortState \<Rightarrow> User \<Rightarrow> User \<Rightarrow> rat" where
  "user_cmp collate s a b =
     (case (value_of_key (so_key s) a, value_of_key (so_key s) b) of
        (TextValue x, TextValue y) \<Rightarrow> if so_desc s then collate y x else collate x y
      | (NumValue x, NumValue y) \<Rightarrow> if so_desc s then y - x else x - y
      | _ \<Rightarrow> 0)"

definition users_sorted :: "(string \<Rightarrow> string \<Rightarrow> rat) \<Rightarrow> SortState \<Rightarrow> User list \<Rightarrow> User list" where
  "users_sorted collate s users = js_sort (user_cmp collate s) users"

subsection \<open>The page\<close>

record users_page =
  pg_search :: string
  pg_sort :: SortState

definition users_page_init :: users_page where
  "users_page_init = \<lparr>pg_search = [], pg_sort = \<lparr>so_key = SortCost, so_desc = True\<rparr>\<rparr>"

definition users_total :: "User list \<Rightarrow> rat" where
  "users_total users = foldl (\<lambda>s t. s + u_cost t) 0 users"

definition users_runs :: "User list \<Rightarrow> int" where
  "users_runs users = foldl (\<lambda>s t. s + u_runs t) 0 users"

definition users_by_cost :: "User list \<Rightarrow> User list" where
  "users_by_cost users = js_sort (\<lambda>a b. u_cost b - u_cost a) users"

definition users_table :: "(string \<Rightarrow> string) \<Rightarrow> (string \<Rightarrow> string \<Rightarrow> rat) \<Rightarrow> users_page \<Rightarrow> User list \<Rightarrow> User list" where
  "users_table lower collate p users = users_sorted collate (pg_sort p) (users_filtered lower (pg_search p) users)"

definition users_kpis :: "host \<Rightarrow> User list \<Rightarrow> (int \<times> rat) option \<Rightarrow> KpiItem list" where
  "users_kpis h users comparison =
     (let totalCost = users_total users; totalRuns = users_runs users;
          tile = (\<lambda>l v k hint. \<lparr>ki_label = l, ki_value = v, ki_delta = map_option (dp_delta \<circ> deltaParts) k,
             ki_deltaTone = map_option (dp_deltaTone \<circ> deltaParts) k, ki_sparkData = None, ki_sparkColor = None, ki_hint = hint\<rparr>);
          runsKpi = map_option (\<lambda>(r, c). toKpi (of_int totalRuns) (of_int r) False) comparison;
          costKpi = map_option (\<lambda>(r, c). toKpi totalCost c True) comparison in
      [tile ''Active clients'' (nat_str (length users)) None (Some ''this period''),
       tile ''Total runs'' (fmtNum h (of_int totalRuns)) runsKpi (map_option (dp_hint \<circ> deltaParts) runsKpi),
       tile ''Spend'' (fmtCost totalCost) costKpi
         (Some (fmtCost (if users \<noteq> [] then totalCost / of_nat (length users) else 0) @ '' / client''))])"

definition top3_share :: "User list \<Rightarrow> string" where
  "top3_share users =
     (let totalCost = users_total users in
      if totalCost > 0 then to_fixed 0 (users_total (take 3 (users_by_cost users)) / totalCost * 100) else ''0'')"

definition users_shown :: "nat \<Rightarrow> User list \<Rightarrow> string" where
  "users_shown shown users = nat_str shown @ '' of '' @ nat_str (length users) @ '' shown '' @ mid_dot @ '' click a row to drill in.''"

text \<open>A row opens its client unless it stands for spend without one.\<close>

definition row_opens :: "User \<Rightarrow> (string, string) jsmap \<Rightarrow> ((string, string) jsmap \<times> string) option" where
  "row_opens t s = (if u_id t = UNATTRIBUTED then None else Some (jm_set ''user'' (u_id t) s, ''user''))"

subsection \<open>The live list (UsersLivePage.tsx)\<close>

datatype users_live = UsersLoading | UsersFailed | NoUsers | UsersShown "User list" "int \<times> rat"

definition live_users :: "UserUsage list \<Rightarrow> User list" where
  "live_users items = map (\<lambda>t. \<lparr>u_id = (if uu_user_id t = [] then UNATTRIBUTED else uu_user_id t),
     u_name = (if uu_user_id t = [] then ''default'' else uu_user_id t), u_cost = uu_cost t, u_runs = uu_runs t,
     u_avg = avg_cost (uu_cost t) (uu_runs t), u_trend = uu_trend t, u_region = None, u_success = None, u_lastSeen = None\<rparr>) items"

definition usersLivePage :: "bool \<Rightarrow> bool \<Rightarrow> UserUsage list option \<Rightarrow> users_live" where
  "usersLivePage isLoading isError data =
     (if isLoading then UsersLoading else if isError then UsersFailed
      else (let items = nullish data [] in
        if items = [] then NoUsers
        else UsersShown (live_users items)
          (foldl (\<lambda>s t. s + uu_runs_prev t) 0 items, foldl (\<lambda>s t. s + uu_cost_prev t) 0 items)))"

subsection \<open>The page of one client (UserDetailLivePage.tsx)\<close>

definition toKpiItems :: "host \<Rightarrow> KpiSet \<Rightarrow> rat option \<Rightarrow> string \<Rightarrow> KpiItem list" where
  "toKpiItems h kpis tokens rng =
     (let failed = math_round (kpi_value (ks_runs kpis) * kpi_value (ks_error_rate kpis));
          tile = (\<lambda>l v k hint. \<lparr>ki_label = l, ki_value = v, ki_delta = Some (dp_delta (deltaParts k)),
             ki_deltaTone = Some (dp_deltaTone (deltaParts k)), ki_sparkData = None, ki_sparkColor = None, ki_hint = Some hint\<rparr>) in
      [spendTile kpis, runsTile h kpis,
       tile ''Failure rate'' (fmtPct (kpi_value (ks_error_rate kpis) * 100)) (ks_error_rate kpis)
         (fmtNum h (of_int failed) @ '' failed''),
       if isLongRange rng then tokensTile tokens
       else tile ''p95 latency'' (fmtMs (kpi_value (ks_latency_p95 kpis))) (ks_latency_p95 kpis) ''end-to-end''])"

definition client_openTrace :: "string \<Rightarrow> (string, string) jsmap \<Rightarrow> (string, string) jsmap \<times> string" where
  "client_openTrace i prev = (jm_set ''traceId'' i prev, ''trace'')"

definition client_openWorkflow :: "string \<Rightarrow> (string, string) jsmap \<Rightarrow> (string, string) jsmap \<times> string" where
  "client_openWorkflow n prev = (jm_set ''workflow'' n prev, ''workflows'')"

definition client_subtitle :: "int \<Rightarrow> string \<Rightarrow> Trace list option \<Rightarrow> WorkflowSummary list \<Rightarrow> string list" where
  "client_subtitle now rng traces rows =
     [periodLabel rng]
     @ (case traces of Some (t # _) \<Rightarrow> [''Last seen '' @ relativeTime (tr_start_time_ms t) now] | _ \<Rightarrow> [])
     @ (if rows \<noteq> [] then [nat_str (length rows) @ '' '' @ (if length rows = 1 then ''workflow'' else ''workflows'')] else [])"

definition client_runs :: "int \<Rightarrow> Trace list option \<Rightarrow> RunRow list" where
  "client_runs now traces =
     map (\<lambda>t. (toRunRow now t)\<lparr>rr_name := (if tr_name t = [] then None else Some (tr_name t))\<rparr>) (nullish traces [])"

datatype client_page = NoClient | ClientShown bool

definition userDetailLivePage :: "string \<Rightarrow> KpiSet option \<Rightarrow> client_page" where
  "userDetailLivePage userId kpis = (if userId = [] then NoClient else ClientShown (usage_empty kpis))"

subsection \<open>Facts\<close>

lemma user_value:
  "k \<in> {SortRuns, SortCost, SortAvg} \<Longrightarrow> \<exists>f. \<forall>t. value_of_key k t = NumValue (f t)"
  by (auto simp: value_of_key_def)

text \<open>Columns without missing values order the table.\<close>

definition total_key :: "UserSortKey \<Rightarrow> bool" where
  "total_key k \<longleftrightarrow> k \<in> {SortName, SortRuns, SortCost, SortAvg}"

lemma user_cmp_comparator:
  assumes "comparator collate" "total_key (so_key s)"
  shows "comparator (user_cmp collate s)"
proof (cases "so_key s = SortName")
  case True
  then have "user_cmp collate s = (\<lambda>a b. if so_desc s then collate (u_name b) (u_name a) else collate (u_name a) (u_name b))"
    by (intro ext) (simp add: user_cmp_def value_of_key_def)
  moreover have "comparator (\<lambda>a b. collate b a)" using assms(1) by (rule comparator_swap)
  ultimately show ?thesis
    using comparator_on [OF assms(1), of u_name] comparator_on [of "\<lambda>a b. collate b a" u_name] by (cases "so_desc s") simp_all
next
  case False
  then obtain f where "\<forall>t. value_of_key (so_key s) t = NumValue (f t)"
    using assms(2) user_value [of "so_key s"] by (auto simp: total_key_def)
  then have "user_cmp collate s = (\<lambda>a b. if so_desc s then f b - f a else f a - f b)"
    by (intro ext) (simp add: user_cmp_def)
  then show ?thesis using comparator_key [of f] comparator_key_desc [of f] by (cases "so_desc s") simp_all
qed

lemma users_total_sum: "users_total us = sum_list (map u_cost us)"
proof -
  have "foldl (\<lambda>s t. s + u_cost t) a us = a + sum_list (map u_cost us)" for a
    by (induction us arbitrary: a) (simp_all add: add.assoc)
  then show ?thesis by (simp add: users_total_def)
qed

interpretation by_user_cost: comparator "\<lambda>a b. u_cost b - u_cost a"
  by (rule comparator_key_desc)

lemma shareBar_map:
  "map ss_width (shareBar users tot) = map (user_share tot) (filter (\<lambda>t. \<not> user_share tot t < 1 / 2) users)"
proof -
  have "map ss_width (concat (map (\<lambda>(t, i). if user_share tot t < 1 / 2 then [] else [segment_of n tot t i]) (zip us is)))
      = map (user_share tot) (filter (\<lambda>t. \<not> user_share tot t < 1 / 2) us)" if "length us = length is" for n us "is"
    using that by (induction us "is" rule: list_induct2) (simp_all add: segment_of_def Let_def)
  then show ?thesis unfolding shareBar_def by simp
qed

subsection \<open>Properties\<close>

text \<open>The table of clients lists exactly the clients whose name or identifier matches the search, each once, ordered
  by the chosen column in the chosen direction with ties in the order of the data.\<close>

theorem users_table_spec:
  assumes "comparator collate" "total_key (so_key (pg_sort p))"
  shows "mset (users_table lower collate p users) = mset (users_filtered lower (pg_search p) users) \<and>
    (trim (pg_search p) \<noteq> [] \<longrightarrow> (\<forall>t. t \<in> set (users_table lower collate p users) \<longleftrightarrow> t \<in> set users \<and>
       (str_includes (lower (u_name t)) (lower (trim (pg_search p))) \<or> str_includes (lower (u_id t)) (lower (trim (pg_search p)))))) \<and>
    sorted_wrt (\<lambda>a b. user_cmp collate (pg_sort p) a b \<le> 0) (users_table lower collate p users) \<and>
    filter (\<lambda>b. user_cmp collate (pg_sort p) a b = 0) (users_table lower collate p users) =
      filter (\<lambda>b. user_cmp collate (pg_sort p) a b = 0) (users_filtered lower (pg_search p) users)"
  using comparator.sorted_sort [OF user_cmp_comparator [OF assms]] comparator.sort_stable [OF user_cmp_comparator [OF assms]]
  by (auto simp: users_table_def users_sorted_def users_filtered_def Let_def)

text \<open>The headline of the cost shares is right: no three clients spent more than the three it adds up.\<close>

theorem top3_greatest:
  assumes "\<forall>t\<in>set users. 0 \<le> u_cost t" "mset choice \<subseteq># mset users" "length choice \<le> 3"
  shows "users_total choice \<le> users_total (take 3 (users_by_cost users))"
  unfolding users_total_sum users_by_cost_def using assms by_user_cost.sorted_sort by (intro greedy_prefix) simp_all

text \<open>The segments of the share bar fit into it and leave out exactly the clients below half a percent.\<close>

theorem shareBar_fits:
  assumes "\<forall>t\<in>set users. 0 \<le> u_cost t"
  shows "sum_list (map ss_width (shareBar users (users_total users))) \<le> 100 \<and>
    length (shareBar users (users_total users)) =
      length (filter (\<lambda>t. 1 / 2 \<le> user_share (users_total users) t) users)"
proof -
  let ?tot = "users_total users"
  have "0 \<le> ?tot" using assms by (auto simp: users_total_sum intro!: sum_list_nonneg)
  then have nonneg: "\<forall>t\<in>set users. 0 \<le> user_share ?tot t" using assms by (simp add: user_share_def)
  have "sum_list (map (user_share ?tot) (filter P us)) \<le> sum_list (map (user_share ?tot) us)"
    if "\<forall>t\<in>set us. 0 \<le> user_share ?tot t" for P us
    using that by (induction us) auto
  then have "sum_list (map ss_width (shareBar users ?tot)) \<le> sum_list (map (user_share ?tot) users)"
    unfolding shareBar_map using nonneg by blast
  also have "\<dots> \<le> 100"
  proof (cases "?tot > 0")
    case True
    have "sum_list (map (user_share ?tot) us) = users_total us / ?tot * 100" for us
      using True by (induction us) (simp_all add: user_share_def users_total_sum add_divide_distrib distrib_right)
    then show ?thesis using True by simp
  next
    case False
    then have "user_share ?tot = (\<lambda>_. 0)" by (intro ext) (simp add: user_share_def)
    then show ?thesis by (simp add: map_replicate_const sum_list_replicate)
  qed
  finally show ?thesis
    using arg_cong [OF shareBar_map [of users ?tot], of length] by (simp add: not_less)
qed

definition two_clients :: "User list" where
  "two_clients = map (\<lambda>(n, c). \<lparr>u_id = n, u_name = n, u_cost = c, u_runs = 1, u_avg = c, u_trend = [], u_region = None,
     u_success = None, u_lastSeen = None\<rparr>) [(''ann'', 3), (''bob'', 997)]"

lemma two_clients_nonneg: "\<forall>t\<in>set two_clients. 0 \<le> u_cost t"
  by (simp add: two_clients_def)

theorem users_table_spec_witness:
  "mset (users_table to_lower (\<lambda>a b. of_nat (length a) - of_nat (length b)) users_page_init two_clients) = mset two_clients"
proof -
  have "total_key (so_key (pg_sort users_page_init))" by (simp add: total_key_def users_page_init_def)
  from users_table_spec [OF comparator_key [of "\<lambda>a. of_nat (length a) :: rat"] this, of to_lower two_clients] show ?thesis
    by (simp add: users_filtered_def users_page_init_def trim_def)
qed

theorem top3_greatest_witness: "users_total [hd two_clients] \<le> users_total (take 3 (users_by_cost two_clients))"
  by (rule top3_greatest [OF two_clients_nonneg]) (simp_all add: two_clients_def)

theorem shareBar_fits_witness: "sum_list (map ss_width (shareBar two_clients (users_total two_clients))) \<le> 100"
  using shareBar_fits [OF two_clients_nonneg] by blast

end
