(* ===== verification/Demo_Pages.thy ===== *)
theory Demo_Pages
  imports Display Clients Demo_Series
begin

text \<open>
  The pages of the preview that visitors see before they sign in, with their data: the overview (\<open>modules/overview/data.ts\<close>,
  \<open>pages/OverviewPage.tsx\<close>) with its simulated feed, the workflows (\<open>modules/workflows/data.ts\<close>, \<open>pages/WorkflowDetailDemoPage.tsx\<close> and
  the presentation \<open>WorkflowDetailPage.tsx\<close>, which the live page shares) and a client (\<open>modules/usage/pages/UserDetailPage.tsx\<close>).
  \<open>sine\<close> is \<open>Math.sin\<close>.
\<close>

subsection \<open>Data of the workflows\<close>

definition en_dash_text :: string where
  "en_dash_text = [CHR 0xE2, CHR 0x80, CHR 0x93]"

definition DEMO_TRACE :: string where
  [data_defs]: "DEMO_TRACE = ''t_a9f2_eb7c''"

definition demo_workflow :: "string \<Rightarrow> int \<Rightarrow> rat \<Rightarrow> rat \<Rightarrow> rat \<Rightarrow> int list \<Rightarrow> Workflow" where
  [data_defs]: "demo_workflow n calls cost lat err trend = \<lparr>wf_name = n, wf_calls = calls, wf_cost = cost, wf_avg_latency_ms = lat,
     wf_error_rate = err, wf_trend = trend, wf_last_trace_id = DEMO_TRACE\<rparr>"

definition WORKFLOWS :: "Workflow list" where
  [data_defs]: "WORKFLOWS =
    [demo_workflow ''summarize-comments'' 847 (2117 / 5000) 2100 (1 / 500) [12, 14, 18, 16, 22, 28, 34, 31, 29, 38, 42, 39, 44],
     demo_workflow ''generate-clock-out-description'' 412 (2891 / 10000) 3400 0 [8, 10, 9, 12, 14, 16, 15, 18, 20, 19, 22, 24, 21],
     demo_workflow ''classify-intent'' 1203 (301 / 2500) 800 (7 / 500) [42, 48, 52, 49, 55, 61, 58, 63, 72, 68, 74, 81, 88],
     demo_workflow ''extract-entities'' 328 (223 / 2500) 1200 0 [4, 5, 6, 5, 7, 8, 7, 9, 10, 9, 11, 12, 10],
     demo_workflow ''rewrite-message'' 156 (194 / 625) 4800 (83 / 1000) [2, 3, 4, 3, 5, 6, 5, 8, 12, 14, 18, 22, 28],
     demo_workflow ''detect-sentiment'' 612 (103 / 2500) 600 (3 / 1000) [18, 20, 22, 19, 24, 26, 28, 25, 30, 32, 34, 31, 35],
     demo_workflow ''summarize-thread'' 89 (417 / 5000) 3100 (11 / 1000) [1, 2, 3, 2, 4, 5, 4, 6, 7, 8, 9, 11, 12],
     demo_workflow ''moderate-content'' 2104 (223 / 2500) 400 (1 / 1000) [80, 85, 92, 88, 96, 102, 108, 112, 118, 124, 128, 132, 138]]"

definition WORKFLOW_META :: "(string, WorkflowMeta) jsmap" where
  [data_defs]: "WORKFLOW_META =
    [(''summarize-comments'', \<lparr>wm_description = ''Condenses long comment threads into a 3'' @ en_dash_text @ ''5 bullet digest with sentiment and unresolved-question flags. Runs on every thread close.'',
        wm_model = ''claude-sonnet-4-5'', wm_provider = ''anthropic'', wm_version = ''v3.1.0'', wm_temperature = (1 / 5), wm_maxTokens = 1024,
        wm_timeout = ''45s'', wm_retries = 1, wm_endpoint = ''workflows.summarize-comments''\<rparr>),
     (''generate-clock-out-description'', \<lparr>wm_description = ''Drafts an end-of-shift summary from a worker's activity log, matching the org's reporting template and tone.'',
        wm_model = ''claude-sonnet-4-5'', wm_provider = ''anthropic'', wm_version = ''v1.6.2'', wm_temperature = (2 / 5), wm_maxTokens = 768,
        wm_timeout = ''30s'', wm_retries = 2, wm_endpoint = ''workflows.generate-clock-out-description''\<rparr>),
     (''classify-intent'', \<lparr>wm_description = ''Routes inbound messages into one of 18 intent labels with a confidence score. Powers downstream automation triggers.'',
        wm_model = ''claude-haiku-4-5'', wm_provider = ''anthropic'', wm_version = ''v4.2.0'', wm_temperature = 0, wm_maxTokens = 128,
        wm_timeout = ''15s'', wm_retries = 2, wm_endpoint = ''workflows.classify-intent''\<rparr>),
     (''extract-entities'', \<lparr>wm_description = ''Pulls structured entities (people, orgs, dates, amounts) from free text and returns them as typed spans with offsets.'',
        wm_model = ''claude-haiku-4-5'', wm_provider = ''anthropic'', wm_version = ''v2.0.4'', wm_temperature = 0, wm_maxTokens = 512,
        wm_timeout = ''20s'', wm_retries = 1, wm_endpoint = ''workflows.extract-entities''\<rparr>),
     (''rewrite-message'', \<lparr>wm_description = ''Rewrites a user-supplied draft to match a target tone and audience, enforcing word-count and style-guide constraints before returning.'',
        wm_model = ''claude-haiku-4-5'', wm_provider = ''anthropic'', wm_version = ''v2.4.1'', wm_temperature = (3 / 10), wm_maxTokens = 512,
        wm_timeout = ''30s'', wm_retries = 2, wm_endpoint = ''workflows.rewrite-message''\<rparr>),
     (''detect-sentiment'', \<lparr>wm_description = ''Scores a single message on a continuous -1 to +1 sentiment axis with an emotion label. Lowest-latency workflow in the workspace.'',
        wm_model = ''claude-haiku-4-5'', wm_provider = ''anthropic'', wm_version = ''v3.0.1'', wm_temperature = 0, wm_maxTokens = 64,
        wm_timeout = ''10s'', wm_retries = 1, wm_endpoint = ''workflows.detect-sentiment''\<rparr>),
     (''summarize-thread'', \<lparr>wm_description = ''Produces a narrative summary of an entire conversation thread, preserving decisions and action items in order.'',
        wm_model = ''claude-sonnet-4-5'', wm_provider = ''anthropic'', wm_version = ''v1.3.0'', wm_temperature = (3 / 10), wm_maxTokens = 1536,
        wm_timeout = ''60s'', wm_retries = 1, wm_endpoint = ''workflows.summarize-thread''\<rparr>),
     (''moderate-content'', \<lparr>wm_description = ''Flags policy-violating content across 9 categories and returns a block/allow/review decision. Highest-volume workflow.'',
        wm_model = ''claude-haiku-4-5'', wm_provider = ''anthropic'', wm_version = ''v5.1.2'', wm_temperature = 0, wm_maxTokens = 96,
        wm_timeout = ''10s'', wm_retries = 2, wm_endpoint = ''workflows.moderate-content''\<rparr>)]"

definition DEFAULT_WORKFLOW_META :: WorkflowMeta where
  "DEFAULT_WORKFLOW_META = the (jm_get WORKFLOW_META ''rewrite-message'')"

subsection \<open>Data of the overview\<close>

definition feed_item :: "string \<Rightarrow> string \<Rightarrow> run_status \<Rightarrow> string \<Rightarrow> rat \<Rightarrow> string option \<Rightarrow> ActivityItem" where
  [data_defs]: "feed_item i wk st tm lat msg = \<lparr>ai_id = i, ai_workflow = wk, ai_status = st, ai_time = tm, ai_latency = lat, ai_msg = msg\<rparr>"

definition ACTIVITY_FEED :: "ActivityItem list" where
  [data_defs]: "ACTIVITY_FEED =
    [feed_item ''t_a9f2'' ''rewrite-message'' Failed ''just now'' (24 / 5) (Some ''rate_limit_exceeded''),
     feed_item ''t_a9f1'' ''summarize-comments'' Completed ''2s ago'' (21 / 10) None,
     feed_item ''t_a9f0'' ''classify-intent'' Completed ''4s ago'' (4 / 5) None,
     feed_item ''t_a9ef'' ''rewrite-message'' Failed ''7s ago'' (31 / 5) (Some ''context_length''),
     feed_item ''t_a9ee'' ''moderate-content'' Completed ''9s ago'' (3 / 10) None,
     feed_item ''t_a9ed'' ''summarize-comments'' Completed ''12s ago'' (19 / 10) None,
     feed_item ''t_a9ec'' ''detect-sentiment'' Completed ''14s ago'' (3 / 5) None,
     feed_item ''t_a9eb'' ''classify-intent'' Completed ''16s ago'' (7 / 10) None,
     feed_item ''t_a9ea'' ''extract-entities'' Completed ''19s ago'' (11 / 10) None,
     feed_item ''t_a9e9'' ''summarize-comments'' Completed ''21s ago'' (11 / 5) None,
     feed_item ''t_a9e8'' ''moderate-content'' Completed ''24s ago'' (2 / 5) None,
     feed_item ''t_a9e7'' ''rewrite-message'' Completed ''27s ago'' (39 / 10) None,
     feed_item ''t_a9e6'' ''classify-intent'' Completed ''29s ago'' (9 / 10) None,
     feed_item ''t_a9e5'' ''generate-clock-out-description'' Completed ''32s ago'' (31 / 10) None,
     feed_item ''t_a9e4'' ''detect-sentiment'' Completed ''34s ago'' (1 / 2) None]"

definition COST_SERIES_7D :: "CostPoint list" where
  [data_defs]: "COST_SERIES_7D =
    [\<lparr>cp_label = ''Mon 4/13'', cp_value = (451 / 2500)\<rparr>, \<lparr>cp_label = ''Tue 4/14'', cp_value = (8701 / 5000)\<rparr>, \<lparr>cp_label = ''Wed 4/15'', cp_value = (801 / 5000)\<rparr>, \<lparr>cp_label = ''Thu 4/16'', cp_value = (331 / 2500)\<rparr>, \<lparr>cp_label = ''Fri 4/17'', cp_value = (1489 / 10000)\<rparr>, \<lparr>cp_label = ''Sat 4/18'', cp_value = (121 / 1250)\<rparr>, \<lparr>cp_label = ''Sun 4/19'', cp_value = (607 / 5000)\<rparr>]"

definition LATENCY_SERIES_7D :: "LatencyPoint list" where
  [data_defs]: "LATENCY_SERIES_7D =
    [\<lparr>lp_label = ''Mon'', lp_p50 = Some (6 / 5), lp_p95 = Some (31 / 10), lp_p99 = Some 6\<rparr>,
     \<lparr>lp_label = ''Tue'', lp_p50 = Some (9 / 5), lp_p95 = Some (21 / 5), lp_p99 = Some (63 / 2)\<rparr>,
     \<lparr>lp_label = ''Wed'', lp_p50 = Some (7 / 5), lp_p95 = Some (19 / 5), lp_p99 = Some 12\<rparr>,
     \<lparr>lp_label = ''Thu'', lp_p50 = Some (11 / 10), lp_p95 = Some (29 / 10), lp_p99 = Some (36 / 5)\<rparr>,
     \<lparr>lp_label = ''Fri'', lp_p50 = Some (13 / 10), lp_p95 = Some (16 / 5), lp_p99 = Some (34 / 5)\<rparr>,
     \<lparr>lp_label = ''Sat'', lp_p50 = Some (9 / 10), lp_p95 = Some (12 / 5), lp_p99 = Some (51 / 10)\<rparr>,
     \<lparr>lp_label = ''Sun'', lp_p50 = Some 1, lp_p95 = Some (13 / 5), lp_p99 = Some (27 / 5)\<rparr>]"

definition ERROR_SERIES_7D :: "ErrorPoint list" where
  [data_defs]: "ERROR_SERIES_7D =
    [\<lparr>ep_label = ''Mon'', ep_errors = 2, ep_total = 312\<rparr>, \<lparr>ep_label = ''Tue'', ep_errors = 1, ep_total = 418\<rparr>, \<lparr>ep_label = ''Wed'', ep_errors = 3, ep_total = 287\<rparr>, \<lparr>ep_label = ''Thu'', ep_errors = 0, ep_total = 245\<rparr>, \<lparr>ep_label = ''Fri'', ep_errors = 8, ep_total = 298\<rparr>, \<lparr>ep_label = ''Sat'', ep_errors = 12, ep_total = 201\<rparr>, \<lparr>ep_label = ''Sun'', ep_errors = 14, ep_total = 189\<rparr>]"

definition hour_label :: "nat \<Rightarrow> string" where
  "hour_label i = pad_start 2 (CHR ''0'') (nat_str i) @ '':00''"

definition COST_SERIES_24H :: "(rat \<Rightarrow> rat) \<Rightarrow> CostPoint list" where
  "COST_SERIES_24H sine = map (\<lambda>i. let base = 2 / 100 + sine (of_nat i / 3) * (8 / 1000) + (if i = 11 then 9 / 100 else 0) in
     \<lparr>cp_label = hour_label i, cp_value = max (2 / 1000) base\<rparr>) [0..<24]"

definition COST_SERIES_30D :: "(rat \<Rightarrow> rat) \<Rightarrow> CostPoint list" where
  "COST_SERIES_30D sine = map (\<lambda>i.
     let v = 12 / 100 + sine (of_nat i / 4) * (4 / 100) + (if i = 7 then 15 / 10 else 0) + (if i = 22 then 8 / 10 else 0) in
     \<lparr>cp_label = nat_str (i + 1), cp_value = max (4 / 100) v\<rparr>) [0..<30]"

definition LATENCY_SERIES_24H :: "(rat \<Rightarrow> rat) \<Rightarrow> LatencyPoint list" where
  "LATENCY_SERIES_24H sine = map (\<lambda>i. let s = sine (of_nat i / 4) in
     \<lparr>lp_label = hour_label i, lp_p50 = Some (1 + s * (3 / 10)), lp_p95 = Some (28 / 10 + s * (8 / 10) + (if i = 11 then 22 / 10 else 0)),
      lp_p99 = Some (55 / 10 + s * (15 / 10) + (if i = 11 then 18 else 0))\<rparr>) [0..<24]"

definition LATENCY_SERIES_30D :: "(rat \<Rightarrow> rat) \<Rightarrow> LatencyPoint list" where
  "LATENCY_SERIES_30D sine = map (\<lambda>i. let s = sine (of_nat i / 5) in
     \<lparr>lp_label = nat_str (i + 1), lp_p50 = Some (11 / 10 + s * (3 / 10)), lp_p95 = Some (3 + s * (6 / 10) + (if i = 7 then 14 / 10 else 0)),
      lp_p99 = Some (6 + s * (12 / 10) + (if i = 7 then 25 else 0) + (if i = 22 then 14 else 0))\<rparr>) [0..<30]"

subsection \<open>The overview of the preview\<close>

definition TOP_WORKFLOWS :: "(string \<times> int \<times> rat \<times> int list) list" where
  "TOP_WORKFLOWS = map (\<lambda>a. (wf_name a, wf_calls a, wf_cost a, wf_trend a)) (take 6 (js_sort (\<lambda>a b. wf_calls b - wf_calls a) WORKFLOWS))"

definition demo_axis :: "int \<Rightarrow> nat \<Rightarrow> int list" where
  "demo_axis now n = (let today = now div DAY_MS * DAY_MS in map (\<lambda>i. today - (int n - 1 - int i) * DAY_MS) [0..<n])"

text \<open>An index outside the axis reads \<open>undefined\<close>: with an empty series there is no bucket.\<close>

definition by_height :: "CostPoint list \<Rightarrow> nat list" where
  "by_height cost = js_sort (\<lambda>a b. cp_value (cost ! b) - cp_value (cost ! a)) [0..<length cost]"

definition value_at :: "CostPoint list \<Rightarrow> nat \<Rightarrow> rat \<Rightarrow> rat" where
  "value_at cost i d = (if i < length cost then cp_value (cost ! i) else d)"

definition demo_outlier :: "AnomalyMetric \<Rightarrow> string \<Rightarrow> int \<Rightarrow> rat \<Rightarrow> rat \<Rightarrow> rat \<Rightarrow> Severity \<Rightarrow> string \<Rightarrow> Anomaly" where
  "demo_outlier metric wk ms observed expected score sev summary =
     \<lparr>an_metric = metric, an_scope = (if wk = [] then WorkspaceScope else WorkflowScope), an_workflow = wk, an_bucket_ms = ms,
      an_observed = observed, an_expected = expected, an_deviation = observed - expected, an_score = score, an_direction = Spike,
      an_severity = sev, an_summary = summary, an_version_change = None\<rparr>"

definition buildDemoOutliers :: "int \<Rightarrow> CostPoint list \<Rightarrow> int list \<times> Anomaly list" where
  "buildDemoOutliers now cost =
     (let n = length cost; axisMs = demo_axis now n; order = by_height cost;
          bigIdx = (if order \<noteq> [] then order ! 0 else n - 1);
          midIdx = (if length order > 1 then order ! 1 else n - 2);
          bigVal = value_at cost bigIdx (471 / 100); midVal = value_at cost midIdx (34 / 100) in
      (axisMs,
       [(demo_outlier Cost ''checkout-workflow'' (axisMs ! bigIdx) bigVal (bigVal / (46 / 10)) (64 / 10) Critical
           (''Workflow \"checkout-workflow\" cost spiked, 4.6'' @ times_sign @ '' the typical day. Started near checkout-workflow v3.''))
           \<lparr>an_version_change := Some \<lparr>vc_workflow = ''checkout-workflow'', vc_version = ''v3'', vc_first_seen_ms = axisMs ! bigIdx\<rparr>\<rparr>,
        demo_outlier ErrorRate ''checkout-workflow'' (axisMs ! bigIdx) (22 / 100) (5 / 100) (52 / 10) Warning
           ''Workflow \"checkout-workflow\" error rate rose to 22% the same day.'',
        demo_outlier ErrorRate ''support-ticket-resolver'' (axisMs ! min (n - 1) 5) (19 / 100) (4 / 100) (71 / 10) Critical
           ''Workflow \"support-ticket-resolver\" error rate rose to 19%.'',
        demo_outlier Runs [] (axisMs ! min (n - 1) 3) 512 190 (48 / 10) Warning
           (''Workspace run volume rose to 512, 2.7'' @ times_sign @ '' the typical day.''),
        demo_outlier Cost ''invoice-parser'' (axisMs ! midIdx) midVal (midVal / (24 / 10)) (34 / 10) Info
           (''Workflow \"invoice-parser\" is drifting 2.4'' @ times_sign @ '' costlier per run.'')]))"

definition FEED_WORKFLOWS :: "string list" where
  "FEED_WORKFLOWS = [''summarize-comments'', ''classify-intent'', ''detect-sentiment'', ''moderate-content'', ''extract-entities'', ''rewrite-message'']"

definition FEED_ERRORS :: "string list" where
  "FEED_ERRORS = [''rate_limit_exceeded'', ''timeout'', ''context_length'']"

definition pick :: "'a list \<Rightarrow> rat \<Rightarrow> 'a" where
  "pick arr r = arr ! nat \<lfloor>r * of_nat (length arr)\<rfloor>"

text \<open>One tick of the timer: \<open>r\<close> are the random numbers it draws and \<open>tid\<close> the hexadecimal digits of the new identifier.\<close>

record feed_draw =
  fd_failed :: rat
  fd_id :: string
  fd_workflow :: rat
  fd_latency :: rat
  fd_error :: rat

definition feed_next :: "feed_draw \<Rightarrow> ActivityItem" where
  "feed_next r = (let failed = fd_failed r < 1 / 6 in
     \<lparr>ai_id = ''t_'' @ fd_id r, ai_workflow = pick FEED_WORKFLOWS (fd_workflow r), ai_status = (if failed then Failed else Completed),
      ai_time = ''just now'', ai_latency = fd_latency r * 3 + 3 / 10, ai_msg = (if failed then Some (pick FEED_ERRORS (fd_error r)) else None)\<rparr>)"

definition age_item :: "ActivityItem \<Rightarrow> ActivityItem" where
  "age_item it = (if ai_time it = ''just now'' then it\<lparr>ai_time := ''2s ago''\<rparr> else it)"

definition feed_tick :: "feed_draw \<Rightarrow> ActivityItem list \<Rightarrow> ActivityItem list" where
  "feed_tick r prev = take 40 (feed_next r # map age_item prev)"

definition costSeries :: "(rat \<Rightarrow> rat) \<Rightarrow> string \<Rightarrow> CostPoint list" where
  "costSeries sine rng = (if rng = ''24h'' then COST_SERIES_24H sine else if rng = ''30d'' then COST_SERIES_30D sine else COST_SERIES_7D)"

definition latSeries :: "(rat \<Rightarrow> rat) \<Rightarrow> string \<Rightarrow> LatencyPoint list" where
  "latSeries sine rng = (if rng = ''24h'' then LATENCY_SERIES_24H sine else if rng = ''30d'' then LATENCY_SERIES_30D sine else LATENCY_SERIES_7D)"

definition demo_outliers :: "(rat \<Rightarrow> rat) \<Rightarrow> int \<Rightarrow> string \<Rightarrow> (int list \<times> Anomaly list) option" where
  "demo_outliers sine now rng = (if rng = ''7d'' then Some (buildDemoOutliers now (costSeries sine rng)) else None)"

record demo_figures =
  dg_totalCost :: rat
  dg_allTraces :: int
  dg_failedCount :: int
  dg_errorRate :: rat
  dg_p95 :: rat
  dg_totalFailed :: int

definition demo_figures_of :: "(rat \<Rightarrow> rat) \<Rightarrow> string \<Rightarrow> demo_figures" where
  "demo_figures_of sine rng =
     (let failedRuns = sum_list (map (\<lambda>a. wf_error_rate a * of_int (wf_calls a)) WORKFLOWS);
          allTraces = sum_list (map wf_calls WORKFLOWS);
          p95Vals = present (map lp_p95 (latSeries sine rng)) in
      \<lparr>dg_totalCost = sum_list (map cp_value (costSeries sine rng)), dg_allTraces = allTraces, dg_failedCount = math_round failedRuns,
       dg_errorRate = failedRuns / of_int allTraces * 100,
       dg_p95 = sum_list p95Vals / (if p95Vals = [] then 1 else of_nat (length p95Vals)),
       dg_totalFailed = sum_list (map ep_errors ERROR_SERIES_7D)\<rparr>)"

definition demo_tile :: "string \<Rightarrow> string \<Rightarrow> string \<Rightarrow> DeltaTone \<Rightarrow> rat option list \<Rightarrow> string option \<Rightarrow> string \<Rightarrow> KpiItem" where
  "demo_tile label v delta tone spark color hint = \<lparr>ki_label = label, ki_value = v, ki_delta = Some delta, ki_deltaTone = Some tone,
     ki_sparkData = Some spark, ki_sparkColor = color, ki_hint = Some hint\<rparr>"

definition demo_kpis :: "host \<Rightarrow> (rat \<Rightarrow> rat) \<Rightarrow> string \<Rightarrow> KpiItem list" where
  "demo_kpis h sine rng =
     (let f = demo_figures_of sine rng in
      [demo_tile ''Total spend'' (fmtCost (dg_totalCost f)) ''-12%'' Good (map (\<lambda>d. Some (cp_value d)) (costSeries sine rng)) None ''vs prev period'',
       demo_tile ''Traces'' (fmtNum h (of_int (dg_allTraces f))) ''+14%'' Good (map Some [120, 145, 132, 168, 180, 175, 210]) None
         (fmtNum h (of_int (dg_allTraces f - dg_failedCount f)) @ '' completed''),
       demo_tile ''Failure rate'' (to_fixed 2 (dg_errorRate f) @ ''%'') (if dg_errorRate f > 5 / 10 then ''+0.4 pts'' else ''0 pts'')
         (if dg_errorRate f > 5 / 10 then Bad else Good)
         (map (\<lambda>d. Some (of_int (ep_errors d) / of_int (max 1 (ep_total d)) * 100)) ERROR_SERIES_7D)
         (Some (if dg_errorRate f > 2 then ''var(--error)'' else ''var(--warning)'')) (int_str (dg_failedCount f) @ '' failed runs''),
       demo_tile ''p95 latency'' (to_fixed 2 (dg_p95 f) @ ''s'') ''+0.3s'' Bad (map lp_p95 (latSeries sine rng)) (Some ''var(--foreground)'')
         (''p99 spikes 2'' @ times_sign)])"

subsection \<open>The page of a workflow\<close>

definition p95Ms :: "LatencyPoint list \<Rightarrow> rat option" where
  "p95Ms series = (let vals = map (\<lambda>d. nullish (lp_p95 d) 0) series in if vals \<noteq> [] then Some (Max (set vals) * 1000) else None)"

definition demo_meta :: "string \<Rightarrow> WorkflowMeta" where
  "demo_meta name = nullish (jm_get WORKFLOW_META name) DEFAULT_WORKFLOW_META"

definition demo_configRows :: "host \<Rightarrow> WorkflowMeta \<Rightarrow> (string \<times> string) list" where
  "demo_configRows h meta =
     [(''endpoint'', wm_endpoint meta), (''model'', wm_model meta), (''provider'', wm_provider meta), (''version'', wm_version meta),
      (''temperature'', to_fixed 1 (wm_temperature meta)), (''max_tokens'', fmtNum h (of_int (wm_maxTokens meta))),
      (''timeout'', wm_timeout meta), (''retries'', int_str (wm_retries meta))]"

record detail_props =
  dp_range :: string
  dp_scope :: "string option"
  dp_calls :: int
  dp_completed :: int
  dp_failed :: int
  dp_cost :: rat
  dp_p95Ms :: "rat option"
  dp_errorRate :: rat

definition demo_detail :: "Workflow \<Rightarrow> string \<Rightarrow> detail_props" where
  "demo_detail w rng =
     (let outcome = deriveRunOutcomes (wf_calls w) (wf_error_rate w) in
      \<lparr>dp_range = rng, dp_scope = None, dp_calls = wf_calls w, dp_completed = ro_completed outcome, dp_failed = ro_failed outcome,
       dp_cost = wf_cost w, dp_p95Ms = p95Ms (buildLatencySeries w rng), dp_errorRate = wf_error_rate w\<rparr>)"

definition errTone :: "rat \<Rightarrow> StatTone" where
  "errTone e = (if e > ERR_BAD then ToneBad else if e > ERR_WARN then ToneWarn else ToneGood)"

record stat_tile =
  tl_label :: string
  tl_value :: string
  tl_sub :: "string option"
  tl_tone :: "StatTone option"

definition detail_tiles :: "host \<Rightarrow> detail_props \<Rightarrow> stat_tile list" where
  "detail_tiles h p =
     (let windowLabel = rangeLabel (dp_range p); calls = of_int (dp_calls p) :: rat; tone = errTone (dp_errorRate p) in
      [\<lparr>tl_label = ''Total runs'', tl_value = fmtNum h calls,
        tl_sub = Some (case dp_scope p of None \<Rightarrow> windowLabel | Some s \<Rightarrow> if s = [] then windowLabel else windowLabel @ '' '' @ mid_dot @ '' '' @ s), tl_tone = None\<rparr>,
       \<lparr>tl_label = ''Completed'', tl_value = fmtNum h (of_int (dp_completed p)), tl_sub = None, tl_tone = None\<rparr>,
       \<lparr>tl_label = ''Failed'', tl_value = fmtNum h (of_int (dp_failed p)), tl_sub = None, tl_tone = (if dp_failed p > 0 then Some tone else None)\<rparr>,
       \<lparr>tl_label = ''Success rate'', tl_value = (if dp_calls p > 0 then fmtPct (of_int (dp_completed p) / calls * 100) else em_dash), tl_sub = None,
        tl_tone = (if dp_calls p > 0 then Some tone else None)\<rparr>,
       \<lparr>tl_label = ''Total cost'', tl_value = fmtCost (dp_cost p),
        tl_sub = (if dp_calls p > 0 then Some (fmtCost (dp_cost p / calls) @ '' / run avg'') else None), tl_tone = None\<rparr>,
       \<lparr>tl_label = ''p95 latency'', tl_value = (case dp_p95Ms p of None \<Rightarrow> em_dash | Some v \<Rightarrow> to_fixed 1 (v / 1000) @ ''s''),
        tl_sub = (if isLongRange (dp_range p) then Some ''not tracked over long ranges'' else None),
        tl_tone = (case dp_p95Ms p of None \<Rightarrow> None | Some v \<Rightarrow> if v > 8000 then Some ToneWarn else None)\<rparr>])"

datatype chart_area = ChartNote string | ChartShown

definition spend_area :: "bool \<Rightarrow> chart_area" where
  "spend_area loadError = (if loadError then ChartNote ''Couldn't load spend'' else ChartShown)"

definition latency_area :: "string \<Rightarrow> bool \<Rightarrow> chart_area" where
  "latency_area rng loadError =
     (if isLongRange rng then ChartNote ''Latency isn't tracked over ranges longer than 30 days.''
      else if loadError then ChartNote ''Couldn't load latency'' else ChartShown)"

definition spend_title :: "string \<Rightarrow> string" where
  "spend_title rng = (if rng = ''24h'' then ''Hourly'' else ''Daily'') @ '' cost '' @ mid_dot @ '' '' @ rangeLabel rng"

subsection \<open>The page of a client\<close>

record WorkflowRow =
  wr_workflow :: string
  wr_calls :: int
  wr_completed :: int
  wr_failed :: int
  wr_success :: rat
  wr_cost :: rat
  wr_avg :: rat
  wr_p95 :: rat
  wr_growth :: rat

definition td_row :: "string \<Rightarrow> int \<Rightarrow> int \<Rightarrow> int \<Rightarrow> rat \<Rightarrow> rat \<Rightarrow> rat \<Rightarrow> rat \<Rightarrow> rat \<Rightarrow> WorkflowRow" where
  [data_defs]: "td_row n calls completed failed success cost avg p95 growth = \<lparr>wr_workflow = n, wr_calls = calls, wr_completed = completed,
     wr_failed = failed, wr_success = success, wr_cost = cost, wr_avg = avg, wr_p95 = p95, wr_growth = growth\<rparr>"

definition TD_WORKFLOW_ROWS :: "WorkflowRow list" where
  [data_defs]: "TD_WORKFLOW_ROWS =
    [td_row ''summarize-comments'' 18204 18187 17 (9991 / 100) (20107 / 5000) (221 / 1000000) (12 / 5) (9 / 50),
     td_row ''classify-intent'' 21882 21873 9 (2499 / 25) (6031 / 2500) (11 / 100000) (9 / 10) (11 / 50),
     td_row ''moderate-content'' 10882 10869 13 (2497 / 25) (7491 / 5000) (69 / 500000) (1 / 2) (1 / 25),
     td_row ''rewrite-message'' 3104 2998 106 (4829 / 50) (6051 / 2500) (39 / 50000) (24 / 5) (21 / 50),
     td_row ''generate-clock-out-description'' 2840 2839 1 (2499 / 25) (7041 / 5000) (31 / 62500) (17 / 5) (11 / 100),
     td_row ''detect-sentiment'' 1110 1107 3 (9973 / 100) (6841 / 10000) (77 / 125000) (11 / 10) (- (1 / 25))]"

datatype TraceStatus = TdCompleted | TdFailed | TdRunning

record RecentTrace =
  rt_id :: string
  rt_workflow :: string
  rt_status :: TraceStatus
  rt_started :: string
  rt_cost :: rat
  rt_latency :: int
  rt_msg :: "string option"

definition td_trace :: "string \<Rightarrow> string \<Rightarrow> TraceStatus \<Rightarrow> string \<Rightarrow> rat \<Rightarrow> int \<Rightarrow> string option \<Rightarrow> RecentTrace" where
  [data_defs]: "td_trace i wk st tm cost lat msg = \<lparr>rt_id = i, rt_workflow = wk, rt_status = st, rt_started = ''Apr 18 '' @ mid_dot @ '' '' @ tm,
     rt_cost = cost, rt_latency = lat, rt_msg = msg\<rparr>"

definition TD_RECENT_TRACES :: "RecentTrace list" where
  [data_defs]: "TD_RECENT_TRACES =
    [td_trace ''t_eb7c92a1'' ''rewrite-message'' TdFailed ''09:41:17'' (3 / 2500) 4823 (Some ''rate_limit_exceeded''),
     td_trace ''t_d8f4b2c9'' ''summarize-comments'' TdCompleted ''09:41:14'' (3 / 10000) 2114 None,
     td_trace ''t_d8f4b2c8'' ''classify-intent'' TdCompleted ''09:41:12'' (1 / 10000) 812 None,
     td_trace ''t_d8f4b2c7'' ''rewrite-message'' TdFailed ''09:41:09'' (9 / 10000) 6210 (Some ''context_length''),
     td_trace ''t_d8f4b2c6'' ''moderate-content'' TdCompleted ''09:41:07'' 0 342 None,
     td_trace ''t_d8f4b2c5'' ''summarize-comments'' TdCompleted ''09:41:04'' (1 / 2000) 1922 None,
     td_trace ''t_d8f4b2c4'' ''detect-sentiment'' TdCompleted ''09:41:02'' (1 / 10000) 604 None,
     td_trace ''t_d8f4b2c3'' ''classify-intent'' TdRunning ''09:41:00'' 0 0 None,
     td_trace ''t_d8f4b2c2'' ''rewrite-message'' TdCompleted ''09:40:57'' (1 / 1250) 3941 None,
     td_trace ''t_d8f4b2c1'' ''summarize-comments'' TdCompleted ''09:40:55'' (1 / 2500) 2204 None,
     td_trace ''t_d8f4b2c0'' ''moderate-content'' TdCompleted ''09:40:52'' 0 412 None,
     td_trace ''t_d8f4b2bf'' ''classify-intent'' TdCompleted ''09:40:50'' (1 / 10000) 741 None]"

record CostSeriesPoint =
  cs_day :: int
  cs_cost :: rat
  cs_runs :: int

definition makeCostSeries :: "(rat \<Rightarrow> rat) \<Rightarrow> nat \<Rightarrow> rat list \<Rightarrow> CostSeriesPoint list" where
  "makeCostSeries sine seed weeklyTrend = map (\<lambda>i.
     let phase = sine (of_nat (i + seed) / (42 / 10));
         wk = weeklyTrend ! min (length weeklyTrend - 1) (i * length weeklyTrend div 30);
         peak = (i = 13 + seed mod 4) in
     \<lparr>cs_day = int i + 1, cs_cost = max (2 / 100) (wk * (12 / 10) + phase * (6 / 100) + (if peak then 45 / 100 else 0)),
      cs_runs = math_round (wk * 1900 + phase * 320 + (if peak then 4200 else 0))\<rparr>) [0..<30]"

definition client_initials :: "(string \<Rightarrow> string list) \<Rightarrow> (string \<Rightarrow> string) \<Rightarrow> string \<Rightarrow> string" where
  "client_initials words first name = concat (take 2 (map first (words name)))"

definition td_cells :: "host \<Rightarrow> User \<Rightarrow> (string \<times> string \<times> string) list" where
  "td_cells h u =
     [(''Total runs'', loc_number h (of_int (u_runs u)), ''+18%''),
      (''Completed'', loc_number h (of_int (math_round (of_int (u_runs u) * (9962 / 10000)))), ''99.62%''),
      (''Failed'', loc_number h (of_int (math_round (of_int (u_runs u) * (38 / 10000)))), ''0.38%''),
      (''Total cost'', ''$'' @ to_fixed 2 (u_cost u), ''+12%''),
      (''Avg / run'', ''$'' @ to_fixed 6 (u_avg u), minus_sign @ ''4%''),
      (''P95 latency'', ''2.4s'', ''+0.3s'')]"

record td_chart =
  tc_points :: "(rat \<times> rat) list"
  tc_dots :: "nat list"
  tc_labels :: "(rat \<times> string) list"

definition td_max :: "CostSeriesPoint list \<Rightarrow> rat" where
  "td_max series = Max (set (map cs_cost series)) * (115 / 100)"

definition td_cost_chart :: "CostSeriesPoint list \<Rightarrow> rat \<Rightarrow> td_chart" where
  "td_cost_chart series h =
     (let xStep = 1000 / of_nat (length series - 1) in
      \<lparr>tc_points = map (\<lambda>i. (of_nat i * xStep, h - cs_cost (series ! i) / td_max series * h)) [0..<length series],
       tc_dots = filter (\<lambda>i. cs_cost (series ! i) > td_max series * (7 / 10)) [0..<length series],
       tc_labels = map (\<lambda>i. (of_nat i * xStep, if i < length series then ''Day '' @ int_str (cs_day (series ! i)) else [])) [0, 7, 14, 21, 29]\<rparr>)"

datatype TdSortKey = TdWorkflow | TdCalls | TdSuccess | TdFailedRuns | TdP95 | TdCost | TdAvg | TdGrowth

record td_sort =
  ts_key :: TdSortKey
  ts_asc :: bool

definition td_sort_init :: td_sort where
  "td_sort_init = \<lparr>ts_key = TdCost, ts_asc = False\<rparr>"

definition td_onSort :: "TdSortKey \<Rightarrow> td_sort \<Rightarrow> td_sort" where
  "td_onSort k s = (if ts_key s = k then s\<lparr>ts_asc := \<not> ts_asc s\<rparr> else \<lparr>ts_key = k, ts_asc = False\<rparr>)"

fun td_value :: "TdSortKey \<Rightarrow> WorkflowRow \<Rightarrow> rat" where
  "td_value TdWorkflow r = 0"
| "td_value TdCalls r = of_int (wr_calls r)"
| "td_value TdSuccess r = wr_success r"
| "td_value TdFailedRuns r = of_int (wr_failed r)"
| "td_value TdP95 r = wr_p95 r"
| "td_value TdCost r = wr_cost r"
| "td_value TdAvg r = wr_avg r"
| "td_value TdGrowth r = wr_growth r"

definition td_cmp :: "(string \<Rightarrow> string \<Rightarrow> rat) \<Rightarrow> td_sort \<Rightarrow> WorkflowRow \<Rightarrow> WorkflowRow \<Rightarrow> rat" where
  "td_cmp collate s a b = (let sign = (if ts_asc s then 1 else - 1) in
     if ts_key s = TdWorkflow then collate (wr_workflow a) (wr_workflow b) * sign else (td_value (ts_key s) a - td_value (ts_key s) b) * sign)"

definition td_sorted :: "(string \<Rightarrow> string \<Rightarrow> rat) \<Rightarrow> td_sort \<Rightarrow> WorkflowRow list" where
  "td_sorted collate s = js_sort (td_cmp collate s) TD_WORKFLOW_ROWS"

fun td_format :: "host \<Rightarrow> TdSortKey \<Rightarrow> WorkflowRow \<Rightarrow> string" where
  "td_format h TdWorkflow a = wr_workflow a"
| "td_format h TdCalls a = loc_number h (of_int (wr_calls a))"
| "td_format h TdSuccess a = to_fixed 2 (wr_success a) @ ''%''"
| "td_format h TdFailedRuns a = loc_number h (of_int (wr_failed a))"
| "td_format h TdP95 a = to_fixed 1 (wr_p95 a) @ ''s''"
| "td_format h TdCost a = ''$'' @ to_fixed 4 (wr_cost a)"
| "td_format h TdAvg a = ''$'' @ to_fixed 6 (wr_avg a)"
| "td_format h TdGrowth a = (if wr_growth a \<ge> 0 then ''+'' else []) @ to_fixed 0 (wr_growth a * 100) @ ''%''"

definition td_color :: "TdSortKey \<Rightarrow> WorkflowRow \<Rightarrow> string" where
  "td_color k a = (case k of
     TdSuccess \<Rightarrow> if wr_success a \<ge> 99 then ''var(--accent)'' else if wr_success a \<ge> 95 then ''var(--warning)'' else ''var(--error)''
   | TdGrowth \<Rightarrow> if wr_growth a \<ge> 0 then ''var(--accent)'' else ''var(--warning)''
   | TdAvg \<Rightarrow> ''var(--muted)'' | _ \<Rightarrow> ''var(--foreground)'')"

definition statusColor :: "TraceStatus \<Rightarrow> string" where
  "statusColor s = (case s of TdCompleted \<Rightarrow> ''var(--accent)'' | TdFailed \<Rightarrow> ''var(--error)'' | TdRunning \<Rightarrow> ''#7aa5ff'')"

text \<open>The filter of the recent traces; \<open>None\<close> is all.\<close>

definition td_filtered :: "TraceStatus option \<Rightarrow> RecentTrace list" where
  "td_filtered f = (case f of None \<Rightarrow> TD_RECENT_TRACES | Some s \<Rightarrow> filter (\<lambda>t. rt_status t = s) TD_RECENT_TRACES)"

definition td_filterOptions :: "(TraceStatus option \<times> string \<times> nat) list" where
  "td_filterOptions =
     [(None, ''All'', length TD_RECENT_TRACES),
      (Some TdCompleted, ''Completed'', length (filter (\<lambda>t. rt_status t = TdCompleted) TD_RECENT_TRACES)),
      (Some TdFailed, ''Failed'', length (filter (\<lambda>t. rt_status t = TdFailed) TD_RECENT_TRACES)),
      (Some TdRunning, ''Running'', length (filter (\<lambda>t. rt_status t = TdRunning) TD_RECENT_TRACES))]"

definition td_latency :: "int \<Rightarrow> string" where
  "td_latency l = (if l = 0 then em_dash else if l < 1000 then int_str l @ ''ms'' else to_fixed 1 (of_int l / 1000) @ ''s'')"

definition td_trace_note :: "RecentTrace \<Rightarrow> string" where
  "td_trace_note t = rt_id t @ (case rt_msg t of None \<Rightarrow> [] | Some m \<Rightarrow> if m = [] then [] else '' '' @ mid_dot @ '' '' @ m)"

definition td_connection :: "User \<Rightarrow> (string \<times> string) list" where
  "td_connection u = [(''External ID'', u_id u), (''SDK version'', ''py-sdk@2.4.1''), (''First seen'', ''Jan 14, 2025''), (''Onboarded by'', ''Priya Sharma'')]"

definition demo_client_of :: "int \<Rightarrow> string option \<Rightarrow> User" where
  "demo_client_of now selected = (case js_find (\<lambda>t. u_id t = nullish selected []) (USERS now) of Some u \<Rightarrow> u | None \<Rightarrow> hd (USERS now))"

definition demo_client_series :: "(rat \<Rightarrow> rat) \<Rightarrow> User \<Rightarrow> CostSeriesPoint list" where
  "demo_client_series sine u = makeCostSeries sine (js_length (u_name u)) (u_trend u)"

subsection \<open>Properties of the simulated feed\<close>

definition feed_ok :: "ActivityItem list \<Rightarrow> bool" where
  "feed_ok items \<longleftrightarrow> items \<noteq> [] \<and> length items \<le> 40 \<and> ai_time (hd items) = ''just now'' \<and> (\<forall>it\<in>set (tl items). ai_time it \<noteq> ''just now'') \<and>
     (\<forall>it\<in>set items. ai_status it = Failed \<longleftrightarrow> ai_msg it \<noteq> None)"

inductive feed_step :: "ActivityItem list \<Rightarrow> ActivityItem list \<Rightarrow> bool" where
  tick: "feed_step items (feed_tick r items)"

inductive_cases feed_stepE: "feed_step s t"

lemma feed_tick_ok: "feed_ok items \<Longrightarrow> feed_ok (feed_tick r items)"
proof -
  assume ok: "feed_ok items"
  have tl: "tl (feed_tick r items) = take 39 (map age_item items)" by (simp add: feed_tick_def)
  have old: "ai_time it \<noteq> ''just now'' \<and> (ai_status it = Failed \<longleftrightarrow> ai_msg it \<noteq> None)" if "it \<in> set (take 39 (map age_item items))" for it
    using in_set_takeD [OF that] ok by (auto simp: age_item_def feed_ok_def)
  have hd: "hd (feed_tick r items) = feed_next r" "feed_tick r items \<noteq> []" "length (feed_tick r items) \<le> 40" by (simp_all add: feed_tick_def)
  have new: "ai_time (feed_next r) = ''just now''" "ai_status (feed_next r) = Failed \<longleftrightarrow> ai_msg (feed_next r) \<noteq> None"
    by (simp_all add: feed_next_def Let_def)
  have "set (feed_tick r items) = insert (feed_next r) (set (take 39 (map age_item items)))"
    using hd(1,2) tl by (metis list.collapse list.simps(15))
  then show "feed_ok (feed_tick r items)" unfolding feed_ok_def tl hd(1) using hd(2,3) new old by simp
qed

interpretation feed: invariant_system "\<lambda>s. s = ACTIVITY_FEED" feed_step feed_ok
proof
  show "s = ACTIVITY_FEED \<Longrightarrow> feed_ok s" for s by (simp add: feed_ok_def data_defs)
  show "feed_ok s \<Longrightarrow> feed_step s t \<Longrightarrow> feed_ok t" for s t by (erule feed_stepE) (simp add: feed_tick_ok)
qed

text \<open>The feed of the preview stays in order for as long as the page is open: at most 40 entries, the newest first and the only one that
  reads "just now", and exactly the failed ones with a message.\<close>

theorem feed_stays_ordered:
  assumes "reach (\<lambda>s. s = ACTIVITY_FEED) feed_step items"
  shows "length items \<le> 40 \<and> filter (\<lambda>it. ai_time it = ''just now'') items = [hd items] \<and>
    (\<forall>it\<in>set items. ai_status it = Failed \<longleftrightarrow> ai_msg it \<noteq> None)"
proof -
  have ok: "feed_ok items" by (rule feed.reach_inv [OF assms])
  then obtain x xs where xs: "items = x # xs" by (cases items) (auto simp: feed_ok_def)
  then have "filter (\<lambda>it. ai_time it = ''just now'') xs = []" using ok by (auto simp: feed_ok_def filter_empty_conv)
  then show ?thesis using ok xs by (auto simp: feed_ok_def)
qed

theorem feed_stays_ordered_witness:
  "length (feed_tick \<lparr>fd_failed = 0, fd_id = ''ab12cd'', fd_workflow = 0, fd_latency = 1 / 2, fd_error = 0\<rparr> ACTIVITY_FEED) \<le> 40"
proof -
  have "reach (\<lambda>s. s = ACTIVITY_FEED) feed_step ACTIVITY_FEED" by (rule reach.intros(1)) simp
  from feed_stays_ordered [OF reach.intros(2) [OF this tick]] show ?thesis by blast
qed

subsection \<open>Properties of the outliers of the preview\<close>

text \<open>The bands of the API, from the score of an anomaly.\<close>

definition severity_band :: "rat \<Rightarrow> Severity" where
  "severity_band score = (if score \<ge> 6 then Critical else if score \<ge> 45 / 10 then Warning else Info)"

lemma demo_outlier_sel:
  "an_bucket_ms (demo_outlier m wk ms ob ex sc sev su) = ms" "an_observed (demo_outlier m wk ms ob ex sc sev su) = ob"
  "an_expected (demo_outlier m wk ms ob ex sc sev su) = ex" "an_score (demo_outlier m wk ms ob ex sc sev su) = sc"
  "an_severity (demo_outlier m wk ms ob ex sc sev su) = sev"
  by (simp_all add: demo_outlier_def)

lemma buildDemoOutliers_sel: "fst (buildDemoOutliers now cost) = demo_axis now (length cost)" "length (snd (buildDemoOutliers now cost)) = 5"
  by (simp_all add: buildDemoOutliers_def Let_def)

lemma by_height_perm: "set (by_height cost) = {0..<length cost}" "length (by_height cost) = length cost"
  using mset_eq_length [OF mset_js_sort, of "\<lambda>a b. cp_value (cost ! b) - cp_value (cost ! a)" "[0..<length cost]"] by (simp_all add: by_height_def)

text \<open>The outliers of the preview are consistent for any series of positive costs: each lies on a bucket of the axis, above what was
  expected, with the severity of its score.\<close>

theorem demo_outliers_consistent:
  assumes "cost \<noteq> []" "\<forall>d\<in>set cost. 0 < cp_value d" "a \<in> set (snd (buildDemoOutliers now cost))"
  shows "an_bucket_ms a \<in> set (fst (buildDemoOutliers now cost)) \<and> an_observed a > an_expected a \<and>
    an_severity a = severity_band (an_score a) \<and> an_score a \<ge> 3"
proof -
  let ?n = "length cost" and ?order = "by_height cost"
  have n: "0 < ?n" using assms(1) by simp
  define big mid where "big = (if ?order \<noteq> [] then ?order ! 0 else ?n - 1)" and "mid = (if length ?order > 1 then ?order ! 1 else ?n - 2)"
  have i: "big < ?n" "mid < ?n"
    using n by_height_perm [of cost] nth_mem [of 0 ?order] nth_mem [of 1 ?order] by (auto simp: big_def mid_def)
  define bv mv where "bv = value_at cost big (471 / 100)" and "mv = value_at cost mid (34 / 100)"
  have v: "0 < bv" "0 < mv" using i assms(2) by (simp_all add: value_at_def bv_def mv_def)
  define ax where "ax = demo_axis now ?n"
  have len: "length ax = ?n" by (simp add: ax_def demo_axis_def Let_def)
  have mem: "ax ! big \<in> set ax" "ax ! mid \<in> set ax" "ax ! min (?n - 1) 5 \<in> set ax" "ax ! min (?n - 1) 3 \<in> set ax"
    using i n len by (auto intro!: nth_mem)
  have "(an_bucket_ms a, an_observed a, an_expected a, an_score a, an_severity a) \<in>
      {(ax ! big, bv, bv / (46 / 10), 64 / 10, Critical), (ax ! big, 22 / 100, 5 / 100, 52 / 10, Warning),
       (ax ! min (?n - 1) 5, 19 / 100, 4 / 100, 71 / 10, Critical), (ax ! min (?n - 1) 3, 512, 190, 48 / 10, Warning),
       (ax ! mid, mv, mv / (24 / 10), 34 / 10, Info)}"
    using assms(3) unfolding buildDemoOutliers_def Let_def big_def [symmetric] mid_def [symmetric] bv_def [symmetric] mv_def [symmetric]
      ax_def [symmetric] snd_conv set_simps by (elim insertE emptyE) (simp_all add: demo_outlier_sel)
  then show ?thesis unfolding buildDemoOutliers_sel(1) ax_def [symmetric]
    using mem v by (elim insertE emptyE) (simp_all add: severity_band_def)
qed

theorem demo_outliers_consistent_witness:
  "an_expected (snd (buildDemoOutliers 0 COST_SERIES_7D) ! 0) < an_observed (snd (buildDemoOutliers 0 COST_SERIES_7D) ! 0)"
proof -
  have "COST_SERIES_7D \<noteq> []" "\<forall>d\<in>set COST_SERIES_7D. 0 < cp_value d" by (simp_all add: data_defs)
  moreover have "snd (buildDemoOutliers 0 COST_SERIES_7D) ! 0 \<in> set (snd (buildDemoOutliers 0 COST_SERIES_7D))"
    using buildDemoOutliers_sel(2) [of 0 COST_SERIES_7D] by (intro nth_mem) linarith
  ultimately show ?thesis using demo_outliers_consistent [of COST_SERIES_7D _ 0] by blast
qed

subsection \<open>Properties of the page of a client\<close>

lemma comparator_neg: "comparator f \<Longrightarrow> comparator (\<lambda>a b. - f a b :: rat)"
proof -
  assume f: "comparator f"
  have sg: "- f a b \<le> 0 \<longleftrightarrow> f b a \<le> 0" for a b using comparator.antisym_sign [OF f, of a b] by (auto simp: sgn_if split: if_splits)
  show "comparator (\<lambda>a b. - f a b)"
  proof
    show "sgn (- f x y) = - sgn (- f y x)" for x y using comparator.antisym_sign [OF f, of x y] by (simp add: sgn_minus)
    show "- f x y \<le> 0 \<Longrightarrow> - f y z \<le> 0 \<Longrightarrow> - f x z \<le> 0" for x y z unfolding sg using comparator.trans_le [OF f, of z y x] by blast
  qed
qed

lemma td_cmp_comparator:
  assumes "comparator collate"
  shows "comparator (td_cmp collate s)"
proof (cases "ts_key s = TdWorkflow")
  case True
  then have "td_cmp collate s = (\<lambda>a b. if ts_asc s then collate (wr_workflow a) (wr_workflow b) else - collate (wr_workflow a) (wr_workflow b))"
    by (intro ext) (simp add: td_cmp_def Let_def)
  moreover have "comparator (\<lambda>a b. - collate (wr_workflow a) (wr_workflow b))"
    using comparator_on [OF comparator_neg [OF assms]] .
  ultimately show ?thesis using comparator_on [OF assms] by (cases "ts_asc s") simp_all
next
  case False
  then have "td_cmp collate s = (\<lambda>a b. if ts_asc s then td_value (ts_key s) a - td_value (ts_key s) b else td_value (ts_key s) b - td_value (ts_key s) a)"
    by (intro ext) (simp add: td_cmp_def Let_def)
  then show ?thesis using comparator_key [of "td_value (ts_key s)"] comparator_key_desc [of "td_value (ts_key s)"] by (cases "ts_asc s") simp_all
qed

text \<open>The table of the client lists every workflow once, in the order of the chosen column.\<close>

theorem td_table_sorted:
  assumes "comparator collate"
  shows "mset (td_sorted collate s) = mset TD_WORKFLOW_ROWS \<and> sorted_wrt (\<lambda>a b. td_cmp collate s a b \<le> 0) (td_sorted collate s)"
  using comparator.sorted_sort [OF td_cmp_comparator [OF assms], of s] by (simp add: td_sorted_def)

text \<open>The figures of the table are consistent: completed and failed runs make up the calls and the rate is theirs to within a hundredth.\<close>

theorem td_rows_consistent:
  "list_all (\<lambda>r. wr_completed r + wr_failed r = wr_calls r \<and>
     \<bar>wr_success r - of_int (wr_completed r) / of_int (wr_calls r) * 100\<bar> < 1 / 100) TD_WORKFLOW_ROWS"
  by (simp add: data_defs)

text \<open>The points of the cost chart lie in its frame, and the days it marks are those above 70 percent of the top of the scale.\<close>

lemma td_points_in_frame:
  assumes "\<forall>d\<in>set series. 0 < cs_cost d" "0 \<le> h" "i < length series"
  shows "0 \<le> snd (tc_points (td_cost_chart series h) ! i)" "snd (tc_points (td_cost_chart series h) ! i) \<le> h"
    "i \<in> set (tc_dots (td_cost_chart series h)) \<longleftrightarrow> cs_cost (series ! i) > td_max series * (7 / 10)"
proof -
  have v: "0 < cs_cost (series ! i)" using assms(1,3) by simp
  have "cs_cost (series ! i) \<le> Max (set (map cs_cost series))" using assms(3) by simp
  then have m: "cs_cost (series ! i) \<le> td_max series" "0 < td_max series" using v by (simp_all add: td_max_def)
  define q where "q = cs_cost (series ! i) / td_max series"
  have "0 \<le> q" "q \<le> 1" using m v by (simp_all add: q_def)
  then have "0 \<le> q * h" "q * h \<le> h" using assms(2) by (simp_all only: mult_nonneg_nonneg mult_left_le_one_le)
  moreover have "snd (tc_points (td_cost_chart series h) ! i) = h - q * h" using assms(3) by (simp add: td_cost_chart_def Let_def q_def)
  ultimately show "0 \<le> snd (tc_points (td_cost_chart series h) ! i)" "snd (tc_points (td_cost_chart series h) ! i) \<le> h" by simp_all
  show "i \<in> set (tc_dots (td_cost_chart series h)) \<longleftrightarrow> cs_cost (series ! i) > td_max series * (7 / 10)"
    using assms(3) by (auto simp: td_cost_chart_def Let_def)
qed

text \<open>The tiles of a demo workflow add up: the completed and the failed runs are the calls.\<close>

lemma demo_detail_outcomes: "dp_completed (demo_detail w rng) + dp_failed (demo_detail w rng) = dp_calls (demo_detail w rng)"
  by (simp add: demo_detail_def Let_def deriveRunOutcomes_def)

end
