(* ===== verification/Workflow_View.thy ===== *)
theory Workflow_View
  imports Demo_Pages Elements
begin

text \<open>
  The pages of the workflows as what they show and offer: the table of workflows (\<open>WorkflowsPage.tsx\<close>), the page of a
  workflow with the table of its versions (\<open>WorkflowDetailPage.tsx\<close>, \<open>VersionsTable.tsx\<close>) and the comparison of two versions
  (\<open>VersionCompareLivePage.tsx\<close>), each with the view of the dashboard a press leads to. The menu of versions is modelled in
  \<open>Display\<close>; here a version other than the chosen one is a choice a visitor can press.
\<close>

subsection \<open>The table of workflows (WorkflowsPage.tsx)\<close>

datatype workflows_event = SortBy WorkflowSortKey | FilterBy string | OpenRow Workflow

definition sortHeader :: "string \<Rightarrow> WorkflowSortKey \<Rightarrow> workflows_page \<Rightarrow> workflows_event element" where
  "sortHeader label k p =
     PressButton False
       (if wp_sortKey p = k then label @ '', sorted '' @ (if wp_asc p then ''ascending'' else ''descending'') else ''Sort by '' @ label)
       (SortBy k)"

definition err_color :: "rat \<Rightarrow> string" where
  "err_color e = (if e > ERR_BAD then ''var(--error)'' else if e > ERR_WARN then ''var(--warning)'' else ''var(--muted)'')"

definition workflow_cells :: "host \<Rightarrow> Workflow \<Rightarrow> string list" where
  "workflow_cells h w =
     [wf_name w, fmtNum h (of_int (wf_calls w)), fmtCost (wf_cost w),
      if wf_avg_latency_ms w > 0 then fmtMs (wf_avg_latency_ms w) else em_dash, to_fixed 1 (wf_error_rate w * 100) @ ''%'']"

definition tile_words :: "tile_view \<Rightarrow> 'e element list" where
  "tile_words t = [Words (sl_label t), Words (sl_value t)] @ (case sl_sub t of None \<Rightarrow> [] | Some s \<Rightarrow> [Words s])"

definition workflows_tiles :: "host \<Rightarrow> Workflow list \<Rightarrow> tile_view list" where
  "workflows_tiles h ws =
     [statTile ''Active workflows'' (nat_str (length ws)) None None True,
      statTile ''Highest volume'' (case topVolume ws of None \<Rightarrow> em_dash | Some w \<Rightarrow> wf_name w)
        (map_option (\<lambda>w. fmtNum h (of_int (wf_calls w)) @ '' runs'') (topVolume ws)) None False,
      statTile ''Most expensive'' (case topCost ws of None \<Rightarrow> em_dash | Some w \<Rightarrow> wf_name w)
        (map_option (\<lambda>w. fmtCost (wf_cost w)) (topCost ws)) None False]"

text \<open>\<open>updated\<close> is the text of the time of the last update, where there is one.\<close>

definition workflowsPage ::
  "host \<Rightarrow> (string \<Rightarrow> string) \<Rightarrow> (string \<Rightarrow> string \<Rightarrow> rat) \<Rightarrow> string \<Rightarrow> string option \<Rightarrow> string option \<Rightarrow> Workflow list \<Rightarrow> workflows_page \<Rightarrow>
     workflows_event element list" where
  "workflowsPage h lower collate rng workspaceName updated ws p =
     (let filtered = workflows_filtered lower collate p ws in
      [Words (if truthy_str workspaceName then the workspaceName @ '' '' @ mid_dot @ '' Workspace'' else ''Workspace''), Words ''Workflows'',
       Words (workflows_subtitle h ws)]
      @ (case updated of None \<Rightarrow> [] | Some t \<Rightarrow> [Words t])
      @ concat (map tile_words (workflows_tiles h ws))
      @ [TextInput ''Filter workflows'' (wp_q p) False FilterBy,
         sortHeader ''Workflow'' WorkflowSortKey.ByName p, Words (''Trend '' @ mid_dot @ '' '' @ rangeLabel rng), sortHeader ''Calls'' WorkflowSortKey.ByCalls p,
         sortHeader ''Cost'' WorkflowSortKey.ByCost p, sortHeader ''Avg latency'' WorkflowSortKey.ByLatency p, sortHeader ''Error'' WorkflowSortKey.ByErrorRate p]
      @ (if filtered = [] then [Words ''No workflows match.'']
         else map (\<lambda>w. RowPress False (workflow_cells h w) (OpenRow w)) filtered))"

fun workflows_react :: "workflows_event \<Rightarrow> workflows_page \<times> dash \<Rightarrow> workflows_page \<times> dash" where
  "workflows_react (SortBy k) (p, d) = (toggleSort k p, d)"
| "workflows_react (FilterBy q) (p, d) = (p\<lparr>wp_q := q\<rparr>, d)"
| "workflows_react (OpenRow w) (p, d) = (p, openWorkflow w d)"

subsection \<open>The page of a workflow (WorkflowDetailPage.tsx, VersionsTable.tsx)\<close>

text \<open>\<open>ReleaseOnly\<close> is the press of the flag of a release without an earlier version, which does nothing.\<close>

datatype detail_event = PickVersion "string option" | CompareVersions string string | OpenTrace string | ReleaseOnly

definition version_choices :: "host \<Rightarrow> string option \<Rightarrow> VersionOption list \<Rightarrow> (string option \<Rightarrow> 'e) \<Rightarrow> 'e element list" where
  "version_choices h value options onChange =
     map (\<lambda>o'. if vo_id o' = value then InertButton (vo_label o' @ '' '' @ fmtNum h (of_int (vo_calls o')) @ '' runs'')
       else RowPress False [vo_label o', fmtNum h (of_int (vo_calls o')) @ '' runs''] (onChange (vo_id o'))) options"

definition delta_words :: "(string \<times> string) option \<Rightarrow> 'e element list" where
  "delta_words x = (case x of None \<Rightarrow> [] | Some (t, c) \<Rightarrow> [Words t])"

definition version_row_view :: "version_row \<Rightarrow> detail_event element list" where
  "version_row_view r =
     [Words (vr_label r)] @ shown (vr_current r) [Words ''current'']
     @ [Words (vr_firstSeen r), Words (vr_lastRun r), Words (vr_runs r), Words (vr_cost r)] @ delta_words (vr_costDelta r)
     @ [Words (vr_p95 r)] @ delta_words (vr_p95Delta r) @ [Words (vr_err r)] @ delta_words (vr_errDelta r)
     @ [Words (vr_tokens r)] @ delta_words (vr_tokensDelta r)
     @ (case vr_compare r of None \<Rightarrow> [] | Some (b, c) \<Rightarrow> [PressButton False (''vs '' @ b) (CompareVersions b c)])"

definition versionsTable :: "host \<Rightarrow> int \<Rightarrow> WorkflowVersion list \<Rightarrow> string \<Rightarrow> detail_event element list" where
  "versionsTable h now versions label =
     [Words ''Versions'', Words (''Releases '' @ mid_dot @ '' '' @ label)]
     @ map Words [''Version'', ''First seen'', ''Runs'', ''Cost / run'', ''p95'', ''Error'', ''Tokens / run'']
     @ [ItemList [] (map version_row_view (versions_table h now versions))]"

text \<open>What the page is given. \<open>dg_versions\<close> is there once the workflow has a version; the page of the preview has none.\<close>

record detail_page = detail_props +
  dg_name :: string
  dg_version :: "string option"
  dg_versionSince :: "string option"
  dg_description :: "string option"
  dg_versions :: "WorkflowVersion list option"
  dg_versionFilter :: "string option"
  dg_defaultCompare :: "(string \<times> string) option"
  dg_costAlert :: "cost_alert option"
  dg_costError :: bool
  dg_latencyError :: bool
  dg_errorsError :: bool
  dg_runsError :: bool
  dg_runs :: "RunRow list"
  dg_costSeries :: "CostPoint list"
  dg_markers :: "detail_event ChartMarker list"
  dg_configRows :: "(string \<times> string) list"

definition compare_button :: "string \<Rightarrow> (string \<times> string) option \<Rightarrow> detail_event element list" where
  "compare_button label pair = (case pair of None \<Rightarrow> [] | Some (b, c) \<Rightarrow> [PressButton False label (CompareVersions b c)])"

definition detail_head :: "host \<Rightarrow> detail_page \<Rightarrow> detail_event element list" where
  "detail_head h p =
     [Words (dg_name p)]
     @ shown (truthy_str (dg_version p)) [Words (the (dg_version p))]
     @ shown (truthy_str (dg_version p) \<and> truthy_str (dg_versionSince p)) [Words (''current since '' @ the (dg_versionSince p))]
     @ shown (truthy_str (dg_description p)) [Words (the (dg_description p))]
     @ (case dg_versions p of
          None \<Rightarrow> []
        | Some vs \<Rightarrow> shown (vs \<noteq> [])
            ([Words ''Version'', Words (nullish (dg_versionFilter p) ''All versions'')]
             @ version_choices h (dg_versionFilter p) (filter_options vs) PickVersion
             @ compare_button ''Compare versions'' (dg_defaultCompare p)))"

definition cost_alert_note :: "detail_page \<Rightarrow> detail_event element list" where
  "cost_alert_note p =
     (case dg_costAlert p of
        None \<Rightarrow> []
      | Some a \<Rightarrow>
          [Words (''Cost per run up since '' @ ca_version a),
           Words (fmtRunCost (ca_from a) @ '' '' @ [CHR 0xE2, CHR 0x86, CHR 0x92] @ '' '' @ fmtRunCost (ca_to a) @ '' ('' @ ca_change a @ '')'')]
          @ compare_button ''Compare'' (dg_defaultCompare p))"

definition area_view :: "string \<Rightarrow> chart_area \<Rightarrow> 'e element list" where
  "area_view chart a = (case a of ChartNote t \<Rightarrow> [Words t] | ChartShown \<Rightarrow> [ChartBox chart])"

text \<open>The flags over the bars of the cost chart (\<open>CostBarChart.tsx\<close>), of a chart that is \<open>w\<close> wide and has \<open>n\<close> bars: buttons, also without a handler.\<close>

definition chart_flags :: "rat \<Rightarrow> nat \<Rightarrow> 'e ChartMarker list \<Rightarrow> 'e element list" where
  "chart_flags w n markers = map (\<lambda>(x, m). case cm_onClick m of
       None \<Rightarrow> InertButton (nullish (cm_label m) []) | Some e \<Rightarrow> PressButton False (nullish (cm_label m) []) e) (cost_flags w n markers)"

definition run_texts :: "run_cells \<Rightarrow> string list" where
  "run_texts r =
     rc_cells r @ (case rc_name r of None \<Rightarrow> [] | Some n \<Rightarrow> [n]) @ (case rc_err r of None \<Rightarrow> [] | Some e \<Rightarrow> [e])"

definition runs_view :: "RunRow list \<Rightarrow> bool \<Rightarrow> detail_event element list" where
  "runs_view runs showVersion =
     (case runsTable runs None showVersion of
        (hd', RunsEmpty t) \<Rightarrow> map Words hd' @ [Words t]
      | (hd', RunsRows rows) \<Rightarrow> map Words hd' @ map (\<lambda>r. RowPress False (run_texts r) (OpenTrace (rc_opens r))) rows)"

definition metaRow :: "string \<times> string \<Rightarrow> 'e element list" where
  "metaRow = (\<lambda>(label, value). if value = [] then [] else [Words label, Words value])"

definition workflowDetailPage :: "host \<Rightarrow> int \<Rightarrow> rat \<Rightarrow> detail_page \<Rightarrow> detail_event element list" where
  "workflowDetailPage h now w p =
     (let windowLabel = rangeLabel (dp_range p); hourly = dp_range p = ''24h''; versioned = (case dg_versions p of None \<Rightarrow> False | Some vs \<Rightarrow> vs \<noteq> []) in
      detail_head h p @ cost_alert_note p
      @ concat (map (\<lambda>t. tile_words (statTile (tl_label t) (tl_value t) (tl_sub t) (tl_tone t) False)) (detail_tiles h (detail_props.truncate p)))
      @ [Words ''Spend'', Words (spend_title (dp_range p)), Words (fmtCost (dp_cost p) @ '' total'')]
      @ area_view ''cost'' (spend_area (dg_costError p))
      @ shown (\<not> dg_costError p) (chart_flags w (length (dg_costSeries p)) (dg_markers p))
      @ [Words ''Latency'', Words (''Response time '' @ mid_dot @ '' p50 / p95 / p99''), Words ''p50'', Words ''p95'', Words ''p99'']
      @ area_view ''latency'' (latency_area (dp_range p) (dg_latencyError p))
      @ (if versioned then versionsTable h now (the (dg_versions p)) windowLabel else [])
      @ [Words ''Reliability'', Words ''Failed runs'',
         Words (''Errors per '' @ (if hourly then ''hour'' else ''day'') @ '' '' @ mid_dot @ '' '' @ windowLabel),
         Words (plural h (of_int (dp_failed p)) ''failure'')]
      @ (if dg_errorsError p then [Words ''Couldn't load errors''] else [ChartBox ''errors''])
      @ [Words ''Recent runs''] @ shown (truthy_str (dg_versionFilter p)) [Words (''Version: '' @ the (dg_versionFilter p))]
      @ (if dg_runsError p then [Words ''Couldn't load runs''] else runs_view (dg_runs p) versioned)
      @ [Words ''Configuration''] @ concat (map metaRow (dg_configRows p)))"

text \<open>The live page (\<open>WorkflowDetailLivePage.tsx\<close>): what it gives the page from its queries; the table of versions, the menu and the comparison
  rest on the same list of versions.\<close>

record detail_load =
  dl_detail :: WorkflowDetail
  dl_versions :: "WorkflowVersion list"
  dl_cost :: "CostBucket list option"
  dl_costError :: bool
  dl_latencyError :: bool
  dl_errorsError :: bool
  dl_runsError :: bool
  dl_runs :: "RunRow list"

definition release_click :: "WorkflowVersion list \<Rightarrow> WorkflowVersion \<Rightarrow> detail_event" where
  "release_click versions v =
     (case previousVersion versions v of None \<Rightarrow> ReleaseOnly | Some prev \<Rightarrow> CompareVersions (wv_version prev) (wv_version v))"

definition live_detail :: "host \<Rightarrow> string \<Rightarrow> detail_load \<Rightarrow> string option \<Rightarrow> detail_page" where
  "live_detail h rng q flt =
     (let d = dl_detail q; versions = dl_versions q; f = detail_view d versions flt; cur = currentVersion versions in
      \<lparr>dp_range = rng, dp_scope = df_scope f, dp_calls = df_calls f, dp_completed = ro_completed (df_outcomes f),
       dp_failed = ro_failed (df_outcomes f), dp_cost = df_cost f, dp_p95Ms = df_p95 f, dp_errorRate = df_errorRate f,
       dg_name = wd_name d, dg_version = map_option wv_version cur, dg_versionSince = map_option (\<lambda>c. fmtSeen h (wv_first_seen_ms c)) cur,
       dg_description = None, dg_versions = (if \<exists>v\<in>set versions. comparable v then Some versions else None),
       dg_versionFilter = map_option wv_version (filtered_version versions flt), dg_defaultCompare = defaultPair versions,
       dg_costAlert = costAlert versions, dg_costError = dl_costError q, dg_latencyError = dl_latencyError q,
       dg_errorsError = dl_errorsError q, dg_runsError = dl_runsError q, dg_runs = dl_runs q,
       dg_costSeries = (case dl_cost q of None \<Rightarrow> [] | Some items \<Rightarrow> toCostPoints h items rng),
       dg_markers = releaseMarkers versions (map cb_bucket_ms (nullish (dl_cost q) [])) (\<lambda>_. ''var(--info)'') (Some (release_click versions)),
       dg_configRows = configRows h d versions\<rparr>)"

definition openTrace :: "string \<Rightarrow> dash \<Rightarrow> dash" where
  "openTrace i d = setView ''trace'' (setSelected (jm_set ''traceId'' i) d)"

fun detail_react :: "string \<Rightarrow> detail_event \<Rightarrow> string option \<times> dash \<Rightarrow> string option \<times> dash" where
  "detail_react workflowName (PickVersion v) (flt, d) = (v, d)"
| "detail_react workflowName (CompareVersions b c) (flt, d) = (flt, compare workflowName b c d)"
| "detail_react workflowName (OpenTrace i) (flt, d) = (flt, openTrace i d)"
| "detail_react workflowName ReleaseOnly (flt, d) = (flt, d)"

subsection \<open>The comparison (VersionCompareLivePage.tsx)\<close>

datatype compare_event = SwapVersions | PickBase string | PickCandidate string | ToggleMetric MetricId

fun Y_FMT :: "host \<Rightarrow> MetricId \<Rightarrow> rat \<Rightarrow> string" where
  "Y_FMT h Runs_m v = fmtNum h (of_int (math_round v))"
| "Y_FMT h Cost_m v = fmtCost v"
| "Y_FMT h Cpr_m v = fmtRunCost v"
| "Y_FMT h P95_m v = fmtMs v"
| "Y_FMT h Err_m v = to_fixed 1 (v * 100) @ ''%''"
| "Y_FMT h Tpr_m v = fmtNum h (of_int (math_round v))"

record compare_row =
  cr_id :: MetricId
  cr_label :: string
  cr_title :: string
  cr_a :: "rat option"
  cr_b :: "rat option"
  cr_delta :: string
  cr_color :: string

definition rel_row :: "MetricId \<Rightarrow> string \<Rightarrow> string \<Rightarrow> rat option \<Rightarrow> rat option \<Rightarrow> bool \<Rightarrow> compare_row" where
  "rel_row i label title a b toned =
     \<lparr>cr_id = i, cr_label = label, cr_title = title, cr_a = a, cr_b = b, cr_delta = fst (relDelta a b toned), cr_color = snd (relDelta a b toned)\<rparr>"

definition compare_rows :: "WorkflowVersion \<Rightarrow> WorkflowVersion \<Rightarrow> compare_row list" where
  "compare_rows A B =
     [rel_row Runs_m ''Runs'' ''Runs'' (Some (of_int (wv_calls A))) (Some (of_int (wv_calls B))) False,
      rel_row Cost_m ''Total cost'' ''Cost'' (Some (wv_cost A)) (Some (wv_cost B)) False,
      rel_row Cpr_m ''Cost / run'' ''Cost per run'' (Some (wv_cost_per_run A)) (Some (wv_cost_per_run B)) True,
      rel_row P95_m ''p95 latency'' ''p95 latency'' (wv_p95_latency_ms A) (wv_p95_latency_ms B) True,
      \<lparr>cr_id = Err_m, cr_label = ''Error rate'', cr_title = ''Error rate'', cr_a = Some (wv_error_rate A), cr_b = Some (wv_error_rate B),
       cr_delta = fmtPts (wv_error_rate B) (wv_error_rate A), cr_color = ptsColor (wv_error_rate B) (wv_error_rate A)\<rparr>,
      rel_row Tpr_m ''Tokens / run'' ''Tokens per run'' (Some (wv_tokens_per_run A)) (Some (wv_tokens_per_run B)) True]"

definition compare_row_view :: "host \<Rightarrow> string \<Rightarrow> compare_row \<Rightarrow> compare_event element" where
  "compare_row_view h rng r =
     (let cell = (\<lambda>x. case x of None \<Rightarrow> em_dash | Some v \<Rightarrow> Y_FMT h (cr_id r) v) in
      RowPress (\<not> chartable rng (cr_id r)) [cr_label r, cell (cr_a r), cell (cr_b r), cr_delta r] (ToggleMetric (cr_id r)))"

definition cell_choices :: "WorkflowVersion list \<Rightarrow> string \<Rightarrow> VersionOption list" where
  "cell_choices versions exclude =
     map (\<lambda>v. \<lparr>vo_id = Some (wv_version v), vo_label = wv_version v, vo_calls = wv_calls v\<rparr>)
       (filter (\<lambda>v. wv_version v \<noteq> [] \<and> wv_version v \<noteq> exclude) versions)"

definition versionCell ::
  "host \<Rightarrow> string \<Rightarrow> WorkflowVersion list \<Rightarrow> WorkflowVersion \<Rightarrow> string \<Rightarrow> (string \<Rightarrow> compare_event) \<Rightarrow> compare_event element list" where
  "versionCell h label versions v exclude onChange =
     (let options = cell_choices versions exclude in
      [Words (label @ '': '' @ wv_version v)]
      @ (if options = [] then [Words ''No other versions in this range'']
         else version_choices h (Some (wv_version v)) options (\<lambda>i. onChange (nullish i [])))
      @ [Words (fmtSeen h (wv_first_seen_ms v) @ '' '' @ en_dash_text @ '' '' @ fmtSeen h (wv_last_seen_ms v))])"

definition active_rows :: "string \<Rightarrow> MetricId list \<Rightarrow> WorkflowVersion \<Rightarrow> WorkflowVersion \<Rightarrow> compare_row list" where
  "active_rows rng picked A B = map (\<lambda>i. the (js_find (\<lambda>r. cr_id r = i) (compare_rows A B))) (charted rng picked)"

definition chart_view :: "compare_chart \<Rightarrow> 'e element list" where
  "chart_view c =
     (case c of ChartFailed \<Rightarrow> [Words ''Couldn't load the series''] | ChartLoading \<Rightarrow> []
      | ChartNoRuns \<Rightarrow> [Words ''No runs in this range.''] | ChartLines ms \<Rightarrow> [ChartBox ''versions''])"

definition band_legend ::
  "host \<Rightarrow> WorkflowVersion \<Rightarrow> WorkflowVersion \<Rightarrow> version_data \<Rightarrow> version_data \<Rightarrow> int list \<Rightarrow> compare_chart \<Rightarrow> 'e element list" where
  "band_legend h A B a b bucketsMs c =
     (case (c, compare_band A B a b bucketsMs, overlap A B) of
        (ChartLines ms, Some _, Some (s, e)) \<Rightarrow> [Words (''Concurrent '' @ fmtSeen h s @ '' '' @ en_dash_text @ '' '' @ fmtSeen h e)]
      | _ \<Rightarrow> [])"

record compare_load =
  co_versions :: "WorkflowVersion list fetched"
  co_all :: "ErrorBucket list fetched"
  co_base :: version_data
  co_candidate :: version_data

definition comparison_view ::
  "host \<Rightarrow> string \<Rightarrow> string \<Rightarrow> compare_load \<Rightarrow> MetricId list \<Rightarrow> WorkflowVersion list \<Rightarrow> WorkflowVersion \<Rightarrow> WorkflowVersion \<Rightarrow> compare_event element list" where
  "comparison_view h workflowName rng q picked versions A B =
     (let axis = nullish (fe_data (co_all q)) []; active = active_rows rng picked A B;
          c = compare_chart_of rng picked (co_all q) (co_base q) (co_candidate q) in
      [Words (workflowName @ '' '' @ mid_dot @ '' Compare versions''), Words (wv_version A @ '' vs '' @ wv_version B),
       PressButton False ''Swap'' SwapVersions]
      @ versionCell h ''Base'' versions A (wv_version B) PickBase
      @ versionCell h ''Candidate'' versions B (wv_version A) PickCandidate
      @ map Words [''Metric'', wv_version A, wv_version B, ''Change'']
      @ map (compare_row_view h rng) (compare_rows A B)
      @ [Words (''Totals over the '' @ rangeLabel rng @ ''. Click up to two rows to chart them.''), Words ''Over time'',
         Words (str_join '' vs '' (map cr_title active) @ '' '' @ mid_dot @ '' '' @ (if rng = ''24h'' then ''hourly'' else ''daily'') @ '', '' @ rangeLabel rng),
         Words (wv_version A), Words (wv_version B)]
      @ shown (1 < length active) [Words (cr_title (active ! 1) @ '' (right axis)'')]
      @ band_legend h A B (co_base q) (co_candidate q) (map eb_bucket_ms axis) c
      @ chart_view c
      @ shown (axis \<noteq> []) [Words ''Share of runs'', ChartBox ''traffic''])"

definition versionComparePage ::
  "host \<Rightarrow> string \<Rightarrow> string \<Rightarrow> compare_load \<Rightarrow> MetricId list \<times> dash \<Rightarrow> compare_event element list" where
  "versionComparePage h workflowName rng q = (\<lambda>(picked, d).
     (let base = sel (db_selected d) ''base''; candidate = sel (db_selected d) ''candidate'' in
      case compare_body (co_versions q) base candidate of
        CompareLoading \<Rightarrow> []
      | CompareFailed \<Rightarrow> [Words ''Failed to load the comparison'']
      | compare_screen.NothingToCompare \<Rightarrow>
          [Words ''Nothing to compare in this range'',
           Words (base @ '' or '' @ candidate @ '' has no runs in the '' @ rangeLabel rng @ ''. Try a longer range.'')]
      | Comparison A B \<Rightarrow> comparison_view h workflowName rng q picked (nullish (fe_data (co_versions q)) []) A B))"

text \<open>\<open>onSelect\<close> of the dashboard.\<close>

definition select_pair :: "string \<Rightarrow> string \<Rightarrow> dash \<Rightarrow> dash" where
  "select_pair b c d = setSelected (\<lambda>s. jm_set ''candidate'' c (jm_set ''base'' b s)) d"

fun compare_react :: "string \<Rightarrow> compare_event \<Rightarrow> MetricId list \<times> dash \<Rightarrow> MetricId list \<times> dash" where
  "compare_react rng SwapVersions (p, d) = (p, select_pair (sel (db_selected d) ''candidate'') (sel (db_selected d) ''base'') d)"
| "compare_react rng (PickBase v) (p, d) = (p, select_pair v (sel (db_selected d) ''candidate'') d)"
| "compare_react rng (PickCandidate v) (p, d) = (p, select_pair (sel (db_selected d) ''base'') v d)"
| "compare_react rng (ToggleMetric i) (p, d) = (toggle_metric rng i p, d)"

subsection \<open>What the pages offer\<close>

lemma words_offer [simp]: "concat (map (presses dis) (map Words ws)) = []" "concat (map (presses dis \<circ> Words) ws) = []"
  by (induction ws) simp_all

lemma words_input [simp]: "concat (map (edits dis) (map Words ws)) = []" "concat (map (edits dis \<circ> Words) ws) = []"
  by (induction ws) simp_all

lemma version_choices_offers:
  "offers (version_choices h value opts f) = map (\<lambda>o'. f (vo_id o')) (filter (\<lambda>o'. vo_id o' \<noteq> value) opts)"
  by (induction opts) (simp_all add: version_choices_def)

lemma versionCell_offers:
  "offers (versionCell h label versions v exclude f) = map f (filter (\<lambda>x. x \<noteq> wv_version v) (cell_options versions exclude))"
proof -
  have "offers (versionCell h label versions v exclude f) = offers (version_choices h (Some (wv_version v)) (cell_choices versions exclude) (\<lambda>i. f (nullish i [])))"
    by (simp add: versionCell_def Let_def version_choices_def)
  also have "\<dots> = map f (filter (\<lambda>x. x \<noteq> wv_version v) (cell_options versions exclude))"
    unfolding version_choices_offers by (simp add: cell_choices_def cell_options_def filter_map comp_def)
  finally show ?thesis .
qed

definition all_metrics :: "MetricId list" where
  "all_metrics = [Runs_m, Cost_m, Cpr_m, P95_m, Err_m, Tpr_m]"

lemma rows_offers: "offers (map (compare_row_view h rng) (compare_rows A B)) = map ToggleMetric (filter (chartable rng) all_metrics)"
  by (simp add: compare_rows_def compare_row_view_def rel_row_def all_metrics_def Let_def)

lemma comparison_offers:
  "offers (comparison_view h name rng q picked versions A B) = [SwapVersions]
     @ map PickBase (filter (\<lambda>x. x \<noteq> wv_version A) (cell_options versions (wv_version B)))
     @ map PickCandidate (filter (\<lambda>x. x \<noteq> wv_version B) (cell_options versions (wv_version A)))
     @ map ToggleMetric (filter (chartable rng) all_metrics)"
proof -
  have b: "offers (band_legend h A B a b ms c :: compare_event element list) = []" for a b ms c
    by (auto simp: band_legend_def)
  have k: "offers (chart_view c :: compare_event element list) = []" for c by (cases c) (simp_all add: chart_view_def)
  show ?thesis unfolding comparison_view_def Let_def
    by (simp only: map_append concat_append offers_shown versionCell_offers rows_offers b k) simp
qed

lemma comparison_inputs: "inputs (versionComparePage h name rng q s) = []"
proof -
  have v: "inputs (version_choices h x opts f) = []" for x opts and f :: "string option \<Rightarrow> compare_event"
    by (induction opts) (simp_all add: version_choices_def)
  have c: "inputs (versionCell h label versions v exclude f) = []" for label versions v exclude f
    using v by (simp add: versionCell_def Let_def)
  have b: "inputs (band_legend h A B a b ms c :: compare_event element list) = []" for A B a b ms c
    by (auto simp: band_legend_def)
  have k: "inputs (chart_view c :: compare_event element list) = []" for c by (cases c) (simp_all add: chart_view_def)
  have r: "inputs (map (compare_row_view h rng) (compare_rows A B)) = []" for A B
    by (simp add: compare_rows_def compare_row_view_def rel_row_def Let_def)
  have "inputs (comparison_view h name rng q p versions A B) = []" for p versions A B
    unfolding comparison_view_def Let_def by (simp only: map_append concat_append inputs_shown b c k r) simp
  then show ?thesis by (cases s) (simp add: versionComparePage_def Let_def split: compare_screen.split)
qed

text \<open>A comparison is of two different versions that ran in the range.\<close>

definition compare_ok :: "string \<Rightarrow> compare_load \<Rightarrow> MetricId list \<times> dash \<Rightarrow> bool" where
  "compare_ok rng q = (\<lambda>(p, d).
     sel (db_selected d) ''base'' \<noteq> sel (db_selected d) ''candidate'' \<and> metrics_ok (rng, p) \<and>
     (\<exists>A B. compare_body (co_versions q) (sel (db_selected d) ''base'') (sel (db_selected d) ''candidate'') = Comparison A B))"

lemma compare_body_iff:
  "(\<exists>A B. compare_body q b c = Comparison A B) \<longleftrightarrow>
     \<not> fe_isLoading q \<and> fe_data q \<noteq> None \<and> {b, c} \<subseteq> wv_version ` set (nullish (fe_data q) [])"
proof -
  have f: "(\<exists>v. js_find (\<lambda>v. wv_version v = x) vs = Some v) \<longleftrightarrow> x \<in> wv_version ` set vs" for x vs
    by (induction vs) auto
  show ?thesis
    by (cases "fe_data q") (auto simp: compare_body_def f [symmetric] split: option.splits)
qed

lemma compare_body_versions: "compare_body q b c = Comparison A B \<Longrightarrow> wv_version A = b \<and> wv_version B = c"
proof -
  have f: "js_find (\<lambda>v. wv_version v = x) vs = Some v \<Longrightarrow> wv_version v = x" for x vs v
    by (induction vs) (auto split: if_splits)
  show "compare_body q b c = Comparison A B \<Longrightarrow> wv_version A = b \<and> wv_version B = c"
    by (auto simp: compare_body_def split: if_splits option.splits dest: f)
qed

lemma select_pair_sel [simp]:
  "sel (db_selected (select_pair b c d)) ''base'' = b" "sel (db_selected (select_pair b c d)) ''candidate'' = c"
  by (simp_all add: select_pair_def setSelected_def sel_def)

lemma cell_options_in: "x \<in> set (cell_options versions e) \<Longrightarrow> x \<noteq> e \<and> x \<in> wv_version ` set versions"
  by (auto simp: cell_options_def)

interpretation comparison: guarded_page "compare_ok rng q" "versionComparePage h name rng q" "compare_react rng" "\<lambda>_ _. False" "compare_ok rng q"
proof
  show "compare_ok rng q s \<Longrightarrow> compare_ok rng q s" for s .
next
  fix s e
  assume ok: "compare_ok rng q s" and e: "e \<in> set (offers (versionComparePage h name rng q s))"
  obtain p d where s: "s = (p, d)" by (cases s)
  define b c where "b = sel (db_selected d) ''base''" and "c = sel (db_selected d) ''candidate''"
  from ok obtain A B where body: "compare_body (co_versions q) b c = Comparison A B" and ne: "b \<noteq> c" and m: "distinct p" "p \<noteq> []" "length p \<le> 2"
    by (auto simp: s compare_ok_def b_def c_def metrics_ok_def)
  let ?vs = "nullish (fe_data (co_versions q)) []"
  note v = compare_body_versions [OF body]
  from body have in_vs: "\<not> fe_isLoading (co_versions q)" "fe_data (co_versions q) \<noteq> None" "b \<in> wv_version ` set ?vs" "c \<in> wv_version ` set ?vs"
    using compare_body_iff [of "co_versions q" b c] by auto
  have again: "compare_ok rng q (p, select_pair x y d)" if "x \<noteq> y" "x \<in> wv_version ` set ?vs" "y \<in> wv_version ` set ?vs" for x y
    using that in_vs m by (simp add: compare_ok_def metrics_ok_def compare_body_iff)
  have "e \<in> set (offers (comparison_view h name rng q p ?vs A B))"
    using e body by (simp only: s versionComparePage_def prod.case Let_def b_def c_def compare_screen.case)
  then consider "e = SwapVersions" | x where "e = PickBase x" "x \<in> set (cell_options ?vs c)"
    | x where "e = PickCandidate x" "x \<in> set (cell_options ?vs b)" | i where "e = ToggleMetric i" "chartable rng i"
    unfolding comparison_offers v [THEN conjunct1] v [THEN conjunct2] by auto
  then show "compare_ok rng q (compare_react rng e s)"
  proof cases
    case 1
    then show ?thesis using again [of c b] in_vs ne by (simp add: s b_def c_def)
  next
    case (2 x)
    then show ?thesis using again [of x c] in_vs cell_options_in [of x ?vs c] by (simp add: s c_def)
  next
    case (3 x)
    then show ?thesis using again [of b x] in_vs cell_options_in [of x ?vs b] by (auto simp: s b_def)
  next
    case (4 i)
    then show ?thesis using ok toggle_keeps [of p rng i] m by (simp add: s compare_ok_def metrics_ok_def)
  qed
next
  show "compare_ok rng q s \<Longrightarrow> f \<in> set (inputs (versionComparePage h name rng q s)) \<Longrightarrow> compare_ok rng q (compare_react rng (f t) s)" for s f t
    unfolding comparison_inputs by simp
qed simp

text \<open>C18. A comparison stays one: from two different versions of the range, whatever a visitor presses on the page (the other way round, another
  version for either side, a metric) leads to a comparison of two different versions of the range with one or two metrics.\<close>

theorem comparison_stays_defined:
  assumes "reach (compare_ok rng q) (page_step (versionComparePage h name rng q) (compare_react rng) (\<lambda>_ _. False)) (p, d)"
  shows "\<exists>A B. compare_body (co_versions q) (sel (db_selected d) ''base'') (sel (db_selected d) ''candidate'') = Comparison A B \<and>
    wv_version A \<noteq> wv_version B \<and> versionComparePage h name rng q (p, d) = comparison_view h name rng q p (nullish (fe_data (co_versions q)) []) A B \<and>
    length (charted rng p) \<in> {1, 2}"
proof -
  have ok: "compare_ok rng q (p, d)" using assms by (rule comparison.pages.reach_inv)
  then obtain A B where body: "compare_body (co_versions q) (sel (db_selected d) ''base'') (sel (db_selected d) ''candidate'') = Comparison A B"
    by (auto simp: compare_ok_def)
  have "distinct p" "length p \<le> 2" using ok by (simp_all add: compare_ok_def metrics_ok_def)
  then have "length (charted rng p) \<in> {1, 2}" using charted_ok [of p rng] two_cases [of "charted rng p"] by auto
  then show ?thesis using ok body compare_body_versions [OF body]
    by (intro exI [of _ A] exI [of _ B]) (simp add: compare_ok_def versionComparePage_def)
qed

subsection \<open>Where a press leads\<close>

lemma tiles_offer [simp]: "concat (map (presses dis) (tile_words t)) = []"
  by (cases "sl_sub t") (simp_all add: tile_words_def)

lemma words_offer_tiles [simp]: "concat (map (presses dis) (concat (map tile_words ts))) = []"
  by (induction ts) simp_all

lemma workflows_offers:
  "OpenRow w \<in> set (offers (workflowsPage h lower collate rng wsName updated ws p)) \<longleftrightarrow> w \<in> set (workflows_filtered lower collate p ws)"
proof -
  let ?ws = "workflows_filtered lower collate p ws"
  have r: "offers (if ?ws = [] then [Words ''No workflows match.''] else map (\<lambda>w. RowPress False (workflow_cells h w) (OpenRow w)) ?ws) = map OpenRow ?ws"
    by (cases "?ws = []") (simp, simp only: if_False, induction "?ws", simp_all add: comp_def)
  have u: "offers (case updated of None \<Rightarrow> [] | Some t \<Rightarrow> [Words t]) = ([] :: workflows_event list)" by (cases updated) simp_all
  show ?thesis unfolding workflowsPage_def Let_def
    by (simp only: map_append concat_append r u words_offer_tiles set_append) (auto simp: sortHeader_def)
qed

text \<open>A row of the table opens the page of its workflow, and the rows are the workflows that match the filter.\<close>

theorem workflow_row_opens:
  assumes "OpenRow w \<in> set (offers (workflowsPage h lower collate rng wsName updated ws p))" "plain_view ''workflows'' d" "wf_name w \<noteq> []"
  shows "w \<in> set ws \<and> workflow_matches lower (wp_q p) w \<and>
    dash_body wsLoading wsError (snd (workflows_react (OpenRow w) (p, d))) = [WorkflowDetailPg (wf_name w)]"
proof -
  have "w \<in> set (workflows_filtered lower collate p ws)" using assms(1) unfolding workflows_offers .
  then have "w \<in> set ws \<and> workflow_matches lower (wp_q p) w" by (simp add: workflows_filtered_def)
  moreover have "dash_body wsLoading wsError (openWorkflow w d) = [WorkflowDetailPg (wf_name w)]"
    using assms(3) plain_viewD(1) [OF assms(2)] by (simp add: dash_body_def openWorkflow_def Let_def sel_def plain_viewD(2) [OF assms(2)])
  ultimately show ?thesis by simp
qed

lemma version_row_offers:
  "offers (version_row_view r) = (case vr_compare r of None \<Rightarrow> [] | Some (b, c) \<Rightarrow> [CompareVersions b c])"
proof -
  have d: "offers (delta_words x) = ([] :: detail_event list)" for x by (cases x) (auto simp: delta_words_def)
  show ?thesis unfolding version_row_view_def
    by (simp only: map_append concat_append offers_shown d) (auto split: option.split)
qed

lemma versionsTable_offers:
  assumes "e \<in> set (offers (versionsTable h now versions label))"
  obtains v u where "v \<in> set versions" "comparable v" "previousVersion versions v = Some u" "e = CompareVersions (wv_version u) (wv_version v)"
proof -
  have "offers (versionsTable h now versions label) = concat (map (\<lambda>r. offers (version_row_view r)) (versions_table h now versions))"
    unfolding versionsTable_def by (simp only: map_append concat_append words_offer) (simp add: comp_def)
  then obtain v where v: "v \<in> set versions" and e: "e \<in> set (offers (version_row_view (version_row_of h now versions v)))"
    using assms by (auto simp: versions_table_def)
  show ?thesis
  proof (cases "if comparable v then previousVersion versions v else None")
    case None
    then show ?thesis using e unfolding version_row_offers version_row_of_def Let_def by (simp only:) simp
  next
    case (Some u)
    then have "e = CompareVersions (wv_version u) (wv_version v)"
      using e unfolding version_row_offers version_row_of_def Let_def by (simp only:) simp
    moreover have "comparable v" "previousVersion versions v = Some u" using Some by (simp_all split: if_splits)
    ultimately show ?thesis using v that by blast
  qed
qed

lemma compare_button_offers:
  "offers (compare_button l pair) = (case pair of None \<Rightarrow> [] | Some (b, c) \<Rightarrow> [CompareVersions b c])"
  by (auto simp: compare_button_def split: option.split)

lemma head_offers:
  assumes "CompareVersions b c \<in> set (offers (detail_head h p))"
  shows "dg_defaultCompare p = Some (b, c)"
proof -
  have v: "CompareVersions b c \<notin> set (offers (version_choices h x opts PickVersion))" for x opts
    unfolding version_choices_offers by auto
  show ?thesis using assms unfolding detail_head_def
    by (cases "dg_versions p")
      (auto simp only: map_append concat_append offers_shown set_append v compare_button_offers option.case split: if_splits option.splits,
       auto split: option.splits)
qed

lemma alert_offers:
  assumes "CompareVersions b c \<in> set (offers (cost_alert_note p))"
  shows "dg_defaultCompare p = Some (b, c)"
  using assms unfolding cost_alert_note_def
  by (cases "dg_costAlert p")
    (auto simp only: map_append concat_append set_append compare_button_offers option.case split: option.splits,
     auto split: option.splits)

lemma runs_offers: "CompareVersions b c \<notin> set (offers (runs_view runs sv))"
  by (auto simp: runs_view_def runsTable_def)

lemma area_offers [simp]: "offers (area_view chart a) = []"
  by (cases a) (simp_all add: area_view_def)

lemma kept_flag_is_marker: "m \<in> set (withoutOverlap xOf ms) \<Longrightarrow> m \<in> set ms"
  unfolding withoutOverlap_def by (drule bspec [OF keep_flags_apart [THEN conjunct2]]) simp

lemma flag_is_marker:
  assumes "(x, m) \<in> set (cost_flags w n markers)"
  shows "m \<in> set markers"
proof -
  have "m \<in> set (withoutOverlap (\<lambda>m. cost_center w n (cm_index m)) (filter (labelled n) markers))"
    using assms unfolding cost_flags_def by (cases "w > 0") auto
  from kept_flag_is_marker [OF this] show ?thesis by simp
qed

lemma chart_flags_offers:
  assumes "e \<in> set (offers (chart_flags w n markers))"
  shows "\<exists>m\<in>set markers. cm_onClick m = Some e"
proof -
  obtain x m where m: "(x, m) \<in> set (cost_flags w n markers)" and e: "e \<in> set (offers [case cm_onClick m of
       None \<Rightarrow> InertButton (nullish (cm_label m) []) | Some e \<Rightarrow> PressButton False (nullish (cm_label m) []) e])"
    using assms by (auto simp: chart_flags_def)
  from e have "cm_onClick m = Some e" by (cases "cm_onClick m") simp_all
  then show ?thesis using flag_is_marker [OF m] by blast
qed

lemma detail_compare_offers:
  assumes "CompareVersions b c \<in> set (offers (workflowDetailPage h now w p))"
  shows "dg_defaultCompare p = Some (b, c) \<or> (\<exists>m\<in>set (dg_markers p). cm_onClick m = Some (CompareVersions b c)) \<or>
    (\<exists>vs v u. dg_versions p = Some vs \<and> v \<in> set vs \<and> comparable v \<and> previousVersion vs v = Some u \<and> b = wv_version u \<and> c = wv_version v)"
proof -
  have meta: "offers (concat (map metaRow rows)) = ([] :: detail_event list)" for rows
    by (induction rows) (auto simp: metaRow_def)
  have tiles: "offers (concat (map (\<lambda>t. tile_words (f t)) ts)) = ([] :: detail_event list)" for f and ts :: "stat_tile list"
    by (induction ts) simp_all
  have errs: "offers (if x then [Words a] else [ChartBox d]) = ([] :: detail_event list)" for x a d by simp
  define vt where "vt = (if case dg_versions p of None \<Rightarrow> False | Some vs \<Rightarrow> vs \<noteq> []
    then versionsTable h now (the (dg_versions p)) (rangeLabel (dp_range p)) else [])"
  define rv where "rv = (if dg_runsError p then [Words ''Couldn't load runs'']
    else runs_view (dg_runs p) (case dg_versions p of None \<Rightarrow> False | Some vs \<Rightarrow> vs \<noteq> []))"
  have words: "offers [Words x] = ([] :: detail_event list)" "offers [Words x, Words y, Words z] = ([] :: detail_event list)"
    "offers [Words x, Words y, Words z, Words w] = ([] :: detail_event list)"
    "offers [Words x, Words y, Words z, Words w, Words k] = ([] :: detail_event list)" for x y z w k by simp_all
  define fl where "fl = shown (\<not> dg_costError p) (chart_flags w (length (dg_costSeries p)) (dg_markers p))"
  have flags: "\<exists>m\<in>set (dg_markers p). cm_onClick m = Some (CompareVersions b c)" if "CompareVersions b c \<in> set (offers fl)"
    using that chart_flags_offers by (cases "dg_costError p") (auto simp only: fl_def offers_shown if_False if_True simp_thms list.set empty_iff)
  have "offers (workflowDetailPage h now w p) = offers (detail_head h p) @ offers (cost_alert_note p) @ offers fl @ offers vt @ offers rv"
    unfolding workflowDetailPage_def Let_def vt_def [symmetric] rv_def [symmetric] fl_def [symmetric]
    by (simp only: map_append concat_append offers_shown meta tiles errs area_offers words append_Nil append_Nil2 if_cancel append_assoc)
  moreover have "CompareVersions b c \<notin> set (offers rv)" using runs_offers by (simp add: rv_def)
  moreover have "\<exists>vs. dg_versions p = Some vs \<and> CompareVersions b c \<in> set (offers (versionsTable h now vs (rangeLabel (dp_range p))))"
    if "CompareVersions b c \<in> set (offers vt)"
    using that by (cases "dg_versions p") (auto simp only: vt_def option.case option.sel if_False list.map concat.simps list.set empty_iff split: if_splits)
  ultimately have "CompareVersions b c \<in> set (offers (detail_head h p)) \<or> CompareVersions b c \<in> set (offers (cost_alert_note p)) \<or>
      CompareVersions b c \<in> set (offers fl) \<or> (\<exists>vs. dg_versions p = Some vs \<and> CompareVersions b c \<in> set (offers (versionsTable h now vs (rangeLabel (dp_range p)))))"
    using assms by (simp only: set_append Un_iff) blast
  then show ?thesis using head_offers alert_offers flags versionsTable_offers by (metis detail_event.inject(2))
qed

text \<open>C23. Every button that offers a comparison leads to one: on the page of a workflow, the buttons beside the versions, of the menu and of the
  cost alert and the flags of the releases on the cost chart all name two different versions of the range, and pressing one opens the page that compares exactly these.\<close>

theorem compare_button_leads_to_comparison:
  assumes "CompareVersions b c \<in> set (offers (workflowDetailPage h now w (live_detail h rng q flt)))"
    and "plain_view ''compare'' d" "\<not> db_embedded d" "name \<noteq> []"
    and "\<not> fe_isLoading (co_versions load)" "fe_data (co_versions load) = Some (dl_versions q)"
  shows "let d' = snd (detail_react name (CompareVersions b c) (flt, d)) in
    dash_body wsLoading wsError d' = [ComparePg name b c] \<and> compare_ok rng load ([Cpr_m], d')"
proof -
  let ?vs = "dl_versions q" and ?d = "compare name b c d"
  have pair: "b \<noteq> c" "b \<noteq> []" "c \<noteq> []" "b \<in> wv_version ` set ?vs" "c \<in> wv_version ` set ?vs"
    if "v \<in> set ?vs" "comparable v" "previousVersion ?vs v = Some u" "b = wv_version u" "c = wv_version v" for u v
    using that previousVersion_Some [OF that(3)] by (auto simp: comparable_def)
  have "defaultPair ?vs = Some (b, c) \<or>
      (\<exists>v u. v \<in> set ?vs \<and> comparable v \<and> previousVersion ?vs v = Some u \<and> b = wv_version u \<and> c = wv_version v)"
    using detail_compare_offers [OF assms(1)]
    by (auto simp: live_detail_def releaseMarkers_def release_click_def Let_def split: if_splits option.splits)
  then obtain v u where "v \<in> set ?vs" "comparable v" "previousVersion ?vs v = Some u" "b = wv_version u" "c = wv_version v"
    using currentVersion_Some by (fastforce simp: defaultPair_def split: option.splits)
  note p = pair [OF this]
  have sel: "sel (db_selected ?d) ''base'' = b" "sel (db_selected ?d) ''candidate'' = c" "sel (db_selected ?d) ''workflow'' = name"
    by (simp_all add: compare_def sel_def)
  have "dash_body wsLoading wsError ?d = [ComparePg name b c]"
    using assms(3,4) plain_viewD(1) [OF assms(2)] p sel
    by (simp add: dash_body_def Let_def compare_def plain_viewD(2) [OF assms(2)])
  moreover have "compare_ok rng load ([Cpr_m], ?d)"
    using p assms(5,6) by (simp add: compare_ok_def sel metrics_ok_def compare_body_iff)
  ultimately show ?thesis by simp
qed

subsection \<open>Examples\<close>

definition one_workflow :: Workflow where
  "one_workflow = \<lparr>wf_name = ''bot'', wf_calls = 3, wf_cost = 1, wf_avg_latency_ms = 5, wf_error_rate = 0, wf_trend = [], wf_last_trace_id = []\<rparr>"

definition dash_with_workspace :: dash where
  "dash_with_workspace = demo_dash\<lparr>db_workspaces := [demo_ws]\<rparr>"

lemma dash_with_workspace_plain: "plain_view v dash_with_workspace" "\<not> db_embedded dash_with_workspace"
  by (simp_all add: plain_view_def dash_with_workspace_def workspace_def pick_workspace_def)

theorem workflow_row_opens_witness:
  "dash_body False False (snd (workflows_react (OpenRow one_workflow) (workflows_init, dash_with_workspace))) = [WorkflowDetailPg ''bot'']"
proof -
  fix h
  have "OpenRow one_workflow \<in> set (offers (workflowsPage h to_lower (\<lambda>_ _. 0) ''7d'' None None [one_workflow] workflows_init))"
    unfolding workflows_offers by (simp add: workflows_filtered_def workflow_matches_def workflows_init_def)
  from workflow_row_opens [OF this dash_with_workspace_plain(1)] show ?thesis by (simp add: one_workflow_def)
qed

definition two_versions :: "WorkflowVersion list" where
  "two_versions = [version_at ''v1'' 0 5, version_at ''v2'' 3 9]"

definition loaded :: "'a list \<Rightarrow> 'a list fetched" where
  "loaded xs = \<lparr>fe_data = Some xs, fe_isLoading = False, fe_isError = False, fe_isSuccess = True, fe_dataUpdatedAt = 0\<rparr>"

definition no_series :: version_data where
  "no_series = \<lparr>vd_errors = loaded [], vd_cost = loaded [], vd_latency = loaded [], vd_tokens = loaded []\<rparr>"

definition versions_load :: compare_load where
  "versions_load = \<lparr>co_versions = loaded two_versions, co_all = loaded [], co_base = no_series, co_candidate = no_series\<rparr>"

definition bot_load :: detail_load where
  "bot_load = \<lparr>dl_detail = \<lparr>wd_name = ''bot'', wd_calls = 2, wd_cost = 1, wd_avg_latency_ms = 5, wd_p95_latency_ms = None, wd_error_rate = 0,
     wd_input_tokens = 1, wd_output_tokens = 1, wd_model = [], wd_provider = [], wd_tools = [], wd_last_trace_id = []\<rparr>, dl_versions = two_versions, dl_cost = None,
     dl_costError = False, dl_latencyError = False, dl_errorsError = False, dl_runsError = False, dl_runs = []\<rparr>"

theorem comparison_stays_defined_witness:
  "\<exists>A B. compare_body (co_versions versions_load) ''v2'' ''v1'' = Comparison A B \<and> wv_version A \<noteq> wv_version B"
proof -
  fix h
  let ?d = "select_pair ''v1'' ''v2'' demo_dash"
  let ?reach = "reach (compare_ok ''7d'' versions_load)
    (page_step (versionComparePage h ''bot'' ''7d'' versions_load) (compare_react ''7d'') (\<lambda>_ _. False))"
  have body: "\<exists>A B. compare_body (co_versions versions_load) ''v1'' ''v2'' = Comparison A B"
    unfolding compare_body_iff by (simp add: versions_load_def loaded_def two_versions_def version_at_def)
  then have "?reach ([Cpr_m], ?d)" by (intro reach_init) (simp add: compare_ok_def metrics_ok_def)
  moreover have "SwapVersions \<in> set (offers (versionComparePage h ''bot'' ''7d'' versions_load ([Cpr_m], ?d)))"
  proof -
    from body obtain A B where "compare_body (co_versions versions_load) ''v1'' ''v2'' = Comparison A B" by blast
    then have "versionComparePage h ''bot'' ''7d'' versions_load ([Cpr_m], ?d) =
        comparison_view h ''bot'' ''7d'' versions_load [Cpr_m] (nullish (fe_data (co_versions versions_load)) []) A B"
      by (simp add: versionComparePage_def)
    then show ?thesis by (simp only: comparison_offers) simp
  qed
  ultimately have "?reach (compare_react ''7d'' SwapVersions ([Cpr_m], ?d))" by (rule reach_press)
  then have "?reach ([Cpr_m], select_pair ''v2'' ''v1'' ?d)" by simp
  from comparison_stays_defined [OF this] show ?thesis by auto
qed

theorem compare_button_leads_to_comparison_witness:
  "dash_body False False (snd (detail_react ''bot'' (CompareVersions ''v1'' ''v2'') (None, dash_with_workspace))) = [ComparePg ''bot'' ''v1'' ''v2'']"
proof -
  fix h now w
  let ?p = "live_detail h ''7d'' bot_load None"
  have pair: "defaultPair two_versions = Some (''v1'', ''v2'')" unfolding two_versions_def by code_simp
  have "comparable (version_at ''v1'' 0 5)" by code_simp
  then have vs: "dg_versions ?p = Some two_versions" "dg_defaultCompare ?p = Some (''v1'', ''v2'')"
    using pair by (simp_all add: live_detail_def bot_load_def Let_def) (simp add: two_versions_def)
  have "CompareVersions ''v1'' ''v2'' \<in> set (offers (detail_head h ?p))"
    unfolding detail_head_def vs by (simp add: two_versions_def compare_button_def)
  then have "CompareVersions ''v1'' ''v2'' \<in> set (offers (workflowDetailPage h now w ?p))"
    unfolding workflowDetailPage_def Let_def map_append concat_append set_append by blast
  from compare_button_leads_to_comparison [OF this dash_with_workspace_plain, of "''bot''" versions_load False False] show ?thesis
    by (simp add: versions_load_def loaded_def bot_load_def Let_def)
qed

end
