(* ===== verification/Outliers_View.thy ===== *)
theory Outliers_View
  imports Overview Elements
begin

text \<open>
  The panel of outliers as what it shows and offers (\<open>modules/overview/components/outliers/OutliersPanel.tsx\<close>): the header with its two
  modes, the rows and cards with their details, and the actions on a flag. The panel is composed with the state of the
  overview, which holds the selection and the dismissals, and with the dashboard an inspection leads to.
\<close>

datatype outlier_event =
    ShowMode ViewMode
  | ToggleRow outlier_row
  | ToggleCard incident_card
  | DismissFlag Anomaly
  | DismissIncident Incident
  | InspectFlag Anomaly
  | UndoAll

definition outliers_header :: "bool \<Rightarrow> nat \<Rightarrow> nat \<Rightarrow> ViewMode \<Rightarrow> outlier_event element list" where
  "outliers_header narrow n incidentCount view =
     [Words (''Outliers '' @ mid_dot @ '' '' @ (if view = GroupedMode then ''incidents'' else ''triage'')),
      Words (outliers_title n incidentCount view),
      Words (if view = GroupedMode then ''Flags for the same target on the same day, grouped. Most severe first.''
             else ''Each row is a flagged day, most severe first. Distance from the 28-day baseline is shown per row.'')]
     @ shown (\<not> narrow) (map Words [''critical'', ''warning'', ''info''])
     @ [PressButton False ''List'' (ShowMode ListMode), PressButton False ''Grouped'' (ShowMode GroupedMode)]"

fun direction_text :: "AnomalyDirection \<Rightarrow> string" where
  "direction_text Spike = ''spike''"
| "direction_text Drop = ''drop''"

definition flag_title :: "Anomaly \<Rightarrow> string" where
  "flag_title a = mm_kind (METRIC_META (an_metric a)) @ '' '' @ direction_text (an_direction a)"

definition versionChangeNote :: "Anomaly \<Rightarrow> string list" where
  "versionChangeNote a = (if an_version_change a = None then [] else [versionChangeLabel a])"

definition from_text :: "host \<Rightarrow> Anomaly \<Rightarrow> string" where
  "from_text h a =
     (let ratio = ratioLabel (an_observed a) (an_expected a) in
      ''from '' @ anomalyValue h (an_metric a) (an_expected a) @ (if ratio \<noteq> [] then '' '' @ mid_dot @ '' '' @ ratio else []))"

definition row_texts :: "host \<Rightarrow> string \<Rightarrow> Anomaly \<Rightarrow> string list" where
  "row_texts h rng a =
     [flag_title a, outlier_target (an_scope a) (an_workflow a) @ '' '' @ mid_dot @ '' '' @ bucketLabel h (an_bucket_ms a) rng]
     @ versionChangeNote a @ [anomalyValue h (an_metric a) (an_observed a), from_text h a, zLabel (an_score a)]"

definition why_words :: "host \<Rightarrow> Anomaly \<Rightarrow> 'e element list" where
  "why_words h a = Words ''Why flagged'' # concat (map (\<lambda>(k, v). [Words k, Words v]) (whyFlagged h a))"

definition rowActions :: "Anomaly \<Rightarrow> outlier_event element list" where
  "rowActions a =
     shown (an_scope a = WorkflowScope) [PressButton False (''Inspect workflow '' @ [CHR 0xE2, CHR 0x86, CHR 0x92]) (InspectFlag a)]
     @ [PressButton False ''Not an outlier'' (DismissFlag a)]"

definition outlierRow :: "host \<Rightarrow> string \<Rightarrow> outlier_row \<Rightarrow> outlier_event element list" where
  "outlierRow h rng r =
     [RowPress False (row_texts h rng (or_anomaly r)) (ToggleRow r)]
     @ shown (or_expanded r) (why_words h (or_anomaly r) @ [Words (an_summary (or_anomaly r))] @ rowActions (or_anomaly r))"

definition metricChip :: "host \<Rightarrow> Anomaly \<Rightarrow> string list" where
  "metricChip h a =
     (let ratio = ratioLabel (an_observed a) (an_expected a) in
      [mm_kind (METRIC_META (an_metric a)), anomalyValue h (an_metric a) (an_observed a)] @ (if ratio \<noteq> [] then [ratio] else []))"

definition card_texts :: "host \<Rightarrow> string \<Rightarrow> Incident \<Rightarrow> string list" where
  "card_texts h rng i =
     (let n = length (inc_anomalies i) in
      [outlier_target (inc_scope i) (inc_workflow i), bucketLabel h (inc_bucket_ms i) rng]
      @ (case js_find (\<lambda>a. an_version_change a \<noteq> None) (inc_anomalies i) of None \<Rightarrow> [] | Some a \<Rightarrow> versionChangeNote a)
      @ concat (map (metricChip h) (inc_anomalies i)) @ [nat_str n @ '' flag'' @ (if n = 1 then [] else ''s'')])"

definition incidentCard :: "host \<Rightarrow> string \<Rightarrow> incident_card \<Rightarrow> outlier_event element list" where
  "incidentCard h rng c =
     (let i = ic_incident c in
      [RowPress False (card_texts h rng i) (ToggleCard c)]
      @ shown (ic_expanded c)
          (concat (map (\<lambda>a. [Words (flag_title a)] @ why_words h a @ [Words (an_summary a)]) (inc_anomalies i))
           @ (case incident_inspect i of
                None \<Rightarrow> []
              | Some a \<Rightarrow> [PressButton False (''Inspect '' @ an_workflow a @ '' '' @ [CHR 0xE2, CHR 0x86, CHR 0x92]) (InspectFlag a)])
           @ [PressButton False (''Dismiss '' @ (if length (inc_anomalies i) = 1 then ''flag'' else ''all'')) (DismissIncident i)]))"

definition body_view :: "host \<Rightarrow> string \<Rightarrow> panel_body \<Rightarrow> outlier_event element list" where
  "body_view h rng b =
     (case b of
        NoOutliers \<Rightarrow>
          [Words ''No outliers in this window'',
           Words (''Nothing strayed far enough from its 28-day baseline to flag. Cost, error-rate and run-volume are all within their '' @
             ''usual range.'')]
      | OutlierList rows \<Rightarrow> [ItemList [] (map (outlierRow h rng) rows)]
      | IncidentList cards \<Rightarrow> [ItemList [] (map (incidentCard h rng) cards)])"

text \<open>The panel with the state it keeps and that of the page: all flags of the window, what is dismissed and selected, and the mode.\<close>

type_synonym outliers_state = "overview \<times> ViewMode \<times> dash"

definition outliersPanel :: "host \<Rightarrow> string \<Rightarrow> bool \<Rightarrow> Anomaly list \<Rightarrow> outliers_state \<Rightarrow> outlier_event element list" where
  "outliersPanel h rng narrow all = (\<lambda>(p, view, d).
     (let live = liveAnoms all p in
      outliers_header narrow (length live) (length (groupIncidents live)) view
      @ body_view h rng (outliers_body live view (ov_selected p))
      @ (case restore_note (dismissedCount all p) of None \<Rightarrow> [] | Some t \<Rightarrow> [Words t, PressButton False ''Undo all'' UndoAll])))"

fun outliers_react :: "outlier_event \<Rightarrow> outliers_state \<Rightarrow> outliers_state" where
  "outliers_react (ShowMode m) (p, view, d) = (p, m, d)"
| "outliers_react (ToggleRow r) (p, view, d) = (toggle_row r p, view, d)"
| "outliers_react (ToggleCard c) (p, view, d) = (toggle_card c p, view, d)"
| "outliers_react (DismissFlag a) (p, view, d) = (dismissOutlier a p, view, d)"
| "outliers_react (DismissIncident i) (p, view, d) = (dismiss_incident i p, view, d)"
| "outliers_react (InspectFlag a) (p, view, d) = (p, view, inspectOutlier a d)"
| "outliers_react UndoAll (p, view, d) = (restoreAll p, view, d)"

text \<open>A flag of a chart selects its outlier.\<close>

inductive outliers_env :: "Anomaly list \<Rightarrow> outliers_state \<Rightarrow> outliers_state \<Rightarrow> bool" for all where
  chart_flag: "a \<in> set (liveAnoms all p) \<Longrightarrow> outliers_env all (p, view, d) (selectOutlier a p, view, d)"

text \<open>The page over time: with another range or a refetch the flags of the window change while the dismissals stay. The windows loaded so far
  are kept, the latest first, each with its range. The panel is mounted anew, in its first mode, when the page has hidden it.\<close>

type_synonym windows = "(string \<times> Anomaly list) list"

definition outliersPage :: "host \<Rightarrow> bool \<Rightarrow> windows \<times> outliers_state \<Rightarrow> outlier_event element list" where
  "outliersPage h narrow = (\<lambda>(ws, s). outliersPanel h (fst (hd ws)) narrow (snd (hd ws)) s)"

definition page_react :: "outlier_event \<Rightarrow> windows \<times> outliers_state \<Rightarrow> windows \<times> outliers_state" where
  "page_react e = (\<lambda>(ws, s). (ws, outliers_react e s))"

inductive page_env :: "windows \<times> outliers_state \<Rightarrow> windows \<times> outliers_state \<Rightarrow> bool" where
  chart_pressed: "outliers_env (snd (hd ws)) s s' \<Longrightarrow> page_env (ws, s) (ws, s')"
| window_loaded: "page_env (ws, s) ((rng, as) # ws, s)"
| panel_mounted: "page_env (ws, p, view, d) (ws, p, ListMode, d)"

definition page_opens :: "windows \<times> outliers_state \<Rightarrow> bool" where
  "page_opens = (\<lambda>(ws, p, view, d). length ws = 1 \<and> p = overview_init \<and> view = ListMode)"

subsection \<open>What the panel offers\<close>

definition outlier_offer :: "Anomaly list \<Rightarrow> outliers_state \<Rightarrow> outlier_event \<Rightarrow> bool" where
  "outlier_offer all = (\<lambda>(p, view, d) e.
     (let live = liveAnoms all p in
      case e of
        ShowMode m \<Rightarrow> True
      | ToggleRow r \<Rightarrow> r \<in> set (outlier_rows live (ov_selected p))
      | ToggleCard c \<Rightarrow> c \<in> set (incident_cards live (ov_selected p))
      | DismissFlag a \<Rightarrow> a \<in> set live \<and> ov_selected p = Some (anomalyKey a)
      | DismissIncident i \<Rightarrow> i \<in> set (groupIncidents live) \<and> (\<exists>a\<in>set (inc_anomalies i). ov_selected p = Some (anomalyKey a))
      | InspectFlag a \<Rightarrow> a \<in> set live \<and> an_scope a = WorkflowScope
      | UndoAll \<Rightarrow> dismissedCount all p > 0))"

lemma words_silent: "(\<And>e. e \<in> set es \<Longrightarrow> \<exists>w. e = Words w) \<Longrightarrow> offers es = []"
  by (induction es) fastforce+

lemma why_offers [simp]: "offers (why_words h a) = []"
  by (rule words_silent) (auto simp: why_words_def)

lemma header_offers: "offers (outliers_header narrow n k view) = [ShowMode ListMode, ShowMode GroupedMode]"
  by (cases narrow) (simp_all add: outliers_header_def)

lemma outlierRow_offers: "offers (outlierRow h rng r) = [ToggleRow r] @
    (if or_expanded r then (if an_scope (or_anomaly r) = WorkflowScope then [InspectFlag (or_anomaly r)] else []) @ [DismissFlag (or_anomaly r)] else [])"
proof -
  have "offers (rowActions a) = (if an_scope a = WorkflowScope then [InspectFlag a] else []) @ [DismissFlag a]" for a
    by (simp add: rowActions_def shown_def)
  then show ?thesis unfolding outlierRow_def by (simp only: map_append concat_append offers_shown why_offers) simp
qed

lemma incidentCard_offers: "offers (incidentCard h rng c) = [ToggleCard c] @
    (if ic_expanded c then (case incident_inspect (ic_incident c) of None \<Rightarrow> [] | Some a \<Rightarrow> [InspectFlag a]) @ [DismissIncident (ic_incident c)] else [])"
proof -
  have f: "offers (concat (map (\<lambda>a. [Words (flag_title a)] @ why_words h a @ [Words (an_summary a)]) as)) = ([] :: outlier_event list)" for as
    by (rule words_silent) (auto simp: why_words_def)
  show ?thesis unfolding incidentCard_def Let_def
    by (cases "incident_inspect (ic_incident c)") (simp_all only: map_append concat_append offers_shown f option.case, simp_all)
qed

lemma inspect_in_incident: "incident_inspect i = Some a \<Longrightarrow> a \<in> set (inc_anomalies i) \<and> an_scope a = WorkflowScope"
proof -
  have "js_find P xs = Some x \<Longrightarrow> x \<in> set xs \<and> P x" for P xs and x :: Anomaly by (induction xs) (auto split: if_splits)
  then show "incident_inspect i = Some a \<Longrightarrow> a \<in> set (inc_anomalies i) \<and> an_scope a = WorkflowScope" unfolding incident_inspect_def .
qed

lemma incident_flags: "i \<in> set (groupIncidents as) \<Longrightarrow> a \<in> set (inc_anomalies i) \<Longrightarrow> a \<in> set as"
  using mset_eq_setD [OF groupIncidents_mset [of as]] by auto

lemma list_offers:
  "as \<noteq> [] \<Longrightarrow> offers (body_view h rng (outliers_body as ListMode k)) = concat (map (\<lambda>r. offers (outlierRow h rng r)) (outlier_rows as k))"
  by (simp add: outliers_body_def body_view_def comp_def)

lemma body_offers:
  assumes "e \<in> set (offers (body_view h rng (outliers_body (liveAnoms all p) view (ov_selected p))))"
  shows "outlier_offer all (p, view, d) e"
proof -
  let ?live = "liveAnoms all p"
  from assms have "?live \<noteq> []" by (auto simp: outliers_body_def body_view_def)
  show ?thesis
  proof (cases "view = ListMode")
    case True
    then have "offers (body_view h rng (outliers_body ?live view (ov_selected p))) = concat (map (\<lambda>r. offers (outlierRow h rng r)) (outlier_rows ?live (ov_selected p)))"
      using list_offers [OF \<open>?live \<noteq> []\<close>] by simp
    then obtain r where r: "r \<in> set (outlier_rows ?live (ov_selected p))" "e \<in> set (offers (outlierRow h rng r))" using assms by auto
    then have "or_anomaly r \<in> set ?live" "or_expanded r \<longleftrightarrow> ov_selected p = Some (anomalyKey (or_anomaly r))"
      by (auto simp: outlier_rows_def)
    then show ?thesis using r unfolding outlierRow_offers by (auto simp: outlier_offer_def Let_def split: if_splits)
  next
    case False
    then have "offers (body_view h rng (outliers_body ?live view (ov_selected p))) = concat (map (\<lambda>c. offers (incidentCard h rng c)) (incident_cards ?live (ov_selected p)))"
      using \<open>?live \<noteq> []\<close> by (simp add: outliers_body_def body_view_def comp_def)
    then obtain c where c: "c \<in> set (incident_cards ?live (ov_selected p))" "e \<in> set (offers (incidentCard h rng c))" using assms by auto
    then have i: "ic_incident c \<in> set (groupIncidents ?live)"
      "ic_expanded c \<longleftrightarrow> (\<exists>a\<in>set (inc_anomalies (ic_incident c)). ov_selected p = Some (anomalyKey a))"
      unfolding incident_cards_def by (auto simp: eq_commute [of "ov_selected p"])
    then show ?thesis using c incident_flags [OF i(1)] inspect_in_incident unfolding incidentCard_offers
      by (auto simp: outlier_offer_def Let_def split: if_splits option.splits)
  qed
qed

lemma panel_offers:
  assumes "e \<in> set (offers (outliersPanel h rng narrow all (p, view, d)))"
  shows "outlier_offer all (p, view, d) e"
proof -
  have "e \<in> {ShowMode ListMode, ShowMode GroupedMode} \<or> (e = UndoAll \<and> dismissedCount all p > 0) \<or>
      e \<in> set (offers (body_view h rng (outliers_body (liveAnoms all p) view (ov_selected p))))"
    using assms unfolding outliersPanel_def prod.case Let_def
    by (cases "dismissedCount all p > 0")
      (auto simp only: map_append concat_append set_append header_offers restore_note_def if_True if_False option.case, auto)
  then show ?thesis
  proof (elim disjE)
    assume "e \<in> set (offers (body_view h rng (outliers_body (liveAnoms all p) view (ov_selected p))))"
    then show ?thesis by (rule body_offers)
  qed (auto simp: outlier_offer_def)
qed

lemma panel_inputs: "inputs (outliersPanel h rng narrow all (p, view, d)) = []"
proof -
  have w: "(\<And>e. e \<in> set es \<Longrightarrow> \<exists>w. e = Words w) \<Longrightarrow> inputs es = []" for es :: "outlier_event element list"
    by (induction es) fastforce+
  have y: "inputs (why_words h a) = ([] :: (string \<Rightarrow> outlier_event) list)" for a by (rule w) (auto simp: why_words_def)
  have r: "inputs (outlierRow h rng r) = []" for r
  proof -
    have "inputs (rowActions a) = []" for a by (simp add: rowActions_def shown_def)
    then show ?thesis unfolding outlierRow_def by (simp only: map_append concat_append inputs_shown y) simp
  qed
  have c: "inputs (incidentCard h rng c) = []" for c
  proof -
    have "inputs (concat (map (\<lambda>a. [Words (flag_title a)] @ why_words h a @ [Words (an_summary a)]) as)) = ([] :: (string \<Rightarrow> outlier_event) list)" for as
      by (rule w) (auto simp: why_words_def)
    then show ?thesis unfolding incidentCard_def Let_def
      by (cases "incident_inspect (ic_incident c)") (simp_all only: map_append concat_append inputs_shown option.case, simp_all)
  qed
  have b: "inputs (body_view h rng b) = []" for b using r c by (cases b) (simp_all add: body_view_def)
  have hd': "inputs (outliers_header narrow n k view) = []" for n k by (cases narrow) (simp_all add: outliers_header_def)
  show ?thesis unfolding outliersPanel_def prod.case Let_def
    by (cases "restore_note (dismissedCount all p)") (simp_all only: map_append concat_append b hd' option.case, simp_all)
qed

text \<open>What is dismissed was a flag of some window, each counted once.\<close>

definition dismissed_ok :: "windows \<times> outliers_state \<Rightarrow> bool" where
  "dismissed_ok = (\<lambda>(ws, p, view, d). ws \<noteq> [] \<and> distinct (ov_dismissed p) \<and>
     set (ov_dismissed p) \<subseteq> anomalyKey ` (\<Union>(rng, as)\<in>set ws. set as))"

lemma live_sub: "set (liveAnoms all p) \<subseteq> set all"
  by (auto simp: liveAnoms_def)

lemma window_flags: "ws \<noteq> [] \<Longrightarrow> set (snd (hd ws)) \<subseteq> (\<Union>(rng, as)\<in>set ws. set as)"
  by (cases ws) auto

lemma distinct_set_add: "distinct s \<Longrightarrow> distinct (set_add x s)"
  by (simp add: set_add_def)

lemma dismiss_incident_ok:
  "distinct (ov_dismissed p) \<Longrightarrow> distinct (ov_dismissed (foldl (\<lambda>p a. dismissOutlier a p) p as))"
  by (induction as arbitrary: p) (simp_all add: dismissOutlier_def distinct_set_add)

text \<open>What a press adds to the dismissals: flags of the incident that holds the flag selected.\<close>

definition of_expanded :: "Anomaly list \<Rightarrow> string option \<Rightarrow> Anomaly \<Rightarrow> bool" where
  "of_expanded live selected a \<longleftrightarrow> (\<exists>i\<in>set (groupIncidents live). a \<in> set (inc_anomalies i) \<and>
     (\<exists>b\<in>set (inc_anomalies i). selected = Some (anomalyKey b)))"

lemma in_some_incident: "a \<in> set as \<Longrightarrow> \<exists>i\<in>set (groupIncidents as). a \<in> set (inc_anomalies i)"
  using mset_eq_setD [OF groupIncidents_mset [of as]] by auto

lemma press_dismisses:
  assumes "outlier_offer all (p, view, d) e" "outliers_react e (p, view, d) = (p', view', d')"
    and "k \<in> set (ov_dismissed p') - set (ov_dismissed p)"
  shows "\<exists>a. k = anomalyKey a \<and> of_expanded (liveAnoms all p) (ov_selected p) a"
proof (cases e)
  case (DismissFlag a)
  then have "a \<in> set (liveAnoms all p)" "ov_selected p = Some (anomalyKey a)" "k = anomalyKey a"
    using assms by (auto simp: outlier_offer_def Let_def dismissOutlier_def)
  moreover from this(1) obtain i where "i \<in> set (groupIncidents (liveAnoms all p))" "a \<in> set (inc_anomalies i)"
    using in_some_incident by blast
  ultimately show ?thesis unfolding of_expanded_def by blast
next
  case (DismissIncident i)
  then obtain x where x: "x \<in> set (inc_anomalies i)" "k = anomalyKey x"
    using assms(2,3) by (auto simp: dismiss_incident_def dismissed_after_fold)
  have "i \<in> set (groupIncidents (liveAnoms all p))" "\<exists>b\<in>set (inc_anomalies i). ov_selected p = Some (anomalyKey b)"
    using assms(1) DismissIncident by (simp_all add: outlier_offer_def Let_def)
  with x show ?thesis unfolding of_expanded_def by blast
qed (use assms in \<open>auto simp: toggle_row_def toggle_card_def selectKey_def restoreAll_def\<close>)

lemma of_expanded_window: "of_expanded (liveAnoms all p) key a \<Longrightarrow> a \<in> set all"
  using incident_flags live_sub by (fastforce simp: of_expanded_def)

interpretation outliers: guarded_page page_opens "outliersPage h narrow" page_react page_env dismissed_ok
proof
  show "page_opens s \<Longrightarrow> dismissed_ok s" for s
    by (cases s) (auto simp: page_opens_def dismissed_ok_def overview_init_def)
next
  fix s e
  assume i: "dismissed_ok s" and e: "e \<in> set (offers (outliersPage h narrow s))"
  obtain ws p view d where s: "s = (ws, p, view, d)" by (cases s)
  obtain p' view' d' where r: "outliers_react e (p, view, d) = (p', view', d')" by (metis prod_cases3)
  let ?all = "snd (hd ws)"
  have "e \<in> set (offers (outliersPanel h (fst (hd ws)) narrow ?all (p, view, d)))" using e unfolding s outliersPage_def prod.case .
  then have o: "outlier_offer ?all (p, view, d) e" by (rule panel_offers)
  have "set (ov_dismissed p') \<subseteq> set (ov_dismissed p) \<union> anomalyKey ` set ?all"
    using press_dismisses [OF o r] of_expanded_window by blast
  moreover have "distinct (ov_dismissed p')"
  proof (cases e)
    case (DismissIncident k)
    then show ?thesis using i r by (auto simp: s dismissed_ok_def dismiss_incident_def dismiss_incident_ok)
  qed (use i r in \<open>auto simp: s dismissed_ok_def toggle_row_def toggle_card_def selectKey_def dismissOutlier_def distinct_set_add restoreAll_def\<close>)
  moreover have ok: "ws \<noteq> []" "set (ov_dismissed p) \<subseteq> anomalyKey ` (\<Union>(rng, as)\<in>set ws. set as)"
    using i by (simp_all add: s dismissed_ok_def)
  moreover have "anomalyKey ` set ?all \<subseteq> anomalyKey ` (\<Union>(rng, as)\<in>set ws. set as)"
    using window_flags [OF ok(1)] by (rule image_mono)
  ultimately have "dismissed_ok (ws, p', view', d')" unfolding dismissed_ok_def prod.case by (meson Un_least order_trans)
  then show "dismissed_ok (page_react e s)" by (simp add: s page_react_def r)
next
  show "dismissed_ok s \<Longrightarrow> f \<in> set (inputs (outliersPage h narrow s)) \<Longrightarrow> dismissed_ok (page_react (f t) s)" for s f t
    by (cases s) (simp only: outliersPage_def prod.case panel_inputs list.set empty_iff)
next
  fix s s'
  assume i: "dismissed_ok s" and "page_env s s'"
  from this(2) show "dismissed_ok s'"
  proof cases
    case (window_loaded ws t rng as)
    then show ?thesis using i by (cases t) (simp add: dismissed_ok_def image_Un le_supI2)
  qed (use i in \<open>auto simp: dismissed_ok_def selectOutlier_def selectKey_def elim!: outliers_env.cases\<close>)
qed

lemma step_dismisses:
  assumes "page_step (outliersPage h narrow) page_react page_env (ws, p, view, d) (ws', p', view', d')"
    and "k \<in> set (ov_dismissed p') - set (ov_dismissed p)"
  shows "\<exists>a. k = anomalyKey a \<and> of_expanded (liveAnoms (snd (hd ws)) p) (ov_selected p) a"
  using assms(1)
proof cases
  case (visitor_presses e)
  then have "e \<in> set (offers (outliersPanel h (fst (hd ws)) narrow (snd (hd ws)) (p, view, d)))" unfolding outliersPage_def prod.case by blast
  then have o: "outlier_offer (snd (hd ws)) (p, view, d) e" by (rule panel_offers)
  have r: "outliers_react e (p, view, d) = (p', view', d')" using visitor_presses by (simp add: page_react_def)
  show ?thesis by (rule press_dismisses [OF o r assms(2)])
next
  case (visitor_types f x)
  then show ?thesis by (simp only: outliersPage_def prod.case panel_inputs list.set empty_iff)
next
  case surroundings
  then have "ov_dismissed p' = ov_dismissed p"
    by (auto simp: selectOutlier_def selectKey_def elim!: page_env.cases outliers_env.cases)
  then show ?thesis using assms(2) by simp
qed


definition one_flag :: Anomaly where
  "one_flag = sample_anomaly Critical 0"


end
