(* ===== verification/Auth_View.thy ===== *)
theory Auth_View
  imports Auth_Pages Elements
begin

text \<open>
  What visitors without a dashboard see and can press: the frame of these pages (\<open>modules/auth/components/AuthShell.tsx\<close>,
  \<open>AuthButton.tsx\<close>), the forms to sign in and to sign up, and the page of an invite. A submission is split into its start
  and the answer, so that other events can come in between; the halves together are the submissions of \<open>Auth_Pages\<close>.
\<close>

subsection \<open>The frame (AuthShell.tsx)\<close>

text \<open>A link is a press that changes the path.\<close>

definition tagline :: "AuthAppearance option \<Rightarrow> string" where
  "tagline ap = nullish (Option.bind ap aa_tagline) (''Open source '' @ mid_dot @ '' self-hosted'')"

definition legal :: "AuthAppearance option \<Rightarrow> string" where
  "legal ap = nullish (Option.bind ap aa_footer)
     (''Open source '' @ mid_dot @ '' self-hosted '' @ mid_dot @ '' your traces never leave your infrastructure'')"

definition authShell ::
  "(string \<Rightarrow> 'e) \<Rightarrow> AuthAppearance option \<Rightarrow> bool \<Rightarrow> string \<Rightarrow> string \<Rightarrow> (string \<times> string \<times> string) option \<Rightarrow> 'e element list \<Rightarrow> 'e element list" where
  "authShell link ap tabs title subtitle footnote children =
     [Words (tagline ap)]
     @ shown tabs [PressButton False ''Sign in'' (link ''/login''), PressButton False ''Create account'' (link ''/signup'')]
     @ [Words title, Words subtitle] @ children
     @ (case footnote of None \<Rightarrow> [] | Some (t, l, to) \<Rightarrow> [Words t, PressButton False l (link to)])
     @ [Words (legal ap)]"

lemma authShell_offers: "offers (authShell link ap tabs title subtitle footnote children) =
    (if tabs then [link ''/login'', link ''/signup''] else []) @ offers children @
    (case footnote of None \<Rightarrow> [] | Some (t, l, to) \<Rightarrow> [link to])"
  by (cases footnote) (auto simp: authShell_def)

lemma authShell_inputs: "inputs (authShell link ap tabs title subtitle footnote children) = inputs children"
  by (cases footnote) (auto simp: authShell_def)

lemma authShell_texts: "set (page_texts children) \<subseteq> set (page_texts (authShell link ap tabs title subtitle footnote children))"
  by (auto simp: authShell_def)

subsection \<open>Signing in (LoginPage.tsx)\<close>

datatype auth_event = AvEmail string | AvPassword string | AvSubmit | AvLink string

text \<open>The fields keep their own text; the form reads them when it is sent. \<open>lu_sent\<close> are the requests under way.\<close>

record login_ui =
  lu_form :: auth_form
  lu_email :: string
  lu_password :: string
  lu_sent :: "(string \<times> string) list"
  lu_path :: string
  lu_app :: app

definition credential_fields :: "'e element list \<Rightarrow> string \<Rightarrow> string \<Rightarrow> (string \<Rightarrow> 'e) \<Rightarrow> (string \<Rightarrow> 'e) \<Rightarrow> 'e element list" where
  "credential_fields hint email password onEmail onPassword =
     [Words ''Email address'', TextInput ''email'' email False onEmail, Words ''Password''] @ hint @ [TextInput ''password'' password False onPassword]"

definition form_error_banner :: "string option \<Rightarrow> 'e element list" where
  "form_error_banner e = shown (truthy_str e) [Words (the e)]"

definition loginPage :: "AuthAppearance option \<Rightarrow> login_ui \<Rightarrow> auth_event element list" where
  "loginPage ap u =
     (let forgot = Option.bind ap aa_forgotPasswordHref in
      authShell AvLink ap True ''Welcome back'' ''Sign in to your Tracium workspace.''
        (Some (''New to Tracium?'', ''Create an account'', ''/signup''))
        [FormBox AvSubmit (
           credential_fields (shown (truthy_str forgot) [PressButton False ''Forgot password?'' (AvLink (the forgot))])
             (lu_email u) (lu_password u) AvEmail AvPassword
           @ form_error_banner (af_error (lu_form u))
           @ [SubmitButton (af_submitting (lu_form u)) (if af_submitting (lu_form u) then ''Signing in'' @ ellipsis else ''Sign in'')])])"

text \<open>The page is there at its path and without a session (\<open>App.tsx\<close>).\<close>

definition login_screen :: "AuthAppearance option \<Rightarrow> login_ui \<Rightarrow> auth_event element list" where
  "login_screen ap u = (if lu_path u = ''/login'' \<and> ap_token (lu_app u) = None then loginPage ap u else [])"

definition login_start :: "login_ui \<Rightarrow> login_ui" where
  "login_start u =
     (if lu_email u = [] \<or> lu_password u = [] then u\<lparr>lu_form := (lu_form u)\<lparr>af_error := jm_get errorMessages ''missing_fields''\<rparr>\<rparr>
      else u\<lparr>lu_form := (lu_form u)\<lparr>af_submitting := True, af_error := None\<rparr>, lu_sent := lu_sent u @ [(lu_email u, lu_password u)]\<rparr>)"

definition login_failed :: "api_error \<Rightarrow> auth_form \<Rightarrow> auth_form" where
  "login_failed e p = form_failed (requestErrorMessage (Some e) [(401, the (jm_get errorMessages ''invalid_credentials''))] None) p"

definition login_end :: "string \<Rightarrow> string \<Rightarrow> api_error + json \<Rightarrow> auth_form \<times> app \<Rightarrow> auth_form \<times> app" where
  "login_end denied email r = (\<lambda>(p, a).
     case r of
       Inl e \<Rightarrow> (login_failed e p, a)
     | Inr j \<Rightarrow> (case json_field j ''token'' of
           None \<Rightarrow> (login_failed BodyError p, a)
         | Some _ \<Rightarrow> (if br_ok (ap_browser a) then form_done p else login_failed (NetworkError denied) p, onLogin (body_token j) email a)))"

fun login_react :: "auth_event \<Rightarrow> login_ui \<Rightarrow> login_ui" where
  "login_react (AvEmail s) u = u\<lparr>lu_email := s\<rparr>"
| "login_react (AvPassword s) u = u\<lparr>lu_password := s\<rparr>"
| "login_react AvSubmit u = login_start u"
| "login_react (AvLink to) u = u\<lparr>lu_path := to\<rparr>"

inductive login_env :: "string \<Rightarrow> login_ui \<Rightarrow> login_ui \<Rightarrow> bool" for denied where
  login_answered: "lu_sent u = xs @ (e, p) # ys \<Longrightarrow> login_end denied e r (lu_form u, lu_app u) = (f, a) \<Longrightarrow>
     login_env denied u (u\<lparr>lu_form := f, lu_app := a, lu_sent := xs @ ys\<rparr>)"

definition login_opens :: "login_ui \<Rightarrow> bool" where
  "login_opens u \<longleftrightarrow> (\<exists>k. lu_form u = login_init k) \<and> lu_sent u = [] \<and> ap_token (lu_app u) = None"

text \<open>One request is under way exactly while the form says so, with both fields filled in.\<close>

definition login_inv :: "login_ui \<Rightarrow> bool" where
  "login_inv u \<longleftrightarrow> length (lu_sent u) = (if af_submitting (lu_form u) then 1 else 0) \<and> (\<forall>(e, p)\<in>set (lu_sent u). e \<noteq> [] \<and> p \<noteq> [])"

lemma auth_form_offers: "offers (form_error_banner e) = ([] :: 'e list)"
  "offers (credential_fields hint email password f g) = offers hint"
  "concat (map (submits False) (form_error_banner e)) = []"
  by (simp_all add: form_error_banner_def credential_fields_def shown_def)

lemma auth_form_inputs: "inputs (form_error_banner e) = ([] :: (string \<Rightarrow> 'e) list)"
  "inputs (credential_fields hint email password f g) = f # inputs hint @ [g]"
  by (simp_all add: form_error_banner_def credential_fields_def shown_def)

lemma loginPage_offers: "offers (loginPage ap u) = [AvLink ''/login'', AvLink ''/signup''] @ (if af_submitting (lu_form u) then [] else [AvSubmit]) @
    (if truthy_str (Option.bind ap aa_forgotPasswordHref) then [AvLink (the (Option.bind ap aa_forgotPasswordHref))] else []) @ [AvLink ''/signup'']"
proof -
  have "concat (map (submits False) (credential_fields hint email password f g)) = concat (map (submits False) hint)"
    for hint email password and f g :: "string \<Rightarrow> auth_event" by (simp add: credential_fields_def)
  then show ?thesis
    by (cases "truthy_str (Option.bind ap aa_forgotPasswordHref)")
      (simp_all add: loginPage_def Let_def authShell_offers auth_form_offers)
qed

lemma loginPage_inputs: "inputs (loginPage ap u) = [AvEmail, AvPassword]"
  by (cases "truthy_str (Option.bind ap aa_forgotPasswordHref)")
    (simp_all add: loginPage_def Let_def authShell_inputs auth_form_inputs)

lemma login_submit_offered: "AvSubmit \<in> set (offers (loginPage ap u)) \<longleftrightarrow> \<not> af_submitting (lu_form u)"
  unfolding loginPage_offers by simp

lemma screen_offers: "e \<in> set (offers (if b then es else [])) \<longleftrightarrow> b \<and> e \<in> set (offers es)"
  "f \<in> set (inputs (if b then es else [])) \<longleftrightarrow> b \<and> f \<in> set (inputs es)"
  by (cases b; simp)+

lemma login_halves:
  "lu_sent u = [] \<Longrightarrow> login_submit denied fetch base (lu_email u) (lu_password u) (lu_form u, lu_app u, sent) =
     (let v = login_start u in
      if lu_sent v = [] then (lu_form v, lu_app v, sent)
      else
        (let req = \<lparr>lr_email = lu_email u, lr_password = lu_password u, lr_extensions = None\<rparr>;
             (f, a) = login_end denied (lu_email u) (loginUser fetch base req) (lu_form v, lu_app v) in
         (f, a, sent @ [credentials_request base ''/v1/auth/login'' req])))"
  by (cases "lu_email u = [] \<or> lu_password u = []")
    (simp_all add: login_submit_def login_start_def login_end_def login_failed_def form_failed_def form_done_def Let_def split: sum.split option.split)

lemma login_end_form: "login_end denied e r (p, a) = (f, a') \<Longrightarrow> \<not> af_submitting f"
  by (auto simp: login_end_def login_failed_def form_failed_def form_done_def split: sum.splits option.splits if_splits)

interpretation signing_in: guarded_page login_opens "login_screen ap" login_react "login_env denied" login_inv
proof
  show "login_opens u \<Longrightarrow> login_inv u" for u by (auto simp: login_opens_def login_inv_def login_init_def)
next
  fix u e
  assume i: "login_inv u" and o: "e \<in> set (offers (login_screen ap u))"
  show "login_inv (login_react e u)"
  proof (cases e)
    case AvSubmit
    have "AvSubmit \<in> set (offers (loginPage ap u))" using o unfolding AvSubmit login_screen_def screen_offers by (rule conjunct2)
    then have "\<not> af_submitting (lu_form u)" unfolding login_submit_offered .
    then show ?thesis using i AvSubmit by (simp add: login_start_def login_inv_def)
  qed (use i in \<open>simp_all add: login_inv_def\<close>)
next
  fix u f t
  assume i: "login_inv u" and f: "f \<in> set (inputs (login_screen ap u))"
  then have "f = AvEmail \<or> f = AvPassword" unfolding login_screen_def screen_offers loginPage_inputs by auto
  then show "login_inv (login_react (f t) u)" using i by (auto simp: login_inv_def)
next
  show "login_inv u \<Longrightarrow> login_env denied u v \<Longrightarrow> login_inv v" for u v
    by (erule login_env.cases) (auto simp: login_inv_def append_eq_Cons_conv dest!: login_end_form split: if_splits)
qed

text \<open>Signing in is asked for once: at most one request is under way, with both fields filled in and while the button says so and is
  disabled; a failed attempt shows its message; and the two halves of a submission are the submission.\<close>

theorem login_requests_guarded:
  assumes "reach login_opens (page_step (login_screen ap) login_react (login_env denied)) u"
  shows "length (lu_sent u) \<le> 1 \<and> (lu_sent u \<noteq> [] \<longleftrightarrow> AvSubmit \<notin> set (offers (loginPage ap u))) \<and>
    (lu_sent u \<noteq> [] \<longrightarrow> fst (hd (lu_sent u)) \<noteq> [] \<and> snd (hd (lu_sent u)) \<noteq> []) \<and>
    (lu_sent u = [] \<longrightarrow> login_submit denied fetch base (lu_email u) (lu_password u) (lu_form u, lu_app u, sent) =
       (let v = login_start u in
        if lu_sent v = [] then (lu_form v, lu_app v, sent)
        else
          (let req = \<lparr>lr_email = lu_email u, lr_password = lu_password u, lr_extensions = None\<rparr>;
               (f, a) = login_end denied (lu_email u) (loginUser fetch base req) (lu_form v, lu_app v) in
           (f, a, sent @ [credentials_request base ''/v1/auth/login'' req]))))"
proof -
  have i: "login_inv u" using assms by (rule signing_in.pages.reach_inv)
  then have "length (lu_sent u) \<le> 1" "lu_sent u \<noteq> [] \<longleftrightarrow> AvSubmit \<notin> set (offers (loginPage ap u))"
    unfolding login_submit_offered by (auto simp: login_inv_def split: if_splits)
  moreover have "lu_sent u \<noteq> [] \<longrightarrow> fst (hd (lu_sent u)) \<noteq> [] \<and> snd (hd (lu_sent u)) \<noteq> []"
    using i by (cases "lu_sent u") (auto simp: login_inv_def)
  ultimately show ?thesis using login_halves by blast
qed

subsection \<open>Signing up (SignupPage.tsx)\<close>

record signup_ui =
  sg_form :: signup_form
  sg_email :: string
  sg_password :: string
  sg_sent :: "LoginRequest list"
  sg_path :: string
  sg_app :: app

definition signupPage :: "AuthAppearance option \<Rightarrow> signup_ui \<Rightarrow> auth_event element list" where
  "signupPage ap u =
     (if truthy_str (sf_pendingEmail (sg_form u)) then
        authShell AvLink ap True ''Confirm your email'' ''Your account is almost ready.'' (Some (''Already confirmed?'', ''Sign in'', ''/login''))
          [Words (''We sent a confirmation link to '' @ the (sf_pendingEmail (sg_form u)) @
             ''. Open it to activate your account, then come back to sign in.''),
           Words ''The link expires in 24 hours. If it isn't in your inbox, check your spam folder.'']
      else
        authShell AvLink ap True ''Start tracing'' ''Free and open source. Self-host in minutes. No limits, no lock-in.''
          (Some (''Already have an account?'', ''Sign in'', ''/login''))
          [FormBox AvSubmit (
             credential_fields [Words ''8+ characters''] (sg_email u) (sg_password u) AvEmail AvPassword
             @ form_error_banner (af_error (sg_form u))
             @ [SubmitButton (af_submitting (sg_form u))
                  (if af_submitting (sg_form u) then ''Creating account'' @ ellipsis else ''Create free account'')])])"

definition signup_screen :: "AuthAppearance option \<Rightarrow> signup_ui \<Rightarrow> auth_event element list" where
  "signup_screen ap u = (if sg_path u = ''/signup'' \<and> ap_token (sg_app u) = None then signupPage ap u else [])"

definition signup_start :: "signup_ui \<Rightarrow> signup_ui" where
  "signup_start u =
     (if sg_email u = [] \<or> sg_password u = []
      then u\<lparr>sg_form := (sg_form u)\<lparr>af_error := Some ''Please provide both your email and password to continue.''\<rparr>\<rparr>
      else u\<lparr>sg_form := (sg_form u)\<lparr>af_submitting := True, af_error := None\<rparr>,
             sg_sent := sg_sent u @ [\<lparr>lr_email = sg_email u, lr_password = sg_password u,
               lr_extensions = (if sf_extra (sg_form u) = [] then None else Some (sf_extra (sg_form u)))\<rparr>]\<rparr>)"

definition signup_failed :: "api_error \<Rightarrow> signup_form \<Rightarrow> signup_form" where
  "signup_failed e p = p\<lparr>sf_attempt := sf_attempt p + 1, af_submitting := False,
     af_error := Some (requestErrorMessage (Some e) [(409, ''An account with that email already exists. Try signing in instead.'')] None)\<rparr>"

definition signup_end :: "string \<Rightarrow> string \<Rightarrow> api_error + RegisterResult \<Rightarrow> signup_form \<times> app \<Rightarrow> signup_form \<times> app" where
  "signup_end denied email r = (\<lambda>(p, a).
     case r of
       Inl e \<Rightarrow> (signup_failed e p, a)
     | Inr res \<Rightarrow>
         (case (if rg_confirmationRequired res then None else rg_token res) of
            Some (JStr (c # t)) \<Rightarrow>
              (if br_ok (ap_browser a) then p\<lparr>af_submitting := False\<rparr> else signup_failed (NetworkError denied) p, handleLogin (c # t) email a)
          | _ \<Rightarrow> (p\<lparr>af_submitting := False, sf_pendingEmail := Some email\<rparr>, a)))"

fun signup_react :: "auth_event \<Rightarrow> signup_ui \<Rightarrow> signup_ui" where
  "signup_react (AvEmail s) u = u\<lparr>sg_email := s\<rparr>"
| "signup_react (AvPassword s) u = u\<lparr>sg_password := s\<rparr>"
| "signup_react AvSubmit u = signup_start u"
| "signup_react (AvLink to) u = u\<lparr>sg_path := to\<rparr>"

inductive signup_env :: "string \<Rightarrow> signup_ui \<Rightarrow> signup_ui \<Rightarrow> bool" for denied where
  signup_answered: "sg_sent u = xs @ q # ys \<Longrightarrow> signup_end denied (lr_email q) r (sg_form u, sg_app u) = (f, a) \<Longrightarrow>
     signup_env denied u (u\<lparr>sg_form := f, sg_app := a, sg_sent := xs @ ys\<rparr>)"
| extra_changed: "signup_env denied u (u\<lparr>sg_form := (sg_form u)\<lparr>sf_extra := x\<rparr>\<rparr>)"

definition signup_opens :: "signup_ui \<Rightarrow> bool" where
  "signup_opens u \<longleftrightarrow> sg_form u = signup_init \<and> sg_sent u = [] \<and> ap_token (sg_app u) = None"

definition signup_inv :: "signup_ui \<Rightarrow> bool" where
  "signup_inv u \<longleftrightarrow> length (sg_sent u) = (if af_submitting (sg_form u) then 1 else 0) \<and>
     (\<forall>q\<in>set (sg_sent u). lr_email q \<noteq> [] \<and> lr_password q \<noteq> []) \<and>
     (sg_sent u \<noteq> [] \<longrightarrow> sf_pendingEmail (sg_form u) = None \<and> ap_token (sg_app u) = None) \<and>
     (sf_pendingEmail (sg_form u) \<noteq> None \<longrightarrow> truthy_str (sf_pendingEmail (sg_form u)) \<and> ap_token (sg_app u) = None)"

lemma signupPage_offers: "offers (signupPage ap u) = [AvLink ''/login'', AvLink ''/signup''] @
    (if truthy_str (sf_pendingEmail (sg_form u)) \<or> af_submitting (sg_form u) then [] else [AvSubmit]) @ [AvLink ''/login'']"
proof -
  have "concat (map (submits False) (credential_fields hint email password f g)) = concat (map (submits False) hint)"
    for hint email password and f g :: "string \<Rightarrow> auth_event" by (simp add: credential_fields_def)
  then show ?thesis
    by (cases "truthy_str (sf_pendingEmail (sg_form u))") (simp_all add: signupPage_def authShell_offers auth_form_offers)
qed

lemma signupPage_inputs: "inputs (signupPage ap u) = (if truthy_str (sf_pendingEmail (sg_form u)) then [] else [AvEmail, AvPassword])"
  by (cases "truthy_str (sf_pendingEmail (sg_form u))") (simp_all add: signupPage_def authShell_inputs auth_form_inputs)

lemma signup_offers:
  "e \<in> set (offers (signupPage ap u)) \<longleftrightarrow> e \<in> {AvLink ''/login'', AvLink ''/signup''} \<or>
     (e = AvSubmit \<and> \<not> truthy_str (sf_pendingEmail (sg_form u)) \<and> \<not> af_submitting (sg_form u))"
  unfolding signupPage_offers by auto

lemma signup_end_cases:
  assumes "signup_end denied email r (p, a) = (f, a')"
  shows "\<not> af_submitting f" "sf_pendingEmail f = sf_pendingEmail p \<or> (sf_pendingEmail f = Some email \<and> a' = a)"
  using assms
  by (auto simp: signup_end_def signup_failed_def split: sum.splits option.splits if_splits json.splits list.splits)

interpretation signing_up: guarded_page signup_opens "signup_screen ap" signup_react "signup_env denied" signup_inv
proof
  show "signup_opens u \<Longrightarrow> signup_inv u" for u by (simp add: signup_opens_def signup_inv_def signup_init_def)
next
  fix u e
  assume i: "signup_inv u" and o: "e \<in> set (offers (signup_screen ap u))"
  have t: "ap_token (sg_app u) = None" "e \<in> set (offers (signupPage ap u))" using o unfolding signup_screen_def screen_offers by simp_all
  show "signup_inv (signup_react e u)"
  proof (cases e)
    case AvSubmit
    then have "\<not> truthy_str (sf_pendingEmail (sg_form u))" "\<not> af_submitting (sg_form u)" using t(2) unfolding signup_offers by simp_all
    then show ?thesis using i AvSubmit t(1) by (auto simp: signup_start_def signup_inv_def)
  qed (use i in \<open>simp_all add: signup_inv_def\<close>)
next
  fix u f t
  assume i: "signup_inv u" and f: "f \<in> set (inputs (signup_screen ap u))"
  then have "f = AvEmail \<or> f = AvPassword" unfolding signup_screen_def screen_offers signupPage_inputs by (auto split: if_splits)
  then show "signup_inv (signup_react (f t) u)" using i by (auto simp: signup_inv_def)
next
  show "signup_inv u \<Longrightarrow> signup_env denied u v \<Longrightarrow> signup_inv v" for u v
  proof (erule signup_env.cases)
    fix w xs q ys r f a
    assume i: "signup_inv u" and w: "u = w" "v = w\<lparr>sg_form := f, sg_app := a, sg_sent := xs @ ys\<rparr>" "sg_sent w = xs @ q # ys"
      and e: "signup_end denied (lr_email q) r (sg_form w, sg_app w) = (f, a)"
    have "xs = []" "ys = []" "lr_email q \<noteq> []" "sf_pendingEmail (sg_form w) = None" "ap_token (sg_app w) = None"
      using i w by (auto simp: signup_inv_def append_eq_Cons_conv split: if_splits)
    then show ?thesis using w(2) signup_end_cases [OF e] by (auto simp: signup_inv_def truthy_str_def)
  qed (auto simp: signup_inv_def)
qed

text \<open>An account is asked for once, and an account that awaits its confirmation ends the form: the page then names the address, offers only
  links, and no request is under way.\<close>

theorem signup_requests_guarded:
  assumes "reach signup_opens (page_step (signup_screen ap) signup_react (signup_env denied)) u"
  shows "length (sg_sent u) \<le> 1 \<and> (sg_sent u \<noteq> [] \<longrightarrow> AvSubmit \<notin> set (offers (signup_screen ap u))) \<and>
    (sf_pendingEmail (sg_form u) = Some e \<and> sg_path u = ''/signup'' \<longrightarrow>
       sg_sent u = [] \<and> set (offers (signup_screen ap u)) = {AvLink ''/login'', AvLink ''/signup''} \<and>
       ''We sent a confirmation link to '' @ e @ ''. Open it to activate your account, then come back to sign in.''
         \<in> set (page_texts (signup_screen ap u)))"
proof -
  have i: "signup_inv u" using assms by (rule signing_up.pages.reach_inv)
  then have "length (sg_sent u) \<le> 1" by (simp add: signup_inv_def)
  moreover have "AvSubmit \<notin> set (offers (signup_screen ap u))" if "sg_sent u \<noteq> []"
  proof -
    have "af_submitting (sg_form u)" using i that by (auto simp: signup_inv_def split: if_splits)
    then have "AvSubmit \<notin> set (offers (signupPage ap u))" unfolding signup_offers by simp
    then show ?thesis unfolding signup_screen_def screen_offers by blast
  qed
  moreover have "sg_sent u = [] \<and> set (offers (signup_screen ap u)) = {AvLink ''/login'', AvLink ''/signup''} \<and>
      ''We sent a confirmation link to '' @ e @ ''. Open it to activate your account, then come back to sign in.''
        \<in> set (page_texts (signup_screen ap u))" if p: "sf_pendingEmail (sg_form u) = Some e" "sg_path u = ''/signup''"
  proof -
    have s: "truthy_str (sf_pendingEmail (sg_form u))" "ap_token (sg_app u) = None" "sg_sent u = []" using i p by (auto simp: signup_inv_def)
    then have v: "signup_screen ap u = signupPage ap u" using p by (simp add: signup_screen_def)
    have "set (offers (signupPage ap u)) = {AvLink ''/login'', AvLink ''/signup''}" using s(1) signup_offers [of _ ap u] by blast
    moreover have "''We sent a confirmation link to '' @ e @ ''. Open it to activate your account, then come back to sign in.''
        \<in> set (page_texts (signupPage ap u))" using s(1) p(1) by (simp add: signupPage_def authShell_def)
    ultimately show ?thesis using s(3) unfolding v by blast
  qed
  ultimately show ?thesis by blast
qed

subsection \<open>Invites (InvitePage.tsx)\<close>

datatype invite_event = IvAccept | IvDismiss | IvSignOut | IvLink string

text \<open>\<open>iu_accepts\<close> counts the acceptances under way; \<open>iu_gone\<close> holds once the visitor has left the page.\<close>

record invite_ui =
  iu_page :: invite_page
  iu_accepts :: nat
  iu_gone :: bool
  iu_path :: string
  iu_app :: app

definition authButton :: "(string \<Rightarrow> 'e) \<Rightarrow> string option \<Rightarrow> string \<Rightarrow> 'e \<Rightarrow> 'e element" where
  "authButton link href label onClick =
     (case href of Some (c # to) \<Rightarrow> PressButton False label (link (c # to)) | _ \<Rightarrow> PressButton False label onClick)"

definition dismiss_button :: "(string \<times> string) option \<Rightarrow> invite_event element" where
  "dismiss_button session = authButton IvLink None (if session \<noteq> None then ''Go to dashboard'' else ''Dismiss'') IvDismiss"

definition expires_note :: "host \<Rightarrow> InvitePreview \<Rightarrow> string" where
  "expires_note h i = ''This invite expires on '' @ formatDate h (ip_expires_at i) @ ''.''"

definition invite_body :: "host \<Rightarrow> (string \<Rightarrow> string) \<Rightarrow> (string \<times> string) option \<Rightarrow> invite_page \<Rightarrow> InvitePreview \<Rightarrow> invite_event element list" where
  "invite_body h lower session p i =
     (case session of
        None \<Rightarrow>
          [Words (''Sign in or create an account with '' @ ip_email i @ '' to accept. You'' @ apostrophe @ ''ll come back here afterwards.''),
           Words (expires_note h i), authButton IvLink (Some ''/login'') ''Sign in'' IvAccept,
           authButton IvLink (Some ''/signup'') ''Create account'' IvAccept]
      | Some (_, email) \<Rightarrow>
          if lower email \<noteq> lower (ip_email i) then
            [AlertText (''You'' @ apostrophe @ ''re signed in as '' @ email @ '', but this invite is for '' @ ip_email i @
               ''. Sign out and sign in with that address to accept.''),
             authButton IvLink None ''Sign out'' IvSignOut, dismiss_button session]
          else
            [Words (''You'' @ apostrophe @ ''ll join '' @ ip_workspace_name i @ '' as a member and see its traces, usage and API keys.''),
             Words (expires_note h i)]
            @ shown (truthy_str (iv_acceptError p)) [AlertText (the (iv_acceptError p))]
            @ [PressButton (iv_accepting p) (if iv_accepting p then ''Joining'' @ ellipsis else ''Accept invite'') IvAccept, dismiss_button session])"

definition invitePage ::
  "host \<Rightarrow> (string \<Rightarrow> string) \<Rightarrow> AuthAppearance option \<Rightarrow> (string \<times> string) option \<Rightarrow> invite_page \<Rightarrow> invite_event element list" where
  "invitePage h lower ap session p =
     (case iv_load p of
        Loading \<Rightarrow> authShell IvLink ap False ''Workspace invite'' (''Loading invite'' @ ellipsis) None
          [StatusBox [Words (''Checking your invite link'' @ ellipsis)]]
      | LoadFailed m \<Rightarrow> authShell IvLink ap False ''Workspace invite'' (''This invite can'' @ apostrophe @ ''t be used.'') None
          [AlertText m, dismiss_button session]
      | Ready i \<Rightarrow> authShell IvLink ap False (''Join '' @ ip_workspace_name i) (invite_subtitle i) None (invite_body h lower session p i))"

definition invite_screen_of ::
  "host \<Rightarrow> (string \<Rightarrow> string) \<Rightarrow> AuthAppearance option \<Rightarrow> (string \<times> string) option \<Rightarrow> invite_ui \<Rightarrow> invite_event element list" where
  "invite_screen_of h lower ap session u = (if iu_gone u then [] else invitePage h lower ap session (iu_page u))"

definition accept_start :: "(string \<times> string) option \<Rightarrow> invite_ui \<Rightarrow> invite_ui" where
  "accept_start session u =
     (if session = None \<or> iv_accepting (iu_page u) then u
      else u\<lparr>iu_page := (iu_page u)\<lparr>iv_accepting := True, iv_acceptError := None\<rparr>, iu_accepts := iu_accepts u + 1\<rparr>)"

text \<open>The answer to an acceptance: the page follows to the dashboard, or says why not.\<close>

definition accept_end :: "api_error + json option \<Rightarrow> invite_page \<times> app \<times> string \<Rightarrow> invite_page \<times> app \<times> string" where
  "accept_end r = (\<lambda>(p, a, path).
     (let failed = (\<lambda>e. (p\<lparr>iv_accepting := False, iv_acceptError := Some (accept_message e)\<rparr>, a, path)) in
      case r of
        Inl e \<Rightarrow> failed e
      | Inr j \<Rightarrow>
          (case body_workspace j of
             None \<Rightarrow> failed BodyError
           | Some w \<Rightarrow>
               (p\<lparr>iv_accepting := False,
                  iv_acceptError := (if br_ok (ap_browser a) then None else Some (accept_message (NetworkError [])))\<rparr>,
                handleInviteAccepted w a, ''/''))))"

fun invite_react :: "string \<Rightarrow> (string \<times> string) option \<Rightarrow> invite_event \<Rightarrow> invite_ui \<Rightarrow> invite_ui" where
  "invite_react token session IvAccept u = accept_start session u"
| "invite_react token session IvDismiss u =
     (let (a, path) = invite_dismiss (session \<noteq> None) (iu_app u) in u\<lparr>iu_app := a, iu_path := path, iu_gone := True\<rparr>)"
| "invite_react token session IvSignOut u =
     (let (a, path) = invite_signOut token (iu_app u) in u\<lparr>iu_app := a, iu_path := path, iu_gone := True\<rparr>)"
| "invite_react token session (IvLink to) u = u\<lparr>iu_path := to, iu_gone := True\<rparr>"

inductive invite_env :: "invite_ui \<Rightarrow> invite_ui \<Rightarrow> bool" where
  invite_previewed: "iv_load (iu_page u) = Loading \<Longrightarrow> invite_env u (u\<lparr>iu_page := invite_loaded (iu_gone u) r (iu_page u)\<rparr>)"
| invite_answered: "iu_accepts u = Suc n \<Longrightarrow> accept_end r (iu_page u, iu_app u, iu_path u) = (p, a, path) \<Longrightarrow>
     invite_env u (u\<lparr>iu_page := p, iu_app := a, iu_path := path, iu_accepts := n, iu_gone := (iu_gone u \<or> ap_invite a = None)\<rparr>)"

definition invite_opens :: "invite_ui \<Rightarrow> bool" where
  "invite_opens u \<longleftrightarrow> iu_page u = invite_init \<and> iu_accepts u = 0"

definition invite_inv :: "(string \<Rightarrow> string) \<Rightarrow> (string \<times> string) option \<Rightarrow> invite_ui \<Rightarrow> bool" where
  "invite_inv lower session u \<longleftrightarrow> iu_accepts u = (if iv_accepting (iu_page u) then 1 else 0) \<and>
     (iv_accepting (iu_page u) \<longrightarrow> (\<exists>i t e. iv_load (iu_page u) = Ready i \<and> session = Some (t, e) \<and> lower e = lower (ip_email i)))"

definition invite_offer :: "(string \<Rightarrow> string) \<Rightarrow> (string \<times> string) option \<Rightarrow> invite_page \<Rightarrow> invite_event list" where
  "invite_offer lower session p =
     (case iv_load p of
        Loading \<Rightarrow> []
      | LoadFailed m \<Rightarrow> [IvDismiss]
      | Ready i \<Rightarrow>
          (case session of
             None \<Rightarrow> [IvLink ''/login'', IvLink ''/signup'']
           | Some (t, e) \<Rightarrow> if lower e \<noteq> lower (ip_email i) then [IvSignOut, IvDismiss]
               else (if iv_accepting p then [] else [IvAccept]) @ [IvDismiss]))"

lemma invite_offers: "offers (invitePage h lower ap session p) = invite_offer lower session p"
  by (cases "iv_load p"; cases session)
    (auto simp: invitePage_def invite_offer_def authShell_offers invite_body_def dismiss_button_def authButton_def)

lemma invite_inputs: "inputs (invitePage h lower ap session p) = []"
  by (cases "iv_load p"; cases session)
    (auto simp: invitePage_def authShell_inputs invite_body_def dismiss_button_def authButton_def shown_def split: if_splits)

text \<open>The two halves of an acceptance are the acceptance; a client that cannot be made is a failed answer.\<close>

lemma accept_halves:
  assumes "session = Some (tok, email)" "\<not> iv_accepting (iu_page u)"
  shows "accept fetch base token session (iu_page u, iu_app u, iu_path u) =
    accept_end (case new_client \<lparr>cfg_baseUrl = base, cfg_apiKey = tok, cfg_timeoutMs = None, cfg_workspaceId = None\<rparr> of
        Inl e \<Rightarrow> Inl e | Inr c \<Rightarrow> request fetch (workspaces_acceptInvite c token))
      (iu_page (accept_start session u), iu_app u, iu_path u)"
  using assms by (simp add: accept_def accept_end_def accept_start_def Let_def split: sum.split option.split)

interpretation invite_pages: guarded_page invite_opens "invite_screen_of h lower ap session" "invite_react token session" invite_env "invite_inv lower session"
proof
  show "invite_opens u \<Longrightarrow> invite_inv lower session u" for u by (simp add: invite_opens_def invite_inv_def invite_init_def)
next
  fix u e
  assume i: "invite_inv lower session u" and o: "e \<in> set (offers (invite_screen_of h lower ap session u))"
  have o': "e \<in> set (invite_offer lower session (iu_page u))"
    using o unfolding invite_screen_of_def by (cases "iu_gone u") (simp_all only: if_True if_False invite_offers, simp)
  show "invite_inv lower session (invite_react token session e u)"
    using i o' by (cases e) (auto simp: invite_inv_def accept_start_def invite_offer_def case_prod_beta split: Load.splits option.splits if_splits)
next
  show "invite_inv lower session u \<Longrightarrow> f \<in> set (inputs (invite_screen_of h lower ap session u)) \<Longrightarrow>
      invite_inv lower session (invite_react token session (f t) u)" for u f t
    unfolding invite_screen_of_def by (cases "iu_gone u") (simp_all only: if_True if_False invite_inputs, simp_all)
next
  show "invite_inv lower session u \<Longrightarrow> invite_env u v \<Longrightarrow> invite_inv lower session v" for u v
    by (erule invite_env.cases)
      (auto simp: invite_inv_def invite_loaded_def accept_end_def Let_def split: if_splits sum.splits option.splits)
qed

text \<open>C26. An invite is accepted only by the visitor it is for. While the page is there, acceptance is offered exactly when the invite is loaded,
  the session has its address (compared without case) and no acceptance is under way, and pressing it sends one; signing out is offered exactly to
  the wrong account, and leads, when the storage works, back to the invite without the session; a visitor without a session is offered exactly
  the two ways to get one; and whoever has a session can always leave a page that is not loading.\<close>

theorem invite_accept_guarded:
  assumes "reach invite_opens (page_step (invite_screen_of h lower ap session) (invite_react token session) invite_env) u"
    and "\<not> iu_gone u"
  defines "offered \<equiv> set (offers (invite_screen_of h lower ap session u))"
  shows "iu_accepts u \<le> 1 \<and>
    (IvAccept \<in> offered \<longleftrightarrow> iu_accepts u = 0 \<and>
       (\<exists>i t e. iv_load (iu_page u) = Ready i \<and> session = Some (t, e) \<and> lower e = lower (ip_email i))) \<and>
    (IvAccept \<in> offered \<longrightarrow> iu_accepts (invite_react token session IvAccept u) = 1) \<and>
    (IvSignOut \<in> offered \<longleftrightarrow>
       (\<exists>i t e. iv_load (iu_page u) = Ready i \<and> session = Some (t, e) \<and> lower e \<noteq> lower (ip_email i))) \<and>
    (br_ok (ap_browser (iu_app u)) \<longrightarrow> (let v = invite_react token session IvSignOut u in
       ap_token (iu_app v) = None \<and> ap_invite (iu_app v) = ap_invite (iu_app u) \<and> iu_path v = ''/invite/'' @ encodeURIComponent token)) \<and>
    (session = None \<and> (\<exists>i. iv_load (iu_page u) = Ready i) \<longrightarrow> offered = {IvLink ''/login'', IvLink ''/signup''}) \<and>
    (session \<noteq> None \<and> iv_load (iu_page u) \<noteq> Loading \<longrightarrow> IvDismiss \<in> offered)"
proof -
  have i: "invite_inv lower session u" using assms(1) by (rule invite_pages.pages.reach_inv)
  have v: "offered = set (invite_offer lower session (iu_page u))"
    using assms(2) unfolding offered_def invite_screen_of_def by (simp only: if_False invite_offers)
  have out: "br_ok (ap_browser (iu_app u)) \<longrightarrow> (let w = invite_react token session IvSignOut u in
      ap_token (iu_app w) = None \<and> ap_invite (iu_app w) = ap_invite (iu_app u) \<and> iu_path w = ''/invite/'' @ encodeURIComponent token)"
    by (simp add: invite_signOut_def handlers_ok)
  note off = v invite_offer_def
  have "iu_accepts u \<le> 1" using i by (simp add: invite_inv_def)
  moreover have "IvAccept \<in> offered \<longleftrightarrow> iu_accepts u = 0 \<and>
       (\<exists>i t e. iv_load (iu_page u) = Ready i \<and> session = Some (t, e) \<and> lower e = lower (ip_email i))"
    using i by (auto simp: off invite_inv_def split: Load.splits option.splits if_splits)
  moreover have "IvAccept \<in> offered \<longrightarrow> iu_accepts (invite_react token session IvAccept u) = 1"
    using i by (auto simp: off invite_inv_def accept_start_def split: Load.splits option.splits if_splits)
  moreover have "IvSignOut \<in> offered \<longleftrightarrow>
       (\<exists>i t e. iv_load (iu_page u) = Ready i \<and> session = Some (t, e) \<and> lower e \<noteq> lower (ip_email i))"
    by (auto simp: off split: Load.splits option.splits if_splits)
  moreover have "session = None \<and> (\<exists>i. iv_load (iu_page u) = Ready i) \<longrightarrow> offered = {IvLink ''/login'', IvLink ''/signup''}"
    by (auto simp: off)
  moreover have "session \<noteq> None \<and> iv_load (iu_page u) \<noteq> Loading \<longrightarrow> IvDismiss \<in> offered"
    by (auto simp: off split: Load.splits)
  ultimately show ?thesis using out by (intro conjI)
qed

subsection \<open>Examples\<close>

definition login_opened :: login_ui where
  "login_opened = \<lparr>lu_form = login_init None, lu_email = [], lu_password = [], lu_sent = [], lu_path = ''/login'', lu_app = fresh_app\<rparr>"

theorem login_requests_guarded_witness:
  "lu_sent (login_react AvSubmit (login_react (AvPassword ''pw'') (login_react (AvEmail ''a@b'') login_opened))) = [(''a@b'', ''pw'')] \<and>
   fst (hd (lu_sent (login_react AvSubmit (login_react (AvPassword ''pw'') (login_react (AvEmail ''a@b'') login_opened))))) \<noteq> []"
proof -
  let ?reach = "reach login_opens (page_step (login_screen None) login_react (login_env []))"
  let ?u1 = "login_react (AvEmail ''a@b'') login_opened" and ?u2 = "login_react (AvPassword ''pw'') (login_react (AvEmail ''a@b'') login_opened)"
  have screen: "login_screen None u = loginPage None u" if "lu_path u = ''/login''" "lu_app u = fresh_app" for u
    using that by (simp add: login_screen_def fresh_app_def)
  have "login_opens login_opened" unfolding login_opens_def login_opened_def by (intro conjI exI [of _ None]) (simp_all add: fresh_app_def)
  then have r0: "?reach login_opened" by (rule reach_init)
  have r1: "?reach ?u1" by (rule reach_type [OF r0], subst screen) (simp_all add: login_opened_def loginPage_inputs del: set_concat)
  have r2: "?reach ?u2" by (rule reach_type [OF r1], subst screen) (simp_all add: login_opened_def loginPage_inputs del: set_concat)
  have "AvSubmit \<in> set (offers (login_screen None ?u2))"
    by (subst screen) (simp_all add: login_opened_def loginPage_offers login_init_def truthy_str_def del: set_concat)
  then have "?reach (login_react AvSubmit ?u2)" by (intro reach_press [where view = "login_screen None" and e = AvSubmit, OF r2])
  moreover have s: "lu_sent (login_react AvSubmit ?u2) = [(''a@b'', ''pw'')]" by (simp add: login_start_def login_opened_def)
  ultimately show ?thesis using login_requests_guarded [of None "[]" "login_react AvSubmit ?u2"] unfolding s by blast
qed

definition signup_opened :: signup_ui where
  "signup_opened = \<lparr>sg_form = signup_init, sg_email = [], sg_password = [], sg_sent = [], sg_path = ''/signup'', sg_app = fresh_app\<rparr>"

definition signup_confirming :: signup_ui where
  "signup_confirming =
     (let u = signup_react AvSubmit (signup_react (AvPassword ''password'') (signup_react (AvEmail ''a@b'') signup_opened)) in
      u\<lparr>sg_form := fst (signup_end [] ''a@b'' (Inr \<lparr>rg_token = None, rg_confirmationRequired = True\<rparr>) (sg_form u, sg_app u)), sg_sent := []\<rparr>)"

theorem signup_requests_guarded_witness: "set (offers (signup_screen None signup_confirming)) = {AvLink ''/login'', AvLink ''/signup''}"
proof -
  let ?reach = "reach signup_opens (page_step (signup_screen None) signup_react (signup_env []))"
  let ?u1 = "signup_react (AvEmail ''a@b'') signup_opened"
  let ?u2 = "signup_react (AvPassword ''password'') ?u1"
  let ?u3 = "signup_react AvSubmit ?u2"
  note ev = signup_opened_def signup_init_def truthy_str_def
  have screen: "signup_screen None u = signupPage None u" if "sg_path u = ''/signup''" "sg_app u = fresh_app" for u
    using that by (simp add: signup_screen_def fresh_app_def)
  have "signup_opens signup_opened" by (simp add: signup_opens_def signup_opened_def fresh_app_def)
  then have r0: "?reach signup_opened" by (rule reach_init)
  have r1: "?reach ?u1" by (rule reach_type [OF r0], subst screen) (simp_all add: ev signupPage_inputs del: set_concat)
  have r2: "?reach ?u2" by (rule reach_type [OF r1], subst screen) (simp_all add: ev signupPage_inputs del: set_concat)
  have "AvSubmit \<in> set (offers (signup_screen None ?u2))" by (subst screen) (simp_all add: ev signupPage_offers del: set_concat)
  then have r3: "?reach ?u3" by (intro reach_press [where view = "signup_screen None" and e = AvSubmit, OF r2])
  have "signup_env [] ?u3 (?u3\<lparr>sg_form := fst (signup_end [] ''a@b'' (Inr \<lparr>rg_token = None, rg_confirmationRequired = True\<rparr>) (sg_form ?u3, sg_app ?u3)),
      sg_app := sg_app ?u3, sg_sent := [] @ []\<rparr>)"
    by (rule signup_answered [where q = "\<lparr>lr_email = ''a@b'', lr_password = ''password'', lr_extensions = None\<rparr>" and r = "Inr \<lparr>rg_token = None, rg_confirmationRequired = True\<rparr>"])
      (simp_all add: ev signup_start_def signup_end_def)
  then have "signup_env [] ?u3 signup_confirming" by (simp add: signup_confirming_def Let_def)
  then have "?reach signup_confirming" by (intro reach_step [OF r3] surroundings)
  from signup_requests_guarded [OF this, of "''a@b''"] show ?thesis
    by (simp add: signup_confirming_def Let_def ev signup_start_def signup_end_def del: set_concat)
qed

definition sample_invite :: InvitePreview where
  "sample_invite = \<lparr>ip_workspace_name = ''acme'', ip_invited_by_email = ''o@b'', ip_email = ''a@b'', ip_expires_at = ''t''\<rparr>"

definition invite_ready :: invite_ui where
  "invite_ready = \<lparr>iu_page = invite_init\<lparr>iv_load := Ready sample_invite\<rparr>, iu_accepts = 0, iu_gone = False, iu_path = ''/invite/i'', iu_app = fresh_app\<rparr>"

theorem invite_accept_guarded_witness:
  "(\<forall>h. IvAccept \<in> set (offers (invite_screen_of h to_lower None (Some (''t'', ''A@b'')) invite_ready))) \<and>
   iu_accepts (invite_react ''i'' (Some (''t'', ''A@b'')) IvAccept invite_ready) = 1"
proof -
  let ?s = "Some (''t'', ''A@b'')" and ?u0 = "invite_ready\<lparr>iu_page := invite_init\<rparr>"
  let ?reach = "\<lambda>h. reach invite_opens (page_step (invite_screen_of h to_lower None ?s) (invite_react ''i'' ?s) invite_env)"
  have "IvAccept \<in> set (offers (invite_screen_of h to_lower None ?s invite_ready)) \<and>
      iu_accepts (invite_react ''i'' ?s IvAccept invite_ready) = 1" for h
  proof -
    have r0: "?reach h ?u0" by (rule reach_init) (simp add: invite_opens_def invite_ready_def)
    have "invite_env ?u0 (?u0\<lparr>iu_page := invite_loaded (iu_gone ?u0) (Inr sample_invite) (iu_page ?u0)\<rparr>)"
      by (rule invite_previewed) (simp add: invite_init_def)
    also have "?u0\<lparr>iu_page := invite_loaded (iu_gone ?u0) (Inr sample_invite) (iu_page ?u0)\<rparr> = invite_ready"
      by (simp add: invite_loaded_def invite_ready_def)
    finally have r1: "?reach h invite_ready" by (intro reach_step [OF r0] surroundings)
    have e: "\<not> iu_gone invite_ready" "iu_accepts invite_ready = 0" "iv_load (iu_page invite_ready) = Ready sample_invite"
      "to_lower ''A@b'' = to_lower (ip_email sample_invite)" by (simp_all add: invite_ready_def sample_invite_def to_lower_def, code_simp)
    note g = invite_accept_guarded [OF r1 e(1), THEN conjunct2]
    have "IvAccept \<in> set (offers (invite_screen_of h to_lower None ?s invite_ready))" using e by (intro g [THEN conjunct1, THEN iffD2]) blast
    then show ?thesis using g [THEN conjunct2, THEN conjunct1] by (intro conjI) (assumption, rule mp)
  qed
  then show ?thesis by blast
qed

end
