(* ===== verification/Usage_View.thy ===== *)
theory Usage_View
  imports Workflow_View
begin

text \<open>
  The pages of usage and of the clients as what they show and offer: the breakdown of costs with its tabs
  (\<open>modules/usage/components/Breakdown.tsx\<close>), \<open>UsageLivePage.tsx\<close> and its preview \<open>UsagePage.tsx\<close>, the list of clients (\<open>UsersPage.tsx\<close>)
  and the page of one client (\<open>UserDetailLivePage.tsx\<close>, in the preview \<open>UserDetailPage.tsx\<close>). Each is composed with the dashboard.
\<close>

subsection \<open>Shared parts (Section.tsx, KpiStrip.tsx, Panel.tsx)\<close>

definition section_view :: "bool \<Rightarrow> bool \<Rightarrow> 'e element list \<Rightarrow> 'e element list" where
  "section_view isLoading isError es = (if isLoading then [] else if isError then [Words ''Failed to load''] else es)"

lemma section_offers: "e \<in> set (offers (section_view l f es)) \<longleftrightarrow> \<not> l \<and> \<not> f \<and> e \<in> set (offers es)"
  by (simp add: section_view_def)

definition kpi_words :: "kpi_tile \<Rightarrow> 'e element list" where
  "kpi_words t =
     [Words (kt_label t), Words (kt_value t)]
     @ (case kt_delta t of None \<Rightarrow> [] | Some d \<Rightarrow> [Words (dv_text d)]) @ (case kt_hint t of None \<Rightarrow> [] | Some s \<Rightarrow> [Words s])"

definition strip_words :: "bool \<Rightarrow> KpiItem list \<Rightarrow> 'e element list" where
  "strip_words narrow items = concat (map kpi_words (kpiStrip narrow items))"

definition model_words :: "model_row \<Rightarrow> 'e element list" where
  "model_words r = map Words ([mr_name r, mr_cost r, mr_pctText r] @ mr_meta r)"

definition mix_words :: "token_mix \<Rightarrow> 'e element list" where
  "mix_words m = concat (map (\<lambda>(k, v). [Words k, Words v]) (tm_rows m))"

lemma all_words: "(\<And>e. e \<in> set es \<Longrightarrow> \<exists>w. e = Words w \<or> e = ChartBox w \<or> (\<exists>t. e = SectionTitle w t)) \<Longrightarrow> offers es = []"
  by (induction es) fastforce+

lemma words_offers [simp]:
  "offers (strip_words narrow items) = []" "offers (model_words r) = []" "offers (mix_words m) = []"
  "offers (concat (map model_words rs)) = []"
  by (rule all_words, auto simp: strip_words_def kpi_words_def model_words_def mix_words_def split: option.splits)+

subsection \<open>The breakdown (Breakdown.tsx)\<close>

definition metric_texts :: "string \<times> delta_tag option \<Rightarrow> string list" where
  "metric_texts = (\<lambda>(v, d). v # (case d of None \<Rightarrow> [] | Some t \<Rightarrow> [dt_text t]))"

definition breakdown_texts :: "breakdown_row \<Rightarrow> string list" where
  "breakdown_texts r =
     br_name r # (case br_sub r of None \<Rightarrow> [] | Some s \<Rightarrow> [s]) @ metric_texts (br_runs r) @ metric_texts (br_avg r) @ metric_texts (br_cost r)
     @ [br_shareText r]"

definition breakdown_row_view :: "(BreakdownRowData \<Rightarrow> 'e) option \<Rightarrow> BreakdownRowData \<times> breakdown_row \<Rightarrow> 'e element list" where
  "breakdown_row_view onRow = (\<lambda>(row, r).
     case onRow of
       Some f \<Rightarrow> if br_clickable r then [RowPress False (breakdown_texts r) (f row)] else map Words (breakdown_texts r)
     | None \<Rightarrow> map Words (breakdown_texts r))"

definition breakdown_view ::
  "host \<Rightarrow> (string \<Rightarrow> string \<Rightarrow> rat) \<Rightarrow> (ColDef \<Rightarrow> 'e) \<Rightarrow> (BreakdownRowData \<Rightarrow> 'e) option \<Rightarrow> BreakdownRowData list \<Rightarrow> rat \<Rightarrow> BreakdownTab \<Rightarrow>
     string \<Rightarrow> SortKey \<Rightarrow> 'e element list" where
  "breakdown_view h collate onSort onRow rows totalCost kind nameLabel sortBy =
     map (\<lambda>c. PressButton (\<not> cd_sortable c) (cd_label c) (onSort c)) (breakdown_cols kind nameLabel)
     @ concat (map (breakdown_row_view onRow)
         (zip (breakdown_sorted collate sortBy rows) (breakdown h collate rows totalCost kind sortBy (onRow \<noteq> None))))"

text \<open>The rows that can be pressed are those of an attributed cost, where the table has a handler.\<close>

lemma breakdown_row_offers: "offers (breakdown_row_view onRow (row, r)) = (case onRow of Some f \<Rightarrow> if br_clickable r then [f row] else [] | None \<Rightarrow> [])"
proof -
  have "offers (map Words ws) = ([] :: 'a list)" for ws by (induction ws) simp_all
  then show ?thesis by (cases onRow) (simp_all add: breakdown_row_view_def)
qed

lemma breakdown_pairs:
  "(row, r) \<in> set (zip (breakdown_sorted collate s rows) (breakdown h collate rows tot kind s clk)) \<Longrightarrow>
     row \<in> set rows \<and> br_clickable r = (clk \<and> row_id row \<noteq> UNATTRIBUTED)"
proof -
  assume "(row, r) \<in> set (zip (breakdown_sorted collate s rows) (breakdown h collate rows tot kind s clk))"
  then obtain i where i: "i < length (breakdown_sorted collate s rows)" "row = breakdown_sorted collate s rows ! i"
    "r = breakdown h collate rows tot kind s clk ! i" by (auto simp: set_zip)
  have "set (breakdown_sorted collate s rows) = set rows" by (simp add: breakdown_sorted_def)
  then show ?thesis using i nth_mem [OF i(1)] by (simp add: breakdown_def Let_def breakdownRow_def)
qed

lemma breakdown_rows_pair: "row \<in> set rows \<Longrightarrow>
    \<exists>r. (row, r) \<in> set (zip (breakdown_sorted collate s rows) (breakdown h collate rows tot kind s clk))"
proof -
  assume "row \<in> set rows"
  then have "row \<in> set (breakdown_sorted collate s rows)" by (simp add: breakdown_sorted_def)
  moreover have "length (breakdown h collate rows tot kind s clk) = length (breakdown_sorted collate s rows)" by (simp add: breakdown_def Let_def)
  ultimately show ?thesis by (auto simp: set_zip in_set_conv_nth)
qed

lemma breakdown_view_offers:
  "e \<in> set (offers (breakdown_view h collate onSort onRow rows tot kind nameLabel s)) \<longleftrightarrow>
     (\<exists>c\<in>set (breakdown_cols kind nameLabel). cd_sortable c \<and> e = onSort c) \<or>
     (\<exists>f row. onRow = Some f \<and> row \<in> set rows \<and> row_id row \<noteq> UNATTRIBUTED \<and> e = f row)"
proof -
  let ?pairs = "zip (breakdown_sorted collate s rows) (breakdown h collate rows tot kind s (onRow \<noteq> None))"
  have rows: "offers (concat (map (breakdown_row_view onRow) ps)) = concat (map (\<lambda>p. offers (breakdown_row_view onRow p)) ps)" for ps
    by (induction ps) simp_all
  have "e \<in> set (offers (concat (map (breakdown_row_view onRow) ?pairs))) \<longleftrightarrow>
      (\<exists>f row. onRow = Some f \<and> row \<in> set rows \<and> row_id row \<noteq> UNATTRIBUTED \<and> e = f row)" (is "?l \<longleftrightarrow> ?r")
  proof
    assume ?l
    then obtain row r where p: "(row, r) \<in> set ?pairs" "e \<in> set (offers (breakdown_row_view onRow (row, r)))" unfolding rows by auto
    then show ?r using breakdown_pairs [OF p(1)] unfolding breakdown_row_offers by (auto split: option.splits if_splits)
  next
    assume ?r
    then obtain f row where f: "onRow = Some f" "row \<in> set rows" "row_id row \<noteq> UNATTRIBUTED" "e = f row" by blast
    obtain r where r: "(row, r) \<in> set ?pairs" using breakdown_rows_pair [OF f(2)] by blast
    have "br_clickable r" using breakdown_pairs [OF r] f by simp
    then have "e \<in> set (offers (breakdown_row_view onRow (row, r)))" unfolding breakdown_row_offers using f by simp
    then show ?l unfolding rows using r by force
  qed
  moreover have "e \<in> set (offers (map (\<lambda>c. PressButton (\<not> cd_sortable c) (cd_label c) (onSort c)) cs)) \<longleftrightarrow>
      (\<exists>c\<in>set cs. cd_sortable c \<and> e = onSort c)" for cs by (induction cs) auto
  ultimately show ?thesis unfolding breakdown_view_def map_append concat_append set_append Un_iff by blast
qed

subsection \<open>The tabs (TabPill, AttributeTab)\<close>

datatype usage_event =
    PickTab BreakdownTab
  | ToggleAttrs
  | AttrSearch string
  | PickAttr string
  | SortCol ColDef
  | OpenUsageRow BreakdownRowData

definition attributeTab :: "(string \<Rightarrow> string) \<Rightarrow> string list \<Rightarrow> string \<Rightarrow> bool \<Rightarrow> attr_tab \<Rightarrow> usage_event element list" where
  "attributeTab lower keys value active t =
     (let matches = attr_matches lower keys (at_query t) in
      [PressButton False (attr_label active value) ToggleAttrs]
      @ shown (at_open t)
          ([TextInput ''Search attributes'' (at_query t) False AttrSearch]
           @ shown (matches = []) [Words ''No matching attributes'']
           @ map (\<lambda>k. PressButton False k (PickAttr k)) matches))"

definition tabPill ::
  "(string \<Rightarrow> string) \<Rightarrow> BreakdownTab \<Rightarrow> (BreakdownTab \<times> string \<times> nat) list \<Rightarrow> (string list \<times> string) option \<Rightarrow> attr_tab \<Rightarrow> usage_event element list" where
  "tabPill lower tab tabs attribute t =
     map (\<lambda>(i, label, count). RowPress False [label, nat_str count] (PickTab i)) tabs
     @ (case attribute of
          None \<Rightarrow> []
        | Some (keys, value) \<Rightarrow> shown (keys \<noteq> []) (attributeTab lower keys value (tab = AttributeTab) t))"

definition usage_tabs :: "nat \<Rightarrow> nat \<Rightarrow> (BreakdownTab \<times> string \<times> nat) list" where
  "usage_tabs users workflows = [(UserTab, ''By client'', users), (WorkflowTab, ''By workflow'', workflows)]"

lemma pill_no_rows: "OpenUsageRow row \<notin> set (offers (tabPill lower tab tabs attribute t))" "SortCol c \<notin> set (offers (tabPill lower tab tabs attribute t))"
proof -
  have a: "set (offers (attributeTab lower keys v active t)) \<subseteq> insert ToggleAttrs (range PickAttr)" for keys v active
  proof -
    have "offers (map (\<lambda>k. PressButton False k (PickAttr k)) ks) = map PickAttr ks" for ks by (induction ks) simp_all
    then have "offers (attributeTab lower keys v active t) =
        ToggleAttrs # (if at_open t then map PickAttr (attr_matches lower keys (at_query t)) else [])"
      by (cases "at_open t"; cases "attr_matches lower keys (at_query t)") (simp_all add: attributeTab_def Let_def)
    then show ?thesis by auto
  qed
  have p: "set (offers (map (\<lambda>(i, label, count). RowPress False [label, nat_str count] (PickTab i)) tabs)) \<subseteq> range PickTab"
    by (induction tabs) auto
  have "set (offers (tabPill lower tab tabs attribute t)) \<subseteq> range PickTab \<union> insert ToggleAttrs (range PickAttr)"
  proof (cases attribute)
    case None
    then show ?thesis using p unfolding tabPill_def by (simp only: option.case append_Nil2) blast
  next
    case (Some kv)
    obtain keys v where kv: "kv = (keys, v)" by (cases kv)
    have "offers (shown (keys \<noteq> []) (attributeTab lower keys v (tab = AttributeTab) t)) =
        (if keys \<noteq> [] then offers (attributeTab lower keys v (tab = AttributeTab) t) else [])" by (rule offers_shown)
    then have "set (offers (shown (keys \<noteq> []) (attributeTab lower keys v (tab = AttributeTab) t))) \<subseteq> insert ToggleAttrs (range PickAttr)"
      using a [of keys v "tab = AttributeTab"] by (cases "keys = []") (simp_all only: simp_thms if_True if_False, simp)
    then show ?thesis using p unfolding tabPill_def Some kv option.case prod.case map_append concat_append set_append by blast
  qed
  then show "OpenUsageRow row \<notin> set (offers (tabPill lower tab tabs attribute t))" "SortCol c \<notin> set (offers (tabPill lower tab tabs attribute t))" by auto
qed

subsection \<open>Usage (UsageLivePage.tsx, UsagePage.tsx)\<close>

record usage_load =
  ul_kpis :: "KpiSet fetched"
  ul_cost :: "CostBucket list fetched"
  ul_errors :: "ErrorBucket list fetched"
  ul_models :: "ModelCost list fetched"
  ul_tokens :: "TokenBucket list fetched"
  ul_users :: "UserUsage list fetched"
  ul_workflows :: "WorkflowUsage list fetched"
  ul_attrKeys :: "string list option"
  ul_attr :: "AttributeUsage list fetched"
  ul_updated :: "string option"

definition kpis_ready :: "KpiSet fetched \<Rightarrow> KpiSet option" where
  "kpis_ready q = (if fe_isSuccess q then fe_data q else None)"

definition usage_userRows :: "usage_load \<Rightarrow> UserSummary list" where
  "usage_userRows q = (case fe_data (ul_users q) of None \<Rightarrow> [] | Some items \<Rightarrow> toUserSummaries items)"

definition usage_workflowRows :: "usage_load \<Rightarrow> WorkflowSummary list" where
  "usage_workflowRows q = (case fe_data (ul_workflows q) of None \<Rightarrow> [] | Some items \<Rightarrow> toWorkflowSummaries items)"

definition usage_attrRows :: "usage_load \<Rightarrow> AttributeSummary list" where
  "usage_attrRows q = (case fe_data (ul_attr q) of None \<Rightarrow> [] | Some items \<Rightarrow> toAttributeSummaries items)"

definition usage_tokenSeries :: "host \<Rightarrow> string \<Rightarrow> usage_load \<Rightarrow> TokenSeriesPoint list" where
  "usage_tokenSeries h rng q =
     (case (fe_data (ul_tokens q), fe_data (ul_errors q)) of (Some t, Some e) \<Rightarrow> toTokenSeries h t e rng | _ \<Rightarrow> [])"

text \<open>The table of the chosen tab.\<close>

definition usage_table ::
  "host \<Rightarrow> (string \<Rightarrow> string \<Rightarrow> rat) \<Rightarrow> string \<Rightarrow> usage_load \<Rightarrow> usage_page \<Rightarrow> usage_event element list" where
  "usage_table h collate rng q p =
     (case usage_view rng p of
        UserTab \<Rightarrow> section_view (fe_isLoading (ul_users q)) (fe_isError (ul_users q))
          (breakdown_view h collate SortCol (Some OpenUsageRow) (map UserRow (usage_userRows q)) (sumCost (map us_cost (usage_userRows q))) UserTab []
            (up_sortBy p))
      | WorkflowTab \<Rightarrow> section_view (fe_isLoading (ul_workflows q)) (fe_isError (ul_workflows q))
          (breakdown_view h collate SortCol None (map WorkflowRow (usage_workflowRows q)) (sumCost (map ws_cost (usage_workflowRows q))) WorkflowTab []
            (up_sortBy p))
      | AttributeTab \<Rightarrow> section_view (fe_isLoading (ul_attr q)) (fe_isError (ul_attr q))
          (breakdown_view h collate SortCol None (map AttributeRow (usage_attrRows q)) (sumCost (map as_cost (usage_attrRows q))) AttributeTab
            (activeAttr (nullish (ul_attrKeys q) []) p) (up_sortBy p)))"

definition usage_figures :: "host \<Rightarrow> bool \<Rightarrow> string \<Rightarrow> usage_load \<Rightarrow> 'e element list" where
  "usage_figures h narrow rng q =
     (let modelRows = (case fe_data (ul_models q) of None \<Rightarrow> [] | Some ms \<Rightarrow> toModelSummaries ms);
          tokens = map_option (\<lambda>_. total_tokens modelRows) (fe_data (ul_models q));
          users = (case fe_data (ul_users q) of None \<Rightarrow> 0 | Some us \<Rightarrow> length us);
          workflows = (case fe_data (ul_workflows q) of None \<Rightarrow> 0 | Some ws \<Rightarrow> length ws) in
      [Words ''Usage'', Words (usage_subtitle rng users workflows)] @ (case ul_updated q of None \<Rightarrow> [] | Some t \<Rightarrow> [Words t])
      @ section_view (fe_isLoading (ul_kpis q)) (fe_isError (ul_kpis q))
          (case fe_data (ul_kpis q) of None \<Rightarrow> [] | Some k \<Rightarrow> strip_words narrow [spendTile k, runsTile h k, tokensTile tokens])
      @ [Words ''Spend'', Words (if rng = ''24h'' then ''Hourly spend'' else ''Daily spend''), Words ''Cost'', Words ''Runs'']
      @ section_view (fe_isLoading (ul_cost q) \<or> fe_isLoading (ul_errors q)) (fe_isError (ul_cost q) \<or> fe_isError (ul_errors q)) [ChartBox ''daily'']
      @ [Words ''Models'', Words ''Where it goes'']
      @ section_view (fe_isLoading (ul_models q)) (fe_isError (ul_models q)) (concat (map model_words (modelsList h modelRows)))
      @ [Words ''Tokens'', Words ''Tokens in vs out'', Words ''Input'', Words ''Output'']
      @ section_view (fe_isLoading (ul_tokens q) \<or> fe_isLoading (ul_errors q)) (fe_isError (ul_tokens q) \<or> fe_isError (ul_errors q))
          [ChartBox ''tokens'']
      @ [Words ''Mix'', Words ''Token mix'']
      @ section_view (fe_isLoading (ul_tokens q) \<or> fe_isLoading (ul_errors q)) (fe_isError (ul_tokens q) \<or> fe_isError (ul_errors q))
          (mix_words (tokenMix h (usage_tokenSeries h rng q)))
      @ [SectionTitle ''Who's driving cost'' (Some ''Dot marks the top 75% of spend: the rows worth reviewing first.'')])"

definition usageLivePage ::
  "host \<Rightarrow> (string \<Rightarrow> string) \<Rightarrow> (string \<Rightarrow> string \<Rightarrow> rat) \<Rightarrow> bool \<Rightarrow> string \<Rightarrow> usage_load \<Rightarrow> usage_page \<times> attr_tab \<times> dash \<Rightarrow>
     usage_event element list" where
  "usageLivePage h lower collate narrow rng q = (\<lambda>(p, t, d).
     if usage_empty (kpis_ready (ul_kpis q))
     then [Words ''No usage yet'', Words ''Usage and cost metrics appear once data is flowing.'']
     else
       usage_figures h narrow rng q
       @ tabPill lower (usage_view rng p)
           (usage_tabs (length (nullish (fe_data (ul_users q)) [])) (length (nullish (fe_data (ul_workflows q)) [])))
           (Some (nullish (ul_attrKeys q) [], activeAttr (nullish (ul_attrKeys q) []) p)) t
       @ usage_table h collate rng q p)"

fun usage_react :: "usage_event \<Rightarrow> usage_page \<times> attr_tab \<times> dash \<Rightarrow> usage_page \<times> attr_tab \<times> dash" where
  "usage_react (PickTab i) (p, t, d) = (handleTabChange i p, t, d)"
| "usage_react ToggleAttrs (p, t, d) = (p, attr_toggle t, d)"
| "usage_react (AttrSearch s) (p, t, d) = (p, t\<lparr>at_query := s\<rparr>, d)"
| "usage_react (PickAttr k) (p, t, d) = (handleAttrSelect k p, t\<lparr>at_open := False\<rparr>, d)"
| "usage_react (SortCol c) (p, t, d) = (p\<lparr>up_sortBy := header_click c (up_sortBy p)\<rparr>, t, d)"
| "usage_react (OpenUsageRow row) (p, t, d) = (p, t, setView ''user'' (setSelected (openClient (row_id row)) d))"

text \<open>The preview: its tables have no handler for a row.\<close>

definition usagePage ::
  "host \<Rightarrow> (string \<Rightarrow> string) \<Rightarrow> (string \<Rightarrow> string \<Rightarrow> rat) \<Rightarrow> bool \<Rightarrow> UsageData \<Rightarrow> usage_page \<Rightarrow> attr_tab \<Rightarrow> usage_event element list" where
  "usagePage h lower collate narrow u p t =
     [Words ''Usage'',
      Words (ur_start (ud_range u) @ '' '' @ en_dash_text @ '' '' @ ur_end (ud_range u) @ '' '' @ mid_dot @ '' '' @ nat_str (length (ud_users u)) @
        '' active clients, '' @ nat_str (length (ud_workflows u)) @ '' workflows'')]
     @ strip_words narrow (kpiItems h u)
     @ [Words ''Spend'', Words ''Daily spend'', Words ''Cost'', Words ''Runs'', ChartBox ''daily'', Words ''Models'', Words ''Where it goes'']
     @ concat (map model_words (modelsList h (ud_models u)))
     @ [Words ''Tokens'', Words ''Tokens in vs out'', Words ''Input'', Words ''Output'', ChartBox ''tokens'', Words ''Mix'', Words ''Token mix'']
     @ mix_words (tokenMix h (ud_tokenSeries u))
     @ [SectionTitle ''Who's driving cost'' (Some ''Dot marks the top 75% of spend: the rows worth reviewing first.'')]
     @ tabPill lower (up_tab p) (usage_tabs (length (ud_users u)) (length (ud_workflows u))) None t
     @ (if up_tab p = UserTab
        then breakdown_view h collate SortCol None (map UserRow (ud_users u)) (ud_totalCost u) UserTab [] (up_sortBy p)
        else breakdown_view h collate SortCol None (map WorkflowRow (ud_workflows u)) (ud_totalCost u) WorkflowTab [] (up_sortBy p))"

lemma section_nil: "offers es = [] \<Longrightarrow> offers (section_view l f es) = []"
  by (simp add: section_view_def)

lemma offers_option: "offers (case x of None \<Rightarrow> [] | Some y \<Rightarrow> f y) = (case x of None \<Rightarrow> [] | Some y \<Rightarrow> offers (f y))"
  by (cases x) simp_all

lemma figures_offers: "offers (usage_figures h narrow rng q) = ([] :: usage_event list)"
proof -
  have "offers (section_view l f (case x of None \<Rightarrow> [] | Some k \<Rightarrow> strip_words narrow (g k))) = ([] :: usage_event list)" for l f x and g :: "KpiSet \<Rightarrow> KpiItem list"
    by (rule section_nil) (cases x, simp_all)
  moreover have "offers (case ul_updated q of None \<Rightarrow> [] | Some t \<Rightarrow> [Words t]) = ([] :: usage_event list)" by (cases "ul_updated q") simp_all
  moreover have "offers (section_view l f [ChartBox c]) = ([] :: usage_event list)"
    "offers (section_view l f (concat (map model_words rs))) = ([] :: usage_event list)"
    "offers (section_view l f (mix_words m)) = ([] :: usage_event list)" for l f c rs m
    by (rule section_nil, simp)+
  ultimately show ?thesis unfolding usage_figures_def Let_def by (simp only: map_append concat_append) simp
qed

lemma usage_row_offered:
  "OpenUsageRow row \<in> set (offers (usageLivePage h lower collate narrow rng q (p, t, d))) \<longleftrightarrow>
     \<not> usage_empty (kpis_ready (ul_kpis q)) \<and> usage_view rng p = UserTab \<and> \<not> fe_isLoading (ul_users q) \<and> \<not> fe_isError (ul_users q) \<and>
     row \<in> UserRow ` set (usage_userRows q) \<and> row_id row \<noteq> UNATTRIBUTED"
proof -
  have t: "OpenUsageRow row \<in> set (offers (usage_table h collate rng q p)) \<longleftrightarrow> usage_view rng p = UserTab \<and>
      \<not> fe_isLoading (ul_users q) \<and> \<not> fe_isError (ul_users q) \<and> row \<in> UserRow ` set (usage_userRows q) \<and> row_id row \<noteq> UNATTRIBUTED"
    by (cases "usage_view rng p") (simp_all only: usage_table_def BreakdownTab.case section_offers breakdown_view_offers, auto)
  show ?thesis
    by (cases "usage_empty (kpis_ready (ul_kpis q))")
      (simp_all only: usageLivePage_def prod.case if_True if_False map_append concat_append set_append Un_iff figures_offers t pill_no_rows, simp_all)
qed

text \<open>C34. The table of clients leads to every client: while it is shown, exactly the clients named in the answer of the server have a row that
  can be pressed, costs without a client have none, and a pressed row opens the page of its client.\<close>

theorem usage_leads_to_clients:
  assumes "\<not> usage_empty (kpis_ready (ul_kpis q))" "usage_view rng p = UserTab" "\<not> fe_isLoading (ul_users q)" "\<not> fe_isError (ul_users q)"
    and "fe_data (ul_users q) = Some items" "plain_view ''user'' d"
  shows "{row_id row | row. OpenUsageRow row \<in> set (offers (usageLivePage h lower collate narrow rng q (p, t, d)))} =
      uu_user_id ` set items - {[], UNATTRIBUTED} \<and>
    dash_body wsLoading wsError (snd (snd (usage_react (OpenUsageRow row) (p, t, d)))) = [UserPg (row_id row)]"
proof
  have ids: "us_id ` set (usage_userRows q) = (\<lambda>i. if i = [] then UNATTRIBUTED else i) ` uu_user_id ` set items"
    using assms(5) by (auto simp: usage_userRows_def toUserSummaries_def image_image)
  have "{row_id row | row. OpenUsageRow row \<in> set (offers (usageLivePage h lower collate narrow rng q (p, t, d)))} =
      us_id ` set (usage_userRows q) - {UNATTRIBUTED}"
    unfolding usage_row_offered using assms(1-4) by (force simp: image_iff)
  then show "{row_id row | row. OpenUsageRow row \<in> set (offers (usageLivePage h lower collate narrow rng q (p, t, d)))} =
      uu_user_id ` set items - {[], UNATTRIBUTED}" unfolding ids by auto
  show "dash_body wsLoading wsError (snd (snd (usage_react (OpenUsageRow row) (p, t, d)))) = [UserPg (row_id row)]"
    using plain_viewD(1) [OF assms(6)] by (simp add: dash_body_def openClient_def Let_def sel_def plain_viewD(2) [OF assms(6)])
qed

subsection \<open>The list of clients (UsersPage.tsx)\<close>

datatype clients_event = SearchClients string | ClearSearch | SortClients UserSortKey | OpenClient User

definition sortableHeader :: "SortState \<Rightarrow> string \<Rightarrow> UserSortKey \<Rightarrow> clients_event element" where
  "sortableHeader st label k =
     RowPress False [label, if so_desc st then [CHR 0xE2, CHR 0x96, CHR 0xBC] else [CHR 0xE2, CHR 0x96, CHR 0xB2]] (SortClients k)"

definition headerCell :: "SortState \<Rightarrow> user_col \<Rightarrow> clients_event element" where
  "headerCell st c = (case uc_sortKey c of Some k \<Rightarrow> sortableHeader st (uc_label c) k | None \<Rightarrow> Words (uc_label c))"

definition share_words :: "User list \<Rightarrow> rat \<Rightarrow> 'e element list" where
  "share_words users totalCost =
     ChartBox ''share'' # concat (map (\<lambda>(c, n, t). [Words n, Words t]) (share_legend users totalCost))
     @ (case share_rest users of None \<Rightarrow> [] | Some t \<Rightarrow> [Words t])"

definition client_row :: "host \<Rightarrow> int \<Rightarrow> user_col list \<Rightarrow> User \<Rightarrow> clients_event element list" where
  "client_row h now cols t =
     (let cells = map (\<lambda>c. user_cell h now (uc_key c) t) cols in
      if u_id t \<noteq> UNATTRIBUTED then [RowPress False cells (OpenClient t)] else map Words cells)"

definition usersPage ::
  "host \<Rightarrow> int \<Rightarrow> (string \<Rightarrow> string) \<Rightarrow> (string \<Rightarrow> string \<Rightarrow> rat) \<Rightarrow> bool \<Rightarrow> string \<Rightarrow> (int \<times> rat) option \<Rightarrow> string option \<Rightarrow> User list \<Rightarrow>
     users_page \<Rightarrow> clients_event element list" where
  "usersPage h now lower collate narrow period comparison updated users p =
     (let total = users_total users; listed = users_table lower collate p users; cols = visibleCols users in
      [Words ''Clients'',
       Words (period @ '' '' @ mid_dot @ '' '' @ nat_str (length users) @ '' active clients '' @ mid_dot @ '' '' @ fmtCost total @ '' this period'')]
      @ (case updated of None \<Rightarrow> [] | Some t \<Rightarrow> [Words t])
      @ strip_words narrow (users_kpis h users comparison)
      @ [Words ''Cost share'', Words (''Top 3 clients drive '' @ top3_share users @ ''% of spend this period.'')]
      @ share_words (users_by_cost users) total
      @ [Words ''All clients'', Words (users_shown (length listed) users), TextInput [] (pg_search p) False SearchClients]
      @ shown (pg_search p \<noteq> []) [PressButton False [CHR 0xC3, CHR 0x97] ClearSearch]
      @ map (headerCell (pg_sort p)) cols
      @ (if listed = [] then [Words ''No clients match this filter.''] else concat (map (client_row h now cols) listed)))"

fun clients_react :: "clients_event \<Rightarrow> users_page \<times> dash \<Rightarrow> users_page \<times> dash" where
  "clients_react (SearchClients s) (p, d) = (p\<lparr>pg_search := s\<rparr>, d)"
| "clients_react ClearSearch (p, d) = (p\<lparr>pg_search := []\<rparr>, d)"
| "clients_react (SortClients k) (p, d) = (p\<lparr>pg_sort := handleSort k (pg_sort p)\<rparr>, d)"
| "clients_react (OpenClient t) (p, d) =
     (case row_opens t (db_selected d) of None \<Rightarrow> (p, d) | Some (s, v) \<Rightarrow> (p, setView v (setSelected (\<lambda>_. s) d)))"

lemma client_rows_offers:
  "offers (concat (map (client_row h now cols) ts)) = map OpenClient (filter (\<lambda>t. u_id t \<noteq> UNATTRIBUTED) ts)"
proof -
  have "offers (map Words ws) = ([] :: clients_event list)" for ws by (induction ws) simp_all
  then have "offers (client_row h now cols t) = (if u_id t \<noteq> UNATTRIBUTED then [OpenClient t] else [])" for t
    by (simp add: client_row_def Let_def del: map_map)
  then show ?thesis by (induction ts) simp_all
qed

lemma client_offered:
  "OpenClient t \<in> set (offers (usersPage h now lower collate narrow period comparison updated users p)) \<longleftrightarrow>
     t \<in> set (users_table lower collate p users) \<and> u_id t \<noteq> UNATTRIBUTED"
proof -
  have w: "offers (share_words us c) = ([] :: clients_event list)" for us c
    by (rule all_words) (auto simp: share_words_def split: option.splits)
  have hd': "OpenClient t \<notin> set (offers (map (headerCell s) cs))" for s cs
    by (induction cs) (auto simp: headerCell_def sortableHeader_def split: option.splits)
  have u: "offers (case updated of None \<Rightarrow> [] | Some x \<Rightarrow> [Words x]) = ([] :: clients_event list)" by (cases updated) simp_all
  show ?thesis unfolding usersPage_def Let_def
    by (cases "users_table lower collate p users = []"; cases "pg_search p = []")
      (simp_all only: map_append concat_append set_append Un_iff w u words_offers hd' client_rows_offers simp_thms if_True if_False shown_simps, auto)
qed

text \<open>The list of clients leads to each of them: a row can be pressed exactly when its client is attributed and matches the search, whatever the
  order, and opens the page of that client; a search that is cleared lists all again.\<close>

theorem clients_lead_to_pages:
  assumes "plain_view ''user'' d"
  shows "(OpenClient t \<in> set (offers (usersPage h now lower collate narrow period comparison updated users p)) \<longleftrightarrow>
      t \<in> set (users_filtered lower (pg_search p) users) \<and> u_id t \<noteq> UNATTRIBUTED) \<and>
    (u_id t \<noteq> UNATTRIBUTED \<longrightarrow> dash_body wsLoading wsError (snd (clients_react (OpenClient t) (p, d))) = [UserPg (u_id t)]) \<and>
    (OpenClient t \<in> set (offers (usersPage h now lower collate narrow period comparison updated users (fst (clients_react ClearSearch (p, d))))) \<longleftrightarrow>
      t \<in> set users \<and> u_id t \<noteq> UNATTRIBUTED)"
proof -
  have "trim [] = []" by (simp add: trim_def)
  then show ?thesis unfolding client_offered
    using plain_viewD(1) [OF assms]
    by (simp add: users_table_def users_sorted_def users_filtered_def row_opens_def dash_body_def Let_def sel_def plain_viewD(2) [OF assms]) auto
qed

subsection \<open>The page of a client (UserDetailLivePage.tsx)\<close>

datatype client_event = ClientBack | ClientSort ColDef | ClientWorkflow BreakdownRowData | ClientTrace string

record client_load =
  cl_kpis :: "KpiSet fetched"
  cl_cost :: "CostBucket list fetched"
  cl_errors :: "ErrorBucket list fetched"
  cl_models :: "ModelCost list fetched"
  cl_workflows :: "WorkflowUsage list fetched"
  cl_traces :: "Trace list fetched"
  cl_updated :: "string option"

definition back_button :: "client_event element" where
  "back_button = PressButton False ([CHR 0xE2, CHR 0x86, CHR 0x90] @ '' All clients'') ClientBack"

definition client_workflowRows :: "client_load \<Rightarrow> WorkflowSummary list" where
  "client_workflowRows q = (case fe_data (cl_workflows q) of None \<Rightarrow> [] | Some items \<Rightarrow> toWorkflowSummaries items)"

definition client_figures ::
  "host \<Rightarrow> (string \<Rightarrow> string \<Rightarrow> rat) \<Rightarrow> bool \<Rightarrow> string \<Rightarrow> client_load \<Rightarrow> SortKey \<Rightarrow> KpiSet \<Rightarrow> client_event element list" where
  "client_figures h collate narrow rng q sortBy k =
     (let modelRows = (case fe_data (cl_models q) of None \<Rightarrow> [] | Some ms \<Rightarrow> toModelSummaries ms);
          tokens = map_option (\<lambda>_. total_tokens modelRows) (fe_data (cl_models q)) in
      strip_words narrow (toKpiItems h k tokens rng)
      @ [Words ''Spend'', Words (if rng = ''24h'' then ''Hourly spend'' else ''Daily spend''), Words ''Cost'', Words ''Runs'']
      @ section_view (fe_isLoading (cl_cost q) \<or> fe_isLoading (cl_errors q)) (fe_isError (cl_cost q) \<or> fe_isError (cl_errors q)) [ChartBox ''daily'']
      @ [Words ''Models'', Words ''Where it goes'']
      @ section_view (fe_isLoading (cl_models q)) (fe_isError (cl_models q)) (concat (map model_words (modelsList h modelRows)))
      @ [SectionTitle ''Workflows'' (Some ''What this client runs, and what each workflow costs. Select one to open it.'')]
      @ section_view (fe_isLoading (cl_workflows q)) (fe_isError (cl_workflows q))
          (breakdown_view h collate ClientSort (Some ClientWorkflow) (map WorkflowRow (client_workflowRows q))
            (sumCost (map ws_cost (client_workflowRows q))) WorkflowTab [] sortBy))"

definition client_runs_view :: "int \<Rightarrow> Trace list option \<Rightarrow> client_event element list" where
  "client_runs_view now traces =
     (case runsTable (client_runs now traces) (Some ''No traces in this period.'') False of
        (hd', RunsEmpty t) \<Rightarrow> map Words hd' @ [Words t]
      | (hd', RunsRows rows) \<Rightarrow>
          map Words hd' @ map (\<lambda>r. RowPress False (run_texts r) (ClientTrace (rc_opens r))) rows)"

definition clientPage ::
  "host \<Rightarrow> int \<Rightarrow> (string \<Rightarrow> string \<Rightarrow> rat) \<Rightarrow> bool \<Rightarrow> string \<Rightarrow> string \<Rightarrow> client_load \<Rightarrow> SortKey \<Rightarrow> client_event element list" where
  "clientPage h now collate narrow userId rng q sortBy =
     (case userDetailLivePage userId (kpis_ready (cl_kpis q)) of
        NoClient \<Rightarrow> [back_button, Words ''No client selected'', Words ''Pick a client from the Clients list.'']
      | ClientShown noUsage \<Rightarrow>
          [back_button, Words userId] @ map Words (client_subtitle now rng (fe_data (cl_traces q)) (client_workflowRows q))
          @ (case cl_updated q of None \<Rightarrow> [] | Some t \<Rightarrow> [Words t])
          @ section_view (fe_isLoading (cl_kpis q)) (fe_isError (cl_kpis q))
              (if noUsage then [Words ''No usage found'', Words ''This client has no activity in the selected workspace and period.'']
               else case fe_data (cl_kpis q) of None \<Rightarrow> [] | Some k \<Rightarrow> client_figures h collate narrow rng q sortBy k)
          @ [SectionTitle ''Recent traces'' (Some ''The client's latest runs, newest first.'')]
          @ section_view (fe_isLoading (cl_traces q)) (fe_isError (cl_traces q)) (client_runs_view now (fe_data (cl_traces q))))"

fun client_react :: "client_event \<Rightarrow> SortKey \<times> dash \<Rightarrow> SortKey \<times> dash" where
  "client_react ClientBack (s, d) = (s, setView ''users'' d)"
| "client_react (ClientSort c) (s, d) = (header_click c s, d)"
| "client_react (ClientWorkflow row) (s, d) =
     (let (sel', v) = client_openWorkflow (row_name row) (db_selected d) in (s, setView v (setSelected (\<lambda>_. sel') d)))"
| "client_react (ClientTrace i) (s, d) =
     (let (sel', v) = client_openTrace i (db_selected d) in (s, setView v (setSelected (\<lambda>_. sel') d)))"

lemma client_runs_offers: "offers (client_runs_view now traces) = map (ClientTrace \<circ> tr_trace_id) (nullish traces [])"
proof -
  have w: "offers (map Words ws) = ([] :: client_event list)" for ws by (induction ws) simp_all
  have r: "offers (map (\<lambda>r. RowPress False (f r) (ClientTrace (rc_opens r))) rs) = map (ClientTrace \<circ> rc_opens) rs" for f rs by (induction rs) simp_all
  have "map rc_opens (map (run_cells_of False) (client_runs now traces)) = map tr_trace_id (nullish traces [])"
    by (simp add: client_runs_def run_cells_of_def toRunRow_def comp_def Let_def)
  then show ?thesis
    by (cases "client_runs now traces = []")
      (simp_all only: client_runs_view_def runsTable_def prod.case runs_body.case if_True if_False map_append concat_append w r, simp_all add: client_runs_def map_map [symmetric] del: map_map)
qed

lemma client_figures_offers:
  "e \<in> set (offers (client_figures h collate narrow rng q sortBy k)) \<Longrightarrow>
     (\<exists>c. e = ClientSort c) \<or> (\<exists>row\<in>WorkflowRow ` set (client_workflowRows q). row_id row \<noteq> UNATTRIBUTED \<and> e = ClientWorkflow row)"
proof -
  have n: "offers (section_view l f [ChartBox c]) = ([] :: client_event list)"
    "offers (section_view l f (concat (map model_words rs))) = ([] :: client_event list)" for l f c rs
    by (rule section_nil, simp)+
  assume "e \<in> set (offers (client_figures h collate narrow rng q sortBy k))"
  then have "e \<in> set (offers (section_view (fe_isLoading (cl_workflows q)) (fe_isError (cl_workflows q))
      (breakdown_view h collate ClientSort (Some ClientWorkflow) (map WorkflowRow (client_workflowRows q))
        (sumCost (map ws_cost (client_workflowRows q))) WorkflowTab [] sortBy)))"
    unfolding client_figures_def Let_def by (simp only: map_append concat_append n words_offers) simp
  then show ?thesis unfolding section_offers breakdown_view_offers by auto
qed

lemma clientPage_offers:
  assumes "e \<in> set (offers (clientPage h now collate narrow userId rng q sortBy))"
  shows "e = ClientBack \<or> (\<exists>c. e = ClientSort c) \<or> (\<exists>row\<in>WorkflowRow ` set (client_workflowRows q). row_id row \<noteq> UNATTRIBUTED \<and> e = ClientWorkflow row) \<or>
    (\<exists>t\<in>set (nullish (fe_data (cl_traces q)) []). e = ClientTrace (tr_trace_id t))"
proof (cases "userDetailLivePage userId (kpis_ready (cl_kpis q))")
  case NoClient
  then show ?thesis using assms unfolding clientPage_def back_button_def by (simp only: client_page.case) simp
next
  case (ClientShown b)
  have w: "offers (map Words ws) = ([] :: client_event list)" for ws by (induction ws) simp_all
  have u: "offers (case cl_updated q of None \<Rightarrow> [] | Some t \<Rightarrow> [Words t]) = ([] :: client_event list)" by (cases "cl_updated q") simp_all
  let ?body = "if b then [Words ''No usage found'', Words ''This client has no activity in the selected workspace and period.'']
    else case fe_data (cl_kpis q) of None \<Rightarrow> [] | Some k \<Rightarrow> client_figures h collate narrow rng q sortBy k"
  have body: "(\<exists>c. e = ClientSort c) \<or> (\<exists>row\<in>WorkflowRow ` set (client_workflowRows q). row_id row \<noteq> UNATTRIBUTED \<and> e = ClientWorkflow row)"
    if "e \<in> set (offers ?body)"
    using that client_figures_offers [of e h collate narrow rng q sortBy] by (cases b; cases "fe_data (cl_kpis q)") (simp_all only: if_True if_False option.case, simp_all)
  have "e = ClientBack \<or> e \<in> set (offers (section_view (fe_isLoading (cl_kpis q)) (fe_isError (cl_kpis q)) ?body)) \<or>
      e \<in> set (offers (section_view (fe_isLoading (cl_traces q)) (fe_isError (cl_traces q)) (client_runs_view now (fe_data (cl_traces q)))))"
    using assms unfolding clientPage_def ClientShown client_page.case back_button_def
    by (simp only: map_append concat_append set_append Un_iff w u) auto
  then show ?thesis using body unfolding section_offers client_runs_offers by auto
qed

text \<open>The page of a client leads on: it always offers the way back to the list; a workflow it offers is one of the client's, and a trace one of
  the client's latest, and pressing either opens its page.\<close>

theorem client_page_leads_on:
  assumes "plain_view ''users'' d" "plain_view ''workflows'' d" "plain_view ''trace'' d" "\<not> db_embedded d"
  shows "ClientBack \<in> set (offers (clientPage h now collate narrow userId rng q sortBy)) \<and>
    dash_body wsLoading wsError (snd (client_react ClientBack (sortBy, d))) = [UsersPg] \<and>
    (ClientWorkflow row \<in> set (offers (clientPage h now collate narrow userId rng q sortBy)) \<and> row_name row \<noteq> [] \<longrightarrow>
       row \<in> WorkflowRow ` set (client_workflowRows q) \<and>
       dash_body wsLoading wsError (snd (client_react (ClientWorkflow row) (sortBy, d))) = [WorkflowDetailPg (row_name row)]) \<and>
    (ClientTrace i \<in> set (offers (clientPage h now collate narrow userId rng q sortBy)) \<and> i \<noteq> [] \<longrightarrow>
       i \<in> tr_trace_id ` set (nullish (fe_data (cl_traces q)) []) \<and>
       dash_body wsLoading wsError (snd (client_react (ClientTrace i) (sortBy, d))) = [TracePg i])"
proof (intro conjI impI)
  let ?offers = "set (offers (clientPage h now collate narrow userId rng q sortBy))"
  show "ClientBack \<in> ?offers"
    unfolding clientPage_def back_button_def by (cases "userDetailLivePage userId (kpis_ready (cl_kpis q))") (simp_all only: client_page.case, simp_all)
  show "dash_body wsLoading wsError (snd (client_react ClientBack (sortBy, d))) = [UsersPg]"
    using plain_viewD(1) [OF assms(1)] by (simp add: dash_body_def Let_def plain_viewD(2) [OF assms(1)])
next
  assume r: "ClientWorkflow row \<in> set (offers (clientPage h now collate narrow userId rng q sortBy)) \<and> row_name row \<noteq> []"
  show "row \<in> WorkflowRow ` set (client_workflowRows q)" using clientPage_offers [OF conjunct1 [OF r]] by auto
  show "dash_body wsLoading wsError (snd (client_react (ClientWorkflow row) (sortBy, d))) = [WorkflowDetailPg (row_name row)]"
    using r plain_viewD(1) [OF assms(2)] by (simp add: dash_body_def client_openWorkflow_def Let_def sel_def plain_viewD(2) [OF assms(2)])
next
  assume r: "ClientTrace i \<in> set (offers (clientPage h now collate narrow userId rng q sortBy)) \<and> i \<noteq> []"
  show "i \<in> tr_trace_id ` set (nullish (fe_data (cl_traces q)) [])" using clientPage_offers [OF conjunct1 [OF r]] by auto
  show "dash_body wsLoading wsError (snd (client_react (ClientTrace i) (sortBy, d))) = [TracePg i]"
    using r assms(4) plain_viewD(1) [OF assms(3)] by (simp add: dash_body_def client_openTrace_def Let_def sel_def plain_viewD(2) [OF assms(3)])
qed

subsection \<open>The preview of a client (UserDetailPage.tsx)\<close>

datatype td_event = TdBack | TdSort TdSortKey | TdFilter "TraceStatus option" | TdAllTraces | TdOpenTrace RecentTrace

definition TD_SUBS :: "string list" where
  [data_defs]: "TD_SUBS = [''vs prior 30d'', ''success rate'', ''of total'', ''vs prior 30d'', ''trending down'', ''vs prior 30d'']"

definition TD_COLS :: "(TdSortKey \<times> string) list" where
  [data_defs]: "TD_COLS = [(TdWorkflow, ''Workflow''), (TdCalls, ''Calls''), (TdSuccess, ''Success''), (TdFailedRuns, ''Failed''), (TdP95, ''P95''),
     (TdCost, ''Cost''), (TdAvg, ''Avg / call''), (TdGrowth, ''Growth'')]"

definition tdHeader :: "string \<Rightarrow> User \<Rightarrow> td_event element list" where
  "tdHeader initials u =
     [PressButton False ([CHR 0xE2, CHR 0x86, CHR 0x90] @ '' All clients'') TdBack, Words initials, Words (u_name u), Words (u_id u),
      Words (nullish (u_region u) ''us-west-2''), Words mid_dot, Words (''Active '' @ mid_dot @ '' last seen 2 minutes ago''), InertButton ''Configure'']"

definition tdKpiStrip :: "host \<Rightarrow> User \<Rightarrow> 'e element list" where
  "tdKpiStrip h u = concat (map (\<lambda>((l, v, d), s). map Words [l, v, d, s]) (zip (td_cells h u) TD_SUBS))"

definition tdCostChart :: "CostSeriesPoint list \<Rightarrow> 'e element list" where
  "tdCostChart series =
     map Words [''$'' @ to_fixed 2 (td_max series), ''$'' @ to_fixed 2 (td_max series * (1 / 2)), ''$0.00'']
     @ [ChartBox ''cost''] @ map (Words \<circ> snd) (tc_labels (td_cost_chart series 200))"

definition tdWorkflowTable :: "host \<Rightarrow> (string \<Rightarrow> string \<Rightarrow> rat) \<Rightarrow> td_sort \<Rightarrow> td_event element list" where
  "tdWorkflowTable h collate s =
     map (\<lambda>(k, l). RowPress False (l # (if ts_key s = k then [if ts_asc s then [CHR 0xE2, CHR 0x96, CHR 0xB2] else [CHR 0xE2, CHR 0x96, CHR 0xBC]] else []))
       (TdSort k)) TD_COLS
     @ concat (map (\<lambda>row. map (\<lambda>(k, l). Words (td_format h k row)) TD_COLS) (td_sorted collate s))"

definition tdStatusText :: "TraceStatus \<Rightarrow> string" where
  "tdStatusText s = (case s of TdCompleted \<Rightarrow> ''completed'' | TdFailed \<Rightarrow> ''failed'' | TdRunning \<Rightarrow> ''running'')"

definition tdTracesTable :: "TraceStatus option \<Rightarrow> td_event element list" where
  "tdTracesTable f =
     map (\<lambda>(i, l, n). RowPress False [l, nat_str n] (TdFilter i)) td_filterOptions
     @ [PressButton False (''View all traces '' @ [CHR 0xE2, CHR 0x86, CHR 0x92]) TdAllTraces]
     @ map Words [''Trace'', ''Status'', ''Started'', ''Cost'', ''Latency'']
     @ (if td_filtered f = [] then [Words ''No traces for this filter.'']
        else map (\<lambda>t. RowPress False [rt_workflow t, td_trace_note t, tdStatusText (rt_status t), rt_started t, ''$'' @ to_fixed 4 (rt_cost t),
          td_latency (rt_latency t)] (TdOpenTrace t)) (td_filtered f))"

text \<open>\<open>initials\<close> are those of the name, for which the code splits it at white space.\<close>

definition userDetailPage ::
  "host \<Rightarrow> (string \<Rightarrow> string \<Rightarrow> rat) \<Rightarrow> (rat \<Rightarrow> rat) \<Rightarrow> (string \<Rightarrow> string) \<Rightarrow> int \<Rightarrow> string option \<Rightarrow> td_sort \<times> TraceStatus option \<Rightarrow> td_event element list" where
  "userDetailPage h collate sine initials now selected = (\<lambda>(s, f).
     (let u = demo_client_of now selected in
      tdHeader (initials (u_name u)) u @ tdKpiStrip h u
      @ [SectionTitle (''Cost & runs '' @ mid_dot @ '' last 30 days'')
           (Some ''Hover the line for daily totals. Markers flag days exceeding the 14-day rolling baseline.'')]
      @ tdCostChart (demo_client_series sine u)
      @ [SectionTitle ''Usage by workflow'' (Some ''Per-workflow activity within this client. Click a row for the workflow's full timeline.'')]
      @ tdWorkflowTable h collate s
      @ [SectionTitle ''Recent traces'' (Some ''Live tail of this client's traffic. Click a row to inspect spans.'')]
      @ tdTracesTable f
      @ [SectionTitle ''Connection'' (Some ''How this client identifies itself to Tracium.'')]
      @ concat (map (\<lambda>(l, v). [Words l, Words v]) (td_connection u))))"

fun td_react :: "td_event \<Rightarrow> (td_sort \<times> TraceStatus option) \<times> dash \<Rightarrow> (td_sort \<times> TraceStatus option) \<times> dash" where
  "td_react TdBack (p, d) = (p, setView ''users'' d)"
| "td_react (TdSort k) ((s, f), d) = ((td_onSort k s, f), d)"
| "td_react (TdFilter f') ((s, f), d) = ((s, f'), d)"
| "td_react TdAllTraces (p, d) = (p, setView ''workflows'' d)"
| "td_react (TdOpenTrace t) (p, d) = (p, setView ''trace'' d)"

text \<open>All that the preview of a client offers: nothing opens a workflow, although the hint above the table says that a row does.\<close>

lemma demo_client_offers:
  "offers (userDetailPage h collate sine initials now selected (s, f)) =
     [TdBack] @ map (TdSort \<circ> fst) TD_COLS @ map (TdFilter \<circ> fst) td_filterOptions @ [TdAllTraces] @ map TdOpenTrace (td_filtered f)"
proof -
  have w: "offers (map Words ws) = ([] :: td_event list)" for ws by (induction ws) simp_all
  have k: "offers (tdKpiStrip h u) = ([] :: td_event list)" "offers (tdCostChart series) = ([] :: td_event list)"
    "offers (concat (map (\<lambda>(l, v). [Words l, Words v]) (td_connection u))) = ([] :: td_event list)" for u series
    by (rule all_words, auto simp: tdKpiStrip_def tdCostChart_def)+
  have rows: "offers (concat (map (\<lambda>row. map (\<lambda>(k, l). Words (td_format h k row)) cs) rs)) = ([] :: td_event list)" for cs rs
    by (rule all_words) auto
  have "offers (map (\<lambda>(k, l). RowPress False (g k l) (TdSort k)) cs) = map (TdSort \<circ> fst) cs" for g :: "TdSortKey \<Rightarrow> string \<Rightarrow> string list" and cs
    by (induction cs) auto
  then have t: "offers (tdWorkflowTable h collate s) = map (TdSort \<circ> fst) TD_COLS"
    unfolding tdWorkflowTable_def map_append concat_append rows by simp
  have fs: "offers (map (\<lambda>(i, l, n). RowPress False [l, nat_str n] (TdFilter i)) os) = map (TdFilter \<circ> fst) os" for os by (induction os) auto
  have ts: "offers (map (\<lambda>t. RowPress False (g t) (TdOpenTrace t)) xs) = map TdOpenTrace xs" for g and xs :: "RecentTrace list" by (induction xs) simp_all
  have tr: "offers (tdTracesTable f) = map (TdFilter \<circ> fst) td_filterOptions @ [TdAllTraces] @ map TdOpenTrace (td_filtered f)"
    unfolding tdTracesTable_def map_append concat_append fs w by (cases "td_filtered f = []") (simp_all only: if_True if_False ts, simp_all)
  show ?thesis unfolding userDetailPage_def prod.case Let_def
    by (simp only: map_append concat_append k t tr) (simp add: tdHeader_def)
qed

subsection \<open>Examples\<close>

definition unfetched :: "'a fetched" where
  "unfetched = \<lparr>fe_data = None, fe_isLoading = False, fe_isError = False, fe_isSuccess = False, fe_dataUpdatedAt = 0\<rparr>"

definition sample_usage :: "UserUsage list" where
  "sample_usage =
     [\<lparr>uu_user_id = ''a'', uu_cost = 1, uu_cost_prev = 0, uu_runs = 2, uu_runs_prev = 0, uu_trend = []\<rparr>,
      \<lparr>uu_user_id = [], uu_cost = 3, uu_cost_prev = 0, uu_runs = 1, uu_runs_prev = 0, uu_trend = []\<rparr>]"

definition sample_load :: usage_load where
  "sample_load = \<lparr>ul_kpis = unfetched, ul_cost = unfetched, ul_errors = unfetched, ul_models = unfetched, ul_tokens = unfetched,
     ul_users = loaded sample_usage, ul_workflows = unfetched, ul_attrKeys = None, ul_attr = unfetched, ul_updated = None\<rparr>"

theorem usage_leads_to_clients_witness:
  "(\<lambda>h lower collate. {row_id row | row. OpenUsageRow row \<in> set (offers (usageLivePage h lower collate False ''7d'' sample_load
      (usage_page_init, \<lparr>at_open = False, at_query = []\<rparr>, dash_with_workspace)))}) = (\<lambda>h lower collate. {''a''})"
proof (intro ext)
  fix h lower collate
  have q: "\<not> usage_empty (kpis_ready (ul_kpis sample_load))" "usage_view ''7d'' usage_page_init = UserTab"
    "\<not> fe_isLoading (ul_users sample_load)" "\<not> fe_isError (ul_users sample_load)" "fe_data (ul_users sample_load) = Some sample_usage"
    by (simp_all add: sample_load_def unfetched_def kpis_ready_def usage_empty_def usage_view_def usage_page_init_def loaded_def)
  have "uu_user_id ` set sample_usage - {[], UNATTRIBUTED} = {''a''}" by (auto simp: sample_usage_def UNATTRIBUTED_def em_dash_def)
  moreover have "plain_view ''user'' dash_with_workspace" by (rule dash_with_workspace_plain)
  note usage_leads_to_clients [OF q this, THEN conjunct1, of h lower collate False]
  ultimately show "{row_id row | row. OpenUsageRow row \<in> set (offers (usageLivePage h lower collate False ''7d'' sample_load
      (usage_page_init, \<lparr>at_open = False, at_query = []\<rparr>, dash_with_workspace)))} = {''a''}"
    by metis
qed

end
