(* ===== verification/Spec2Isabelle.thy ===== *)
theory Spec2Isabelle
  imports Dashboard_Frame Trace_View Json_Text Seed_Send Settings_View Keys_View Workflow_View Outliers_View Auth_View
    Usage_View
begin

text \<open>
  \<^bold>\<open>The Tracium dashboard.\<close> A model of the TypeScript application under \<open>dashboard/src\<close>: a browser application that shows the
  traces, costs, anomalies and usage of AI workflows. Its parts are a root component that holds the session (\<open>App.tsx\<close>,
  \<open>modules/auth\<close>, \<open>modules/invites\<close>), a client for the API (\<open>common/api\<close>) with one query hook per kind of data, a shell that
  keeps the navigation state in step with the URL and the history (\<open>modules/shell\<close>), and the pages the shell shows. Data
  flows from the client through pure mappers into the pages; the pages send the visitor's actions back through the client
  and through the callbacks of the shell and of the root component.

  \<^bold>\<open>Theories.\<close> Each opens with what it holds.
  \<^item> \<open>Prelude\<close>, \<open>Js_Text\<close>, \<open>Js_Num\<close>: the JavaScript the code uses. Insertion-ordered maps, stable sorting by a comparator (locale
    \<open>comparator\<close>), \<open>find\<close>, \<open>??\<close>; strings, \<open>split\<close>, \<open>trim\<close>, URI encoding with its round trip; numbers with infinities
    and \<open>NaN\<close>, rounding and \<open>toFixed\<close>. \<open>reach\<close> and the locale \<open>invariant_system\<close> carry the state machines.
  \<^item> \<open>Api_Types\<close>, \<open>Formatters\<close>: the records of the interfaces and the formatting of \<open>common/utils\<close>.
  \<^item> \<open>Api_Client\<close>: \<open>common/api\<close>, \<open>modules/auth/api.ts\<close>, \<open>modules/invites/api.ts\<close>. A request is a record, \<open>fetch\<close> a parameter;
    shown are the scope of reads and that identifiers stay in their path segment.
  \<^item> \<open>Session\<close>: \<open>App.tsx\<close>, \<open>auth.ts\<close>, \<open>pending.ts\<close>, \<open>QueryProvider.tsx\<close>. The handlers act on \<open>app\<close>, the state with the browser's
    storage, which may be unavailable; they refine an abstract session, every reachable state survives a reload, and an expired
    session ends wherever it is noticed.
  \<^item> \<open>Query_Hooks\<close>: the \<open>useQuery\<close> calls as key, request and guard; a cached answer is the answer to the request made,
    for four lists up to the parameter \<open>workspace_id\<close> of the request.
  \<^item> \<open>Routing\<close>, \<open>Shell\<close>: \<open>routing.ts\<close>, \<open>extensions.ts\<close>, \<open>Dashboard.tsx\<close>, the command palette, the workspace switcher, the bars. The
    record \<open>dash\<close> holds the state of the component with the history and the storage, \<open>dash_step\<close> its handlers, each
    followed by its effects (\<open>commit\<close>); shown are the invariant of the history, which may hold entries
    of other pages, Back and Forward, and deep links.
  \<^item> \<open>Dashboard_Frame\<close>: what the shell shows around its pages: the menu of workspaces as a dialog with its focus, the drawer,
    the controls of the sidebar, the top bar, the boundary for errors (\<open>ErrorBoundary.tsx\<close>) and \<open>TraceDetailView.tsx\<close>. Its transition
    system follows \<open>dash_step\<close> (locale \<open>simulation\<close>); shown are that an error is confined to its view and that the focus stays
    in the open menu.
  \<^item> \<open>Auth_Pages\<close>, \<open>Settings\<close>: the forms of \<open>LoginPage.tsx\<close>, \<open>SignupPage.tsx\<close>, \<open>InvitePage.tsx\<close> and \<open>SettingsPage.tsx\<close> over the session.
  \<^item> \<open>Traces\<close>, \<open>Trace_View\<close>, \<open>Demo_Trace\<close>, \<open>Json_Text\<close>: \<open>toTraceView.ts\<close> (the order of the spans, with cyclic parents), the
    timeline of \<open>TraceView.tsx\<close>, its demo data, and \<open>prettifyMaybeJson.ts\<close>.
  \<^item> \<open>Anomalies\<close>, \<open>Versions\<close>, \<open>Demo_Series\<close>: incidents and chart markers (\<open>anomalies.ts\<close>, \<open>status.ts\<close>), versions of workflows
    (\<open>versions.ts\<close>, \<open>outcomes.ts\<close>) and the seeded series of the demo (\<open>series.ts\<close>).
  \<^item> \<open>Overview\<close>: \<open>OverviewLivePage.tsx\<close>, the panel of outliers and the setup checks. Flags, rows and cards of the same anomaly
    belong together, and dismissing and muting hide exactly what they name.
  \<^item> \<open>Workflow_Pages\<close>: the list of workflows, the detail page with its cost alert and \<open>VersionCompareLivePage.tsx\<close>: the metrics
    charted, the points of the lines and the band in which both versions ran.
  \<^item> \<open>Demo_Pages\<close>: the data and pages of the preview (\<open>OverviewPage.tsx\<close>, \<open>WorkflowDetailPage.tsx\<close>, \<open>UserDetailPage.tsx\<close>) with the
    simulated feed, whose entries stay in order for as long as it runs.
  \<^item> \<open>Charts\<close>: the geometry of the charts. Bars, points and tooltip rows stay in their frames, flags do not overlap, lines
    break exactly at the gaps and every measured point is visible.
  \<^item> \<open>Display\<close>: the shared display components (\<open>KpiStrip.tsx\<close>, \<open>RunsTable.tsx\<close>, \<open>LastUpdated.tsx\<close>, \<open>VersionDropdown.tsx\<close> and the blocks of the
    overview) as the values they show; nothing of a change or a row is lost, and the time shown is at most ten seconds old.
  \<^item> \<open>Seed_Spans\<close>, \<open>Seed_Workflows\<close>, \<open>Seed_Run\<close>, \<open>Seed_Send\<close>: \<open>scripts/seed.mjs\<close> and \<open>scripts/seed-account.mjs\<close>, which fill a local
    installation. The span builder and the six simulated workflows are actions of the state monad over \<open>tracer\<close> (the 32-bit
    generator and the trace under way), with a rule of \<open>keeps\<close> per action; every trace made is a well-formed tree, every
    trace is sent once under the key of its workspace, and only the seeder's own keys are replaced.
  \<^item> \<open>Elements\<close>, \<open>Settings_View\<close>, \<open>Keys_View\<close>, \<open>Workflow_View\<close>, \<open>Outliers_View\<close>, \<open>Auth_View\<close>, \<open>Usage_View\<close>: pages as what they show and offer. A render is a
    list of \<open>element\<close>s (texts, buttons, fields, forms) with the event of each control; \<open>offers\<close> are the events an enabled control can
    raise, and a \<open>page_step\<close> is a press of one of them, typing into a field, or an answer of the server. The locale
    \<open>guarded_page\<close> turns an invariant kept by what a page offers into one of all states a visitor can reach. So are shown
    that requests are not repeated, that what is offered fits what is listed, and that buttons lead to the page they name, for
    \<open>SettingsPage.tsx\<close>, \<open>ApiKeysPage.tsx\<close>, \<open>WorkflowsPage.tsx\<close>, \<open>WorkflowDetailPage.tsx\<close>, \<open>VersionCompareLivePage.tsx\<close>,
    \<open>OutliersPanel.tsx\<close>, \<open>LoginPage.tsx\<close>, \<open>SignupPage.tsx\<close>, \<open>InvitePage.tsx\<close>, \<open>Breakdown.tsx\<close> and the pages of usage and clients
    (\<open>UsageLivePage.tsx\<close>, \<open>UsagePage.tsx\<close>, \<open>UsersPage.tsx\<close>, \<open>UserDetailLivePage.tsx\<close>, \<open>UserDetailPage.tsx\<close>), each composed with the
    dashboard or the session it acts on.
  \<^item> \<open>Usage\<close>, \<open>Breakdown\<close>, \<open>Clients\<close>, \<open>Api_Keys\<close>, \<open>Ui_Hooks\<close>: \<open>modules/usage\<close>, \<open>modules/api-keys\<close> and the shared hooks.

  \<^bold>\<open>Conventions.\<close> A string is the list of its UTF-8 bytes. Amounts are rationals and times integers: the rounding of binary
  floating point is not modelled. \<open>null\<close> and \<open>undefined\<close> are \<open>None\<close>, and a nested option tells them apart where the code does. An
  exception is \<open>Inl\<close> of an error, or \<open>None\<close> where only its occurrence matters. An asynchronous handler is split into its
  start and its end where other events can come in between (copying, creating a workspace, actions on members); where the
  form is disabled meanwhile, it is one step. What the host provides is a parameter: \<open>fetch\<close>, the locale functions (record
  \<open>host\<close>), \<open>toLowerCase\<close>, \<open>localeCompare\<close>, \<open>JSON.parse\<close>, \<open>JSON.stringify\<close>, route matching, random numbers and the clock. What a
  theorem needs of one is a hypothesis, such as that comparing strings is a comparator.

  \<^bold>\<open>Termination.\<close> Nothing runs on fuel: the walk over spans (\<open>visit_list\<close>) ends because every step marks a span or shortens a
  list. A query is repeated by the query library, which is not part of the program: that it ends after two requests follows from
  the retry rule of \<open>QueryProvider.tsx\<close> (\<open>query_retry\<close>) and the way the library asks it, a hypothesis.

  \<^bold>\<open>Interfaces.\<close> \<open>comparator\<close> (interpreted by the orders of severities, incidents, spans, rows, clients and chart flags), \<open>finite_store\<close> (by the
  maps), \<open>uri_codec\<close> (by the URI encoding), \<open>random_source\<close> (by both generators of random numbers), \<open>keyed_requests\<close> (by the query hooks), \<open>invariant_system\<close> (by the session, the
  dashboard, the key page, the copy button, the form for workspaces, the metrics of the comparison, the feed of the preview,
  the frame and the time of the last update), \<open>guarded_page\<close>, of which
  each instance is one of \<open>invariant_system\<close> (by the members, the form of the password, the settings, the keys, the comparison, the
  panel of outliers and the pages for signing in, signing up and invites), and \<open>simulation\<close> (by the frame over the dashboard).

  \<^bold>\<open>Not modelled.\<close> Styling, layout and animations, the markup of the pages not named above, with the components that have nothing else; in the scripts the console output,
  the reading of the JWT and the start of \<open>psql\<close>. The server and the collector are other programs, which the dashboard and
  the scripts meet through \<open>fetch\<close> only. \<open>types/openapi.d.ts\<close> is generated.
\<close>

end
